(* ===== verification/Prelude.thy ===== *)
theory Prelude
  imports Main "HOL-Library.Word" "HOL-Library.Sublist"
begin

text \<open>
  The shared layer of the development: the theorem collections the component proofs
  are run with, the machine integers the Go code uses, and the functions of Go's
  \<^verbatim>\<open>strings\<close>, \<^verbatim>\<open>strconv\<close> and \<^verbatim>\<open>utf8\<close> packages that the sources call,
  with the lemmas on them that more than one component needs.  A Go string is a byte
  sequence and is modelled as a \<^typ>\<open>string\<close>, whose characters are bytes.
\<close>

unbundle bit_operations_syntax

named_theorems go_string_simps \<open>unfolding rules for the string functions\<close>
named_theorems wf_intros \<open>introduction rules for the components' well-formedness predicates\<close>
named_theorems step_frames \<open>what a step of a component leaves unchanged\<close>

type_synonym u8 = "8 word"
type_synonym u16 = "16 word"
type_synonym u32 = "32 word"
type_synonym u64 = "64 word"
type_synonym i64 = "64 word"

text \<open>Go's integer division truncates towards zero.\<close>

definition goDiv :: "int \<Rightarrow> int \<Rightarrow> int" where
  "goDiv a b = sgn a * sgn b * (\<bar>a\<bar> div \<bar>b\<bar>)"

lemma goDiv_nonneg: "0 \<le> a \<Longrightarrow> 0 < b \<Longrightarrow> goDiv a b = a div b"
  by (cases "a = 0") (simp_all add: goDiv_def)

section \<open>Go's string functions\<close>

definition hasPrefix :: "string \<Rightarrow> string \<Rightarrow> bool" where
  "hasPrefix s p \<longleftrightarrow> take (length p) s = p"

definition hasSuffix :: "string \<Rightarrow> string \<Rightarrow> bool" where
  "hasSuffix s p \<longleftrightarrow> hasPrefix (rev s) (rev p)"

text \<open>\<^verbatim>\<open>strings.TrimLeft\<close> and \<^verbatim>\<open>strings.TrimRight\<close> with a cutset.\<close>

definition trimLeft :: "string \<Rightarrow> string \<Rightarrow> string" where
  "trimLeft s cutset = dropWhile (\<lambda>c. c \<in> set cutset) s"

definition trimRight :: "string \<Rightarrow> string \<Rightarrow> string" where
  "trimRight s cutset = rev (dropWhile (\<lambda>c. c \<in> set cutset) (rev s))"

definition trim :: "string \<Rightarrow> string \<Rightarrow> string" where
  "trim s cutset = trimRight (trimLeft s cutset) cutset"

text \<open>The ASCII white space of \<^verbatim>\<open>strings.TrimSpace\<close>.\<close>

definition goSpace :: string where
  "goSpace = [CHR '' '', CHR 0x09, CHR 0x0A, CHR 0x0B, CHR 0x0C, CHR 0x0D]"

definition trimSpace :: "string \<Rightarrow> string" where
  "trimSpace s = trim s goSpace"

text \<open>\<^verbatim>\<open>strings.Split\<close> at a one byte separator: always at least one part.\<close>

fun split :: "char \<Rightarrow> string \<Rightarrow> string list" where
  "split c [] = [[]]"
| "split c (x # xs) =
     (if x = c then [] # split c xs
      else (case split c xs of [] \<Rightarrow> [[x]] | p # ps \<Rightarrow> (x # p) # ps))"

text \<open>\<^verbatim>\<open>strings.SplitN(s, c, 2)\<close>: one part, or the two parts around the first separator.\<close>

definition splitN2 :: "char \<Rightarrow> string \<Rightarrow> string list" where
  "splitN2 c s =
     (if c \<in> set s then [takeWhile (\<lambda>x. x \<noteq> c) s, tl (dropWhile (\<lambda>x. x \<noteq> c) s)] else [s])"

text \<open>\<^verbatim>\<open>strings.Join\<close>.\<close>

fun join :: "string \<Rightarrow> string list \<Rightarrow> string" where
  "join sep [] = []"
| "join sep [x] = x"
| "join sep (x # y # zs) = x @ sep @ join sep (y # zs)"

text \<open>\<^verbatim>\<open>strings.Index\<close>: the first position of a substring; \<^const>\<open>None\<close> is Go's -1.\<close>

fun index :: "string \<Rightarrow> string \<Rightarrow> nat option" where
  "index [] sub = (if sub = [] then Some 0 else None)"
| "index (x # s) sub =
     (if hasPrefix (x # s) sub then Some 0 else map_option Suc (index s sub))"

section \<open>Decimal numbers\<close>

definition isDigit :: "char \<Rightarrow> bool" where
  "isDigit c \<longleftrightarrow> 48 \<le> (of_char c :: nat) \<and> (of_char c :: nat) \<le> 57"

definition digitVal :: "char \<Rightarrow> nat" where
  "digitVal c = of_char c - 48"

definition digitChar :: "nat \<Rightarrow> char" where
  "digitChar d = char_of (48 + d)"

text \<open>Decimal printing of a natural number (\<^verbatim>\<open>%d\<close> of an unsigned value) and its reader.\<close>

fun itoa :: "nat \<Rightarrow> string" where
  "itoa n = (if n < 10 then [digitChar n] else itoa (n div 10) @ [digitChar (n mod 10)])"

declare itoa.simps [simp del]

definition atoi :: "string \<Rightarrow> nat" where
  "atoi s = foldl (\<lambda>n c. 10 * n + digitVal c) 0 s"

definition itoaInt :: "int \<Rightarrow> string" where
  "itoaInt i = (if i < 0 then CHR ''-'' # itoa (nat (- i)) else itoa (nat i))"

datatype num_error = ErrSyntax | ErrRange

text \<open>
  \<^verbatim>\<open>strconv.ParseUint(s, 10, bits)\<close>: the value and the error.  On a syntax error the value
  is 0, on a value out of range it is the largest one of that width; callers that drop
  the error go on with that value.
\<close>

definition parseUint :: "nat \<Rightarrow> string \<Rightarrow> nat \<times> num_error option" where
  "parseUint bits s =
     (if s = [] \<or> \<not> list_all isDigit s then (0, Some ErrSyntax)
      else if atoi s < 2 ^ bits then (atoi s, None)
      else (2 ^ bits - 1, Some ErrRange))"

text \<open>\<^verbatim>\<open>strconv.ParseInt(s, 10, bits)\<close>: an optional sign, then digits; saturates like the above.\<close>

definition parseInt :: "nat \<Rightarrow> string \<Rightarrow> int \<times> num_error option" where
  "parseInt bits s =
     (let neg = (s \<noteq> [] \<and> hd s = CHR ''-'');
          ds = (if s \<noteq> [] \<and> (hd s = CHR ''-'' \<or> hd s = CHR ''+'') then tl s else s);
          cutoff = 2 ^ (bits - 1)
      in if ds = [] \<or> \<not> list_all isDigit ds then (0, Some ErrSyntax)
         else if \<not> neg \<and> atoi ds \<ge> cutoff then (int cutoff - 1, Some ErrRange)
         else if neg \<and> atoi ds > cutoff then (- int cutoff, Some ErrRange)
         else (if neg then - int (atoi ds) else int (atoi ds), None))"

text \<open>
  The scanning of \<^verbatim>\<open>fmt.Sscanf\<close>: the blanks it skips (a newline is an error), and \<^verbatim>\<open>%d\<close> into an \<^verbatim>\<open>int\<close>.  What
  follows the digits is not looked at.
\<close>

fun skipSpace :: "string \<Rightarrow> string option" where
  "skipSpace [] = Some []"
| "skipSpace (c # s) = (if c = CHR 0x0A then None else if c \<in> set goSpace then skipSpace s else Some (c # s))"

definition sscanf_int :: "string \<Rightarrow> int option" where
  "sscanf_int s =
     (case skipSpace s of
        None \<Rightarrow> None
      | Some t \<Rightarrow>
          let neg = (t \<noteq> [] \<and> hd t = CHR ''-'');
              u = (if t \<noteq> [] \<and> (hd t = CHR ''-'' \<or> hd t = CHR ''+'') then tl t else t);
              ds = takeWhile isDigit u;
              n = (if neg then - int (atoi ds) else int (atoi ds))
          in if ds = [] \<or> n < - (2 ^ 63) \<or> n \<ge> 2 ^ 63 then None else Some n)"

section \<open>Runes\<close>

text \<open>
  The number of bytes \<^verbatim>\<open>range\<close> over a Go string advances by: the length of the UTF-8
  sequence at the head of the string, 1 when there is no valid one.
\<close>

definition byteAt :: "string \<Rightarrow> nat \<Rightarrow> nat" where
  "byteAt s k = (if k < length s then of_char (s ! k) else 0)"

definition contByte :: "nat \<Rightarrow> bool" where
  "contByte b \<longleftrightarrow> 0x80 \<le> b \<and> b \<le> 0xBF"

definition runeWidth :: "string \<Rightarrow> nat" where
  "runeWidth s =
     (let b0 = byteAt s 0; b1 = byteAt s 1; b2 = byteAt s 2; b3 = byteAt s 3
      in if 0xC2 \<le> b0 \<and> b0 \<le> 0xDF \<and> contByte b1 then 2
         else if b0 = 0xE0 \<and> 0xA0 \<le> b1 \<and> b1 \<le> 0xBF \<and> contByte b2 then 3
         else if 0xE1 \<le> b0 \<and> b0 \<le> 0xEF \<and> b0 \<noteq> 0xED \<and> contByte b1 \<and> contByte b2 then 3
         else if b0 = 0xED \<and> 0x80 \<le> b1 \<and> b1 \<le> 0x9F \<and> contByte b2 then 3
         else if b0 = 0xF0 \<and> 0x90 \<le> b1 \<and> b1 \<le> 0xBF \<and> contByte b2 \<and> contByte b3 then 4
         else if 0xF1 \<le> b0 \<and> b0 \<le> 0xF3 \<and> contByte b1 \<and> contByte b2 \<and> contByte b3 then 4
         else if b0 = 0xF4 \<and> 0x80 \<le> b1 \<and> b1 \<le> 0x8F \<and> contByte b2 \<and> contByte b3 then 4
         else 1)"

lemma runeWidth_pos [simp]: "0 < runeWidth s"
  by (simp add: runeWidth_def Let_def)

lemma contByte_ge: "contByte b \<Longrightarrow> 0x80 \<le> b"
  by (simp add: contByte_def)

lemma runeWidth_cont:
  assumes "0 < k" "k < runeWidth s"
  shows "0x80 \<le> byteAt s k"
proof -
  consider "k = 1" | "k = 2" | "k = 3"
    using assms by (fastforce simp: runeWidth_def Let_def split: if_splits)
  then show ?thesis
    using assms(2)
    by cases (auto simp: runeWidth_def Let_def dest: contByte_ge split: if_splits)
qed

lemma runeWidth_le: "s \<noteq> [] \<Longrightarrow> runeWidth s \<le> length s"
proof (rule ccontr)
  assume s: "s \<noteq> []" and "\<not> runeWidth s \<le> length s"
  then have "0x80 \<le> byteAt s (length s)"
    by (intro runeWidth_cont) auto
  then show False by (simp add: byteAt_def)
qed

section \<open>The last elements of a list\<close>

definition lastn :: "nat \<Rightarrow> 'a list \<Rightarrow> 'a list" where
  "lastn k xs = drop (length xs - k) xs"

lemma lastn_short [simp]: "length xs \<le> k \<Longrightarrow> lastn k xs = xs"
  by (simp add: lastn_def)

lemma length_lastn [simp]: "length (lastn k xs) = min k (length xs)"
  by (simp add: lastn_def)

lemma lastn_append_right: "length vs = k \<Longrightarrow> lastn k (us @ vs) = vs"
  by (simp add: lastn_def)

lemma lastn_lastn_append: "lastn k (lastn k xs @ ys) = lastn k (xs @ ys)"
proof (cases "length xs \<le> k")
  case False
  define us where "us = take (length xs - k) xs"
  define vs where "vs = drop (length xs - k) xs"
  have xs: "xs = us @ vs" and len: "length vs = k"
    using False by (simp_all add: us_def vs_def)
  have "lastn k (vs @ ys) = lastn k (us @ vs @ ys)"
    using len by (simp add: lastn_def)
  with xs len show ?thesis by (simp add: lastn_append_right)
qed simp

section \<open>Lemmas on the string functions\<close>

lemma hasPrefix_iff: "hasPrefix s p \<longleftrightarrow> (\<exists>t. s = p @ t)"
  unfolding hasPrefix_def by (metis append_eq_conv_conj append_take_drop_id)

lemma hasPrefix_append [simp]: "hasPrefix (p @ t) p"
  by (simp add: hasPrefix_def)

lemma hasPrefix_Nil [simp]: "hasPrefix s []"
  by (simp add: hasPrefix_def)

lemma hasPrefix_of_Nil [simp]: "hasPrefix [] p \<longleftrightarrow> p = []"
  by (auto simp: hasPrefix_def)

lemma hasPrefix_Cons [simp]: "hasPrefix (x # s) (y # p) \<longleftrightarrow> x = y \<and> hasPrefix s p"
  by (auto simp: hasPrefix_def)

lemma split_nonempty [simp]: "split c s \<noteq> []"
  by (induction s) (auto split: list.splits)

lemma split_no_sep: "c \<notin> set s \<Longrightarrow> split c s = [s]"
  by (induction s) auto

lemma split_append_sep: "c \<notin> set p \<Longrightarrow> split c (p @ c # s) = p # split c s"
  by (induction p) auto

lemma join_Cons: "ps \<noteq> [] \<Longrightarrow> join sep (p # ps) = p @ sep @ join sep ps"
  by (cases ps) auto

lemma join_split: "join [c] (split c s) = s"
proof (induction s)
  case (Cons x xs)
  obtain p ps where ps: "split c xs = p # ps"
    by (cases "split c xs") auto
  show ?case
  proof (cases "x = c")
    case True
    with Cons ps show ?thesis by (simp add: join_Cons)
  next
    case False
    with Cons ps show ?thesis by (cases ps) auto
  qed
qed simp

lemma split_join:
  "ps \<noteq> [] \<Longrightarrow> (\<And>p. p \<in> set ps \<Longrightarrow> c \<notin> set p) \<Longrightarrow> split c (join [c] ps) = ps"
proof (induction ps)
  case (Cons p ps)
  then show ?case
    by (cases "ps = []") (auto simp: split_no_sep split_append_sep join_Cons)
qed simp

lemma set_split: "c \<notin> set p" if "p \<in> set (split c s)"
  using that by (induction s arbitrary: p) (auto split: if_splits list.splits)

lemma join_subset: "p \<in> set ps \<Longrightarrow> set p \<subseteq> set (join c ps)"
  by (induction c ps rule: join.induct) auto

lemma split_subset: "p \<in> set (split c s) \<Longrightarrow> set p \<subseteq> set s"
  using join_subset [of p "split c s" "[c]"] by (simp add: join_split)

lemma not_in_join: "c \<notin> set sep \<Longrightarrow> \<forall>t \<in> set ts. c \<notin> set t \<Longrightarrow> c \<notin> set (join sep ts)"
  by (induction sep ts rule: join.induct) auto

lemma splitN2_no_sep: "c \<notin> set s \<Longrightarrow> splitN2 c s = [s]"
  by (simp add: splitN2_def)

lemma splitN2_sep: "c \<notin> set p \<Longrightarrow> splitN2 c (p @ c # s) = [p, s]"
  by (simp add: splitN2_def takeWhile_append dropWhile_append)

lemma length_splitN2: "length (splitN2 c s) \<le> 2"
  by (simp add: splitN2_def)

lemma index_Some:
  "index s sub = Some n \<Longrightarrow> \<exists>post. s = take n s @ sub @ post \<and> n + length sub \<le> length s"
proof (induction s arbitrary: n)
  case Nil
  then show ?case by (auto split: if_splits)
next
  case (Cons x s)
  show ?case
  proof (cases "hasPrefix (x # s) sub")
    case True
    with Cons.prems have "n = 0" by simp
    moreover obtain t where "x # s = sub @ t" using True hasPrefix_iff by blast
    moreover from this have "length sub \<le> length (x # s)" by simp
    ultimately show ?thesis by auto
  next
    case False
    with Cons.prems obtain m where "n = Suc m" "index s sub = Some m"
      by auto
    with Cons.IH show ?thesis by fastforce
  qed
qed

lemma index_bound: "index s sub = Some n \<Longrightarrow> n + length sub \<le> length s"
  using index_Some by blast

section \<open>Lemmas on decimal numbers\<close>

lemma isDigit_digitChar: "d < 10 \<Longrightarrow> isDigit (digitChar d)"
  by (simp add: isDigit_def digitChar_def)

lemma digitVal_digitChar: "d < 10 \<Longrightarrow> digitVal (digitChar d) = d"
  by (simp add: digitVal_def digitChar_def)

lemma itoa_nonempty [simp]: "itoa n \<noteq> []"
  by (subst itoa.simps) simp

lemma itoa_digits: "list_all isDigit (itoa n)"
proof (induction n rule: itoa.induct)
  case (1 n)
  then show ?case
    by (subst itoa.simps) (auto simp: isDigit_digitChar)
qed

lemma atoi_itoa [simp]: "atoi (itoa n) = n"
proof (induction n rule: itoa.induct)
  case (1 n)
  show ?case
  proof (cases "n < 10")
    case True
    then show ?thesis by (subst itoa.simps) (simp add: atoi_def digitVal_digitChar)
  next
    case False
    with 1 have "atoi (itoa (n div 10)) = n div 10" by simp
    with False show ?thesis
      by (subst itoa.simps) (simp add: atoi_def digitVal_digitChar)
  qed
qed

lemma itoa_inject: "itoa m = itoa n \<longleftrightarrow> m = n"
  by (metis atoi_itoa)

lemma digit_not_in: "list_all isDigit s \<Longrightarrow> \<not> isDigit c \<Longrightarrow> c \<notin> set s"
  by (auto simp: list_all_iff)

lemma parseUint_itoa: "n < 2 ^ bits \<Longrightarrow> parseUint bits (itoa n) = (n, None)"
  by (simp add: parseUint_def itoa_digits)

lemma parseUint_bound: "fst (parseUint bits s) < 2 ^ bits"
  by (simp add: parseUint_def)

end
