(* ===== verification/Stream_Message.thy ===== *)
theory Stream_Message
  imports Prelude
begin

text \<open>
  \<^verbatim>\<open>base/pm/stream/message.go\<close>: the 64 bit meta word of a stream message (exit code in
  the upper half, level and flags in the lower one) and the message itself.  The words
  keep the widths of the source, so every shift and mask is the source's.
\<close>

section \<open>Levels and flags\<close>

type_synonym flag = u16
type_synonym meta = u64

definition StreamFlag :: flag where "StreamFlag = 1"
definition ExitSuccessFlag :: flag where "ExitSuccessFlag = 2"
definition ExitErrorFlag :: flag where "ExitErrorFlag = 4"

definition LevelStdout :: u16 where "LevelStdout = 1"
definition LevelStderr :: u16 where "LevelStderr = 2"
definition LevelCritical :: u16 where "LevelCritical = 9"
definition LevelStatsd :: u16 where "LevelStatsd = 10"
definition LevelResultJSON :: u16 where "LevelResultJSON = 20"

definition ResultMessageLevels :: "u16 list" where
  "ResultMessageLevels = [20, 21, 22, 23, 30]"

section \<open>The meta word\<close>

definition NewMeta :: "u16 \<Rightarrow> flag list \<Rightarrow> meta" where
  "NewMeta level flags =
     ucast (fold (\<lambda>f m. m OR ucast f) flags (push_bit 16 (ucast level :: u32)))"

definition NewMetaWithCode :: "u32 \<Rightarrow> u16 \<Rightarrow> flag list \<Rightarrow> meta" where
  "NewMetaWithCode code level flags = push_bit 32 (ucast code) OR NewMeta level flags"

definition Meta_Level :: "meta \<Rightarrow> u16" where
  "Meta_Level m = ucast (drop_bit 16 m AND 0xffff)"

definition Meta_Assert :: "meta \<Rightarrow> u16 list \<Rightarrow> bool" where
  "Meta_Assert m level = list_ex (\<lambda>lv. ucast (drop_bit 16 m AND 0xffff) = lv) level"

definition Meta_Is :: "meta \<Rightarrow> flag \<Rightarrow> bool" where
  "Meta_Is m f \<longleftrightarrow> ucast m AND f \<noteq> 0"

definition Meta_Set :: "meta \<Rightarrow> flag \<Rightarrow> meta" where
  "Meta_Set m f = m OR ucast f"

definition Meta_Code :: "meta \<Rightarrow> u32" where
  "Meta_Code m = ucast (drop_bit 32 m)"

definition Meta_Base :: "meta \<Rightarrow> meta" where
  "Meta_Base m = m AND 0xffffffff"

record message =
  Message :: string
  Epoch :: int
  Meta :: meta

definition Message_String :: "message \<Rightarrow> string" where
  "Message_String msg = itoa (unat (Meta_Level (Meta msg))) @ ''|'' @ Message msg"

section \<open>Lemmas\<close>

lemmas meta_defs = NewMeta_def NewMetaWithCode_def Meta_Level_def Meta_Assert_def Meta_Is_def
  Meta_Set_def Meta_Code_def Meta_Base_def

lemma mask16: "(0xffff :: 'a::len word) = mask 16"
  by (simp add: mask_eq_exp_minus_1)

lemma mask32: "(0xffffffff :: 'a::len word) = mask 32"
  by (simp add: mask_eq_exp_minus_1)

lemma bit_fold_or:
  "bit (fold (\<lambda>f m. m OR ucast f) fs (m :: u32)) n \<longleftrightarrow>
     bit m n \<or> n < 32 \<and> (\<exists>f \<in> set fs. bit (f :: u16) n)"
  by (induction fs arbitrary: m) (auto simp: bit_simps)

lemma bit_NewMeta:
  "bit (NewMeta l fs) n \<longleftrightarrow>
     16 \<le> n \<and> n < 32 \<and> bit l (n - 16) \<or> n < 16 \<and> (\<exists>f \<in> set fs. bit f n)"
  unfolding NewMeta_def by (auto simp: bit_fold_or bit_simps dest: bit_imp_le_length)

lemma bit_NewMetaWithCode:
  "bit (NewMetaWithCode c l fs) n \<longleftrightarrow>
     32 \<le> n \<and> n < 64 \<and> bit c (n - 32) \<or> bit (NewMeta l fs) n"
  unfolding NewMetaWithCode_def by (auto simp: bit_simps dest: bit_imp_le_length)

lemma bit_Meta_Level: "bit (Meta_Level m) n \<longleftrightarrow> n < 16 \<and> bit m (n + 16)"
  unfolding Meta_Level_def mask16 by (auto simp: bit_simps ac_simps dest: bit_imp_le_length)

lemma bit_Meta_Code: "bit (Meta_Code m) n \<longleftrightarrow> n < 32 \<and> bit m (n + 32)"
  unfolding Meta_Code_def by (auto simp: bit_simps ac_simps dest: bit_imp_le_length)

lemma bit_Meta_Base: "bit (Meta_Base m) n \<longleftrightarrow> n < 32 \<and> bit m n"
  unfolding Meta_Base_def mask32 by (auto simp: bit_simps dest: bit_imp_le_length)

lemma bit_Meta_Set: "bit (Meta_Set m f) n \<longleftrightarrow> bit m n \<or> n < 16 \<and> bit f n"
  unfolding Meta_Set_def by (auto simp: bit_simps dest: bit_imp_le_length)

lemmas meta_bits = bit_NewMeta bit_NewMetaWithCode bit_Meta_Level bit_Meta_Code bit_Meta_Base
  bit_Meta_Set

lemma Meta_Is_iff: "Meta_Is m f \<longleftrightarrow> (\<exists>n < 16. bit m n \<and> bit f n)"
  unfolding Meta_Is_def by (auto simp: bit_eq_iff bit_simps dest: bit_imp_le_length)

lemma Meta_Assert_iff: "Meta_Assert m ls \<longleftrightarrow> Meta_Level m \<in> set ls"
  by (auto simp: Meta_Assert_def Meta_Level_def list_ex_iff)

lemma Level_NewMetaWithCode [simp]: "Meta_Level (NewMetaWithCode c l fs) = l"
  by (rule bit_word_eqI) (auto simp: meta_bits)

lemma Code_NewMetaWithCode [simp]: "Meta_Code (NewMetaWithCode c l fs) = c"
  by (rule bit_word_eqI) (auto simp: meta_bits)

lemma Base_NewMetaWithCode [simp]: "Meta_Base (NewMetaWithCode c l fs) = NewMeta l fs"
  by (rule bit_word_eqI) (auto simp: meta_bits)

lemma Level_NewMeta [simp]: "Meta_Level (NewMeta l fs) = l"
  by (rule bit_word_eqI) (auto simp: meta_bits)

lemma Code_NewMeta [simp]: "Meta_Code (NewMeta l fs) = 0"
  by (rule bit_word_eqI) (auto simp: meta_bits)

lemma Base_NewMeta [simp]: "Meta_Base (NewMeta l fs) = NewMeta l fs"
  by (rule bit_word_eqI) (auto simp: meta_bits)

lemma Is_NewMeta: "Meta_Is (NewMeta l fs) g \<longleftrightarrow> (\<exists>f \<in> set fs. f AND g \<noteq> 0)"
  unfolding Meta_Is_iff by (auto simp: bit_NewMeta bit_eq_iff bit_simps dest: bit_imp_le_length)

lemma Is_NewMetaWithCode: "Meta_Is (NewMetaWithCode c l fs) g \<longleftrightarrow> (\<exists>f \<in> set fs. f AND g \<noteq> 0)"
  unfolding Meta_Is_iff
  by (auto simp: bit_NewMeta bit_NewMetaWithCode bit_eq_iff bit_simps dest: bit_imp_le_length)

lemma Is_Base [simp]: "Meta_Is (Meta_Base m) f = Meta_Is m f"
  by (auto simp: Meta_Is_iff bit_Meta_Base)

lemma Level_Base [simp]: "Meta_Level (Meta_Base m) = Meta_Level m"
  by (rule bit_word_eqI) (auto simp: meta_bits)

lemma Level_Set [simp]: "Meta_Level (Meta_Set m f) = Meta_Level m"
  by (rule bit_word_eqI) (auto simp: meta_bits)

lemma Code_Set [simp]: "Meta_Code (Meta_Set m f) = Meta_Code m"
  by (rule bit_word_eqI) (auto simp: meta_bits)

lemma Is_Set: "Meta_Is (Meta_Set m f) g \<longleftrightarrow> Meta_Is m g \<or> f AND g \<noteq> 0"
  unfolding Meta_Is_iff by (auto simp: bit_Meta_Set bit_eq_iff bit_simps dest: bit_imp_le_length)

section \<open>Properties\<close>

text \<open>
  The three parts of a meta word do not overlap and lose nothing: for every code,
  level and flag list, \<^verbatim>\<open>NewMetaWithCode\<close> gives a word from which \<^verbatim>\<open>Code\<close>, \<^verbatim>\<open>Level\<close> and
  \<^verbatim>\<open>Is\<close> read back exactly what was put in and whose \<^verbatim>\<open>Base\<close> is the word without the
  code, and every 64 bit word is the pack of its own code, level and low 16 bits.
\<close>

theorem meta_roundtrip:
  "Meta_Code (NewMetaWithCode c l fs) = c \<and> Meta_Level (NewMetaWithCode c l fs) = l \<and>
   (Meta_Is (NewMetaWithCode c l fs) g \<longleftrightarrow> (\<exists>f. f \<in> set fs \<and> f AND g \<noteq> 0)) \<and>
   Meta_Base (NewMetaWithCode c l fs) = NewMeta l fs \<and>
   NewMetaWithCode (Meta_Code m) (Meta_Level m) [ucast m] = m"
proof -
  have "NewMetaWithCode (Meta_Code m) (Meta_Level m) [ucast m] = m"
  proof (rule bit_word_eqI)
    fix n :: nat
    assume "n < LENGTH(64)"
    then show "bit (NewMetaWithCode (Meta_Code m) (Meta_Level m) [ucast m]) n \<longleftrightarrow> bit m n"
      by (cases "n < 32") (auto simp: meta_bits bit_simps)
  qed
  then show ?thesis
    by (auto simp: Is_NewMetaWithCode)
qed

end
