(* ===== verification/Stream_Buffer.thy ===== *)
theory Stream_Buffer
  imports Prelude
begin

text \<open>
  \<^verbatim>\<open>base/pm/stream/buffer.go\<close>: a linked list that keeps its last \<^verbatim>\<open>size\<close> elements.  The job
  uses two of them for the standard streams and one as backlog, the ledis logger one for
  its records; what they rely on is the \<^verbatim>\<open>keeps_last\<close> interface below.
\<close>

record 'a buffer =
  List :: "'a list"
  size :: int

definition NewBuffer :: "int \<Rightarrow> 'a buffer" where
  "NewBuffer n = \<lparr>List = [], size = n\<rparr>"

definition Buffer_Append :: "'a \<Rightarrow> 'a buffer \<Rightarrow> 'a buffer" where
  "Buffer_Append o' b =
     (let l = List b @ [o']
      in b\<lparr>List := (if int (length l) > size b then tl l else l)\<rparr>)"

text \<open>\<^verbatim>\<open>String\<close> of a buffer of strings, the only ones it is called on.\<close>

definition Buffer_String :: "string buffer \<Rightarrow> string" where
  "Buffer_String b = concat (List b)"

definition wf_buffer :: "'a buffer \<Rightarrow> bool" where
  "wf_buffer b \<longleftrightarrow> int (length (List b)) \<le> max 0 (size b)"

section \<open>The interface its clients rely on\<close>

text \<open>
  A client appends and reads the content.  The laws say what one append does to the
  content of a well-formed buffer; the lemma says what a whole run of appends leaves.
\<close>

locale keeps_last =
  fixes append :: "'a \<Rightarrow> 'b \<Rightarrow> 'b"
    and content :: "'b \<Rightarrow> 'a list"
    and capacity :: "'b \<Rightarrow> nat"
    and invar :: "'b \<Rightarrow> bool"
  assumes invar_append: "invar b \<Longrightarrow> invar (append x b)"
    and capacity_append: "capacity (append x b) = capacity b"
    and invar_length: "invar b \<Longrightarrow> length (content b) \<le> capacity b"
    and content_append: "invar b \<Longrightarrow> content (append x b) = lastn (capacity b) (content b @ [x])"
begin

lemma run_invar: "invar b \<Longrightarrow> invar (fold append xs b)"
  by (induction xs arbitrary: b) (auto simp: invar_append)

lemma run_capacity: "capacity (fold append xs b) = capacity b"
  by (induction xs arbitrary: b) (auto simp: capacity_append)

lemma run_content:
  "invar b \<Longrightarrow> content (fold append xs b) = lastn (capacity b) (content b @ xs)"
proof (induction xs arbitrary: b)
  case Nil
  then show ?case using invar_length by simp
next
  case (Cons x xs)
  then show ?case
    by (simp add: invar_append capacity_append content_append lastn_lastn_append)
qed

lemma run_length: "invar b \<Longrightarrow> length (content (fold append xs b)) \<le> capacity b"
  using run_invar invar_length run_capacity by metis

end

section \<open>The buffer provides it\<close>

lemma wf_NewBuffer [wf_intros]: "wf_buffer (NewBuffer n)"
  by (simp add: wf_buffer_def NewBuffer_def)

lemma List_NewBuffer [simp]: "List (NewBuffer n) = []"
  by (simp add: NewBuffer_def)

lemma size_NewBuffer [simp]: "size (NewBuffer n) = n"
  by (simp add: NewBuffer_def)

lemma size_Buffer_Append [step_frames, simp]: "size (Buffer_Append x b) = size b"
  by (simp add: Buffer_Append_def Let_def)

lemma wf_Buffer_Append [wf_intros]: "wf_buffer b \<Longrightarrow> wf_buffer (Buffer_Append x b)"
  by (auto simp: wf_buffer_def Buffer_Append_def Let_def max_def split: if_splits)

lemma List_Buffer_Append:
  "wf_buffer b \<Longrightarrow> List (Buffer_Append x b) = lastn (nat (size b)) (List b @ [x])"
proof -
  assume wf: "wf_buffer b"
  consider "int (length (List b)) + 1 \<le> size b" | "int (length (List b)) = size b"
    | "List b = []" "size b \<le> 0"
    using wf by (force simp: wf_buffer_def max_def split: if_splits)
  then show ?thesis
  proof cases
    case 2
    then have "nat (size b) = length (List b)" by simp
    with 2 show ?thesis
      by (cases "List b") (auto simp: Buffer_Append_def Let_def lastn_def)
  qed (auto simp: Buffer_Append_def Let_def lastn_def)
qed

interpretation buf: keeps_last Buffer_Append List "\<lambda>b. nat (size b)" wf_buffer
  by unfold_locales
    (auto simp: wf_Buffer_Append List_Buffer_Append wf_buffer_def max_def split: if_splits)

section \<open>Properties\<close>

text \<open>
  C39. Whatever is appended to a new buffer of size \<open>n\<close>, its content is exactly the last
  \<open>n\<close> appended elements in order (all of them while there are no more than \<open>n\<close>, none for
  a size that is not positive), and its string is their concatenation.
\<close>

theorem buffer_keeps_last:
  "List (fold Buffer_Append xs (NewBuffer n)) = lastn (nat n) xs \<and>
   Buffer_String (fold Buffer_Append ss (NewBuffer n)) = concat (lastn (nat n) ss)"
  by (simp add: Buffer_String_def buf.run_content wf_NewBuffer)

end
