(* ===== verification/Stream_Consumer.thy ===== *)
theory Stream_Consumer
  imports Stream_Message
begin

text \<open>
  \<^verbatim>\<open>base/pm/stream/input.go\<close>: the consumer that cuts the output of a process into messages.
  \<^verbatim>\<open>process\<close> is called on every chunk that was read; a single line message starts with
  \<open>level::\<close>, a multi line message with \<open>level:::\<close> and ends with a line \<open>:::\<close>; text with
  no header becomes a message of the stream's own level.  A multi line message may stay
  open between two chunks.  The model calls the handler by returning the messages in the
  order of the calls.
\<close>

section \<open>The consumer\<close>

definition multiLineTerm :: string where
  "multiLineTerm = [CHR 0x0A, CHR '':'', CHR '':'', CHR '':'', CHR 0x0A]"

definition multiLineHead :: string where
  "multiLineHead = [CHR '':'', CHR '':'', CHR '':'', CHR 0x0A]"

record consumer =
  c_level :: u16
  c_multi :: "string option"
  c_multiLevel :: u16

record header =
  h_level :: u16
  h_multiline :: bool
  h_length :: nat

text \<open>The match of \<^verbatim>\<open>^(\d+)(:{2,3})\<close> at the head of a buffer: the digits, how many colons.\<close>

definition headerPattern :: "string \<Rightarrow> (string \<times> nat) option" where
  "headerPattern b =
     (let ds = takeWhile isDigit b;
          colons = length (takeWhile (\<lambda>c. c = CHR '':'') (dropWhile isDigit b))
      in if ds \<noteq> [] \<and> 2 \<le> colons then Some (ds, min 3 colons) else None)"

definition getHeaderFromMatch :: "string \<times> nat \<Rightarrow> header" where
  "getHeaderFromMatch m =
     \<lparr>h_level = word_of_nat (fst (parseUint 16 (fst m))),
      h_multiline = (snd m = 3),
      h_length = length (fst m) + snd m\<rparr>"

text \<open>The index the \<^verbatim>\<open>range\<close> loop stops at: the newline, or the start of the last rune.\<close>

function lastRune :: "string \<Rightarrow> nat \<Rightarrow> nat \<Rightarrow> nat" where
  "lastRune b pos i =
     (if length b \<le> pos then i
      else if b ! pos = CHR 0x0A then pos
      else lastRune b (pos + runeWidth (drop pos b)) pos)"
  by pat_completeness auto
termination
  by (relation "measure (\<lambda>(b, pos, i). length b - pos)") (auto simp: diff_less_mono2)

declare lastRune.simps [simp del]

definition newLineOrEOF :: "string \<Rightarrow> nat" where
  "newLineOrEOF b = (let i = lastRune b 0 0 in if i + 1 = length b then i + 1 else i)"

definition bslice :: "string \<Rightarrow> nat \<Rightarrow> nat \<Rightarrow> string" where
  "bslice b from to = take (to - from) (drop from b)"

definition mkMessage :: "u16 \<Rightarrow> string \<Rightarrow> message" where
  "mkMessage level text = \<lparr>Message = text, Epoch = 0, Meta = NewMeta level []\<rparr>"

text \<open>
  The loop of \<^verbatim>\<open>process\<close> from position \<open>i\<close>, with \<open>start\<close> the first byte not yet given to the
  handler: the messages, the final \<open>start\<close>, and the text and level of a multi line
  message that stays open.
\<close>

function process_loop ::
  "u16 \<Rightarrow> string \<Rightarrow> nat \<Rightarrow> nat \<Rightarrow> message list \<times> nat \<times> (string \<times> u16) option" where
  "process_loop level buffer i start =
     (if length buffer \<le> i then ([], start, None)
      else case headerPattern (drop i buffer) of
        None \<Rightarrow> process_loop level buffer (i + newLineOrEOF (drop i buffer) + 1) start
      | Some m \<Rightarrow>
          (let flush = (if start < i then [mkMessage level (bslice buffer start i)] else []);
               h = getHeaderFromMatch m
           in if \<not> h_multiline h then
                (let start' = i + h_length h;
                     i' = start' + newLineOrEOF (drop start' buffer);
                     msg = (if i' = length buffer then bslice buffer start' i'
                            else bslice buffer start' (i' + 1));
                     (out, rest) = process_loop level buffer (i' + 1) (i' + 1)
                 in (flush @ mkMessage (h_level h) msg # out, rest))
              else
                (let j = i + h_length h
                 in case index (drop j buffer) multiLineTerm of
                      Some end' \<Rightarrow>
                        (let i' = j + end' + length multiLineTerm;
                             (out, rest) = process_loop level buffer (i' + 1) i'
                         in (flush @ mkMessage (h_level h) (bslice buffer j (j + end')) # out, rest))
                    | None \<Rightarrow> (flush, length buffer, Some (drop j buffer, h_level h)))))"
  by pat_completeness auto
termination
  by (relation "measure (\<lambda>(level, buffer, i, start). length buffer - i)") auto

declare process_loop.simps [simp del]

definition process_text :: "consumer \<Rightarrow> string \<Rightarrow> consumer \<times> message list" where
  "process_text c buffer =
     (let (out, start, open') = process_loop (c_level c) buffer 0 0;
          c' = (case open' of None \<Rightarrow> c
                | Some (text, level) \<Rightarrow> c\<lparr>c_multi := Some text, c_multiLevel := level\<rparr>);
          rest = (if start < length buffer then [mkMessage (c_level c) (drop start buffer)] else [])
      in (c', out @ rest))"

definition process :: "consumer \<Rightarrow> string \<Rightarrow> consumer \<times> message list" where
  "process c buffer =
     (case c_multi c of
        None \<Rightarrow> process_text c buffer
      | Some multi \<Rightarrow>
          if multi \<noteq> [] \<and> last multi = CHR 0x0A \<and> hasPrefix buffer multiLineHead then
            (let (c', out) = process_text (c\<lparr>c_multi := None\<rparr>) (drop 4 buffer)
             in (c', mkMessage (c_multiLevel c) multi # out))
          else (case index buffer multiLineTerm of
              Some end' \<Rightarrow>
                (let (c', out) = process_text (c\<lparr>c_multi := None\<rparr>)
                       (drop (end' + length multiLineTerm) buffer)
                 in (c', mkMessage (c_multiLevel c) (multi @ take end' buffer) # out))
            | None \<Rightarrow> (c\<lparr>c_multi := Some (multi @ buffer)\<rparr>, [])))"

text \<open>
  \<^verbatim>\<open>consume\<close>: every chunk read is processed, the one that came with the end of the file
  too; any other read error ends the loop at once, and the chunk it came with is lost.
\<close>

datatype read_result = ReadOK string | ReadEOF string | ReadError string

fun consume :: "consumer \<Rightarrow> read_result list \<Rightarrow> consumer \<times> message list" where
  "consume c [] = (c, [])"
| "consume c (ReadError b # rs) = (c, [])"
| "consume c (ReadEOF b # rs) = process c b"
| "consume c (ReadOK b # rs) =
     (let (c', out) = process c b; (c'', out') = consume c' rs in (c'', out @ out'))"

section \<open>What a stream means\<close>

text \<open>
  The text the handler was given, the text kept for a message that is still open, and
  the text a read delivered.  An item is one line of output, plain or with a header; the
  messages a list of items stands for are one per line with a header, and one of the
  stream's own level per maximal run of plain lines.
\<close>

definition open_text :: "(string \<times> u16) option \<Rightarrow> string" where
  "open_text mu = (case mu of None \<Rightarrow> [] | Some (t, l) \<Rightarrow> t)"

definition payload :: "message list \<Rightarrow> string" where
  "payload out = concat (map Message out)"

definition pending :: "consumer \<Rightarrow> string" where
  "pending c = (case c_multi c of None \<Rightarrow> [] | Some t \<Rightarrow> t)"

fun read_data :: "read_result \<Rightarrow> string" where
  "read_data (ReadOK b) = b"
| "read_data (ReadEOF b) = b"
| "read_data (ReadError b) = b"

datatype item = Text string | Line u16 string

fun encode_item :: "item \<Rightarrow> string" where
  "encode_item (Text t) = t @ [CHR 0x0A]"
| "encode_item (Line l t) = itoa (unat l) @ ''::'' @ t @ [CHR 0x0A]"

fun wf_item :: "item \<Rightarrow> bool" where
  "wf_item (Text t) \<longleftrightarrow> CHR 0x0A \<notin> set t \<and> headerPattern t = None"
| "wf_item (Line l t) \<longleftrightarrow> CHR 0x0A \<notin> set t \<and> (t = [] \<or> hd t \<noteq> CHR '':'')"

fun item_messages :: "u16 \<Rightarrow> string \<Rightarrow> item list \<Rightarrow> message list" where
  "item_messages level acc [] = (if acc = [] then [] else [mkMessage level acc])"
| "item_messages level acc (Text t # is) = item_messages level (acc @ t @ [CHR 0x0A]) is"
| "item_messages level acc (Line l t # is) =
     (if acc = [] then [] else [mkMessage level acc]) @
     mkMessage l (t @ [CHR 0x0A]) # item_messages level [] is"

definition stdoutConsumer :: consumer where
  "stdoutConsumer = \<lparr>c_level = 1, c_multi = None, c_multiLevel = 0\<rparr>"

section \<open>Lemmas\<close>

lemma lastRune_bound: "lastRune b pos i < length b \<or> lastRune b pos i = i"
proof (induction b pos i rule: lastRune.induct)
  case (1 b pos i)
  then show ?case
    by (subst (1 2) lastRune.simps) (auto split: if_splits)
qed

lemma newLineOrEOF_le: "newLineOrEOF b \<le> length b"
  using lastRune_bound [of b 0 0] by (auto simp: newLineOrEOF_def Let_def)

lemma byteAt_drop: "byteAt (drop n s) k = byteAt s (n + k)"
  by (auto simp: byteAt_def)

lemma lastRune_newline:
  assumes "CHR 0x0A \<notin> set p"
  shows "pos \<le> length p \<Longrightarrow> lastRune (p @ CHR 0x0A # q) pos i = length p"
proof (induction "p @ CHR 0x0A # q" pos i rule: lastRune.induct)
  case (1 pos i)
  let ?b = "p @ CHR 0x0A # q"
  show ?case
  proof (cases "pos = length p")
    case True
    then show ?thesis by (subst lastRune.simps) simp
  next
    case False
    with "1.prems" have pos: "pos < length p" by simp
    then have ne: "?b ! pos \<noteq> CHR 0x0A"
      using assms by (metis nth_append nth_mem)
    have le: "pos + runeWidth (drop pos ?b) \<le> length p"
    proof (rule ccontr)
      assume "\<not> ?thesis"
      then have "0x80 \<le> byteAt (drop pos ?b) (length p - pos)"
        using pos by (intro runeWidth_cont) auto
      then have "0x80 \<le> byteAt ?b (length p)"
        unfolding byteAt_drop using pos by simp
      then show False by (simp add: byteAt_def)
    qed
    with 1 pos ne show ?thesis by (subst lastRune.simps) simp
  qed
qed

lemma newLineOrEOF_newline:
  "CHR 0x0A \<notin> set p \<Longrightarrow>
   newLineOrEOF (p @ CHR 0x0A # q) = (if q = [] then length p + 1 else length p)"
  by (simp add: newLineOrEOF_def Let_def lastRune_newline)

lemma payload_simps [simp]: "payload [] = []" "payload (mkMessage l t # out) = t @ payload out"
  "payload (xs @ ys) = payload xs @ payload ys"
  by (simp_all add: payload_def mkMessage_def)

lemma drop_slice: "start \<le> i \<Longrightarrow> drop start b = bslice b start i @ drop i b"
  unfolding bslice_def by (metis append_take_drop_id drop_drop le_add_diff_inverse2)

lemma headerPattern_bound:
  assumes "headerPattern b = Some m"
  shows "0 < h_length (getHeaderFromMatch m) \<and> h_length (getHeaderFromMatch m) \<le> length b"
proof -
  have "length b = length (takeWhile isDigit b) + length (dropWhile isDigit b)"
    by (metis length_append takeWhile_dropWhile_id)
  moreover have "length (takeWhile (\<lambda>c. c = CHR '':'') (dropWhile isDigit b)) \<le> length (dropWhile isDigit b)"
    by (simp add: length_takeWhile_le)
  ultimately show ?thesis
    using assms by (auto simp: headerPattern_def getHeaderFromMatch_def Let_def split: if_splits)
qed

lemma subseq_drop: "subseq (drop n xs) xs"
  by (metis append_take_drop_id list_emb_append2 subseq_order.refl)

lemma subseq_skip: "subseq xs (drop n b) \<Longrightarrow> subseq xs b"
  using subseq_drop subseq_order.trans by blast

lemma subseq_drop_earlier: "subseq xs (drop (i + n) b) \<Longrightarrow> subseq xs (drop i b)"
  by (metis add.commute drop_drop subseq_skip)

lemma subseq_slice_drop:
  "i \<le> j \<Longrightarrow> subseq xs (drop j b) \<Longrightarrow> subseq (bslice b i j @ xs) (drop i b)"
  by (simp add: drop_slice [of i j] list_emb_append_mono)

lemma subseq_slice_later:
  "i \<le> k \<Longrightarrow> k \<le> j \<Longrightarrow> subseq xs (drop j b) \<Longrightarrow> subseq (bslice b i k @ xs) (drop i b)"
  by (rule subseq_slice_drop) (auto intro: subseq_skip [of _ "j - k"])

lemma process_loop_end: "length b \<le> i \<Longrightarrow> process_loop l b i start = ([], start, None)"
  by (subst process_loop.simps) simp

lemma process_loop_plain:
  "i < length b \<Longrightarrow> headerPattern (drop i b) = None \<Longrightarrow>
   process_loop l b i start = process_loop l b (i + newLineOrEOF (drop i b) + 1) start"
  by (subst process_loop.simps) simp

lemma process_loop_line:
  assumes "i < length b" "headerPattern (drop i b) = Some m" "\<not> h_multiline (getHeaderFromMatch m)"
    and "s = i + h_length (getHeaderFromMatch m)" "e = s + newLineOrEOF (drop s b)"
    and "process_loop l b (e + 1) (e + 1) = (out, rest)"
  shows "process_loop l b i start =
    ((if start < i then [mkMessage l (bslice b start i)] else []) @
     mkMessage (h_level (getHeaderFromMatch m)) (bslice b s (if e = length b then e else e + 1)) # out,
     rest)"
  using assms by (subst process_loop.simps) (auto simp: Let_def)

lemma process_loop_block:
  assumes "i < length b" "headerPattern (drop i b) = Some m" "h_multiline (getHeaderFromMatch m)"
    and "j = i + h_length (getHeaderFromMatch m)" "index (drop j b) multiLineTerm = Some e"
    and "process_loop l b (j + e + length multiLineTerm + 1) (j + e + length multiLineTerm) = (out, rest)"
  shows "process_loop l b i start =
    ((if start < i then [mkMessage l (bslice b start i)] else []) @
     mkMessage (h_level (getHeaderFromMatch m)) (bslice b j (j + e)) # out, rest)"
  using assms by (subst process_loop.simps) (auto simp: Let_def)

lemma process_loop_open:
  assumes "i < length b" "headerPattern (drop i b) = Some m" "h_multiline (getHeaderFromMatch m)"
    and "j = i + h_length (getHeaderFromMatch m)" "index (drop j b) multiLineTerm = None"
  shows "process_loop l b i start =
    (if start < i then [mkMessage l (bslice b start i)] else [], length b,
     Some (drop j b, h_level (getHeaderFromMatch m)))"
  using assms by (subst process_loop.simps) (auto simp: Let_def)

lemma process_loop_cases [consumes 0, case_names End Plain Line Block Open]:
  obtains "length b \<le> i"
  | "i < length b" "headerPattern (drop i b) = None"
  | m where "i < length b" "headerPattern (drop i b) = Some m" "\<not> h_multiline (getHeaderFromMatch m)"
  | m e where "i < length b" "headerPattern (drop i b) = Some m" "h_multiline (getHeaderFromMatch m)"
      "index (drop (i + h_length (getHeaderFromMatch m)) b) multiLineTerm = Some e"
  | m where "i < length b" "headerPattern (drop i b) = Some m" "h_multiline (getHeaderFromMatch m)"
      "index (drop (i + h_length (getHeaderFromMatch m)) b) multiLineTerm = None"
proof (cases "length b \<le> i")
  case False
  note lt = this
  show ?thesis
  proof (cases "headerPattern (drop i b)")
    case (Some m)
    then show ?thesis
      using that(3-5) [of m] lt
      by (cases "index (drop (i + h_length (getHeaderFromMatch m)) b) multiLineTerm") auto
  qed (use that(2) lt in auto)
qed (use that(1) in auto)

lemma loop_rest_subseq:
  assumes "subseq xs (drop i b)" "start \<le> i"
  shows "subseq (payload (if start < i then [mkMessage l (bslice b start i)] else []) @ xs) (drop start b)"
  using assms by (auto simp: subseq_slice_drop)

text \<open>What the loop hands out, then what it leaves, is taken from the buffer in order.\<close>

lemma process_loop_subseq:
  "start \<le> i \<Longrightarrow> process_loop l b i start = (out, st, mu) \<Longrightarrow>
   subseq (payload out @ drop st b @ open_text mu) (drop start b)"
proof (induction "length b - i" arbitrary: i start out rule: less_induct)
  case less
  show ?case
  proof (cases b i rule: process_loop_cases)
    case End
    with less.prems show ?thesis by (simp add: process_loop_end open_text_def)
  next
    case Plain
    with less.prems show ?thesis
      by (intro less.hyps [of "i + newLineOrEOF (drop i b) + 1"]) (auto simp: process_loop_plain)
  next
    case (Line m)
    let ?s = "i + h_length (getHeaderFromMatch m)"
    define e where "e = ?s + newLineOrEOF (drop ?s b)"
    have se: "?s \<le> e" by (simp add: e_def)
    obtain out' where r: "process_loop l b (e + 1) (e + 1) = (out', st, mu)"
      and out: "out = (if start < i then [mkMessage l (bslice b start i)] else []) @
        mkMessage (h_level (getHeaderFromMatch m)) (bslice b ?s (if e = length b then e else e + 1)) # out'"
      using process_loop_line [OF Line refl e_def] less.prems(2)
      by (cases "process_loop l b (e + 1) (e + 1)") fastforce
    have "subseq (payload out' @ drop st b @ open_text mu) (drop (e + 1) b)"
      by (rule less.hyps [OF _ le_refl r]) (use Line(1) in \<open>simp add: e_def\<close>)
    then have "subseq (bslice b ?s (if e = length b then e else e + 1) @ payload out' @ drop st b @ open_text mu) (drop ?s b)"
      by (rule subseq_slice_later [rotated 2]) (use se in simp_all)
    from loop_rest_subseq [OF subseq_drop_earlier [OF this] less.prems(1)] show ?thesis by (simp add: out)
  next
    case (Block m e)
    let ?j = "i + h_length (getHeaderFromMatch m)"
    let ?k = "?j + e + length multiLineTerm"
    obtain out' where r: "process_loop l b (?k + 1) ?k = (out', st, mu)"
      and out: "out = (if start < i then [mkMessage l (bslice b start i)] else []) @
        mkMessage (h_level (getHeaderFromMatch m)) (bslice b ?j (?j + e)) # out'"
      using process_loop_block [OF Block(1-3) refl Block(4)] less.prems(2)
      by (cases "process_loop l b (?k + 1) ?k") fastforce
    have "subseq (payload out' @ drop st b @ open_text mu) (drop ?k b)"
      by (rule less.hyps [OF _ _ r]) (use Block(1) in simp_all)
    then have "subseq (bslice b ?j (?j + e) @ payload out' @ drop st b @ open_text mu) (drop ?j b)"
      by (rule subseq_slice_later [rotated 2]) simp_all
    from loop_rest_subseq [OF subseq_drop_earlier [OF this] less.prems(1)] show ?thesis by (simp add: out)
  next
    case (Open m)
    let ?j = "i + h_length (getHeaderFromMatch m)"
    have "subseq (drop ?j b) (drop i b)"
      by (rule subseq_drop_earlier) (rule subseq_order.refl)
    from loop_rest_subseq [OF this less.prems(1)] show ?thesis
      using less.prems(2) process_loop_open [OF Open(1-3) refl Open(4), of l start]
      by (auto simp: open_text_def)
  qed
qed

lemma process_text_subseq:
  assumes "c_multi c = None" "process_text c b = (c', out)"
  shows "subseq (payload out @ pending c') b"
proof -
  obtain o1 st mu where r: "process_loop (c_level c) b 0 0 = (o1, st, mu)"
    by (cases "process_loop (c_level c) b 0 0") auto
  then have "subseq (payload o1 @ drop st b @ open_text mu) b"
    using process_loop_subseq [of 0 0, OF le_refl] by simp
  moreover have "payload out = payload o1 @ drop st b" "pending c' = open_text mu"
    using assms r by (auto simp: process_text_def pending_def open_text_def split: option.splits if_splits)
  ultimately show ?thesis by simp
qed

lemma process_subseq:
  assumes "process c b = (c', out)"
  shows "subseq (payload out @ pending c') (pending c @ b)"
proof (cases "c_multi c")
  case None
  then show ?thesis
    using assms process_text_subseq by (simp add: process_def pending_def)
next
  case (Some t)
  have cut: "subseq (t @ take n b @ payload o1 @ pending c1) (t @ b)"
    if "process_text (c\<lparr>c_multi := None\<rparr>) (drop (n + k) b) = (c1, o1)" for n k c1 o1
  proof -
    have "subseq (payload o1 @ pending c1) (drop n b)"
      using process_text_subseq [OF _ that] by (simp add: subseq_drop_earlier)
    then have "subseq (take n b @ payload o1 @ pending c1) (take n b @ drop n b)"
      by (simp only: list_emb_append_mono subseq_order.refl)
    then show ?thesis by (simp add: list_emb_append_mono)
  qed
  show ?thesis
  proof (cases "t \<noteq> [] \<and> last t = CHR 0x0A \<and> hasPrefix b multiLineHead")
    case True
    then show ?thesis
      using assms Some cut [of 0 4] by (auto simp: process_def pending_def split: prod.splits)
  next
    case no_head: False
    show ?thesis
    proof (cases "index b multiLineTerm")
      case None
      then show ?thesis using assms Some no_head by (auto simp: process_def pending_def)
    next
      case (Some e)
      obtain c1 o1 where r: "process_text (c\<lparr>c_multi := None\<rparr>) (drop (e + length multiLineTerm) b) = (c1, o1)"
        by fastforce
      then show ?thesis
        using assms \<open>c_multi c = Some t\<close> Some no_head cut [OF r]
        by (auto simp: process_def pending_def)
    qed
  qed
qed

lemma subseq_appendR: "subseq xs (xs @ ys)"
  using list_emb_append_mono [of "(=)" xs xs "[]" ys] by simp

lemma isDigit_punct [simp]: "\<not> isDigit (CHR '':'')" "\<not> isDigit (CHR 0x0A)"
  by (simp_all add: isDigit_def)

lemma headerPattern_newline: "headerPattern (t @ CHR 0x0A # q) = headerPattern t"
proof -
  have ds: "takeWhile isDigit (t @ CHR 0x0A # q) = takeWhile isDigit t"
    by (induction t) auto
  have dw: "dropWhile isDigit (t @ CHR 0x0A # q) = dropWhile isDigit t @ CHR 0x0A # q"
    by (induction t) auto
  have "takeWhile (\<lambda>c. c = CHR '':'') (u @ CHR 0x0A # q) = takeWhile (\<lambda>c. c = CHR '':'') u" for u
    by (induction u) auto
  with ds dw show ?thesis by (simp add: headerPattern_def)
qed

lemma headerPattern_line:
  assumes "t = [] \<or> hd t \<noteq> CHR '':''"
  shows "headerPattern (itoa n @ CHR '':'' # CHR '':'' # t) = Some (itoa n, 2)"
proof -
  have ds: "takeWhile isDigit (itoa n @ CHR '':'' # u) = itoa n" for u
    using itoa_digits [of n] by (simp add: takeWhile_append list_all_iff)
  have dw: "dropWhile isDigit (itoa n @ CHR '':'' # u) = CHR '':'' # u" for u
    using itoa_digits [of n] by (simp add: dropWhile_append list_all_iff)
  have "takeWhile (\<lambda>c. c = CHR '':'') t = []"
    using assms by (cases t) auto
  with ds dw show ?thesis by (simp add: headerPattern_def)
qed

lemma header_line [simp]:
  "getHeaderFromMatch (itoa (unat l), n) = \<lparr>h_level = l, h_multiline = (n = 3), h_length = length (itoa (unat l)) + n\<rparr>"
proof -
  have "unat l < 2 ^ 16" using unsigned_less [of l] by simp
  then show ?thesis by (simp add: getHeaderFromMatch_def parseUint_itoa)
qed

lemma bslice_mid: "length u = i \<Longrightarrow> length v = n \<Longrightarrow> bslice (u @ v @ w) i (i + n) = v"
  by (simp add: bslice_def)

lemma encode_item_nonempty [simp]: "encode_item it \<noteq> []"
  by (cases it) auto

lemma process_loop_items:
  assumes "list_all wf_item its" "b = pre @ acc @ concat (map encode_item its)"
  shows "\<exists>out st. process_loop l b (length pre + length acc) (length pre) = (out, st, None) \<and>
     out @ (if st < length b then [mkMessage l (drop st b)] else []) = item_messages l acc its"
  using assms
proof (induction its arbitrary: pre acc)
  case Nil
  then show ?case by (auto simp: process_loop_end)
next
  case (Cons it its)
  let ?tl = "concat (map encode_item its)"
  show ?case
  proof (cases it)
    case (Text t)
    have wf: "CHR 0x0A \<notin> set t" "headerPattern t = None" using Cons.prems Text by auto
    let ?i = "length pre + length acc"
    have d: "drop ?i b = t @ CHR 0x0A # ?tl" using Cons.prems Text by simp
    have n: "process_loop l b ?i (length pre) = process_loop l b (?i + newLineOrEOF (t @ CHR 0x0A # ?tl) + 1) (length pre)"
      using process_loop_plain [of ?i b] Cons.prems Text wf d by (simp add: headerPattern_newline)
    show ?thesis
    proof (cases "its = []")
      case True
      then show ?thesis
        using Cons.prems Text n wf by (simp add: newLineOrEOF_newline process_loop_end)
    next
      case False
      then have "process_loop l b ?i (length pre) = process_loop l b (length pre + length (acc @ t @ [CHR 0x0A])) (length pre)"
        using n wf by (simp add: newLineOrEOF_newline add.assoc)
      then show ?thesis
        using Cons.IH [of pre "acc @ t @ [CHR 0x0A]"] Cons.prems Text by simp
    qed
  next
    case (Line k t)
    let ?i = "length pre + length acc"
    let ?h = "itoa (unat k) @ ''::''"
    let ?s = "?i + length ?h"
    have wf: "CHR 0x0A \<notin> set t" "t = [] \<or> hd t \<noteq> CHR '':''" using Cons.prems Line by auto
    have b: "b = (pre @ acc @ ?h) @ (t @ [CHR 0x0A]) @ ?tl" using Cons.prems Line by simp
    then have di: "drop ?i b = itoa (unat k) @ CHR '':'' # CHR '':'' # (t @ CHR 0x0A # ?tl)"
      and ds: "drop ?s b = t @ CHR 0x0A # ?tl" and lt: "?i < length b" by simp_all
    have hp: "headerPattern (drop ?i b) = Some (itoa (unat k), 2)"
      unfolding di by (rule headerPattern_line) (use wf in \<open>cases t; simp\<close>)
    define e where "e = ?s + newLineOrEOF (drop ?s b)"
    have e: "e = (if ?tl = [] then length b else ?s + length t)"
      using wf by (simp add: e_def ds newLineOrEOF_newline b)
    have tline: "bslice b ?s (if e = length b then e else e + 1) = t @ [CHR 0x0A]"
      using e by (auto simp: b bslice_def)
    obtain out st where r: "process_loop l b (e + 1) (e + 1) = (out, st, None)"
      and msgs: "out @ (if st < length b then [mkMessage l (drop st b)] else []) = item_messages l [] its"
    proof (cases "its = []")
      case True
      then show ?thesis using that e by (simp add: process_loop_end)
    next
      case False
      then have "e + 1 = length (pre @ acc @ encode_item it)" using e Line by simp
      then show ?thesis
        using Cons.IH [of "pre @ acc @ encode_item it" "[]"] Cons.prems that by auto
    qed
    have fl: "(if length pre < ?i then [mkMessage l (bslice b (length pre) ?i)] else []) =
        (if acc = [] then [] else [mkMessage l acc])"
      by (auto simp: b bslice_def)
    show ?thesis
      using process_loop_line [OF lt hp _ _ e_def r, of "length pre"] msgs tline fl Line by auto
  qed
qed

lemma headerPattern_block:
  "headerPattern (itoa n @ CHR '':'' # CHR '':'' # CHR '':'' # t) = Some (itoa n, 3)"
proof -
  have ds: "takeWhile isDigit (itoa n @ CHR '':'' # u) = itoa n" for u
    using itoa_digits [of n] by (simp add: takeWhile_append list_all_iff)
  have dw: "dropWhile isDigit (itoa n @ CHR '':'' # u) = CHR '':'' # u" for u
    using itoa_digits [of n] by (simp add: dropWhile_append list_all_iff)
  show ?thesis by (simp add: headerPattern_def ds dw)
qed

lemma process_text_Nil [simp]: "process_text c [] = (c, [])"
  by (simp add: process_text_def process_loop_end)

lemma process_opens_block:
  assumes "c_multi c = None" "index t multiLineTerm = None"
  shows "process c (itoa (unat l) @ '':::'' @ t) = (c\<lparr>c_multi := Some t, c_multiLevel := l\<rparr>, [])"
proof -
  let ?b = "itoa (unat l) @ '':::'' @ t"
  have "process_loop k ?b 0 0 = ([], length ?b, Some (t, l))" for k
    using process_loop_open [of 0 ?b "(itoa (unat l), 3)" _ k 0] assms(2)
    by (simp add: headerPattern_block)
  then show ?thesis using assms(1) by (simp add: process_def process_text_def)
qed

lemma process_extends_block:
  assumes "c_multi c = Some t" "index b multiLineTerm = None" "\<not> hasPrefix b multiLineHead"
  shows "process c b = (c\<lparr>c_multi := Some (t @ b)\<rparr>, [])"
  using assms by (simp add: process_def)

lemma process_ends_block:
  assumes "c_multi c = Some t" "index (b @ multiLineTerm) multiLineTerm = Some (length b)"
    and "\<not> hasPrefix (b @ multiLineTerm) multiLineHead"
  shows "process c (b @ multiLineTerm) = (c\<lparr>c_multi := None\<rparr>, [mkMessage (c_multiLevel c) (t @ b)])"
  using assms by (simp add: process_def)

lemma consume_open_block:
  assumes "c_multi c = Some t"
    and "\<forall>m \<in> set mid. index m multiLineTerm = None \<and> \<not> hasPrefix m multiLineHead"
    and "index (b @ multiLineTerm) multiLineTerm = Some (length b)"
    and "\<not> hasPrefix (b @ multiLineTerm) multiLineHead"
  shows "consume c (map ReadOK mid @ [ReadOK (b @ multiLineTerm)]) =
    (c\<lparr>c_multi := None\<rparr>, [mkMessage (c_multiLevel c) (t @ concat mid @ b)])"
  using assms
proof (induction mid arbitrary: c t)
  case Nil
  then show ?case by (simp add: process_ends_block)
next
  case (Cons m mid)
  then show ?case by (simp add: process_extends_block)
qed

lemmas eval_consumer = process_def process_text_def process_loop.simps headerPattern_def getHeaderFromMatch_def
  parseUint_def atoi_def digitVal_def isDigit_def newLineOrEOF_def lastRune.simps runeWidth_def byteAt_def
  multiLineTerm_def multiLineHead_def bslice_def stdoutConsumer_def hasPrefix_def Let_def

section \<open>Properties\<close>

text \<open>
  Whatever is read, in whatever chunks, the consumer neither invents nor reorders
  bytes: the texts of the messages it hands out, followed by the text it keeps for an
  open message, are a subsequence of the bytes it had kept before followed by the bytes
  read.  What is left out are headers, terminators and, after a read error, the chunk
  that came with the error.
\<close>

theorem consume_subseq:
  "subseq (payload (snd (consume c rs)) @ pending (fst (consume c rs)))
     (pending c @ concat (map read_data rs))"
proof (induction rs arbitrary: c)
  case (Cons r rs)
  show ?case
  proof (cases r)
    case (ReadOK b)
    obtain c1 o1 where p: "process c b = (c1, o1)" by (cases "process c b")
    have "subseq (payload o1 @ payload (snd (consume c1 rs)) @ pending (fst (consume c1 rs)))
        (payload o1 @ pending c1 @ concat (map read_data rs))"
      using Cons.IH by (simp add: list_emb_append_mono)
    moreover have "subseq ((payload o1 @ pending c1) @ concat (map read_data rs))
        ((pending c @ b) @ concat (map read_data rs))"
      using process_subseq [OF p] by (simp only: list_emb_append_mono subseq_order.refl)
    ultimately show ?thesis
      using ReadOK p subseq_order.trans by (fastforce split: prod.splits)
  next
    case (ReadEOF b)
    have "subseq (payload (snd (process c b)) @ pending (fst (process c b))) (pending c @ b)"
      by (rule process_subseq) simp
    from list_emb_append_mono [OF this, of "[]" "concat (map read_data rs)"]
    show ?thesis using ReadEOF by simp
  qed (simp add: subseq_appendR)
qed simp

text \<open>
  C38. The line protocol is parsed back exactly: for any sequence of plain lines (no
  header at the line's start) and lines written as \<open>level::text\<close>, a chunk that holds
  them gives one message per written line with its level and text, and between them the
  plain lines unchanged, as messages of the stream's level.
\<close>

theorem process_items:
  assumes "c_multi c = None" "list_all wf_item its"
  shows "process c (concat (map encode_item its)) = (c, item_messages (c_level c) [] its)"
proof -
  obtain out st where "process_loop (c_level c) (concat (map encode_item its)) 0 0 = (out, st, None)"
    "out @ (if st < length (concat (map encode_item its)) then
       [mkMessage (c_level c) (drop st (concat (map encode_item its)))] else []) =
     item_messages (c_level c) [] its"
    using process_loop_items [OF assms(2), of _ "[]" "[]" "c_level c"] by auto
  then show ?thesis using assms(1) by (simp add: process_def process_text_def)
qed

theorem process_items_witness:
  "process stdoutConsumer (encode_item (Text ''a'') @ encode_item (Line 20 ''b'')) =
     (stdoutConsumer, item_messages 1 [] [Text ''a'', Line 20 ''b''])"
proof -
  have "c_multi stdoutConsumer = None" "list_all wf_item [Text ''a'', Line 20 ''b'']"
    by (simp_all add: eval_consumer)
  from process_items [OF this] show ?thesis by (simp add: stdoutConsumer_def)
qed

text \<open>
  A multi line message is put together again however its body was cut into chunks:
  if no chunk but the last holds the terminator and no chunk starts with the line
  \<open>:::\<close>, the consumer hands out exactly one message, of the level in the header, whose
  text is the whole body, and is then ready for the next message.
\<close>

theorem consume_block:
  assumes "c_multi c = None" "index t multiLineTerm = None"
    and "\<forall>m \<in> set mid. index m multiLineTerm = None \<and> \<not> hasPrefix m multiLineHead"
    and "index (b @ multiLineTerm) multiLineTerm = Some (length b)"
    and "\<not> hasPrefix (b @ multiLineTerm) multiLineHead"
  shows "consume c (ReadOK (itoa (unat l) @ '':::'' @ t) # map ReadOK mid @ [ReadOK (b @ multiLineTerm)]) =
    (c\<lparr>c_multi := None, c_multiLevel := l\<rparr>, [mkMessage l (t @ concat mid @ b)])"
  using consume_open_block [OF _ assms(3-5), of "c\<lparr>c_multi := Some t, c_multiLevel := l\<rparr>" t]
    process_opens_block [OF assms(1,2)] by simp

theorem consume_block_witness:
  "consume stdoutConsumer [ReadOK ''20:::a'', ReadOK ''b'', ReadOK (''c'' @ multiLineTerm)] = (stdoutConsumer\<lparr>c_multi := None, c_multiLevel := 20\<rparr>, [mkMessage 20 ''abc''])"
proof -
  have "itoa (unat (20::16 word)) = ''20''" by code_simp
  moreover have "index ''a'' multiLineTerm = None" "index ''b'' multiLineTerm = None" "\<not> hasPrefix ''b'' multiLineHead"  "\<not> hasPrefix (''c'' @ multiLineTerm) multiLineHead"
    by code_simp+
  moreover have "index (''c'' @ multiLineTerm) multiLineTerm = Some (length ''c'')" by code_simp
  ultimately show ?thesis
    using consume_block [of stdoutConsumer "''a''" "[''b'']" "''c''" 20] by (simp add: stdoutConsumer_def)
qed

text \<open>
  Two inputs on which the consumer does not do what the protocol says.  A header that
  follows the terminator of a multi line message in the same chunk is not seen at its
  start: the position after the terminator is skipped by the loop's increment, so
  \<open>21::b\<close> becomes the string \<open>2\<close> and a message of level 1.  A terminator that is cut by a
  chunk boundary after its first colons is never found, and the message stays open.
\<close>

theorem block_limits:
  "process stdoutConsumer (''20:::a'' @ multiLineTerm @ ''21::b'') =
     (stdoutConsumer, [mkMessage 20 ''a'', mkMessage 1 ''2'', mkMessage 1 ''b'']) \<and>
   consume stdoutConsumer
     [ReadOK (''20:::a'' @ [CHR 0x0A, CHR '':'', CHR '':'']), ReadOK ('':'' @ [CHR 0x0A])] =
     (stdoutConsumer\<lparr>c_multi := Some (''a'' @ multiLineTerm), c_multiLevel := 20\<rparr>, [])"
  by (simp add: eval_consumer)

end
