(* ===== verification/Pm_Command.thy ===== *)
theory Pm_Command
  imports Stream_Message
begin

text \<open>
  The data the process manager is driven with: \<^verbatim>\<open>base/pm/command.go\<close> (commands and their
  flags), \<^verbatim>\<open>base/pm/result.go\<close> (job states and results) and \<^verbatim>\<open>base/pm/error.go\<close> (errors that
  carry a code).  A \<^verbatim>\<open>json.RawMessage\<close> is the string it holds.
\<close>

record job_flags =
  Protected :: bool
  NoOutput :: bool
  NoSetPGID :: bool

record command =
  cmd_ID :: string
  cmd_Command :: string
  cmd_Arguments :: string
  cmd_Queue :: string
  cmd_StatsInterval :: int
  cmd_MaxTime :: int
  cmd_MaxRestart :: int
  cmd_RecurringPeriod :: int
  cmd_Stream :: bool
  cmd_LogLevels :: "int list"
  cmd_Tags :: "string list"
  cmd_Flags :: job_flags

definition Command_String :: "command \<Rightarrow> string" where
  "Command_String cmd = ''('' @ cmd_ID cmd @ ''# '' @ cmd_Command cmd @ '')''"

datatype job_state =
  StateSuccess | StateError | StateTimeout | StateKilled | StateUnknownCmd | StateDuplicateID

type_synonym streams = "string list"

definition Stdout :: "streams \<Rightarrow> string" where
  "Stdout s = (if 1 \<le> length s then s ! 0 else [])"

definition Stderr :: "streams \<Rightarrow> string" where
  "Stderr s = (if 2 \<le> length s then s ! 1 else [])"

text \<open>The zero value of \<^verbatim>\<open>State\<close> is the empty string, which is none of the states: \<^const>\<open>None\<close>.\<close>

record job_result =
  jr_ID :: string
  jr_Command :: string
  jr_Data :: string
  jr_Streams :: streams
  jr_Critical :: string
  jr_Level :: u16
  jr_State :: "job_state option"
  jr_Code :: u32
  jr_StartTime :: int
  jr_Time :: int
  jr_Tags :: "string list"
  jr_Container :: u64

definition NewJobResult :: "command \<Rightarrow> job_result" where
  "NewJobResult cmd =
     \<lparr>jr_ID = cmd_ID cmd, jr_Command = cmd_Command cmd, jr_Data = [], jr_Streams = [],
      jr_Critical = [], jr_Level = 0, jr_State = None, jr_Code = 0, jr_StartTime = 0,
      jr_Time = 0, jr_Tags = cmd_Tags cmd, jr_Container = 0\<rparr>"

text \<open>
  A Go \<^verbatim>\<open>error\<close> value is its text and, when it is a \<^verbatim>\<open>RunError\<close>, its code; the exported
  constructors fix the HTTP code.
\<close>

record go_error =
  err_Code :: "u32 option"
  err_Text :: string

definition Error :: "u32 \<Rightarrow> string \<Rightarrow> go_error" where
  "Error code cause = \<lparr>err_Code = Some code, err_Text = cause\<rparr>"

definition Errorf :: "string \<Rightarrow> go_error" where
  "Errorf text = \<lparr>err_Code = None, err_Text = text\<rparr>"

definition NotFoundError :: "string \<Rightarrow> go_error" where "NotFoundError c = Error 404 c"
definition BadRequestError :: "string \<Rightarrow> go_error" where "BadRequestError c = Error 400 c"
definition ServiceUnavailableError :: "string \<Rightarrow> go_error" where "ServiceUnavailableError c = Error 503 c"
definition NotAcceptableError :: "string \<Rightarrow> go_error" where "NotAcceptableError c = Error 406 c"
definition PreconditionFailedError :: "string \<Rightarrow> go_error" where "PreconditionFailedError c = Error 412 c"
definition InternalError :: "string \<Rightarrow> go_error" where "InternalError c = Error 500 c"

text \<open>A plain command for the examples.\<close>

definition sampleJob :: "string \<Rightarrow> string \<Rightarrow> command" where
  "sampleJob i q =
     \<lparr>cmd_ID = i, cmd_Command = ''core.ping'', cmd_Arguments = [], cmd_Queue = q,
      cmd_StatsInterval = 0, cmd_MaxTime = 0, cmd_MaxRestart = 0, cmd_RecurringPeriod = 0,
      cmd_Stream = False, cmd_LogLevels = [], cmd_Tags = [],
      cmd_Flags = \<lparr>Protected = False, NoOutput = False, NoSetPGID = False\<rparr>\<rparr>"

lemma sampleJob_simps [simp]: "cmd_ID (sampleJob i q) = i" "cmd_Queue (sampleJob i q) = q"
  by (simp_all add: sampleJob_def)

end
