(* ===== verification/Pm_Queue.thy ===== *)
theory Pm_Queue
  imports Pm_Command
begin

text \<open>
  \<^verbatim>\<open>base/pm/queue.go\<close>: commands that name the same queue run one after the other.  \<^verbatim>\<open>Push\<close>
  and \<^verbatim>\<open>Notify\<close> send at most one job on the channel; the model returns it, and a sequence
  of calls with the jobs that were sent is the step relation \<open>queue_step\<close>.
\<close>

section \<open>The queue\<close>

record queue =
  queues :: "string \<rightharpoonup> command list"
  closed :: bool

definition Queue_Init :: queue where
  "Queue_Init = \<lparr>queues = Map.empty, closed = False\<rparr>"

definition Queue_Close :: "queue \<Rightarrow> queue" where
  "Queue_Close q = q\<lparr>closed := True\<rparr>"

definition Queue_Push :: "queue \<Rightarrow> command \<Rightarrow> go_error + (queue \<times> command option)" where
  "Queue_Push q job =
     (if closed q then Inl (Errorf ''closed queue'')
      else if cmd_Queue job = [] then Inr (q, Some job)
      else
        (let name = cmd_Queue job;
             l = (case queues q name of None \<Rightarrow> [] | Some l \<Rightarrow> l) @ [job];
             q' = q\<lparr>queues := (queues q)(name \<mapsto> l)\<rparr>
         in if length l = 1 then Inr (q', Some job) else Inr (q', None)))"

definition Queue_Notify :: "queue \<Rightarrow> command \<Rightarrow> queue \<times> command option" where
  "Queue_Notify q job =
     (if closed q then (q, None)
      else (let name = cmd_Queue job
            in case queues q name of
                 None \<Rightarrow> (q, None)
               | Some l \<Rightarrow>
                   (case tl l of
                      [] \<Rightarrow> (q\<lparr>queues := (queues q)(name := None)\<rparr>, None)
                    | x # xs \<Rightarrow> (q\<lparr>queues := (queues q)(name \<mapsto> x # xs)\<rparr>, Some x))))"

text \<open>An open queue holds no empty list, and every job under the name it gave.\<close>

definition wf_queue :: "queue \<Rightarrow> bool" where
  "wf_queue q \<longleftrightarrow>
     \<not> closed q \<and> queues q [] = None \<and>
     (\<forall>n l. queues q n = Some l \<longrightarrow> l \<noteq> [] \<and> (\<forall>j \<in> set l. cmd_Queue j = n))"

definition waiting :: "queue \<Rightarrow> string \<Rightarrow> command list" where
  "waiting q n = (case queues q n of None \<Rightarrow> [] | Some l \<Rightarrow> l)"

section \<open>The calls the process manager makes\<close>

text \<open>
  \<open>qs_running\<close> are the jobs sent on the channel whose completion was not notified yet,
  \<open>qs_pushed\<close> and \<open>qs_sent\<close> the jobs in the order they were pushed and sent.
\<close>

record queue_sys =
  qs_queue :: queue
  qs_running :: "command list"
  qs_pushed :: "command list"
  qs_sent :: "command list"

definition queue_start :: queue_sys where
  "queue_start = \<lparr>qs_queue = Queue_Init, qs_running = [], qs_pushed = [], qs_sent = []\<rparr>"

abbreviation opt_list :: "'a option \<Rightarrow> 'a list" where
  "opt_list x \<equiv> (case x of None \<Rightarrow> [] | Some y \<Rightarrow> [y])"

inductive queue_step :: "queue_sys \<Rightarrow> queue_sys \<Rightarrow> bool" where
  push: "Queue_Push (qs_queue s) j = Inr (q', sent) \<Longrightarrow>
    queue_step s (s\<lparr>qs_queue := q', qs_running := qs_running s @ opt_list sent,
      qs_pushed := qs_pushed s @ [j], qs_sent := qs_sent s @ opt_list sent\<rparr>)"
| notify: "j \<in> set (qs_running s) \<Longrightarrow> Queue_Notify (qs_queue s) j = (q', sent) \<Longrightarrow>
    queue_step s (s\<lparr>qs_queue := q', qs_running := remove1 j (qs_running s) @ opt_list sent,
      qs_sent := qs_sent s @ opt_list sent\<rparr>)"

inductive queue_reachable :: "queue_sys \<Rightarrow> bool" where
  start: "queue_reachable queue_start"
| step: "queue_reachable s \<Longrightarrow> queue_step s t \<Longrightarrow> queue_reachable t"

section \<open>The interface and what follows from it\<close>

text \<open>
  The laws the process manager relies on, over the list of jobs that each name holds
  (its head runs, the others wait), and the invariant they keep: the running jobs of a
  named queue are its head only, and the jobs pushed are those sent followed by those
  that wait.
\<close>

definition fifo_inv ::
  "('j \<Rightarrow> string) \<Rightarrow> (string \<Rightarrow> 'j list) \<Rightarrow> 'j list \<Rightarrow> 'j list \<Rightarrow> 'j list \<Rightarrow> bool" where
  "fifo_inv name w running pushed sent \<longleftrightarrow>
     (\<forall>n. (n \<noteq> [] \<longrightarrow> filter (\<lambda>j. name j = n) running = take 1 (w n)) \<and>
          filter (\<lambda>j. name j = n) pushed = filter (\<lambda>j. name j = n) sent @ tl (w n))"

locale job_queue =
  fixes push :: "'q \<Rightarrow> 'j \<Rightarrow> 'e + ('q \<times> 'j option)"
    and notify :: "'q \<Rightarrow> 'j \<Rightarrow> 'q \<times> 'j option"
    and held :: "'q \<Rightarrow> string \<Rightarrow> 'j list"
    and name :: "'j \<Rightarrow> string"
    and invar :: "'q \<Rightarrow> bool"
  assumes push_invar: "invar q \<Longrightarrow> push q j = Inr (q', sent) \<Longrightarrow> invar q'"
    and push_unnamed: "invar q \<Longrightarrow> push q j = Inr (q', sent) \<Longrightarrow> name j = [] \<Longrightarrow>
      held q' = held q \<and> sent = Some j"
    and push_named: "invar q \<Longrightarrow> push q j = Inr (q', sent) \<Longrightarrow> name j \<noteq> [] \<Longrightarrow>
      held q' = (held q)(name j := held q (name j) @ [j]) \<and>
      sent = (if held q (name j) = [] then Some j else None)"
    and notify_invar: "invar q \<Longrightarrow> notify q j = (q', sent) \<Longrightarrow> invar q'"
    and notify_held: "invar q \<Longrightarrow> notify q j = (q', sent) \<Longrightarrow>
      held q' = (held q)(name j := tl (held q (name j))) \<and>
      sent = (case tl (held q (name j)) of [] \<Rightarrow> None | x # _ \<Rightarrow> Some x)"
    and held_unnamed: "invar q \<Longrightarrow> held q [] = []"
    and held_name: "invar q \<Longrightarrow> j \<in> set (held q n) \<Longrightarrow> name j = n"
begin

lemma push_fifo:
  assumes "invar q" "push q j = Inr (q', sent)" "fifo_inv name (held q) R P S"
  shows "fifo_inv name (held q') (R @ opt_list sent) (P @ [j]) (S @ opt_list sent)"
proof (cases "name j = []")
  case True
  then show ?thesis
    using push_unnamed [OF assms(1,2)] held_unnamed [OF assms(1)] assms(3)
    by (auto simp: fifo_inv_def)
next
  case False
  then show ?thesis
    using push_named [OF assms(1,2)] assms(3)
    by (cases "held q (name j)") (auto simp: fifo_inv_def)
qed

lemma notify_fifo:
  assumes "invar q" "notify q j = (q', sent)" "fifo_inv name (held q) R P S" "j \<in> set R"
  shows "fifo_inv name (held q') (remove1 j R @ opt_list sent) P (S @ opt_list sent)"
proof -
  note nh = notify_held [OF assms(1,2)]
  have held': "held q' = (held q)(name j := tl (held q (name j)))" using nh by simp
  consider (none) "tl (held q (name j)) = []" "sent = None"
    | (some) x xs where "tl (held q (name j)) = x # xs" "sent = Some x" "name x = name j"
  proof (cases "tl (held q (name j))")
    case Nil
    with nh show ?thesis by (intro none) auto
  next
    case (Cons x xs)
    then have "x \<in> set (held q (name j))" by (cases "held q (name j)") auto
    with Cons nh show ?thesis by (intro some [of x xs]) (auto intro: held_name [OF assms(1)])
  qed
  note sent_cases = this
  have inv_run: "filter (\<lambda>x. name x = n) R = take 1 (held q n)" if "n \<noteq> []" for n
    using assms(3) that by (simp add: fifo_inv_def)
  have inv_snd: "filter (\<lambda>x. name x = n) P = filter (\<lambda>x. name x = n) S @ tl (held q n)" for n
    using assms(3) unfolding fifo_inv_def by blast
  have run: "filter (\<lambda>x. name x = n) (remove1 j R @ opt_list sent) = take 1 (held q' n)"
    if "n \<noteq> []" for n
  proof (cases "n = name j")
    case True
    have "j \<in> set (filter (\<lambda>x. name x = n) R)" using assms(4) True by simp
    then have "filter (\<lambda>x. name x = n) R = [j]"
      using inv_run [OF that] by (cases "held q n") auto
    then have "filter (\<lambda>x. name x = n) (remove1 j R) = []"
      by (simp add: filter_remove1)
    then show ?thesis by (cases rule: sent_cases) (simp_all add: True held')
  next
    case False
    then have "filter (\<lambda>x. name x = n) (remove1 j R) = filter (\<lambda>x. name x = n) R"
      by (simp add: filter_remove1 remove1_idem)
    then show ?thesis
      using False inv_run [OF that] by (cases rule: sent_cases) (simp_all add: held')
  qed
  have snd: "filter (\<lambda>x. name x = n) P = filter (\<lambda>x. name x = n) (S @ opt_list sent) @ tl (held q' n)" for n
    using inv_snd [of n] by (cases "n = name j"; cases rule: sent_cases) (simp_all add: held')
  from run snd show ?thesis unfolding fifo_inv_def by blast
qed

end

lemma waiting_in_wf: "wf_queue q \<Longrightarrow> j \<in> set (waiting q n) \<Longrightarrow> cmd_Queue j = n"
  by (cases "queues q n") (auto simp: wf_queue_def waiting_def)

lemma wf_queueD:
  "wf_queue q \<Longrightarrow> queues q n = Some l \<Longrightarrow> l \<noteq> [] \<and> (\<forall>j \<in> set l. cmd_Queue j = n)"
  by (auto simp: wf_queue_def)

lemma wf_queue_upd:
  "wf_queue q \<Longrightarrow> n \<noteq> [] \<Longrightarrow> (\<And>l. x = Some l \<Longrightarrow> l \<noteq> [] \<and> (\<forall>j \<in> set l. cmd_Queue j = n)) \<Longrightarrow>
   wf_queue (q\<lparr>queues := (queues q)(n := x)\<rparr>)"
  by (auto simp: wf_queue_def)

lemma wf_Queue_Push [wf_intros]:
  "wf_queue q \<Longrightarrow> Queue_Push q j = Inr (q', sent) \<Longrightarrow> wf_queue q'"
  by (auto simp: Queue_Push_def Let_def split: if_splits option.splits
      intro!: wf_queue_upd) (auto dest: wf_queueD)

lemma wf_Queue_Notify [wf_intros]:
  assumes "wf_queue q" "Queue_Notify q j = (q', sent)"
  shows "wf_queue q'"
proof (cases "queues q (cmd_Queue j)")
  case None
  with assms show ?thesis by (auto simp: Queue_Notify_def split: if_splits)
next
  case (Some l)
  moreover from this assms(1) have "cmd_Queue j \<noteq> []" by (auto simp: wf_queue_def)
  ultimately show ?thesis
    using assms wf_queueD [OF assms(1) Some]
    by (cases l) (auto simp: Queue_Notify_def Let_def split: if_splits list.splits intro!: wf_queue_upd)
qed

interpretation jq: job_queue Queue_Push Queue_Notify waiting cmd_Queue wf_queue
proof
  show "wf_queue q'" if "wf_queue q" "Queue_Push q j = Inr (q', sent)" for q j q' sent
    using that by (rule wf_Queue_Push)
  show "waiting q' = waiting q \<and> sent = Some j"
    if "wf_queue q" "Queue_Push q j = Inr (q', sent)" "cmd_Queue j = []" for q j q' sent
    using that by (auto simp: Queue_Push_def split: if_splits)
  show "waiting q' = (waiting q)(cmd_Queue j := waiting q (cmd_Queue j) @ [j]) \<and>
      sent = (if waiting q (cmd_Queue j) = [] then Some j else None)"
    if "wf_queue q" "Queue_Push q j = Inr (q', sent)" "cmd_Queue j \<noteq> []" for q j q' sent
    using that wf_queueD [OF that(1)]
    by (auto simp: Queue_Push_def Let_def waiting_def fun_eq_iff split: if_splits option.splits)
  show "wf_queue q'" if "wf_queue q" "Queue_Notify q j = (q', sent)" for q j q' sent
    using that by (rule wf_Queue_Notify)
  show "waiting q [] = []" if "wf_queue q" for q
    using that by (simp add: wf_queue_def waiting_def)
  show "cmd_Queue j = n" if "wf_queue q" "j \<in> set (waiting q n)" for q j n
    using that by (rule waiting_in_wf)
  show "waiting q' = (waiting q)(cmd_Queue j := tl (waiting q (cmd_Queue j))) \<and>
      sent = (case tl (waiting q (cmd_Queue j)) of [] \<Rightarrow> None | x # _ \<Rightarrow> Some x)"
    if "wf_queue q" "Queue_Notify q j = (q', sent)" for q j q' sent
    using that wf_queueD [OF that(1)]
    by (auto simp: wf_queue_def Queue_Notify_def Let_def waiting_def fun_eq_iff split: if_splits option.splits list.splits)
qed

section \<open>Invariant of the step relation\<close>

definition queue_inv :: "queue_sys \<Rightarrow> bool" where
  "queue_inv s \<longleftrightarrow> wf_queue (qs_queue s) \<and>
     fifo_inv cmd_Queue (waiting (qs_queue s)) (qs_running s) (qs_pushed s) (qs_sent s)"

lemma queue_inv_start: "queue_inv queue_start"
  by (simp add: queue_inv_def queue_start_def wf_queue_def Queue_Init_def fifo_inv_def waiting_def)

lemma queue_step_inv: "queue_step s t \<Longrightarrow> queue_inv s \<Longrightarrow> queue_inv t"
proof (induction rule: queue_step.induct)
  case (push s j q' sent)
  then show ?case
    using jq.push_fifo wf_Queue_Push by (fastforce simp: queue_inv_def)
next
  case (notify j s q' sent)
  then show ?case
    using jq.notify_fifo wf_Queue_Notify by (fastforce simp: queue_inv_def)
qed

lemma queue_reachable_inv: "queue_reachable s \<Longrightarrow> queue_inv s"
  by (induction rule: queue_reachable.induct) (auto intro: queue_inv_start queue_step_inv)

section \<open>Properties\<close>

text \<open>
  C2. Sequential execution of named queues.  In every state the calls can reach, at most
  one job of a named queue is running (the head of that queue), the jobs of a queue were
  started in the order they were pushed, and none is lost: when no job of the queue is
  running, all that were pushed have been started.
\<close>

theorem queue_sequential:
  assumes "queue_reachable s" "n \<noteq> []"
  shows "length (filter (\<lambda>j. cmd_Queue j = n) (qs_running s)) \<le> 1 \<and>
    prefix (filter (\<lambda>j. cmd_Queue j = n) (qs_sent s)) (filter (\<lambda>j. cmd_Queue j = n) (qs_pushed s)) \<and>
    (filter (\<lambda>j. cmd_Queue j = n) (qs_running s) = [] \<longrightarrow>
       filter (\<lambda>j. cmd_Queue j = n) (qs_sent s) = filter (\<lambda>j. cmd_Queue j = n) (qs_pushed s))"
proof -
  have inv: "fifo_inv cmd_Queue (waiting (qs_queue s)) (qs_running s) (qs_pushed s) (qs_sent s)"
    using queue_reachable_inv [OF assms(1)] by (simp add: queue_inv_def)
  then show ?thesis
    using assms(2) by (cases "waiting (qs_queue s) n") (auto simp: fifo_inv_def)
qed

theorem queue_sequential_witness:
  "\<exists>s. queue_reachable s \<and> qs_running s = [sampleJob ''1'' ''q''] \<and>
     qs_pushed s = [sampleJob ''1'' ''q'', sampleJob ''2'' ''q''] \<and>
     length (filter (\<lambda>j. cmd_Queue j = ''q'') (qs_running s)) \<le> 1 \<and>
     prefix (filter (\<lambda>j. cmd_Queue j = ''q'') (qs_sent s)) (filter (\<lambda>j. cmd_Queue j = ''q'') (qs_pushed s))"
proof -
  let ?a = "sampleJob ''1'' ''q''" and ?b = "sampleJob ''2'' ''q''"
  let ?q1 = "Queue_Init\<lparr>queues := [''q'' \<mapsto> [?a]]\<rparr>"
  let ?q2 = "Queue_Init\<lparr>queues := [''q'' \<mapsto> [?a, ?b]]\<rparr>"
  have "queue_step queue_start (queue_start\<lparr>qs_queue := ?q1, qs_running := qs_running queue_start @ opt_list (Some ?a),
      qs_pushed := qs_pushed queue_start @ [?a], qs_sent := qs_sent queue_start @ opt_list (Some ?a)\<rparr>)"
    by (rule queue_step.push) (simp add: queue_start_def Queue_Push_def Queue_Init_def)
  then have 1: "queue_reachable \<lparr>qs_queue = ?q1, qs_running = [?a], qs_pushed = [?a], qs_sent = [?a]\<rparr>"
    (is "queue_reachable ?s1")
    using queue_reachable.step [OF queue_reachable.start] by (simp add: queue_start_def)
  have "queue_step ?s1 (?s1\<lparr>qs_queue := ?q2, qs_running := qs_running ?s1 @ opt_list None,
      qs_pushed := qs_pushed ?s1 @ [?b], qs_sent := qs_sent ?s1 @ opt_list None\<rparr>)"
    by (rule queue_step.push) (simp add: Queue_Push_def Queue_Init_def Let_def)
  from queue_reachable.step [OF 1 this]
  have 2: "queue_reachable \<lparr>qs_queue = ?q2, qs_running = [?a], qs_pushed = [?a, ?b], qs_sent = [?a]\<rparr>"
    by simp
  from queue_sequential [OF 2, of "''q''"] 2 show ?thesis by force
qed

end
