(* ===== verification/Pm_Backoff.thy ===== *)
theory Pm_Backoff
  imports Prelude Complex_Main
begin

text \<open>
  \<^verbatim>\<open>base/pm/backoff.go\<close>: the delay before a protected service is started again.  Times and
  durations are nanoseconds in \<^typ>\<open>int\<close>: the values stay below \<^verbatim>\<open>Max\<close> (minutes), far from the
  bounds of \<^verbatim>\<open>int64\<close>.  \<^verbatim>\<open>Multiply\<close> is a rational number: a \<^verbatim>\<open>float64\<close> product of a whole
  number of seconds below \<^verbatim>\<open>Max\<close> with 1.5 or 2 (the two factors the code uses) is exact.
\<close>

definition Second :: int where "Second = 1000000000"

record backoff =
  bo_Delay :: int
  bo_Multiply :: rat
  bo_Max :: int
  bo_lastDelay :: int
  bo_lastCall :: int
  bo_once :: bool

definition BackOff_defaults :: "int \<Rightarrow> backoff \<Rightarrow> backoff" where
  "BackOff_defaults now b =
     b\<lparr>bo_lastCall := now,
       bo_Delay := (if bo_Delay b = 0 then 30 * Second else bo_Delay b),
       bo_Multiply := (if bo_Multiply b = 0 then 2 else bo_Multiply b),
       bo_Max := (if bo_Max b = 0 then 10 * 60 * Second else bo_Max b)\<rparr>"

text \<open>The \<^verbatim>\<open>sync.Once\<close> around \<^verbatim>\<open>defaults\<close>; \<open>t0\<close> is the time read inside it.\<close>

definition BackOff_once :: "int \<Rightarrow> backoff \<Rightarrow> backoff" where
  "BackOff_once t0 b = (if bo_once b then b else (BackOff_defaults t0 b)\<lparr>bo_once := True\<rparr>)"

definition BackOff_Duration :: "int \<Rightarrow> int \<Rightarrow> backoff \<Rightarrow> int \<times> backoff" where
  "BackOff_Duration t0 now b0 =
     (let b = BackOff_once t0 b0;
          since = now - bo_lastCall b;
          d = (if since < bo_lastDelay b * 2 then \<lfloor>of_int (bo_lastDelay b) * bo_Multiply b\<rfloor>
               else bo_Delay b);
          d1 = goDiv d Second * Second;
          d2 = (if d1 \<ge> bo_Max b then bo_Max b else d1)
      in (d2, b\<lparr>bo_lastCall := now, bo_lastDelay := d2\<rparr>))"

text \<open>The policy \<^verbatim>\<open>newJob\<close> sets up.\<close>

definition jobBackOff :: backoff where
  "jobBackOff =
     \<lparr>bo_Delay = 2 * Second, bo_Multiply = 3 / 2, bo_Max = 5 * 60 * Second,
      bo_lastDelay = 0, bo_lastCall = 0, bo_once = False\<rparr>"

text \<open>
  Calls that follow each other as the job makes them: it sleeps for the delay it was
  given and the process then lives for the next of the given times.
\<close>

fun backoff_delays :: "int \<Rightarrow> backoff \<Rightarrow> int list \<Rightarrow> int list" where
  "backoff_delays now b [] = []"
| "backoff_delays now b (life # lives) =
     (let (d, b') = BackOff_Duration now now b in d # backoff_delays (now + d + life) b' lives)"

definition wf_backoff :: "backoff \<Rightarrow> bool" where
  "wf_backoff b \<longleftrightarrow> 0 \<le> bo_Delay b \<and> 0 \<le> bo_Max b \<and> (bo_Multiply b = 0 \<or> 1 \<le> bo_Multiply b) \<and>
     0 \<le> bo_lastDelay b \<and> bo_lastDelay b \<le> (if bo_Max b = 0 then 10 * 60 * Second else bo_Max b)"

section \<open>Lemmas\<close>

lemma Second_pos [simp]: "0 < Second" "0 \<le> Second"
  by (simp_all add: Second_def)

lemma whole_seconds: "0 \<le> d \<Longrightarrow> 0 \<le> goDiv d Second * Second \<and> goDiv d Second * Second \<le> d"
  using Second_pos by (simp add: goDiv_nonneg pos_imp_zdiv_nonneg_iff)
    (metis minus_mod_eq_div_mult pos_mod_sign diff_le_eq le_add_same_cancel1 Second_pos(1))

lemma wf_backoff_once [wf_intros]: "wf_backoff b \<Longrightarrow> wf_backoff (BackOff_once t b)"
  by (auto simp: wf_backoff_def BackOff_once_def BackOff_defaults_def)

lemma BackOff_Duration_keeps [step_frames]:
  "bo_Max (snd (BackOff_Duration t0 now b)) = bo_Max (BackOff_once t0 b)"
  by (simp add: BackOff_Duration_def Let_def)

lemma BackOff_Duration_range:
  assumes "wf_backoff b"
  shows "0 \<le> fst (BackOff_Duration t0 now b) \<and> fst (BackOff_Duration t0 now b) \<le> bo_Max (BackOff_once t0 b)"
proof -
  let ?b = "BackOff_once t0 b"
  have wf: "0 \<le> bo_Delay ?b" "0 \<le> bo_lastDelay ?b" "0 \<le> bo_Max ?b"
    using wf_backoff_once [OF assms, of t0] by (simp_all add: wf_backoff_def)
  have "bo_Multiply ?b = 0 \<or> 1 \<le> bo_Multiply ?b"
    using wf_backoff_once [OF assms, of t0] by (simp add: wf_backoff_def)
  then have "0 \<le> bo_Multiply ?b" by linarith
  with wf have "0 \<le> (if now - bo_lastCall ?b < bo_lastDelay ?b * 2
      then \<lfloor>of_int (bo_lastDelay ?b) * bo_Multiply ?b\<rfloor> else bo_Delay ?b)"
    by simp
  from whole_seconds [OF this] show ?thesis
    using wf(3) by (simp add: BackOff_Duration_def Let_def)
qed

lemma BackOff_Duration_grows:
  assumes "wf_backoff b" "bo_once b" "1 \<le> bo_Multiply b" "bo_lastDelay b \<le> bo_Max b"
    and "Second dvd bo_lastDelay b" "now - bo_lastCall b < bo_lastDelay b * 2"
  shows "bo_lastDelay b \<le> fst (BackOff_Duration t0 now b)"
proof -
  let ?d = "bo_lastDelay b"
  have d0: "0 \<le> ?d" using assms(1) by (simp add: wf_backoff_def)
  then have "of_int ?d \<le> of_int ?d * bo_Multiply b"
    using assms(3) by (simp add: mult_le_cancel_left1)
  then have le: "?d \<le> \<lfloor>of_int ?d * bo_Multiply b\<rfloor>" by (simp add: le_floor_iff)
  then have "?d div Second \<le> \<lfloor>of_int ?d * bo_Multiply b\<rfloor> div Second"
    by (simp add: zdiv_mono1)
  then have "?d \<le> \<lfloor>of_int ?d * bo_Multiply b\<rfloor> div Second * Second"
    using assms(5) by (metis Second_pos(2) dvd_div_mult_self mult_right_mono)
  moreover have "0 \<le> \<lfloor>of_int ?d * bo_Multiply b\<rfloor>" using le d0 by linarith
  ultimately have "?d \<le> goDiv \<lfloor>of_int ?d * bo_Multiply b\<rfloor> Second * Second"
    by (simp add: goDiv_nonneg)
  then show ?thesis
    using assms by (simp add: BackOff_Duration_def BackOff_once_def Let_def)
qed

text \<open>The delays, in seconds, of a service that keeps dying at once.\<close>

fun crash_delays :: "nat \<Rightarrow> int \<Rightarrow> int list" where
  "crash_delays 0 d = []"
| "crash_delays (Suc n) d = d # crash_delays n (min 300 (3 * d div 2))"

definition runningBackOff :: "int \<Rightarrow> int \<Rightarrow> backoff" where
  "runningBackOff s now =
     jobBackOff\<lparr>bo_lastDelay := s * Second, bo_lastCall := now, bo_once := True\<rparr>"

lemma goDiv_half: "0 \<le> s \<Longrightarrow> goDiv \<lfloor>of_int (s * Second) * (3 / 2 :: rat)\<rfloor> Second = 3 * s div 2"
proof -
  assume s: "0 \<le> s"
  have "of_int (s * Second) * (3 / 2 :: rat) = of_int (500000000 * (3 * s))"
    by (simp add: Second_def)
  then have "\<lfloor>of_int (s * Second) * (3 / 2 :: rat)\<rfloor> = 500000000 * (3 * s)"
    by (simp only: floor_of_int)
  moreover have "(500000000 * (3 * s)) div (500000000 * 2) = 3 * s div 2"
    by (rule div_mult_mult1) simp
  ultimately show ?thesis using s by (simp add: goDiv_nonneg Second_def)
qed

lemma runningBackOff_step:
  assumes "2 \<le> s" "0 \<le> life" "life < s * Second"
  shows "BackOff_Duration t0 (now + s * Second + life) (runningBackOff s now) =
    (min 300 (3 * s div 2) * Second, runningBackOff (min 300 (3 * s div 2)) (now + s * Second + life))"
proof -
  have "goDiv \<lfloor>of_int (s * Second) * (3 / 2 :: rat)\<rfloor> Second = 3 * s div 2"
    using assms(1) by (intro goDiv_half) simp
  moreover have "300 * Second \<le> k * Second \<longleftrightarrow> 300 \<le> k" for k by (simp add: Second_def)
  ultimately show ?thesis
    using assms
    by (simp add: BackOff_Duration_def BackOff_once_def runningBackOff_def jobBackOff_def Let_def
        min_def) (auto simp: Second_def)
qed

lemma backoff_delays_running:
  assumes "2 \<le> s" "s \<le> 300" "0 \<le> life" "life < s * Second"
    and "list_all (\<lambda>l. 0 \<le> l \<and> l < 2 * Second) lives"
  shows "backoff_delays (now + s * Second + life) (runningBackOff s now) lives =
    map (\<lambda>x. x * Second) (crash_delays (length lives) (min 300 (3 * s div 2)))"
  using assms
proof (induction lives arbitrary: s life now)
  case (Cons l lives)
  let ?s = "min 300 (3 * s div 2)"
  have "2 \<le> ?s" "?s \<le> 300" using Cons.prems by auto
  moreover have "2 * Second \<le> ?s * Second"
    using \<open>2 \<le> ?s\<close> by (intro mult_right_mono) simp_all
  moreover have "l < 2 * Second" using Cons.prems(5) by simp
  ultimately have "2 \<le> ?s" "?s \<le> 300" "l < ?s * Second" by (assumption | linarith)+
  then show ?case
    using Cons by (simp add: runningBackOff_step)
qed simp

lemma crash_delays_tail: "13 \<le> n \<Longrightarrow>
  drop 13 (crash_delays n 2) = replicate (n - 13) 300"
proof -
  have flat: "crash_delays k 300 = replicate k 300" for k by (induction k) simp_all
  assume "13 \<le> n"
  then obtain k where "n = 13 + k" using le_Suc_ex by blast
  then show ?thesis by (simp add: flat numeral_eq_Suc)
qed

section \<open>Properties\<close>

text \<open>
  The delay is never negative and never above the maximum of the policy, whatever the
  calls and times, and the policy stays well formed; a call that comes less than twice
  the last delay after the last call never gives a smaller delay than that one.
\<close>

theorem backoff_bounds:
  assumes "wf_backoff b"
  shows "0 \<le> fst (BackOff_Duration t0 now b) \<and>
    fst (BackOff_Duration t0 now b) \<le> bo_Max (snd (BackOff_Duration t0 now b)) \<and>
    wf_backoff (snd (BackOff_Duration t0 now b)) \<and>
    (bo_once b \<and> 1 \<le> bo_Multiply b \<and> bo_lastDelay b \<le> bo_Max b \<and> Second dvd bo_lastDelay b \<and>
       now - bo_lastCall b < bo_lastDelay b * 2 \<longrightarrow>
     bo_lastDelay b \<le> fst (BackOff_Duration t0 now b))"
proof -
  have "wf_backoff (snd (BackOff_Duration t0 now b))"
    using wf_backoff_once [OF assms, of t0] BackOff_Duration_range [OF assms, of t0 now]
    by (auto simp: wf_backoff_def BackOff_Duration_def Let_def)
  then show ?thesis
    using BackOff_Duration_range [OF assms] BackOff_Duration_grows [OF assms]
    by (simp add: BackOff_Duration_keeps)
qed

theorem backoff_bounds_witness:
  "wf_backoff (runningBackOff 2 0) \<and>
   fst (BackOff_Duration 0 (3 * Second) (runningBackOff 2 0)) \<le> 300 * Second \<and>
   2 * Second \<le> fst (BackOff_Duration 0 (3 * Second) (runningBackOff 2 0))"
proof -
  have wf: "wf_backoff (runningBackOff 2 0)"
    by (simp add: wf_backoff_def runningBackOff_def jobBackOff_def Second_def)
  have "bo_Max (snd (BackOff_Duration 0 (3 * Second) (runningBackOff 2 0))) = 300 * Second"
    by (simp add: BackOff_Duration_keeps BackOff_once_def runningBackOff_def jobBackOff_def)
  with wf backoff_bounds [OF wf, of 0 "3 * Second"] show ?thesis
    by (simp add: runningBackOff_def jobBackOff_def Second_def)
qed

text \<open>
  The policy of the process manager's jobs: a protected service whose every run ends
  within two seconds is started again after 2, 3, 4, 6, 9, \<dots> seconds, each delay one and
  a half times the one before in whole seconds, capped at 300; from the fourteenth
  restart on the delay is the full five minutes.
\<close>

theorem job_backoff_sequence:
  assumes "list_all (\<lambda>l. 0 \<le> l \<and> l < 2 * Second) lives"
  shows "backoff_delays now jobBackOff lives =
      map (\<lambda>x. x * Second) (crash_delays (length lives) 2) \<and>
    (13 \<le> length lives \<longrightarrow>
      drop 13 (backoff_delays now jobBackOff lives) = replicate (length lives - 13) (300 * Second))"
proof -
  have first: "BackOff_Duration now now jobBackOff = (2 * Second, runningBackOff 2 now)"
    by (simp add: BackOff_Duration_def BackOff_once_def BackOff_defaults_def runningBackOff_def
        jobBackOff_def Let_def goDiv_def Second_def)
  have seq: "backoff_delays now jobBackOff lives = map (\<lambda>x. x * Second) (crash_delays (length lives) 2)"
  proof (cases lives)
    case (Cons l ls)
    then show ?thesis
      using assms backoff_delays_running [of 2 l ls now] by (simp add: first)
  qed simp
  then show ?thesis
    using crash_delays_tail [of "length lives"] by (auto simp: drop_map)
qed

theorem job_backoff_sequence_witness:
  "backoff_delays 0 jobBackOff [0, 0, Second] = [2 * Second, 3 * Second, 4 * Second]"
  using job_backoff_sequence [of "[0, 0, Second]" 0] by (simp add: Second_def)

end
