(* ===== verification/Pm_Waitmachine.thy ===== *)
theory Pm_Waitmachine
  imports Pm_Command
begin

text \<open>
  \<^verbatim>\<open>base/pm/waitmachine.go\<close>: the latches with which a startup slice honours dependencies.
  A key has a channel (closed on release) and a state.  \<^verbatim>\<open>Wait\<close> goes through its keys and
  blocks on every channel that is still open, so it is a little program of its own: a
  list of keys still to pass and the value so far, advanced by \<open>Wait_step\<close> in whatever
  the machine is at that moment.
\<close>

record state_w =
  w_closed :: bool
  w_s :: bool

type_synonym wait_machine = "string \<rightharpoonup> state_w"

definition newStateMachine :: "string list \<Rightarrow> wait_machine" where
  "newStateMachine keys = fold (\<lambda>key m. m(key \<mapsto> \<lparr>w_closed = False, w_s = False\<rparr>)) keys Map.empty"

text \<open>Closing a closed channel panics and is recovered: a second release only sets the state.\<close>

definition Release :: "wait_machine \<Rightarrow> string \<Rightarrow> bool \<Rightarrow> go_error + wait_machine" where
  "Release m key state =
     (case m key of
        None \<Rightarrow> Inl (Errorf ''key not found'')
      | Some w \<Rightarrow> Inr (m(key \<mapsto> \<lparr>w_closed = True, w_s = state\<rparr>)))"

type_synonym waiter = "string list \<times> bool"

text \<open>One iteration of the loop in \<^verbatim>\<open>Wait\<close>; \<^const>\<open>None\<close> when it blocks or has returned.\<close>

fun Wait_step :: "wait_machine \<Rightarrow> waiter \<Rightarrow> waiter option" where
  "Wait_step m ([], r) = None"
| "Wait_step m (k # ks, r) =
     (case m k of
        None \<Rightarrow> Some (ks, r)
      | Some w \<Rightarrow> if w_closed w then Some (ks, r \<and> w_s w) else None)"

text \<open>\<^verbatim>\<open>Wait\<close> as far as it gets while nothing else runs: \<^const>\<open>None\<close> when it blocks.\<close>

fun Wait_loop :: "wait_machine \<Rightarrow> string list \<Rightarrow> bool \<Rightarrow> bool option" where
  "Wait_loop m [] r = Some r"
| "Wait_loop m (k # ks) r =
     (case m k of
        None \<Rightarrow> Wait_loop m ks r
      | Some w \<Rightarrow> if w_closed w then Wait_loop m ks (r \<and> w_s w) else None)"

definition Wait :: "wait_machine \<Rightarrow> string list \<Rightarrow> bool option" where
  "Wait m keys = Wait_loop m keys True"

text \<open>
  \<^verbatim>\<open>WaitAll\<close> waits for the keys one by one, in the order the runtime iterates over the
  map: \<open>ks\<close> lists the keys of the machine in that order.
\<close>

fun WaitAll :: "wait_machine \<Rightarrow> string list \<Rightarrow> unit option" where
  "WaitAll m [] = Some ()"
| "WaitAll m (k # ks) = (case Wait m [k] of None \<Rightarrow> None | Some r \<Rightarrow> WaitAll m ks)"

section \<open>The interface its clients rely on\<close>

text \<open>
  A client sees a key as unknown, closed off (not released) or released with a state.  The
  laws are those of a finite collection of latches: a release opens one key, keeps the
  others, and never closes any.
\<close>

locale latches =
  fixes release :: "'m \<Rightarrow> 'k \<Rightarrow> bool \<Rightarrow> 'e + 'm"
    and known :: "'m \<Rightarrow> 'k set"
    and opened :: "'m \<Rightarrow> 'k \<Rightarrow> bool option"
  assumes release_fails: "isl (release m k b) \<longleftrightarrow> k \<notin> known m"
    and release_known: "release m k b = Inr m' \<Longrightarrow> known m' = known m"
    and release_opened: "release m k b = Inr m' \<Longrightarrow> opened m' = (opened m)(k \<mapsto> b)"
begin

definition rel :: "'k \<times> bool \<Rightarrow> 'm \<Rightarrow> 'm" where
  "rel kb m = (case release m (fst kb) (snd kb) of Inl e \<Rightarrow> m | Inr m' \<Rightarrow> m')"

lemma known_rel [simp]: "known (rel kb m) = known m"
  by (simp add: rel_def release_known split: sum.split)

lemma opened_rel:
  "opened (rel kb m) = (if fst kb \<in> known m then (opened m)(fst kb \<mapsto> snd kb) else opened m)"
  using release_fails [of m "fst kb" "snd kb"]
  by (cases "release m (fst kb) (snd kb)") (simp_all add: rel_def release_opened)

lemma known_rels: "known (fold rel kbs m) = known m"
  by (induction kbs arbitrary: m) simp_all

text \<open>Latches never close again, and after any releases a known key has the last state it was given.\<close>

lemma stays_open: "opened m k \<noteq> None \<Longrightarrow> opened (fold rel kbs m) k \<noteq> None"
  by (induction kbs arbitrary: m) (auto simp: opened_rel)

lemma opened_rels:
  "k \<in> known m \<Longrightarrow> opened (fold rel kbs m) k =
     (case map_of (rev kbs) k of None \<Rightarrow> opened m k | Some b \<Rightarrow> Some b)"
  by (induction kbs arbitrary: m)
     (auto simp: opened_rel map_add_def split: option.splits)

lemma opened_rels_unknown: "k \<notin> known m \<Longrightarrow> opened (fold rel kbs m) k = opened m k"
  by (induction kbs arbitrary: m) (auto simp: opened_rel)

end

definition released :: "wait_machine \<Rightarrow> string \<Rightarrow> bool option" where
  "released m k = (case m k of Some w \<Rightarrow> if w_closed w then Some (w_s w) else None | None \<Rightarrow> None)"

interpretation wm: latches Release dom released
proof unfold_locales
  fix m k b m'
  show "isl (Release m k b) = (k \<notin> dom m)"
    by (auto simp: Release_def split: option.split)
  assume "Release m k b = Inr m'"
  then have "k \<in> dom m" "m' = m(k \<mapsto> \<lparr>w_closed = True, w_s = b\<rparr>)"
    by (auto simp: Release_def split: option.splits)
  then show "dom m' = dom m" "released m' = (released m)(k \<mapsto> b)"
    by (auto simp: released_def)
qed

section \<open>Lemmas\<close>

lemma newStateMachine_eq:
  "newStateMachine keys k = (if k \<in> set keys then Some \<lparr>w_closed = False, w_s = False\<rparr> else None)"
proof -
  have "fold (\<lambda>key m. m(key \<mapsto> c)) keys m k = (if k \<in> set keys then Some c else m k)"
    for c :: state_w and m
    by (induction keys arbitrary: m) auto
  then show ?thesis by (simp add: newStateMachine_def)
qed

lemma dom_newStateMachine [simp]: "dom (newStateMachine keys) = set keys"
  by (auto simp: newStateMachine_eq dom_def)

lemma released_new [simp]: "released (newStateMachine keys) = Map.empty"
  by (auto simp: released_def newStateMachine_eq)

lemma Wait_loop_eq:
  "Wait_loop m ks r =
     (if \<forall>k \<in> set ks \<inter> dom m. released m k \<noteq> None
      then Some (r \<and> (\<forall>k \<in> set ks \<inter> dom m. released m k = Some True)) else None)"
proof (induction m ks r rule: Wait_loop.induct)
  case (2 m k ks r)
  then show ?case
    by (cases "m k") (auto simp: released_def dom_def split: if_splits)
qed simp

lemma WaitAll_eq: "WaitAll m ks = (if \<forall>k \<in> set ks \<inter> dom m. released m k \<noteq> None then Some () else None)"
  by (induction ks) (auto simp: Wait_def Wait_loop_eq split: option.splits)

lemma Wait_step_blocks:
  "Wait_step m (ks, r) = None \<longleftrightarrow> ks = [] \<or> hd ks \<in> dom m \<and> released m (hd ks) = None"
  by (cases ks) (auto simp: released_def split: option.splits)

section \<open>Waiting while others release\<close>

text \<open>
  A waiter that runs interleaved with releases.  The trace \<open>h\<close> is the releases so far.
\<close>

inductive waiting_run :: "string list \<Rightarrow> string list \<Rightarrow> (string \<times> bool) list \<Rightarrow> wait_machine \<Rightarrow> waiter \<Rightarrow> bool"
  for keys ks where
  wstart: "waiting_run keys ks [] (newStateMachine keys) (ks, True)"
| wrelease: "waiting_run keys ks h m w \<Longrightarrow> waiting_run keys ks (h @ [(k, b)]) (wm.rel (k, b) m) w"
| wadvance: "waiting_run keys ks h m w \<Longrightarrow> Wait_step m w = Some w' \<Longrightarrow> waiting_run keys ks h m w'"

lemma waiting_run_machine: "waiting_run keys ks h m w \<Longrightarrow> m = fold wm.rel h (newStateMachine keys)"
  by (induction rule: waiting_run.induct) simp_all

definition passed_ok :: "(string \<times> bool) list \<Rightarrow> string list \<Rightarrow> string list \<Rightarrow> waiter \<Rightarrow> bool" where
  "passed_ok h keys ks w \<longleftrightarrow>
     (\<exists>done. ks = done @ fst w \<and> (\<forall>k \<in> set done \<inter> set keys. \<exists>b. (k, b) \<in> set h) \<and>
       (snd w \<longrightarrow> (\<forall>k \<in> set done \<inter> set keys. (k, True) \<in> set h)) \<and>
       (\<not> snd w \<longrightarrow> (\<exists>k \<in> set done \<inter> set keys. (k, False) \<in> set h)))"

lemma passed_ok_mono: "passed_ok h keys ks w \<Longrightarrow> passed_ok (h @ h') keys ks w"
  unfolding passed_ok_def by (elim exE conjE, rule_tac x = "done" in exI) auto

lemma passed_ok_step:
  assumes m: "m = fold wm.rel h (newStateMachine keys)" and ok: "passed_ok h keys ks w"
    and step: "Wait_step m w = Some w'"
  shows "passed_ok h keys ks w'"
proof -
  obtain dn where dn: "ks = dn @ fst w" "\<forall>k \<in> set dn \<inter> set keys. \<exists>b. (k, b) \<in> set h"
    "snd w \<longrightarrow> (\<forall>k \<in> set dn \<inter> set keys. (k, True) \<in> set h)"
    "\<not> snd w \<longrightarrow> (\<exists>k \<in> set dn \<inter> set keys. (k, False) \<in> set h)"
    using ok unfolding passed_ok_def by blast
  obtain k r rest where w: "w = (k # rest, r)" using step by (cases "(m, w)" rule: Wait_step.cases) auto
  have d: "dom m = set keys" using m wm.known_rels by simp
  have hist: "(k, b) \<in> set h" if "k \<in> set keys" "released m k = Some b" for b
    using wm.opened_rels [of k "newStateMachine keys" h] that m
    by (auto split: option.splits dest: map_of_SomeD)
  show ?thesis
  proof (cases "k \<in> set keys")
    case True
    then obtain b where b: "released m k = Some b" "w' = (rest, r \<and> b)"
      using step d domIff [of k m] by (auto simp: w released_def split: option.splits if_splits)
    from hist [OF True b(1)] show ?thesis
      unfolding passed_ok_def using dn True b(2) w by (intro exI [of _ "dn @ [k]"]) (cases b; auto)
  next
    case False
    then have "w' = (rest, r)" using step d by (auto simp: w split: option.splits)
    then show ?thesis
      unfolding passed_ok_def using dn False w by (intro exI [of _ "dn @ [k]"]) auto
  qed
qed

lemma waiting_run_ok: "waiting_run keys ks h m w \<Longrightarrow> passed_ok h keys ks w"
proof (induction rule: waiting_run.induct)
  case wstart
  show ?case by (auto simp: passed_ok_def)
next
  case (wrelease h m w k b)
  then show ?case by (blast intro: passed_ok_mono)
next
  case (wadvance h m w w')
  then show ?case using passed_ok_step waiting_run_machine by blast
qed

section \<open>Properties\<close>

text \<open>
  \<^verbatim>\<open>Wait\<close> returns exactly when every key it names that the machine knows has been
  released, whatever the order of the releases, and its value is the conjunction of the
  states they were last released with; unknown keys count as satisfied.
\<close>

theorem wait_returns_iff:
  "Wait (fold wm.rel h (newStateMachine keys)) ks =
     (if \<forall>k \<in> set ks \<inter> set keys. k \<in> fst ` set h
      then Some (\<forall>k \<in> set ks \<inter> set keys. map_of (rev h) k = Some True) else None)"
proof -
  let ?m = "fold wm.rel h (newStateMachine keys)"
  have d: "dom ?m = set keys" by (simp add: wm.known_rels)
  have r: "released ?m k = map_of (rev h) k" if "k \<in> set keys" for k
    using wm.opened_rels [of k "newStateMachine keys" h] that by (auto split: option.splits)
  have "(map_of (rev h) k \<noteq> None) = (k \<in> fst ` set h)" for k
    by (simp add: map_of_eq_None_iff)
  then show ?thesis
    unfolding Wait_def Wait_loop_eq d using r by (simp cong: ball_cong_simp)
qed

theorem wait_returns_iff_witness:
  "Wait (fold wm.rel [(''a'', True), (''b'', False)] (newStateMachine [''a'', ''b'', ''c''])) [''a'', ''x''] = Some True \<and>
   Wait (fold wm.rel [(''a'', True), (''b'', False)] (newStateMachine [''a'', ''b'', ''c''])) [''a'', ''b''] = Some False \<and>
   Wait (fold wm.rel [(''a'', True), (''b'', False)] (newStateMachine [''a'', ''b'', ''c''])) [''a'', ''c''] = None"
  unfolding wait_returns_iff by auto

text \<open>
  A wait that runs interleaved with releases in any way: when it has returned, every
  key it named and the machine knows was released; if it returned true each of them was
  released as running at some time, and if it returned false one of them was released as
  failed.  While it has not returned it is blocked only on a known key that is not released.
\<close>

theorem wait_interleaved:
  assumes "waiting_run keys ks h m (todo, r)"
  shows "(todo = [] \<longrightarrow>
      (\<forall>k \<in> set ks \<inter> set keys. \<exists>b. (k, b) \<in> set h) \<and>
      (if r then \<forall>k \<in> set ks \<inter> set keys. (k, True) \<in> set h
       else \<exists>k \<in> set ks \<inter> set keys. (k, False) \<in> set h)) \<and>
    (todo \<noteq> [] \<and> Wait_step m (todo, r) = None \<longrightarrow>
      hd todo \<in> set keys \<and> hd todo \<notin> fst ` set h)"
proof
  show "todo = [] \<longrightarrow> (\<forall>k \<in> set ks \<inter> set keys. \<exists>b. (k, b) \<in> set h) \<and>
      (if r then \<forall>k \<in> set ks \<inter> set keys. (k, True) \<in> set h
       else \<exists>k \<in> set ks \<inter> set keys. (k, False) \<in> set h)"
    using waiting_run_ok [OF assms] unfolding passed_ok_def by auto
  show "todo \<noteq> [] \<and> Wait_step m (todo, r) = None \<longrightarrow> hd todo \<in> set keys \<and> hd todo \<notin> fst ` set h"
  proof
    assume b: "todo \<noteq> [] \<and> Wait_step m (todo, r) = None"
    have m: "m = fold wm.rel h (newStateMachine keys)" using waiting_run_machine [OF assms] .
    have "hd todo \<in> set keys" "released m (hd todo) = None"
      using b by (auto simp: Wait_step_blocks m wm.known_rels)
    then show "hd todo \<in> set keys \<and> hd todo \<notin> fst ` set h"
      using wm.opened_rels [of "hd todo" "newStateMachine keys" h]
      by (auto simp: m map_of_eq_None_iff split: option.splits)
  qed
qed

theorem wait_interleaved_witness:
  "\<exists>m. waiting_run [''a'', ''b''] [''a'', ''x''] [(''a'', True)] m ([], True) \<and>
     (''a'', True) \<in> set [(''a'', True)]"
proof -
  let ?m = "wm.rel (''a'', True) (newStateMachine [''a'', ''b''])"
  have "waiting_run [''a'', ''b''] [''a'', ''x''] [(''a'', True)] ?m ([''a'', ''x''], True)"
    using wrelease [OF wstart, of "[''a'', ''b'']" "[''a'', ''x'']" "''a''" True] by simp
  then have "waiting_run [''a'', ''b''] [''a'', ''x''] [(''a'', True)] ?m ([''x''], True)"
    by (rule wadvance) (simp add: wm.rel_def Release_def newStateMachine_eq)
  then have "waiting_run [''a'', ''b''] [''a'', ''x''] [(''a'', True)] ?m ([], True)"
    by (rule wadvance) (simp add: wm.rel_def Release_def newStateMachine_eq)
  with wait_interleaved [OF this] show ?thesis by auto
qed

end
