(* ===== verification/Pm_Hooks.thy ===== *)
theory Pm_Hooks
  imports Pm_Command
begin

text \<open>
  \<^verbatim>\<open>base/pm/runnerhook.go\<close>: the handlers of the events of one process.  A hook's \<^verbatim>\<open>Action\<close> is
  a closure of its client; the model returns what the hook calls: the list of actions that
  one event fires, of any type \<open>'a\<close> the client chooses.  The compiler of POSIX patterns
  is a parameter (\<open>compile p\<close> is the matcher of \<open>p\<close>, or \<^const>\<open>None\<close> for a bad pattern).
\<close>

section \<open>The hooks\<close>

record 'a delay_hook =
  dh_o :: bool
  dh_Delay :: int
  dh_Action :: 'a

definition DelayHook_Tick :: "int \<Rightarrow> 'a delay_hook \<Rightarrow> 'a delay_hook \<times> 'a list" where
  "DelayHook_Tick delay h =
     (if delay > dh_Delay h \<and> \<not> dh_o h then (h\<lparr>dh_o := True\<rparr>, [dh_Action h]) else (h, []))"

record 'a exit_hook =
  eh_o :: bool
  eh_Action :: "bool \<Rightarrow> 'a"

definition ExitHook_Exit :: "job_state option \<Rightarrow> 'a exit_hook \<Rightarrow> 'a exit_hook \<times> 'a list" where
  "ExitHook_Exit state h =
     (let s = (state = Some StateSuccess)
      in if eh_o h then (h, []) else (h\<lparr>eh_o := True\<rparr>, [eh_Action h s]))"

record 'a pid_hook =
  ph_o :: bool
  ph_Action :: "int \<Rightarrow> 'a"

definition PIDHook_PID :: "int \<Rightarrow> 'a pid_hook \<Rightarrow> 'a pid_hook \<times> 'a list" where
  "PIDHook_PID pid h = (if ph_o h then (h, []) else (h\<lparr>ph_o := True\<rparr>, [ph_Action h pid]))"

record 'a match_hook =
  mh_Match :: string
  mh_Action :: "message \<Rightarrow> 'a"
  mh_io :: bool
  mh_p :: "(string \<Rightarrow> bool) option"
  mh_o :: bool

definition MatchHook_Message ::
  "(string \<Rightarrow> (string \<Rightarrow> bool) option) \<Rightarrow> message \<Rightarrow> 'a match_hook \<Rightarrow> 'a match_hook \<times> 'a list" where
  "MatchHook_Message compile msg h0 =
     (let h = (if mh_io h0 then h0
               else h0\<lparr>mh_io := True,
                       mh_p := (case compile (mh_Match h0) of None \<Rightarrow> mh_p h0 | Some p \<Rightarrow> Some p)\<rparr>)
      in case mh_p h of
           None \<Rightarrow> (h, [])
         | Some p \<Rightarrow>
             if p (Message msg) \<and> \<not> mh_o h
             then (h\<lparr>mh_o := True, mh_p := None\<rparr>, [mh_Action h msg])
             else (h, []))"

record stream_hook =
  sh_Stdout :: string
  sh_Stderr :: string

definition StreamHook_Message :: "message \<Rightarrow> stream_hook \<Rightarrow> stream_hook" where
  "StreamHook_Message msg h =
     (if Meta_Level (Meta msg) = LevelStdout then h\<lparr>sh_Stdout := sh_Stdout h @ Message msg\<rparr>
      else if Meta_Level (Meta msg) = LevelStderr then h\<lparr>sh_Stderr := sh_Stderr h @ Message msg\<rparr>
      else h)"

text \<open>A \<^verbatim>\<open>RunnerHook\<close> value: one of the above, the events it does not define being no-ops.\<close>

datatype 'a runner_hook =
  NOOPHook
| DelayHook "'a delay_hook"
| ExitHook "'a exit_hook"
| PIDHook "'a pid_hook"
| MatchHook "'a match_hook"
| StreamHook stream_hook

fun hook_Tick :: "int \<Rightarrow> 'a runner_hook \<Rightarrow> 'a runner_hook \<times> 'a list" where
  "hook_Tick d (DelayHook h) = apfst DelayHook (DelayHook_Tick d h)"
| "hook_Tick d h = (h, [])"

fun hook_Message ::
  "(string \<Rightarrow> (string \<Rightarrow> bool) option) \<Rightarrow> message \<Rightarrow> 'a runner_hook \<Rightarrow> 'a runner_hook \<times> 'a list" where
  "hook_Message compile msg (MatchHook h) = apfst MatchHook (MatchHook_Message compile msg h)"
| "hook_Message compile msg (StreamHook h) = (StreamHook (StreamHook_Message msg h), [])"
| "hook_Message compile msg h = (h, [])"

fun hook_Exit :: "job_state option \<Rightarrow> 'a runner_hook \<Rightarrow> 'a runner_hook \<times> 'a list" where
  "hook_Exit st (ExitHook h) = apfst ExitHook (ExitHook_Exit st h)"
| "hook_Exit st h = (h, [])"

fun hook_PID :: "int \<Rightarrow> 'a runner_hook \<Rightarrow> 'a runner_hook \<times> 'a list" where
  "hook_PID pid (PIDHook h) = apfst PIDHook (PIDHook_PID pid h)"
| "hook_PID pid h = (h, [])"

text \<open>The \<^verbatim>\<open>for _, hook := range r.hooks\<close> loops of the job.\<close>

definition all_hooks :: "('a runner_hook \<Rightarrow> 'a runner_hook \<times> 'a list) \<Rightarrow> 'a runner_hook list \<Rightarrow>
    'a runner_hook list \<times> 'a list" where
  "all_hooks f hs = (map (fst \<circ> f) hs, concat (map (snd \<circ> f) hs))"

datatype hook_event = Ticked int | Got message | Exited "job_state option" | Started int

fun hook_on :: "(string \<Rightarrow> (string \<Rightarrow> bool) option) \<Rightarrow> hook_event \<Rightarrow> 'a runner_hook \<Rightarrow>
    'a runner_hook \<times> 'a list" where
  "hook_on c (Ticked d) = hook_Tick d"
| "hook_on c (Got m) = hook_Message c m"
| "hook_on c (Exited s) = hook_Exit s"
| "hook_on c (Started p) = hook_PID p"

section \<open>Hooks fire once\<close>

text \<open>
  The contract the four hooks with an action share: an event fires at most one action,
  the hook is spent after it, and a spent hook stays spent and silent.
\<close>

locale one_shot =
  fixes fire :: "'e \<Rightarrow> 'h \<Rightarrow> 'h \<times> 'a list"
    and spent :: "'h \<Rightarrow> bool"
  assumes fires_spent: "spent h \<Longrightarrow> snd (fire e h) = [] \<and> spent (fst (fire e h))"
    and fires_once: "\<not> spent h \<Longrightarrow>
      snd (fire e h) = [] \<and> \<not> spent (fst (fire e h)) \<or>
      length (snd (fire e h)) = 1 \<and> spent (fst (fire e h))"
begin

fun fire_all :: "'e list \<Rightarrow> 'h \<Rightarrow> 'h \<times> 'a list" where
  "fire_all [] h = (h, [])"
| "fire_all (e # es) h =
     (case fire e h of (h', as) \<Rightarrow> case fire_all es h' of (h'', bs) \<Rightarrow> (h'', as @ bs))"

lemma fire_all_spent: "spent h \<Longrightarrow> snd (fire_all es h) = [] \<and> spent (fst (fire_all es h))"
proof (induction es arbitrary: h)
  case (Cons e es)
  from fires_spent [OF Cons.prems, of e] Cons.IH [of "fst (fire e h)"]
  show ?case by (auto simp: case_prod_unfold)
qed simp

lemma fire_all_once:
  "\<not> spent h \<Longrightarrow> length (snd (fire_all es h)) = (if spent (fst (fire_all es h)) then 1 else 0)"
proof (induction es arbitrary: h)
  case (Cons e es)
  consider "snd (fire e h) = []" "\<not> spent (fst (fire e h))"
    | "length (snd (fire e h)) = 1" "spent (fst (fire e h))"
    using fires_once [OF Cons.prems, of e] by blast
  then show ?case
  proof cases
    case 1
    then show ?thesis using Cons.IH [of "fst (fire e h)"] by (simp add: case_prod_unfold)
  next
    case 2
    then show ?thesis using fire_all_spent [OF 2(2), of es] by (simp add: case_prod_unfold)
  qed
qed simp

lemma fire_all_at_most_once: "length (snd (fire_all es h)) \<le> 1"
  using fire_all_once [of h es] fire_all_spent [of h es] by (cases "spent h") auto

end

fun spent :: "'a runner_hook \<Rightarrow> bool" where
  "spent (DelayHook h) = dh_o h"
| "spent (ExitHook h) = eh_o h"
| "spent (PIDHook h) = ph_o h"
| "spent (MatchHook h) = mh_o h"
| "spent h = True"

lemmas hook_defs = DelayHook_Tick_def ExitHook_Exit_def PIDHook_PID_def MatchHook_Message_def

interpretation hk: one_shot "hook_on c" spent for c
proof unfold_locales
  fix h :: "'a runner_hook" and e
  show "spent h \<Longrightarrow> snd (hook_on c e h) = [] \<and> spent (fst (hook_on c e h))"
    by (cases e; cases h) (auto simp: hook_defs Let_def split: option.splits)
  show "\<not> spent h \<Longrightarrow> snd (hook_on c e h) = [] \<and> \<not> spent (fst (hook_on c e h)) \<or>
      length (snd (hook_on c e h)) = 1 \<and> spent (fst (hook_on c e h))"
    by (cases e; cases h) (auto simp: hook_defs Let_def split: option.splits)
qed

section \<open>Lemmas\<close>

lemma StreamHook_fold:
  "fold StreamHook_Message msgs h =
     \<lparr>sh_Stdout = sh_Stdout h @ concat (map Message (filter (\<lambda>m. Meta_Level (Meta m) = LevelStdout) msgs)),
      sh_Stderr = sh_Stderr h @ concat (map Message (filter (\<lambda>m. Meta_Level (Meta m) = LevelStderr) msgs))\<rparr>"
  by (induction msgs arbitrary: h) (auto simp: StreamHook_Message_def LevelStdout_def LevelStderr_def)

section \<open>Properties\<close>

text \<open>
  Whatever sequence of ticks, messages, exits and pid registrations a process goes
  through, over all its restarts, a hook runs its action at most once, and it is spent
  exactly when it has run it; with a delay hook the action runs iff some tick came later
  than its delay.
\<close>

theorem hook_fires_once:
  "length (snd (hk.fire_all c es h)) \<le> 1 \<and>
   (\<not> spent h \<longrightarrow> (snd (hk.fire_all c es h) \<noteq> []) = spent (fst (hk.fire_all c es h))) \<and>
   (h = DelayHook \<lparr>dh_o = False, dh_Delay = d, dh_Action = a\<rparr> \<longrightarrow>
      snd (hk.fire_all c es h) = (if \<exists>t \<in> set es. case t of Ticked x \<Rightarrow> d < x | _ \<Rightarrow> False then [a] else []))"
proof (intro conjI)
  show "length (snd (hk.fire_all c es h)) \<le> 1" by (rule hk.fire_all_at_most_once)
  show "\<not> spent h \<longrightarrow> (snd (hk.fire_all c es h) \<noteq> []) = spent (fst (hk.fire_all c es h))"
    using hk.fire_all_once [of h c es] by (cases "spent (fst (hk.fire_all c es h))") auto
  show "h = DelayHook \<lparr>dh_o = False, dh_Delay = d, dh_Action = a\<rparr> \<longrightarrow>
      snd (hk.fire_all c es h) = (if \<exists>t \<in> set es. case t of Ticked x \<Rightarrow> d < x | _ \<Rightarrow> False then [a] else [])"
  proof (induction es arbitrary: h)
    case (Cons e es)
    have "snd (hk.fire_all c es (DelayHook \<lparr>dh_o = True, dh_Delay = d, dh_Action = a\<rparr>)) = []"
      using hk.fire_all_spent [of "DelayHook \<lparr>dh_o = True, dh_Delay = d, dh_Action = a\<rparr>" c es] by simp
    with Cons show ?case
      by (cases e) (auto simp: DelayHook_Tick_def case_prod_unfold)
  qed simp
qed

theorem hook_fires_once_witness:
  "snd (hk.fire_all (\<lambda>p. None) [Ticked 1, Ticked 3, Ticked 4]
     (DelayHook \<lparr>dh_o = False, dh_Delay = 2, dh_Action = ''released''\<rparr>)) = [''released'']"
  using hook_fires_once [of "\<lambda>p. None" "[Ticked 1, Ticked 3, Ticked 4]"
      "DelayHook \<lparr>dh_o = False, dh_Delay = 2, dh_Action = ''released''\<rparr>" 2 "''released''"]
  by simp

text \<open>
  A stream hook holds the whole of both standard streams, in order and with nothing
  dropped, while the buffers of the job keep only their last lines.
\<close>

theorem stream_hook_collects:
  "fold StreamHook_Message msgs \<lparr>sh_Stdout = [], sh_Stderr = []\<rparr> =
     \<lparr>sh_Stdout = concat (map Message (filter (\<lambda>m. Meta_Level (Meta m) = LevelStdout) msgs)),
      sh_Stderr = concat (map Message (filter (\<lambda>m. Meta_Level (Meta m) = LevelStderr) msgs))\<rparr>"
  by (simp add: StreamHook_fold)

end
