(* ===== verification/Pm_Handlers.thy ===== *)
theory Pm_Handlers
  imports Pm_Command
begin

text \<open>
  The process manager's handlers (\<^verbatim>\<open>base/pm/handlers.go\<close>) and the functions of \<^verbatim>\<open>base/pm/pm.go\<close>
  that call them for the messages and the result of a job: \<^verbatim>\<open>Aggregate\<close>,
  \<^verbatim>\<open>handleStatsMessage\<close>, \<^verbatim>\<open>msgCallback\<close> and \<^verbatim>\<open>callback\<close>.  A handler is the set of the
  optional interfaces it implements; what the manager does with it is the list of the
  calls it makes.  A Go panic is \<^const>\<open>None\<close>.  \<open>pf\<close> stands for \<^verbatim>\<open>strconv.ParseFloat\<close>.
\<close>

record handler =
  isPreHandler :: bool
  isResultHandler :: bool
  isMessageHandler :: bool
  isStatsHandler :: bool

type_synonym tag = "string \<times> string"

record 'f stats_call =
  st_op :: string
  st_key :: string
  st_value :: 'f
  st_id :: string
  st_tags :: "tag list"

text \<open>The indexes of the handlers that implement an interface, in the order they were added.\<close>

definition handlers_that :: "(handler \<Rightarrow> bool) \<Rightarrow> handler list \<Rightarrow> nat list" where
  "handlers_that is hs = filter (\<lambda>i. is (hs ! i)) [0..<length hs]"

definition Aggregate :: "handler list \<Rightarrow> 'f stats_call \<Rightarrow> (nat \<times> 'f stats_call) list" where
  "Aggregate hs c = map (\<lambda>i. (i, c)) (handlers_that isStatsHandler hs)"

text \<open>The local function \<^verbatim>\<open>parse\<close> of \<^verbatim>\<open>handleStatsMessage\<close>, one tag at a time.\<close>

fun parse_tags :: "string list \<Rightarrow> string \<times> tag list" where
  "parse_tags [] = ([], [])"
| "parse_tags (p # ps) =
     (let kv = splitN2 (CHR ''='') p;
          v = (if length kv = 2 then kv ! 1 else []);
          (i, tags) = parse_tags ps
      in if kv ! 0 = ''id'' then (if list_ex (\<lambda>q. splitN2 (CHR ''='') q ! 0 = ''id'') ps then i else v, tags)
         else (i, (kv ! 0, v) # tags))"

definition parse :: "string \<Rightarrow> string \<times> tag list" where
  "parse t = parse_tags (split (CHR '','') t)"

text \<open>
  The two length checks only log: the code goes on and indexes \<^verbatim>\<open>parts[1]\<close> and \<^verbatim>\<open>data[1]\<close>,
  which panics when they are missing.
\<close>

definition handleStatsMessage ::
  "(string \<Rightarrow> 'f option) \<Rightarrow> handler list \<Rightarrow> message \<Rightarrow> (nat \<times> 'f stats_call) list option" where
  "handleStatsMessage pf hs msg =
     (let parts = split (CHR ''|'') (Message msg)
      in if length parts < 2 then None
         else
           (let optype = parts ! 1;
                tagsStr = (if length parts = 3 then parts ! 2 else []);
                data = split (CHR '':'') (parts ! 0)
            in if length data < 2 then None
               else
                 (let key = trim (data ! 0) '' ''
                  in case pf (data ! 1) of
                       None \<Rightarrow> Some []
                     | Some v \<Rightarrow>
                         (let (i, tags) = parse tagsStr
                          in Some (Aggregate hs
                               \<lparr>st_op = optype, st_key = key, st_value = v, st_id = i, st_tags = tags\<rparr>)))))"

text \<open>
  \<^verbatim>\<open>msgCallback\<close> updates the message in place before the handlers see it: the result is the
  message as it leaves it, the stats calls and the handlers that got it.  When the stats
  message panics nothing of that happens.
\<close>

definition msgCallback ::
  "(string \<Rightarrow> 'f option) \<Rightarrow> handler list \<Rightarrow> int \<Rightarrow> command \<Rightarrow> message \<Rightarrow>
     (message \<times> (nat \<times> 'f stats_call) list \<times> nat list) option" where
  "msgCallback pf hs now cmd msg =
     (case (if Meta_Assert (Meta msg) [LevelStatsd] then handleStatsMessage pf hs msg else Some []) of
        None \<Rightarrow> None
      | Some stats \<Rightarrow>
          (let msg1 = msg\<lparr>Epoch := now\<rparr>;
               msg2 = (if cmd_Stream cmd then msg1\<lparr>Meta := Meta_Set (Meta msg1) StreamFlag\<rparr> else msg1)
           in Some (msg2, stats, handlers_that isMessageHandler hs)))"

definition callback :: "handler list \<Rightarrow> command \<Rightarrow> job_result \<Rightarrow> job_result \<times> nat list" where
  "callback hs cmd result = (result\<lparr>jr_Tags := cmd_Tags cmd\<rparr>, handlers_that isResultHandler hs)"

section \<open>Lemmas\<close>

lemma parse_tags_id:
  "fst (parse_tags ps) =
     (case filter (\<lambda>q. splitN2 (CHR ''='') q ! 0 = ''id'') ps of
        [] \<Rightarrow> []
      | q # qs \<Rightarrow> (let kv = splitN2 (CHR ''='') (last (q # qs)) in if length kv = 2 then kv ! 1 else []))"
  by (induction ps) (auto simp: Let_def case_prod_unfold list_ex_iff filter_empty_conv split: list.splits)

lemma parse_tags_tags:
  "map fst (snd (parse_tags ps)) = filter (\<lambda>k. k \<noteq> ''id'') (map (\<lambda>p. splitN2 (CHR ''='') p ! 0) ps)"
  by (induction ps) (auto simp: Let_def case_prod_unfold)

text \<open>The wire form of a statistics message.\<close>

definition tag_text :: "tag \<Rightarrow> string" where
  "tag_text t = fst t @ ''='' @ snd t"

definition wf_tag :: "tag \<Rightarrow> bool" where
  "wf_tag t \<longleftrightarrow> fst t \<noteq> ''id'' \<and> CHR ''='' \<notin> set (fst t) \<and> CHR '','' \<notin> set (fst t) \<union> set (snd t) \<and>
     CHR ''|'' \<notin> set (fst t) \<union> set (snd t)"

definition stats_text :: "string \<Rightarrow> string \<Rightarrow> string \<Rightarrow> string \<Rightarrow> tag list \<Rightarrow> string" where
  "stats_text key v op i tags =
     key @ '':'' @ v @ ''|'' @ op @ ''|'' @ join '','' (map tag_text ((''id'', i) # tags))"

lemma splitN2_tag: "CHR ''='' \<notin> set k \<Longrightarrow> splitN2 (CHR ''='') (tag_text (k, v)) = [k, v]"
  using splitN2_sep [of "CHR ''=''" k v] by (simp add: tag_text_def)

lemma parse_tag_texts:
  "list_all wf_tag tags \<Longrightarrow> parse_tags (map tag_text tags) = ([], tags)"
  by (induction tags) (auto simp: wf_tag_def splitN2_tag Let_def)

lemma parse_stats_tags:
  "list_all wf_tag tags \<Longrightarrow> parse_tags (map tag_text ((''id'', i) # tags)) = (i, tags)"
proof -
  assume wf: "list_all wf_tag tags"
  then have "\<not> list_ex (\<lambda>q. splitN2 (CHR ''='') q ! 0 = ''id'') (map tag_text tags)"
    by (induction tags) (auto simp: wf_tag_def splitN2_tag)
  then show ?thesis
    using splitN2_tag [of "''id''" i] by (simp add: Let_def parse_tag_texts [OF wf])
qed

section \<open>Properties\<close>

text \<open>
  A well-formed statistics message \<^verbatim>\<open>key:value|op|id=i,tag=v,...\<close> reaches every statistics
  handler, in the order they were added, with the operation, the key, the number, the id
  and the tags it was written from.
\<close>

theorem stats_message_delivered:
  assumes "pf v = Some x" "list_all wf_tag tags"
    and "set (key @ v @ op @ i) \<inter> {CHR ''|''} = {}" "CHR '':'' \<notin> set (key @ v)" "CHR '','' \<notin> set i"
    and "Message msg = stats_text key v op i tags"
  shows "handleStatsMessage pf hs msg =
    Some (map (\<lambda>n. (n, \<lparr>st_op = op, st_key = trim key '' '', st_value = x, st_id = i, st_tags = tags\<rparr>))
      (handlers_that isStatsHandler hs))"
proof -
  let ?T = "join '','' (map tag_text ((''id'', i) # tags))"
  have bar: "CHR ''|'' \<notin> set ?T"
    using assms(2,3) by (intro not_in_join) (auto simp: tag_text_def wf_tag_def list_all_iff)
  have "split (CHR ''|'') (join ''|'' [key @ '':'' @ v, op, ?T]) = [key @ '':'' @ v, op, ?T]"
    using assms(3) bar by (intro split_join) auto
  then have parts: "split (CHR ''|'') (Message msg) = [key @ '':'' @ v, op, ?T]"
    by (simp add: stats_text_def assms(6))
  have data: "split (CHR '':'') (key @ '':'' @ v) = [key, v]"
    using split_join [of "[key, v]" "CHR '':''"] assms(4) by auto
  have "split (CHR '','') ?T = map tag_text ((''id'', i) # tags)"
    using assms(2,5) by (intro split_join) (auto simp: tag_text_def wf_tag_def list_all_iff)
  then have tags: "parse ?T = (i, tags)"
    unfolding parse_def by (simp only: parse_stats_tags [OF assms(2)])
  show ?thesis
    using data tags by (simp add: handleStatsMessage_def parts assms(1) Aggregate_def)
qed

definition sampleHandlers :: "handler list" where
  "sampleHandlers =
     [\<lparr>isPreHandler = False, isResultHandler = True, isMessageHandler = True, isStatsHandler = False\<rparr>,
      \<lparr>isPreHandler = False, isResultHandler = False, isMessageHandler = False, isStatsHandler = True\<rparr>]"

theorem stats_message_delivered_witness:
  "handleStatsMessage (\<lambda>s. Some (length s)) sampleHandlers
     \<lparr>Message = ''cpu:75|A|id=3,host=n1'', Epoch = 0, Meta = NewMeta LevelStatsd []\<rparr> =
   Some [(1, \<lparr>st_op = ''A'', st_key = ''cpu'', st_value = 2, st_id = ''3'', st_tags = [(''host'', ''n1'')]\<rparr>)]"
  using stats_message_delivered [of "\<lambda>s. Some (length s)" "''75''" 2 "[(''host'', ''n1'')]" "''cpu''" "''A''" "''3''"
      "\<lparr>Message = ''cpu:75|A|id=3,host=n1'', Epoch = 0, Meta = NewMeta LevelStatsd []\<rparr>" sampleHandlers]
  by (simp add: wf_tag_def stats_text_def tag_text_def handlers_that_def sampleHandlers_def upt_rec
      trim_def trimLeft_def trimRight_def)

text \<open>
  The guards of the statistics parser do not guard: a message without a separator bar,
  or whose first part has no colon, panics, and with it \<^verbatim>\<open>msgCallback\<close>, so that no message
  handler sees such a message.
\<close>

theorem stats_message_panics:
  assumes "CHR ''|'' \<notin> set (Message msg) \<or> CHR '':'' \<notin> set (Message msg)"
    and "Meta_Level (Meta msg) = LevelStatsd"
  shows "handleStatsMessage pf hs msg = None \<and> msgCallback pf hs now cmd msg = None"
proof -
  have one: "length (split c s) < 2" if "c \<notin> set s" for c s
    using split_join [of "[s]" c] that by simp
  have "set (split (CHR ''|'') (Message msg) ! 0) \<subseteq> set (Message msg)"
    by (rule split_subset [of _ "CHR ''|''"]) simp
  then have "length (split (CHR ''|'') (Message msg)) < 2 \<or>
      length (split (CHR '':'') (split (CHR ''|'') (Message msg) ! 0)) < 2"
    using one assms(1) by blast
  then have "handleStatsMessage pf hs msg = None"
    by (auto simp: handleStatsMessage_def Let_def)
  then show ?thesis
    using assms(2) by (simp add: msgCallback_def Meta_Assert_iff)
qed

theorem stats_message_panics_witness:
  "msgCallback (\<lambda>s. Some (0::nat)) sampleHandlers 0 (sampleJob ''1'' [])
     \<lparr>Message = ''cpu 75'', Epoch = 0, Meta = 655360\<rparr> = None"
  using stats_message_panics [of "\<lparr>Message = ''cpu 75'', Epoch = 0, Meta = 655360\<rparr>"
      "\<lambda>s. Some (0::nat)" sampleHandlers 0 "sampleJob ''1'' []"]
  by (simp add: Meta_Level_def LevelStatsd_def)

end
