(* ===== verification/Utils.thy ===== *)
theory Utils
  imports Prelude
begin

text \<open>
  \<^verbatim>\<open>base/utils/utils.go\<close> and \<^verbatim>\<open>base/utils/cmdline.go\<close>: log levels, string templates, path
  normalisation, map helpers and the kernel command line.  \<^verbatim>\<open>fmt.Sprintf("%v", x)\<close> of a
  value of any type is the parameter \<open>show\<close>, the shell lexer \<^verbatim>\<open>shlex.Split\<close> the parameter
  \<open>shlex\<close>.  A Go map is a \<^typ>\<open>'a \<rightharpoonup> 'b\<close>; where the code ranges over one, the list of its
  keys in the order of the iteration is an argument.
\<close>

section \<open>Log levels\<close>

definition validLevels :: "int list" where
  "validLevels = [1, 2, 3, 4, 5, 6, 7, 8, 9, 10, 11, 20, 21, 22, 23, 30]"

fun In :: "int list \<Rightarrow> int \<Rightarrow> bool" where
  "In [] x = False"
| "In (y # l) x = (if y = x then True else In l x)"

fun InString :: "string list \<Rightarrow> string \<Rightarrow> bool" where
  "InString [] x = False"
| "InString (y # l) x = (if y = x then True else InString l x)"

text \<open>The body of the loop of \<^verbatim>\<open>Expand\<close>: the levels that one part adds to the set.\<close>

definition expand_part :: "string \<Rightarrow> num_error + int list" where
  "expand_part part0 =
     (let part = trimSpace part0;
          boundries = split (CHR ''-'') part;
          lower = trim (boundries ! 0) '' '';
          hasUpper = (length boundries > 1);
          upper = (if hasUpper then parseInt 32 (trimSpace (boundries ! 1)) else (0, None))
      in case snd upper of
           Some err \<Rightarrow> Inl err
         | None \<Rightarrow>
             if lower = ''*'' then Inr validLevels
             else
               (case parseInt 32 lower of
                  (_, Some err) \<Rightarrow> Inl err
                | (lowerValue, None) \<Rightarrow>
                    if \<not> hasUpper then Inr (if In validLevels lowerValue then [lowerValue] else [])
                    else
                      (let upperValue = (if fst upper > 30 then 30 else fst upper)
                       in Inr (filter (In validLevels) [lowerValue..upperValue]))))"

fun expand_parts :: "string list \<Rightarrow> int list \<Rightarrow> num_error + int list" where
  "expand_parts [] levels = Inr levels"
| "expand_parts (part # parts) levels =
     (case expand_part part of
        Inl err \<Rightarrow> Inl err
      | Inr ls \<Rightarrow> expand_parts parts (levels @ ls))"

definition Expand :: "string \<Rightarrow> num_error + int list" where
  "Expand s =
     (case expand_parts (split (CHR '','') s) [] of
        Inl err \<Rightarrow> Inl err
      | Inr levels \<Rightarrow> Inr (sort (remdups levels)))"

section \<open>Templates\<close>

text \<open>
  \<^verbatim>\<open>Format\<close>: at every opening brace that is followed by a non-empty run of characters
  other than a closing brace and a closing brace, the match is replaced.
\<close>

definition format_key :: "string \<Rightarrow> string" where
  "format_key m = trimRight (trimLeft m ''{'') ''}''"

definition format_match :: "('v \<Rightarrow> string) \<Rightarrow> (string \<rightharpoonup> 'v) \<Rightarrow> string \<Rightarrow> string" where
  "format_match show values m =
     (case values (format_key m) of None \<Rightarrow> m | Some v \<Rightarrow> show v)"

function Format :: "('v \<Rightarrow> string) \<Rightarrow> string \<Rightarrow> (string \<rightharpoonup> 'v) \<Rightarrow> string" where
  "Format show [] values = []"
| "Format show (c # cs) values =
     (let body = takeWhile (\<lambda>x. x \<noteq> CHR ''}'') cs; rest = dropWhile (\<lambda>x. x \<noteq> CHR ''}'') cs
      in if c = CHR ''{'' \<and> body \<noteq> [] \<and> rest \<noteq> []
         then format_match show values (c # body @ [CHR ''}'']) @ Format show (tl rest) values
         else c # Format show cs values)"
  by pat_completeness auto
termination
proof (relation "measure (\<lambda>(_, s, _). length s)")
  fix c :: char and cs body rest :: string and f :: "'v \<Rightarrow> string" and vs :: "string \<rightharpoonup> 'v"
  assume "rest = dropWhile (\<lambda>x. x \<noteq> CHR ''}'') cs"
  then have "length rest \<le> length cs" by (simp add: length_dropWhile_le)
  then show "((f, tl rest, vs), f, c # cs, vs) \<in> measure (\<lambda>(_, s, _). length s)"
    by simp
qed simp_all

section \<open>Maps and paths\<close>

text \<open>\<^verbatim>\<open>GetKeys\<close>: the keys in the order the runtime iterates, which is any order.\<close>

definition GetKeys :: "(string \<times> 'v) list \<Rightarrow> string list" where
  "GetKeys m = map fst m"

definition Update :: "(string \<rightharpoonup> 'v) \<Rightarrow> (string \<times> 'v) list \<Rightarrow> (string \<rightharpoonup> 'v)" where
  "Update dst src = fold (\<lambda>(k, v) m. m(k \<mapsto> v)) src dst"

text \<open>
  \<^verbatim>\<open>path.Clean\<close> of a rooted path: empty and \<^verbatim>\<open>.\<close> elements disappear, \<^verbatim>\<open>..\<close> removes the element
  before it, or nothing at the root.
\<close>

fun clean_elems :: "string list \<Rightarrow> string list \<Rightarrow> string list" where
  "clean_elems out [] = rev out"
| "clean_elems out (e # es) =
     (if e = [] \<or> e = ''.'' then clean_elems out es
      else if e = ''..'' then clean_elems (tl out) es
      else clean_elems (e # out) es)"

definition path_clean_rooted :: "string \<Rightarrow> string" where
  "path_clean_rooted p = ''/'' @ join ''/'' (clean_elems [] (split (CHR ''/'') p))"

definition SafeNormalize :: "string \<Rightarrow> string" where
  "SafeNormalize p = path_clean_rooted (path_clean_rooted (if p = [] then ''/'' else ''/'' @ ''/'' @ p))"

section \<open>The kernel command line\<close>

type_synonym kernel_options = "string \<rightharpoonup> string list"

definition KernelOptions_Is :: "kernel_options \<Rightarrow> string \<Rightarrow> bool" where
  "KernelOptions_Is k key \<longleftrightarrow> k key \<noteq> None"

definition KernelOptions_Get :: "kernel_options \<Rightarrow> string \<Rightarrow> string list option" where
  "KernelOptions_Get k key = k key"

text \<open>\<^verbatim>\<open>values[len(values)-1]\<close> panics on an empty list: \<^const>\<open>None\<close> for the whole call.\<close>

definition KernelOptions_GetLast :: "kernel_options \<Rightarrow> (string \<rightharpoonup> string) option" where
  "KernelOptions_GetLast k =
     (if \<exists>key \<in> dom k. k key = Some [] then None else Some (\<lambda>key. map_option last (k key)))"

fun options_text :: "string \<Rightarrow> string list \<Rightarrow> string list" where
  "options_text key [] = []"
| "options_text key (v # vs) = (if v \<noteq> [] then key @ ''='' @ v else key) # options_text key vs"

definition KernelOptions_String :: "kernel_options \<Rightarrow> string list \<Rightarrow> string" where
  "KernelOptions_String k keys =
     join '', '' (concat (map (\<lambda>key. case k key of None \<Rightarrow> [] | Some values \<Rightarrow> options_text key values) keys))"

fun add_options :: "string list \<Rightarrow> kernel_options \<Rightarrow> kernel_options" where
  "add_options [] options = options"
| "add_options (option # cmdline) options =
     (let kv = splitN2 (CHR ''='') option;
          key = kv ! 0;
          v = (if length kv = 2 then kv ! 1 else [])
      in add_options cmdline
           (options(key \<mapsto> (case options key of None \<Rightarrow> [] | Some vs \<Rightarrow> vs) @ [v])))"

definition parseKernelOptions :: "(string \<Rightarrow> string list) \<Rightarrow> string \<Rightarrow> kernel_options" where
  "parseKernelOptions shlex content = add_options (shlex (trimSpace content)) Map.empty"

text \<open>\<^verbatim>\<open>GetKernelOptions\<close>: \<open>file\<close> is the content of \<^verbatim>\<open>/proc/cmdline\<close>, \<^const>\<open>None\<close> when it cannot be read.\<close>

definition GetKernelOptions :: "(string \<Rightarrow> string list) \<Rightarrow> string option \<Rightarrow> kernel_options" where
  "GetKernelOptions shlex file =
     (case file of None \<Rightarrow> Map.empty | Some content \<Rightarrow> parseKernelOptions shlex content)"

section \<open>Lemmas\<close>

lemma In_iff [simp]: "In l x \<longleftrightarrow> x \<in> set l"
  by (induction l) auto

lemma InString_iff [simp]: "InString l x \<longleftrightarrow> x \<in> set l"
  by (induction l) auto

lemma Update_eq: "Update dst src = dst ++ map_of (rev src)"
proof -
  have "fold (\<lambda>(k, v) m. m(k \<mapsto> v)) src dst = dst ++ map_of (rev src)"
    by (induction src arbitrary: dst) (auto simp: fun_eq_iff map_add_def split: option.splits)
  then show ?thesis by (simp add: Update_def)
qed

lemma expand_part_valid: "expand_part p = Inr ls \<Longrightarrow> set ls \<subseteq> set validLevels"
  by (auto simp: expand_part_def Let_def split: option.splits if_splits prod.splits)

lemma expand_parts_Inl: "expand_parts ps acc = Inl e \<Longrightarrow> \<exists>p \<in> set ps. expand_part p = Inl e"
  by (induction ps arbitrary: acc) (auto split: sum.splits)

lemma expand_parts_Inr:
  "expand_parts ps acc = Inr ls \<Longrightarrow> (\<forall>p \<in> set ps. \<not> isl (expand_part p)) \<and>
     set ls = set acc \<union> (\<Union>p \<in> set ps. set (projr (expand_part p)))"
  by (induction ps arbitrary: acc) (auto split: sum.splits)

definition clean_elem :: "string \<Rightarrow> bool" where
  "clean_elem e \<longleftrightarrow> e \<noteq> [] \<and> e \<noteq> ''.'' \<and> e \<noteq> ''..'' \<and> CHR ''/'' \<notin> set e"

lemma list_all_tl: "list_all P xs \<Longrightarrow> list_all P (tl xs)"
  by (cases xs) simp_all

lemma clean_elems_list_all:
  "list_all clean_elem out \<Longrightarrow> list_all (\<lambda>e. CHR ''/'' \<notin> set e) es \<Longrightarrow>
   list_all clean_elem (clean_elems out es)"
  by (induction out es rule: clean_elems.induct) (simp_all add: clean_elem_def list_all_tl list_all_rev)

lemma clean_elems_clean: "\<forall>e \<in> set (clean_elems [] (split (CHR ''/'') p)). clean_elem e"
  using clean_elems_list_all [of "[]" "split (CHR ''/'') p"] set_split by (auto simp: list_all_iff)

lemma clean_elems_id: "\<forall>e \<in> set es. clean_elem e \<Longrightarrow> clean_elems out es = rev out @ es"
  by (induction out es rule: clean_elems.induct) (auto simp: clean_elem_def)

lemma path_clean_rooted_elems:
  "\<exists>es. path_clean_rooted p = ''/'' @ join ''/'' es \<and> (\<forall>e \<in> set es. clean_elem e)"
  unfolding path_clean_rooted_def using clean_elems_clean by blast

lemma path_clean_rooted_id:
  assumes "\<forall>e \<in> set es. clean_elem e"
  shows "path_clean_rooted (''/'' @ join ''/'' es) = ''/'' @ join ''/'' es"
proof (cases "es = []")
  case False
  then have "split (CHR ''/'') (join ''/'' es) = es"
    using assms by (intro split_join) (auto simp: clean_elem_def)
  then show ?thesis
    using assms by (simp add: path_clean_rooted_def clean_elems_id)
qed (simp add: path_clean_rooted_def)

lemma SafeNormalize_elems:
  "SafeNormalize p = ''/'' @ join ''/'' (clean_elems [] (split (CHR ''/'') p))"
proof -
  have "path_clean_rooted (if p = [] then ''/'' else ''/'' @ ''/'' @ p) =
      ''/'' @ join ''/'' (clean_elems [] (split (CHR ''/'') p))"
    by (simp add: path_clean_rooted_def)
  moreover have "\<forall>e \<in> set (clean_elems [] (split (CHR ''/'') p)). clean_elem e"
    by (rule clean_elems_clean)
  ultimately show ?thesis
    by (simp add: SafeNormalize_def path_clean_rooted_id del: append.simps)
qed

definition option_kv :: "string \<Rightarrow> string \<times> string" where
  "option_kv option =
     (let kv = splitN2 (CHR ''='') option in (kv ! 0, if length kv = 2 then kv ! 1 else []))"

lemma add_options_eq:
  "add_options os k key =
     (let vs = map snd (filter (\<lambda>kv. fst kv = key) (map option_kv os))
      in if vs = [] then k key else Some ((case k key of None \<Rightarrow> [] | Some us \<Rightarrow> us) @ vs))"
  by (induction os arbitrary: k) (auto simp: option_kv_def Let_def filter_empty_conv split: option.splits)

text \<open>A template is a sequence of literal pieces and placeholders.\<close>

datatype piece = Lit string | Key string

fun piece_text :: "piece \<Rightarrow> string" where
  "piece_text (Lit s) = s"
| "piece_text (Key k) = ''{'' @ k @ ''}''"

fun wf_piece :: "piece \<Rightarrow> bool" where
  "wf_piece (Lit s) = (CHR ''{'' \<notin> set s)"
| "wf_piece (Key k) = (k \<noteq> [] \<and> CHR ''{'' \<notin> set k \<and> CHR ''}'' \<notin> set k)"

fun piece_value :: "('v \<Rightarrow> string) \<Rightarrow> (string \<rightharpoonup> 'v) \<Rightarrow> piece \<Rightarrow> string" where
  "piece_value sh vs (Lit s) = s"
| "piece_value sh vs (Key k) = (case vs k of None \<Rightarrow> ''{'' @ k @ ''}'' | Some v \<Rightarrow> sh v)"

lemma format_key_eq: "CHR ''{'' \<notin> set k \<Longrightarrow> CHR ''}'' \<notin> set k \<Longrightarrow> format_key (''{'' @ k @ ''}'') = k"
proof -
  assume k: "CHR ''{'' \<notin> set k" "CHR ''}'' \<notin> set k"
  have id: "dropWhile (\<lambda>c. c \<in> set cut) xs = xs" if "set xs \<inter> set cut = {}" for cut xs
    using that by (cases xs) auto
  have "trimLeft (''{'' @ k @ ''}'') ''{'' = k @ ''}''"
    using id [of "k @ ''}''" "''{''"] k by (simp add: trimLeft_def)
  moreover have "trimRight (k @ ''}'') ''}'' = k"
    using id [of "rev k" "''}''"] k by (simp add: trimRight_def)
  ultimately show ?thesis by (simp only: format_key_def)
qed

lemma Format_Lit: "CHR ''{'' \<notin> set s \<Longrightarrow> Format sh (s @ t) vs = s @ Format sh t vs"
  by (induction s) (auto simp: Let_def)

lemma Format_Key:
  "wf_piece (Key k) \<Longrightarrow> Format sh (piece_text (Key k) @ t) vs = piece_value sh vs (Key k) @ Format sh t vs"
proof -
  assume wf: "wf_piece (Key k)"
  have "takeWhile (\<lambda>x. x \<noteq> CHR ''}'') (k @ CHR ''}'' # t) = k"
    "dropWhile (\<lambda>x. x \<noteq> CHR ''}'') (k @ CHR ''}'' # t) = CHR ''}'' # t"
    using wf by (auto simp: takeWhile_append dropWhile_append)
  then show ?thesis
    using wf format_key_eq [of k] by (auto simp: Let_def format_match_def split: option.splits)
qed

section \<open>Properties\<close>

text \<open>
  \<^verbatim>\<open>Expand\<close> returns an error exactly when one of its comma separated parts is malformed,
  and otherwise the sorted list, without repetitions, of the levels its parts denote; all
  of them are valid levels.
\<close>

theorem expand_correct:
  "(case Expand s of
      Inl err \<Rightarrow> \<exists>p \<in> set (split (CHR '','') s). expand_part p = Inl err
    | Inr ls \<Rightarrow>
        (\<forall>p \<in> set (split (CHR '','') s). \<not> isl (expand_part p)) \<and> sorted ls \<and> distinct ls \<and>
        set ls \<subseteq> set validLevels \<and>
        set ls = (\<Union>p \<in> set (split (CHR '','') s). set (projr (expand_part p))))"
proof (cases "expand_parts (split (CHR '','') s) []")
  case (Inl e)
  then show ?thesis using expand_parts_Inl [OF Inl] by (simp add: Expand_def)
next
  case (Inr ls)
  note ok = expand_parts_Inr [OF Inr]
  have "set (projr (expand_part p)) \<subseteq> set validLevels" if "p \<in> set (split (CHR '','') s)" for p
    using that ok expand_part_valid [of p "projr (expand_part p)"] by (cases "expand_part p") auto
  with ok show ?thesis by (auto simp: Expand_def Inr)
qed

theorem expand_correct_witness:
  "Expand ''9-21,2, 99'' = Inr [2, 9, 10, 11, 20, 21] \<and>
   sorted [2, 9, 10, 11, 20, 21 :: int] \<and> Expand ''1-x'' = Inl ErrSyntax"
proof -
  have 1: "Expand ''9-21,2, 99'' = Inr [2, 9, 10, 11, 20, 21]"
    by (simp add: Expand_def expand_part_def Let_def trimSpace_def trim_def trimLeft_def trimRight_def
        goSpace_def parseInt_def isDigit_def atoi_def digitVal_def validLevels_def)
  have 2: "Expand ''1-x'' = Inl ErrSyntax"
    by (simp add: Expand_def expand_part_def Let_def trimSpace_def trim_def trimLeft_def trimRight_def
        goSpace_def parseInt_def isDigit_def)
  from expand_correct [of "''9-21,2, 99''"] 1 2 show ?thesis by simp
qed

text \<open>
  \<^verbatim>\<open>SafeNormalize\<close> keeps a path inside its root: the result is absolute, none of its
  elements is empty, \<^verbatim>\<open>.\<close> or \<^verbatim>\<open>..\<close>, it leaves a clean path as it is, and normalising twice is
  normalising once.
\<close>

theorem safe_normalize_confined:
  "(\<exists>es. SafeNormalize p = ''/'' @ join ''/'' es \<and>
      list_all (\<lambda>e. e \<noteq> [] \<and> e \<noteq> ''.'' \<and> e \<noteq> ''..'' \<and> CHR ''/'' \<notin> set e) es) \<and>
   SafeNormalize (SafeNormalize p) = SafeNormalize p"
proof -
  let ?es = "clean_elems [] (split (CHR ''/'') p)"
  have c: "\<forall>e \<in> set ?es. clean_elem e"
    by (rule clean_elems_clean)
  have "SafeNormalize (SafeNormalize p) = path_clean_rooted (''/'' @ join ''/'' ?es)"
    by (simp add: SafeNormalize_elems path_clean_rooted_def)
  then show ?thesis
    using c by (auto simp: SafeNormalize_elems path_clean_rooted_id list_all_iff clean_elem_def
        simp del: append.simps)
qed

text \<open>
  The kernel options: every key holds the values of all its occurrences in order, no
  list is empty, so that \<^verbatim>\<open>GetLast\<close> never panics and returns for each key the value of its
  last occurrence.
\<close>

theorem kernel_options_correct:
  "let opts = map option_kv (shlex (trimSpace content)); k = parseKernelOptions shlex content
   in (\<forall>key. k key = (if key \<in> fst ` set opts
                       then Some (map snd (filter (\<lambda>kv. fst kv = key) opts)) else None)) \<and>
      KernelOptions_GetLast k = Some (map_of (rev opts))"
proof -
  let ?opts = "map option_kv (shlex (trimSpace content))"
  let ?k = "parseKernelOptions shlex content"
  have k: "?k key = (if key \<in> fst ` set ?opts
                     then Some (map snd (filter (\<lambda>kv. fst kv = key) ?opts)) else None)" for key
    unfolding parseKernelOptions_def add_options_eq Let_def by (auto simp: filter_empty_conv)
  have "map_option last (?k key) = map_of (rev ?opts) key" for key
  proof -
    have "(if key \<in> fst ` set os then Some (last (map snd (filter (\<lambda>kv. fst kv = key) os))) else None)
        = map_of (rev os) key" for os :: "(string \<times> string) list"
    proof (induction os rule: rev_induct)
      case (snoc kv os)
      then show ?case by (cases "fst kv = key") (auto simp: map_add_def simp del: fst_conv)
    qed simp
    from this [of ?opts] show ?thesis unfolding k by (simp split: if_splits)
  qed
  moreover have "\<not> (\<exists>key \<in> dom ?k. ?k key = Some [])"
    by (auto simp: k filter_empty_conv split: if_splits)
  ultimately show ?thesis
    using k by (simp add: KernelOptions_GetLast_def Let_def fun_eq_iff)
qed

text \<open>
  \<^verbatim>\<open>Format\<close> replaces exactly the placeholders that have a value: in a template made of
  text and of placeholders, every known key becomes its value, unknown placeholders and
  the text stay as they are.
\<close>

theorem format_template:
  assumes "list_all wf_piece ps"
  shows "Format sh (concat (map piece_text ps)) vs = concat (map (piece_value sh vs) ps)"
  using assms
proof (induction ps)
  case (Cons p ps)
  then show ?case
  proof (cases p)
    case (Key k)
    then show ?thesis using Cons Format_Key [of k sh _ vs] by simp
  qed (simp add: Format_Lit)
qed simp

theorem format_template_witness:
  "Format id ''mount {dev} on {dir}'' [''dev'' \<mapsto> ''sda''] = ''mount sda on {dir}''"
  using format_template [of "[Lit ''mount '', Key ''dev'', Lit '' on '', Key ''dir'']" id "[''dev'' \<mapsto> ''sda'']"]
  by simp

end
