(* ===== verification/Go_Json.thy ===== *)
theory Go_Json
  imports Prelude
begin

text \<open>
  What the sources use of Go's \<^verbatim>\<open>encoding/json\<close>: values, decoding of an object into the fields
  of a struct, and the printing of a decoded number by \<^verbatim>\<open>fmt.Sprint\<close>.  An integer literal is
  \<open>JNum\<close>, any other number \<open>JReal\<close> with its text.  A \<^verbatim>\<open>json.RawMessage\<close> is the value it holds.
\<close>

datatype json =
  JNull
| JBool bool
| JNum int
| JReal string
| JStr string
| JArr "json list"
| JObj "(string \<times> json) list"

section \<open>Decoding\<close>

text \<open>
  A key of an object is matched to the name of a field without regard to case; the entries
  are stored in turn, so the last one wins, and a null leaves a field as it is.
  \<^const>\<open>None\<close> is the error of \<^verbatim>\<open>Unmarshal\<close>.
\<close>

definition lower :: "char \<Rightarrow> char" where
  "lower c = (if 65 \<le> (of_char c :: nat) \<and> (of_char c :: nat) \<le> 90 then char_of ((of_char c :: nat) + 32) else c)"

definition entries :: "string \<Rightarrow> (string \<times> json) list \<Rightarrow> json list" where
  "entries name es = map snd (filter (\<lambda>(k, v). map lower k = name) es)"

fun store :: "(json \<Rightarrow> 'a option) \<Rightarrow> 'a \<Rightarrow> json list \<Rightarrow> 'a option" where
  "store d x [] = Some x"
| "store d x (JNull # js) = store d x js"
| "store d x (j # js) = (case d j of None \<Rightarrow> None | Some y \<Rightarrow> store d y js)"

definition objectOf :: "json \<Rightarrow> (string \<times> json) list option" where
  "objectOf j = (case j of JObj es \<Rightarrow> Some es | JNull \<Rightarrow> Some [] | _ \<Rightarrow> None)"

definition field_string :: "string \<Rightarrow> (string \<times> json) list \<Rightarrow> string option" where
  "field_string name es = store (\<lambda>j. case j of JStr s \<Rightarrow> Some s | _ \<Rightarrow> None) [] (entries name es)"

definition field_uint :: "nat \<Rightarrow> string \<Rightarrow> (string \<times> json) list \<Rightarrow> nat option" where
  "field_uint bits name es =
     store (\<lambda>j. case j of JNum n \<Rightarrow> if 0 \<le> n \<and> n < 2 ^ bits then Some (nat n) else None | _ \<Rightarrow> None) 0 (entries name es)"

definition field_int :: "string \<Rightarrow> (string \<times> json) list \<Rightarrow> int option" where
  "field_int name es =
     store (\<lambda>j. case j of JNum n \<Rightarrow> if - (2 ^ 63) \<le> n \<and> n < 2 ^ 63 then Some n else None | _ \<Rightarrow> None) 0 (entries name es)"

text \<open>The entries of a nested struct: a repeated key adds to the same struct.\<close>

fun nested :: "json list \<Rightarrow> (string \<times> json) list option" where
  "nested [] = Some []"
| "nested (j # js) =
     (case (objectOf j, nested js) of (Some es, Some fs) \<Rightarrow> Some (es @ fs) | _ \<Rightarrow> None)"

definition field_struct :: "string \<Rightarrow> (string \<times> json) list \<Rightarrow> (string \<times> json) list option" where
  "field_struct name es = nested (entries name es)"

text \<open>A raw field is absent or holds the last value, null included.\<close>

definition field_raw :: "string \<Rightarrow> (string \<times> json) list \<Rightarrow> json option" where
  "field_raw name es = (case entries name es of [] \<Rightarrow> None | js \<Rightarrow> Some (last js))"

definition field_array :: "(json \<Rightarrow> 'a option) \<Rightarrow> string \<Rightarrow> (string \<times> json) list \<Rightarrow> 'a list option" where
  "field_array d name es =
     store (\<lambda>j. case j of JArr js \<Rightarrow> those (map d js) | _ \<Rightarrow> None) [] (entries name es)"

text \<open>A \<^verbatim>\<open>map[string]json.RawMessage\<close>: every key once, with its last value.\<close>

definition put_entry :: "string \<times> json \<Rightarrow> (string \<times> json) list \<Rightarrow> (string \<times> json) list" where
  "put_entry kv m = filter (\<lambda>e. fst e \<noteq> fst kv) m @ [kv]"

definition raw_map :: "json \<Rightarrow> (string \<times> json) list option" where
  "raw_map j = map_option (\<lambda>es. fold put_entry es []) (objectOf j)"

section \<open>Printing numbers\<close>

text \<open>
  \<^verbatim>\<open>fmt.Sprint\<close> of the \<^verbatim>\<open>float64\<close> an integer literal decodes to (exact for literals up to 2^53):
  plain below a million, else with an exponent and without trailing zeros.
\<close>

definition sprint_float :: "int \<Rightarrow> string" where
  "sprint_float n =
     (if \<bar>n\<bar> < 10 ^ 6 then itoaInt n
      else let ds = itoa (nat \<bar>n\<bar>); m = trimRight ds ''0''; e = length ds - 1
           in (if n < 0 then ''-'' else []) @ take 1 m @ (if length m = 1 then [] else CHR ''.'' # drop 1 m) @
              ''e+'' @ (if e < 10 then CHR ''0'' # itoa e else itoa e))"

section \<open>Lemmas\<close>

lemma entries_simps [simp]:
  "entries name [] = []"
  "entries name ((k, v) # es) = (if map lower k = name then v # entries name es else entries name es)"
  by (simp_all add: entries_def)

lemma objectOf_simps [simp]: "objectOf (JObj es) = Some es" "objectOf JNull = Some []" "objectOf (JStr s) = None"
  "objectOf (JNum n) = None" "objectOf (JArr js) = None" "objectOf (JBool b) = None" "objectOf (JReal r) = None"
  by (simp_all add: objectOf_def)

lemma distinct_put_entry: "distinct (map fst m) \<Longrightarrow> distinct (map fst (put_entry kv m))"
  by (auto simp: put_entry_def distinct_map inj_on_def)

lemma distinct_put_entries: "distinct (map fst m) \<Longrightarrow> distinct (map fst (fold put_entry es m))"
  by (induction es arbitrary: m) (simp_all add: distinct_put_entry)

lemma raw_map_distinct: "raw_map j = Some m \<Longrightarrow> distinct (map fst m)"
  using distinct_put_entries [of "[]"] by (auto simp: raw_map_def)

lemma raw_map_single [simp]: "raw_map (JObj [(k, v)]) = Some [(k, v)]"
  by (simp add: raw_map_def put_entry_def)

end
