(* ===== verification/Pm_Process.thy ===== *)
theory Pm_Process
  imports Pm_Command Utils Go_Json Complex_Main
begin

text \<open>
  The kinds of process a job can run: \<^verbatim>\<open>base/pm/process.go\<close>, \<^verbatim>\<open>builtin.go\<close> (the registry of
  factories), \<^verbatim>\<open>builtinprocess.go\<close>, \<^verbatim>\<open>systemprocess.go\<close>, \<^verbatim>\<open>containerprocess.go\<close> and
  \<^verbatim>\<open>extensionprocess.go\<close>.  What the operating system answers (path lookup, pipes, the start of
  a process, the process group of a pid, the readings of a process) is the record
  \<open>os_calls\<close> or an argument; what the code makes of it is the model: the description of
  the process it starts, every error it returns, and the messages it sends on its channel.
\<close>

section \<open>The registry of factories\<close>

definition CommandSystem :: string where "CommandSystem = ''core.system''"

datatype 'r process_factory =
  NewSystemProcess
| NewContainerProcess
| NewInternalProcess 'r
| NewInternalProcessWithCtx 'r
| extensionProcessFactory string string "string list" "(string \<times> string) list"

type_synonym 'r factories = "string \<rightharpoonup> 'r process_factory"

definition builtin_factories :: "'r factories" where
  "builtin_factories = [CommandSystem \<mapsto> NewSystemProcess]"

definition GetProcessFactory :: "'r factories \<Rightarrow> command \<Rightarrow> 'r process_factory option" where
  "GetProcessFactory factories cmd = factories (cmd_Command cmd)"

text \<open>\<^verbatim>\<open>Register\<close> panics (\<^const>\<open>None\<close>) when the name is taken.\<close>

definition Register :: "'r factories \<Rightarrow> string \<Rightarrow> 'r process_factory \<Rightarrow> 'r factories option" where
  "Register factories name factory =
     (if factories name \<noteq> None then None else Some (factories(name \<mapsto> factory)))"

definition RegisterExtension ::
  "'r factories \<Rightarrow> string \<Rightarrow> string \<Rightarrow> string \<Rightarrow> string list \<Rightarrow> (string \<times> string) list \<Rightarrow>
     (go_error + 'r factories) option" where
  "RegisterExtension factories cmd exe workdir cmdargs env =
     (if factories cmd \<noteq> None
      then Some (Inl (Errorf (''job factory with the same name already registered: '' @ cmd)))
      else (case Register factories cmd (extensionProcessFactory exe workdir cmdargs env) of
              None \<Rightarrow> None
            | Some fs \<Rightarrow> Some (Inr fs)))"

definition RegisterBuiltIn :: "'r factories \<Rightarrow> string \<Rightarrow> 'r \<Rightarrow> 'r factories option" where
  "RegisterBuiltIn factories name runnable = Register factories name (NewInternalProcess runnable)"

definition RegisterBuiltInWithCtx :: "'r factories \<Rightarrow> string \<Rightarrow> 'r \<Rightarrow> 'r factories option" where
  "RegisterBuiltInWithCtx factories name runnable =
     Register factories name (NewInternalProcessWithCtx runnable)"

section \<open>Built-in processes\<close>

definition StatusInternalServerError :: u32 where "StatusInternalServerError = 500"

text \<open>
  \<^verbatim>\<open>Context.Log\<close>: the message it sends, \<^const>\<open>None\<close> when it panics.  Epochs are set by the
  manager, a new message has none.
\<close>

definition newMessage :: "meta \<Rightarrow> string \<Rightarrow> message" where
  "newMessage m text = \<lparr>Message = text, Epoch = 0, Meta = m\<rparr>"

definition Context_Log :: "string \<Rightarrow> u16 list \<Rightarrow> message option" where
  "Context_Log text level =
     (case level of
        [] \<Rightarrow> Some (newMessage (NewMeta LevelStdout []) text)
      | [l] \<Rightarrow> Some (newMessage (NewMeta l []) text)
      | _ \<Rightarrow> None)"

text \<open>How the function behind a built-in command ends.\<close>

datatype 'v outcome = Returned 'v | Failed go_error | Panicked string

text \<open>\<open>js\<close> and \<open>jv\<close> are \<^verbatim>\<open>json.Marshal\<close> of a string and of the value (empty when it fails).\<close>

definition internalProcess_exit :: "(string \<Rightarrow> string) \<Rightarrow> ('v \<Rightarrow> string) \<Rightarrow> 'v outcome \<Rightarrow> message" where
  "internalProcess_exit js jv out =
     (case out of
        Returned v \<Rightarrow> newMessage (NewMeta LevelResultJSON [ExitSuccessFlag]) (jv v)
      | Failed err \<Rightarrow>
          (let code = (case err_Code err of Some c \<Rightarrow> c | None \<Rightarrow> StatusInternalServerError)
           in newMessage (NewMetaWithCode code LevelResultJSON [ExitErrorFlag]) (js (err_Text err)))
      | Panicked err \<Rightarrow>
          newMessage (NewMetaWithCode StatusInternalServerError LevelResultJSON [ExitErrorFlag]) (js err))"

text \<open>The messages on the channel, which is closed after them: those of the function, then the exit.\<close>

definition internalProcess_Run ::
  "(string \<Rightarrow> string) \<Rightarrow> ('v \<Rightarrow> string) \<Rightarrow> message list \<Rightarrow> 'v outcome \<Rightarrow> message list" where
  "internalProcess_Run js jv logged out = logged @ [internalProcess_exit js jv out]"

definition internalProcess_Signal :: "int \<Rightarrow> go_error option" where
  "internalProcess_Signal sig = None"

section \<open>System processes\<close>

record system_args =
  sa_Name :: string
  sa_Dir :: string
  sa_Args :: "string list"
  sa_Env :: "(string \<times> string) list"
  sa_StdIn :: string

text \<open>What \<^verbatim>\<open>os.StartProcess\<close> is called with.\<close>

record spawn =
  sp_path :: string
  sp_argv :: "string list"
  sp_dir :: string
  sp_env :: "string list"
  sp_chroot :: string
  sp_cloneflags :: u64
  sp_setpgid :: bool
  sp_setsid :: bool

record os_calls =
  os_LookPath :: "string \<Rightarrow> go_error + string"
  os_Environ :: "string list"
  os_stdin :: "go_error option"
  os_pipe_out :: "go_error option"
  os_pipe_err :: "go_error option"
  os_log :: "go_error option"
  os_Start :: "spawn \<Rightarrow> go_error + int"

definition env_text :: "(string \<times> string) list \<Rightarrow> string list" where
  "env_text env = map (\<lambda>(k, v). k @ ''='' @ v) env"

text \<open>A running system process: its pid, the data written to its input and whether its output is read.\<close>

record sys_process =
  ps_spawn :: spawn
  ps_pid :: int
  ps_input :: "string option"
  ps_output :: bool

definition systemProcess_Run :: "os_calls \<Rightarrow> job_flags \<Rightarrow> system_args \<Rightarrow> go_error + sys_process" where
  "systemProcess_Run os flags args =
     (case os_LookPath os (sa_Name args) of
        Inl err \<Rightarrow> Inl (NotFoundError (err_Text err))
      | Inr name \<Rightarrow>
          (let env = (if length (sa_Env args) > 0 then os_Environ os @ env_text (sa_Env args) else [])
           in case os_stdin os of
                Some err \<Rightarrow> Inl err
              | None \<Rightarrow>
                  (case (if NoOutput flags then None
                         else case os_pipe_out os of Some e \<Rightarrow> Some e | None \<Rightarrow> os_pipe_err os) of
                     Some err \<Rightarrow> Inl err
                   | None \<Rightarrow>
                       (let sp = \<lparr>sp_path = name, sp_argv = name # sa_Args args, sp_dir = sa_Dir args,
                                  sp_env = env, sp_chroot = [], sp_cloneflags = 0,
                                  sp_setpgid = \<not> NoSetPGID flags, sp_setsid = False\<rparr>
                        in case os_Start os sp of
                             Inl err \<Rightarrow> Inl err
                           | Inr pid \<Rightarrow>
                               Inr \<lparr>ps_spawn = sp, ps_pid = pid,
                                    ps_input = (if sa_StdIn args \<noteq> [] then Some (sa_StdIn args) else None),
                                    ps_output = \<not> NoOutput flags\<rparr>))))"

text \<open>\<^verbatim>\<open>syscall.WaitStatus.ExitStatus\<close>: -1 for a process that did not exit by itself.\<close>

definition ExitStatus :: "u32 \<Rightarrow> int" where
  "ExitStatus w = (if w AND 0x7f = 0 then uint (drop_bit 8 w AND 0xff) else -1)"

definition systemProcess_exit :: "u32 \<Rightarrow> message" where
  "systemProcess_exit state =
     (let code = ExitStatus state
      in if code = 0 then newMessage (NewMeta LevelStdout [ExitSuccessFlag]) []
         else newMessage (NewMetaWithCode (word_of_int (1000 + code)) LevelStderr [ExitErrorFlag]) [])"

text \<open>\<^verbatim>\<open>Signal\<close>: who is killed, by \<^verbatim>\<open>syscall.Kill\<close>; a negative number is a process group.\<close>

definition systemProcess_Signal ::
  "(int \<Rightarrow> go_error + int) \<Rightarrow> job_flags \<Rightarrow> int option \<Rightarrow> go_error + int" where
  "systemProcess_Signal getpgid flags process =
     (case process of
        None \<Rightarrow> Inl (Errorf ''process not found'')
      | Some pid \<Rightarrow>
          if \<not> NoSetPGID flags
          then (case getpgid pid of Inl err \<Rightarrow> Inl err | Inr gid \<Rightarrow> Inr (- gid))
          else Inr pid)"

definition process_GetPID :: "int option \<Rightarrow> int" where
  "process_GetPID process = (case process of None \<Rightarrow> -1 | Some pid \<Rightarrow> pid)"

record 'f process_stats =
  CPU :: 'f
  RSS :: u64
  VMS :: u64
  Swap :: u64

text \<open>\<^verbatim>\<open>Stats\<close>: each reading that fails leaves its fields at zero; \<open>z\<close> is the float zero.\<close>

definition process_Stats ::
  "'f \<Rightarrow> int option \<Rightarrow> 'f option \<Rightarrow> (u64 \<times> u64 \<times> u64) option \<Rightarrow> 'f process_stats" where
  "process_Stats z process cpu mem =
     (let s0 = \<lparr>CPU = z, RSS = 0, VMS = 0, Swap = 0\<rparr>
      in case process of
           None \<Rightarrow> s0
         | Some _ \<Rightarrow>
             (let s1 = (case cpu of None \<Rightarrow> s0 | Some c \<Rightarrow> s0\<lparr>CPU := c\<rparr>)
              in case mem of None \<Rightarrow> s1 | Some (rss, vms, swap) \<Rightarrow> s1\<lparr>RSS := rss, VMS := vms, Swap := swap\<rparr>))"

section \<open>Container processes\<close>

record container_args =
  ca_Name :: string
  ca_Dir :: string
  ca_Args :: "string list"
  ca_Env :: "(string \<times> string) list"
  ca_HostNetwork :: bool
  ca_Chroot :: string
  ca_Log :: string

definition CLONE_NEWPID :: u64 where "CLONE_NEWPID = 0x20000000"
definition CLONE_NEWNS :: u64 where "CLONE_NEWNS = 0x20000"
definition CLONE_NEWUTS :: u64 where "CLONE_NEWUTS = 0x4000000"
definition CLONE_NEWNET :: u64 where "CLONE_NEWNET = 0x40000000"

definition containerProcess_Run :: "os_calls \<Rightarrow> container_args \<Rightarrow> go_error + sys_process" where
  "containerProcess_Run os args =
     (let env = (if length (ca_Env args) > 0 then env_text (ca_Env args) else []);
          flags0 = CLONE_NEWPID OR CLONE_NEWNS OR CLONE_NEWUTS;
          flags = (if \<not> ca_HostNetwork args then flags0 OR CLONE_NEWNET else flags0)
      in case (case os_pipe_out os of Some e \<Rightarrow> Some e | None \<Rightarrow> os_pipe_err os) of
           Some err \<Rightarrow> Inl err
         | None \<Rightarrow>
             (case (if ca_Log args \<noteq> [] then os_log os else None) of
                Some err \<Rightarrow> Inl err
              | None \<Rightarrow>
                  (let sp = \<lparr>sp_path = ca_Name args, sp_argv = ca_Name args # ca_Args args,
                             sp_dir = ca_Dir args, sp_env = env, sp_chroot = ca_Chroot args,
                             sp_cloneflags = flags, sp_setpgid = False, sp_setsid = True\<rparr>
                   in case os_Start os sp of
                        Inl err \<Rightarrow> Inl err
                      | Inr pid \<Rightarrow> Inr \<lparr>ps_spawn = sp, ps_pid = pid, ps_input = None, ps_output = False\<rparr>)))"

definition containerProcess_exit :: "u32 \<Rightarrow> message" where
  "containerProcess_exit state =
     (let code = ExitStatus state
      in if code = 0 then newMessage (NewMeta LevelStdout [ExitSuccessFlag]) []
         else newMessage (NewMetaWithCode (word_of_int code) LevelStderr [ExitErrorFlag]) [])"

definition containerProcess_Signal :: "int option \<Rightarrow> go_error + int" where
  "containerProcess_Signal process =
     (case process of Some pid \<Rightarrow> Inr (- pid) | None \<Rightarrow> Inl (Errorf ''process not found''))"

section \<open>Extensions\<close>

text \<open>
  The command line of an extension.  \<open>input\<close> is the decoded argument map, empty when
  decoding failed; \<open>sh\<close> is \<^verbatim>\<open>%v\<close>.  A \<^verbatim>\<open>stdin\<close> that is no string is dropped too.
\<close>

definition extension_args ::
  "(json \<Rightarrow> string) \<Rightarrow> string \<Rightarrow> string \<Rightarrow> string list \<Rightarrow> (string \<times> string) list \<Rightarrow>
     (string \<rightharpoonup> json) option \<Rightarrow> system_args" where
  "extension_args sh exe dir args env decoded =
     (let input = (case decoded of None \<Rightarrow> Map.empty | Some m \<Rightarrow> m);
          stdin = (case input ''stdin'' of Some (JStr s) \<Rightarrow> s | _ \<Rightarrow> []);
          input' = input(''stdin'' := None)
      in \<lparr>sa_Name = exe, sa_Dir = dir, sa_Args = map (\<lambda>arg. Format sh arg input') args,
          sa_Env = env, sa_StdIn = stdin\<rparr>)"

definition extension_command :: "command \<Rightarrow> command" where
  "extension_command cmd =
     \<lparr>cmd_ID = cmd_ID cmd, cmd_Command = CommandSystem, cmd_Arguments = cmd_Arguments cmd, cmd_Queue = [],
      cmd_StatsInterval = 0, cmd_MaxTime = 0, cmd_MaxRestart = 0, cmd_RecurringPeriod = 0,
      cmd_Stream = False, cmd_LogLevels = [], cmd_Tags = cmd_Tags cmd,
      cmd_Flags = \<lparr>Protected = False, NoOutput = False, NoSetPGID = False\<rparr>\<rparr>"

definition extensionProcess_Run :: "os_calls \<Rightarrow> command \<Rightarrow> system_args \<Rightarrow> go_error + sys_process" where
  "extensionProcess_Run os cmd args = systemProcess_Run os (cmd_Flags (extension_command cmd)) args"

text \<open>Which factories make processes that implement \<^verbatim>\<open>PIDer\<close>; all of them implement \<^verbatim>\<open>Signaler\<close>.\<close>

fun isPIDer :: "'r process_factory \<Rightarrow> bool" where
  "isPIDer NewSystemProcess = True"
| "isPIDer NewContainerProcess = True"
| "isPIDer f = False"

section \<open>Lemmas\<close>

lemma ExitStatus_range: "-1 \<le> ExitStatus w" "ExitStatus w \<le> 255"
proof -
  have "uint (drop_bit 8 w AND 0xff) \<le> uint (0xff :: u32)"
    by (rule word_le_def [THEN iffD1]) (rule word_and_le1)
  moreover have "0 \<le> uint (drop_bit 8 w AND 0xff)" by (rule unsigned_greater_eq)
  then have "-1 \<le> uint (drop_bit 8 w AND 0xff)" by linarith
  ultimately show "-1 \<le> ExitStatus w" "ExitStatus w \<le> 255"
    by (simp_all add: ExitStatus_def)
qed

lemma unat_code: "0 \<le> c \<Longrightarrow> c < 4294967296 \<Longrightarrow> unat (word_of_int c :: u32) = nat c"
  by (simp add: unat_eq_nat_uint uint_word_of_int)

lemma exit_flags:
  "ExitErrorFlag AND ExitErrorFlag \<noteq> 0" "ExitErrorFlag AND ExitSuccessFlag = 0"
  "ExitSuccessFlag AND ExitSuccessFlag \<noteq> 0" "ExitSuccessFlag AND ExitErrorFlag = 0"
  by (simp_all add: ExitErrorFlag_def ExitSuccessFlag_def)

section \<open>Properties\<close>

text \<open>
  The exit message of a process tells success exactly for exit status 0; otherwise it
  carries the error flag and the code 1000 plus the exit status for a system process (999
  for one that was killed by a signal), and the bare status for a container, where a
  signal gives the largest 32 bit number.
\<close>

theorem process_exit_codes:
  "Meta_Is (Meta (systemProcess_exit w)) ExitSuccessFlag = (ExitStatus w = 0) \<and>
   Meta_Is (Meta (systemProcess_exit w)) ExitErrorFlag = (ExitStatus w \<noteq> 0) \<and>
   unat (Meta_Code (Meta (systemProcess_exit w))) = (if ExitStatus w = 0 then 0 else nat (1000 + ExitStatus w)) \<and>
   Meta_Is (Meta (containerProcess_exit w)) ExitSuccessFlag = (ExitStatus w = 0) \<and>
   Meta_Is (Meta (containerProcess_exit w)) ExitErrorFlag = (ExitStatus w \<noteq> 0) \<and>
   unat (Meta_Code (Meta (containerProcess_exit w))) =
     (if ExitStatus w = -1 then 4294967295 else nat (ExitStatus w))"
proof -
  let ?c = "ExitStatus w"
  have sys: "unat (word_of_int (1000 + ?c) :: u32) = nat (1000 + ?c)"
    using ExitStatus_range [of w] by (intro unat_code) linarith+
  have con: "unat (word_of_int ?c :: u32) = (if ?c = -1 then 4294967295 else nat ?c)"
  proof (cases "?c = -1")
    case True
    have "unat (-1 :: u32) = 4294967295"
      by (simp add: unsigned_minus_1_eq_mask mask_eq_exp_minus_1)
    with True show ?thesis by simp
  next
    case False
    then show ?thesis using ExitStatus_range [of w] unat_code [of ?c] by simp
  qed
  show ?thesis
    using exit_flags sys con
    by (simp add: systemProcess_exit_def containerProcess_exit_def newMessage_def Let_def
        Is_NewMeta Is_NewMetaWithCode)
qed

end
