(* ===== verification/Pm_Job.thy ===== *)
theory Pm_Job
  imports Stream_Buffer Pm_Hooks Pm_Handlers Pm_Backoff Pm_Process
begin

text \<open>
  \<^verbatim>\<open>base/pm/job.go\<close>: one run of a job's process (the \<^verbatim>\<open>select\<close> loop of \<^verbatim>\<open>run\<close>, as a fold over
  the events it receives), the restart policy of \<^verbatim>\<open>start\<close>, and the control operations
  (signals, scheduling, subscription, pid registration).  Times are nanoseconds.
\<close>

section \<open>One run\<close>

definition StandardStreamBufferSize :: int where "StandardStreamBufferSize = 100"
definition GenericStreamBufferSize :: int where "GenericStreamBufferSize = 10"

text \<open>What stays fixed during a run: the command, the manager's handlers and the library functions.\<close>

record 'f job_env =
  je_cmd :: command
  je_handlers :: "handler list"
  je_parseFloat :: "string \<Rightarrow> 'f option"
  je_compile :: "string \<Rightarrow> (string \<Rightarrow> bool) option"
  je_signaler :: bool

text \<open>
  The local variables of \<^verbatim>\<open>run\<close> with the fields of the job it writes, and what it did to
  others: the actions its hooks fired, the signals it passed on, the messages the manager's
  handlers got, and those the subscribers got.
\<close>

record 'a run_state =
  rs_result :: job_result
  rs_last :: "message option"
  rs_critical :: string
  rs_stdout :: "string buffer"
  rs_stderr :: "string buffer"
  rs_backlog :: "message buffer"
  rs_subscribers :: "nat list"
  rs_hooks :: "'a runner_hook list"
  rs_actions :: "'a list"
  rs_signalled :: "int list"
  rs_handled :: "message list"
  rs_delivered :: "(nat \<times> message) list"

datatype run_event =
  SignalEv int
| TimeoutEv
| TickEv int
| MessageEv int message
| ClosedEv
| SubscribeEv nat

datatype loop_status = Looping | LoopExit | LoopPanic

definition SIGKILL :: int where "SIGKILL = 9"
definition SIGTERM :: int where "SIGTERM = 15"

text \<open>
  \<^verbatim>\<open>callback\<close>: the message as it is left, whether the handlers got it, and what the subscribers
  got.  A panic while it is handled (a malformed statistics message) is recovered here.
\<close>

definition job_callback ::
  "'f job_env \<Rightarrow> int \<Rightarrow> nat list \<Rightarrow> message \<Rightarrow> message \<times> message list \<times> (nat \<times> message) list" where
  "job_callback env now subs msg =
     (case msgCallback (je_parseFloat env) (je_handlers env) now (je_cmd env) msg of
        None \<Rightarrow> (msg, [], [])
      | Some (msg', _, _) \<Rightarrow> (msg', [msg'], map (\<lambda>sub. (sub, msg')) subs))"

text \<open>
  The message branch.  The backlog, the result and the handlers share one message object;
  it is changed in place (its code is dropped, the manager stamps it), so the backlog holds
  it as \<^verbatim>\<open>callback\<close> leaves it.
\<close>

definition run_message ::
  "'f job_env \<Rightarrow> int \<Rightarrow> message \<Rightarrow> 'a run_state \<Rightarrow> 'a run_state \<times> loop_status" where
  "run_message env now msg s =
     (let meta = Meta msg;
          s1 = (if Meta_Is meta ExitSuccessFlag
                then s\<lparr>rs_result := (rs_result s)\<lparr>jr_State := Some StateSuccess\<rparr>\<rparr> else s);
          s2 = (if Meta_Assert meta ResultMessageLevels then s1\<lparr>rs_last := Some msg\<rparr>
                else if Meta_Assert meta [LevelStdout]
                then s1\<lparr>rs_stdout := Buffer_Append (Message msg) (rs_stdout s1)\<rparr>
                else if Meta_Assert meta [LevelStderr]
                then s1\<lparr>rs_stderr := Buffer_Append (Message msg) (rs_stderr s1)\<rparr>
                else if Meta_Assert meta [LevelCritical] then s1\<lparr>rs_critical := Message msg\<rparr>
                else s1);
          (hooks, acts) = all_hooks (hook_Message (je_compile env) msg) (rs_hooks s2);
          code = Meta_Code meta;
          (msg', handled, delivered) =
            job_callback env now (rs_subscribers s2) (msg\<lparr>Meta := Meta_Base meta\<rparr>);
          s3 = s2\<lparr>rs_hooks := hooks, rs_actions := rs_actions s2 @ acts,
                  rs_backlog := Buffer_Append msg' (rs_backlog s2),
                  rs_handled := rs_handled s2 @ handled,
                  rs_delivered := rs_delivered s2 @ delivered\<rparr>
      in if Meta_Is (Meta msg') (ExitSuccessFlag OR ExitErrorFlag)
         then (s3\<lparr>rs_result := (rs_result s3)\<lparr>jr_Code := code\<rparr>\<rparr>, LoopExit)
         else (s3, Looping))"

text \<open>
  \<^verbatim>\<open>Subscribe\<close> replays the backlog to the new subscriber.  A receive on a closed channel gives
  a nil message, whose \<^verbatim>\<open>Meta\<close> panics; the ticks run the hooks in goroutines of their own.
\<close>

definition job_Subscribe :: "nat \<Rightarrow> 'a run_state \<Rightarrow> 'a run_state" where
  "job_Subscribe listener s =
     s\<lparr>rs_delivered := rs_delivered s @ map (\<lambda>m. (listener, m)) (List (rs_backlog s)),
       rs_subscribers := rs_subscribers s @ [listener]\<rparr>"

fun run_step :: "'f job_env \<Rightarrow> 'a run_state \<Rightarrow> run_event \<Rightarrow> 'a run_state \<times> loop_status" where
  "run_step env s (SignalEv sig) =
     ((if je_signaler env then s\<lparr>rs_signalled := rs_signalled s @ [sig]\<rparr> else s), Looping)"
| "run_step env s TimeoutEv =
     ((if je_signaler env
       then s\<lparr>rs_signalled := rs_signalled s @ [SIGKILL],
              rs_result := (rs_result s)\<lparr>jr_State := Some StateTimeout\<rparr>\<rparr>
       else s), Looping)"
| "run_step env s (TickEv d) =
     (let (hooks, acts) = all_hooks (hook_Tick d) (rs_hooks s)
      in (s\<lparr>rs_hooks := hooks, rs_actions := rs_actions s @ acts\<rparr>, Looping))"
| "run_step env s (MessageEv now msg) = run_message env now msg s"
| "run_step env s ClosedEv = (s, LoopPanic)"
| "run_step env s (SubscribeEv l) = (job_Subscribe l s, Looping)"

fun run_loop :: "'f job_env \<Rightarrow> 'a run_state \<Rightarrow> run_event list \<Rightarrow> 'a run_state \<times> loop_status" where
  "run_loop env s [] = (s, Looping)"
| "run_loop env s (e # es) =
     (case run_step env s e of
        (s', Looping) \<Rightarrow> run_loop env s' es
      | (s', st) \<Rightarrow> (s', st))"

definition run_init :: "command \<Rightarrow> 'a runner_hook list \<Rightarrow> message buffer \<Rightarrow> nat list \<Rightarrow> 'a run_state" where
  "run_init cmd hooks backlog subs =
     \<lparr>rs_result = (NewJobResult cmd)\<lparr>jr_State := Some StateError\<rparr>, rs_last = None, rs_critical = [],
      rs_stdout = NewBuffer StandardStreamBufferSize, rs_stderr = NewBuffer StandardStreamBufferSize,
      rs_backlog = backlog, rs_subscribers = subs, rs_hooks = hooks, rs_actions = [],
      rs_signalled = [], rs_handled = [], rs_delivered = []\<rparr>"

definition Millisecond :: int where "Millisecond = 1000000"

text \<open>The deferred function of \<^verbatim>\<open>run\<close>: the times are set on every path.\<close>

definition run_times :: "int \<Rightarrow> int \<Rightarrow> job_result \<Rightarrow> job_result" where
  "run_times startTime endtime r =
     r\<lparr>jr_StartTime := goDiv startTime Millisecond, jr_Time := goDiv (endtime - startTime) Millisecond\<rparr>"

definition run_finish :: "'a run_state \<Rightarrow> loop_status \<Rightarrow> job_result" where
  "run_finish s st =
     (if st = LoopPanic
      then (rs_result s)\<lparr>jr_State := Some StateError,
             jr_Critical := ''PANIC(runtime error: invalid memory address or nil pointer dereference)''\<rparr>
      else
        (let r1 = (case rs_last s of
                     None \<Rightarrow> rs_result s
                   | Some result \<Rightarrow>
                       (rs_result s)\<lparr>jr_Level := Meta_Level (Meta result), jr_Data := Message result\<rparr>)
         in r1\<lparr>jr_Streams := [Buffer_String (rs_stdout s), Buffer_String (rs_stderr s)],
               jr_Critical := rs_critical s\<rparr>))"

text \<open>
  The whole of \<^verbatim>\<open>run\<close>: \<open>started\<close> is the error of the process's \<^verbatim>\<open>Run\<close>, if any.  \<^const>\<open>None\<close>
  while the events given have not ended the loop.  After the loop the channel is drained.
\<close>

definition job_run ::
  "'f job_env \<Rightarrow> 'a runner_hook list \<Rightarrow> message buffer \<Rightarrow> nat list \<Rightarrow> int \<Rightarrow> int \<Rightarrow>
     go_error option \<Rightarrow> run_event list \<Rightarrow> (job_result \<times> 'a run_state) option" where
  "job_run env hooks backlog subs startTime endtime started events =
     (let s0 = run_init (je_cmd env) hooks backlog subs
      in case started of
           Some err \<Rightarrow>
             (let code = (case err_Code err of Some c \<Rightarrow> c | None \<Rightarrow> 0)
              in Some (run_times startTime endtime
                   ((rs_result s0)\<lparr>jr_Code := code, jr_Data := err_Text err\<rparr>), s0))
         | None \<Rightarrow>
             (case run_loop env s0 events of
                (s, Looping) \<Rightarrow> None
              | (s, st) \<Rightarrow> Some (run_times startTime endtime (run_finish s st), s)))"

text \<open>\<^verbatim>\<open>timeout\<close>: after how long the timeout fires, if ever.\<close>

definition job_timeout :: "command \<Rightarrow> int option" where
  "job_timeout cmd = (if cmd_MaxTime cmd > 0 then Some (cmd_MaxTime cmd * Second) else None)"

section \<open>Restarts\<close>

text \<open>
  One iteration of the loop of \<^verbatim>\<open>start\<close>, after the run: its result, the protected flag and
  the time at that moment, and whether the job is unscheduled before the delay is over.
\<close>

record run_input =
  ri_result :: job_result
  ri_protected :: bool
  ri_now :: int
  ri_unscheduled :: bool

record 'a start_state =
  ss_runs :: int
  ss_backoff :: backoff
  ss_hooks :: "'a runner_hook list"
  ss_actions :: "'a list"
  ss_delays :: "int list"

definition start_restart :: "command \<Rightarrow> int \<Rightarrow> job_result \<Rightarrow> int \<times> int option" where
  "start_restart cmd runs result =
     (let failed = (jr_State result \<noteq> Some StateSuccess \<and> cmd_MaxRestart cmd > 0);
          runs' = (if failed then runs + 1 else runs);
          again = (if failed \<and> runs' < cmd_MaxRestart cmd then Some (1 * Second) else None)
      in (runs', if cmd_RecurringPeriod cmd > 0 then Some (cmd_RecurringPeriod cmd * Second) else again))"

definition start_iter ::
  "command \<Rightarrow> 'a start_state \<Rightarrow> run_input \<Rightarrow> 'a start_state \<times> job_result option" where
  "start_iter cmd s i =
     (let (hooks, acts) = all_hooks (hook_Exit (jr_State (ri_result i))) (ss_hooks s);
          s1 = s\<lparr>ss_hooks := hooks, ss_actions := ss_actions s @ acts\<rparr>
      in if ri_protected i
         then (let (delay, bo) = BackOff_Duration (ri_now i) (ri_now i) (ss_backoff s1)
               in (s1\<lparr>ss_backoff := bo, ss_delays := ss_delays s1 @ [delay]\<rparr>, None))
         else (case start_restart cmd (ss_runs s1) (ri_result i) of
                 (runs, None) \<Rightarrow> (s1\<lparr>ss_runs := runs\<rparr>, Some (ri_result i))
               | (runs, Some restartIn) \<Rightarrow>
                   if ri_unscheduled i then (s1\<lparr>ss_runs := runs\<rparr>, Some (ri_result i))
                   else (s1\<lparr>ss_runs := runs, ss_delays := ss_delays s1 @ [restartIn]\<rparr>, None)))"

text \<open>The result and the runs that were not needed; \<^const>\<open>None\<close> when the job is still going.\<close>

fun start_loop ::
  "command \<Rightarrow> 'a start_state \<Rightarrow> run_input list \<Rightarrow> 'a start_state \<times> (job_result \<times> run_input list) option" where
  "start_loop cmd s [] = (s, None)"
| "start_loop cmd s (i # is) =
     (case start_iter cmd s i of
        (s', Some result) \<Rightarrow> (s', Some (result, is))
      | (s', None) \<Rightarrow> start_loop cmd s' is)"

definition start_init :: "'a runner_hook list \<Rightarrow> 'a start_state" where
  "start_init hooks =
     \<lparr>ss_runs = 0, ss_backoff = jobBackOff, ss_hooks = hooks, ss_actions = [], ss_delays = []\<rparr>"

section \<open>Control\<close>

text \<open>
  The fields other goroutines use: the running flag, the buffered signal channel (closed
  when the job ends), the unschedule channel, the protected flag and the final result.
\<close>

record job_ctl =
  jc_running :: bool
  jc_signals :: "int list"
  jc_sig_closed :: bool
  jc_unscheduled :: bool
  jc_protected :: bool
  jc_result :: "job_result option"

definition newJob_ctl :: "command \<Rightarrow> job_ctl" where
  "newJob_ctl cmd =
     \<lparr>jc_running = False, jc_signals = [], jc_sig_closed = False, jc_unscheduled = False,
      jc_protected = Protected (cmd_Flags cmd), jc_result = None\<rparr>"

definition job_Unschedule :: "job_ctl \<Rightarrow> job_ctl" where
  "job_Unschedule c = c\<lparr>jc_unscheduled := True\<rparr>"

text \<open>The send of \<^verbatim>\<open>Signal\<close>, after the running flag was read: \<^const>\<open>None\<close> is a send on a closed channel.\<close>

definition signal_send :: "int \<Rightarrow> job_ctl \<Rightarrow> (go_error + job_ctl) option" where
  "signal_send sig c =
     (if jc_sig_closed c then None
      else if length (jc_signals c) < 5 then Some (Inr (c\<lparr>jc_signals := jc_signals c @ [sig]\<rparr>))
      else Some (Inl (Errorf ''job not receiving signals'')))"

definition job_Signal :: "int \<Rightarrow> job_ctl \<Rightarrow> (go_error + job_ctl) option" where
  "job_Signal sig c =
     (if \<not> jc_running c then Some (Inl (Errorf ''job is not running'')) else signal_send sig c)"

definition job_Terminate :: "int \<Rightarrow> job_ctl \<Rightarrow> job_ctl \<times> go_error option option" where
  "job_Terminate sig c =
     (let c1 = (job_Unschedule c)\<lparr>jc_protected := False\<rparr>
      in case job_Signal sig c1 of
           None \<Rightarrow> (c1, None)
         | Some (Inl err) \<Rightarrow> (c1, Some (Some err))
         | Some (Inr c2) \<Rightarrow> (c2, Some None))"

definition start_begin :: "job_ctl \<Rightarrow> job_ctl" where
  "start_begin c = c\<lparr>jc_running := True\<rparr>"

text \<open>The deferred function of \<^verbatim>\<open>start\<close>, up to the clean up: its first two steps, then the rest.\<close>

definition start_stop :: "job_ctl \<Rightarrow> job_ctl" where
  "start_stop c = c\<lparr>jc_running := False\<rparr>"

definition start_close :: "job_ctl \<Rightarrow> job_ctl" where
  "start_close c = job_Unschedule (c\<lparr>jc_sig_closed := True\<rparr>)"

definition start_end :: "handler list \<Rightarrow> command \<Rightarrow> job_result \<Rightarrow> job_ctl \<Rightarrow> job_ctl" where
  "start_end hs cmd result c =
     (start_close (start_stop c))\<lparr>jc_result := Some (fst (callback hs cmd result))\<rparr>"

text \<open>
  \<^verbatim>\<open>Wait\<close> blocks until there is a result.  \<^verbatim>\<open>WaitContext\<close> returns nil when the context ends first;
  \<open>pick\<close> is the choice of the \<^verbatim>\<open>select\<close> when both have happened.
\<close>

definition job_Wait :: "job_ctl \<Rightarrow> job_result option" where
  "job_Wait c = jc_result c"

definition job_WaitContext :: "bool \<Rightarrow> bool \<Rightarrow> job_ctl \<Rightarrow> job_result option option" where
  "job_WaitContext done pick c =
     (case (jc_result c, done) of
        (None, False) \<Rightarrow> None
      | (None, True) \<Rightarrow> Some None
      | (Some r, False) \<Rightarrow> Some (Some r)
      | (Some r, True) \<Rightarrow> Some (if pick then Some r else None))"

text \<open>\<^verbatim>\<open>RegisterPID\<close> of the job: \<open>g\<close> is what the manager's table answers.  It returns 0, not the pid.\<close>

definition job_RegisterPID ::
  "go_error + int \<Rightarrow> 'a runner_hook list \<Rightarrow> (go_error + int) \<times> 'a runner_hook list \<times> 'a list" where
  "job_RegisterPID g hooks =
     (case g of
        Inl err \<Rightarrow> (Inl err, hooks, [])
      | Inr pid \<Rightarrow> (case all_hooks (hook_PID pid) hooks of (hs, acts) \<Rightarrow> (Inr 0, hs, acts)))"

definition job_StartTime :: "int \<Rightarrow> int" where
  "job_StartTime startTime = goDiv startTime Millisecond"

section \<open>Lemmas on a run\<close>

definition exit_msg :: "message \<Rightarrow> bool" where
  "exit_msg msg \<longleftrightarrow> Meta_Is (Meta msg) (ExitSuccessFlag OR ExitErrorFlag)"

fun ends :: "run_event \<Rightarrow> bool" where
  "ends (MessageEv now msg) = exit_msg msg"
| "ends ClosedEv = True"
| "ends e = False"

fun messages :: "run_event list \<Rightarrow> message list" where
  "messages [] = []"
| "messages (MessageEv now msg # es) = msg # messages es"
| "messages (e # es) = messages es"

lemma messages_append [simp]: "messages (es @ fs) = messages es @ messages fs"
  by (induction es rule: messages.induct) simp_all

definition of_level :: "u16 \<Rightarrow> message list \<Rightarrow> message list" where
  "of_level l = filter (\<lambda>m. Meta_Level (Meta m) = l)"

definition result_messages :: "message list \<Rightarrow> message list" where
  "result_messages = filter (\<lambda>m. Meta_Level (Meta m) \<in> set ResultMessageLevels)"

lemma of_level_simps [simp]:
  "of_level l [] = []" "of_level l (m # ms) = (if Meta_Level (Meta m) = l then m # of_level l ms else of_level l ms)"
  "of_level l (ms @ ns) = of_level l ms @ of_level l ns"
  by (simp_all add: of_level_def)

lemma result_messages_simps [simp]:
  "result_messages [] = []"
  "result_messages (m # ms) =
     (if Meta_Level (Meta m) \<in> set ResultMessageLevels then m # result_messages ms else result_messages ms)"
  "result_messages (ms @ ns) = result_messages ms @ result_messages ns"
  by (simp_all add: result_messages_def)

lemma job_callback_exit:
  "Meta_Is (Meta (fst (job_callback env now subs msg))) (ExitSuccessFlag OR ExitErrorFlag) = exit_msg msg"
  by (auto simp: job_callback_def msgCallback_def exit_msg_def Is_Set Let_def
      StreamFlag_def ExitSuccessFlag_def ExitErrorFlag_def split: option.splits)

lemma exit_msg_Base [simp]: "exit_msg (msg\<lparr>Meta := Meta_Base (Meta msg)\<rparr>) = exit_msg msg"
  by (simp add: exit_msg_def)

lemma run_message_status: "snd (run_message env now msg s) = (if exit_msg msg then LoopExit else Looping)"
  using job_callback_exit [of env now _ "msg\<lparr>Meta := Meta_Base (Meta msg)\<rparr>"]
  by (simp add: run_message_def Let_def case_prod_unfold)

lemma run_step_status: "snd (run_step env s e) = (if ends e then (if e = ClosedEv then LoopPanic else LoopExit) else Looping)"
  by (cases e) (simp_all add: run_message_status case_prod_unfold Let_def)

definition run_fold :: "'f job_env \<Rightarrow> 'a run_state \<Rightarrow> run_event list \<Rightarrow> 'a run_state" where
  "run_fold env s es = fold (\<lambda>e s. fst (run_step env s e)) es s"

lemma run_loop_no_end: "\<forall>e \<in> set es. \<not> ends e \<Longrightarrow> run_loop env s es = (run_fold env s es, Looping)"
proof (induction es arbitrary: s)
  case (Cons e es)
  then have "snd (run_step env s e) = Looping" by (simp add: run_step_status)
  then show ?case using Cons by (cases "run_step env s e") (simp add: run_fold_def)
qed (simp add: run_fold_def)

lemma run_loop_end:
  assumes "\<forall>x \<in> set pre. \<not> ends x" "ends e"
  shows "run_loop env s (pre @ e # post) =
    (run_fold env s (pre @ [e]), if e = ClosedEv then LoopPanic else LoopExit)"
  using assms(1)
proof (induction pre arbitrary: s)
  case Nil
  have "snd (run_step env s e) = (if e = ClosedEv then LoopPanic else LoopExit)"
    using assms(2) by (simp add: run_step_status)
  then show ?case by (cases "run_step env s e") (auto simp: run_fold_def)
next
  case (Cons x pre)
  then have "snd (run_step env s x) = Looping" by (simp add: run_step_status)
  then show ?case using Cons by (cases "run_step env s x") (simp add: run_fold_def)
qed

lemmas run_step_unfold = run_message_def job_Subscribe_def Let_def case_prod_unfold

lemma run_step_stdout:
  "rs_stdout (fst (run_step env s e)) =
     fold Buffer_Append (map Message (of_level LevelStdout (messages [e]))) (rs_stdout s)"
  by (cases e) (auto simp: run_step_unfold Meta_Assert_iff ResultMessageLevels_def LevelStdout_def)

lemma run_step_stderr:
  "rs_stderr (fst (run_step env s e)) =
     fold Buffer_Append (map Message (of_level LevelStderr (messages [e]))) (rs_stderr s)"
  by (cases e) (auto simp: run_step_unfold Meta_Assert_iff ResultMessageLevels_def LevelStdout_def LevelStderr_def)

lemma run_step_critical:
  "rs_critical (fst (run_step env s e)) =
     last (rs_critical s # map Message (of_level LevelCritical (messages [e])))"
  by (cases e) (auto simp: run_step_unfold Meta_Assert_iff ResultMessageLevels_def LevelStdout_def
      LevelStderr_def LevelCritical_def)

lemma run_step_last:
  "rs_last (fst (run_step env s e)) = last (rs_last s # map Some (result_messages (messages [e])))"
  by (cases e) (auto simp: run_step_unfold Meta_Assert_iff)

lemma run_step_result:
  "rs_result (fst (run_step env s e)) =
     (rs_result s)\<lparr>
       jr_State := (if e = TimeoutEv \<and> je_signaler env then Some StateTimeout
         else if \<exists>m \<in> set (messages [e]). Meta_Is (Meta m) ExitSuccessFlag then Some StateSuccess
         else jr_State (rs_result s)),
       jr_Code := (if messages [e] \<noteq> [] \<and> exit_msg (hd (messages [e])) then Meta_Code (Meta (hd (messages [e])))
         else jr_Code (rs_result s))\<rparr>"
  by (cases e) (auto simp: run_step_unfold job_callback_exit)

lemma run_fold_snoc: "run_fold env s (es @ [e]) = fst (run_step env (run_fold env s es) e)"
  by (simp add: run_fold_def)

lemma run_fold_streams:
  "rs_stdout (run_fold env s es) =
     fold Buffer_Append (map Message (of_level LevelStdout (messages es))) (rs_stdout s)"
  "rs_stderr (run_fold env s es) =
     fold Buffer_Append (map Message (of_level LevelStderr (messages es))) (rs_stderr s)"
  by (induction es rule: rev_induct)
     (simp_all add: run_fold_snoc run_step_stdout run_step_stderr, simp_all add: run_fold_def)

lemma run_fold_last:
  "rs_last (run_fold env s es) = last (rs_last s # map Some (result_messages (messages es)))"
  by (induction es rule: rev_induct) (auto simp: run_fold_snoc run_step_last, simp_all add: run_fold_def)

lemma run_fold_critical:
  "rs_critical (run_fold env s es) = last (rs_critical s # map Message (of_level LevelCritical (messages es)))"
  by (induction es rule: rev_induct) (auto simp: run_fold_snoc run_step_critical, simp_all add: run_fold_def)

lemma stream_content: "List (fold Buffer_Append xs (NewBuffer StandardStreamBufferSize)) = lastn 100 xs"
  by (simp add: buf.run_content wf_NewBuffer StandardStreamBufferSize_def)

lemma run_fold_result:
  assumes "\<forall>e \<in> set es. \<not> ends e"
  shows "rs_result (run_fold env s es) =
    (rs_result s)\<lparr>jr_State := (if je_signaler env \<and> TimeoutEv \<in> set es then Some StateTimeout
      else jr_State (rs_result s))\<rparr>"
  using assms
proof (induction es rule: rev_induct)
  case (snoc e es)
  have "\<forall>m \<in> set (messages [e]). \<not> exit_msg m"
    using snoc.prems by (cases e) auto
  moreover from this have "\<forall>m \<in> set (messages [e]). \<not> Meta_Is (Meta m) ExitSuccessFlag"
    by (auto simp: exit_msg_def Meta_Is_iff bit_or_iff)
  ultimately show ?case
    using snoc by (auto simp: run_fold_snoc run_step_result)
qed (simp add: run_fold_def)

section \<open>Lemmas on restarts and control\<close>

definition failed :: "run_input \<Rightarrow> bool" where
  "failed i \<longleftrightarrow> jr_State (ri_result i) \<noteq> Some StateSuccess"

definition max_runs :: "command \<Rightarrow> nat" where
  "max_runs cmd = nat (max 1 (cmd_MaxRestart cmd))"

lemma start_iter_plain:
  assumes "cmd_RecurringPeriod cmd \<le> 0" "\<not> ri_protected i" "\<not> ri_unscheduled i"
    and "ss_runs s = int r" "r < max_runs cmd"
  shows "snd (start_iter cmd s i) =
      (if failed i \<and> Suc r < max_runs cmd then None else Some (ri_result i)) \<and>
    (failed i \<and> Suc r < max_runs cmd \<longrightarrow> ss_runs (fst (start_iter cmd s i)) = int (Suc r))"
  using assms
  by (auto simp: start_iter_def start_restart_def Let_def case_prod_unfold failed_def max_runs_def
      split: option.splits if_splits)

lemma start_loop_plain:
  assumes "cmd_RecurringPeriod cmd \<le> 0" "\<forall>i \<in> set is. \<not> ri_protected i \<and> \<not> ri_unscheduled i"
    and "ss_runs s = int r" "r < max_runs cmd"
    and "n = min (max_runs cmd - r) (Suc (length (takeWhile failed is)))" "n \<le> length is"
  shows "snd (start_loop cmd s is) = Some (ri_result (is ! (n - 1)), drop n is)"
  using assms(2-)
proof (induction "is" arbitrary: s r n)
  case Nil
  then show ?case by simp
next
  case (Cons i "is")
  obtain s' o' where it: "start_iter cmd s i = (s', o')" by fastforce
  note step = start_iter_plain [OF assms(1), of i s r]
  show ?case
  proof (cases "failed i \<and> Suc r < max_runs cmd")
    case True
    then have o': "o' = None" "ss_runs s' = int (Suc r)"
      using step Cons.prems it by auto
    have "snd (start_loop cmd s' is) = Some (ri_result (is ! (n - 1 - 1)), drop (n - 1) is)"
      using Cons.prems True o'(2) by (intro Cons.IH [where r = "Suc r"]) auto
    moreover have "n \<ge> 2" using Cons.prems True by auto
    ultimately show ?thesis
      by (cases n) (auto simp: it o'(1) nth_Cons')
  next
    case False
    then have "o' = Some (ri_result i)" using step Cons.prems it by auto
    moreover have "n = 1" using False Cons.prems by (auto simp: min_def)
    ultimately show ?thesis by (simp add: it)
  qed
qed

lemma start_loop_recurring:
  assumes "cmd_RecurringPeriod cmd > 0" "\<forall>i \<in> set is. \<not> ri_protected i"
  shows "ss_delays (fst (start_loop cmd s is)) = ss_delays s @
      replicate (length (takeWhile (\<lambda>i. \<not> ri_unscheduled i) is)) (cmd_RecurringPeriod cmd * Second) \<and>
    snd (start_loop cmd s is) =
      (case dropWhile (\<lambda>i. \<not> ri_unscheduled i) is of [] \<Rightarrow> None | i # rest \<Rightarrow> Some (ri_result i, rest))"
  using assms(2)
proof (induction "is" arbitrary: s)
  case (Cons i "is")
  have it: "ri_unscheduled i \<Longrightarrow> snd (start_iter cmd s i) = Some (ri_result i) \<and>
      ss_delays (fst (start_iter cmd s i)) = ss_delays s"
    "\<not> ri_unscheduled i \<Longrightarrow> snd (start_iter cmd s i) = None \<and>
      ss_delays (fst (start_iter cmd s i)) = ss_delays s @ [cmd_RecurringPeriod cmd * Second]"
    using assms(1) Cons.prems
    by (auto simp: start_iter_def start_restart_def Let_def case_prod_unfold)
  show ?case
    using it Cons.IH [of "fst (start_iter cmd s i)"] Cons.prems
    by (cases "start_iter cmd s i"; cases "ri_unscheduled i") auto
qed simp

lemma start_loop_protected:
  assumes "\<forall>i \<in> set is. ri_protected i" "wf_backoff (ss_backoff s)" "bo_Max (ss_backoff s) = M" "0 < M"
    and "\<forall>d \<in> set (ss_delays s). 0 \<le> d \<and> d \<le> M"
  shows "snd (start_loop cmd s is) = None \<and>
    length (ss_delays (fst (start_loop cmd s is))) = length (ss_delays s) + length is \<and>
    (\<forall>d \<in> set (ss_delays (fst (start_loop cmd s is))). 0 \<le> d \<and> d \<le> M)"
  using assms
proof (induction "is" arbitrary: s)
  case (Cons i "is")
  let ?t = "ri_now i"
  let ?b = "BackOff_Duration ?t ?t (ss_backoff s)"
  have once: "bo_Max (BackOff_once ?t (ss_backoff s)) = M"
    using Cons.prems by (auto simp: BackOff_once_def BackOff_defaults_def)
  let ?s = "fst (start_iter cmd s i)"
  have rng: "0 \<le> fst ?b \<and> fst ?b \<le> M"
    using BackOff_Duration_range [OF Cons.prems(2), of ?t ?t] once by simp
  have wf: "wf_backoff (snd ?b)"
    using wf_backoff_once [OF Cons.prems(2), of ?t] BackOff_Duration_range [OF Cons.prems(2), of ?t ?t]
    by (auto simp: wf_backoff_def BackOff_Duration_def Let_def)
  have mx: "bo_Max (snd ?b) = M" using once by (simp add: BackOff_Duration_keeps)
  have it: "start_iter cmd s i = (?s, None)" "ss_backoff ?s = snd ?b" "ss_delays ?s = ss_delays s @ [fst ?b]"
    using Cons.prems(1) by (simp_all add: start_iter_def Let_def case_prod_unfold)
  have "start_loop cmd s (i # is) = start_loop cmd ?s is" using it(1) by (cases "start_iter cmd s i") simp
  moreover have "snd (start_loop cmd ?s is) = None \<and>
      length (ss_delays (fst (start_loop cmd ?s is))) = length (ss_delays ?s) + length is \<and>
      (\<forall>d \<in> set (ss_delays (fst (start_loop cmd ?s is))). 0 \<le> d \<and> d \<le> M)"
  proof (rule Cons.IH)
    show "\<forall>d \<in> set (ss_delays ?s). 0 \<le> d \<and> d \<le> M"
      using Cons.prems(5) rng unfolding it(3) by simp
  qed (use Cons.prems wf mx it(2) in simp_all)
  ultimately show ?case by (simp add: it(3))
qed simp

text \<open>What can happen to a job's control state, the job's own \<^verbatim>\<open>start\<close> included.\<close>

inductive ctl_reachable :: "command \<Rightarrow> job_ctl \<Rightarrow> bool" for cmd where
  ctl_new: "ctl_reachable cmd (newJob_ctl cmd)"
| ctl_begin: "ctl_reachable cmd c \<Longrightarrow> \<not> jc_sig_closed c \<Longrightarrow> ctl_reachable cmd (start_begin c)"
| ctl_signal: "ctl_reachable cmd c \<Longrightarrow> job_Signal sig c = Some (Inr c') \<Longrightarrow> ctl_reachable cmd c'"
| ctl_receive: "ctl_reachable cmd c \<Longrightarrow> ctl_reachable cmd (c\<lparr>jc_signals := tl (jc_signals c)\<rparr>)"
| ctl_terminate: "ctl_reachable cmd c \<Longrightarrow> ctl_reachable cmd (fst (job_Terminate sig c))"
| ctl_unschedule: "ctl_reachable cmd c \<Longrightarrow> ctl_reachable cmd (job_Unschedule c)"
| ctl_end: "ctl_reachable cmd c \<Longrightarrow> jc_running c \<Longrightarrow> ctl_reachable cmd (start_end hs cmd result c)"

definition ctl_inv :: "job_ctl \<Rightarrow> bool" where
  "ctl_inv c \<longleftrightarrow> (jc_running c \<longrightarrow> \<not> jc_sig_closed c) \<and> length (jc_signals c) \<le> 5"

lemma ctl_inv_Signal: "ctl_inv c \<Longrightarrow> job_Signal sig c = Some (Inr c') \<Longrightarrow> ctl_inv c'"
  by (auto simp: ctl_inv_def job_Signal_def signal_send_def split: if_splits)

lemma ctl_inv_Terminate: "ctl_inv c \<Longrightarrow> ctl_inv (fst (job_Terminate sig c))"
  by (auto simp: ctl_inv_def job_Terminate_def job_Signal_def signal_send_def job_Unschedule_def Let_def
      split: option.splits sum.splits if_splits)

lemma ctl_reachable_inv: "ctl_reachable cmd c \<Longrightarrow> ctl_inv c"
proof (induction rule: ctl_reachable.induct)
  case ctl_signal
  then show ?case using ctl_inv_Signal by blast
next
  case ctl_terminate
  then show ?case by (simp add: ctl_inv_Terminate)
qed (auto simp: ctl_inv_def newJob_ctl_def start_begin_def job_Unschedule_def start_end_def
    start_close_def start_stop_def)

section \<open>Properties\<close>

text \<open>
  C1. The result of a run.  When the process ends with an exit message, after any sequence
  of messages, signals, ticks, subscriptions and possibly a timeout, the run returns and
  its result has the state that message calls for (success by its flag; a timeout if the
  timeout fired on a process that takes signals; an error otherwise), the code of that
  message, the last hundred messages of each standard stream, the last result message as
  data and the last critical message.  What arrives after the exit message is ignored.
\<close>

theorem job_run_correct:
  fixes hooks :: "'a runner_hook list"
  assumes "\<forall>e \<in> set pre. \<not> ends e" "exit_msg msg"
  shows "\<exists>r s. job_run env hooks backlog subs t0 t1 None (pre @ MessageEv now msg # post) = Some (r, s) \<and>
    jr_ID r = cmd_ID (je_cmd env) \<and>
    jr_State r = Some (if Meta_Is (Meta msg) ExitSuccessFlag then StateSuccess
      else if je_signaler env \<and> TimeoutEv \<in> set pre then StateTimeout else StateError) \<and>
    jr_Code r = Meta_Code (Meta msg) \<and>
    jr_Streams r =
      [concat (lastn 100 (map Message (of_level LevelStdout (messages pre @ [msg])))),
       concat (lastn 100 (map Message (of_level LevelStderr (messages pre @ [msg]))))] \<and>
    jr_Data r = last ([] # map Message (result_messages (messages pre @ [msg]))) \<and>
    jr_Critical r = last ([] # map Message (of_level LevelCritical (messages pre @ [msg])))"
proof -
  let ?init = "run_init (je_cmd env) hooks backlog subs"
  let ?e = "MessageEv now msg"
  let ?s = "run_fold env ?init (pre @ [?e])"
  have loop: "run_loop env ?init (pre @ ?e # post) = (?s, LoopExit)"
    using run_loop_end [OF assms(1), of ?e env ?init post] assms(2) by simp
  have msgs: "messages (pre @ [?e]) = messages pre @ [msg]" by simp
  have init: "rs_stdout ?init = NewBuffer StandardStreamBufferSize"
    "rs_stderr ?init = NewBuffer StandardStreamBufferSize"
    by (simp_all add: run_init_def)
  have out: "List (rs_stdout ?s) = lastn 100 (map Message (of_level LevelStdout (messages pre @ [msg])))"
    by (simp only: run_fold_streams msgs init stream_content)
  have err: "List (rs_stderr ?s) = lastn 100 (map Message (of_level LevelStderr (messages pre @ [msg])))"
    by (simp only: run_fold_streams msgs init stream_content)
  have crit: "rs_critical ?s = last ([] # map Message (of_level LevelCritical (messages pre @ [msg])))"
    unfolding run_fold_critical by (simp add: run_init_def)
  have lst: "rs_last ?s = last (None # map Some (result_messages (messages pre @ [msg])))"
    unfolding run_fold_last by (simp add: run_init_def)
  have res: "rs_result ?s = (NewJobResult (je_cmd env))\<lparr>
      jr_State := Some (if Meta_Is (Meta msg) ExitSuccessFlag then StateSuccess
        else if je_signaler env \<and> TimeoutEv \<in> set pre then StateTimeout else StateError),
      jr_Code := Meta_Code (Meta msg)\<rparr>"
    using run_fold_result [OF assms(1), of env ?init] assms(2)
    unfolding run_fold_snoc run_step_result by (simp add: run_init_def)
  have data: "jr_Data (run_finish ?s LoopExit) = last ([] # map Message (result_messages (messages pre @ [msg])))"
    using lst res
    by (cases "result_messages (messages pre @ [msg])" rule: rev_cases)
       (auto simp: run_finish_def Let_def NewJobResult_def split: option.splits)
  show ?thesis
    using loop out err crit res data
    by (auto simp: job_run_def run_times_def Let_def run_finish_def Buffer_String_def NewJobResult_def
        split: option.splits)
qed

theorem job_run_correct_witness:
  "\<exists>r s. job_run \<lparr>je_cmd = sampleJob ''1'' [], je_handlers = [], je_parseFloat = (\<lambda>x. Some (0::nat)),
        je_compile = (\<lambda>x. None), je_signaler = True\<rparr> ([] :: string runner_hook list)
      (NewBuffer 10) [] 0 0 None
      ([MessageEv 1 (newMessage (NewMeta LevelStdout []) ''hi''), TimeoutEv] @
        MessageEv 2 (newMessage (NewMetaWithCode 999 LevelStderr [ExitErrorFlag]) []) # []) = Some (r, s) \<and>
    jr_State r = Some StateTimeout \<and> jr_Code r = 999"
proof -
  let ?pre = "[MessageEv 1 (newMessage (NewMeta LevelStdout []) ''hi''), TimeoutEv]"
  let ?m = "newMessage (NewMetaWithCode 999 LevelStderr [ExitErrorFlag]) []"
  have pre: "\<forall>e \<in> set ?pre. \<not> ends e"
    by (simp add: exit_msg_def newMessage_def Is_NewMeta)
  have m: "exit_msg ?m"
    by (simp add: exit_msg_def newMessage_def Is_NewMetaWithCode ExitErrorFlag_def ExitSuccessFlag_def)
  have ns: "\<not> Meta_Is (Meta ?m) ExitSuccessFlag"
    by (simp add: newMessage_def Is_NewMetaWithCode ExitErrorFlag_def ExitSuccessFlag_def)
  have c: "Meta_Code (Meta ?m) = 999" by (simp add: newMessage_def)
  show ?thesis
    using job_run_correct [OF pre m, of "\<lparr>je_cmd = sampleJob ''1'' [], je_handlers = [],
        je_parseFloat = (\<lambda>x. Some (0::nat)), je_compile = (\<lambda>x. None), je_signaler = True\<rparr>"
        "[] :: string runner_hook list" "NewBuffer 10" "[]" 0 0 2 "[]"] ns c
    by auto
qed


definition sampleRun :: "job_state \<Rightarrow> bool \<Rightarrow> run_input" where
  "sampleRun st prot =
     \<lparr>ri_result = (NewJobResult (sampleJob ''1'' []))\<lparr>jr_State := Some st\<rparr>, ri_protected = prot,
      ri_now = 0, ri_unscheduled = False\<rparr>"


text \<open>
  C12. Jobs that are kept alive.  A protected job never ends, whatever its runs return, and
  each of its restarts is delayed by at most five minutes; a recurring job runs again after
  its period, successful or not, until it is unscheduled, and then ends with the result of
  the run after which it was.
\<close>

theorem kept_alive:
  "(list_all ri_protected is \<longrightarrow>
      snd (start_loop cmd (start_init hooks) is) = None \<and>
      length (ss_delays (fst (start_loop cmd (start_init hooks) is))) = length is \<and>
      list_all (\<lambda>d. 0 \<le> d \<and> d \<le> 300 * Second) (ss_delays (fst (start_loop cmd (start_init hooks) is)))) \<and>
   (list_all (\<lambda>i. \<not> ri_protected i) is \<and> cmd_RecurringPeriod cmd > 0 \<longrightarrow>
      ss_delays (fst (start_loop cmd (start_init hooks) is)) =
        replicate (length (takeWhile (\<lambda>i. \<not> ri_unscheduled i) is)) (cmd_RecurringPeriod cmd * Second) \<and>
      snd (start_loop cmd (start_init hooks) is) =
        (case dropWhile (\<lambda>i. \<not> ri_unscheduled i) is of [] \<Rightarrow> None | i # rest \<Rightarrow> Some (ri_result i, rest)))"
proof -
  have wf: "wf_backoff jobBackOff" by (simp add: wf_backoff_def jobBackOff_def Second_def)
  show ?thesis
    using start_loop_protected [of "is" "start_init hooks" "300 * Second" cmd] wf
      start_loop_recurring [of cmd "is" "start_init hooks"]
    by (auto simp: start_init_def list_all_iff jobBackOff_def)
qed

theorem kept_alive_witness:
  "snd (start_loop (sampleJob ''1'' []) (start_init ([] :: nat runner_hook list))
     [sampleRun StateSuccess True, sampleRun StateError True]) = None \<and>
   ss_delays (fst (start_loop ((sampleJob ''1'' [])\<lparr>cmd_RecurringPeriod := 10\<rparr>)
     (start_init ([] :: nat runner_hook list)) [sampleRun StateSuccess False])) = [10 * Second]"
  using kept_alive [of "[sampleRun StateSuccess True, sampleRun StateError True]" "sampleJob ''1'' []"
      "[] :: nat runner_hook list"]
    kept_alive [of "[sampleRun StateSuccess False]" "(sampleJob ''1'' [])\<lparr>cmd_RecurringPeriod := 10\<rparr>"
      "[] :: nat runner_hook list"]
  by (simp add: sampleRun_def)

text \<open>
  Signals.  In every state a job's control can reach, \<^verbatim>\<open>Signal\<close> run as one step does not
  panic, and never more than five signals wait; but the running flag and the channel are not
  read together: when the job ends between the two, the send is on a closed channel and panics.
\<close>

theorem signal_race:
  assumes "ctl_reachable cmd c"
  shows "job_Signal sig c \<noteq> None \<and> length (jc_signals c) \<le> 5 \<and>
    (jc_running c \<longrightarrow> signal_send sig (start_end hs cmd result c) = None)"
  using ctl_reachable_inv [OF assms]
  by (auto simp: ctl_inv_def job_Signal_def signal_send_def start_end_def start_close_def job_Unschedule_def)

theorem signal_race_witness:
  "ctl_reachable (sampleJob ''1'' []) (start_begin (newJob_ctl (sampleJob ''1'' []))) \<and>
   signal_send SIGTERM (start_end [] (sampleJob ''1'' []) (NewJobResult (sampleJob ''1'' []))
     (start_begin (newJob_ctl (sampleJob ''1'' [])))) = None"
proof -
  have r: "ctl_reachable (sampleJob ''1'' []) (start_begin (newJob_ctl (sampleJob ''1'' [])))"
    by (intro ctl_begin ctl_new) (simp add: newJob_ctl_def)
  from signal_race [OF r] r show ?thesis by (simp add: start_begin_def)
qed

end
