(* ===== verification/Pm_Manager.thy ===== *)
theory Pm_Manager
  imports Pm_Job Pm_Queue "HOL-Library.Multiset"
begin

text \<open>
  \<^verbatim>\<open>base/pm/pm.go\<close>: the process manager.  First its operations as functions on its state (the
  registered jobs, the queue, the table of process ids); then its goroutines, at the
  granularity of their locks and of the unbuffered job channel, as a step relation.
\<close>

section \<open>Operations\<close>

text \<open>A registered job: its command, its control state, and whether its process has a pid.\<close>

record mjob =
  mj_cmd :: command
  mj_ctl :: job_ctl
  mj_pider :: bool

record manager =
  m_jobs :: "string \<rightharpoonup> mjob"
  m_queue :: queue
  m_handlers :: "handler list"

definition newJob :: "command \<Rightarrow> mjob" where
  "newJob cmd = \<lparr>mj_cmd = cmd, mj_ctl = newJob_ctl cmd, mj_pider = False\<rparr>"

datatype run_error = UnknownCommandErr | DuplicateIDErr | PushErr go_error

text \<open>
  \<^verbatim>\<open>RunFactory\<close>; \<open>uuid\<close> is the fresh identifier it would draw.  On an error of the queue the job
  stays registered.  The last component is the job sent on the channel.
\<close>

definition RunFactory ::
  "string \<Rightarrow> manager \<Rightarrow> command \<Rightarrow> (run_error + command) \<times> manager \<times> command option" where
  "RunFactory uuid m cmd0 =
     (let cmd = (if length (cmd_ID cmd0) = 0 then cmd0\<lparr>cmd_ID := uuid\<rparr> else cmd0)
      in if m_jobs m (cmd_ID cmd) \<noteq> None then (Inl DuplicateIDErr, m, None)
         else
           (let m1 = m\<lparr>m_jobs := (m_jobs m)(cmd_ID cmd \<mapsto> newJob cmd)\<rparr>
            in case Queue_Push (m_queue m1) cmd of
                 Inl err \<Rightarrow> (Inl (PushErr err), m1, None)
               | Inr (q, sent) \<Rightarrow> (Inr cmd, m1\<lparr>m_queue := q\<rparr>, sent)))"

definition pm_Run ::
  "'r factories \<Rightarrow> string \<Rightarrow> manager \<Rightarrow> command \<Rightarrow> (run_error + command) \<times> manager \<times> command option" where
  "pm_Run factories uuid m cmd =
     (case GetProcessFactory factories cmd of
        None \<Rightarrow> (Inl UnknownCommandErr, m, None)
      | Some factory \<Rightarrow> RunFactory uuid m cmd)"

definition cleanUp :: "manager \<Rightarrow> command \<Rightarrow> manager \<times> command option" where
  "cleanUp m cmd =
     (let m1 = m\<lparr>m_jobs := (m_jobs m)(cmd_ID cmd := None)\<rparr>;
          (q, sent) = Queue_Notify (m_queue m1) cmd
      in (m1\<lparr>m_queue := q\<rparr>, sent))"

definition pm_Jobs :: "manager \<Rightarrow> string \<rightharpoonup> mjob" where
  "pm_Jobs m = m_jobs m"

definition JobOf :: "manager \<Rightarrow> string \<Rightarrow> mjob option" where
  "JobOf m i = m_jobs m i"

text \<open>A signal whose error is dropped, as \<^verbatim>\<open>Kill\<close> and \<^verbatim>\<open>Killall\<close> send it.\<close>

definition signal_job :: "int \<Rightarrow> mjob \<Rightarrow> mjob" where
  "signal_job sig j =
     (case job_Signal sig (mj_ctl j) of Some (Inr c) \<Rightarrow> j\<lparr>mj_ctl := c\<rparr> | _ \<Rightarrow> j)"

definition Kill :: "manager \<Rightarrow> string \<Rightarrow> go_error + manager" where
  "Kill m cmdID =
     (case m_jobs m cmdID of
        None \<Rightarrow> Inl (Errorf ''not found'')
      | Some v \<Rightarrow> Inr (m\<lparr>m_jobs := (m_jobs m)(cmdID \<mapsto> signal_job SIGTERM v)\<rparr>))"

definition Killall :: "manager \<Rightarrow> manager" where
  "Killall m =
     m\<lparr>m_jobs := (\<lambda>i. map_option (\<lambda>v. if jc_protected (mj_ctl v) then v else signal_job SIGTERM v) (m_jobs m i))\<rparr>"

fun matchID_loop :: "string \<Rightarrow> string list \<Rightarrow> bool" where
  "matchID_loop i [] = False"
| "matchID_loop i (m # ids) =
     (if hasSuffix m ''*''
      then (if hasPrefix i (trimRight m ''*'') then True else matchID_loop i ids)
      else if i = m then True else matchID_loop i ids)"

definition matchID :: "string \<Rightarrow> string list \<Rightarrow> bool" where
  "matchID i ids = (if length ids = 0 then True else matchID_loop i ids)"

text \<open>\<^verbatim>\<open>terminateAll\<close>: the new jobs table; the jobs it returns are those it terminates.\<close>

definition terminates :: "string list \<Rightarrow> mjob \<Rightarrow> bool" where
  "terminates except v \<longleftrightarrow> \<not> matchID (cmd_ID (mj_cmd v)) except \<and> mj_pider v"

definition terminateAll :: "int \<Rightarrow> string list \<Rightarrow> manager \<Rightarrow> manager" where
  "terminateAll sig except m =
     m\<lparr>m_jobs := (\<lambda>i. map_option (\<lambda>v. if terminates except v
                         then v\<lparr>mj_ctl := fst (job_Terminate sig (mj_ctl v))\<rparr> else v) (m_jobs m i))\<rparr>"

text \<open>\<^verbatim>\<open>Shutdown\<close>: between the two rounds jobs may end; \<open>settle\<close> is what that does to the manager.\<close>

definition Shutdown :: "(manager \<Rightarrow> manager) \<Rightarrow> string list \<Rightarrow> manager \<Rightarrow> manager" where
  "Shutdown settle except m = terminateAll SIGKILL except (settle (terminateAll SIGTERM except m))"

text \<open>The table of process ids: a registered pid, then the status the reaper hands over.\<close>

type_synonym pid_table = "int \<rightharpoonup> u32 option"

definition registerPID :: "go_error + int \<Rightarrow> pid_table \<Rightarrow> (go_error + int) \<times> pid_table" where
  "registerPID g pids = (case g of Inl err \<Rightarrow> (Inl err, pids) | Inr pid \<Rightarrow> (Inr pid, pids(pid \<mapsto> None)))"

text \<open>One \<^verbatim>\<open>Wait4\<close> of \<^verbatim>\<open>processWait\<close>: the status of a child nobody registered is dropped.\<close>

definition processWait :: "int \<Rightarrow> u32 \<Rightarrow> pid_table \<Rightarrow> pid_table" where
  "processWait pid status pids = (if pids pid \<noteq> None then pids(pid \<mapsto> Some status) else pids)"

text \<open>\<^verbatim>\<open>waitPID\<close>: \<^const>\<open>None\<close> while it blocks; the entry goes with the status.\<close>

definition waitPID :: "int \<Rightarrow> pid_table \<Rightarrow> (u32 \<times> pid_table) option" where
  "waitPID pid pids =
     (case pids pid of
        None \<Rightarrow> Some (0, pids)
      | Some None \<Rightarrow> None
      | Some (Some status) \<Rightarrow> Some (status, pids(pid := None)))"

text \<open>The results of \<^verbatim>\<open>System\<close> and \<^verbatim>\<open>Internal\<close>, from the result of the job they wait for.\<close>

definition state_text :: "job_state option \<Rightarrow> string" where
  "state_text st =
     (case st of
        None \<Rightarrow> [] | Some StateSuccess \<Rightarrow> ''SUCCESS'' | Some StateError \<Rightarrow> ''ERROR'' | Some StateTimeout \<Rightarrow> ''TIMEOUT''
      | Some StateKilled \<Rightarrow> ''KILLED'' | Some StateUnknownCmd \<Rightarrow> ''UNKNOWN_CMD'' | Some StateDuplicateID \<Rightarrow> ''DUPILICATE_ID'')"

definition job_error :: "job_result \<Rightarrow> go_error" where
  "job_error job =
     Error (jr_Code job) (''('' @ state_text (jr_State job) @ ''): ['' @ join '' '' (jr_Streams job) @ '']'')"

definition System_result :: "stream_hook \<Rightarrow> job_result \<Rightarrow> job_result \<times> go_error option" where
  "System_result output job =
     (if jr_State job \<noteq> Some StateSuccess then (job, Some (job_error job))
      else (job\<lparr>jr_Streams := (jr_Streams job)[0 := sh_Stdout output, 1 := sh_Stderr output]\<rparr>, None))"

definition Internal_result :: "(string \<Rightarrow> go_error + 'o) \<Rightarrow> job_result \<Rightarrow> go_error + 'o" where
  "Internal_result unmarshal job =
     (if jr_State job \<noteq> Some StateSuccess then Inl (job_error job)
      else if jr_Level job \<noteq> LevelResultJSON
      then Inl (Errorf (''invalid return format expecting json, got '' @ itoa (unat (jr_Level job))))
      else unmarshal (jr_Data job))"

section \<open>The goroutines\<close>

text \<open>
  A client in \<^verbatim>\<open>RunFactory\<close> holds \<^verbatim>\<open>jobsM\<close>; in \<^verbatim>\<open>Push\<close> it also holds the lock of the queue while it
  sends.  The clean-up of a finished job takes \<^verbatim>\<open>jobsM\<close> to delete the job, then the lock of
  the queue, which it holds while it sends the next job, and only then broadcasts.  The
  loop receives one job after each check that fewer than \<^verbatim>\<open>MaxJobs\<close> are registered.
\<close>

datatype client = CPush command | CSend command

datatype pm_loop = Checking | CondWait | Receiving

record pm_sys =
  sy_ids :: "string list"
  sy_queue :: queue
  sy_client :: "client option"
  sy_notifier :: "command option"
  sy_loop :: pm_loop
  sy_running :: "command list"
  sy_ending :: "command list"
  sy_notifying :: "command list"
  sy_broadcasts :: nat

definition pm_start :: pm_sys where
  "pm_start = \<lparr>sy_ids = [], sy_queue = Queue_Init, sy_client = None, sy_notifier = None, sy_loop = Checking,
     sy_running = [], sy_ending = [], sy_notifying = [], sy_broadcasts = 0\<rparr>"

definition queue_free :: "pm_sys \<Rightarrow> bool" where
  "queue_free s \<longleftrightarrow> (case sy_client s of Some (CSend _) \<Rightarrow> False | _ \<Rightarrow> True) \<and> sy_notifier s = None"

inductive pm_step :: "nat \<Rightarrow> pm_sys \<Rightarrow> pm_sys \<Rightarrow> bool" for MaxJobs where
  pm_register: "sy_client s = None \<Longrightarrow> cmd_ID j \<notin> set (sy_ids s) \<Longrightarrow>
    pm_step MaxJobs s (s\<lparr>sy_client := Some (CPush j), sy_ids := cmd_ID j # sy_ids s\<rparr>)"
| pm_push_wait: "sy_client s = Some (CPush j) \<Longrightarrow> queue_free s \<Longrightarrow> Queue_Push (sy_queue s) j = Inr (q, None) \<Longrightarrow>
    pm_step MaxJobs s (s\<lparr>sy_client := None, sy_queue := q\<rparr>)"
| pm_push_send: "sy_client s = Some (CPush j) \<Longrightarrow> queue_free s \<Longrightarrow> Queue_Push (sy_queue s) j = Inr (q, Some x) \<Longrightarrow>
    pm_step MaxJobs s (s\<lparr>sy_client := Some (CSend x), sy_queue := q\<rparr>)"
| pm_receive_client: "sy_loop s = Receiving \<Longrightarrow> sy_client s = Some (CSend x) \<Longrightarrow>
    pm_step MaxJobs s (s\<lparr>sy_loop := Checking, sy_client := None, sy_running := x # sy_running s\<rparr>)"
| pm_receive_notifier: "sy_loop s = Receiving \<Longrightarrow> sy_notifier s = Some x \<Longrightarrow>
    pm_step MaxJobs s (s\<lparr>sy_loop := Checking, sy_notifier := None, sy_running := x # sy_running s,
      sy_broadcasts := Suc (sy_broadcasts s)\<rparr>)"
| pm_check: "sy_loop s = Checking \<Longrightarrow>
    pm_step MaxJobs s (s\<lparr>sy_loop := (if length (sy_ids s) \<ge> MaxJobs then CondWait else Receiving)\<rparr>)"
| pm_finish: "j \<in> set (sy_running s) \<Longrightarrow>
    pm_step MaxJobs s (s\<lparr>sy_running := remove1 j (sy_running s), sy_ending := j # sy_ending s\<rparr>)"
| pm_delete: "j \<in> set (sy_ending s) \<Longrightarrow> sy_client s = None \<Longrightarrow>
    pm_step MaxJobs s (s\<lparr>sy_ending := remove1 j (sy_ending s), sy_ids := remove1 (cmd_ID j) (sy_ids s),
      sy_notifying := j # sy_notifying s\<rparr>)"
| pm_notify_none: "j \<in> set (sy_notifying s) \<Longrightarrow> queue_free s \<Longrightarrow> Queue_Notify (sy_queue s) j = (q, None) \<Longrightarrow>
    pm_step MaxJobs s (s\<lparr>sy_notifying := remove1 j (sy_notifying s), sy_queue := q,
      sy_broadcasts := Suc (sy_broadcasts s)\<rparr>)"
| pm_notify_send: "j \<in> set (sy_notifying s) \<Longrightarrow> queue_free s \<Longrightarrow> Queue_Notify (sy_queue s) j = (q, Some x) \<Longrightarrow>
    pm_step MaxJobs s (s\<lparr>sy_notifying := remove1 j (sy_notifying s), sy_queue := q, sy_notifier := Some x\<rparr>)"
| pm_broadcast: "0 < sy_broadcasts s \<Longrightarrow>
    pm_step MaxJobs s (s\<lparr>sy_broadcasts := sy_broadcasts s - 1,
      sy_loop := (if sy_loop s = CondWait then Checking else sy_loop s)\<rparr>)"

inductive pm_reachable :: "nat \<Rightarrow> pm_sys \<Rightarrow> bool" for MaxJobs where
  pm_init: "pm_reachable MaxJobs pm_start"
| pm_more: "pm_reachable MaxJobs s \<Longrightarrow> pm_step MaxJobs s t \<Longrightarrow> pm_reachable MaxJobs t"

section \<open>Counting the jobs\<close>

definition waitIDs :: "queue \<Rightarrow> string multiset" where
  "waitIDs q = (\<Sum>n \<in> dom (queues q). mset (map cmd_ID (tl (the (queues q n)))))"

definition client_job :: "client option \<Rightarrow> command list" where
  "client_job c = (case c of None \<Rightarrow> [] | Some (CPush j) \<Rightarrow> [j] | Some (CSend j) \<Rightarrow> [j])"

text \<open>The jobs that are under way: running, ended but not cleaned up, and on their way to the loop.\<close>

definition flying :: "pm_sys \<Rightarrow> command list" where
  "flying s = sy_running s @ sy_ending s @ client_job (sy_client s) @ opt_list (sy_notifier s)"

definition pm_inv :: "nat \<Rightarrow> pm_sys \<Rightarrow> bool" where
  "pm_inv MaxJobs s \<longleftrightarrow> wf_queue (sy_queue s) \<and> finite (dom (queues (sy_queue s))) \<and> distinct (sy_ids s) \<and>
     mset (sy_ids s) = mset (map cmd_ID (flying s)) + waitIDs (sy_queue s) \<and>
     length (sy_running s) + length (sy_ending s) \<le> MaxJobs \<and>
     (sy_loop s = Receiving \<longrightarrow> length (sy_running s) + length (sy_ending s) < MaxJobs)"

lemma waitIDs_on:
  assumes "finite A" "dom (queues q) \<subseteq> A"
  shows "waitIDs q = (\<Sum>n \<in> A. mset (map cmd_ID (tl (waiting q n))))"
  unfolding waitIDs_def using assms
  by (intro sum.mono_neutral_cong_left) (auto simp: waiting_def domIff split: option.splits)

lemma waitIDs_upd:
  assumes "finite (dom (queues q))"
  shows "waitIDs (q\<lparr>queues := (queues q)(n := v)\<rparr>) + mset (map cmd_ID (tl (waiting q n))) =
    waitIDs q + mset (map cmd_ID (tl (case v of None \<Rightarrow> [] | Some l \<Rightarrow> l)))"
proof -
  let ?q = "q\<lparr>queues := (queues q)(n := v)\<rparr>"
  let ?A = "insert n (dom (queues q))"
  let ?f = "\<lambda>q n. mset (map cmd_ID (tl (waiting q n)))"
  have "waitIDs ?q = (\<Sum>m \<in> ?A. ?f ?q m)" "waitIDs q = (\<Sum>m \<in> ?A. ?f q m)"
    using assms by (intro waitIDs_on; auto)+
  moreover have "(\<Sum>m \<in> ?A. ?f ?q m) = ?f ?q n + (\<Sum>m \<in> ?A - {n}. ?f ?q m)"
    "(\<Sum>m \<in> ?A. ?f q m) = ?f q n + (\<Sum>m \<in> ?A - {n}. ?f q m)"
    using assms by (intro sum.remove; simp)+
  moreover have "(\<Sum>m \<in> ?A - {n}. ?f ?q m) = (\<Sum>m \<in> ?A - {n}. ?f q m)"
    by (rule sum.cong) (auto simp: waiting_def)
  moreover have "?f ?q n = mset (map cmd_ID (tl (case v of None \<Rightarrow> [] | Some l \<Rightarrow> l)))"
    by (simp add: waiting_def)
  ultimately show ?thesis by (simp only: ac_simps)
qed

lemma Queue_Push_waitIDs:
  assumes "wf_queue q" "finite (dom (queues q))" "Queue_Push q j = Inr (q', sent)"
  shows "finite (dom (queues q'))" "sent = None \<or> sent = Some j"
    and "waitIDs q' = waitIDs q + (if sent = None then {#cmd_ID j#} else {#})"
proof -
  show "finite (dom (queues q'))" "sent = None \<or> sent = Some j"
    using assms by (auto simp: Queue_Push_def Let_def split: if_splits)
  show "waitIDs q' = waitIDs q + (if sent = None then {#cmd_ID j#} else {#})"
  proof (cases "cmd_Queue j = []")
    case True
    then show ?thesis using assms by (auto simp: Queue_Push_def split: if_splits)
  next
    case False
    let ?n = "cmd_Queue j"
    have q': "q' = q\<lparr>queues := (queues q)(?n \<mapsto> waiting q ?n @ [j])\<rparr>"
      "sent = (if waiting q ?n = [] then Some j else None)"
      using assms(3) False by (auto simp: Queue_Push_def Let_def waiting_def split: if_splits option.splits)
    show ?thesis
      using waitIDs_upd [OF assms(2), of ?n "Some (waiting q ?n @ [j])"]
      by (cases "waiting q ?n") (auto simp: q')
  qed
qed

lemma Queue_Notify_waitIDs:
  assumes "finite (dom (queues q))" "Queue_Notify q j = (q', sent)"
  shows "finite (dom (queues q'))" "waitIDs q = waitIDs q' + mset (map cmd_ID (opt_list sent))"
proof -
  let ?n = "cmd_Queue j"
  consider "q' = q" "sent = None" | l where "queues q ?n = Some l" "\<not> closed q" by
    (cases "queues q ?n") (use assms(2) in \<open>auto simp: Queue_Notify_def split: if_splits\<close>)
  then have "finite (dom (queues q')) \<and> waitIDs q = waitIDs q' + mset (map cmd_ID (opt_list sent))"
  proof cases
    case 1
    then show ?thesis using assms(1) by simp
  next
    case (2 l)
    then show ?thesis
      using assms waitIDs_upd [OF assms(1), of ?n "if tl l = [] then None else Some (tl l)"]
      by (cases "tl l") (auto simp: Queue_Notify_def waiting_def)
  qed
  then show "finite (dom (queues q'))" "waitIDs q = waitIDs q' + mset (map cmd_ID (opt_list sent))" by auto
qed

lemma mset_remove1_map: "j \<in> set xs \<Longrightarrow> image_mset f (mset xs) = add_mset (f j) (image_mset f (mset (remove1 j xs)))"
  by (metis image_mset_add_mset insert_DiffM mset_remove1 set_mset_mset)

lemma pm_inv_start: "pm_inv MaxJobs pm_start"
  by (simp add: pm_inv_def pm_start_def Queue_Init_def wf_queue_def waitIDs_def flying_def client_job_def)

lemma length_flying: "mset (sy_ids s) = mset (map cmd_ID (flying s)) + waitIDs (sy_queue s) \<Longrightarrow>
  length (sy_running s) + length (sy_ending s) \<le> length (sy_ids s)"
proof -
  assume "mset (sy_ids s) = mset (map cmd_ID (flying s)) + waitIDs (sy_queue s)"
  then have "mset (map cmd_ID (flying s)) \<subseteq># mset (sy_ids s)" by simp
  from size_mset_mono [OF this] show ?thesis by (simp add: flying_def)
qed

lemmas pm_inv_simps = pm_inv_def flying_def client_job_def

lemma pm_step_inv: "pm_step MaxJobs s t \<Longrightarrow> pm_inv MaxJobs s \<Longrightarrow> pm_inv MaxJobs t"
proof (induction rule: pm_step.induct)
  case (pm_register s j)
  then show ?case by (auto simp: pm_inv_simps)
next
  case (pm_push_wait s j q)
  have wf: "wf_queue (sy_queue s)" "finite (dom (queues (sy_queue s)))"
    using pm_push_wait.prems by (auto simp: pm_inv_def)
  show ?case
    using pm_push_wait Queue_Push_waitIDs [OF wf pm_push_wait(3)] wf_Queue_Push [OF wf(1) pm_push_wait(3)]
    by (simp add: pm_inv_simps)
next
  case (pm_push_send s j q x)
  have wf: "wf_queue (sy_queue s)" "finite (dom (queues (sy_queue s)))"
    using pm_push_send.prems by (auto simp: pm_inv_def)
  show ?case
    using pm_push_send Queue_Push_waitIDs [OF wf pm_push_send(3)] wf_Queue_Push [OF wf(1) pm_push_send(3)]
    by (simp add: pm_inv_simps)
next
  case (pm_receive_client s x)
  then show ?case by (auto simp: pm_inv_simps)
next
  case (pm_receive_notifier s x)
  then show ?case by (auto simp: pm_inv_simps)
next
  case (pm_check s)
  then show ?case using length_flying [of s] by (auto simp: pm_inv_simps)
next
  case (pm_finish j s)
  have "length (remove1 j (sy_running s)) + 1 = length (sy_running s)"
    using pm_finish(1) length_pos_if_in_set [OF pm_finish(1)] by (simp add: length_remove1)
  then show ?case
    using pm_finish mset_remove1_map [OF pm_finish(1), of cmd_ID] by (auto simp: pm_inv_simps)
next
  case (pm_delete j s)
  have "length (remove1 j (sy_ending s)) \<le> length (sy_ending s)" by (simp add: length_remove1)
  moreover have "mset (remove1 (cmd_ID j) (sy_ids s)) = mset (sy_ids s) - {#cmd_ID j#}" by simp
  ultimately show ?case
    using pm_delete mset_remove1_map [OF pm_delete(1), of cmd_ID]
    by (auto simp: pm_inv_simps)
next
  case (pm_notify_none j s q)
  have wf: "wf_queue (sy_queue s)" "finite (dom (queues (sy_queue s)))"
    using pm_notify_none.prems by (auto simp: pm_inv_def)
  show ?case
    using pm_notify_none Queue_Notify_waitIDs [OF wf(2) pm_notify_none(3)] wf_Queue_Notify [OF wf(1) pm_notify_none(3)]
    by (simp add: pm_inv_simps)
next
  case (pm_notify_send j s q x)
  have wf: "wf_queue (sy_queue s)" "finite (dom (queues (sy_queue s)))"
    using pm_notify_send.prems by (auto simp: pm_inv_def)
  show ?case
    using pm_notify_send Queue_Notify_waitIDs [OF wf(2) pm_notify_send(3)] wf_Queue_Notify [OF wf(1) pm_notify_send(3)]
    by (simp add: pm_inv_simps queue_free_def)
next
  case (pm_broadcast s)
  then show ?case by (auto simp: pm_inv_simps)
qed

lemma pm_reachable_inv: "pm_reachable MaxJobs s \<Longrightarrow> pm_inv MaxJobs s"
  by (induction rule: pm_reachable.induct) (auto intro: pm_inv_start pm_step_inv)

section \<open>The jammed manager\<close>

text \<open>
  A client that sends while the loop waits for its condition: it holds both locks, so no
  finished job can be cleaned up, and only a clean-up would wake the loop.
\<close>

definition jammed :: "command \<Rightarrow> pm_sys \<Rightarrow> bool" where
  "jammed x s \<longleftrightarrow> sy_loop s = CondWait \<and> sy_client s = Some (CSend x) \<and> sy_broadcasts s = 0 \<and>
     sy_notifying s = [] \<and> sy_notifier s = None"

inductive pm_steps :: "nat \<Rightarrow> pm_sys \<Rightarrow> pm_sys \<Rightarrow> bool" for MaxJobs where
  pm_refl: "pm_steps MaxJobs s s"
| pm_trans: "pm_steps MaxJobs s t \<Longrightarrow> pm_step MaxJobs t u \<Longrightarrow> pm_steps MaxJobs s u"

inductive_cases pm_stepE: "pm_step MaxJobs s t"

lemma in_set_remove1D: "y \<in> set (remove1 x xs) \<Longrightarrow> y \<in> set xs"
  by (rule subsetD [OF set_remove1_subset])

lemma distinct_submset: "mset xs \<subseteq># mset ys \<Longrightarrow> distinct ys \<Longrightarrow> distinct xs"
proof -
  assume sub: "mset xs \<subseteq># mset ys" and d: "distinct ys"
  obtain zs where "mset zs = mset ys - mset xs" using ex_mset by blast
  then have "mset ys = mset (xs @ zs)" using sub by simp
  then have "distinct (xs @ zs)" using d mset_eq_imp_distinct_iff by blast
  then show ?thesis by simp
qed

lemma jammed_step:
  "pm_step MaxJobs s t \<Longrightarrow> jammed x s \<Longrightarrow> jammed x t \<and> sy_ids t = sy_ids s \<and>
     set (sy_running t) \<subseteq> set (sy_running s)"
  by (induction rule: pm_step.induct) (auto simp: jammed_def dest: in_set_remove1D)

lemma jammed_steps:
  "pm_steps MaxJobs s t \<Longrightarrow> jammed x s \<Longrightarrow> jammed x t \<and> sy_ids t = sy_ids s \<and>
     set (sy_running t) \<subseteq> set (sy_running s)"
proof (induction rule: pm_steps.induct)
  case (pm_trans s t u)
  then have "jammed x t" by simp
  from jammed_step [OF pm_trans(2) this] pm_trans.IH [OF pm_trans.prems] show ?case by auto
qed simp

lemma pm_reachable_steps: "pm_steps MaxJobs s t \<Longrightarrow> pm_reachable MaxJobs s \<Longrightarrow> pm_reachable MaxJobs t"
  by (induction rule: pm_steps.induct) (auto intro: pm_more)

definition nth_job :: "nat \<Rightarrow> command" where
  "nth_job k = sampleJob (itoa k) []"

definition busy :: "nat \<Rightarrow> pm_loop \<Rightarrow> client option \<Rightarrow> pm_sys" where
  "busy k l c = \<lparr>sy_ids = map itoa (rev [0..<k + length (client_job c)]), sy_queue = Queue_Init, sy_client = c,
     sy_notifier = None, sy_loop = l, sy_running = map nth_job (rev [0..<k]), sy_ending = [], sy_notifying = [],
     sy_broadcasts = 0\<rparr>"

lemma busy_submit:
  assumes "pm_reachable M (busy k l None)"
  shows "pm_reachable M (busy k l (Some (CSend (nth_job k))))"
proof -
  have "itoa k \<notin> itoa ` {0..<k}" using itoa_inject by auto
  then have "pm_step M (busy k l None)
      ((busy k l None)\<lparr>sy_client := Some (CPush (nth_job k)), sy_ids := cmd_ID (nth_job k) # sy_ids (busy k l None)\<rparr>)"
    by (intro pm_register) (auto simp: busy_def nth_job_def client_job_def)
  moreover have "(busy k l None)\<lparr>sy_client := Some (CPush (nth_job k)), sy_ids := cmd_ID (nth_job k) # sy_ids (busy k l None)\<rparr> =
      busy k l (Some (CPush (nth_job k)))"
    by (simp add: busy_def nth_job_def client_job_def)
  ultimately have 1: "pm_reachable M (busy k l (Some (CPush (nth_job k))))"
    using pm_more [OF assms] by metis
  have "pm_step M (busy k l (Some (CPush (nth_job k))))
      ((busy k l (Some (CPush (nth_job k))))\<lparr>sy_client := Some (CSend (nth_job k)), sy_queue := Queue_Init\<rparr>)"
    by (rule pm_push_send [where j = "nth_job k"]) (simp_all add: busy_def queue_free_def Queue_Push_def Queue_Init_def nth_job_def)
  moreover have "(busy k l (Some (CPush (nth_job k))))\<lparr>sy_client := Some (CSend (nth_job k)), sy_queue := Queue_Init\<rparr> =
      busy k l (Some (CSend (nth_job k)))"
    by (simp add: busy_def client_job_def)
  ultimately show ?thesis using pm_more [OF 1] by metis
qed

lemma busy_check:
  "pm_reachable M (busy k Checking None) \<Longrightarrow>
   pm_reachable M (busy k (if M \<le> k then CondWait else Receiving) None)"
proof -
  assume r: "pm_reachable M (busy k Checking None)"
  have "pm_step M (busy k Checking None)
     ((busy k Checking None)\<lparr>sy_loop := (if length (sy_ids (busy k Checking None)) \<ge> M then CondWait else Receiving)\<rparr>)"
    by (rule pm_check) (simp add: busy_def)
  from pm_more [OF r this] show ?thesis by (simp add: busy_def client_job_def)
qed

lemma busy_reachable: "k \<le> M \<Longrightarrow> pm_reachable M (busy k Checking None)"
proof (induction k)
  case 0
  have "busy 0 Checking None = pm_start" by (simp add: busy_def pm_start_def client_job_def)
  then show ?case using pm_init by metis
next
  case (Suc k)
  then have "pm_reachable M (busy k Receiving None)" using busy_check [of M k] by simp
  from busy_submit [OF this] have 1: "pm_reachable M (busy k Receiving (Some (CSend (nth_job k))))" .
  have "pm_step M (busy k Receiving (Some (CSend (nth_job k))))
      ((busy k Receiving (Some (CSend (nth_job k))))\<lparr>sy_loop := Checking, sy_client := None,
        sy_running := nth_job k # sy_running (busy k Receiving (Some (CSend (nth_job k))))\<rparr>)"
    by (rule pm_receive_client) (simp_all add: busy_def)
  from pm_more [OF 1 this] show ?case by (simp add: busy_def client_job_def)
qed

lemma busy_jammed: "pm_reachable M (busy M CondWait (Some (CSend (nth_job M)))) \<and>
  jammed (nth_job M) (busy M CondWait (Some (CSend (nth_job M))))"
  using busy_submit [of M M CondWait] busy_check [of M M] busy_reachable [of M M]
  by (simp add: jammed_def busy_def)

section \<open>Properties\<close>

text \<open>
  C9. The limit on jobs.  However clients, the loop and the clean-ups of finished jobs
  interleave, never more than \<^verbatim>\<open>MaxJobs\<close> jobs have been started and not cleaned up, all of them
  are registered under their own id, and no two of them share one.
\<close>

theorem max_jobs_respected:
  assumes "pm_reachable MaxJobs s"
  shows "length (sy_running s) + length (sy_ending s) \<le> MaxJobs \<and>
    distinct (map cmd_ID (sy_running s @ sy_ending s)) \<and>
    cmd_ID ` set (sy_running s @ sy_ending s) \<subseteq> set (sy_ids s)"
proof -
  have inv: "distinct (sy_ids s)" "mset (sy_ids s) = mset (map cmd_ID (flying s)) + waitIDs (sy_queue s)"
    "length (sy_running s) + length (sy_ending s) \<le> MaxJobs"
    using pm_reachable_inv [OF assms] by (simp_all add: pm_inv_def)
  then have sub: "mset (map cmd_ID (sy_running s @ sy_ending s)) \<subseteq># mset (sy_ids s)"
    by (simp add: flying_def)
  then have "distinct (map cmd_ID (sy_running s @ sy_ending s))"
    using inv(1) by (rule distinct_submset)
  moreover have "set (map cmd_ID (sy_running s @ sy_ending s)) \<subseteq> set (sy_ids s)"
    using mset_subset_eqD [OF sub] by fastforce
  ultimately show ?thesis using inv(3) by (simp add: image_Un)
qed

theorem max_jobs_respected_witness:
  "pm_reachable 2 (busy 2 Checking None) \<and> length (sy_running (busy 2 Checking None)) = 2 \<and>
   distinct (map cmd_ID (sy_running (busy 2 Checking None)))"
  using busy_reachable [of 2 2] max_jobs_respected [of 2 "busy 2 Checking None"] by (simp add: busy_def)

text \<open>
  C10. The limit is fatal.  For every limit the manager reaches a state in which it runs that
  many jobs and a client asks for one more; from there on, whatever happens, the client
  never gets past its call, no finished job is ever removed, and no job is ever started
  again: the client holds the locks the clean-ups need while the loop waits for a clean-up.
\<close>

theorem max_jobs_deadlock:
  "\<exists>s x. pm_reachable MaxJobs s \<and> length (sy_running s) = MaxJobs \<and> sy_client s = Some (CSend x) \<and>
     (\<forall>t. pm_steps MaxJobs s t \<longrightarrow>
        sy_client t = Some (CSend x) \<and> sy_ids t = sy_ids s \<and> set (sy_running t) \<subseteq> set (sy_running s))"
proof (intro exI conjI)
  let ?s = "busy MaxJobs CondWait (Some (CSend (nth_job MaxJobs)))"
  show "pm_reachable MaxJobs ?s" using busy_jammed by simp
  show "length (sy_running ?s) = MaxJobs" "sy_client ?s = Some (CSend (nth_job MaxJobs))"
    by (simp_all add: busy_def)
  show "\<forall>t. pm_steps MaxJobs ?s t \<longrightarrow> sy_client t = Some (CSend (nth_job MaxJobs)) \<and> sy_ids t = sy_ids ?s \<and>
      set (sy_running t) \<subseteq> set (sy_running ?s)"
    using jammed_steps busy_jammed unfolding jammed_def by blast
qed

theorem max_jobs_deadlock_witness:
  "\<exists>s. pm_reachable 200 s \<and> length (sy_running s) = 200 \<and> (\<exists>x. sy_client s = Some (CSend x))"
  using max_jobs_deadlock [of 200] by blast

text \<open>
  Which jobs a shutdown ends.  With exceptions, a job is terminated exactly when its
  process has a pid and no exception names it, literally or as a prefix ending in a star;
  its restarts are cancelled too.  Without any exception it terminates nothing at all, since
  an empty list of patterns matches every id.
\<close>

theorem shutdown_selects:
  "(except \<noteq> [] \<longrightarrow> terminates except v =
      (mj_pider v \<and> \<not> (\<exists>m. m \<in> set except \<and> (if hasSuffix m ''*'' then hasPrefix (cmd_ID (mj_cmd v)) (trimRight m ''*'')
                                        else cmd_ID (mj_cmd v) = m)))) \<and>
   (m_jobs m i = Some v \<and> terminates except v \<longrightarrow>
      (\<exists>v'. m_jobs (terminateAll sig except m) i = Some v' \<and> jc_unscheduled (mj_ctl v') \<and> \<not> jc_protected (mj_ctl v'))) \<and>
   (m_jobs m i = Some v \<and> \<not> terminates except v \<longrightarrow> m_jobs (terminateAll sig except m) i = Some v) \<and>
   Shutdown settle [] m = settle m"
proof (intro conjI)
  have loop: "matchID_loop i ms = (\<exists>m. m \<in> set ms \<and> (if hasSuffix m ''*'' then hasPrefix i (trimRight m ''*'') else i = m))"
    for i ms by (induction ms) auto
  show "except \<noteq> [] \<longrightarrow> terminates except v =
      (mj_pider v \<and> \<not> (\<exists>m. m \<in> set except \<and> (if hasSuffix m ''*'' then hasPrefix (cmd_ID (mj_cmd v)) (trimRight m ''*'')
                                        else cmd_ID (mj_cmd v) = m)))"
    by (auto simp: terminates_def matchID_def loop)
  have t: "jc_unscheduled (fst (job_Terminate sig c)) \<and> \<not> jc_protected (fst (job_Terminate sig c))" for c
    by (auto simp: job_Terminate_def job_Signal_def signal_send_def job_Unschedule_def Let_def
        split: option.splits sum.splits if_splits)
  show "m_jobs m i = Some v \<and> terminates except v \<longrightarrow>
      (\<exists>v'. m_jobs (terminateAll sig except m) i = Some v' \<and> jc_unscheduled (mj_ctl v') \<and> \<not> jc_protected (mj_ctl v'))"
    using t by (auto simp: terminateAll_def)
  show "m_jobs m i = Some v \<and> \<not> terminates except v \<longrightarrow> m_jobs (terminateAll sig except m) i = Some v"
    by (simp add: terminateAll_def)
  have "terminateAll sig' [] m' = m'" for sig' m'
    by (simp add: terminateAll_def terminates_def matchID_def option.map_ident)
  then show "Shutdown settle [] m = settle m" by (simp add: Shutdown_def)
qed

theorem shutdown_selects_witness:
  "terminates [''redis'', ''core.*''] \<lparr>mj_cmd = sampleJob ''app'' [], mj_ctl = newJob_ctl (sampleJob ''app'' []), mj_pider = True\<rparr> \<and>
   \<not> terminates [''redis'', ''core.*''] \<lparr>mj_cmd = sampleJob ''core.1'' [], mj_ctl = newJob_ctl (sampleJob ''app'' []), mj_pider = True\<rparr>"
  using shutdown_selects [of "[''redis'', ''core.*'']"
      "\<lparr>mj_cmd = sampleJob ''app'' [], mj_ctl = newJob_ctl (sampleJob ''app'' []), mj_pider = True\<rparr>"]
    shutdown_selects [of "[''redis'', ''core.*'']"
      "\<lparr>mj_cmd = sampleJob ''core.1'' [], mj_ctl = newJob_ctl (sampleJob ''app'' []), mj_pider = True\<rparr>"]
  by (auto simp: hasSuffix_def trimRight_def)

text \<open>
  Exit statuses reach the job that waits for them.  Once the start of a process is
  registered, its wait blocks until it is reaped and then returns its status, whatever other
  processes start, die or are waited for in between; a pid that nobody registered is
  answered at once with status 0.
\<close>

theorem pid_status_delivered:
  assumes "list_all (\<lambda>(p, st). p \<noteq> pid) deaths"
  shows "waitPID pid (fold (\<lambda>(p, st). processWait p st) deaths (snd (registerPID (Inr pid) pids))) = None \<and>
    map_option fst (waitPID pid (processWait pid status
      (fold (\<lambda>(p, st). processWait p st) deaths (snd (registerPID (Inr pid) pids))))) = Some status \<and>
    (pids q = None \<longrightarrow> waitPID q pids = Some (0, pids))"
proof -
  have other: "fold (\<lambda>(p, st). processWait p st) ds t pid = t pid"
    if "list_all (\<lambda>(p, st). p \<noteq> pid) ds" for ds and t :: pid_table
    using that by (induction ds arbitrary: t) (auto simp: processWait_def)
  show ?thesis
    using other [OF assms] by (simp add: waitPID_def processWait_def registerPID_def)
qed

theorem pid_status_delivered_witness:
  "map_option fst (waitPID 7 (processWait 7 256
     (fold (\<lambda>(p, st). processWait p st) [(8, 0), (9, 1)] (snd (registerPID (Inr 7) Map.empty))))) = Some 256"
  using pid_status_delivered [of 7 "[(8, 0), (9, 1)]" Map.empty 256] by simp

end
