(* ===== verification/Settings_Condition.thy ===== *)
theory Settings_Condition
  imports Prelude
begin

text \<open>
  \<^verbatim>\<open>base/settings/condition.go\<close>: the condition language of startup services, with its
  parser as written (positions in the text, one token of look-ahead) and its evaluation.
  The parser's argument loop need not end, so it runs with fuel: \<^const>\<open>None\<close> is a parser that
  is still running.  A nil argument, which the parser can produce, is \<^const>\<open>None\<close> among the
  arguments; evaluating it panics, which is \<^const>\<open>None\<close> as well.
\<close>

section \<open>Expressions\<close>

datatype expression =
  BoolExp bool
| AndExp "expression option list"
| OrExp "expression option list"
| NotExp "expression option list"
| UserExp string

text \<open>The loops of the \<^verbatim>\<open>Examine\<close> methods, over the values of the arguments (\<^const>\<open>None\<close> for nil).\<close>

fun examine_and :: "bool option option list \<Rightarrow> bool option" where
  "examine_and [] = Some True"
| "examine_and (Some (Some True) # args) = examine_and args"
| "examine_and (Some (Some False) # args) = Some False"
| "examine_and (_ # args) = None"

fun examine_or :: "bool option option list \<Rightarrow> bool option" where
  "examine_or [] = Some False"
| "examine_or (Some (Some False) # args) = examine_or args"
| "examine_or (Some (Some True) # args) = Some True"
| "examine_or (_ # args) = None"

fun examine_not :: "bool option option list \<Rightarrow> bool option" where
  "examine_not [Some (Some b)] = Some (\<not> b)"
| "examine_not [Some None] = None"
| "examine_not [None] = None"
| "examine_not args = Some False"

primrec Examine :: "(string \<Rightarrow> bool) \<Rightarrow> expression \<Rightarrow> bool option" where
  "Examine inp (BoolExp b) = Some b"
| "Examine inp (AndExp args) = examine_and (map (map_option (Examine inp)) args)"
| "Examine inp (OrExp args) = examine_or (map (map_option (Examine inp)) args)"
| "Examine inp (NotExp args) = examine_not (map (map_option (Examine inp)) args)"
| "Examine inp (UserExp u) = Some (inp u)"

text \<open>The \<^verbatim>\<open>String\<close> methods; \<^verbatim>\<open>fmt.Sprint\<close> writes a nil argument as \<^verbatim>\<open><nil>\<close>.\<close>

definition string_op :: "string \<Rightarrow> string option list \<Rightarrow> string" where
  "string_op name args = name @ '' ('' @ join '', '' (map (case_option ''<nil>'' (\<lambda>s. s)) args) @ '')''"

primrec exp_String :: "expression \<Rightarrow> string" where
  "exp_String (BoolExp b) = (if b then ''true'' else ''false'')"
| "exp_String (AndExp args) = string_op ''AND'' (map (map_option exp_String) args)"
| "exp_String (OrExp args) = string_op ''OR'' (map (map_option exp_String) args)"
| "exp_String (NotExp args) = string_op ''NOT'' (map (map_option exp_String) args)"
| "exp_String (UserExp u) = u"

section \<open>The parser\<close>

text \<open>\<^verbatim>\<open>strings.IndexFunc\<close> with a test for a character that is no space.\<close>

definition nonSpace :: "string \<Rightarrow> nat option" where
  "nonSpace s = (if list_all (\<lambda>c. c = CHR '' '') s then None
                 else Some (length (takeWhile (\<lambda>c. c = CHR '' '') s)))"

definition forward :: "nat \<Rightarrow> string \<Rightarrow> nat" where
  "forward from s = (case nonSpace (drop from s) of None \<Rightarrow> from | Some pos \<Rightarrow> pos + from)"

definition wordChar :: "char \<Rightarrow> bool" where
  "wordChar c \<longleftrightarrow>
     (let n = of_char c :: nat
      in 48 \<le> n \<and> n \<le> 57 \<or> 65 \<le> n \<and> n \<le> 90 \<or> 97 \<le> n \<and> n \<le> 122 \<or> c = CHR ''_'' \<or> c = CHR ''-'')"

text \<open>The length of the match of the pattern \<^verbatim>\<open>word\<close> at the head of a text; 0 for no match.\<close>

definition wordLen :: "string \<Rightarrow> nat" where
  "wordLen s = length (takeWhile wordChar s)"

definition expressions :: "string \<Rightarrow> expression option list \<Rightarrow> expression" where
  "expressions token args =
     (if token = ''true'' then BoolExp True
      else if token = ''false'' then BoolExp False
      else if token = ''and'' then AndExp args
      else if token = ''or'' then OrExp args
      else if token = ''not'' then NotExp args
      else UserExp token)"

datatype parse_error = EOL | Expecting

text \<open>The value of \<^verbatim>\<open>getOne\<close>: the expression (or nil), the position, the error (or nil).\<close>

type_synonym parsed = "expression option \<times> nat \<times> parse_error option"

fun getOne :: "nat \<Rightarrow> nat \<Rightarrow> string \<Rightarrow> parsed option"
  and getArgs :: "nat \<Rightarrow> nat \<Rightarrow> string \<Rightarrow> expression option list \<Rightarrow>
        ((nat \<times> parse_error) + (expression option list \<times> nat)) option" where
  "getOne 0 at0 e = None"
| "getOne (Suc n) at0 e =
     (let at = forward at0 e;
          k = wordLen (drop at e)
      in if k = 0 then Some (None, at, None)
         else
           (let token = take k (drop at e);
                next = forward (at + k) e
            in case (if next + 1 < length e \<and> e ! next = CHR ''('' then getArgs n next e []
                     else Some (Inr ([], next))) of
                 None \<Rightarrow> None
               | Some (Inl (nx, err)) \<Rightarrow> Some (None, nx, Some err)
               | Some (Inr (args, nx)) \<Rightarrow>
                   Some (Some (expressions token args), nx, if nx \<ge> length e then Some EOL else None)))"
| "getArgs 0 next e args = None"
| "getArgs (Suc n) next e args =
     (case getOne n (next + 1) e of
        None \<Rightarrow> None
      | Some (sub, nx, Some err) \<Rightarrow> Some (Inl (nx, err))
      | Some (sub, nx, None) \<Rightarrow>
          (let nx' = (case nonSpace (drop nx e) of Some p \<Rightarrow> p + nx | None \<Rightarrow> nx - 1)
           in if e ! nx' = CHR '')'' then Some (Inr (args @ [sub], nx' + 1))
              else if e ! nx' \<noteq> CHR '','' then Some (Inl (nx', Expecting))
              else getArgs n nx' e (args @ [sub])))"

datatype condition_error = Garbage nat | SyntaxError nat

definition GetExpression :: "nat \<Rightarrow> string \<Rightarrow> (condition_error + expression) option" where
  "GetExpression fuel e =
     (if e = [] then Some (Inr (BoolExp True))
      else (case getOne fuel 0 e of
              None \<Rightarrow> None
            | Some (exp, l, err) \<Rightarrow>
                Some (case (err, exp) of
                        (Some EOL, Some x) \<Rightarrow> Inr x
                      | _ \<Rightarrow> if l \<noteq> length e then Inl (Garbage l) else Inl (SyntaxError l))))"

section \<open>Printing\<close>

text \<open>
  The text of an expression: an operator without arguments is its bare name, a nil
  argument is empty.
\<close>

definition show_op :: "string \<Rightarrow> string option list \<Rightarrow> string" where
  "show_op name args =
     (if args = [] then name
      else name @ ''('' @ join '', '' (map (case_option [] (\<lambda>s. s)) args) @ '')'')"

primrec show_exp :: "expression \<Rightarrow> string" where
  "show_exp (BoolExp b) = (if b then ''true'' else ''false'')"
| "show_exp (AndExp args) = show_op ''and'' (map (map_option show_exp) args)"
| "show_exp (OrExp args) = show_op ''or'' (map (map_option show_exp) args)"
| "show_exp (NotExp args) = show_op ''not'' (map (map_option show_exp) args)"
| "show_exp (UserExp u) = u"

definition show_arg :: "expression option \<Rightarrow> string" where
  "show_arg a = (case a of None \<Rightarrow> [] | Some e \<Rightarrow> show_exp e)"

definition wf_word :: "string \<Rightarrow> bool" where
  "wf_word u \<longleftrightarrow> u \<noteq> [] \<and> list_all wordChar u"

definition wf_user :: "string \<Rightarrow> bool" where
  "wf_user u \<longleftrightarrow> wf_word u \<and> u \<notin> {''true'', ''false'', ''and'', ''or'', ''not''}"

primrec wf_exp :: "expression \<Rightarrow> bool" where
  "wf_exp (BoolExp b) = True"
| "wf_exp (AndExp args) = list_all (pred_option wf_exp) args"
| "wf_exp (OrExp args) = list_all (pred_option wf_exp) args"
| "wf_exp (NotExp args) = list_all (pred_option wf_exp) args"
| "wf_exp (UserExp u) = wf_user u"

section \<open>Lemmas\<close>

lemma forward_spaces:
  "s \<noteq> [] \<Longrightarrow> hd s \<noteq> CHR '' '' \<Longrightarrow> forward (length p) (p @ replicate j (CHR '' '') @ s) = length p + j"
  by (cases s) (auto simp: forward_def nonSpace_def takeWhile_append list_all_iff)

lemma forward_here: "s = [] \<or> hd s \<noteq> CHR '' '' \<Longrightarrow> forward (length p) (p @ s) = length p"
  using forward_spaces [of s p 0] by (cases "s = []") (auto simp: forward_def nonSpace_def)

lemma wordChar_not_special [simp]:
  "\<not> wordChar (CHR '' '')" "\<not> wordChar (CHR ''('')" "\<not> wordChar (CHR '')'')" "\<not> wordChar (CHR '','')"
  by (simp_all add: wordChar_def)

lemma wordLen_word:
  "list_all wordChar u \<Longrightarrow> s = [] \<or> \<not> wordChar (hd s) \<Longrightarrow> wordLen (u @ s) = length u"
proof -
  assume u: "list_all wordChar u" and s: "s = [] \<or> \<not> wordChar (hd s)"
  have "takeWhile wordChar (u @ s) = u @ takeWhile wordChar s"
    using u by (simp add: takeWhile_append2 list_all_iff)
  moreover have "takeWhile wordChar s = []" using s by (cases s) auto
  ultimately show ?thesis by (simp add: wordLen_def)
qed

lemma nonSpace_here: "s \<noteq> [] \<Longrightarrow> hd s \<noteq> CHR '' '' \<Longrightarrow> nonSpace s = Some 0"
  by (cases s) (simp_all add: nonSpace_def)

text \<open>What follows an argument.\<close>

definition stops :: "string \<Rightarrow> bool" where
  "stops t \<longleftrightarrow> t \<noteq> [] \<and> (hd t = CHR '','' \<or> hd t = CHR '')'')"

lemma stopsD: "stops t \<Longrightarrow> t \<noteq> [] \<and> hd t \<noteq> CHR '' '' \<and> hd t \<noteq> CHR ''('' \<and> \<not> wordChar (hd t)"
  by (auto simp: stops_def)

lemma wf_word_hd: "wf_word u \<Longrightarrow> u \<noteq> [] \<and> wordChar (hd u) \<and> hd u \<noteq> CHR '' ''"
  by (cases u) (auto simp: wf_word_def)

lemma getOne_word:
  assumes u: "wf_word u" and t: "t = [] \<or> stops t" and n: "0 < n"
  shows "getOne n (length p) (p @ replicate j (CHR '' '') @ u @ t) =
    Some (Some (expressions u []), length p + j + length u, if t = [] then Some EOL else None)"
proof -
  let ?e = "p @ replicate j (CHR '' '') @ u @ t"
  let ?q = "p @ replicate j (CHR '' '')"
  have at: "forward (length p) ?e = length p + j"
    using forward_spaces [of "u @ t" p j] wf_word_hd [OF u] by simp
  have k: "wordLen (drop (length p + j) ?e) = length u"
    using u t wordLen_word [of u t] stopsD [of t] by (auto simp: wf_word_def)
  have nx: "forward (length p + j + length u) ?e = length p + j + length u"
    using forward_here [of t "?q @ u"] t stopsD [of t] by (auto simp: add.assoc)
  have notcall: "\<not> (length p + j + length u + 1 < length ?e \<and> ?e ! (length p + j + length u) = CHR ''('')"
    using t stopsD [of t] by (cases t) (auto simp: nth_append)
  have "take (length u) (drop (length p + j) ?e) = u" by simp
  with at k nx notcall show ?thesis
    using n wf_word_hd [OF u] by (cases n) (auto simp: Let_def)
qed

lemma getOne_call:
  assumes u: "wf_word u" and t: "t = [] \<or> stops t"
    and args: "getArgs n (length (p @ replicate j (CHR '' '') @ u)) (p @ replicate j (CHR '' '') @ u @ ''('' @ b @ t) [] =
      Some (Inr (as, length p + j + length u + 1 + length b))" and b: "b \<noteq> []"
  shows "getOne (Suc n) (length p) (p @ replicate j (CHR '' '') @ u @ ''('' @ b @ t) =
    Some (Some (expressions u as), length p + j + length u + 1 + length b, if t = [] then Some EOL else None)"
proof -
  let ?e = "p @ replicate j (CHR '' '') @ u @ ''('' @ b @ t"
  let ?q = "p @ replicate j (CHR '' '')"
  have at: "forward (length p) ?e = length p + j"
    using forward_spaces [of "u @ ''('' @ b @ t" p j] wf_word_hd [OF u] by simp
  have k: "wordLen (drop (length p + j) ?e) = length u"
    using u wordLen_word [of u "''('' @ b @ t"] by (auto simp: wf_word_def)
  have nx: "forward (length p + j + length u) ?e = length p + j + length u"
    using forward_here [of "''('' @ b @ t" "?q @ u"] by (simp add: add.assoc)
  have call: "length p + j + length u + 1 < length ?e \<and> ?e ! (length p + j + length u) = CHR ''(''"
    using b by (cases b) (auto simp: nth_append)
  have "take (length u) (drop (length p + j) ?e) = u" by simp
  moreover have "getArgs n (length p + j + length u) ?e [] = Some (Inr (as, length p + j + length u + 1 + length b))"
    using args by (simp add: add.assoc)
  ultimately show ?thesis
    using at k nx call t wf_word_hd [OF u] by (auto simp: Let_def stops_def)
qed

text \<open>The fuel an expression needs, its arguments included.\<close>

primrec need :: "expression \<Rightarrow> nat" where
  "need (BoolExp b) = 1"
| "need (AndExp args) = 1 + sum_list (map (\<lambda>a. 1 + case_option 1 id a) (map (map_option need) args))"
| "need (OrExp args) = 1 + sum_list (map (\<lambda>a. 1 + case_option 1 id a) (map (map_option need) args))"
| "need (NotExp args) = 1 + sum_list (map (\<lambda>a. 1 + case_option 1 id a) (map (map_option need) args))"
| "need (UserExp u) = 1"

definition need_arg :: "expression option \<Rightarrow> nat" where
  "need_arg a = case_option 1 need a"

definition parses :: "expression \<Rightarrow> bool" where
  "parses e \<longleftrightarrow> (\<forall>n p j t. need e \<le> n \<longrightarrow> t = [] \<or> stops t \<longrightarrow>
     getOne n (length p) (p @ replicate j (CHR '' '') @ show_exp e @ t) =
       Some (Some e, length p + j + length (show_exp e), if t = [] then Some EOL else None))"

lemma parsesD:
  "parses e \<Longrightarrow> need e \<le> n \<Longrightarrow> t = [] \<or> stops t \<Longrightarrow>
   getOne n (length p) (p @ replicate j (CHR '' '') @ show_exp e @ t) =
     Some (Some e, length p + j + length (show_exp e), if t = [] then Some EOL else None)"
  unfolding parses_def by blast

lemma getOne_arg:
  assumes "\<forall>e. a = Some e \<longrightarrow> parses e" "need_arg a \<le> n" "stops t"
  shows "getOne n (length p) (p @ replicate j (CHR '' '') @ show_arg a @ t) =
    Some (a, length p + j + length (show_arg a), None)"
proof (cases a)
  case None
  have "forward (length p) (p @ replicate j (CHR '' '') @ t) = length p + j"
    using assms(3) by (intro forward_spaces) (auto simp: stops_def)
  moreover have "wordLen (drop (length p + j) (p @ replicate j (CHR '' '') @ t)) = 0"
    using wordLen_word [of "[]" t] stopsD [OF assms(3)] by simp
  moreover obtain m where "n = Suc m" using assms(2) None by (cases n) (auto simp: need_arg_def)
  ultimately show ?thesis using None by (simp add: show_arg_def Let_def)
next
  case (Some e)
  then have "parses e" "need e \<le> n" using assms(1,2) by (auto simp: need_arg_def)
  then show ?thesis
    using Some assms(3) stopsD [OF assms(3)] unfolding parses_def show_arg_def by auto
qed

lemma getArgs_show:
  assumes "args \<noteq> []" "\<forall>a \<in> set args. \<forall>e. a = Some e \<longrightarrow> parses e"
    and "sum_list (map (\<lambda>a. 1 + need_arg a) args) \<le> n"
  shows "getArgs n (length p) (p @ c # replicate j (CHR '' '') @ join '', '' (map show_arg args) @ '')'' @ t) acc =
    Some (Inr (acc @ args, length p + 1 + j + length (join '', '' (map show_arg args)) + 1))"
  using assms
proof (induction args arbitrary: n p c j acc)
  case (Cons a args)
  obtain m where n: "n = Suc m" "need_arg a \<le> m" "sum_list (map (\<lambda>a. 1 + need_arg a) args) \<le> m"
    using Cons.prems(3) by (cases n) auto
  show ?case
  proof (cases "args = []")
    case True
    let ?e = "(p @ [c]) @ replicate j (CHR '' '') @ show_arg a @ ('')'' @ t)"
    have "getOne m (length (p @ [c])) ?e = Some (a, length (p @ [c]) + j + length (show_arg a), None)"
      using Cons.prems(2) n(2) by (intro getOne_arg) (auto simp: stops_def)
    moreover have "drop (length (p @ [c]) + j + length (show_arg a)) ?e = '')'' @ t" by simp
    moreover have "?e ! (length (p @ [c]) + j + length (show_arg a)) = CHR '')''" by (simp add: nth_append)
    ultimately show ?thesis
      using True by (simp add: n(1) nonSpace_here Let_def)
  next
    case False
    let ?r = "join '', '' (map show_arg args) @ '')'' @ t"
    let ?e = "(p @ [c]) @ replicate j (CHR '' '') @ show_arg a @ ('', '' @ ?r)"
    let ?q = "p @ c # replicate j (CHR '' '') @ show_arg a"
    have one: "getOne m (length (p @ [c])) ?e = Some (a, length (p @ [c]) + j + length (show_arg a), None)"
      using Cons.prems(2) n(2) by (intro getOne_arg) (auto simp: stops_def)
    have "drop (length (p @ [c]) + j + length (show_arg a)) ?e = '', '' @ ?r" by simp
    moreover have "?e ! (length (p @ [c]) + j + length (show_arg a)) = CHR '',''" by (simp add: nth_append)
    ultimately have "getArgs n (length p) ?e acc = getArgs m (length ?q) ?e (acc @ [a])"
      using one by (simp add: n(1) nonSpace_here Let_def add.assoc)
    also have "\<dots> = Some (Inr ((acc @ [a]) @ args, length ?q + 1 + 1 + length (join '', '' (map show_arg args)) + 1))"
      using Cons.IH [OF False, of m ?q "CHR '',''" 1 "acc @ [a]"] Cons.prems(2) n(3) by simp
    finally show ?thesis
      using False by (simp add: join_Cons)
  qed
qed simp

lemma show_op_args:
  "show_op name (map (map_option show_exp) args) =
     (if args = [] then name else name @ ''('' @ join '', '' (map show_arg args) @ '')'')"
proof -
  have "map (case_option [] (\<lambda>s. s)) (map (map_option show_exp) args) = map show_arg args"
    by (auto simp: show_arg_def split: option.split)
  then show ?thesis unfolding show_op_def by (simp only: map_is_Nil_conv)
qed

lemma need_args:
  "sum_list (map (\<lambda>a. 1 + case_option 1 id a) (map (map_option need) args)) =
     sum_list (map (\<lambda>a. 1 + need_arg a) args)"
proof -
  have "map (\<lambda>a. 1 + case_option 1 id a) (map (map_option need) args) = map (\<lambda>a. 1 + need_arg a) args"
    by (auto simp: need_arg_def split: option.split)
  then show ?thesis by (rule arg_cong)
qed

lemma parses_op:
  assumes "wf_word name" "\<forall>a \<in> set args. \<forall>x. a = Some x \<longrightarrow> parses x"
    and "show_exp e = show_op name (map (map_option show_exp) args)"
    and "need e = 1 + sum_list (map (\<lambda>a. 1 + case_option 1 id a) (map (map_option need) args))"
    and "expressions name args = e"
  shows "parses e"
  unfolding parses_def
proof (intro allI impI)
  fix n p j and t :: string
  assume n: "need e \<le> n" and t: "t = [] \<or> stops t"
  then obtain m where m: "n = Suc m" "sum_list (map (\<lambda>a. 1 + need_arg a) args) \<le> m"
    unfolding assms(4) need_args by (cases n) auto
  let ?b = "join '', '' (map show_arg args) @ '')''"
  show "getOne n (length p) (p @ replicate j (CHR '' '') @ show_exp e @ t) =
      Some (Some e, length p + j + length (show_exp e), if t = [] then Some EOL else None)"
  proof (cases "args = []")
    case True
    then show ?thesis
      using getOne_word [OF assms(1) t, of n p j] m(1) assms(3,5) by (simp add: show_op_def)
  next
    case False
    have "getArgs m (length (p @ replicate j (CHR '' '') @ name))
        (p @ replicate j (CHR '' '') @ name @ ''('' @ ?b @ t) [] =
      Some (Inr (args, length p + j + length name + 1 + length ?b))"
      using getArgs_show [OF False assms(2) m(2), of "p @ replicate j (CHR '' '') @ name" "CHR ''(''" 0 t "[]"]
      by (simp add: add.assoc)
    from getOne_call [OF assms(1) t this] show ?thesis
      using False assms(3,5) by (simp add: m(1) show_op_args add.assoc)
  qed
qed

lemma wf_words: "wf_word ''true''" "wf_word ''false''" "wf_word ''and''" "wf_word ''or''" "wf_word ''not''"
  by (simp_all add: wf_word_def wordChar_def)

lemma parses_wf: "wf_exp e \<Longrightarrow> parses e"
proof (induction e)
  case (BoolExp b)
  show ?case
    unfolding parses_def using wf_words(1,2) getOne_word by (auto simp: expressions_def)
next
  case (UserExp u)
  then show ?case
    unfolding parses_def using getOne_word [of u] by (auto simp: wf_user_def expressions_def)
next
  case (AndExp args)
  then show ?case
    using wf_words by (intro parses_op [of "''and''" args]) (auto simp: expressions_def list_all_iff pred_option_def)
next
  case (OrExp args)
  then show ?case
    using wf_words by (intro parses_op [of "''or''" args]) (auto simp: expressions_def list_all_iff pred_option_def)
next
  case (NotExp args)
  then show ?case
    using wf_words by (intro parses_op [of "''not''" args]) (auto simp: expressions_def list_all_iff pred_option_def)
qed

lemma need_op_le:
  assumes "\<And>a x. a \<in> set args \<Longrightarrow> a = Some x \<Longrightarrow> need x \<le> 2 * length (show_exp x) + 1" "0 < length name"
  shows "1 + sum_list (map (\<lambda>a. 1 + case_option 1 id a) (map (map_option need) args)) \<le>
    2 * length (show_op name (map (map_option show_exp) args)) + 1"
proof -
  have "need_arg a \<le> 2 * length (show_arg a) + 1" if "a \<in> set args" for a
    using assms(1) that by (cases a) (auto simp: need_arg_def show_arg_def)
  then have "sum_list (map (\<lambda>a. 1 + need_arg a) args) \<le> 2 * length (join '', '' (map show_arg args)) + 2"
  proof (induction args)
    case (Cons a args)
    have "1 + need_arg a \<le> 2 * length (show_arg a) + 2" using Cons.prems [of a] by simp
    moreover have "sum_list (map (\<lambda>a. 1 + need_arg a) args) \<le> 2 * length (join '', '' (map show_arg args)) + 2"
      using Cons by simp
    ultimately show ?case by (cases "args = []") (simp_all add: join_Cons)
  qed simp
  then show ?thesis using assms(2) unfolding need_args by (auto simp: show_op_args)
qed

lemma need_le: "wf_exp e \<Longrightarrow> need e \<le> 2 * length (show_exp e) + 1"
proof (induction e)
  case (AndExp args)
  then show ?case
    unfolding need.simps show_exp.simps by (intro need_op_le) (auto simp: list_all_iff pred_option_def)
next
  case (OrExp args)
  then show ?case
    unfolding need.simps show_exp.simps by (intro need_op_le) (auto simp: list_all_iff pred_option_def)
next
  case (NotExp args)
  then show ?case
    unfolding need.simps show_exp.simps by (intro need_op_le) (auto simp: list_all_iff pred_option_def)
qed simp_all

lemma show_exp_nonempty: "wf_exp e \<Longrightarrow> show_exp e \<noteq> []"
  by (cases e) (auto simp: show_op_def wf_user_def wf_word_def)

text \<open>The meaning of an expression without nil arguments.\<close>

primrec no_nil :: "expression \<Rightarrow> bool" where
  "no_nil (BoolExp b) = True"
| "no_nil (AndExp args) = list_all (\<lambda>a. case a of None \<Rightarrow> False | Some b \<Rightarrow> b) (map (map_option no_nil) args)"
| "no_nil (OrExp args) = list_all (\<lambda>a. case a of None \<Rightarrow> False | Some b \<Rightarrow> b) (map (map_option no_nil) args)"
| "no_nil (NotExp args) = list_all (\<lambda>a. case a of None \<Rightarrow> False | Some b \<Rightarrow> b) (map (map_option no_nil) args)"
| "no_nil (UserExp u) = True"

primrec holds :: "(string \<Rightarrow> bool) \<Rightarrow> expression \<Rightarrow> bool" where
  "holds inp (BoolExp b) = b"
| "holds inp (AndExp args) = list_all (\<lambda>b. b = Some True) (map (map_option (holds inp)) args)"
| "holds inp (OrExp args) = list_ex (\<lambda>b. b = Some True) (map (map_option (holds inp)) args)"
| "holds inp (NotExp args) = (map (map_option (holds inp)) args = [Some False])"
| "holds inp (UserExp u) = inp u"

lemma examine_and_eq: "examine_and (map (Some \<circ> Some) bs) = Some (list_all id bs)"
proof (induction bs)
  case (Cons b bs)
  then show ?case by (cases b) simp_all
qed simp

lemma examine_or_eq: "examine_or (map (Some \<circ> Some) bs) = Some (list_ex id bs)"
proof (induction bs)
  case (Cons b bs)
  then show ?case by (cases b) simp_all
qed simp

lemma examine_not_eq: "examine_not (map (Some \<circ> Some) bs) = Some (bs = [False])"
proof (cases bs)
  case (Cons b cs)
  then show ?thesis by (cases cs; cases b) simp_all
qed simp

lemma examine_args:
  assumes "list_all (\<lambda>a. case a of None \<Rightarrow> False | Some b \<Rightarrow> b) (map (map_option no_nil) args)"
    and "\<And>a x. a \<in> set args \<Longrightarrow> a = Some x \<Longrightarrow> no_nil x \<Longrightarrow> Examine inp x = Some (holds inp x)"
  shows "\<exists>bs. map (map_option (Examine inp)) args = map (Some \<circ> Some) bs \<and>
    map (map_option (holds inp)) args = map Some bs"
  using assms
proof (induction args)
  case (Cons a args)
  then obtain x where x: "a = Some x" "no_nil x" by (cases a) auto
  obtain bs where "map (map_option (Examine inp)) args = map (Some \<circ> Some) bs"
    "map (map_option (holds inp)) args = map Some bs"
    using Cons by auto
  then show ?case
    using x Cons.prems(2) [of a x] by (intro exI [of _ "holds inp x # bs"]) simp
qed simp

lemma Examine_holds: "no_nil e \<Longrightarrow> Examine inp e = Some (holds inp e)"
proof (induction e)
  case (AndExp args)
  then obtain bs where "map (map_option (Examine inp)) args = map (Some \<circ> Some) bs"
    "map (map_option (holds inp)) args = map Some bs"
    using examine_args [of args inp] by fastforce
  then show ?case by (simp add: examine_and_eq del: list.map_comp) (auto simp: list_all_iff)
next
  case (OrExp args)
  then obtain bs where "map (map_option (Examine inp)) args = map (Some \<circ> Some) bs"
    "map (map_option (holds inp)) args = map Some bs"
    using examine_args [of args inp] by fastforce
  then show ?case by (simp add: examine_or_eq del: list.map_comp) (auto simp: list_ex_iff)
next
  case (NotExp args)
  then obtain bs where "map (map_option (Examine inp)) args = map (Some \<circ> Some) bs"
    "map (map_option (holds inp)) args = map Some bs"
    using examine_args [of args inp] by fastforce
  then show ?case by (simp add: examine_not_eq del: list.map_comp) (auto simp: map_eq_Cons_conv)
qed simp_all

lemma getArgs_stuck:
  assumes "e = q @ '','' @ replicate k (CHR '' '')"
  shows "getArgs n (length q) e acc = None"
proof (induction n arbitrary: acc)
  case (Suc n)
  have "forward (length q + 1) e = length q + 1" "wordLen (drop (length q + 1) e) = 0"
    "nonSpace (drop (length q + 1) e) = None" "e ! length q = CHR '',''"
    using assms by (auto simp: forward_def nonSpace_def wordLen_def list_all_iff nth_append)
  then show ?case
    using Suc by (cases n) (auto simp: Let_def)
qed simp

section \<open>Properties\<close>



text \<open>
  Evaluation is the meaning of the operators: an expression without nil arguments never
  panics, and is true exactly when it holds (a conjunction or disjunction of its arguments,
  a negation only of one argument, a name when it is among the options).
\<close>

theorem examine_correct:
  assumes "no_nil e"
  shows "Examine inp e = Some (holds inp e)"
  using assms by (rule Examine_holds)

theorem examine_correct_witness:
  "Examine (\<lambda>u. u = ''a'') (AndExp [Some (UserExp ''a''), Some (NotExp [Some (UserExp ''b'')])]) = Some True"
  using examine_correct [of "AndExp [Some (UserExp ''a''), Some (NotExp [Some (UserExp ''b'')])]" "\<lambda>u. u = ''a''"]
  by simp

text \<open>
  Where the parser fails: an argument list that ends after a comma, with or without
  spaces, makes it loop for ever; an empty argument list is accepted with a nil argument
  and panics when it is examined; a space after an expression makes it garbage.
\<close>

theorem condition_limits:
  "GetExpression n (''and(a,'' @ replicate k (CHR '' '')) = None \<and>
   GetExpression 3 ''and()'' = Some (Inr (AndExp [None])) \<and> Examine inp (AndExp [None]) = None \<and>
   GetExpression 3 ''a '' = Some (Inl (Garbage 1))"
proof -
  let ?e = "''and(a,'' @ replicate k (CHR '' '')"
  have stuck: "getArgs m 5 ?e acc = None" for m acc
    using getArgs_stuck [of ?e "''and(a''" k m acc] by (simp add: eval_nat_numeral)
  have first: "getArgs m 3 ?e [] = None" for m
  proof (cases m)
    case (Suc m')
    show ?thesis
    proof (cases m')
      case (Suc i)
      have "getOne m' (length ''and('') (''and('' @ replicate 0 (CHR '' '') @ show_exp (UserExp ''a'') @
          ('','' @ replicate k (CHR '' ''))) = Some (Some (UserExp ''a''), 5, None)"
        using parsesD [OF parses_wf [of "UserExp ''a''"], of m' "'','' @ replicate k (CHR '' '')" "''and(''" 0] Suc
        by (simp add: wf_user_def wf_word_def wordChar_def stops_def)
      then have "getOne m' 4 ?e = Some (Some (UserExp ''a''), 5, None)" by (simp add: eval_nat_numeral)
      then show ?thesis
        using \<open>m = Suc m'\<close> stuck by (simp add: nonSpace_def Let_def)
    qed (simp add: Suc)
  qed simp
  have "getOne n 0 ?e = None"
  proof (cases n)
    case (Suc m)
    have "forward 0 ?e = 0" "wordLen (drop 0 ?e) = 3" "forward 3 ?e = 3"
      by (simp_all add: forward_def nonSpace_def wordLen_def wordChar_def)
    then show ?thesis using first Suc by (simp add: Let_def)
  qed simp
  moreover have "GetExpression 3 ''and()'' = Some (Inr (AndExp [None]))"
    by (simp add: GetExpression_def numeral_3_eq_3 Let_def forward_def nonSpace_def wordLen_def
        wordChar_def expressions_def)
  moreover have "GetExpression 3 ''a '' = Some (Inl (Garbage 1))"
    by (simp add: GetExpression_def numeral_3_eq_3 Let_def forward_def nonSpace_def wordLen_def
        wordChar_def)
  ultimately show ?thesis by (simp add: GetExpression_def)
qed

end
