(* ===== verification/Settings_Startup.thy ===== *)
theory Settings_Startup
  imports Utils
begin

text \<open>
  \<^verbatim>\<open>base/settings/startup.go\<close>, \<^verbatim>\<open>tree.go\<close>, \<^verbatim>\<open>include.go\<close> and \<^verbatim>\<open>settings.go\<close>: the startup services, their
  weights, the sorted startup tree with its slices, and how the settings of the included
  directories are merged.  A Go map is the list of its entries in the order of iteration,
  with distinct keys.  Weights are \<^verbatim>\<open>int64\<close>: sums wrap.
\<close>

section \<open>Services and weights\<close>

definition wrap64 :: "int \<Rightarrow> int" where
  "wrap64 x = (x + 2 ^ 63) mod 2 ^ 64 - 2 ^ 63"

record startup =
  st_After :: "string list"
  st_RunningDelay :: int
  st_RunningMatch :: string
  st_RecurringPeriod :: int
  st_MaxRestart :: int
  st_Protected :: bool
  st_Name :: string
  st_Tags :: "string list"
  st_Condition :: string
  st_key :: string

definition Priority :: "string \<rightharpoonup> int" where
  "Priority = [''init'' \<mapsto> 1, ''net'' \<mapsto> 1000, ''boot'' \<mapsto> 1000000, ''----'' \<mapsto> -1]"

definition After_Weight :: "string \<Rightarrow> int" where
  "After_Weight a = (case Priority a of Some v \<Rightarrow> v | None \<Rightarrow> 0)"

datatype weight_error = CyclicDependency | UnknownDependency string

type_synonym included_startup = "(string \<times> startup) list"

text \<open>How many services are not on the chain yet: what makes the recursion end.\<close>

definition unseen :: "included_startup \<Rightarrow> string list \<Rightarrow> nat" where
  "unseen i chain = length (filter (\<lambda>kd. st_key (snd kd) \<notin> set chain) i)"

lemma unseen_decreases:
  assumes "map_of i a = Some d" "st_key d \<notin> set chain"
  shows "unseen i (chain @ [st_key d]) < unseen i chain"
proof -
  have "(a, d) \<in> set i" using assms(1) by (rule map_of_SomeD)
  then have "(a, d) \<in> set (filter (\<lambda>kd. st_key (snd kd) \<notin> set chain) i)" using assms(2) by simp
  then have "length (filter (\<lambda>kd. st_key (snd kd) \<noteq> st_key d) (filter (\<lambda>kd. st_key (snd kd) \<notin> set chain) i)) <
      length (filter (\<lambda>kd. st_key (snd kd) \<notin> set chain) i)"
    by (intro length_filter_less [of "(a, d)"]) auto
  then show ?thesis by (simp add: unseen_def conj_commute)
qed

text \<open>\<^verbatim>\<open>Weight\<close> and its loop over \<^verbatim>\<open>After\<close>.\<close>

function Weight :: "included_startup \<Rightarrow> string list \<Rightarrow> startup \<Rightarrow> weight_error + int"
  and weight_after :: "included_startup \<Rightarrow> string list \<Rightarrow> string list \<Rightarrow> int \<Rightarrow> weight_error + int" where
  "Weight i chain s =
     (if InString chain (st_key s) then Inl CyclicDependency
      else if length (st_After s) = 0 then Inr 1000000
      else weight_after i (chain @ [st_key s]) (st_After s) 0)"
| "weight_after i chain [] w = Inr w"
| "weight_after i chain (a # as) w =
     (case Priority a of
        Some x \<Rightarrow> weight_after i chain as (wrap64 (w + x))
      | None \<Rightarrow>
          (case map_of i a of
             Some d \<Rightarrow>
               (case Weight i chain d of
                  Inl err \<Rightarrow> Inl err
                | Inr dw \<Rightarrow> weight_after i chain as (wrap64 (w + dw)))
           | None \<Rightarrow> Inl (UnknownDependency a)))"
  by pat_completeness auto
termination
proof (relation "measures
    [\<lambda>x. case x of Inl (i, chain, s) \<Rightarrow> if st_key s \<in> set chain then 0 else Suc (unseen i (chain @ [st_key s]))
       | Inr (i, chain, as, w) \<Rightarrow> unseen i chain,
     \<lambda>x. case x of Inl _ \<Rightarrow> 0 | Inr (i, chain, as, w) \<Rightarrow> Suc (length as)]")
  fix i :: included_startup and chain :: "string list" and a and as :: "string list" and w and d
  assume "map_of i a = Some d"
  then show "(Inl (i, chain, d), Inr (i, chain, a # as, w)) \<in> measures
    [\<lambda>x. case x of Inl (i, chain, s) \<Rightarrow> if st_key s \<in> set chain then 0 else Suc (unseen i (chain @ [st_key s]))
       | Inr (i, chain, as, w) \<Rightarrow> unseen i chain,
     \<lambda>x. case x of Inl _ \<Rightarrow> 0 | Inr (i, chain, as, w) \<Rightarrow> Suc (length as)]"
    using unseen_decreases [of i a d chain] by auto
qed auto

declare Weight.simps [simp del]

section \<open>The tree\<close>

type_synonym startup_tree = "(startup \<times> int) list"

definition prepare :: "included_startup \<Rightarrow> included_startup" where
  "prepare i = map (\<lambda>(key, startup). (key, startup\<lparr>st_key := key\<rparr>)) i"

fun weigh_all :: "included_startup \<Rightarrow> startup list \<Rightarrow> startup_tree \<times> (startup \<times> weight_error) list" where
  "weigh_all i [] = ([], [])"
| "weigh_all i (s # ss) =
     (let (tree, errors) = weigh_all i ss
      in case Weight i [] s of
           Inl err \<Rightarrow> (tree, (s, err) # errors)
         | Inr w \<Rightarrow> ((s, w) # tree, errors))"

definition GetStartupTree :: "included_startup \<Rightarrow> startup_tree \<times> (startup \<times> weight_error) list" where
  "GetStartupTree i0 =
     (let i = prepare i0;
          (tree, errors) = weigh_all i (map snd i)
      in (sort_key snd tree, errors))"

definition Services :: "startup_tree \<Rightarrow> startup list" where
  "Services t = map fst t"

definition tree_Slice :: "startup_tree \<Rightarrow> int \<Rightarrow> int \<Rightarrow> startup list" where
  "tree_Slice t s e =
     map fst (filter (\<lambda>(p, w). \<not> w < s \<and> \<not> (w \<ge> e \<and> e \<noteq> -1)) t)"

section \<open>Included settings\<close>

record extension =
  ext_Binary :: string
  ext_Cwd :: string
  ext_Env :: "(string \<times> string) list"
  ext_Args :: "string list"
  ext_key :: string

record included =
  inc_Extension :: "string \<rightharpoonup> extension"
  inc_Startup :: "string \<rightharpoonup> startup"

definition ConfigSuffix :: string where "ConfigSuffix = ''.toml''"

text \<open>An entry of an included directory: its name, and what loading it gives.\<close>

datatype toml_file = Dir | BadFile | Toml "(string \<times> extension) list" "(string \<times> startup) list"

datatype include_error = ReadDirError string | LoadError string | ExtensionOverride string string

definition configName :: "string \<Rightarrow> bool" where
  "configName name \<longleftrightarrow>
     \<not> length name \<le> length ConfigSuffix \<and> drop (length name - length ConfigSuffix) name = ConfigSuffix"

fun merge_extensions ::
  "(string \<rightharpoonup> extension) \<Rightarrow> string \<Rightarrow> (string \<times> extension) list \<Rightarrow> (string \<rightharpoonup> extension) \<Rightarrow>
     (string \<rightharpoonup> extension) \<times> include_error list" where
  "merge_extensions main path [] part = (part, [])"
| "merge_extensions main path ((key, ext) # exts) part =
     (if main key \<noteq> None \<or> part key \<noteq> None
      then (let (part', errs) = merge_extensions main path exts part
            in (part', ExtensionOverride path key # errs))
      else merge_extensions main path exts (part(key \<mapsto> ext\<lparr>ext_key := key\<rparr>)))"

fun include_files ::
  "(string \<rightharpoonup> extension) \<Rightarrow> string \<Rightarrow> (string \<times> toml_file) list \<Rightarrow> included \<Rightarrow> included \<times> include_error list" where
  "include_files main dir [] part = (part, [])"
| "include_files main dir ((name, file) # infos) part =
     (case file of
        Dir \<Rightarrow> include_files main dir infos part
      | _ \<Rightarrow>
          if \<not> configName name then include_files main dir infos part
          else
            (let path = dir @ ''/'' @ name
             in case file of
                  Toml exts startups \<Rightarrow>
                    (let (exts', errs) = merge_extensions main path exts (inc_Extension part);
                         part' = part\<lparr>inc_Extension := exts', inc_Startup := Update (inc_Startup part) startups\<rparr>;
                         (part'', errs') = include_files main dir infos part'
                     in (part'', errs @ errs'))
                | _ \<Rightarrow>
                    (let (part', errs) = include_files main dir infos part
                     in (part', LoadError path # errs))))"

text \<open>\<open>fs\<close> is the file system: the entries of a directory, \<^const>\<open>None\<close> when it cannot be read.\<close>

fun include_dirs ::
  "(string \<rightharpoonup> extension) \<Rightarrow> (string \<rightharpoonup> (string \<times> toml_file) list) \<Rightarrow> string list \<Rightarrow> included \<Rightarrow>
     included \<times> include_error list" where
  "include_dirs main fs [] part = (part, [])"
| "include_dirs main fs (dir # dirs) part =
     (case fs dir of
        None \<Rightarrow> (let (part', errs) = include_dirs main fs dirs part in (part', ReadDirError dir # errs))
      | Some infos \<Rightarrow>
          (let (part1, errs1) = include_files main dir infos part;
               (part2, errs2) = include_dirs main fs dirs part1
           in (part2, errs1 @ errs2)))"

definition GetIncludedSettings ::
  "(string \<rightharpoonup> extension) \<Rightarrow> (string \<rightharpoonup> (string \<times> toml_file) list) \<Rightarrow> string list \<Rightarrow>
     included \<times> include_error list" where
  "GetIncludedSettings main fs dirs =
     include_dirs main fs dirs \<lparr>inc_Extension = Map.empty, inc_Startup = Map.empty\<rparr>"

definition Globals_Get :: "(string \<rightharpoonup> string) \<Rightarrow> string \<Rightarrow> string list \<Rightarrow> string" where
  "Globals_Get g key def =
     (case g key of Some v \<Rightarrow> v | None \<Rightarrow> if length def = 1 then def ! 0 else [])"

definition Settings_Validate :: "string \<Rightarrow> string" where
  "Settings_Validate logLevel = (if logLevel = [] then ''info'' else logLevel)"

section \<open>Lemmas\<close>

lemma wrap64_id: "- (2 ^ 63) \<le> x \<Longrightarrow> x < 2 ^ 63 \<Longrightarrow> wrap64 x = x"
  by (simp add: wrap64_def)

lemma wrap64_add [simp]: "wrap64 (wrap64 x + y) = wrap64 (x + y)"
proof -
  have "((x + 2 ^ 63) mod 2 ^ 64 - 2 ^ 63 + y + 2 ^ 63) mod 2 ^ 64 = ((x + 2 ^ 63) mod 2 ^ 64 + y) mod 2 ^ 64"
    by simp
  also have "\<dots> = (x + 2 ^ 63 + y) mod 2 ^ 64" by (rule mod_add_left_eq)
  finally show ?thesis by (simp add: wrap64_def algebra_simps)
qed

lemma wrap64_add_right [simp]: "wrap64 (x + wrap64 y) = wrap64 (x + y)"
  using wrap64_add [of y x] by (simp add: add.commute)

text \<open>A dependency is a name in \<^verbatim>\<open>After\<close> that is no priority class.\<close>

definition depends :: "startup \<Rightarrow> string \<Rightarrow> bool" where
  "depends s a \<longleftrightarrow> a \<in> set (st_After s) \<and> Priority a = None"

lemma weight_shrink:
  "Weight i chain s = Inr w \<Longrightarrow> set chain' \<subseteq> set chain \<Longrightarrow> Weight i chain' s = Inr w"
  "weight_after i chain as v = Inr w \<Longrightarrow> set chain' \<subseteq> set chain \<Longrightarrow> weight_after i chain' as v = Inr w"
proof (induction i chain s and i chain as v arbitrary: chain' w and chain' w rule: Weight_weight_after.induct)
  case (1 i chain s chain' w)
  have new: "st_key s \<notin> set chain" using "1.prems"(1) by (auto simp: Weight.simps [of i chain s])
  then have new': "st_key s \<notin> set chain'" using "1.prems"(2) by blast
  show ?case
  proof (cases "st_After s = []")
    case True
    then show ?thesis
      using "1.prems"(1) new new' by (simp add: Weight.simps [of i chain s] Weight.simps [of i chain' s])
  next
    case False
    then have w: "weight_after i (chain @ [st_key s]) (st_After s) 0 = Inr w"
      using "1.prems"(1) new by (simp add: Weight.simps [of i chain s])
    have g: "\<not> InString chain (st_key s)" "length (st_After s) \<noteq> 0"
      "set (chain' @ [st_key s]) \<subseteq> set (chain @ [st_key s])"
      using new False "1.prems"(2) by auto
    from "1.IH" [OF g(1,2) w g(3)] show ?thesis using False new' by (simp add: Weight.simps [of i chain' s])
  qed
next
  case (2 i chain w)
  then show ?case by simp
next
  case (3 i chain a as w chain' wa)
  show ?case
  proof (cases "Priority a")
    case (Some x)
    then have "weight_after i chain as (wrap64 (w + x)) = Inr wa" using "3.prems"(1) by simp
    from "3.IH"(3) [OF Some this "3.prems"(2)] Some show ?thesis by simp
  next
    case None
    then obtain d dw where d: "map_of i a = Some d" "Weight i chain d = Inr dw"
      "weight_after i chain as (wrap64 (w + dw)) = Inr wa"
      using "3.prems"(1) by (auto split: option.splits sum.splits)
    have "Weight i chain' d = Inr dw" using "3.IH"(1) [OF None d(1) d(2) "3.prems"(2)] .
    moreover have "weight_after i chain' as (wrap64 (w + dw)) = Inr wa"
      using "3.IH"(2) [OF None d(1) d(2) d(3) "3.prems"(2)] .
    ultimately show ?thesis using None d(1) by simp
  qed
qed

lemma weight_after_deps:
  "weight_after i chain as v = Inr w \<Longrightarrow> a \<in> set as \<Longrightarrow> Priority a = None \<Longrightarrow>
   \<exists>d dw. map_of i a = Some d \<and> Weight i chain d = Inr dw"
  by (induction as arbitrary: v) (auto split: option.splits sum.splits)

lemma Weight_deps:
  assumes "Weight i chain s = Inr w" "depends s a"
  shows "\<exists>d dw. map_of i a = Some d \<and> Weight i (chain @ [st_key s]) d = Inr dw"
  using assms weight_after_deps [of i "chain @ [st_key s]" "st_After s" 0 w a]
  by (auto simp: Weight.simps [of i chain s] depends_def split: if_splits)

lemma weigh_all_eq:
  "weigh_all i ss = (map (\<lambda>s. (s, projr (Weight i [] s))) (filter (\<lambda>s. \<not> isl (Weight i [] s)) ss),
     map (\<lambda>s. (s, projl (Weight i [] s))) (filter (\<lambda>s. isl (Weight i [] s)) ss))"
  by (induction ss) (auto split: sum.splits)

lemma map_of_prepare: "map_of (prepare i) k = map_option (\<lambda>s. s\<lparr>st_key := k\<rparr>) (map_of i k)"
  by (induction i) (auto simp: prepare_def)

lemma keys_prepare [simp]: "map fst (prepare i) = map fst i" "map (\<lambda>x. st_key (snd x)) (prepare i) = map fst i"
  by (auto simp: prepare_def)

lemma prepare_member: "distinct (map fst i) \<Longrightarrow> s \<in> snd ` set (prepare i) \<longleftrightarrow> map_of (prepare i) (st_key s) = Some s"
proof -
  assume d: "distinct (map fst i)"
  have "\<forall>x \<in> set (prepare i). st_key (snd x) = fst x" by (auto simp: prepare_def)
  then show ?thesis using d map_of_eq_Some_iff [of "prepare i"] by force
qed

lemma tree_member:
  "(s, w) \<in> set (fst (GetStartupTree i)) \<longleftrightarrow> s \<in> snd ` set (prepare i) \<and> Weight (prepare i) [] s = Inr w"
  by (auto simp: GetStartupTree_def weigh_all_eq Let_def isl_def split: sum.splits)

lemma error_member:
  "(s, e) \<in> set (snd (GetStartupTree i)) \<longleftrightarrow> s \<in> snd ` set (prepare i) \<and> Weight (prepare i) [] s = Inl e"
  by (auto simp: GetStartupTree_def weigh_all_eq Let_def isl_def split: sum.splits)

lemma service_member:
  "s \<in> set (Services (fst (GetStartupTree i))) \<longleftrightarrow>
     s \<in> snd ` set (prepare i) \<and> (\<exists>w. Weight (prepare i) [] s = Inr w)"
proof -
  have "s \<in> set (Services t) \<longleftrightarrow> (\<exists>w. (s, w) \<in> set t)" for t by (force simp: Services_def)
  then show ?thesis by (simp add: tree_member)
qed

definition tree_dep :: "startup_tree \<Rightarrow> (string \<times> string) set" where
  "tree_dep t = {(a, st_key s) | a s. s \<in> set (Services t) \<and> depends s a}"

lemma dep_in_tree:
  assumes "distinct (map fst i)" "s \<in> set (Services (fst (GetStartupTree i)))" "depends s a"
  shows "\<exists>d \<in> set (Services (fst (GetStartupTree i))). st_key d = a"
proof -
  obtain w where "Weight (prepare i) [] s = Inr w" using assms(2) by (auto simp: service_member)
  from Weight_deps [OF this assms(3)] obtain d dw where
    d: "map_of (prepare i) a = Some d" "Weight (prepare i) ([] @ [st_key s]) d = Inr dw" by auto
  then have "Weight (prepare i) [] d = Inr dw" using weight_shrink(1) [OF d(2), of "[]"] by simp
  moreover have "st_key d = a" using d(1) by (auto simp: map_of_prepare)
  moreover have "d \<in> snd ` set (prepare i)" using map_of_SomeD [OF d(1)] by force
  ultimately show ?thesis using service_member [of d i] by auto
qed

lemma dep_chain:
  assumes i: "distinct (map fst i)" and p: "(a, k) \<in> (tree_dep (fst (GetStartupTree i)))\<^sup>+"
  shows "\<exists>d chain dw. map_of (prepare i) a = Some d \<and> k \<in> set chain \<and> Weight (prepare i) chain d = Inr dw"
  using p
proof (induction rule: converse_trancl_induct)
  case (base a)
  then obtain s where s: "st_key s = k" "s \<in> set (Services (fst (GetStartupTree i)))" "depends s a"
    by (auto simp: tree_dep_def)
  then obtain w where "Weight (prepare i) [] s = Inr w" by (auto simp: service_member)
  from Weight_deps [OF this s(3)] s(1) show ?case by (metis append_Nil list.set_intros(1))
next
  case (step a b)
  then obtain s where s: "st_key s = b" "s \<in> set (Services (fst (GetStartupTree i)))" "depends s a"
    by (auto simp: tree_dep_def)
  from step.IH obtain d chain dw where
    d: "map_of (prepare i) b = Some d" "k \<in> set chain" "Weight (prepare i) chain d = Inr dw" by auto
  have "d = s" using s d(1) prepare_member [OF i, of s] by (auto simp: service_member)
  then have "\<exists>x xw. map_of (prepare i) a = Some x \<and> Weight (prepare i) (chain @ [st_key d]) x = Inr xw"
    using Weight_deps [OF d(3)] s(3) by simp
  then show ?case using d(2) by (metis UnCI set_append)
qed

lemma tree_dep_acyclic:
  assumes "distinct (map fst i)"
  shows "acyclic (tree_dep (fst (GetStartupTree i)))"
proof (rule acyclicI, rule allI, rule notI)
  fix k
  assume "(k, k) \<in> (tree_dep (fst (GetStartupTree i)))\<^sup>+"
  from dep_chain [OF assms this] obtain d chain dw where
    d: "map_of (prepare i) k = Some d" "k \<in> set chain" "Weight (prepare i) chain d = Inr dw" by auto
  have "st_key d = k" using d(1) by (auto simp: map_of_prepare)
  then show False using d(2,3) by (simp add: Weight.simps [of "prepare i" chain d])
qed

text \<open>What a name in \<^verbatim>\<open>After\<close> adds to a weight, and that no sum of weights wraps.\<close>

definition contribution :: "included_startup \<Rightarrow> string \<Rightarrow> int" where
  "contribution i a =
     (case Priority a of
        Some x \<Rightarrow> x
      | None \<Rightarrow> (case map_of i a of None \<Rightarrow> 0 | Some d \<Rightarrow> case Weight i [] d of Inl _ \<Rightarrow> 0 | Inr w \<Rightarrow> w))"

definition no_overflow :: "included_startup \<Rightarrow> bool" where
  "no_overflow i \<longleftrightarrow> list_all (\<lambda>(k, s). sum_list (map (contribution i) (st_After s)) < 2 ^ 63) i"

definition no_end :: "included_startup \<Rightarrow> bool" where
  "no_end i \<longleftrightarrow> list_all (\<lambda>(k, s). ''----'' \<notin> set (st_After s)) i"

lemma Priority_pos: "Priority a = Some x \<Longrightarrow> a \<noteq> ''----'' \<Longrightarrow> 1 \<le> x"
  by (auto simp: Priority_def split: if_splits)

lemma weight_after_sum:
  "weight_after i chain as v = Inr w \<Longrightarrow> v = wrap64 v \<Longrightarrow> w = wrap64 (v + sum_list (map (contribution i) as))"
proof (induction as arbitrary: v)
  case (Cons a as)
  show ?case
  proof (cases "Priority a")
    case (Some x)
    then show ?thesis
      using Cons.IH [of "wrap64 (v + x)"] Cons.prems wrap64_add [of "v + x" 0]
      by (simp add: contribution_def add.assoc)
  next
    case None
    then obtain d dw where d: "map_of i a = Some d" "Weight i chain d = Inr dw"
      "weight_after i chain as (wrap64 (v + dw)) = Inr w"
      using Cons.prems(1) by (auto split: option.splits sum.splits)
    have "contribution i a = dw"
      using None d(1) weight_shrink(1) [OF d(2), of "[]"] by (simp add: contribution_def)
    then show ?thesis
      using Cons.IH [OF d(3)] wrap64_add [of "v + dw" 0] by (simp add: add.assoc)
  qed
qed simp

lemma weight_positive:
  "Weight i chain s = Inr w \<Longrightarrow> no_overflow i \<Longrightarrow> no_end i \<Longrightarrow> s \<in> snd ` set i \<Longrightarrow> 1 \<le> w"
  "weight_after i chain as v = Inr w \<Longrightarrow> no_overflow i \<Longrightarrow> no_end i \<Longrightarrow> ''----'' \<notin> set as \<Longrightarrow>
     \<forall>a \<in> set as. 1 \<le> contribution i a"
proof (induction i chain s and i chain as v arbitrary: w and w rule: Weight_weight_after.induct)
  case (1 i chain s)
  show ?case
  proof (cases "st_After s = []")
    case True
    then show ?thesis using "1.prems"(1) by (auto simp: Weight.simps [of i chain s] split: if_splits)
  next
    case False
    let ?sum = "sum_list (map (contribution i) (st_After s))"
    have g: "\<not> InString chain (st_key s)" "length (st_After s) \<noteq> 0"
      using "1.prems"(1) False by (auto simp: Weight.simps [of i chain s])
    have w: "weight_after i (chain @ [st_key s]) (st_After s) 0 = Inr w"
      using "1.prems"(1) g by (simp add: Weight.simps [of i chain s])
    have "''----'' \<notin> set (st_After s)" "?sum < 2 ^ 63"
      using "1.prems"(2,3,4) by (auto simp: no_end_def no_overflow_def list_all_iff)
    from "1.IH" [OF g w "1.prems"(2,3) this(1)] this(2)
    have pos: "\<forall>a \<in> set (st_After s). 1 \<le> contribution i a" and lt: "?sum < 2 ^ 63" by auto
    have "contribution i (hd (st_After s)) \<le> ?sum"
      using pos False by (intro member_le_sum_list) force+
    then have "1 \<le> ?sum" using pos False by (metis hd_in_set order_trans)
    moreover have "w = wrap64 ?sum" using weight_after_sum [OF w] by (simp add: wrap64_def)
    ultimately show ?thesis using lt by (simp add: wrap64_id)
  qed
next
  case (3 i chain a as v w)
  show ?case
  proof (cases "Priority a")
    case (Some x)
    then have "weight_after i chain as (wrap64 (v + x)) = Inr w" using "3.prems"(1) by simp
    from "3.IH"(3) [OF Some this "3.prems"(2,3)] Some "3.prems"(4) Priority_pos [OF Some] show ?thesis
      by (auto simp: contribution_def)
  next
    case None
    then obtain d dw where d: "map_of i a = Some d" "Weight i chain d = Inr dw"
      "weight_after i chain as (wrap64 (v + dw)) = Inr w"
      using "3.prems"(1) by (auto split: option.splits sum.splits)
    have "d \<in> snd ` set i" using map_of_SomeD [OF d(1)] by force
    then have "1 \<le> dw" using "3.IH"(1) [OF None d(1) d(2) "3.prems"(2,3)] by simp
    then have "1 \<le> contribution i a"
      using None d(1) weight_shrink(1) [OF d(2), of "[]"] by (simp add: contribution_def)
    moreover have "\<forall>a \<in> set as. 1 \<le> contribution i a"
      using "3.IH"(2) [OF None d(1) d(2) d(3) "3.prems"(2,3)] "3.prems"(4) by simp
    ultimately show ?thesis by simp
  qed
qed simp

lemma dep_weight:
  assumes "Weight i [] s = Inr w" "s \<in> snd ` set i" "depends s a" "no_overflow i" "no_end i"
  shows "\<exists>d dw. map_of i a = Some d \<and> Weight i [] d = Inr dw \<and> 1 \<le> dw \<and> dw \<le> w"
proof -
  let ?sum = "sum_list (map (contribution i) (st_After s))"
  have ne: "st_After s \<noteq> []" "a \<in> set (st_After s)" using assms(3) by (auto simp: depends_def)
  then have wa: "weight_after i [st_key s] (st_After s) 0 = Inr w"
    using assms(1) by (auto simp: Weight.simps [of i "[]" s])
  obtain d dw where d: "map_of i a = Some d" "Weight i ([] @ [st_key s]) d = Inr dw"
    using Weight_deps [OF assms(1,3)] by auto
  have dw: "Weight i [] d = Inr dw" using weight_shrink(1) [OF d(2), of "[]"] by simp
  have c: "contribution i a = dw" using assms(3) d(1) dw by (simp add: contribution_def depends_def)
  have "''----'' \<notin> set (st_After s)" "?sum < 2 ^ 63"
    using assms(2,4,5) by (auto simp: no_end_def no_overflow_def list_all_iff)
  then have pos: "\<forall>a \<in> set (st_After s). 1 \<le> contribution i a"
    using weight_positive(2) [OF wa assms(4,5)] by simp
  then have "contribution i a \<le> ?sum"
    using ne(2) by (intro member_le_sum_list) force+
  moreover have "w = wrap64 ?sum" using weight_after_sum [OF wa] by (simp add: wrap64_def)
  moreover have "1 \<le> dw" using pos ne(2) c by auto
  ultimately show ?thesis
    using d(1) dw c \<open>?sum < 2 ^ 63\<close> by (simp add: wrap64_id)
qed

section \<open>Properties\<close>

text \<open>
  C7. The startup tree.  Every service is either in the tree or among the errors, not both,
  and the tree is sorted by weight; it is closed under dependencies and has no cycle: a
  service on a dependency cycle, with an unknown dependency, or that depends on such a
  service is reported and left out, whatever the order the services are visited in.
\<close>

theorem startup_tree_correct:
  assumes "distinct (map fst i)"
  shows "sorted (map snd (fst (GetStartupTree i))) \<and>
    st_key ` set (Services (fst (GetStartupTree i))) \<union> (st_key \<circ> fst) ` set (snd (GetStartupTree i)) = fst ` set i \<and>
    st_key ` set (Services (fst (GetStartupTree i))) \<inter> (st_key \<circ> fst) ` set (snd (GetStartupTree i)) = {} \<and>
    (\<forall>s \<in> set (Services (fst (GetStartupTree i))). \<forall>a. depends s a \<longrightarrow>
       a \<in> st_key ` set (Services (fst (GetStartupTree i)))) \<and>
    acyclic (tree_dep (fst (GetStartupTree i)))"
proof (intro conjI)
  let ?t = "fst (GetStartupTree i)" and ?e = "snd (GetStartupTree i)"
  have err: "s \<in> fst ` set ?e \<longleftrightarrow> s \<in> snd ` set (prepare i) \<and> isl (Weight (prepare i) [] s)" for s
    using error_member [of s _ i] by (force simp: isl_def)
  have srv: "s \<in> set (Services ?t) \<longleftrightarrow> s \<in> snd ` set (prepare i) \<and> \<not> isl (Weight (prepare i) [] s)" for s
    by (auto simp: service_member isl_def) (metis sum.exhaust)
  have keys: "st_key ` snd ` set (prepare i) = fst ` set i"
    by (force simp: prepare_def image_iff)
  show "sorted (map snd ?t)" by (simp add: GetStartupTree_def Let_def case_prod_unfold)
  have un: "set (Services ?t) \<union> fst ` set ?e = snd ` set (prepare i)" using err srv by blast
  show "st_key ` set (Services ?t) \<union> (st_key \<circ> fst) ` set ?e = fst ` set i"
    unfolding image_comp [symmetric] image_Un [symmetric] un keys ..
  have "inj_on st_key (snd ` set (prepare i))"
    using prepare_member [OF assms] by (intro inj_onI) (metis option.inject)
  moreover have "set (Services ?t) \<inter> fst ` set ?e = {}" using err srv by blast
  ultimately show "st_key ` set (Services ?t) \<inter> (st_key \<circ> fst) ` set ?e = {}"
    using un unfolding image_comp [symmetric] by (metis Un_upper1 Un_upper2 image_is_empty inj_on_image_Int)
  show "\<forall>s \<in> set (Services ?t). \<forall>a. depends s a \<longrightarrow> a \<in> st_key ` set (Services ?t)"
    using dep_in_tree [OF assms] by blast
  show "acyclic (tree_dep ?t)" by (rule tree_dep_acyclic [OF assms])
qed

definition sampleService :: "string list \<Rightarrow> startup" where
  "sampleService after =
     \<lparr>st_After = after, st_RunningDelay = 0, st_RunningMatch = [], st_RecurringPeriod = 0, st_MaxRestart = 0,
      st_Protected = False, st_Name = ''core.system'', st_Tags = [], st_Condition = [], st_key = []\<rparr>"

definition sampleIncluded :: included_startup where
  "sampleIncluded = [(''redis'', sampleService [''net'']), (''app'', sampleService [''redis'', ''init'']),
     (''loop'', sampleService [''loop'']), (''udev'', sampleService [''init''])]"

lemma sample_weights:
  "Weight (prepare sampleIncluded) [] ((sampleService [''net''])\<lparr>st_key := ''redis''\<rparr>) = Inr 1000"
  "Weight (prepare sampleIncluded) [] ((sampleService [''redis'', ''init''])\<lparr>st_key := ''app''\<rparr>) = Inr 1001"
  "Weight (prepare sampleIncluded) [] ((sampleService [''loop''])\<lparr>st_key := ''loop''\<rparr>) = Inl CyclicDependency"
  "Weight (prepare sampleIncluded) [] ((sampleService [''init''])\<lparr>st_key := ''udev''\<rparr>) = Inr 1"
  by (simp_all add: Weight.simps sampleIncluded_def prepare_def sampleService_def Priority_def wrap64_def)

lemma sample_tree:
  "fst (GetStartupTree sampleIncluded) =
     [((sampleService [''init''])\<lparr>st_key := ''udev''\<rparr>, 1), ((sampleService [''net''])\<lparr>st_key := ''redis''\<rparr>, 1000),
      ((sampleService [''redis'', ''init''])\<lparr>st_key := ''app''\<rparr>, 1001)]"
proof -
  have "map snd (prepare sampleIncluded) = [(sampleService [''net''])\<lparr>st_key := ''redis''\<rparr>,
      (sampleService [''redis'', ''init''])\<lparr>st_key := ''app''\<rparr>, (sampleService [''loop''])\<lparr>st_key := ''loop''\<rparr>,
      (sampleService [''init''])\<lparr>st_key := ''udev''\<rparr>]"
    by (simp add: prepare_def sampleIncluded_def)
  then show ?thesis by (simp add: GetStartupTree_def sample_weights)
qed

theorem startup_tree_correct_witness:
  "distinct (map fst sampleIncluded) \<and>
   st_key ` set (Services (fst (GetStartupTree sampleIncluded))) = {''udev'', ''redis'', ''app''} \<and>
   acyclic (tree_dep (fst (GetStartupTree sampleIncluded)))"
proof -
  have "distinct (map fst sampleIncluded)" by (simp add: sampleIncluded_def)
  with startup_tree_correct [OF this] show ?thesis by (auto simp: sample_tree Services_def)
qed

text \<open>
  C8. Dependencies come first.  When no service names the end marker and no sum of weights
  exceeds 63 bits, a service of the tree weighs at least as much as each of its
  dependencies, so that whenever it is in one of the three boot slices its dependencies are
  in the same slice or in an earlier one; and each service is in exactly one of them.
\<close>

theorem dependencies_first:
  assumes "distinct (map fst i)" "no_overflow (prepare i)" "no_end (prepare i)"
    and "(s, w) \<in> set (fst (GetStartupTree i))"
  shows "(\<forall>a. depends s a \<longrightarrow> (\<exists>d dw. st_key d = a \<and> (d, dw) \<in> set (fst (GetStartupTree i)) \<and> dw \<le> w)) \<and>
    s \<in> set (tree_Slice (fst (GetStartupTree i)) (if w < 1000 then 1 else if w < 1000000 then 1000 else 1000000)
      (if w < 1000 then 1000 else if w < 1000000 then 1000000 else -1)) \<and>
    (s \<in> set (tree_Slice (fst (GetStartupTree i)) 1 1000) \<longleftrightarrow> w < 1000) \<and>
    (s \<in> set (tree_Slice (fst (GetStartupTree i)) 1000 1000000) \<longleftrightarrow> 1000 \<le> w \<and> w < 1000000) \<and>
    (s \<in> set (tree_Slice (fst (GetStartupTree i)) 1000000 (-1)) \<longleftrightarrow> 1000000 \<le> w)"
proof -
  let ?i = "prepare i" and ?t = "fst (GetStartupTree i)"
  have s: "s \<in> snd ` set ?i" "Weight ?i [] s = Inr w" using assms(4) by (simp_all add: tree_member)
  have w: "1 \<le> w" using weight_positive(1) [OF s(2) assms(2,3) s(1)] .
  have uniq: "(s, w') \<in> set ?t \<longleftrightarrow> w' = w" for w' using s by (auto simp: tree_member)
  have slice: "s \<in> set (tree_Slice ?t lo hi) \<longleftrightarrow> \<not> w < lo \<and> \<not> (w \<ge> hi \<and> hi \<noteq> -1)" for lo hi
    using uniq by (force simp: tree_Slice_def)
  have "\<exists>d dw. st_key d = a \<and> (d, dw) \<in> set ?t \<and> dw \<le> w" if dep: "depends s a" for a
  proof -
    obtain d dw where d: "map_of ?i a = Some d" "Weight ?i [] d = Inr dw" "dw \<le> w"
      using dep_weight [OF s(2,1) dep assms(2,3)] by auto
    moreover have "st_key d = a" using d(1) by (auto simp: map_of_prepare)
    moreover have "d \<in> snd ` set ?i" using map_of_SomeD [OF d(1)] by force
    ultimately show ?thesis using tree_member [of d dw i] by auto
  qed
  then show ?thesis using w by (auto simp: slice)
qed

theorem dependencies_first_witness:
  "(\<exists>d dw. st_key d = ''redis'' \<and> (d, dw) \<in> set (fst (GetStartupTree sampleIncluded)) \<and> dw \<le> 1001) \<and>
   (sampleService [''redis'', ''init''])\<lparr>st_key := ''app''\<rparr> \<in>
     set (tree_Slice (fst (GetStartupTree sampleIncluded)) 1000 1000000)"
proof -
  let ?s = "(sampleService [''redis'', ''init''])\<lparr>st_key := ''app''\<rparr>"
  have 1: "distinct (map fst sampleIncluded)" by (simp add: sampleIncluded_def)
  have c: "contribution (prepare sampleIncluded) ''net'' = 1000" "contribution (prepare sampleIncluded) ''init'' = 1"
    by (simp_all add: contribution_def Priority_def)
  have l: "map_of (prepare sampleIncluded) ''redis'' = Some ((sampleService [''net''])\<lparr>st_key := ''redis''\<rparr>)"
    "map_of (prepare sampleIncluded) ''loop'' = Some ((sampleService [''loop''])\<lparr>st_key := ''loop''\<rparr>)"
    by (simp_all add: sampleIncluded_def prepare_def)
  have "contribution (prepare sampleIncluded) ''redis'' = 1000" "contribution (prepare sampleIncluded) ''loop'' = 0"
    using l by (simp_all add: contribution_def Priority_def sample_weights)
  then have 2: "no_overflow (prepare sampleIncluded)"
    using c unfolding no_overflow_def by (simp add: sampleIncluded_def prepare_def sampleService_def)
  have 3: "no_end (prepare sampleIncluded)"
    by (simp add: no_end_def sampleIncluded_def prepare_def sampleService_def)
  have 4: "(?s, 1001) \<in> set (fst (GetStartupTree sampleIncluded))" by (simp add: sample_tree)
  have "depends ?s ''redis''" by (simp add: depends_def sampleService_def Priority_def)
  with dependencies_first [OF 1 2 3 4] show ?thesis by simp
qed

end
