(* ===== verification/Pm_Slice.thy ===== *)
theory Pm_Slice
  imports Pm_Waitmachine Pm_Hooks Pm_Backoff Settings_Condition Settings_Startup
begin

text \<open>
  \<^verbatim>\<open>RunSlice\<close>, \<^verbatim>\<open>processArgs\<close> and \<^verbatim>\<open>osEnvironAsMap\<close> of \<^verbatim>\<open>base/pm/pm.go\<close>: starting the services of
  a slice, each when its dependencies run.  The goroutines of a slice share the state
  machine of \<^verbatim>\<open>waitmachine.go\<close>; the hooks of a started service release its key.
\<close>

section \<open>Arguments\<close>

text \<open>The values of a decoded argument map; \<open>AOther\<close> is any type the code leaves alone.\<close>

datatype arg =
  AStr string
| AStrs "string list"
| AList "arg list"
| AMap "(string \<times> arg) list"
| AOther int

text \<open>
  The value of a condition text: \<^const>\<open>None\<close> when the parser does not return (with \<open>n\<close> steps) or
  the evaluation panics, \<open>Inl\<close> for a syntax error.
\<close>

definition condition_value :: "nat \<Rightarrow> (string \<rightharpoonup> 'v) \<Rightarrow> string \<Rightarrow> (condition_error + bool) option" where
  "condition_value n vals text =
     (case GetExpression n text of
        None \<Rightarrow> None
      | Some (Inl err) \<Rightarrow> Some (Inl err)
      | Some (Inr e) \<Rightarrow> map_option Inr (Examine (\<lambda>k. vals k \<noteq> None) e))"

definition format_arg :: "('v \<Rightarrow> string) \<Rightarrow> (string \<rightharpoonup> 'v) \<Rightarrow> arg \<Rightarrow> arg" where
  "format_arg sh vals a = (case a of AStr s \<Rightarrow> AStr (Format sh s vals) | _ \<Rightarrow> a)"

definition put :: "string \<Rightarrow> arg \<Rightarrow> (string \<times> arg) list \<Rightarrow> (string \<times> arg) list" where
  "put k v args =
     (if k \<in> fst ` set args then map (\<lambda>(k', v'). (k', if k' = k then v else v')) args else args @ [(k, v)])"

definition del :: "string \<Rightarrow> (string \<times> arg) list \<Rightarrow> (string \<times> arg) list" where
  "del k args = filter (\<lambda>(k', v'). k' \<noteq> k) args"

text \<open>
  \<^verbatim>\<open>processArgs\<close> over the keys it collected first; the fuel bounds the nesting of maps,
  \<open>cn\<close> is that of the condition parser.  A value
  of another type under a conditional key is deleted with that key and never put back.
\<close>

fun processArgs :: "nat \<Rightarrow> nat \<Rightarrow> ('v \<Rightarrow> string) \<Rightarrow> (string \<rightharpoonup> 'v) \<Rightarrow> (string \<times> arg) list \<Rightarrow> (string \<times> arg) list option"
  and process_keys :: "nat \<Rightarrow> nat \<Rightarrow> ('v \<Rightarrow> string) \<Rightarrow> (string \<rightharpoonup> 'v) \<Rightarrow> string list \<Rightarrow> (string \<times> arg) list \<Rightarrow>
        (string \<times> arg) list option" where
  "processArgs 0 cn sh vals args = None"
| "processArgs (Suc n) cn sh vals args = process_keys n cn sh vals (map fst args) args"
| "process_keys n cn sh vals [] args = Some args"
| "process_keys n cn sh vals (key # keys) args =
     (case map_of args key of
        None \<Rightarrow> process_keys n cn sh vals keys args
      | Some v \<Rightarrow>
          (let parts = splitN2 (CHR ''|'') key;
               go = (\<lambda>key args. case v of
                        AStr s \<Rightarrow> process_keys n cn sh vals keys (put key (format_arg sh vals v) args)
                      | AStrs l \<Rightarrow> process_keys n cn sh vals keys (put key (AStrs (map (\<lambda>s. Format sh s vals) l)) args)
                      | AList l \<Rightarrow> process_keys n cn sh vals keys (put key (AList (map (format_arg sh vals) l)) args)
                      | AMap m \<Rightarrow>
                          (case processArgs n cn sh vals m of
                             None \<Rightarrow> None
                           | Some m' \<Rightarrow> process_keys n cn sh vals keys (put key (AMap m') args))
                      | AOther i \<Rightarrow> process_keys n cn sh vals keys args)
           in if length parts = 2
              then (case condition_value cn vals (trimSpace (parts ! 0)) of
                      None \<Rightarrow> None
                    | Some (Inl err) \<Rightarrow> process_keys n cn sh vals keys args
                    | Some (Inr False) \<Rightarrow> process_keys n cn sh vals keys (del key args)
                    | Some (Inr True) \<Rightarrow> go (trimSpace (parts ! 1)) (del key args))
              else go key args))"

definition osEnvironAsMap :: "string list \<Rightarrow> string \<rightharpoonup> string" where
  "osEnvironAsMap environ =
     fold (\<lambda>l r. let parts = splitN2 (CHR ''='') l
                 in if length parts = 2 then r(parts ! 0 \<mapsto> parts ! 1) else r) environ Map.empty"

section \<open>Starting a slice\<close>

text \<open>The hooks with which a started service reports; an action is the release it makes.\<close>

definition slice_hooks :: "startup \<Rightarrow> (string \<times> bool) runner_hook list" where
  "slice_hooks up =
     (if st_RunningMatch up \<noteq> []
      then [MatchHook \<lparr>mh_Match = st_RunningMatch up, mh_Action = (\<lambda>msg. (st_key up, True)), mh_io = False,
                       mh_p = None, mh_o = False\<rparr>]
      else if st_RunningDelay up \<ge> 0
      then [DelayHook \<lparr>dh_o = False,
                       dh_Delay = (if st_RunningDelay up > 0 then st_RunningDelay up * Second else 2 * Second),
                       dh_Action = (st_key up, True)\<rparr>]
      else []) @
     [ExitHook \<lparr>eh_o = False, eh_Action = (\<lambda>s. (st_key up, s))\<rparr>]"

definition slice_command :: "startup \<Rightarrow> string \<Rightarrow> command" where
  "slice_command up args =
     \<lparr>cmd_ID = st_key up, cmd_Command = st_Name up, cmd_Arguments = args, cmd_Queue = [],
      cmd_StatsInterval = 0, cmd_MaxTime = 0, cmd_MaxRestart = st_MaxRestart up,
      cmd_RecurringPeriod = st_RecurringPeriod up, cmd_Stream = False, cmd_LogLevels = [],
      cmd_Tags = st_Tags up,
      cmd_Flags = \<lparr>Protected = st_Protected up, NoOutput = False, NoSetPGID = False\<rparr>\<rparr>"

text \<open>A service that \<^verbatim>\<open>RunSlice\<close> has not come to yet, or what its goroutine does.\<close>

datatype phase =
  Pending
| Skipped
| Waiting waiter
| Refused
| Started "(string \<times> bool) runner_hook list"

record slice_sys =
  sl_machine :: wait_machine
  sl_phase :: "string \<Rightarrow> phase"
  sl_released :: "(string \<times> bool) list"
  sl_todo :: "startup list"

text \<open>
  Whether the loop starts a service: \<^const>\<open>None\<close> when evaluating its condition does not return.
\<close>

definition slice_cond :: "nat \<Rightarrow> (string \<rightharpoonup> 'v) \<Rightarrow> startup \<rightharpoonup> bool" where
  "slice_cond n cmdline up =
     (case condition_value n cmdline (st_Condition up) of
        None \<Rightarrow> None
      | Some (Inl err) \<Rightarrow> Some False
      | Some (Inr b) \<Rightarrow> Some b)"

definition slice_init :: "startup list \<Rightarrow> slice_sys" where
  "slice_init ups =
     \<lparr>sl_machine = newStateMachine (map st_key ups), sl_phase = (\<lambda>k. Pending), sl_released = [],
      sl_todo = ups\<rparr>"

definition slice_release :: "(string \<times> bool) list \<Rightarrow> slice_sys \<Rightarrow> slice_sys" where
  "slice_release kbs s = s\<lparr>sl_machine := fold wm.rel kbs (sl_machine s), sl_released := sl_released s @ kbs\<rparr>"

definition slice_phase :: "string \<Rightarrow> phase \<Rightarrow> slice_sys \<Rightarrow> slice_sys" where
  "slice_phase k p s = s\<lparr>sl_phase := (sl_phase s)(k := p)\<rparr>"

text \<open>
  \<open>cond\<close> is the evaluation of the conditions (\<open>slice_cond\<close>), \<open>compile\<close> the pattern compiler
  of the hooks.  The first two rules are the loop of \<^verbatim>\<open>RunSlice\<close>, which takes the services of
  \<open>sl_todo\<close> in order; the next three the goroutines; the last two what the
  manager and the started processes do: refuse the command, or raise an event.
\<close>

inductive slice_step ::
  "(startup \<rightharpoonup> bool) \<Rightarrow> (string \<Rightarrow> (string \<Rightarrow> bool) option) \<Rightarrow> startup list \<Rightarrow> slice_sys \<Rightarrow> slice_sys \<Rightarrow> bool"
  for cond compile ups where
  sl_skip: "sl_todo s = up # todo \<Longrightarrow> cond up = Some False \<Longrightarrow>
    slice_step cond compile ups s
      (slice_release [(st_key up, False)] (slice_phase (st_key up) Skipped (s\<lparr>sl_todo := todo\<rparr>)))"
| sl_launch: "sl_todo s = up # todo \<Longrightarrow> cond up = Some True \<Longrightarrow>
    slice_step cond compile ups s
      (slice_phase (st_key up) (Waiting (st_After up, True)) (s\<lparr>sl_todo := todo\<rparr>))"
| sl_wait: "up \<in> set ups \<Longrightarrow> sl_phase s (st_key up) = Waiting w \<Longrightarrow> Wait_step (sl_machine s) w = Some w' \<Longrightarrow>
    slice_step cond compile ups s (slice_phase (st_key up) (Waiting w') s)"
| sl_refuse: "up \<in> set ups \<Longrightarrow> sl_phase s (st_key up) = Waiting ([], False) \<Longrightarrow>
    slice_step cond compile ups s (slice_release [(st_key up, False)] (slice_phase (st_key up) Refused s))"
| sl_run: "up \<in> set ups \<Longrightarrow> sl_phase s (st_key up) = Waiting ([], True) \<Longrightarrow>
    slice_step cond compile ups s (slice_phase (st_key up) (Started (slice_hooks up)) s)"
| sl_run_error: "up \<in> set ups \<Longrightarrow> sl_phase s (st_key up) = Waiting ([], True) \<Longrightarrow>
    slice_step cond compile ups s (slice_release [(st_key up, False)] (slice_phase (st_key up) Refused s))"
| sl_event: "up \<in> set ups \<Longrightarrow> sl_phase s (st_key up) = Started hooks \<Longrightarrow>
    all_hooks (hook_on compile e) hooks = (hooks', acts) \<Longrightarrow>
    slice_step cond compile ups s (slice_release acts (slice_phase (st_key up) (Started hooks') s))"

inductive slice_reachable ::
  "(startup \<rightharpoonup> bool) \<Rightarrow> (string \<Rightarrow> (string \<Rightarrow> bool) option) \<Rightarrow> startup list \<Rightarrow> slice_sys \<Rightarrow> bool"
  for cond compile ups where
  slice_start: "slice_reachable cond compile ups (slice_init ups)"
| slice_more: "slice_reachable cond compile ups s \<Longrightarrow> slice_step cond compile ups s t \<Longrightarrow>
    slice_reachable cond compile ups t"

text \<open>The two passes \<^verbatim>\<open>RunSlice\<close> makes over the arguments of a service.\<close>

definition slice_args ::
  "nat \<Rightarrow> nat \<Rightarrow> ('v \<Rightarrow> string) \<Rightarrow> (string \<rightharpoonup> 'v) \<Rightarrow> (string \<rightharpoonup> 'v) \<Rightarrow> (string \<times> arg) list \<Rightarrow>
     (string \<times> arg) list option" where
  "slice_args n cn sh env cmdline args =
     (case processArgs n cn sh env args of
        None \<Rightarrow> None
      | Some args' \<Rightarrow> processArgs n cn sh cmdline args')"

section \<open>Lemmas\<close>

text \<open>Every action of a hook releases the key of its service.\<close>

fun hook_key :: "string \<Rightarrow> (string \<times> bool) runner_hook \<Rightarrow> bool" where
  "hook_key k (DelayHook h) = (fst (dh_Action h) = k)"
| "hook_key k (ExitHook h) = (\<forall>s. fst (eh_Action h s) = k)"
| "hook_key k (PIDHook h) = (\<forall>p. fst (ph_Action h p) = k)"
| "hook_key k (MatchHook h) = (\<forall>m. fst (mh_Action h m) = k)"
| "hook_key k h = True"

lemma hook_key_on:
  "hook_key k h \<Longrightarrow> hook_key k (fst (hook_on c e h)) \<and> (\<forall>a \<in> set (snd (hook_on c e h)). fst a = k)"
  by (cases e; cases h) (auto simp: hook_defs Let_def split: option.splits)

lemma hook_key_all:
  assumes "\<forall>h \<in> set hooks. hook_key k h" "all_hooks (hook_on c e) hooks = (hooks', acts)"
  shows "\<forall>h \<in> set hooks'. hook_key k h" "\<forall>a \<in> set acts. fst a = k"
  using assms hook_key_on [of k _ c e] by (fastforce simp: all_hooks_def)+

lemma hook_key_slice: "\<forall>h \<in> set (slice_hooks up). hook_key (st_key up) h"
  by (auto simp: slice_hooks_def)

definition phase_ok :: "string list \<Rightarrow> startup \<Rightarrow> (string \<times> bool) list \<Rightarrow> phase \<Rightarrow> bool" where
  "phase_ok keys up h p =
     (case p of
        Pending \<Rightarrow> True
      | Waiting w \<Rightarrow> passed_ok h keys (st_After up) w
      | Started hooks \<Rightarrow> (\<forall>a \<in> set (st_After up) \<inter> set keys. (a, True) \<in> set h) \<and>
          (\<forall>x \<in> set hooks. hook_key (st_key up) x)
      | _ \<Rightarrow> st_key up \<in> fst ` set h)"

definition slice_inv :: "startup list \<Rightarrow> slice_sys \<Rightarrow> bool" where
  "slice_inv ups s \<longleftrightarrow>
     sl_machine s = fold wm.rel (sl_released s) (newStateMachine (map st_key ups)) \<and>
     (\<forall>up \<in> set ups. phase_ok (map st_key ups) up (sl_released s) (sl_phase s (st_key up))) \<and>
     (\<forall>k. (k, True) \<in> set (sl_released s) \<longrightarrow> (\<exists>hooks. sl_phase s k = Started hooks))"

lemma slice_invD:
  "slice_inv ups s \<Longrightarrow> up \<in> set ups \<Longrightarrow> phase_ok (map st_key ups) up (sl_released s) (sl_phase s (st_key up))"
  by (simp add: slice_inv_def)

lemma phase_ok_mono: "phase_ok keys up h p \<Longrightarrow> phase_ok keys up (h @ h') p"
  by (auto simp: phase_ok_def split: phase.splits intro: passed_ok_mono)

text \<open>A step that changes the phase of one service and releases only its key keeps the invariant.\<close>

lemma slice_inv_update:
  assumes "distinct (map st_key ups)" "up \<in> set ups" "slice_inv ups s"
    and "phase_ok (map st_key ups) up (sl_released s @ kbs) p"
    and "\<forall>kb \<in> set kbs. fst kb = st_key up"
    and "(st_key up, True) \<in> set (sl_released s @ kbs) \<Longrightarrow> \<exists>hooks. p = Started hooks"
  shows "slice_inv ups (slice_release kbs (slice_phase (st_key up) p s))"
proof -
  have "phase_ok (map st_key ups) v (sl_released s @ kbs) (((sl_phase s)(st_key up := p)) (st_key v))"
    if "v \<in> set ups" for v
  proof (cases "st_key v = st_key up")
    case True
    then have "v = up" using assms(1,2) that by (auto simp: distinct_map inj_on_def)
    then show ?thesis using assms(4) by simp
  next
    case False
    then show ?thesis using assms(3) that by (auto simp: slice_inv_def intro: phase_ok_mono)
  qed
  moreover have "\<exists>hooks. ((sl_phase s)(st_key up := p)) k = Started hooks"
    if "(k, True) \<in> set (sl_released s @ kbs)" for k
  proof (cases "k = st_key up")
    case True
    then show ?thesis using assms(6) that by simp
  next
    case False
    then have "(k, True) \<in> set (sl_released s)" using that assms(5) by auto
    then show ?thesis using assms(3) False by (auto simp: slice_inv_def)
  qed
  ultimately show ?thesis
    using assms(3) by (simp add: slice_inv_def slice_release_def slice_phase_def)
qed

lemma slice_inv_phase:
  assumes "distinct (map st_key ups)" "up \<in> set ups" "slice_inv ups s"
    and "phase_ok (map st_key ups) up (sl_released s) p"
    and "(st_key up, True) \<in> set (sl_released s) \<Longrightarrow> \<exists>hooks. p = Started hooks"
  shows "slice_inv ups (slice_phase (st_key up) p s)"
  using slice_inv_update [OF assms(1-3), of "[]" p] assms(4,5) by (simp add: slice_release_def)

text \<open>The services the loop has not reached: pending, in order, none of their keys released.\<close>

definition todo_inv :: "startup list \<Rightarrow> slice_sys \<Rightarrow> bool" where
  "todo_inv ups s \<longleftrightarrow>
     distinct (map st_key (sl_todo s)) \<and> set (sl_todo s) \<subseteq> set ups \<and>
     (\<forall>up \<in> set ups. sl_phase s (st_key up) = Pending \<longleftrightarrow> up \<in> set (sl_todo s)) \<and>
     (\<forall>kb \<in> set (sl_released s). sl_phase s (fst kb) \<noteq> Pending)"

lemma sl_phase_simps [simp]:
  "sl_phase (slice_release kbs s) = sl_phase s" "sl_phase (slice_phase k p s) = (sl_phase s)(k := p)"
  "sl_todo (slice_release kbs s) = sl_todo s" "sl_todo (slice_phase k p s) = sl_todo s"
  "sl_released (slice_release kbs s) = sl_released s @ kbs" "sl_released (slice_phase k p s) = sl_released s"
  by (simp_all add: slice_release_def slice_phase_def)

lemma slice_release_Nil [simp]: "slice_release [] s = s"
  by (simp add: slice_release_def)

lemma slice_inv_todo [simp]: "slice_inv ups (s\<lparr>sl_todo := todo\<rparr>) = slice_inv ups s"
  by (simp add: slice_inv_def)

lemma todo_head:
  assumes "todo_inv ups s" "sl_todo s = up # todo"
  shows "up \<in> set ups" "sl_phase s (st_key up) = Pending" "(st_key up, b) \<notin> set (sl_released s)"
  using assms by (fastforce simp: todo_inv_def)+

lemma todo_inv_next:
  assumes d: "distinct (map st_key ups)" and inv: "todo_inv ups s" and t: "sl_todo s = up # todo"
    and p: "p \<noteq> Pending" and k: "\<forall>kb \<in> set kbs. fst kb = st_key up"
  shows "todo_inv ups (slice_release kbs (slice_phase (st_key up) p (s\<lparr>sl_todo := todo\<rparr>)))"
proof -
  have "v = up" if "v \<in> set ups" "st_key v = st_key up" for v
    using d that todo_head(1) [OF inv t] by (auto simp: distinct_map inj_on_def)
  then show ?thesis using inv t p k by (auto simp: todo_inv_def)
qed

lemma todo_inv_other:
  assumes inv: "todo_inv ups s" and up: "up \<in> set ups" "sl_phase s (st_key up) \<noteq> Pending"
    and p: "p \<noteq> Pending" and k: "\<forall>kb \<in> set kbs. fst kb = st_key up"
  shows "todo_inv ups (slice_release kbs (slice_phase (st_key up) p s))"
proof -
  have "sl_phase s (st_key v) = Pending \<longleftrightarrow> v \<in> set (sl_todo s)" if "v \<in> set ups" for v
    using inv that by (simp add: todo_inv_def)
  moreover have "st_key v \<noteq> st_key up" if "v \<in> set ups" "v \<in> set (sl_todo s)" for v
    using calculation that up(2) by metis
  ultimately show ?thesis using inv p k by (auto simp: todo_inv_def)
qed

lemma todo_inv_phase:
  assumes inv: "todo_inv ups s" and up: "up \<in> set ups" "sl_phase s (st_key up) \<noteq> Pending" and p: "p \<noteq> Pending"
  shows "todo_inv ups (slice_phase (st_key up) p s)"
  using todo_inv_other [OF assms, of "[]"] by simp

lemma todo_step:
  assumes d: "distinct (map st_key ups)"
  shows "slice_step cond compile ups s t \<Longrightarrow> slice_inv ups s \<Longrightarrow> todo_inv ups s \<Longrightarrow> todo_inv ups t"
proof (induction rule: slice_step.induct)
  case (sl_skip s up todo)
  then show ?case by (intro todo_inv_next [OF d]) auto
next
  case (sl_launch s up todo)
  then show ?case
    using todo_inv_next [OF d, of s up todo "Waiting (st_After up, True)" "[]"] by simp
next
  case (sl_event up s hooks e hooks' acts)
  then have "\<forall>h \<in> set hooks. hook_key (st_key up) h" using slice_invD [of ups s up] by (auto simp: phase_ok_def)
  with sl_event show ?case using hook_key_all(2) by (intro todo_inv_other) auto
qed (auto intro!: todo_inv_other todo_inv_phase)

lemma slice_step_inv:
  assumes d: "distinct (map st_key ups)"
  shows "slice_step cond compile ups s t \<Longrightarrow> slice_inv ups s \<Longrightarrow> todo_inv ups s \<Longrightarrow> slice_inv ups t"
proof (induction rule: slice_step.induct)
  case (sl_skip s up todo)
  then show ?case
    using todo_head [OF sl_skip(4,1)] by (intro slice_inv_update [OF d]) (auto simp: phase_ok_def)
next
  case (sl_launch s up todo)
  then show ?case
    using todo_head [OF sl_launch(4,1)]
    by (intro slice_inv_phase [OF d]) (auto simp: phase_ok_def passed_ok_def)
next
  case (sl_wait up s w w')
  have "passed_ok (sl_released s) (map st_key ups) (st_After up) w"
    using slice_invD [OF sl_wait(4) sl_wait(1)] sl_wait(2) by (simp add: phase_ok_def)
  then have "passed_ok (sl_released s) (map st_key ups) (st_After up) w'"
    using sl_wait passed_ok_step [of "sl_machine s" "sl_released s" "map st_key ups"]
    by (auto simp: slice_inv_def)
  then show ?case
    using sl_wait by (intro slice_inv_phase [OF d]) (auto simp: phase_ok_def slice_inv_def)
next
  case (sl_refuse up s)
  then show ?case
    by (intro slice_inv_update [OF d]) (auto simp: phase_ok_def slice_inv_def)
next
  case (sl_run up s)
  have "passed_ok (sl_released s) (map st_key ups) (st_After up) ([], True)"
    using slice_invD [OF sl_run(3) sl_run(1)] sl_run(2) by (simp add: phase_ok_def)
  then have "phase_ok (map st_key ups) up (sl_released s) (Started (slice_hooks up))"
    using hook_key_slice by (auto simp: phase_ok_def passed_ok_def)
  then show ?case
    using sl_run by (intro slice_inv_phase [OF d]) auto
next
  case (sl_run_error up s)
  then show ?case
    by (intro slice_inv_update [OF d]) (auto simp: phase_ok_def slice_inv_def)
next
  case (sl_event up s hooks e hooks' acts)
  have ok: "phase_ok (map st_key ups) up (sl_released s) (Started hooks)"
    using sl_event by (auto simp: slice_inv_def)
  then have k: "\<forall>h \<in> set hooks. hook_key (st_key up) h" by (simp add: phase_ok_def)
  note a = hook_key_all [OF k sl_event(3)]
  have "phase_ok (map st_key ups) up (sl_released s @ acts) (Started hooks')"
    using ok a(1) by (auto simp: phase_ok_def)
  then show ?case
    using sl_event a(2) by (intro slice_inv_update [OF d]) auto
qed

lemma slice_reachable_inv:
  assumes "distinct (map st_key ups)"
  shows "slice_reachable cond compile ups s \<Longrightarrow> slice_inv ups s \<and> todo_inv ups s"
proof (induction rule: slice_reachable.induct)
  case slice_start
  show ?case using assms by (simp add: slice_inv_def todo_inv_def slice_init_def phase_ok_def)
next
  case (slice_more s t)
  then show ?case using slice_step_inv [OF assms] todo_step [OF assms] by blast
qed

text \<open>The dependencies inside a slice, as the services wait for them.\<close>

definition slice_dep :: "startup list \<Rightarrow> (string \<times> string) set" where
  "slice_dep ups = {(a, st_key up) | a up. up \<in> set ups \<and> a \<in> set (st_After up) \<and> a \<in> st_key ` set ups}"

lemma wf_slice_dep: "acyclic (slice_dep ups) \<Longrightarrow> wf (slice_dep ups)"
proof (rule finite_acyclic_wf)
  have "slice_dep ups \<subseteq> st_key ` set ups \<times> st_key ` set ups" by (auto simp: slice_dep_def)
  then show "finite (slice_dep ups)" by (rule finite_subset) simp
qed

lemma wf_minimal: "wf r \<Longrightarrow> Q \<noteq> {} \<Longrightarrow> \<exists>z \<in> Q. \<forall>y. (y, z) \<in> r \<longrightarrow> y \<notin> Q"
  by (auto simp: wf_eq_minimal)

text \<open>A service whose key is not released: it waits for another one, can move, or runs unreported.\<close>

definition can_move ::
  "(startup \<rightharpoonup> bool) \<Rightarrow> (string \<Rightarrow> (string \<Rightarrow> bool) option) \<Rightarrow> startup list \<Rightarrow> slice_sys \<Rightarrow> string \<Rightarrow> bool" where
  "can_move cond compile ups s k \<longleftrightarrow>
     (\<exists>t. slice_step cond compile ups s t \<and> sl_phase t k \<noteq> sl_phase s k)"

lemma can_moveI: "slice_step cond compile ups s t \<Longrightarrow> sl_phase t k \<noteq> sl_phase s k \<Longrightarrow> can_move cond compile ups s k"
  by (auto simp: can_move_def)

lemma todo_can_move:
  assumes "todo_inv ups s" "sl_todo s = up # todo" "cond up \<noteq> None"
  shows "can_move cond compile ups s (st_key up)"
proof -
  note p = todo_head(2) [OF assms(1,2)]
  show ?thesis
  proof (cases "cond up")
    case (Some b)
    then show ?thesis
    proof (cases b)
      case True
      then have "cond up = Some True" using Some by simp
      from can_moveI [OF sl_launch [where cond = cond and up = up, OF assms(2) this]] show ?thesis by (simp add: p)
    next
      case False
      then have "cond up = Some False" using Some by simp
      from can_moveI [OF sl_skip [where cond = cond and up = up, OF assms(2) this]] show ?thesis by (simp add: p)
    qed
  qed (use assms(3) in simp)
qed

lemma unreleased_cases:
  assumes inv: "slice_inv ups s" and up: "up \<in> set ups" and r: "released (sl_machine s) (st_key up) = None"
    and np: "sl_phase s (st_key up) \<noteq> Pending"
  shows "(\<exists>hooks. sl_phase s (st_key up) = Started hooks) \<or> can_move cond compile ups s (st_key up) \<or>
    (\<exists>a. (a, st_key up) \<in> slice_dep ups \<and> released (sl_machine s) a = None)"
proof (cases "sl_phase s (st_key up)")
  case Pending
  then show ?thesis using np by simp
next
  case (Waiting w)
  obtain ks b where w: "w = (ks, b)" by fastforce
  show ?thesis
  proof (cases ks)
    case Nil
    then have ph: "sl_phase s (st_key up) = Waiting ([], b)" using Waiting w by simp
    have "can_move cond compile ups s (st_key up)"
    proof (cases b)
      case True
      show ?thesis by (rule can_moveI [OF sl_run [OF up]]) (simp_all add: ph True)
    next
      case False
      show ?thesis by (rule can_moveI [OF sl_refuse [OF up]]) (simp_all add: ph False)
    qed
    then show ?thesis by blast
  next
    case (Cons k rest)
    show ?thesis
    proof (cases "Wait_step (sl_machine s) w")
      case None
      have m: "sl_machine s = fold wm.rel (sl_released s) (newStateMachine (map st_key ups))"
        using inv by (simp add: slice_inv_def)
      have "k \<in> dom (sl_machine s)" "released (sl_machine s) k = None"
        using None Wait_step_blocks [of "sl_machine s" ks b] w Cons by auto
      moreover have "k \<in> set (st_After up)"
        using slice_invD [OF inv up] Waiting w Cons by (auto simp: phase_ok_def passed_ok_def)
      ultimately show ?thesis
        using up by (auto simp: slice_dep_def m wm.known_rels)
    next
      case (Some w')
      then have "w' \<noteq> w" using w Cons by (auto split: option.splits if_splits)
      then have "can_move cond compile ups s (st_key up)"
        by (intro can_moveI [OF sl_wait [OF up Waiting Some]]) (simp add: Waiting)
      then show ?thesis by blast
    qed
  qed
next
  case Skipped
  then have "st_key up \<in> fst ` set (sl_released s)" using slice_invD [OF inv up] by (simp add: phase_ok_def)
  then show ?thesis
    using r wm.opened_rels [of "st_key up" "newStateMachine (map st_key ups)" "sl_released s"] up inv
    by (auto simp: slice_inv_def map_of_eq_None_iff split: option.splits)
next
  case Refused
  then have "st_key up \<in> fst ` set (sl_released s)" using slice_invD [OF inv up] by (simp add: phase_ok_def)
  then show ?thesis
    using r wm.opened_rels [of "st_key up" "newStateMachine (map st_key ups)" "sl_released s"] up inv
    by (auto simp: slice_inv_def map_of_eq_None_iff split: option.splits)
qed blast

lemma released_key:
  assumes "slice_inv ups s" "k \<in> st_key ` set ups"
  shows "released (sl_machine s) k \<noteq> None \<longleftrightarrow> k \<in> fst ` set (sl_released s)"
proof -
  have "released (sl_machine s) k = map_of (rev (sl_released s)) k"
    using assms wm.opened_rels [of k "newStateMachine (map st_key ups)" "sl_released s"]
    by (auto simp: slice_inv_def split: option.splits)
  then show ?thesis by (simp add: map_of_eq_None_iff)
qed

text \<open>What a pass over the arguments does to a value that is not a nested map.\<close>

fun fmt :: "('v \<Rightarrow> string) \<Rightarrow> (string \<rightharpoonup> 'v) \<Rightarrow> arg \<Rightarrow> arg" where
  "fmt sh vals (AStr s) = AStr (Format sh s vals)"
| "fmt sh vals (AStrs l) = AStrs (map (\<lambda>s. Format sh s vals) l)"
| "fmt sh vals (AList l) = AList (map (format_arg sh vals) l)"
| "fmt sh vals v = v"

fun flat :: "arg \<Rightarrow> bool" where
  "flat (AMap m) = False"
| "flat v = True"

definition plain :: "string \<times> arg \<Rightarrow> bool" where
  "plain kv \<longleftrightarrow> length (splitN2 (CHR ''|'') (fst kv)) \<noteq> 2 \<and> flat (snd kv)"

lemma flat_fmt [simp]: "flat (fmt sh vals v) = flat v"
  by (cases v) auto

lemma plain_fmt [simp]: "plain (k, fmt sh vals v) = plain (k, v)"
  by (simp add: plain_def)

definition fmt_all :: "('v \<Rightarrow> string) \<Rightarrow> (string \<rightharpoonup> 'v) \<Rightarrow> (string \<times> arg) list \<Rightarrow> (string \<times> arg) list" where
  "fmt_all sh vals args = map (\<lambda>(k, v). (k, fmt sh vals v)) args"

lemma fmt_all_simps [simp]:
  "fmt_all sh vals [] = []" "fmt_all sh vals ((k, v) # args) = (k, fmt sh vals v) # fmt_all sh vals args"
  "fmt_all sh vals (xs @ ys) = fmt_all sh vals xs @ fmt_all sh vals ys"
  by (simp_all add: fmt_all_def)

lemma fst_fmt_all [simp]:
  "map fst (fmt_all sh vals args) = map fst args" "fst ` set (fmt_all sh vals args) = fst ` set args"
  by (force simp: fmt_all_def)+

lemma plain_fmt_all [simp]: "list_all plain (fmt_all sh vals args) = list_all plain args"
  by (induction args) auto

lemma map_of_middle: "k \<notin> fst ` set pre \<Longrightarrow> map_of (pre @ (k, v) # post) k = Some v"
  by (simp add: map_of_append map_add_def map_of_eq_None_iff [THEN iffD2])

lemma map_other: "k \<notin> fst ` set xs \<Longrightarrow> map (\<lambda>(k', v'). (k', if k' = k then v else v')) xs = xs"
  by (induction xs) auto

lemma put_middle:
  "distinct (map fst (pre @ (k, v) # post)) \<Longrightarrow> put k w (pre @ (k, v) # post) = pre @ (k, w) # post"
  using map_other [of k pre w] map_other [of k post w] by (auto simp: put_def)

lemma del_middle:
  assumes "distinct (map fst (pre @ (k, v) # post))"
  shows "del k (pre @ (k, v) # post) = pre @ post"
proof -
  have "filter (\<lambda>(k', v'). k' \<noteq> k) xs = xs" if "k \<notin> fst ` set xs" for xs :: "(string \<times> arg) list"
    using that by (induction xs) auto
  then show ?thesis using assms by (simp add: del_def)
qed

lemma process_plain_step:
  assumes "plain (k, v)" "distinct (map fst (pre @ (k, v) # post))"
  shows "process_keys n cn sh vals (k # ks) (pre @ (k, v) # post) =
    process_keys n cn sh vals ks (pre @ (k, fmt sh vals v) # post)"
  using assms map_of_middle [of k pre v post] put_middle [OF assms(2)]
  by (cases v) (auto simp: plain_def Let_def format_arg_def)

lemma process_plain:
  "list_all plain post \<Longrightarrow> distinct (map fst (pre @ post @ suf)) \<Longrightarrow>
   process_keys n cn sh vals (map fst post @ ks) (pre @ post @ suf) =
   process_keys n cn sh vals ks (pre @ fmt_all sh vals post @ suf)"
proof (induction post arbitrary: pre)
  case (Cons kv post)
  obtain k v where kv: "kv = (k, v)" by fastforce
  have "process_keys n cn sh vals (k # map fst post @ ks) (pre @ (k, v) # post @ suf) =
      process_keys n cn sh vals (map fst post @ ks) ((pre @ [(k, fmt sh vals v)]) @ post @ suf)"
    using process_plain_step [of k v pre "post @ suf"] Cons.prems kv by simp
  also have "\<dots> = process_keys n cn sh vals ks ((pre @ [(k, fmt sh vals v)]) @ fmt_all sh vals post @ suf)"
    using Cons.prems kv by (intro Cons.IH) auto
  finally show ?case by (simp add: kv del: process_keys.simps)
qed simp

lemma process_conditional:
  assumes "map_of A key = Some v" "splitN2 (CHR ''|'') key = [c, k]" "flat v"
  shows "process_keys n cn sh vals (key # ks) A =
    (case condition_value cn vals (trimSpace c) of
       None \<Rightarrow> None
     | Some (Inl err) \<Rightarrow> process_keys n cn sh vals ks A
     | Some (Inr b) \<Rightarrow> process_keys n cn sh vals ks
         (if b then (case v of AOther i \<Rightarrow> del key A | _ \<Rightarrow> put (trimSpace k) (fmt sh vals v) (del key A))
          else del key A))"
  using assms by (cases v) (auto simp: format_arg_def split: option.splits sum.splits bool.splits)

lemma processArgs_plain:
  assumes "list_all plain args" "distinct (map fst args)"
  shows "processArgs (Suc n) cn sh vals args = Some (fmt_all sh vals args)"
  using process_plain [OF assms(1), of "[]" "[]" n cn sh vals "[]"] assms(2) by simp

text \<open>The entries a pass leaves for one conditional argument.\<close>

definition conditional_entry ::
  "nat \<Rightarrow> ('v \<Rightarrow> string) \<Rightarrow> (string \<rightharpoonup> 'v) \<Rightarrow> string \<Rightarrow> arg \<Rightarrow> (string \<times> arg) list" where
  "conditional_entry cn sh vals k v =
     (case v of AOther i \<Rightarrow> [] | _ \<Rightarrow> [(trimSpace k, fmt sh vals v)])"

section \<open>Properties\<close>

text \<open>
  Arguments of a service.  A pass over the arguments formats every plain argument in
  place.  An argument whose key is \<^verbatim>\<open>cond | name\<close> is kept under \<open>name\<close> when the condition holds
  and dropped when it does not; it stays as it is when the condition does not parse.  A value
  that is neither a string, a list nor a map is lost under a conditional key even when the condition holds,
  and since the environment is consulted first, an argument whose condition names a kernel parameter that
  is not an environment variable is dropped whatever the kernel command line says.
\<close>

theorem conditional_argument:
  assumes "list_all plain (xs @ ys)" "distinct (map fst (xs @ (key, v) # ys))" "flat v"
    and "splitN2 (CHR ''|'') key = [c, k]" "trimSpace k \<notin> fst ` set (xs @ ys)"
  shows "processArgs (Suc n) cn sh vals (xs @ (key, v) # ys) =
     (let f = fmt_all sh vals
      in case condition_value cn vals (trimSpace c) of
           None \<Rightarrow> None
         | Some (Inl err) \<Rightarrow> Some (f xs @ (key, v) # f ys)
         | Some (Inr b) \<Rightarrow> Some (f xs @ f ys @ (if b then conditional_entry cn sh vals k v else []))) \<and>
    (condition_value cn vals (trimSpace c) = Some (Inr False) \<longrightarrow>
       slice_args (Suc n) cn sh vals cmdline (xs @ (key, v) # ys) =
         Some (fmt_all sh cmdline (fmt_all sh vals (xs @ ys))))"
proof -
  let ?f = "fmt_all sh vals"
  have pl: "list_all plain xs" "list_all plain ys" using assms(1) by simp_all
  have d: "distinct (map fst (?f xs @ (key, v) # ys))" using assms(2) by simp
  have start: "processArgs (Suc n) cn sh vals (xs @ (key, v) # ys) =
      process_keys n cn sh vals (key # map fst ys) (?f xs @ (key, v) # ys)"
    using process_plain [OF pl(1), of "[]" "(key, v) # ys" n cn sh vals "key # map fst ys"] assms(2) by simp
  have look: "map_of (?f xs @ (key, v) # ys) key = Some v" using d by (intro map_of_middle) auto
  have skip: "process_keys n cn sh vals (map fst ys) (pre @ ys @ suf) = Some (pre @ ?f ys @ suf)"
    if "distinct (map fst (pre @ ys @ suf))" for pre suf
    using process_plain [OF pl(2) that, of n cn sh vals "[]"] by simp
  have new: "put (trimSpace k) w (?f xs @ ys) = ?f xs @ ys @ [(trimSpace k, w)]" for w
    using assms(5) by (simp add: put_def image_Un)
  have d2: "distinct (map fst (?f xs @ ys @ [(trimSpace k, w)]))" "distinct (map fst ((?f xs @ [(key, v)]) @ ys @ []))"
    "distinct (map fst (?f xs @ ys @ []))" for w
    using assms(2,5) by auto
  note sk = skip [OF d2(1)] skip [OF d2(2)] skip [OF d2(3)]
  have pass: "processArgs (Suc n) cn sh vals (xs @ (key, v) # ys) =
     (case condition_value cn vals (trimSpace c) of
           None \<Rightarrow> None
         | Some (Inl err) \<Rightarrow> Some (?f xs @ (key, v) # ?f ys)
         | Some (Inr b) \<Rightarrow> Some (?f xs @ ?f ys @ (if b then conditional_entry cn sh vals k v else [])))"
    unfolding start process_conditional [OF look assms(4,3)] del_middle [OF d] new
    using sk by (cases v) (auto simp: conditional_entry_def split: option.splits sum.splits)
  moreover have "slice_args (Suc n) cn sh vals cmdline (xs @ (key, v) # ys) =
         Some (fmt_all sh cmdline (fmt_all sh vals (xs @ ys)))"
    if "condition_value cn vals (trimSpace c) = Some (Inr False)"
  proof -
    have "list_all plain (?f (xs @ ys))" using assms(1) by simp
    moreover have "distinct (map fst (?f (xs @ ys)))" using assms(2) by simp
    ultimately show ?thesis
      using pass that processArgs_plain [of "?f (xs @ ys)" n cn sh cmdline]
      by (simp add: slice_args_def)
  qed
  ultimately show ?thesis by (simp add: Let_def)
qed

theorem conditional_argument_witness:
  "slice_args 1 9 id Map.empty [''zerotier'' \<mapsto> ''abc''] [(''name'', AStr ''x''), (''zerotier|port'', AOther 80)] =
     Some [(''name'', AStr ''x'')]"
proof -
  have c: "condition_value 9 (Map.empty :: string \<rightharpoonup> string) (trimSpace ''zerotier'') = Some (Inr False)"
    by (simp add: condition_value_def trimSpace_def) code_simp
  have "splitN2 (CHR ''|'') ''zerotier|port'' = [''zerotier'', ''port'']" by code_simp
  moreover have "plain (''name'', AStr ''x'')" unfolding plain_def by code_simp
  moreover have "trimSpace ''port'' = ''port''" by code_simp
  moreover have "Format id ''x'' (Map.empty :: string \<rightharpoonup> string) = ''x''" by code_simp
  moreover have "Format id ''x'' [''zerotier'' \<mapsto> ''abc''] = ''x''" by code_simp
  ultimately show ?thesis
    using conditional_argument [of "[(''name'', AStr ''x'')]" "[]" "''zerotier|port''" "AOther 80" "''zerotier''"
        "''port''" 0 9 id Map.empty "[''zerotier'' \<mapsto> ''abc'']"] c by simp
qed


definition sampleSlice :: "startup list" where
  "sampleSlice = [(sampleService [])\<lparr>st_key := ''a''\<rparr>, (sampleService [''a''])\<lparr>st_key := ''b''\<rparr>]"

definition serviceA :: startup where "serviceA = sampleSlice ! 0"
definition serviceB :: startup where "serviceB = sampleSlice ! 1"

lemma sampleSlice_eq: "sampleSlice = [serviceA, serviceB]"
  by (simp add: serviceA_def serviceB_def sampleSlice_def)

lemma service_simps [simp]:
  "st_key serviceA = ''a''" "st_key serviceB = ''b''" "st_After serviceA = []" "st_After serviceB = [''a'']"
  by (simp_all add: serviceA_def serviceB_def sampleSlice_def sampleService_def)

lemma serviceA_exits:
  "\<exists>hooks. all_hooks (hook_on c (Exited (Some StateSuccess))) (slice_hooks serviceA) = (hooks, [(''a'', True)])"
  by (simp add: slice_hooks_def all_hooks_def serviceA_def sampleSlice_def sampleService_def ExitHook_Exit_def)

text \<open>Service a is started and exits successfully, then b passes its wait and is started.\<close>

lemma sampleSlice_runs:
  "\<exists>s. slice_reachable (\<lambda>up. Some True) c sampleSlice s \<and> sl_phase s ''b'' = Started (slice_hooks serviceB)"
proof -
  let ?r = "slice_reachable (\<lambda>up. Some True) c sampleSlice"
  let ?cond = "\<lambda>up::startup. Some True"
  have in_slice: "serviceA \<in> set sampleSlice" "serviceB \<in> set sampleSlice" by (simp_all add: sampleSlice_eq)
  define s1 where "s1 = slice_phase ''a'' (Waiting ([], True)) ((slice_init sampleSlice)\<lparr>sl_todo := [serviceB]\<rparr>)"
  have "?r s1"
    using slice_more [OF slice_start sl_launch [where cond = ?cond and up = serviceA and todo = "[serviceB]"]]
    by (simp add: s1_def slice_init_def sampleSlice_eq)
  define s2 where "s2 = slice_phase ''a'' (Started (slice_hooks serviceA)) s1"
  have "?r s2" using slice_more [OF \<open>?r s1\<close> sl_run [OF in_slice(1)]] by (simp add: s2_def s1_def)
  obtain hooks where h: "all_hooks (hook_on c (Exited (Some StateSuccess))) (slice_hooks serviceA) = (hooks, [(''a'', True)])"
    using serviceA_exits by blast
  define s3 where "s3 = slice_release [(''a'', True)] (slice_phase ''a'' (Started hooks) s2)"
  have "?r s3" using slice_more [OF \<open>?r s2\<close> sl_event [OF in_slice(1) _ h]] by (simp add: s3_def s2_def)
  define s4 where "s4 = slice_phase ''b'' (Waiting ([''a''], True)) (s3\<lparr>sl_todo := []\<rparr>)"
  have "?r s4"
    using slice_more [OF \<open>?r s3\<close> sl_launch [where cond = ?cond and up = serviceB and todo = "[]"]]
    by (simp add: s4_def s3_def s2_def s1_def)
  have "Wait_step (sl_machine s4) ([''a''], True) = Some ([], True)"
    by (simp add: s4_def s3_def s2_def s1_def slice_init_def slice_release_def slice_phase_def wm.rel_def
        Release_def newStateMachine_eq sampleSlice_eq)
  define s5 where "s5 = slice_phase ''b'' (Waiting ([], True)) s4"
  have "?r s5"
    using slice_more [OF \<open>?r s4\<close> sl_wait [OF in_slice(2) _ \<open>Wait_step _ _ = _\<close>]] by (simp add: s5_def s4_def)
  have "?r (slice_phase ''b'' (Started (slice_hooks serviceB)) s5)"
    using slice_more [OF \<open>?r s5\<close> sl_run [OF in_slice(2)]] by (simp add: s5_def)
  moreover have "sl_phase (slice_phase ''b'' (Started (slice_hooks serviceB)) s5) ''b'' = Started (slice_hooks serviceB)"
    by (simp only: sl_phase_simps fun_upd_same)
  ultimately show ?thesis by blast
qed


text \<open>
  C4. A slice boots: when no service of the slice waits for itself through the
  others and every condition can be evaluated, then as long as \<^verbatim>\<open>WaitAll\<close> still blocks, some
  service whose key is not released can take a step that changes what it does, or has been started and has
  not reported yet.  No interleaving leaves the slice stuck.
\<close>

theorem slice_progress:
  assumes d: "distinct (map st_key ups)" and ac: "acyclic (slice_dep ups)" and c: "\<forall>up \<in> set ups. cond up \<noteq> None"
    and r: "slice_reachable cond compile ups s" and b: "WaitAll (sl_machine s) (map st_key ups) = None"
  shows "\<exists>up \<in> set ups. released (sl_machine s) (st_key up) = None \<and>
    ((\<exists>hooks. sl_phase s (st_key up) = Started hooks) \<or> can_move cond compile ups s (st_key up))"
proof (cases "sl_todo s")
  case (Cons up todo)
  have inv: "slice_inv ups s" "todo_inv ups s" using slice_reachable_inv [OF d r] by auto
  note h = todo_head [OF inv(2) Cons]
  have "st_key up \<notin> fst ` set (sl_released s)" using h(3) by (auto simp: image_iff)
  then have "released (sl_machine s) (st_key up) = None" using h(1) released_key [OF inv(1), of "st_key up"] by auto
  then show ?thesis using todo_can_move [OF inv(2) Cons] c h(1) by blast
next
  case Nil
  have inv: "slice_inv ups s" "todo_inv ups s" using slice_reachable_inv [OF d r] by auto
  let ?U = "{k \<in> st_key ` set ups. released (sl_machine s) k = None}"
  have "?U \<noteq> {}" using b by (auto simp: WaitAll_eq split: if_splits)
  with wf_slice_dep [OF ac] have "\<exists>k \<in> ?U. \<forall>a. (a, k) \<in> slice_dep ups \<longrightarrow> a \<notin> ?U" by (rule wf_minimal)
  then obtain k where k: "k \<in> ?U" "\<forall>a. (a, k) \<in> slice_dep ups \<longrightarrow> a \<notin> ?U" by (rule bexE)
  then obtain up where up: "up \<in> set ups" "st_key up = k" "released (sl_machine s) (st_key up) = None" by auto
  have "\<not> (\<exists>a. (a, st_key up) \<in> slice_dep ups \<and> released (sl_machine s) a = None)"
    using k(2) up(2) by (auto simp: slice_dep_def)
  moreover have "sl_phase s (st_key up) \<noteq> Pending" using inv(2) up(1) Nil by (simp add: todo_inv_def)
  ultimately show ?thesis using unreleased_cases [OF inv(1) up(1,3)] up by blast
qed

lemma sampleSlice_dep: "slice_dep sampleSlice = {(''a'', ''b'')}"
proof -
  have "slice_dep sampleSlice = (\<Union>up \<in> set sampleSlice. (set (st_After up) \<inter> st_key ` set sampleSlice) \<times> {st_key up})"
    by (auto simp: slice_dep_def)
  then show ?thesis by (simp add: sampleSlice_def sampleService_def)
qed

lemma acyclic_empty: "acyclic {}"
  by (simp add: acyclic_def)

theorem slice_progress_witness:
  "\<exists>up \<in> set sampleSlice. can_move (\<lambda>up. Some True) (\<lambda>p. None) sampleSlice (slice_init sampleSlice) (st_key up)"
proof -
  have 1: "distinct (map st_key sampleSlice)" by (simp add: sampleSlice_def)
  have 2: "acyclic (slice_dep sampleSlice)" by (simp add: sampleSlice_dep acyclic_insert acyclic_empty)
  have 3: "WaitAll (sl_machine (slice_init sampleSlice)) (map st_key sampleSlice) = None"
    by (auto simp: WaitAll_eq slice_init_def sampleSlice_def)
  show ?thesis
    using slice_progress [OF 1 2 _ slice_start [of "\<lambda>up. Some True" "\<lambda>p. None"] 3] by (auto simp: slice_init_def)
qed

end
