(* ===== verification/Go_Net.thy ===== *)
theory Go_Net
  imports Prelude
begin

text \<open>
  What the sources use of Go's \<^verbatim>\<open>net\<close> package for IPv4: parsing and printing of addresses and
  of networks, masks and containment.  An address is its 32 bits.
\<close>

type_synonym ip4 = u32

text \<open>The byte \<open>i\<close> of an address, the most significant first.\<close>

definition octet :: "ip4 \<Rightarrow> nat \<Rightarrow> nat" where
  "octet a i = unat (drop_bit (8 * (3 - i)) a) mod 256"

definition ofOctets :: "nat \<Rightarrow> nat \<Rightarrow> nat \<Rightarrow> nat \<Rightarrow> ip4" where
  "ofOctets a b c d = of_nat (((a * 256 + b) * 256 + c) * 256 + d)"

definition isByte :: "string \<Rightarrow> bool" where
  "isByte s \<longleftrightarrow> s \<noteq> [] \<and> list_all isDigit s \<and> atoi s \<le> 255"

text \<open>\<^verbatim>\<open>net.ParseIP\<close> on a dotted address; \<^const>\<open>None\<close> is Go's nil.\<close>

definition parseIPv4 :: "string \<Rightarrow> ip4 option" where
  "parseIPv4 s =
     (case split (CHR ''.'') s of
        [a, b, c, d] \<Rightarrow>
          if isByte a \<and> isByte b \<and> isByte c \<and> isByte d then Some (ofOctets (atoi a) (atoi b) (atoi c) (atoi d)) else None
      | _ \<Rightarrow> None)"

definition IP_String :: "ip4 \<Rightarrow> string" where
  "IP_String a = join ''.'' (map (\<lambda>i. itoa (octet a i)) [0, 1, 2, 3])"

text \<open>\<^verbatim>\<open>net.CIDRMask(n, 32)\<close>; \<^const>\<open>None\<close> when the length is out of range.\<close>

definition CIDRMask :: "int \<Rightarrow> ip4 option" where
  "CIDRMask n = (if 0 \<le> n \<and> n \<le> 32 then Some (NOT (mask (32 - nat n))) else None)"

record ipnet =
  net_IP :: ip4
  net_Len :: nat

definition net_Mask :: "ipnet \<Rightarrow> ip4" where
  "net_Mask n = NOT (mask (32 - net_Len n))"

definition IPNet_String :: "ipnet \<Rightarrow> string" where
  "IPNet_String n = IP_String (net_IP n) @ ''/'' @ itoa (net_Len n)"

text \<open>\<^verbatim>\<open>net.ParseCIDR\<close>: the address and its network.\<close>

definition ParseCIDR :: "string \<Rightarrow> (ip4 \<times> ipnet) option" where
  "ParseCIDR s =
     (case splitN2 (CHR ''/'') s of
        [addr, len] \<Rightarrow>
          (case parseIPv4 addr of
             None \<Rightarrow> None
           | Some ip \<Rightarrow>
               if len \<noteq> [] \<and> list_all isDigit len \<and> atoi len \<le> 32
               then Some (ip, \<lparr>net_IP = ip AND NOT (mask (32 - atoi len)), net_Len = atoi len\<rparr>)
               else None)
      | _ \<Rightarrow> None)"

text \<open>\<^verbatim>\<open>IPNet.Contains\<close> for the network of an address and a mask.\<close>

definition net_Contains :: "ip4 \<Rightarrow> ip4 option \<Rightarrow> ip4 \<Rightarrow> bool" where
  "net_Contains nip m ip = (case m of None \<Rightarrow> False | Some k \<Rightarrow> nip AND k = ip AND k)"

section \<open>Lemmas\<close>

lemma octet_bound: "octet a i < 256"
  by (simp add: octet_def)

lemma isByte_itoa: "n < 256 \<Longrightarrow> isByte (itoa n)"
  by (simp add: isByte_def itoa_digits)

lemma nat_octets: "n = ((n div 16777216 * 256 + n div 65536 mod 256) * 256 + n div 256 mod 256) * 256 + n mod (256 :: nat)"
proof -
  have "n div 65536 = n div 16777216 * 256 + n div 65536 mod 256"
    using div_mult_mod_eq [of "n div 65536" 256] by (simp add: div_mult2_eq [symmetric])
  moreover have "n div 256 = n div 65536 * 256 + n div 256 mod 256"
    using div_mult_mod_eq [of "n div 256" 256] by (simp add: div_mult2_eq [symmetric])
  ultimately show ?thesis using div_mult_mod_eq [of n 256] by simp
qed

lemma octet_eq:
  "octet a 0 = unat a div 16777216" "octet a 1 = unat a div 65536 mod 256"
  "octet a 2 = unat a div 256 mod 256" "octet a 3 = unat a mod 256"
proof -
  have "unat a < 2 ^ 32" using unsigned_less [of a] by simp
  then have "unat a div 16777216 < 256" by (simp add: less_mult_imp_div_less)
  then show "octet a 0 = unat a div 16777216" unfolding octet_def unat_drop_bit_eq by (simp add: drop_bit_eq_div)
qed (simp_all only: octet_def unat_drop_bit_eq, simp_all add: drop_bit_eq_div)

lemma ofOctets_octet: "ofOctets (octet a 0) (octet a 1) (octet a 2) (octet a 3) = a"
  unfolding ofOctets_def octet_eq nat_octets [of "unat a", symmetric] by simp

lemma no_dot: "list_all isDigit s \<Longrightarrow> CHR ''.'' \<notin> set s"
  by (rule digit_not_in) (simp_all add: isDigit_def)

lemma parseIPv4_String [simp]: "parseIPv4 (IP_String a) = Some a"
proof -
  have "split (CHR ''.'') (IP_String a) = map (\<lambda>i. itoa (octet a i)) [0, 1, 2, 3]"
    unfolding IP_String_def by (rule split_join) (auto simp: no_dot itoa_digits)
  then show ?thesis
    by (simp add: parseIPv4_def isByte_itoa octet_bound ofOctets_octet [unfolded One_nat_def])
qed

lemma IP_String_chars: "c \<in> set (IP_String a) \<Longrightarrow> isDigit c \<or> c = CHR ''.''"
  using itoa_digits by (fastforce simp: IP_String_def list_all_iff)

lemma IP_String_not_in: "\<not> isDigit c \<Longrightarrow> c \<noteq> CHR ''.'' \<Longrightarrow> c \<notin> set (IP_String a)"
  using IP_String_chars by blast

lemma ParseCIDR_String:
  assumes "net_IP n AND NOT (mask (32 - net_Len n)) = net_IP n" "net_Len n \<le> 32"
  shows "ParseCIDR (IPNet_String n) = Some (net_IP n, n)"
proof -
  have "CHR ''/'' \<notin> set (IP_String (net_IP n))" by (rule IP_String_not_in) (simp_all add: isDigit_def)
  then have "splitN2 (CHR ''/'') (IPNet_String n) = [IP_String (net_IP n), itoa (net_Len n)]"
    using splitN2_sep by (simp add: IPNet_String_def)
  then show ?thesis using assms by (simp add: ParseCIDR_def itoa_digits)
qed

end
