(* ===== verification/Nft_Rules.thy ===== *)
theory Nft_Rules
  imports Go_Json Go_Net Pm_Command
begin

text \<open>
  \<^verbatim>\<open>base/nft\<close>: \<^verbatim>\<open>types.go\<close> (rule sets and their text), \<^verbatim>\<open>filter.go\<close> (the filters that select
  rules of the listing of \<^verbatim>\<open>nft\<close>) and \<^verbatim>\<open>parser.go\<close> (the listing, and the text of its rules).
  A Go map is the list of its entries in the order the runtime visits them.
\<close>

section \<open>Rule sets\<close>

datatype nft_error = NftErr string | JsonErr | SysErr go_error | Panicked

record nft_set =
  set_Elements :: "string list"

record nft_chain =
  chain_Type :: string
  chain_Hook :: string
  chain_Priority :: int
  chain_Policy :: string
  chain_Rules :: "string list"

record nft_table =
  table_Family :: string
  table_Chains :: "(string \<times> nft_chain) list"
  table_Sets :: "(string \<times> nft_set) list"

type_synonym nft = "(string \<times> nft_table) list"

definition FamilyIP :: string where "FamilyIP = ''ip''"
definition FamilyINET :: string where "FamilyINET = ''inet''"
definition TypeSkipCreate :: string where "TypeSkipCreate = []"

definition tab :: string where "tab = [CHR 0x09]"
definition nl :: string where "nl = [CHR 0x0A]"

text \<open>The loop over the elements of a set, from element \<open>i\<close> of \<open>n\<close> on.\<close>

fun set_elements :: "nat \<Rightarrow> nat \<Rightarrow> string list \<Rightarrow> string" where
  "set_elements n i [] = []"
| "set_elements n i (elem # rest) =
     '' '' @ elem @
     (if i \<noteq> n - 1
      then '','' @ (if i \<noteq> 0 \<and> i mod 2 \<noteq> 0 then nl @ tab @ tab @ ''            '' else []) @ set_elements n (i + 1) rest
      else '' }'' @ nl)"

definition set_marshal :: "nft_set \<Rightarrow> string \<Rightarrow> string" where
  "set_marshal s name =
     tab @ ''set '' @ name @ '' {'' @ nl @ tab @ tab @ ''type ipv4_addr'' @ nl @
     (if length (set_Elements s) > 0
      then tab @ tab @ ''elements = {'' @ set_elements (length (set_Elements s)) 0 (set_Elements s)
      else []) @
     tab @ ''}'' @ nl"

definition chain_marshal :: "nft_chain \<Rightarrow> string \<Rightarrow> string" where
  "chain_marshal c name =
     tab @ ''chain '' @ name @ '' {'' @ nl @
     (if chain_Type c \<noteq> TypeSkipCreate
      then tab @ tab @ ''type '' @ chain_Type c @ '' hook '' @ chain_Hook c @ '' priority '' @
           itoaInt (chain_Priority c) @ ''; policy '' @ chain_Policy c @ '';'' @ nl
      else []) @
     concat (map (\<lambda>r. tab @ tab @ r @ nl) (chain_Rules c)) @
     tab @ ''}'' @ nl"

fun chains_marshal :: "(string \<times> nft_chain) list \<Rightarrow> nft_error + string" where
  "chains_marshal [] = Inr []"
| "chains_marshal ((name, c) # cs) =
     (if name = [] then Inl (NftErr ''empty chain name'')
      else case chains_marshal cs of Inl e \<Rightarrow> Inl e | Inr t \<Rightarrow> Inr (chain_marshal c name @ t))"

definition table_marshal :: "nft_table \<Rightarrow> string \<Rightarrow> nft_error + string" where
  "table_marshal t name =
     (if table_Family t = [] then Inl (NftErr ''family is required'')
      else case chains_marshal (table_Chains t) of
             Inl e \<Rightarrow> Inl e
           | Inr cs \<Rightarrow>
               Inr (''table '' @ table_Family t @ '' '' @ name @ '' {'' @ nl @
                    concat (map (\<lambda>(n, s). set_marshal s n) (table_Sets t)) @ cs @ ''}'' @ nl))"

fun MarshalText :: "nft \<Rightarrow> nft_error + string" where
  "MarshalText [] = Inr []"
| "MarshalText ((name, table) # ts) =
     (if name = [] then Inl (NftErr ''table name is required'')
      else case table_marshal table name of
             Inl e \<Rightarrow> Inl e
           | Inr t \<Rightarrow> (case MarshalText ts of Inl e \<Rightarrow> Inl e | Inr u \<Rightarrow> Inr (t @ u)))"

record filter_rule =
  fr_Body :: string
  fr_Handle :: int
  fr_Table :: string
  fr_Chain :: string
  fr_Family :: string

section \<open>Filters\<close>

type_synonym nft_block = "(string \<times> json) list"

record nft_rule =
  rb_Family :: string
  rb_Expresion :: "nft_block list"
  rb_Table :: string
  rb_Handle :: int
  rb_Chain :: string

datatype nft_filter =
  MarkFilter u32
| MetaMatchFilter string string
| IntMatchFilter string string u64
| NetworkMatchFilter string string ipnet
| IPMatchFilter string string ip4
| AndFilter "nft_filter list"
| OrFilter "nft_filter list"
| TableFilter string
| ChainFilter string
| FamilyFilter string

text \<open>The loops over the expressions of a rule and the entries of each.\<close>

definition some_exp :: "string \<Rightarrow> (json \<Rightarrow> bool) \<Rightarrow> nft_rule \<Rightarrow> bool" where
  "some_exp typ f rule =
     list_ex (\<lambda>exp. list_ex (\<lambda>(expType, expMessage). expType = typ \<and> f expMessage) exp) (rb_Expresion rule)"

definition matchMeta :: "u32 \<Rightarrow> json \<Rightarrow> bool" where
  "matchMeta mark exp =
     (case objectOf exp of
        None \<Rightarrow> False
      | Some es \<Rightarrow>
          (case (field_struct ''left'' es, field_uint 32 ''right'' es) of
             (Some left, Some right) \<Rightarrow>
               (case field_string ''meta'' left of
                  None \<Rightarrow> False
                | Some m \<Rightarrow> if m \<noteq> ''mark'' then False else right = unat mark)
           | _ \<Rightarrow> False))"

definition valueMatch :: "string \<Rightarrow> string \<Rightarrow> bool" where
  "valueMatch value m =
     (if \<not> hasSuffix m ''*'' then m = value else hasPrefix value (trimRight m ''*''))"

definition matchMetaExp :: "string \<Rightarrow> string \<Rightarrow> json \<Rightarrow> bool" where
  "matchMetaExp name value exp =
     (case objectOf exp of
        None \<Rightarrow> False
      | Some es \<Rightarrow>
          (case (field_struct ''left'' es, field_string ''right'' es) of
             (Some left, Some right) \<Rightarrow>
               (case field_string ''meta'' left of None \<Rightarrow> False | Some m \<Rightarrow> m = name \<and> valueMatch value right)
           | _ \<Rightarrow> False))"

text \<open>The name and field of the payload on the left of a match.\<close>

definition payload_of :: "(string \<times> json) list \<Rightarrow> (string \<times> string) option" where
  "payload_of es =
     (case field_struct ''left'' es of
        None \<Rightarrow> None
      | Some left \<Rightarrow>
          (case field_struct ''payload'' left of
             None \<Rightarrow> None
           | Some p \<Rightarrow>
               (case (field_string ''name'' p, field_string ''field'' p) of
                  (Some n, Some f) \<Rightarrow> Some (n, f)
                | _ \<Rightarrow> None)))"

definition matchIntExp :: "string \<Rightarrow> string \<Rightarrow> u64 \<Rightarrow> json \<Rightarrow> bool" where
  "matchIntExp name field val exp =
     (case objectOf exp of
        None \<Rightarrow> False
      | Some es \<Rightarrow>
          (case (payload_of es, field_uint 64 ''right'' es) of
             (Some (n, f), Some right) \<Rightarrow> n = name \<and> f = field \<and> right = unat val
           | _ \<Rightarrow> False))"

text \<open>
  A prefix: its address, nil when absent or empty, and its length; \<^const>\<open>None\<close> when the decoder rejects it.
\<close>

definition field_ip :: "string \<Rightarrow> (string \<times> json) list \<Rightarrow> ip4 option option" where
  "field_ip name es =
     (case field_string name es of
        None \<Rightarrow> None
      | Some s \<Rightarrow> if s = [] then Some None else (case parseIPv4 s of None \<Rightarrow> None | Some a \<Rightarrow> Some (Some a)))"

definition prefix_of :: "(string \<times> json) list \<Rightarrow> (ip4 option \<times> int) option" where
  "prefix_of es =
     (case field_struct ''prefix'' es of
        None \<Rightarrow> None
      | Some p \<Rightarrow>
          (case (field_ip ''addr'' p, field_int ''len'' p) of
             (Some a, Some l) \<Rightarrow> Some (a, l)
           | _ \<Rightarrow> None))"

definition matchNetworkExp :: "string \<Rightarrow> string \<Rightarrow> ipnet \<Rightarrow> json \<Rightarrow> bool" where
  "matchNetworkExp name field val exp =
     (case objectOf exp of
        None \<Rightarrow> False
      | Some es \<Rightarrow>
          (case (payload_of es, field_struct ''right'' es) of
             (Some (n, f), Some right) \<Rightarrow>
               (case prefix_of right of
                  None \<Rightarrow> False
                | Some (addr, len) \<Rightarrow> n = name \<and> f = field \<and> addr = Some (net_IP val) \<and> len = int (net_Len val))
           | _ \<Rightarrow> False))"

definition matchIPExp :: "string \<Rightarrow> string \<Rightarrow> ip4 \<Rightarrow> json \<Rightarrow> bool" where
  "matchIPExp name field val exp =
     (case objectOf exp of
        None \<Rightarrow> False
      | Some es \<Rightarrow>
          (case payload_of es of
             None \<Rightarrow> False
           | Some (n, f) \<Rightarrow>
               if n \<noteq> name \<or> f \<noteq> field then False
               else (case field_raw ''right'' es of
                       None \<Rightarrow> False
                     | Some (JStr right) \<Rightarrow> IP_String val = right
                     | Some right \<Rightarrow>
                         (case objectOf right of
                            None \<Rightarrow> False
                          | Some rs \<Rightarrow>
                              (case prefix_of rs of
                                 None \<Rightarrow> False
                               | Some (None, len) \<Rightarrow> False
                               | Some (Some addr, len) \<Rightarrow> net_Contains addr (CIDRMask len) val)))))"

text \<open>The method \<^verbatim>\<open>Match\<close> of every filter.\<close>

fun Match :: "nft_filter \<Rightarrow> nft_rule \<Rightarrow> bool" where
  "Match (MarkFilter mark) rule = some_exp ''mangle'' (matchMeta mark) rule"
| "Match (MetaMatchFilter name val) rule = some_exp ''match'' (matchMetaExp name val) rule"
| "Match (IntMatchFilter name field val) rule = some_exp ''match'' (matchIntExp name field val) rule"
| "Match (NetworkMatchFilter name field val) rule = some_exp ''match'' (matchNetworkExp name field val) rule"
| "Match (IPMatchFilter name field val) rule = some_exp ''match'' (matchIPExp name field val) rule"
| "Match (AndFilter fs) rule = (if length fs = 0 then False else list_all (\<lambda>f. Match f rule) fs)"
| "Match (OrFilter fs) rule = list_ex (\<lambda>f. Match f rule) fs"
| "Match (TableFilter t) rule = (rb_Table rule = t)"
| "Match (ChainFilter c) rule = (rb_Chain rule = c)"
| "Match (FamilyFilter f) rule = (rb_Family rule = f)"

section \<open>The text of a rule\<close>

definition hexDigit :: "nat \<Rightarrow> char" where
  "hexDigit d = ''0123456789abcdef'' ! d"

text \<open>\<^verbatim>\<open>%08x\<close> of a 32 bit number.\<close>

definition hex8 :: "nat \<Rightarrow> string" where
  "hex8 n = map (\<lambda>i. hexDigit (n div 16 ^ (7 - i) mod 16)) [0..<8]"

definition renderMangle :: "json \<Rightarrow> nft_error + string" where
  "renderMangle msg =
     (case objectOf msg of
        None \<Rightarrow> Inl JsonErr
      | Some es \<Rightarrow>
          (case (field_struct ''left'' es, field_uint 32 ''right'' es) of
             (Some left, Some right) \<Rightarrow>
               (case field_string ''meta'' left of
                  None \<Rightarrow> Inl JsonErr
                | Some m \<Rightarrow> Inr (m @ '' set 0x'' @ hex8 right))
           | _ \<Rightarrow> Inl JsonErr))"

definition renderDnat :: "json \<Rightarrow> nft_error + string" where
  "renderDnat msg =
     (case objectOf msg of
        None \<Rightarrow> Inl JsonErr
      | Some es \<Rightarrow>
          (case (field_uint 16 ''port'' es, field_string ''addr'' es) of
             (Some port, Some addr) \<Rightarrow> Inr (''dnat to '' @ addr @ '':'' @ itoa port)
           | _ \<Rightarrow> Inl JsonErr))"

definition renderLeft :: "json option \<Rightarrow> nft_error + string" where
  "renderLeft msg =
     (case msg of
        None \<Rightarrow> Inl JsonErr
      | Some j \<Rightarrow>
          (case objectOf j of
             None \<Rightarrow> Inl JsonErr
           | Some es \<Rightarrow>
               (case (field_string ''meta'' es, field_struct ''ct'' es, field_struct ''payload'' es) of
                  (Some meta, Some ct, Some payload) \<Rightarrow>
                    (case (field_string ''key'' ct, field_string ''name'' payload, field_string ''field'' payload) of
                       (Some key, Some name, Some field) \<Rightarrow>
                         Inr (if length meta > 0 then meta
                              else if length key > 0 then ''ct '' @ key
                              else if length name > 0 then name @ '' '' @ field
                              else [])
                     | _ \<Rightarrow> Inl JsonErr)
                | _ \<Rightarrow> Inl JsonErr)))"

text \<open>\<^verbatim>\<open>fmt.Sprint\<close> of a decoded value.\<close>

fun sprint_json :: "json \<Rightarrow> string" where
  "sprint_json JNull = ''<nil>''"
| "sprint_json (JBool b) = (if b then ''true'' else ''false'')"
| "sprint_json (JNum n) = sprint_float n"
| "sprint_json (JReal t) = t"
| "sprint_json (JStr s) = s"
| "sprint_json (JArr js) = ''['' @ join '' '' (map sprint_json js) @ '']''"
| "sprint_json (JObj es) = ''map['' @ join '' '' (map (\<lambda>e. fst e @ '':'' @ sprint_json (snd e)) es) @ '']''"

definition renderRight :: "json option \<Rightarrow> nft_error + string" where
  "renderRight msg =
     (case msg of
        None \<Rightarrow> Inl JsonErr
      | Some (JNum n) \<Rightarrow> Inr (sprint_float n)
      | Some (JReal t) \<Rightarrow> Inr t
      | Some (JStr r) \<Rightarrow>
          if r = [] then Inl Panicked
          else if hd r = CHR ''@'' \<or> isDigit (hd r) then Inr r
          else Inr ([CHR 0x22] @ r @ [CHR 0x22])
      | Some j \<Rightarrow>
          (case objectOf j of
             None \<Rightarrow> Inl JsonErr
           | Some es \<Rightarrow>
               (case (field_array Some ''set'' es, field_struct ''prefix'' es) of
                  (Some elems, Some pfx) \<Rightarrow>
                    (case (field_string ''addr'' pfx, field_int ''len'' pfx) of
                       (Some addr, Some len) \<Rightarrow>
                         Inr ((if length elems > 0 then ''{ '' @ join '', '' (map sprint_json elems) @ '' }'' else []) @
                              (if length addr > 0 then addr @ ''/'' @ itoaInt len else []))
                     | _ \<Rightarrow> Inl JsonErr)
                | _ \<Rightarrow> Inl JsonErr)))"

definition renderMatch :: "json \<Rightarrow> nft_error + string" where
  "renderMatch msg =
     (case objectOf msg of
        None \<Rightarrow> Inl JsonErr
      | Some es \<Rightarrow>
          (case renderLeft (field_raw ''left'' es) of
             Inl e \<Rightarrow> Inl e
           | Inr l \<Rightarrow>
               (case renderRight (field_raw ''right'' es) of
                  Inl e \<Rightarrow> Inl e
                | Inr r \<Rightarrow> Inr (l @ '' '' @ r))))"

definition renderExp :: "string \<Rightarrow> json \<Rightarrow> nft_error + string" where
  "renderExp expType message =
     (if expType = ''match'' then renderMatch message
      else if expType = ''dnat'' then renderDnat message
      else if expType = ''mangle'' then renderMangle message
      else if expType = ''masquerade'' \<or> expType = ''accept'' \<or> expType = ''drop'' then Inr expType
      else Inl (NftErr (''unknown expr type '' @ [CHR 0x27] @ expType @ [CHR 0x27])))"

fun renderRule_loop :: "string \<Rightarrow> nft_block list \<Rightarrow> nft_error + string" where
  "renderRule_loop buf [] = Inr buf"
| "renderRule_loop buf (exp # exps) =
     (case exp of
        [(expType, message)] \<Rightarrow>
          (case renderExp expType message of
             Inl e \<Rightarrow> Inl e
           | Inr t \<Rightarrow> renderRule_loop (buf @ (if length buf \<noteq> 0 then '' '' else []) @ t) exps)
      | _ \<Rightarrow> Inl (NftErr ''invalid expression''))"

definition renderRule :: "nft_block list \<Rightarrow> nft_error + string" where
  "renderRule exprs = renderRule_loop [] exprs"

section \<open>Filtering a listing\<close>

definition ruleOf :: "json \<Rightarrow> nft_rule option" where
  "ruleOf message =
     (case objectOf message of
        None \<Rightarrow> None
      | Some es \<Rightarrow>
          (case (field_string ''family'' es, field_array raw_map ''expr'' es, field_string ''table'' es,
                 field_int ''handle'' es, field_string ''chain'' es) of
             (Some family, Some exprs, Some table, Some handle, Some chain) \<Rightarrow>
               Some \<lparr>rb_Family = family, rb_Expresion = exprs, rb_Table = table, rb_Handle = handle, rb_Chain = chain\<rparr>
           | _ \<Rightarrow> None))"

text \<open>The entries of a block other than its rule are skipped.\<close>

fun filter_blocks :: "nft_filter list \<Rightarrow> nft_block list \<Rightarrow> filter_rule list \<Rightarrow> nft_error + filter_rule list" where
  "filter_blocks filters [] rules = Inr rules"
| "filter_blocks filters (block # blocks) rules =
     (case map_of block ''rule'' of
        None \<Rightarrow> filter_blocks filters blocks rules
      | Some message \<Rightarrow>
          (case ruleOf message of
             None \<Rightarrow> Inl JsonErr
           | Some rule \<Rightarrow>
               if list_ex (\<lambda>f. Match f rule) filters
               then (case renderRule (rb_Expresion rule) of
                       Inl e \<Rightarrow> Inl e
                     | Inr body \<Rightarrow>
                         filter_blocks filters blocks
                           (rules @ [\<lparr>fr_Body = body, fr_Handle = rb_Handle rule, fr_Table = rb_Table rule,
                                      fr_Chain = rb_Chain rule, fr_Family = rb_Family rule\<rparr>]))
               else filter_blocks filters blocks rules))"

text \<open>\<open>unjson\<close> reads the text of a JSON value.\<close>

definition filter_config :: "(string \<Rightarrow> json option) \<Rightarrow> string \<Rightarrow> nft_filter list \<Rightarrow> nft_error + filter_rule list" where
  "filter_config unjson config filters =
     (case unjson config of
        None \<Rightarrow> Inl JsonErr
      | Some j \<Rightarrow>
          (case objectOf j of
             None \<Rightarrow> Inl JsonErr
           | Some es \<Rightarrow>
               (case field_array raw_map ''nftables'' es of
                  None \<Rightarrow> Inl JsonErr
                | Some blocks \<Rightarrow> filter_blocks filters blocks [])))"

section \<open>Lemmas\<close>

text \<open>The rule messages of a listing, and the entry a selected rule gives.\<close>

definition rule_messages :: "nft_block list \<Rightarrow> json list" where
  "rule_messages blocks = List.map_filter (\<lambda>b. map_of b ''rule'') blocks"

definition rendered :: "nft_rule \<Rightarrow> nft_error + filter_rule" where
  "rendered rule =
     map_sum id (\<lambda>body. \<lparr>fr_Body = body, fr_Handle = rb_Handle rule, fr_Table = rb_Table rule,
       fr_Chain = rb_Chain rule, fr_Family = rb_Family rule\<rparr>) (renderRule (rb_Expresion rule))"

lemma rule_messages_simps [simp]:
  "rule_messages [] = []"
  "rule_messages (b # bs) = (case map_of b ''rule'' of None \<Rightarrow> rule_messages bs | Some m \<Rightarrow> m # rule_messages bs)"
  by (simp_all add: rule_messages_def map_filter_simps split: option.splits)

lemma filter_blocks_Inr:
  "filter_blocks fs bs rules = Inr out \<longleftrightarrow>
     (\<exists>rs new. map ruleOf (rule_messages bs) = map Some rs \<and> out = rules @ new \<and>
        map rendered (filter (\<lambda>r. list_ex (\<lambda>f. Match f r) fs) rs) = map Inr new)"
proof (induction fs bs rules rule: filter_blocks.induct)
  case (1 fs rules)
  then show ?case by auto
next
  case (2 fs b bs rules)
  show ?case
  proof (cases "map_of b ''rule''")
    case None
    then show ?thesis using 2(1) by simp
  next
    case (Some m)
    show ?thesis
    proof (cases "ruleOf m")
      case None
      then show ?thesis using Some by (auto simp: map_eq_Cons_conv)
    next
      case (Some r)
      note m = \<open>map_of b ''rule'' = Some m\<close>
      let ?sel = "\<lambda>r. list_ex (\<lambda>f. Match f r) fs"
      have ex: "(\<exists>rs. ruleOf m # map ruleOf (rule_messages bs) = map Some rs \<and> P rs) \<longleftrightarrow>
          (\<exists>rs. map ruleOf (rule_messages bs) = map Some rs \<and> P (r # rs))" for P
        using Some by (auto simp: map_eq_Cons_conv Cons_eq_map_conv)
      show ?thesis
      proof (cases "?sel r")
        case False
        then show ?thesis using m Some 2(3) [OF m Some] ex [of "\<lambda>rs. \<exists>new. out = rules @ new \<and> map rendered (filter ?sel rs) = map Inr new"]
          by simp
      next
        case True
        show ?thesis
        proof (cases "renderRule (rb_Expresion r)")
          case (Inl e)
          then have "rendered r = Inl e" by (simp add: rendered_def)
          then show ?thesis
            using m Some True Inl ex [of "\<lambda>rs. \<exists>new. out = rules @ new \<and> map rendered (filter ?sel rs) = map Inr new"]
            by (auto simp: Cons_eq_map_conv)
        next
          case (Inr body)
          then obtain x where x: "rendered r = Inr x" "x = \<lparr>fr_Body = body, fr_Handle = rb_Handle r,
              fr_Table = rb_Table r, fr_Chain = rb_Chain r, fr_Family = rb_Family r\<rparr>"
            by (simp add: rendered_def)
          have "(\<exists>new. out = rules @ new \<and> Inr x # xs = map Inr new) \<longleftrightarrow> (\<exists>new. out = (rules @ [x]) @ new \<and> xs = map Inr new)"
            for xs :: "(nft_error + filter_rule) list"
            by (auto simp: Cons_eq_map_conv)
          then show ?thesis
            using m Some True Inr x 2(2) [OF m Some True Inr]
              ex [of "\<lambda>rs. \<exists>new. out = rules @ new \<and> map rendered (filter ?sel rs) = map Inr new"]
            by simp
        qed
      qed
    qed
  qed
qed

lemma isl_case_sum [simp]:
  "isl (case x of Inl e \<Rightarrow> Inl e | Inr t \<Rightarrow> f t) \<longleftrightarrow> isl x \<or> (\<exists>t. x = Inr t \<and> isl (f t))"
  by (cases x) auto

lemma chains_marshal_ok: "isl (chains_marshal cs) \<longleftrightarrow> [] \<in> fst ` set cs"
  by (induction cs rule: chains_marshal.induct) auto

lemma table_marshal_ok: "isl (table_marshal t name) \<longleftrightarrow> table_Family t = [] \<or> [] \<in> fst ` set (table_Chains t)"
  by (simp add: table_marshal_def chains_marshal_ok)

section \<open>Properties\<close>

text \<open>
  C28. The rules a search returns.  \<^verbatim>\<open>filter\<close> succeeds exactly when every rule block of the
  listing can be decoded and every rule that a filter matches can be rendered; it then
  returns those rules and no others, once each and in the order of the listing, with their text and their
  handle, table, chain and family.
\<close>

theorem filter_exact:
  "filter_blocks filters blocks [] = Inr out \<longleftrightarrow>
     (\<exists>rules. map ruleOf (rule_messages blocks) = map Some rules \<and>
        map rendered (filter (\<lambda>r. list_ex (\<lambda>f. Match f r) filters) rules) = map Inr out)"
  by (simp add: filter_blocks_Inr)

text \<open>
  The text of a rule set: \<^verbatim>\<open>MarshalText\<close> fails exactly when a table or a chain has no name or a
  table has no family.
\<close>

theorem marshal_fails_iff:
  "isl (MarshalText n) \<longleftrightarrow>
     list_ex (\<lambda>(name, t). name = [] \<or> table_Family t = [] \<or> [] \<in> fst ` set (table_Chains t)) n"
proof (induction n rule: MarshalText.induct)
  case (2 name table ts)
  then show ?case using table_marshal_ok [of table name] by (cases "table_marshal table name") auto
qed simp

end
