(* ===== verification/Nft_Manager.thy ===== *)
theory Nft_Manager
  imports Nft_Rules
begin

text \<open>
  \<^verbatim>\<open>base/nft\<close>: \<^verbatim>\<open>manager.go\<close> (apply, drop and find, by way of the program \<^verbatim>\<open>nft\<close>), \<^verbatim>\<open>actions.go\<close> (the
  commands that open and close ports of the host) and \<^verbatim>\<open>set.go\<close>.  The program and the
  temporary files belong to a world \<open>'w\<close> that the code passes through: \<open>host\<close> says what each
  call answers and how it changes the world.
\<close>

record 'w host =
  h_System :: "string list \<Rightarrow> 'w \<Rightarrow> (job_result \<times> go_error option) \<times> 'w"
  h_TempFile :: "'w \<Rightarrow> (go_error + string) \<times> 'w"
  h_Write :: "string \<Rightarrow> string \<Rightarrow> 'w \<Rightarrow> go_error option \<times> 'w"
  h_RemoveAll :: "string \<Rightarrow> 'w \<Rightarrow> 'w"
  h_unjson :: "string \<Rightarrow> json option"

type_synonym ('a, 'w) action = "'w \<Rightarrow> (nft_error + 'a) \<times> 'w"

text \<open>The outcome of a call of \<^verbatim>\<open>nft\<close> of which only the error matters.\<close>

definition system_err :: "'w host \<Rightarrow> string list \<Rightarrow> (unit, 'w) action" where
  "system_err h args w =
     (case h_System h args w of ((_, None), w') \<Rightarrow> (Inr (), w') | ((_, Some e), w') \<Rightarrow> (Inl (SysErr e), w'))"

definition ApplyFromFile :: "'w host \<Rightarrow> string \<Rightarrow> (unit, 'w) action" where
  "ApplyFromFile h cfg = system_err h [''nft'', ''-f'', cfg]"

text \<open>The deferred removal of the file runs on every path once the file exists.\<close>

definition Apply :: "'w host \<Rightarrow> nft \<Rightarrow> (unit, 'w) action" where
  "Apply h n w =
     (case MarshalText n of
        Inl e \<Rightarrow> (Inl e, w)
      | Inr data \<Rightarrow>
          (case h_TempFile h w of
             (Inl e, w1) \<Rightarrow> (Inl (SysErr e), w1)
           | (Inr name, w1) \<Rightarrow>
               (case h_Write h name data w1 of
                  (Some e, w2) \<Rightarrow> (Inl (SysErr e), h_RemoveAll h name w2)
                | (None, w2) \<Rightarrow>
                    (case ApplyFromFile h name w2 of (r, w3) \<Rightarrow> (r, h_RemoveAll h name w3)))))"

definition Drop :: "'w host \<Rightarrow> string \<Rightarrow> string \<Rightarrow> string \<Rightarrow> int \<Rightarrow> (unit, 'w) action" where
  "Drop h family table chain handle =
     system_err h [''nft'', ''delete'', ''rule'', family, table, chain, ''handle'', itoaInt handle]"

definition list_call :: "string list" where
  "list_call = [''nft'', ''--json'', ''--handle'', ''--numeric'', ''--numeric'', ''list'', ''ruleset'']"

definition Find :: "'w host \<Rightarrow> nft_filter list \<Rightarrow> (filter_rule list, 'w) action" where
  "Find h f w =
     (case h_System h list_call w of
        ((job, Some e), w') \<Rightarrow> (Inl (SysErr e), w')
      | ((job, None), w') \<Rightarrow> (filter_config (h_unjson h) (Stdout (jr_Streams job)) f, w'))"

section \<open>Sets\<close>

definition IPv4Set :: "'w host \<Rightarrow> string \<Rightarrow> string \<Rightarrow> string \<Rightarrow> string list \<Rightarrow> (unit, 'w) action" where
  "IPv4Set h family table name ips w =
     (case system_err h [''nft'', ''add'', ''set'', family, table, name, ''{'', ''type'', ''ipv4_addr;'', ''}''] w of
        (Inl e, w1) \<Rightarrow> (Inl e, w1)
      | (Inr _, w1) \<Rightarrow>
          if length ips = 0 then (Inr (), w1)
          else system_err h [''nft'', ''add'', ''element'', family, table, name, ''{'', join '', '' ips, ''}''] w1)"

definition IPv4SetDel :: "'w host \<Rightarrow> string \<Rightarrow> string \<Rightarrow> string \<Rightarrow> string list \<Rightarrow> (unit, 'w) action" where
  "IPv4SetDel h family table name ips w =
     (if length ips = 0 then (Inr (), w)
      else system_err h [''nft'', ''delete'', ''element'', family, table, name, ''{'', join '', '' ips, ''}''] w)"

definition IPv4SetGet :: "string \<Rightarrow> string \<Rightarrow> string \<Rightarrow> nft_error + string list" where
  "IPv4SetGet family table name = Inl (NftErr ''not implemented'')"

section \<open>Ports of the host\<close>

record port =
  port_Port :: u16
  port_Interface :: string
  port_Subnet :: string

definition getArgs_port :: "json \<Rightarrow> port option" where
  "getArgs_port args =
     (case objectOf args of
        None \<Rightarrow> None
      | Some es \<Rightarrow>
          (case (field_uint 16 ''port'' es, field_string ''interface'' es, field_string ''subnet'' es) of
             (Some p, Some i, Some s) \<Rightarrow> Some \<lparr>port_Port = of_nat p, port_Interface = i, port_Subnet = s\<rparr>
           | _ \<Rightarrow> None))"

definition getRule :: "port \<Rightarrow> string" where
  "getRule p =
     (if port_Interface p \<noteq> [] then ''iifname '' @ [CHR 0x22] @ port_Interface p @ [CHR 0x22] @ '' '' else []) @
     (if port_Subnet p \<noteq> []
      then ''ip saddr '' @ (case ParseCIDR (port_Subnet p) of None \<Rightarrow> port_Subnet p | Some (_, net) \<Rightarrow> IPNet_String net) @ '' ''
      else []) @
     ''tcp dport '' @ itoa (unat (port_Port p)) @ '' accept''"

definition input_filter :: "nft_filter list" where
  "input_filter = [TableFilter ''filter'', ChainFilter ''input'']"

definition port_filter :: "u16 \<Rightarrow> nft_filter list" where
  "port_filter p = [AndFilter (input_filter @ [IntMatchFilter ''tcp'' ''dport'' (ucast p)])]"

definition openPort :: "'w host \<Rightarrow> json \<Rightarrow> (unit, 'w) action" where
  "openPort h cmd w =
     (case getArgs_port cmd of
        None \<Rightarrow> (Inl JsonErr, w)
      | Some args \<Rightarrow>
          (case Find h (port_filter (port_Port args)) w of
             (Inl e, w1) \<Rightarrow> (Inl e, w1)
           | (Inr matches, w1) \<Rightarrow>
               if length matches \<noteq> 0
               then (Inl (NftErr (''rule already exists for port: '' @ itoa (unat (port_Port args)))), w1)
               else Apply h [(''filter'', \<lparr>table_Family = FamilyINET,
                       table_Chains = [(''input'', \<lparr>chain_Type = [], chain_Hook = [], chain_Priority = 0, chain_Policy = [],
                                                 chain_Rules = [getRule args]\<rparr>)],
                       table_Sets = []\<rparr>)] w1))"

text \<open>The loop that drops rules until one call fails.\<close>

fun drop_rules :: "'w host \<Rightarrow> (string \<times> string \<times> string \<times> int) list \<Rightarrow> (unit, 'w) action" where
  "drop_rules h [] w = (Inr (), w)"
| "drop_rules h ((family, table, chain, handle) # rs) w =
     (case Drop h family table chain handle w of
        (Inl e, w1) \<Rightarrow> (Inl e, w1)
      | (Inr _, w1) \<Rightarrow> drop_rules h rs w1)"

definition dropPort :: "'w host \<Rightarrow> json \<Rightarrow> (unit, 'w) action" where
  "dropPort h cmd w =
     (case getArgs_port cmd of
        None \<Rightarrow> (Inl JsonErr, w)
      | Some args \<Rightarrow>
          (case Find h (port_filter (port_Port args)) w of
             (Inl e, w1) \<Rightarrow> (Inl e, w1)
           | (Inr matches, w1) \<Rightarrow>
               drop_rules h (map (\<lambda>r. (FamilyINET, ''filter'', ''input'', fr_Handle r)) matches) w1))"

definition listPorts :: "'w host \<Rightarrow> (string list, 'w) action" where
  "listPorts h w =
     (case Find h [AndFilter input_filter] w of
        (Inl e, w1) \<Rightarrow> (Inl e, w1)
      | (Inr matches, w1) \<Rightarrow> (Inr (map fr_Body matches), w1))"

definition ruleExists :: "'w host \<Rightarrow> json \<Rightarrow> (bool, 'w) action" where
  "ruleExists h cmd w =
     (case getArgs_port cmd of
        None \<Rightarrow> (Inl JsonErr, w)
      | Some args \<Rightarrow>
          (case Find h (port_filter (port_Port args)) w of
             (Inl e, w1) \<Rightarrow> (Inl e, w1)
           | (Inr matches, w1) \<Rightarrow> (Inr (length matches > 0), w1)))"

section \<open>The program nft\<close>

text \<open>
  What the code relies on of the program, for a world whose rules are \<open>ruleset\<close>: it lists all
  rules, as JSON that decodes to them, and deleting a rule by its family, table, chain and
  handle succeeds when it exists and removes exactly it.
\<close>

definition rule_id :: "nft_rule \<Rightarrow> string \<times> string \<times> string \<times> int" where
  "rule_id r = (rb_Family r, rb_Table r, rb_Chain r, rb_Handle r)"

definition lists :: "'w host \<Rightarrow> 'w \<Rightarrow> nft_rule list \<Rightarrow> 'w \<Rightarrow> bool" where
  "lists h w rs w' \<longleftrightarrow>
     (\<exists>job j es blocks. h_System h list_call w = ((job, None), w') \<and>
        h_unjson h (Stdout (jr_Streams job)) = Some j \<and> objectOf j = Some es \<and>
        field_array raw_map ''nftables'' es = Some blocks \<and>
        map ruleOf (rule_messages blocks) = map Some rs)"

definition nft_tool :: "'w host \<Rightarrow> ('w \<Rightarrow> nft_rule list) \<Rightarrow> bool" where
  "nft_tool h ruleset \<longleftrightarrow>
     (\<forall>w. \<exists>w'. lists h w (ruleset w) w' \<and> ruleset w' = ruleset w) \<and>
     (\<forall>w r. r \<in> set (ruleset w) \<longrightarrow>
        (\<exists>job w'. h_System h [''nft'', ''delete'', ''rule'', rb_Family r, rb_Table r, rb_Chain r, ''handle'',
                              itoaInt (rb_Handle r)] w = ((job, None), w') \<and>
           ruleset w' = filter (\<lambda>q. rule_id q \<noteq> rule_id r) (ruleset w)))"

definition selects :: "nft_filter list \<Rightarrow> nft_rule \<Rightarrow> bool" where
  "selects fs r = list_ex (\<lambda>f. Match f r) fs"

definition renders :: "nft_filter list \<Rightarrow> nft_rule list \<Rightarrow> bool" where
  "renders fs rs = list_all (\<lambda>r. selects fs r \<longrightarrow> \<not> isl (rendered r)) rs"

lemma nft_toolI:
  assumes "\<And>w. lists h w (ruleset w) w"
    and "\<And>w r. r \<in> set (ruleset w) \<Longrightarrow> h_System h [''nft'', ''delete'', ''rule'', rb_Family r, rb_Table r, rb_Chain r,
           ''handle'', itoaInt (rb_Handle r)] w = ((job w, None), del w r)"
    and "\<And>w r. r \<in> set (ruleset w) \<Longrightarrow> ruleset (del w r) = filter (\<lambda>q. rule_id q \<noteq> rule_id r) (ruleset w)"
  shows "nft_tool h ruleset"
  unfolding nft_tool_def using assms by blast

lemma map_Inr_projr: "list_all (\<lambda>x. \<not> isl x) xs \<Longrightarrow> map Inr (map projr xs) = xs"
  by (induction xs) auto

lemma Find_ok:
  assumes "nft_tool h ruleset" "renders fs (ruleset w)"
  shows "\<exists>w'. Find h fs w = (Inr (map (projr \<circ> rendered) (filter (selects fs) (ruleset w))), w') \<and> ruleset w' = ruleset w"
proof -
  obtain w' where w': "lists h w (ruleset w) w'" "ruleset w' = ruleset w"
    using assms(1) unfolding nft_tool_def by blast
  obtain job j es blocks where l: "h_System h list_call w = ((job, None), w')"
    "h_unjson h (Stdout (jr_Streams job)) = Some j" "objectOf j = Some es"
    "field_array raw_map ''nftables'' es = Some blocks" "map ruleOf (rule_messages blocks) = map Some (ruleset w)"
    using w'(1) unfolding lists_def by blast
  have "map rendered (filter (selects fs) (ruleset w)) =
      map Inr (map projr (map rendered (filter (selects fs) (ruleset w))))"
    using assms(2) by (intro map_Inr_projr [symmetric]) (auto simp: list_all_iff renders_def)
  moreover have "filter (selects fs) = filter (\<lambda>r. list_ex (\<lambda>f. Match f r) fs)"
    by (simp add: selects_def [abs_def])
  ultimately have "filter_blocks fs blocks [] = Inr (map (projr \<circ> rendered) (filter (selects fs) (ruleset w)))"
    using l(5) by (intro filter_blocks_Inr [THEN iffD2]) auto
  then have "Find h fs w = (Inr (map (projr \<circ> rendered) (filter (selects fs) (ruleset w))), w')"
    using l by (simp add: Find_def filter_config_def)
  then show ?thesis using w'(2) by blast
qed

lemma rendered_ids:
  "\<not> isl (rendered r) \<Longrightarrow>
     (fr_Family (projr (rendered r)), fr_Table (projr (rendered r)), fr_Chain (projr (rendered r)), fr_Handle (projr (rendered r))) =
     rule_id r"
  by (cases "renderRule (rb_Expresion r)") (auto simp: rendered_def rule_id_def)

lemma drop_rules_ok:
  assumes "nft_tool h ruleset"
  shows "distinct ids \<Longrightarrow> set ids \<subseteq> rule_id ` set (ruleset w) \<Longrightarrow>
    \<exists>w'. drop_rules h ids w = (Inr (), w') \<and> ruleset w' = filter (\<lambda>r. rule_id r \<notin> set ids) (ruleset w)"
proof (induction ids arbitrary: w)
  case (Cons i ids)
  then obtain r where r: "r \<in> set (ruleset w)" "i = rule_id r" by auto
  obtain job w1 where w1: "h_System h [''nft'', ''delete'', ''rule'', rb_Family r, rb_Table r, rb_Chain r, ''handle'',
      itoaInt (rb_Handle r)] w = ((job, None), w1)" "ruleset w1 = filter (\<lambda>q. rule_id q \<noteq> i) (ruleset w)"
    using assms r unfolding nft_tool_def by blast
  have "set ids \<subseteq> rule_id ` set (ruleset w1)"
  proof
    fix x assume "x \<in> set ids"
    then have "x \<in> rule_id ` set (ruleset w)" "x \<noteq> i" using Cons.prems by auto
    then obtain q where "q \<in> set (ruleset w)" "x = rule_id q" "x \<noteq> i" by blast
    then show "x \<in> rule_id ` set (ruleset w1)" by (simp add: w1(2))
  qed
  from Cons.IH [OF _ this] Cons.prems(1) obtain w2 where
    w2: "drop_rules h ids w1 = (Inr (), w2)" "ruleset w2 = filter (\<lambda>r. rule_id r \<notin> set ids) (ruleset w1)" by auto
  have "drop_rules h (i # ids) w = (Inr (), w2)"
    using w1(1) w2(1) by (simp add: r(2) rule_id_def Drop_def system_err_def)
  moreover have "ruleset w2 = filter (\<lambda>r. rule_id r \<notin> set (i # ids)) (ruleset w)"
    using w2(2) w1(2) by (simp add: conj_commute)
  ultimately show ?case by blast
qed simp

text \<open>Dropping what a search found leaves exactly the rules it does not select.\<close>

lemma drop_selected:
  assumes "nft_tool h ruleset" "distinct (map rule_id (ruleset w))" "ruleset w1 = ruleset w"
  shows "\<exists>w'. drop_rules h (map rule_id (filter (selects fs) (ruleset w))) w1 = (Inr (), w') \<and>
    ruleset w' = filter (\<lambda>r. \<not> selects fs r) (ruleset w)"
proof -
  let ?ids = "map rule_id (filter (selects fs) (ruleset w))"
  have "distinct ?ids" "set ?ids \<subseteq> rule_id ` set (ruleset w1)"
    using assms(2,3) by (auto simp: distinct_map inj_on_def)
  from drop_rules_ok [OF assms(1) this] obtain w' where
    w': "drop_rules h ?ids w1 = (Inr (), w')" "ruleset w' = filter (\<lambda>r. rule_id r \<notin> set ?ids) (ruleset w)"
    using assms(3) by auto
  have "rule_id r \<in> set ?ids \<longleftrightarrow> selects fs r" if "r \<in> set (ruleset w)" for r
    using assms(2) that by (auto simp: distinct_map inj_on_def)
  then have "filter (\<lambda>r. rule_id r \<notin> set ?ids) (ruleset w) = filter (\<lambda>r. \<not> selects fs r) (ruleset w)"
    by (intro filter_cong) auto
  then show ?thesis using w' by auto
qed

section \<open>Properties\<close>

text \<open>
  Closing a port of the host.  With a program that lists and deletes rules as documented, \<^verbatim>\<open>dropPort\<close>
  succeeds, removes exactly the rules of the chain \<^verbatim>\<open>input\<close> of the table \<^verbatim>\<open>filter\<close> that match the port, and
  afterwards \<^verbatim>\<open>ruleExists\<close> says that there is none, so that the port can be opened again.
\<close>

theorem drop_port_closes:
  assumes "nft_tool h ruleset" "distinct (map rule_id (ruleset w))" "getArgs_port cmd = Some args"
    and "renders (port_filter (port_Port args)) (ruleset w)"
    and "list_all (\<lambda>r. selects (port_filter (port_Port args)) r \<longrightarrow> rb_Family r = FamilyINET) (ruleset w)"
  shows "\<exists>w'. dropPort h cmd w = (Inr (), w') \<and>
    ruleset w' = filter (\<lambda>r. \<not> selects (port_filter (port_Port args)) r) (ruleset w) \<and>
    (\<exists>w''. ruleExists h cmd w' = (Inr False, w'') \<and> ruleset w'' = ruleset w')"
proof -
  let ?fs = "port_filter (port_Port args)"
  obtain w1 where w1: "Find h ?fs w = (Inr (map (projr \<circ> rendered) (filter (selects ?fs) (ruleset w))), w1)"
    "ruleset w1 = ruleset w" using Find_ok [OF assms(1,4)] by blast
  have "(FamilyINET, ''filter'', ''input'', fr_Handle (projr (rendered r))) = rule_id r"
    if "r \<in> set (filter (selects ?fs) (ruleset w))" for r
  proof -
    have "\<not> isl (rendered r)" "rb_Family r = FamilyINET" "selects ?fs r" "r \<in> set (ruleset w)"
      using assms(4,5) that by (auto simp: renders_def list_all_iff)
    then show ?thesis
      using rendered_ids [of r] by (auto simp: selects_def port_filter_def input_filter_def rule_id_def)
  qed
  then have "map (\<lambda>r. (FamilyINET, ''filter'', ''input'', fr_Handle r))
        (map (projr \<circ> rendered) (filter (selects ?fs) (ruleset w))) = map rule_id (filter (selects ?fs) (ruleset w))"
    unfolding map_map by (intro map_cong) auto
  moreover obtain w2 where w2: "drop_rules h (map rule_id (filter (selects ?fs) (ruleset w))) w1 = (Inr (), w2)"
    "ruleset w2 = filter (\<lambda>r. \<not> selects ?fs r) (ruleset w)"
    using drop_selected [OF assms(1,2) w1(2)] by blast
  ultimately have "dropPort h cmd w = (Inr (), w2)"
    using w1(1) assms(3) by (simp add: dropPort_def del: map_map)
  moreover have "renders ?fs (ruleset w2)" using assms(4) w2(2) by (auto simp: renders_def list_all_iff)
  then obtain w3 where "Find h ?fs w2 = (Inr (map (projr \<circ> rendered) (filter (selects ?fs) (ruleset w2))), w3)"
    "ruleset w3 = ruleset w2" using Find_ok [OF assms(1)] by blast
  moreover have "filter (selects ?fs) (ruleset w2) = []" using w2(2) by (simp add: filter_empty_conv)
  ultimately show ?thesis using w2(2) assms(3) by (auto simp: ruleExists_def)
qed

text \<open>A host whose world tells whether port 22 is open.\<close>

definition sampleRule :: json where
  "sampleRule =
     JObj [(''family'', JStr ''inet''),
       (''expr'', JArr [JObj [(''match'', JObj [(''left'', JObj [(''payload'', JObj [(''name'', JStr ''tcp''), (''field'', JStr ''dport'')])]),
                                              (''right'', JNum 22)])], JObj [(''accept'', JNull)]]),
       (''table'', JStr ''filter''), (''handle'', JNum 5), (''chain'', JStr ''input'')]"

definition sampleBlock :: nft_rule where
  "sampleBlock = the (ruleOf sampleRule)"

definition sampleHost :: "bool host" where
  "sampleHost =
     \<lparr>h_System = (\<lambda>args w. (((NewJobResult (sampleJob [] []))\<lparr>jr_Streams := [if w then ''1'' else ''0'', []]\<rparr>, None),
                           if args = list_call then w else False)),
      h_TempFile = (\<lambda>w. (Inr ''/tmp/x'', w)), h_Write = (\<lambda>name data w. (None, w)), h_RemoveAll = (\<lambda>name w. w),
      h_unjson = (\<lambda>text. Some (JObj [(''nftables'', JArr (if text = ''1'' then [JObj [(''rule'', sampleRule)]] else []))]))\<rparr>"

lemma sampleBlock_eq:
  "ruleOf sampleRule = Some sampleBlock"
  "sampleBlock = \<lparr>rb_Family = ''inet'',
     rb_Expresion = [[(''match'', JObj [(''left'', JObj [(''payload'', JObj [(''name'', JStr ''tcp''), (''field'', JStr ''dport'')])]),
                                      (''right'', JNum 22)])], [(''accept'', JNull)]],
     rb_Table = ''filter'', rb_Handle = 5, rb_Chain = ''input''\<rparr>"
  by (simp_all add: sampleBlock_def sampleRule_def ruleOf_def field_string_def field_array_def field_int_def lower_def)

lemma sampleHost_tool: "nft_tool sampleHost (\<lambda>w. if w then [sampleBlock] else [])"
proof -
  have "lists sampleHost w (if w then [sampleBlock] else []) w" for w
  proof -
    let ?job = "(NewJobResult (sampleJob [] []))\<lparr>jr_Streams := [if w then ''1'' else ''0'', []]\<rparr>"
    let ?es = "[(''nftables'', JArr (if w then [JObj [(''rule'', sampleRule)]] else []))]"
    have "h_System sampleHost list_call w = ((?job, None), w)" by (simp add: sampleHost_def)
    moreover have "h_unjson sampleHost (Stdout (jr_Streams ?job)) = Some (JObj ?es)"
      by (simp add: sampleHost_def Stdout_def)
    moreover have "objectOf (JObj ?es) = Some ?es" by simp
    moreover have "field_array raw_map ''nftables'' ?es = Some (if w then [[(''rule'', sampleRule)]] else [])"
      by (simp add: field_array_def lower_def)
    moreover have "map ruleOf (rule_messages (if w then [[(''rule'', sampleRule)]] else [])) =
        map Some (if w then [sampleBlock] else [])"
      by (simp add: sampleBlock_eq(1))
    ultimately show ?thesis unfolding lists_def by blast
  qed
  then show ?thesis
    by (rule nft_toolI [where del = "\<lambda>w r. False" and
          job = "\<lambda>w. (NewJobResult (sampleJob [] []))\<lparr>jr_Streams := [if w then ''1'' else ''0'', []]\<rparr>"])
       (simp_all add: sampleHost_def list_call_def split: if_splits)
qed

theorem drop_port_closes_witness:
  "dropPort sampleHost (JObj [(''port'', JNum 22)]) True = (Inr (), False) \<and>
   ruleExists sampleHost (JObj [(''port'', JNum 22)]) False = (Inr False, False)"
proof -
  let ?cmd = "JObj [(''port'', JNum 22)]" and ?args = "\<lparr>port_Port = 22, port_Interface = [], port_Subnet = []\<rparr>"
  let ?rs = "\<lambda>w. if w then [sampleBlock] else []"
  have args: "getArgs_port ?cmd = Some ?args"
    by (simp add: getArgs_port_def field_uint_def field_string_def lower_def)
  have sel: "selects (port_filter 22) sampleBlock"
    by (simp add: selects_def port_filter_def input_filter_def sampleBlock_eq(2) some_exp_def matchIntExp_def payload_of_def
        field_struct_def field_string_def field_uint_def lower_def)
  have ren: "\<not> isl (rendered sampleBlock)"
    by (simp add: rendered_def renderRule_def sampleBlock_eq(2) renderExp_def renderMatch_def renderLeft_def renderRight_def
        field_struct_def field_string_def field_raw_def lower_def)
  have "\<exists>w'. dropPort sampleHost ?cmd True = (Inr (), w') \<and> ?rs w' = filter (\<lambda>r. \<not> selects (port_filter 22) r) (?rs True) \<and>
      (\<exists>w''. ruleExists sampleHost ?cmd w' = (Inr False, w'') \<and> ?rs w'' = ?rs w')"
    using drop_port_closes [OF sampleHost_tool, of True ?cmd ?args] args sel ren
    by (simp add: renders_def sampleBlock_eq(2) FamilyINET_def)
  then show ?thesis using sel by (auto split: if_splits)
qed

end
