(* ===== verification/Go_Scan.thy ===== *)
theory Go_Scan
  imports Prelude
begin

text \<open>
  Reading text: the pieces the regular expressions of the sources are made of, and Go's \<^verbatim>\<open>fmt.Sscanf\<close> with the verbs they
  use.  Text is ASCII.
\<close>

section \<open>Regular expressions\<close>

text \<open>
  A literal, a greedy run of at least one character, white space, and an alternative.  In the expressions of the sources
  what follows a run can never be a character of the run, so that there is nothing to backtrack over.
\<close>

definition strip :: "string \<Rightarrow> string \<Rightarrow> string option" where
  "strip p s = (if hasPrefix s p then Some (drop (length p) s) else None)"

definition many1 :: "(char \<Rightarrow> bool) \<Rightarrow> string \<Rightarrow> (string \<times> string) option" where
  "many1 P s = (let a = takeWhile P s in if a = [] then None else Some (a, dropWhile P s))"

definition reSpace :: "char \<Rightarrow> bool" where
  "reSpace c \<longleftrightarrow> c \<in> set [CHR '' '', CHR 0x09, CHR 0x0A, CHR 0x0C, CHR 0x0D]"

definition isWord :: "char \<Rightarrow> bool" where
  "isWord c \<longleftrightarrow> isDigit c \<or> 65 \<le> (of_char c :: nat) \<and> (of_char c :: nat) \<le> 90 \<or> 97 \<le> (of_char c :: nat) \<and> (of_char c :: nat) \<le> 122 \<or> c = CHR ''_''"

definition orElse :: "'a option \<Rightarrow> 'a option \<Rightarrow> 'a option" where
  "orElse a b = (case a of None \<Rightarrow> b | Some x \<Rightarrow> Some x)"

section \<open>Sscanf\<close>

datatype fmt_item = FLit char | FSpace | FInt | FStr

datatype scanned = SInt int | SStr string

text \<open>A format: blanks in a row count as one; the verbs are \<^verbatim>\<open>%d\<close> and \<^verbatim>\<open>%s\<close>.\<close>

fun fmt_items :: "string \<Rightarrow> fmt_item list" where
  "fmt_items [] = []"
| "fmt_items [c] = (if c \<in> set goSpace then [FSpace] else [FLit c])"
| "fmt_items (c # d # s) =
     (if c \<in> set goSpace then (if d \<in> set goSpace then fmt_items (d # s) else FSpace # fmt_items (d # s))
      else if c = CHR ''%'' then (if d = CHR ''d'' then FInt else FStr) # fmt_items s
      else FLit c # fmt_items (d # s))"

text \<open>A blank of the format stands for at least one blank of the input, or its end, and never for a newline.\<close>

definition scan_blank :: "string \<Rightarrow> string option" where
  "scan_blank s =
     (case s of
        [] \<Rightarrow> Some []
      | c # r \<Rightarrow> if c \<in> set goSpace \<and> c \<noteq> CHR 0x0A then Some (dropWhile (\<lambda>x. x \<in> set goSpace \<and> x \<noteq> CHR 0x0A) s) else None)"

definition scan_int :: "string \<Rightarrow> (int \<times> string) option" where
  "scan_int s =
     (case skipSpace s of
        None \<Rightarrow> None
      | Some t \<Rightarrow>
          let neg = (t \<noteq> [] \<and> hd t = CHR ''-'');
              u = (if t \<noteq> [] \<and> (hd t = CHR ''-'' \<or> hd t = CHR ''+'') then tl t else t);
              ds = takeWhile isDigit u;
              n = (if neg then - int (atoi ds) else int (atoi ds))
          in if ds = [] \<or> n < - (2 ^ 63) \<or> n \<ge> 2 ^ 63 then None else Some (n, dropWhile isDigit u))"

definition scan_str :: "string \<Rightarrow> (string \<times> string) option" where
  "scan_str s = Option.bind (skipSpace s) (many1 (\<lambda>c. c \<notin> set goSpace))"

fun sscanf_items :: "fmt_item list \<Rightarrow> string \<Rightarrow> scanned list option" where
  "sscanf_items [] s = Some []"
| "sscanf_items (FLit c # fs) s = (case s of [] \<Rightarrow> None | d # r \<Rightarrow> if d = c then sscanf_items fs r else None)"
| "sscanf_items (FSpace # fs) s = Option.bind (scan_blank s) (sscanf_items fs)"
| "sscanf_items (FInt # fs) s = Option.bind (scan_int s) (\<lambda>(n, r). map_option ((#) (SInt n)) (sscanf_items fs r))"
| "sscanf_items (FStr # fs) s = Option.bind (scan_str s) (\<lambda>(w, r). map_option ((#) (SStr w)) (sscanf_items fs r))"

text \<open>\<^verbatim>\<open>fmt.Sscanf\<close>: the values, or \<^const>\<open>None\<close> for an error; what is left of the input is not looked at.\<close>

definition Sscanf :: "string \<Rightarrow> string \<Rightarrow> scanned list option" where
  "Sscanf s fmt = sscanf_items (fmt_items fmt) s"

section \<open>Lemmas\<close>

named_theorems scan_simps \<open>scanning what was printed\<close>

lemma skipSpace_solid: "s = [] \<or> hd s \<notin> set goSpace \<Longrightarrow> skipSpace s = Some s"
  by (cases s) (auto simp: goSpace_def)

lemma solid_digits: "isDigit c \<Longrightarrow> c \<notin> set goSpace"
  by (auto simp: isDigit_def goSpace_def)

lemma scan_lit [scan_simps]: "sscanf_items (map FLit p @ fs) (p @ s) = sscanf_items fs s"
  by (induction p) simp_all

lemma scan_blanks [scan_simps]:
  assumes "s = [] \<or> hd s \<notin> set goSpace"
  shows "sscanf_items (FSpace # fs) (replicate (Suc n) (CHR '' '') @ s) = sscanf_items fs s"
proof -
  have "dropWhile (\<lambda>x. x \<in> set goSpace \<and> x \<noteq> CHR 0x0A) (replicate n (CHR '' '') @ s) = s"
    using assms by (induction n) (cases s, auto simp: goSpace_def)
  then show ?thesis by (simp add: scan_blank_def goSpace_def)
qed

lemma scan_int_itoa:
  assumes "n < 2 ^ 63" "s = [] \<or> \<not> isDigit (hd s)"
  shows "scan_int (itoa n @ s) = Some (int n, s)"
proof -
  obtain d ds where d: "itoa n = d # ds" by (cases "itoa n") auto
  have dig: "\<forall>c \<in> set (itoa n). isDigit c" using itoa_digits [of n] by (simp add: list_all_iff)
  then have "isDigit d" by (simp add: d)
  then have h: "d \<notin> set goSpace" "d \<noteq> CHR ''-''" "d \<noteq> CHR ''+''" by (auto simp: solid_digits isDigit_def)
  have "takeWhile isDigit (itoa n @ s) = itoa n" "dropWhile isDigit (itoa n @ s) = s"
    using dig assms(2) by (cases s; simp add: takeWhile_append dropWhile_append)+
  moreover have "skipSpace (itoa n @ s) = Some (itoa n @ s)" using h(1) by (intro skipSpace_solid) (simp add: d)
  moreover have "int n < 2 ^ 63" using assms(1) by (metis of_nat_less_iff of_nat_numeral of_nat_power)
  ultimately show ?thesis using h by (simp add: scan_int_def Let_def d [symmetric]) (simp add: d)
qed

lemma scan_items_int [scan_simps]:
  "n < 2 ^ 63 \<Longrightarrow> s = [] \<or> \<not> isDigit (hd s) \<Longrightarrow>
     sscanf_items (FInt # fs) (itoa n @ s) = map_option ((#) (SInt (int n))) (sscanf_items fs s)"
  by (simp add: scan_int_itoa)

definition solid :: "string \<Rightarrow> bool" where
  "solid s \<longleftrightarrow> s \<noteq> [] \<and> (\<forall>c \<in> set s. c \<notin> set goSpace)"

lemma scan_items_str [scan_simps]:
  assumes "solid w" "s = [] \<or> hd s \<in> set goSpace"
  shows "sscanf_items (FStr # fs) (w @ s) = map_option ((#) (SStr w)) (sscanf_items fs s)"
proof -
  have "hd (w @ s) \<notin> set goSpace" using assms(1) by (cases w) (auto simp: solid_def)
  then have "skipSpace (w @ s) = Some (w @ s)" by (intro skipSpace_solid) simp
  moreover have "takeWhile (\<lambda>c. c \<notin> set goSpace) (w @ s) = w" "dropWhile (\<lambda>c. c \<notin> set goSpace) (w @ s) = s"
    using assms by (cases s; simp add: solid_def takeWhile_append dropWhile_append)+
  ultimately show ?thesis using assms(1) by (simp add: scan_str_def many1_def solid_def)
qed

lemma trimSpace_solid:
  assumes "w \<noteq> []" "hd w \<notin> set goSpace" "last w \<notin> set goSpace" "\<forall>c \<in> set b. c \<in> set goSpace"
  shows "trimSpace (b @ w) = w"
proof -
  have "dropWhile (\<lambda>c. c \<in> set goSpace) (b @ w) = w"
    using assms by (induction b) (cases w, auto)
  moreover have "dropWhile (\<lambda>c. c \<in> set goSpace) (rev w) = rev w"
    using assms(1,3) by (cases w rule: rev_cases) auto
  ultimately show ?thesis by (simp add: trimSpace_def trim_def trimLeft_def trimRight_def)
qed

end
