(* ===== verification/Socat.thy ===== *)
theory Socat
  imports Nft_Manager Go_Scan
begin

text \<open>
  \<^verbatim>\<open>apps/core0/helper/socat\<close>: port forwards from the host to containers and virtual machines, kept
  as rules of the chain \<^verbatim>\<open>pre\<close> of the table \<^verbatim>\<open>nat\<close> and marked with the namespace they belong to.
  The rules live in the kernel: the state of the manager is what \<^verbatim>\<open>nft\<close> lists, and the ports it has
  reserved for a while, held in a cache of the package go-cache (\<open>cache_ops\<close>).
\<close>

section \<open>Namespaces\<close>

type_synonym ns = u32

definition Container :: u8 where "Container = 1"
definition KVM :: u8 where "KVM = 2"

definition NS_String :: "ns \<Rightarrow> string" where
  "NS_String n = hex8 (unat n)"

definition Namespace :: "u8 \<Rightarrow> u16 \<Rightarrow> ns" where
  "Namespace system ident = (push_bit (8 * 3) (ucast system)) OR ucast ident"

definition ns_system :: "ns \<Rightarrow> u8" where
  "ns_system n = ucast (drop_bit (8 * 3) n)"

section \<open>Sources\<close>

record source =
  src_ip :: string
  src_port :: nat
  src_protocols :: "string list"

definition addressAll :: string where "addressAll = ''0.0.0.0''"
definition defaultProtocols :: "string list" where "defaultProtocols = [''tcp'']"
definition validProtocol :: "string \<Rightarrow> bool" where "validProtocol p \<longleftrightarrow> p = ''tcp'' \<or> p = ''udp''"

definition source_match :: "source \<Rightarrow> string \<Rightarrow> string" where
  "source_match s proto =
     (let dport = proto @ '' dport '' @ itoa (src_port s)
      in if parseIPv4 (src_ip s) \<noteq> None
         then (if src_ip s = addressAll then dport else ''ip saddr '' @ src_ip s @ '' '' @ dport)
         else if ParseCIDR (src_ip s) \<noteq> None then ''ip saddr '' @ src_ip s @ '' '' @ dport
         else ''iifname '' @ [CHR 0x22] @ src_ip s @ [CHR 0x22] @ '' '' @ dport)"

definition Matches :: "source \<Rightarrow> string list" where
  "Matches s = map (source_match s) (src_protocols s)"

definition source_String :: "source \<Rightarrow> string" where
  "source_String s =
     (if length (src_ip s) > 0 \<and> src_ip s \<noteq> addressAll then src_ip s @ '':'' else []) @ itoa (src_port s) @
     (if length (src_protocols s) \<noteq> 1 \<or> src_protocols s ! 0 \<noteq> ''tcp'' then ''|'' @ join ''+'' (src_protocols s) else [])"

text \<open>
  \<^verbatim>\<open>fmt.Sscanf(s, "%d")\<close> into an unsigned 64 bit variable: leading blanks are skipped, what
  follows the digits is not looked at.
\<close>

definition sscanf_uint :: "string \<Rightarrow> nat option" where
  "sscanf_uint s =
     (case skipSpace s of
        None \<Rightarrow> None
      | Some t \<Rightarrow>
          let ds = takeWhile isDigit t
          in if ds = [] \<or> atoi ds \<ge> 2 ^ 64 then None else Some (atoi ds))"

datatype source_error = InvalidProtocol string | ScanError | InvalidPort

definition getSource :: "string \<Rightarrow> source_error + source" where
  "getSource src =
     (let parts = splitN2 (CHR ''|'') src;
          protocols = (if length parts = 2 then split (CHR ''+'') (parts ! 1) else defaultProtocols)
      in case find (\<lambda>p. \<not> validProtocol p) protocols of
           Some p \<Rightarrow> Inl (InvalidProtocol p)
         | None \<Rightarrow>
             let aparts = splitN2 (CHR '':'') (parts ! 0)
             in case sscanf_uint (last aparts) of
                  None \<Rightarrow> Inl ScanError
                | Some port \<Rightarrow>
                    if port \<le> 0 \<or> port \<ge> 65536 then Inl InvalidPort
                    else Inr \<lparr>src_ip = (if length aparts = 2 then aparts ! 0 else addressAll),
                              src_port = port, src_protocols = protocols\<rparr>)"

definition ValidHost :: "string \<Rightarrow> bool" where
  "ValidHost host = (\<not> isl (getSource host))"

section \<open>Rules\<close>

record rule =
  r_ns :: ns
  r_source :: source
  r_port :: int
  r_ip :: string

definition rule_rule :: "rule \<Rightarrow> string \<Rightarrow> string" where
  "rule_rule r match =
     ''ip daddr @host '' @ match @ '' meta mark set '' @ itoa (unat (r_ns r)) @ '' dnat to '' @ r_ip r @ '':'' @
     itoaInt (r_port r)"

definition Rules :: "rule \<Rightarrow> string list" where
  "Rules r = map (rule_rule r) (Matches (r_source r))"

text \<open>
  The expression \<^verbatim>\<open>ruleRegex\<close>, from a given position on: every repetition in it is followed by a
  character it cannot match, so that its longest match is the only one that can lead on.
\<close>

definition isHex :: "char \<Rightarrow> bool" where
  "isHex c \<longleftrightarrow> isDigit c \<or> 65 \<le> (of_char c :: nat) \<and> (of_char c :: nat) \<le> 70 \<or> 97 \<le> (of_char c :: nat) \<and> (of_char c :: nat) \<le> 102"

text \<open>The part after the source: protocol, port, mark, address and port of the destination.\<close>

definition ruleTail :: "string \<Rightarrow> (string \<times> string \<times> string \<times> string \<times> string) option" where
  "ruleTail s =
     Option.bind (orElse (map_option (\<lambda>t. (''tcp'', t)) (strip '' tcp'' s)) (map_option (\<lambda>t. (''udp'', t)) (strip '' udp'' s)))
       (\<lambda>(proto, s). Option.bind (strip '' dport '' s)
       (\<lambda>s. Option.bind (many1 isDigit s)
       (\<lambda>(port, s). Option.bind (strip '' mark set 0x'' s)
       (\<lambda>s. Option.bind (many1 isHex s)
       (\<lambda>(mark, s). Option.bind (strip '' dnat to '' s)
       (\<lambda>s. Option.bind (many1 (\<lambda>c. c \<noteq> CHR '':'') s)
       (\<lambda>(ip, s). Option.bind (strip '':'' s)
       (\<lambda>s. Option.bind (many1 isDigit s)
       (\<lambda>(dest, s). Some (proto, port, mark, ip, dest))))))))))"

definition withSource :: "string \<Rightarrow> string \<Rightarrow> (string \<times> string \<times> string \<times> string \<times> string \<times> string) option" where
  "withSource src s = map_option (\<lambda>m. (src, m)) (ruleTail s)"

definition ruleAt :: "string \<Rightarrow> (string \<times> string \<times> string \<times> string \<times> string \<times> string) option" where
  "ruleAt s =
     orElse (Option.bind (strip ''ip saddr '' s) (\<lambda>t. Option.bind (many1 (\<lambda>c. \<not> reSpace c) t) (\<lambda>(a, u). withSource a u)))
    (orElse (Option.bind (strip (''iifname '' @ [CHR 0x22]) s)
              (\<lambda>t. Option.bind (many1 (\<lambda>c. c \<noteq> CHR 0x22) t) (\<lambda>(a, u). Option.bind (strip [CHR 0x22] u) (withSource a))))
            (withSource [] s))"

fun findRule :: "string \<Rightarrow> (string \<times> string \<times> string \<times> string \<times> string \<times> string) option" where
  "findRule [] = ruleAt []"
| "findRule (c # s) = orElse (ruleAt (c # s)) (findRule s)"

definition hexVal :: "char \<Rightarrow> nat" where
  "hexVal c = (let n = of_char c :: nat in if n < 58 then n - 48 else if n < 71 then n - 55 else n - 87)"

definition fromHex :: "string \<Rightarrow> nat" where
  "fromHex s = foldl (\<lambda>n c. 16 * n + hexVal c) 0 s"

text \<open>A number that does not fit leaves its variable at zero; of the mark eight digits are read.\<close>

definition getRuleFromNFTRule :: "string \<Rightarrow> nft_error + rule" where
  "getRuleFromNFTRule body =
     (case findRule body of
        None \<Rightarrow> Inl (NftErr (''invalid rule string: '' @ body))
      | Some (src, proto, port, mark, ip, dest) \<Rightarrow>
          Inr \<lparr>r_ns = of_nat (fromHex (take 8 mark)),
               r_source = \<lparr>src_ip = src, src_port = (if atoi port < 2 ^ 64 then atoi port else 0), src_protocols = [proto]\<rparr>,
               r_port = (if atoi dest < 2 ^ 63 then int (atoi dest) else 0), r_ip = ip\<rparr>)"

section \<open>The manager\<close>

record 'c cache_ops =
  c_Get :: "string \<Rightarrow> 'c \<Rightarrow> bool"
  c_Set :: "string \<Rightarrow> 'c \<Rightarrow> 'c"
  c_Delete :: "string \<Rightarrow> 'c \<Rightarrow> 'c"

definition natPre :: "nft_filter list" where
  "natPre = [TableFilter ''nat'', ChainFilter ''pre'']"

definition dport_filter :: "nat \<Rightarrow> nft_filter" where
  "dport_filter port =
     OrFilter [IntMatchFilter ''tcp'' ''dport'' (of_nat port), IntMatchFilter ''udp'' ''dport'' (of_nat port)]"

datatype socat_error = SourceError source_error | PortInUse nat | NftError nft_error | InternalErr go_error | Exhausted

definition forward_nft :: "string list \<Rightarrow> nft" where
  "forward_nft rs =
     [(''nat'', \<lparr>table_Family = FamilyIP,
        table_Chains = [(''pre'', \<lparr>chain_Type = [], chain_Hook = [], chain_Priority = 0, chain_Policy = [], chain_Rules = rs\<rparr>)],
        table_Sets = [(''host'', \<lparr>set_Elements = []\<rparr>)]\<rparr>)]"

definition SetPortForward ::
  "'w host \<Rightarrow> 'c cache_ops \<Rightarrow> ns \<Rightarrow> string \<Rightarrow> string \<Rightarrow> int \<Rightarrow> 'w \<times> 'c \<Rightarrow> socat_error option \<times> 'w \<times> 'c" where
  "SetPortForward h co n ip host dest s =
     (case s of (w, c) \<Rightarrow>
        (case getSource host of
           Inl e \<Rightarrow> (Some (SourceError e), w, c)
         | Inr src \<Rightarrow>
             (case Find h [AndFilter (natPre @ [dport_filter (src_port src)])] w of
                (Inl e, w1) \<Rightarrow> (Some (NftError e), w1, c)
              | (Inr matches, w1) \<Rightarrow>
                  if length matches > 0 then (Some (PortInUse (src_port src)), w1, c)
                  else (case Apply h (forward_nft (Rules \<lparr>r_ns = n, r_source = src, r_port = dest, r_ip = ip\<rparr>)) w1 of
                          (Inl e, w2) \<Rightarrow> (Some (NftError e), w2, c)
                        | (Inr _, w2) \<Rightarrow> (None, w2, c_Delete co (itoa (src_port src)) c)))))"

definition drop_found :: "'w host \<Rightarrow> nft_filter list \<Rightarrow> 'w \<Rightarrow> socat_error option \<times> 'w" where
  "drop_found h fs w =
     (case Find h fs w of
        (Inl e, w1) \<Rightarrow> (Some (NftError e), w1)
      | (Inr matches, w1) \<Rightarrow>
          (case drop_rules h (map (\<lambda>r. (fr_Family r, fr_Table r, fr_Chain r, fr_Handle r)) matches) w1 of
             (Inl e, w2) \<Rightarrow> (Some (NftError e), w2)
           | (Inr _, w2) \<Rightarrow> (None, w2)))"

definition RemovePortForward :: "'w host \<Rightarrow> ns \<Rightarrow> string \<Rightarrow> int \<Rightarrow> 'w \<Rightarrow> socat_error option \<times> 'w" where
  "RemovePortForward h n host dest w =
     (case getSource host of
        Inl e \<Rightarrow> (Some (SourceError e), w)
      | Inr src \<Rightarrow> drop_found h [AndFilter (natPre @ [dport_filter (src_port src), MarkFilter n])] w)"

definition RemoveAll :: "'w host \<Rightarrow> ns \<Rightarrow> 'w \<Rightarrow> socat_error option \<times> 'w" where
  "RemoveAll h n w = drop_found h [AndFilter (natPre @ [MarkFilter n])] w"

text \<open>The rules by port, in the order their ports were first seen.\<close>

fun add_rule :: "rule \<Rightarrow> (nat \<times> rule) list \<Rightarrow> (nat \<times> rule) list" where
  "add_rule r [] = [(src_port (r_source r), r)]"
| "add_rule r ((p, q) # rules) =
     (if p = src_port (r_source r)
      then (p, q\<lparr>r_source := (r_source q)\<lparr>src_protocols := src_protocols (r_source q) @ src_protocols (r_source r)\<rparr>\<rparr>) # rules
      else (p, q) # add_rule r rules)"

fun rulesFromMatches :: "filter_rule list \<Rightarrow> (nat \<times> rule) list \<Rightarrow> nft_error + (nat \<times> rule) list" where
  "rulesFromMatches [] rules = Inr rules"
| "rulesFromMatches (m # ms) rules =
     (case getRuleFromNFTRule (fr_Body m) of
        Inl e \<Rightarrow> Inl e
      | Inr parsed \<Rightarrow> rulesFromMatches ms (add_rule parsed rules))"

type_synonym port_map = "string \<rightharpoonup> int"

definition List_ns :: "'w host \<Rightarrow> ns \<Rightarrow> (port_map, 'w) action" where
  "List_ns h n w =
     (case Find h [AndFilter (natPre @ [MarkFilter n])] w of
        (Inl e, w1) \<Rightarrow> (Inl e, w1)
      | (Inr matches, w1) \<Rightarrow>
          (case rulesFromMatches matches [] of
             Inl e \<Rightarrow> (Inl e, w1)
           | Inr rules \<Rightarrow> (Inr (fold (\<lambda>(p, r) m. m(source_String (r_source r) \<mapsto> r_port r)) rules Map.empty), w1)))"

definition add_listed :: "u8 \<Rightarrow> rule \<Rightarrow> (ns \<rightharpoonup> port_map) \<Rightarrow> (ns \<rightharpoonup> port_map)" where
  "add_listed system r results =
     (if ns_system (r_ns r) \<noteq> system then results
      else let m = (case results (r_ns r) of None \<Rightarrow> Map.empty | Some m \<Rightarrow> m)
           in results(r_ns r \<mapsto> m(source_String (r_source r) \<mapsto> r_port r)))"

definition ListAll :: "'w host \<Rightarrow> u8 \<Rightarrow> (ns \<rightharpoonup> port_map, 'w) action" where
  "ListAll h system w =
     (case Find h [AndFilter natPre] w of
        (Inl e, w1) \<Rightarrow> (Inl e, w1)
      | (Inr matches, w1) \<Rightarrow>
          (case rulesFromMatches matches [] of
             Inl e \<Rightarrow> (Inl e, w1)
           | Inr rules \<Rightarrow> (Inr (fold (\<lambda>(p, r). add_listed system r) rules Map.empty), w1)))"

section \<open>Reserving ports\<close>

text \<open>The expression \<^verbatim>\<open>portMatch\<close>: the digits after the first \<^verbatim>\<open>dport\<close> and blanks.\<close>

fun findPort :: "string \<Rightarrow> string option" where
  "findPort [] = None"
| "findPort (c # s) =
     (case Option.bind (strip ''dport'' (c # s)) (\<lambda>t. Option.bind (many1 reSpace t) (\<lambda>(b, u). many1 isDigit u)) of
        Some (ds, _) \<Rightarrow> Some ds
      | None \<Rightarrow> findPort s)"

fun forwarded_ports :: "filter_rule list \<Rightarrow> socat_error + u16 set" where
  "forwarded_ports [] = Inr {}"
| "forwarded_ports (r # rs) =
     (case findPort (fr_Body r) of
        None \<Rightarrow> forwarded_ports rs
      | Some ds \<Rightarrow>
          (case parseUint 16 ds of
             (port, Some e) \<Rightarrow> Inl (InternalErr (Errorf ''strconv.ParseUint''))
           | (port, None) \<Rightarrow> (case forwarded_ports rs of Inl e \<Rightarrow> Inl e | Inr ps \<Rightarrow> Inr (insert (of_nat port) ps))))"

definition getForwardedPorts :: "'w host \<Rightarrow> 'w \<Rightarrow> (socat_error + u16 set) \<times> 'w" where
  "getForwardedPorts h w =
     (case Find h [AndFilter natPre] w of
        (Inl e, w1) \<Rightarrow> (Inl (NftError e), w1)
      | (Inr rules, w1) \<Rightarrow> (forwarded_ports rules, w1))"

text \<open>
  The inner loop: \<^verbatim>\<open>p <= 65535\<close> always holds of a 16 bit number, so the loop ends only at a port that
  is free; \<^const>\<open>None\<close> when \<open>n\<close> steps do not find one (all 65536 ports are looked at in as many steps).
\<close>

fun next_port :: "nat \<Rightarrow> (u16 \<Rightarrow> bool) \<Rightarrow> u16 \<Rightarrow> u16 option" where
  "next_port 0 taken p = None"
| "next_port (Suc n) taken p = (if taken p then next_port n taken (p + 1) else Some p)"

text \<open>The outer loop, from iteration \<open>i\<close> of \<open>n\<close>; \<^const>\<open>None\<close> when it does not return.\<close>

fun reserve_loop ::
  "'c cache_ops \<Rightarrow> u16 set \<Rightarrow> nat \<Rightarrow> u16 \<Rightarrow> u16 list \<Rightarrow> 'c \<Rightarrow> (u16 list \<times> socat_error option \<times> 'c) option" where
  "reserve_loop co used 0 p result c = Some (result, None, c)"
| "reserve_loop co used (Suc n) p result c =
     (case next_port 65536 (\<lambda>q. q \<in> used \<or> c_Get co (itoa (unat q)) c) p of
        None \<Rightarrow> None
      | Some q \<Rightarrow>
          if q = 65535 then Some (result, Some Exhausted, c)
          else reserve_loop co used n q (result @ [q]) (c_Set co (itoa (unat q)) c))"

text \<open>\<open>ports\<close> is the answer of the command \<^verbatim>\<open>info.port\<close>: network and port of every listener.\<close>

definition Reserve ::
  "'w host \<Rightarrow> 'c cache_ops \<Rightarrow> go_error + (string \<times> u16) list \<Rightarrow> int \<Rightarrow> 'w \<times> 'c \<Rightarrow>
     ((u16 list \<times> socat_error option) \<times> 'w \<times> 'c) option" where
  "Reserve h co ports n s =
     (case s of (w, c) \<Rightarrow>
        (case ports of
           Inl e \<Rightarrow> Some (([], Some (InternalErr e)), w, c)
         | Inr ps \<Rightarrow>
             (case getForwardedPorts h w of
                (Inl e, w1) \<Rightarrow> Some (([], Some e), w1, c)
              | (Inr fwd, w1) \<Rightarrow>
                  let used = set (map snd (filter (\<lambda>p. fst p = ''tcp'') ps)) \<union> fwd
                  in map_option (\<lambda>(r, e, c'). ((r, e), w1, c')) (reserve_loop co used (nat n) 1024 [] c))))"

section \<open>Resolving addresses\<close>

text \<open>\<open>nics\<close> are the interfaces of the machine with their addresses as text, or the error of asking for them.\<close>

definition getInterfaceMatch :: "(string \<times> (go_error + string list)) list \<Rightarrow> string \<Rightarrow> go_error + string" where
  "getInterfaceMatch nics ip =
     (case find (\<lambda>(name, addrs). case addrs of Inl e \<Rightarrow> True | Inr as \<Rightarrow> ip \<in> set as) nics of
        None \<Rightarrow> Inl (Errorf ''no match found'')
      | Some (name, Inl e) \<Rightarrow> Inl e
      | Some (name, Inr as) \<Rightarrow> Inr name)"

text \<open>The expression \<^verbatim>\<open>dnatMatch\<close>.\<close>

fun findDnat :: "string \<Rightarrow> string option" where
  "findDnat [] = None"
| "findDnat (c # s) =
     (case Option.bind (strip ''dnat to '' (c # s)) (many1 (\<lambda>x. \<not> reSpace x)) of
        Some (a, _) \<Rightarrow> Some a
      | None \<Rightarrow> findDnat s)"

definition resolve_filter :: "nat \<Rightarrow> nft_filter list" where
  "resolve_filter port = [AndFilter [dport_filter port, TableFilter ''nat'', ChainFilter ''pre'']]"

definition Resolve :: "'w host \<Rightarrow> go_error + (string \<times> (go_error + string list)) list \<Rightarrow> string \<Rightarrow> 'w \<Rightarrow> string \<times> 'w" where
  "Resolve h nics address w =
     (case getSource address of
        Inl e \<Rightarrow> (address, w)
      | Inr src \<Rightarrow>
          if length (src_ip src) = 0 then (address, w)
          else (case nics of
                  Inl e \<Rightarrow> (address, w)
                | Inr ns \<Rightarrow>
                    (case getInterfaceMatch ns (src_ip src) of
                       Inl e \<Rightarrow> (address, w)
                     | Inr nic \<Rightarrow>
                         (case Find h (resolve_filter (src_port src)) w of
                            (Inl e, w1) \<Rightarrow> (address, w1)
                          | (Inr [], w1) \<Rightarrow> (address, w1)
                          | (Inr (r # rs), w1) \<Rightarrow>
                              (case findDnat (fr_Body r) of None \<Rightarrow> (address, w1) | Some a \<Rightarrow> (a, w1))))))"

end
