(* ===== verification/Socat_Forward.thy ===== *)
theory Socat_Forward
  imports Socat
begin

text \<open>
  What the port forwards of \<^verbatim>\<open>apps/core0/helper/socat\<close> guarantee: the reserved ports are free, sources and rules
  are read back from their texts, and with a program \<^verbatim>\<open>nft\<close> that keeps its word the operations of the
  manager list, refuse and remove exactly the forwards they should.
\<close>

section \<open>Lemmas on reserving ports\<close>

lemma next_port_Some:
  "next_port n taken p = Some q \<longleftrightarrow>
     (\<exists>k < n. q = p + of_nat k \<and> \<not> taken q \<and> (\<forall>j < k. taken (p + of_nat j)))"
proof (induction n arbitrary: p)
  case (Suc n)
  show ?case
  proof (cases "taken p")
    case True
    have "(\<exists>k < Suc n. q = p + of_nat k \<and> \<not> taken q \<and> (\<forall>j < k. taken (p + of_nat j))) \<longleftrightarrow>
        (\<exists>k < n. q = p + of_nat (Suc k) \<and> \<not> taken q \<and> (\<forall>j < Suc k. taken (p + of_nat j)))"
    proof (intro iffI; elim exE conjE)
      fix k assume k: "k < Suc n" "q = p + of_nat k" "\<not> taken q" "\<forall>j < k. taken (p + of_nat j)"
      then obtain m where "k = Suc m" using True by (cases k) auto
      then show "\<exists>k < n. q = p + of_nat (Suc k) \<and> \<not> taken q \<and> (\<forall>j < Suc k. taken (p + of_nat j))"
        using k by blast
    next
      fix k assume "k < n" "q = p + of_nat (Suc k)" "\<not> taken q" "\<forall>j < Suc k. taken (p + of_nat j)"
      then show "\<exists>k < Suc n. q = p + of_nat k \<and> \<not> taken q \<and> (\<forall>j < k. taken (p + of_nat j))"
        by (intro exI [of _ "Suc k"]) blast
    qed
    also have "\<dots> \<longleftrightarrow> (\<exists>k < n. q = (p + 1) + of_nat k \<and> \<not> taken q \<and> (\<forall>j < k. taken ((p + 1) + of_nat j)))"
      using True by (simp add: All_less_Suc2 add.assoc)
    finally show ?thesis using True Suc by simp
  next
    case False
    then show ?thesis by force
  qed
qed simp

lemma next_port_None: "next_port n taken p = None \<longleftrightarrow> (\<forall>k < n. taken (p + of_nat k))"
proof (induction n arbitrary: p)
  case (Suc n)
  have "(\<forall>k < Suc n. taken (p + of_nat k)) \<longleftrightarrow> taken p \<and> (\<forall>k < n. taken ((p + 1) + of_nat k))"
    by (simp add: All_less_Suc2 add.assoc)
  then show ?case using Suc by simp
qed simp

text \<open>When a port from \<open>p\<close> on is free, the loop stops at the first such port.\<close>

lemma next_port_first:
  assumes "\<not> taken q" "p \<le> q"
  shows "\<exists>r. next_port 65536 taken p = Some r \<and> \<not> taken r \<and> p \<le> r \<and> r \<le> q \<and> (\<forall>x. p \<le> x \<longrightarrow> x < r \<longrightarrow> taken x)"
proof -
  let ?P = "\<lambda>k. \<not> taken (p + of_nat k)"
  have q: "q = p + of_nat (unat (q - p))" by simp
  then have "?P (unat (q - p))" using assms(1) by simp
  define k where "k = (LEAST k. ?P k)"
  have k: "?P k" "k \<le> unat (q - p)" "\<And>j. j < k \<Longrightarrow> \<not> ?P j"
    using \<open>?P (unat (q - p))\<close> LeastI [of ?P] Least_le [of ?P] not_less_Least [of _ ?P] unfolding k_def by blast+
  have pq: "unat (q - p) = unat q - unat p" using assms(2) by (rule unat_sub)
  have bound: "unat p + k \<le> unat q" using k(2) pq assms(2) by (simp add: word_le_nat_alt)
  then have small: "unat p + k < 65536" using unsigned_less [of q, where 'a = nat] by simp
  then have uk: "unat (p + of_nat k) = unat p + k"
    by (simp add: unat_word_ariths unat_of_nat)
  have "taken x" if "p \<le> x" "x < p + of_nat k" for x
  proof -
    have "unat p \<le> unat x" "unat x < unat p + k" using that uk by (simp_all add: word_le_nat_alt word_less_nat_alt)
    then have "unat x - unat p < k" by simp
    moreover have "p + of_nat (unat x - unat p) = x"
      using that(1) by (simp add: unat_sub [symmetric] word_le_nat_alt)
    ultimately show ?thesis using k(3) by metis
  qed
  moreover have "next_port 65536 taken p = Some (p + of_nat k)"
    unfolding next_port_Some using k(1,3) small by (intro exI [of _ k]) auto
  ultimately show ?thesis
    using k(1) uk bound by (auto simp: word_le_nat_alt)
qed

definition cache_laws :: "'c cache_ops \<Rightarrow> bool" where
  "cache_laws co \<longleftrightarrow> (\<forall>k k' c. c_Get co k (c_Set co k' c) \<longleftrightarrow> k = k' \<or> c_Get co k c)"

definition free :: "'c cache_ops \<Rightarrow> u16 set \<Rightarrow> 'c \<Rightarrow> u16 \<Rightarrow> bool" where
  "free co used c q \<longleftrightarrow> q \<notin> used \<and> \<not> c_Get co (itoa (unat q)) c"

lemma free_set:
  "cache_laws co \<Longrightarrow> free co used (c_Set co (itoa (unat q)) c) r \<longleftrightarrow> r \<noteq> q \<and> free co used c r"
  by (auto simp: cache_laws_def free_def itoa_inject word_unat_eq_iff)

lemma reserve_loop_free:
  assumes "cache_laws co"
  shows "n \<le> card {q. p \<le> q \<and> q < 65535 \<and> free co used c q} \<Longrightarrow>
    \<exists>new c'. reserve_loop co used n p result c = Some (result @ new, None, c') \<and> length new = n \<and> distinct new \<and>
      (\<forall>q \<in> set new. p \<le> q \<and> q < 65535 \<and> free co used c q) \<and>
      (\<forall>k. c_Get co k c' \<longleftrightarrow> c_Get co k c \<or> (\<exists>q \<in> set new. k = itoa (unat q)))"
proof (induction n arbitrary: p result c)
  case (Suc n)
  let ?F = "\<lambda>p c. {q. p \<le> q \<and> q < 65535 \<and> free co used c q}"
  let ?t = "\<lambda>q. q \<in> used \<or> c_Get co (itoa (unat q)) c"
  have "0 < card (?F p c)" using Suc.prems by linarith
  then have "?F p c \<noteq> {}" by (metis card.empty less_irrefl)
  then obtain q0 where q0: "p \<le> q0" "q0 < 65535" "free co used c q0" by blast
  then obtain r where r: "next_port 65536 ?t p = Some r" "free co used c r" "p \<le> r" "r \<le> q0"
      "\<forall>x. p \<le> x \<longrightarrow> x < r \<longrightarrow> ?t x"
    using next_port_first [of ?t q0 p] by (auto simp: free_def)
  let ?c = "c_Set co (itoa (unat r)) c"
  have "?F p c \<subseteq> insert r (?F r ?c)"
  proof
    fix x assume x: "x \<in> ?F p c"
    then have "\<not> x < r" using r(5) by (auto simp: free_def)
    then show "x \<in> insert r (?F r ?c)" using x by (auto simp: free_set [OF assms])
  qed
  then have "card (?F p c) \<le> card (insert r (?F r ?c))" by (intro card_mono) simp_all
  also have "\<dots> \<le> Suc (card (?F r ?c))" by (simp add: card_insert_if)
  finally have "n \<le> card (?F r ?c)" using Suc.prems by simp
  from Suc.IH [OF this, of "result @ [r]"] obtain new c' where
    n: "reserve_loop co used n r (result @ [r]) ?c = Some ((result @ [r]) @ new, None, c')" "length new = n" "distinct new"
      "\<forall>q \<in> set new. r \<le> q \<and> q < 65535 \<and> free co used ?c q"
      "\<forall>k. c_Get co k c' \<longleftrightarrow> c_Get co k ?c \<or> (\<exists>q \<in> set new. k = itoa (unat q))" by blast
  have "r \<noteq> 65535" using r(4) q0(2) by auto
  then have "reserve_loop co used (Suc n) p result c = Some (result @ (r # new), None, c')"
    using r(1) n(1) by simp
  moreover have "\<forall>q \<in> set (r # new). p \<le> q \<and> q < 65535 \<and> free co used c q"
    using n(4) r(2-4) q0(2) by (auto simp: free_set [OF assms])
  moreover have "distinct (r # new)" using n(3,4) by (auto simp: free_set [OF assms])
  moreover have "\<forall>k. c_Get co k c' \<longleftrightarrow> c_Get co k c \<or> (\<exists>q \<in> set (r # new). k = itoa (unat q))"
    using n(5) assms by (auto simp: cache_laws_def)
  moreover have "length (r # new) = Suc n" using n(2) by simp
  ultimately show ?case by blast
qed simp

section \<open>Lemmas on sources and rules\<close>

lemma strip_append [simp]: "strip p (p @ s) = Some s"
  by (simp add: strip_def)

lemma many1_append:
  assumes "a \<noteq> []" "list_all P a" "s = [] \<or> \<not> P (hd s)"
  shows "many1 P (a @ s) = Some (a, s)"
proof -
  have "takeWhile P (a @ s) = a" "dropWhile P (a @ s) = s"
    using assms(2,3) by (cases s; auto simp: list_all_iff takeWhile_append dropWhile_append)+
  then show ?thesis using assms(1) by (simp add: many1_def)
qed

lemma hexDigit_facts:
  assumes "d < 16"
  shows "isHex (hexDigit d)" "hexVal (hexDigit d) = d"
proof -
  have "d \<in> set [0..<16]" using assms by simp
  then have "isHex (hexDigit d) \<and> hexVal (hexDigit d) = d"
    by (auto simp: upt_rec isHex_def hexDigit_def isDigit_def hexVal_def)
  then show "isHex (hexDigit d)" "hexVal (hexDigit d) = d" by simp_all
qed

lemma hex8_isHex: "list_all isHex (hex8 n)"
  by (simp add: hex8_def list_all_iff hexDigit_facts)

lemma hex_step: "16 * (n div 16 ^ Suc j) + n div 16 ^ j mod 16 = n div (16 :: nat) ^ j"
  using div_mult_mod_eq [of "n div 16 ^ j" 16] by (simp add: div_mult2_eq [symmetric] mult.commute)

lemma fromHex_hex8: "n < 2 ^ 32 \<Longrightarrow> fromHex (hex8 n) = n"
proof -
  assume "n < 2 ^ 32"
  have "fromHex (hex8 n) = foldl (\<lambda>m i. 16 * m + n div 16 ^ (7 - i) mod 16) 0 [0..<8]"
    by (simp add: fromHex_def hex8_def foldl_map hexDigit_facts)
  also have "\<dots> = foldl (\<lambda>m j. 16 * m + n div 16 ^ j mod 16) 0 [7, 6, 5, 4, 3, 2, 1, 0]"
    by (simp add: upt_rec)
  also have "\<dots> = n div 16 ^ 0"
  proof -
    have "n div 16 ^ 7 mod 16 = n div 16 ^ 7" using \<open>n < 2 ^ 32\<close> by (simp add: less_mult_imp_div_less)
    then show ?thesis
      using hex_step [of n 6] hex_step [of n 5] hex_step [of n 4] hex_step [of n 3] hex_step [of n 2] hex_step [of n 1]
        hex_step [of n 0] by simp
  qed
  finally show ?thesis by simp
qed

lemma length_hex8 [simp]: "length (hex8 n) = 8"
  by (simp add: hex8_def)

lemma itoa_not_space: "c \<in> set (itoa n) \<Longrightarrow> isDigit c"
  using itoa_digits by (auto simp: list_all_iff)

lemma hd_itoa_digit: "isDigit (hd (itoa n))"
  using itoa_digits [of n] by (cases "itoa n") auto

lemma sscanf_itoa: "n < 2 ^ 64 \<Longrightarrow> sscanf_uint (itoa n) = Some n"
proof -
  assume n: "n < 2 ^ 64"
  obtain c s where c: "itoa n = c # s" "isDigit c" using hd_itoa_digit [of n] by (cases "itoa n") auto
  then have "skipSpace (itoa n) = Some (itoa n)" by (auto simp: goSpace_def isDigit_def)
  moreover have "takeWhile isDigit (itoa n) = itoa n" using itoa_digits [of n] by (auto simp: takeWhile_eq_all_conv list_all_iff)
  ultimately have "sscanf_uint (itoa n) = (if itoa n = [] \<or> atoi (itoa n) \<ge> 2 ^ 64 then None else Some (atoi (itoa n)))"
    by (simp only: sscanf_uint_def option.simps Let_def)
  then show ?thesis using n by simp
qed

lemma dport_tail:
  assumes "validProtocol proto"
  shows "ruleTail ('' '' @ proto @ '' dport '' @ itoa port @ '' mark set 0x'' @ hex8 m @ '' dnat to '' @ IP_String a @ '':'' @ itoa dest) =
    Some (proto, itoa port, hex8 m, IP_String a, itoa dest)"
proof -
  have d: "many1 isDigit (itoa port @ '' mark set 0x'' @ s) = Some (itoa port, '' mark set 0x'' @ s)" for s
    by (rule many1_append) (simp_all add: itoa_digits isDigit_def)
  have h: "many1 isHex (hex8 m @ '' dnat to '' @ s) = Some (hex8 m, '' dnat to '' @ s)" for s
    using length_hex8 [of m] by (intro many1_append) (auto simp: hex8_isHex isHex_def isDigit_def simp del: length_hex8)
  have "CHR '':'' \<notin> set (IP_String a)" by (rule IP_String_not_in) (simp_all add: isDigit_def)
  then have i: "many1 (\<lambda>c. c \<noteq> CHR '':'') (IP_String a @ '':'' @ s) = Some (IP_String a, '':'' @ s)" for s
    by (intro many1_append) (auto simp: list_all_iff IP_String_def)
  have e: "many1 isDigit (itoa dest) = Some (itoa dest, [])"
    using many1_append [of "itoa dest" isDigit "[]"] by (simp add: itoa_digits)
  have p: "orElse (map_option (\<lambda>t. (''tcp'', t)) (strip '' tcp'' ('' '' @ proto @ s)))
      (map_option (\<lambda>t. (''udp'', t)) (strip '' udp'' ('' '' @ proto @ s))) = Some (proto, s)" for s
    using assms by (auto simp: validProtocol_def orElse_def strip_def)
  show ?thesis
    unfolding ruleTail_def p Option.bind.bind_lunit prod.case strip_append d h i e by simp
qed

lemma findRule_skip: "ruleAt (c # s) = None \<Longrightarrow> findRule (c # s) = findRule s"
  by (simp add: orElse_def)

lemma findRule_hit: "ruleAt s = Some m \<Longrightarrow> findRule s = Some m"
  by (cases s) (simp_all add: orElse_def)

lemma findRule_daddr: "findRule (''ip daddr @host'' @ s) = findRule s"
  by (simp add: findRule_skip ruleAt_def strip_def orElse_def withSource_def ruleTail_def)

section \<open>Forwards as the kernel lists them\<close>

datatype fsrc = AnySrc | IpSrc ip4 | NetSrc ipnet | NicSrc string

record fwd =
  fw_ns :: ns
  fw_src :: fsrc
  fw_port :: nat
  fw_protocols :: "string list"
  fw_ip :: ip4
  fw_dest :: nat

text \<open>The expressions \<^verbatim>\<open>nft\<close> lists for the rule of a forward and one of its protocols.\<close>

definition payload_match :: "string \<Rightarrow> string \<Rightarrow> json \<Rightarrow> nft_block" where
  "payload_match name field right =
     [(''match'', JObj [(''left'', JObj [(''payload'', JObj [(''name'', JStr name), (''field'', JStr field)])]), (''right'', right)])]"

fun src_exprs :: "fsrc \<Rightarrow> nft_block list" where
  "src_exprs AnySrc = []"
| "src_exprs (IpSrc a) = [payload_match ''ip'' ''saddr'' (JStr (IP_String a))]"
| "src_exprs (NetSrc n) = [payload_match ''ip'' ''saddr''
     (JObj [(''prefix'', JObj [(''addr'', JStr (IP_String (net_IP n))), (''len'', JNum (int (net_Len n)))])])]"
| "src_exprs (NicSrc nic) = [[(''match'', JObj [(''left'', JObj [(''meta'', JStr ''iifname'')]), (''right'', JStr nic)])]]"

definition forward_exprs :: "fwd \<Rightarrow> string \<Rightarrow> nft_block list" where
  "forward_exprs fw proto =
     payload_match ''ip'' ''daddr'' (JStr ''@host'') # src_exprs (fw_src fw) @
     [payload_match proto ''dport'' (JNum (int (fw_port fw))),
      [(''mangle'', JObj [(''left'', JObj [(''meta'', JStr ''mark'')]), (''right'', JNum (uint (fw_ns fw)))])],
      [(''dnat'', JObj [(''port'', JNum (int (fw_dest fw))), (''addr'', JStr (IP_String (fw_ip fw)))])]]"

fun src_text :: "fsrc \<Rightarrow> string" where
  "src_text AnySrc = []"
| "src_text (IpSrc a) = IP_String a"
| "src_text (NetSrc n) = IPNet_String n"
| "src_text (NicSrc nic) = nic"

definition wf_nic :: "string \<Rightarrow> bool" where
  "wf_nic nic \<longleftrightarrow> nic \<noteq> [] \<and> CHR 0x22 \<notin> set nic \<and> \<not> isDigit (hd nic) \<and> hd nic \<noteq> CHR ''@''"

definition wf_forward :: "fwd \<Rightarrow> bool" where
  "wf_forward fw \<longleftrightarrow>
     0 < fw_port fw \<and> fw_port fw < 65536 \<and> fw_dest fw < 65536 \<and>
     fw_protocols fw \<noteq> [] \<and> list_all validProtocol (fw_protocols fw) \<and>
     (case fw_src fw of NicSrc nic \<Rightarrow> wf_nic nic | NetSrc n \<Rightarrow> net_Len n \<le> 32 | _ \<Rightarrow> True)"

lemmas field_defs = field_string_def field_struct_def field_uint_def field_int_def field_raw_def field_array_def lower_def

fun src_part :: "fsrc \<Rightarrow> string" where
  "src_part AnySrc = []"
| "src_part (NicSrc nic) = '' iifname '' @ [CHR 0x22] @ nic @ [CHR 0x22]"
| "src_part s = '' ip saddr '' @ src_text s"

definition forward_tail :: "fwd \<Rightarrow> string \<Rightarrow> string" where
  "forward_tail fw proto =
     '' '' @ proto @ '' dport '' @ itoa (fw_port fw) @ '' mark set 0x'' @ hex8 (unat (fw_ns fw)) @ '' dnat to '' @
     IP_String (fw_ip fw) @ '':'' @ itoa (fw_dest fw)"

lemma IP_String_hd: "IP_String a \<noteq> []" "isDigit (hd (IP_String a))"
  using hd_itoa_digit by (simp_all add: IP_String_def hd_append)

lemma renderExp_payload:
  assumes "renderRight (Some right) = Inr t" "name \<noteq> []"
  shows "renderExp ''match'' (JObj [(''left'', JObj [(''payload'', JObj [(''name'', JStr name), (''field'', JStr field)])]), (''right'', right)]) =
    Inr (name @ '' '' @ field @ '' '' @ t)"
  using assms by (simp add: renderExp_def renderMatch_def renderLeft_def field_defs)

lemma renderRight_text: "t \<noteq> [] \<Longrightarrow> hd t = CHR ''@'' \<or> isDigit (hd t) \<Longrightarrow> renderRight (Some (JStr t)) = Inr t"
  by (simp add: renderRight_def)

lemma renderRight_port: "n < 65536 \<Longrightarrow> renderRight (Some (JNum (int n))) = Inr (itoa n)"
  by (simp add: renderRight_def sprint_float_def itoaInt_def)

lemma renderRight_net: "renderRight (Some (JObj [(''prefix'', JObj [(''addr'', JStr (IP_String a)), (''len'', JNum (int l))])])) =
    Inr (IP_String a @ ''/'' @ itoa l)" if "l \<le> 32"
  using that IP_String_hd(1) [of a] by (simp add: renderRight_def field_defs itoaInt_def)

lemma renderExp_nic: "wf_nic nic \<Longrightarrow>
    renderExp ''match'' (JObj [(''left'', JObj [(''meta'', JStr ''iifname'')]), (''right'', JStr nic)]) =
    Inr (''iifname '' @ [CHR 0x22] @ nic @ [CHR 0x22])"
  by (simp add: renderExp_def renderMatch_def renderLeft_def renderRight_def field_defs wf_nic_def)

lemma renderExp_mangle: "renderExp ''mangle'' (JObj [(''left'', JObj [(''meta'', JStr ''mark'')]), (''right'', JNum (uint (n :: u32)))]) =
    Inr (''mark set 0x'' @ hex8 (unat n))"
  using unsigned_less [of n, where 'a = int] by (simp add: renderExp_def renderMangle_def field_defs)

lemma renderExp_dnat: "d < 65536 \<Longrightarrow>
    renderExp ''dnat'' (JObj [(''port'', JNum (int d)), (''addr'', JStr (IP_String a))]) = Inr (''dnat to '' @ IP_String a @ '':'' @ itoa d)"
  by (simp add: renderExp_def renderDnat_def field_defs)

lemma renderRule_loop_app:
  "renderRule_loop buf (es @ fs) = (case renderRule_loop buf es of Inl e \<Rightarrow> Inl e | Inr t \<Rightarrow> renderRule_loop t fs)"
  by (induction buf es rule: renderRule_loop.induct) (auto split: list.splits sum.splits)

lemma render_src:
  "wf_forward fw \<Longrightarrow> buf \<noteq> [] \<Longrightarrow> renderRule_loop buf (src_exprs (fw_src fw)) = Inr (buf @ src_part (fw_src fw))"
  by (cases "fw_src fw")
     (auto simp: payload_match_def renderExp_payload renderRight_text IP_String_hd renderRight_net renderExp_nic
        wf_forward_def IPNet_String_def)

lemma render_forward:
  assumes "wf_forward fw" "proto \<in> set (fw_protocols fw)"
  shows "renderRule (forward_exprs fw proto) = Inr (''ip daddr @host'' @ src_part (fw_src fw) @ forward_tail fw proto)"
proof -
  have d: "renderRule_loop [] [payload_match ''ip'' ''daddr'' (JStr ''@host'')] = Inr ''ip daddr @host''"
    by (simp add: payload_match_def renderExp_payload renderRight_text)
  have "proto \<noteq> []" using assms by (auto simp: wf_forward_def list_all_iff validProtocol_def)
  then have t: "renderRule_loop buf [payload_match proto ''dport'' (JNum (int (fw_port fw))),
      [(''mangle'', JObj [(''left'', JObj [(''meta'', JStr ''mark'')]), (''right'', JNum (uint (fw_ns fw)))])],
      [(''dnat'', JObj [(''port'', JNum (int (fw_dest fw))), (''addr'', JStr (IP_String (fw_ip fw)))])]] =
    Inr (buf @ forward_tail fw proto)" if "buf \<noteq> []" for buf
    using assms(1) that
    by (simp add: payload_match_def renderExp_payload renderRight_port renderExp_mangle renderExp_dnat forward_tail_def wf_forward_def)
  have "renderRule_loop ''ip daddr @host'' (src_exprs (fw_src fw)) = Inr (''ip daddr @host'' @ src_part (fw_src fw))"
    by (rule render_src [OF assms(1)]) simp
  note steps = renderRule_loop_app [of "[]" "[payload_match ''ip'' ''daddr'' (JStr ''@host'')]"] d sum.case
    renderRule_loop_app [of "''ip daddr @host''" "src_exprs (fw_src fw)"] this
  have "forward_exprs fw proto = [payload_match ''ip'' ''daddr'' (JStr ''@host'')] @ src_exprs (fw_src fw) @
      [payload_match proto ''dport'' (JNum (int (fw_port fw))),
      [(''mangle'', JObj [(''left'', JObj [(''meta'', JStr ''mark'')]), (''right'', JNum (uint (fw_ns fw)))])],
      [(''dnat'', JObj [(''port'', JNum (int (fw_dest fw))), (''addr'', JStr (IP_String (fw_ip fw)))])]]"
    by (simp add: forward_exprs_def)
  then show ?thesis
    unfolding renderRule_def steps by (simp only: steps) (subst t, simp_all)
qed

lemma findRule_forward:
  assumes "wf_forward fw" "proto \<in> set (fw_protocols fw)"
  shows "findRule (''ip daddr @host'' @ src_part (fw_src fw) @ forward_tail fw proto) =
    Some (src_text (fw_src fw), proto, itoa (fw_port fw), hex8 (unat (fw_ns fw)), IP_String (fw_ip fw), itoa (fw_dest fw))"
    (is "_ = Some (_, ?m)")
proof -
  have v: "validProtocol proto" using assms by (auto simp: wf_forward_def list_all_iff)
  have t: "ruleTail (forward_tail fw proto) = Some ?m"
    unfolding forward_tail_def by (rule dport_tail [OF v])
  obtain u where u: "forward_tail fw proto = CHR '' '' # u" by (simp add: forward_tail_def)
  have sp: "many1 (\<lambda>c. \<not> reSpace c) (a @ forward_tail fw proto) = Some (a, forward_tail fw proto)"
    if "a \<noteq> []" "\<forall>c \<in> set a. \<not> reSpace c" for a
    using that by (intro many1_append) (auto simp: list_all_iff u reSpace_def)
  have saddr: "findRule ('' ip saddr '' @ a @ forward_tail fw proto) = Some (a, ?m)"
    if "a \<noteq> []" "\<forall>c \<in> set a. \<not> reSpace c" for a
  proof -
    have "ruleAt (''ip saddr '' @ a @ forward_tail fw proto) = Some (a, ?m)"
      unfolding ruleAt_def strip_append Option.bind.bind_lunit sp [OF that] prod.case
      by (simp add: withSource_def t orElse_def)
    then have "findRule (''ip saddr '' @ a @ forward_tail fw proto) = Some (a, ?m)" by (rule findRule_hit)
    then show ?thesis
      by (simp add: findRule_skip ruleAt_def strip_def orElse_def withSource_def ruleTail_def)
  qed
  have any: "findRule (forward_tail fw proto) = Some ([], ?m)"
    by (rule findRule_hit) (simp add: ruleAt_def strip_def orElse_def withSource_def t, simp add: u)
  have nic: "findRule ('' iifname '' @ [CHR 0x22] @ a @ [CHR 0x22] @ forward_tail fw proto) = Some (a, ?m)"
    if "wf_nic a" for a
  proof -
    have "many1 (\<lambda>c. c \<noteq> CHR 0x22) (a @ [CHR 0x22] @ forward_tail fw proto) = Some (a, [CHR 0x22] @ forward_tail fw proto)"
      using that by (intro many1_append) (auto simp: list_all_iff wf_nic_def)
    then have "ruleAt ((''iifname '' @ [CHR 0x22]) @ a @ [CHR 0x22] @ forward_tail fw proto) = Some (a, ?m)"
      unfolding ruleAt_def strip_append Option.bind.bind_lunit
      by (simp add: withSource_def t orElse_def strip_def)
    then have "findRule (''iifname '' @ [CHR 0x22] @ a @ [CHR 0x22] @ forward_tail fw proto) = Some (a, ?m)"
      by (intro findRule_hit) simp
    then show ?thesis
      by (simp add: findRule_skip ruleAt_def strip_def orElse_def withSource_def ruleTail_def)
  qed
  have dig: "isDigit c \<Longrightarrow> \<not> reSpace c" for c by (auto simp: reSpace_def isDigit_def)
  have sp4: "\<forall>c \<in> set (IP_String a). \<not> reSpace c" for a
  proof
    fix c assume "c \<in> set (IP_String a)"
    then have "isDigit c \<or> c = CHR ''.''" by (rule IP_String_chars)
    then show "\<not> reSpace c" using dig by (auto simp: reSpace_def)
  qed
  have sp5: "\<forall>c \<in> set (IPNet_String n). \<not> reSpace c" for n
  proof
    fix c assume "c \<in> set (IPNet_String n)"
    then consider "c \<in> set (IP_String (net_IP n))" | "c = CHR ''/''" | "c \<in> set (itoa (net_Len n))"
      by (auto simp: IPNet_String_def)
    then show "\<not> reSpace c"
      by cases (use sp4 dig itoa_not_space in \<open>auto simp: reSpace_def\<close>)
  qed
  show ?thesis
    unfolding findRule_daddr
  proof (cases "fw_src fw")
    case (NicSrc a)
    then show "findRule (src_part (fw_src fw) @ forward_tail fw proto) = Some (src_text (fw_src fw), ?m)"
      using nic [of a] assms(1) by (simp add: wf_forward_def del: findRule.simps)
  next
    case AnySrc
    then show "findRule (src_part (fw_src fw) @ forward_tail fw proto) = Some (src_text (fw_src fw), ?m)"
      using any by simp
  next
    case (IpSrc a)
    then show "findRule (src_part (fw_src fw) @ forward_tail fw proto) = Some (src_text (fw_src fw), ?m)"
      using saddr [of "IP_String a"] sp4 [of a] IP_String_hd(1) [of a] by (simp del: findRule.simps)
  next
    case (NetSrc n)
    have "IPNet_String n \<noteq> []" using IP_String_hd(1) [of "net_IP n"] by (simp add: IPNet_String_def)
    then show "findRule (src_part (fw_src fw) @ forward_tail fw proto) = Some (src_text (fw_src fw), ?m)"
      using saddr [of "IPNet_String n"] sp5 [of n] NetSrc by (simp del: findRule.simps)
  qed
qed

definition fwd_rule :: "fwd \<Rightarrow> string \<Rightarrow> int \<Rightarrow> nft_rule" where
  "fwd_rule fw proto handle =
     \<lparr>rb_Family = ''ip'', rb_Expresion = forward_exprs fw proto, rb_Table = ''nat'', rb_Handle = handle, rb_Chain = ''pre''\<rparr>"

text \<open>The rule the listing of a forward is read back to, with the protocols \<open>ps\<close>.\<close>

definition listed :: "fwd \<Rightarrow> string list \<Rightarrow> rule" where
  "listed fw ps =
     \<lparr>r_ns = fw_ns fw, r_source = \<lparr>src_ip = src_text (fw_src fw), src_port = fw_port fw, src_protocols = ps\<rparr>,
      r_port = int (fw_dest fw), r_ip = IP_String (fw_ip fw)\<rparr>"

lemma read_forward:
  assumes "wf_forward fw" "proto \<in> set (fw_protocols fw)"
  shows "getRuleFromNFTRule (''ip daddr @host'' @ src_part (fw_src fw) @ forward_tail fw proto) = Inr (listed fw [proto])"
  using assms(1) fromHex_hex8 [of "unat (fw_ns fw)"] unsigned_less [of "fw_ns fw", where 'a = nat]
  unfolding getRuleFromNFTRule_def findRule_forward [OF assms] by (simp add: listed_def wf_forward_def)

lemma rendered_forward:
  assumes "wf_forward fw" "proto \<in> set (fw_protocols fw)"
  shows "\<not> isl (rendered (fwd_rule fw proto k))"
    "getRuleFromNFTRule (fr_Body (projr (rendered (fwd_rule fw proto k)))) = Inr (listed fw [proto])"
  using read_forward [OF assms] by (simp_all add: rendered_def fwd_rule_def render_forward [OF assms])

lemma some_exp_Nil: "some_exp t f (r\<lparr>rb_Expresion := []\<rparr>) = False"
  by (simp add: some_exp_def)

lemma mark_forward: "Match (MarkFilter n) (fwd_rule fw proto k) \<longleftrightarrow> fw_ns fw = n"
proof -
  have "uint (fw_ns fw) < 2 ^ 32" using unsigned_less [of "fw_ns fw", where 'a = int] by simp
  then show ?thesis
    by (cases "fw_src fw")
       (auto simp: some_exp_def fwd_rule_def forward_exprs_def payload_match_def matchMeta_def field_defs word_unat_eq_iff)
qed

lemma dport_forward:
  assumes "wf_forward fw" "proto \<in> set (fw_protocols fw)" "port < 65536"
  shows "Match (dport_filter port) (fwd_rule fw proto k) \<longleftrightarrow> fw_port fw = port"
proof -
  have "proto = ''tcp'' \<or> proto = ''udp''" "fw_port fw < 65536"
    using assms by (auto simp: wf_forward_def list_all_iff validProtocol_def)
  moreover have "unat (of_nat port :: u64) = port" using assms(3) by (simp add: unat_of_nat)
  ultimately show ?thesis
    by (cases "fw_src fw")
       (auto simp: dport_filter_def some_exp_def fwd_rule_def forward_exprs_def payload_match_def matchIntExp_def payload_of_def
          field_defs)
qed

lemma nat_pre_forward: "Match (TableFilter ''nat'') (fwd_rule fw proto k)" "Match (ChainFilter ''pre'') (fwd_rule fw proto k)"
  by (simp_all add: fwd_rule_def)

text \<open>The rules of a list of forwards; \<open>hdl\<close> gives the handle of a port and a protocol.\<close>

definition fwd_rules :: "(nat \<Rightarrow> string \<Rightarrow> int) \<Rightarrow> fwd list \<Rightarrow> nft_rule list" where
  "fwd_rules hdl fws = concat (map (\<lambda>fw. map (\<lambda>p. fwd_rule fw p (hdl (fw_port fw) p)) (fw_protocols fw)) fws)"

lemma add_rule_new: "src_port (r_source r) \<notin> fst ` set rules \<Longrightarrow> add_rule r rules = rules @ [(src_port (r_source r), r)]"
  by (induction r rules rule: add_rule.induct) auto

lemma add_rule_last:
  "fw_port fw \<notin> fst ` set rules \<Longrightarrow>
   add_rule (listed fw [p]) (rules @ [(fw_port fw, listed fw ps)]) = rules @ [(fw_port fw, listed fw (ps @ [p]))]"
  by (induction rules) (auto simp: listed_def)

lemma rules_one:
  assumes "wf_forward fw" "fw_port fw \<notin> fst ` set acc"
  shows "set ps \<subseteq> set (fw_protocols fw) \<Longrightarrow>
    rulesFromMatches (map (\<lambda>p. projr (rendered (fwd_rule fw p (k p)))) ps @ ms) (acc @ [(fw_port fw, listed fw qs)]) =
    rulesFromMatches ms (acc @ [(fw_port fw, listed fw (qs @ ps))])"
proof (induction ps arbitrary: qs)
  case (Cons p ps)
  then show ?case
    using rendered_forward(2) [OF assms(1), of p "k p"] add_rule_last [OF assms(2), of p qs] by simp
qed simp

lemma rules_forward:
  assumes "wf_forward fw" "fw_port fw \<notin> fst ` set acc"
  shows "rulesFromMatches (map (\<lambda>p. projr (rendered (fwd_rule fw p (k p)))) (fw_protocols fw) @ ms) acc =
    rulesFromMatches ms (acc @ [(fw_port fw, listed fw (fw_protocols fw))])"
proof -
  obtain p ps where p: "fw_protocols fw = p # ps" using assms(1) by (cases "fw_protocols fw") (auto simp: wf_forward_def)
  have "add_rule (listed fw [p]) acc = acc @ [(fw_port fw, listed fw [p])]"
    using add_rule_new [of "listed fw [p]" acc] assms(2) by (simp add: listed_def)
  moreover have "set ps \<subseteq> set (fw_protocols fw)" by (auto simp: p)
  note rules_one [OF assms this, of k ms "[p]"]
  ultimately show ?thesis
    using rendered_forward(2) [OF assms(1), of p "k p"] by (simp add: p)
qed

lemma rules_forwards:
  "list_all wf_forward fws \<Longrightarrow> distinct (map fw_port fws) \<Longrightarrow> fst ` set acc \<inter> fw_port ` set fws = {} \<Longrightarrow>
   rulesFromMatches (map (projr \<circ> rendered) (fwd_rules hdl fws)) acc =
   Inr (acc @ map (\<lambda>fw. (fw_port fw, listed fw (fw_protocols fw))) fws)"
proof (induction fws arbitrary: acc)
  case Nil
  then show ?case by (simp add: fwd_rules_def)
next
  case (Cons fw fws)
  have m: "map (projr \<circ> rendered) (fwd_rules hdl (fw # fws)) =
      map (\<lambda>p. projr (rendered (fwd_rule fw p (hdl (fw_port fw) p)))) (fw_protocols fw) @ map (projr \<circ> rendered) (fwd_rules hdl fws)"
    by (simp add: fwd_rules_def)
  have "rulesFromMatches (map (projr \<circ> rendered) (fwd_rules hdl (fw # fws))) acc =
      rulesFromMatches (map (projr \<circ> rendered) (fwd_rules hdl fws)) (acc @ [(fw_port fw, listed fw (fw_protocols fw))])"
    unfolding m by (rule rules_forward) (use Cons.prems in auto)
  also have "\<dots> = Inr ((acc @ [(fw_port fw, listed fw (fw_protocols fw))]) @ map (\<lambda>fw. (fw_port fw, listed fw (fw_protocols fw))) fws)"
    by (rule Cons.IH) (use Cons.prems in auto)
  finally show ?case by (simp only: append.simps append_assoc list.map)
qed

lemma fwd_rules_filter:
  "filter (\<lambda>r. Match (MarkFilter n) r) (fwd_rules hdl fws) = fwd_rules hdl (filter (\<lambda>fw. fw_ns fw = n) fws)"
  by (induction fws) (auto simp: fwd_rules_def filter_map comp_def mark_forward simp del: Match.simps)

lemma selects_marked: "selects [AndFilter (natPre @ [MarkFilter n])] r \<longleftrightarrow>
    rb_Table r = ''nat'' \<and> rb_Chain r = ''pre'' \<and> Match (MarkFilter n) r"
  by (simp add: selects_def natPre_def)

lemma selects_natPre: "selects [AndFilter natPre] r \<longleftrightarrow> rb_Table r = ''nat'' \<and> rb_Chain r = ''pre''"
  by (simp add: selects_def natPre_def)

lemma drop_found_ok:
  assumes "nft_tool h ruleset" "distinct (map rule_id (ruleset w))" "renders fs (ruleset w)"
  shows "\<exists>w'. drop_found h fs w = (None, w') \<and> ruleset w' = filter (\<lambda>r. \<not> selects fs r) (ruleset w)"
proof -
  obtain w1 where w1: "Find h fs w = (Inr (map (projr \<circ> rendered) (filter (selects fs) (ruleset w))), w1)"
    "ruleset w1 = ruleset w" using Find_ok [OF assms(1,3)] by blast
  have "map (\<lambda>r. (fr_Family r, fr_Table r, fr_Chain r, fr_Handle r))
      (map (projr \<circ> rendered) (filter (selects fs) (ruleset w))) = map rule_id (filter (selects fs) (ruleset w))"
    unfolding map_map using assms(3) by (intro map_cong) (auto simp: rendered_ids renders_def list_all_iff)
  then show ?thesis
    using w1 drop_selected [OF assms(1,2) w1(2), of fs] by (auto simp: drop_found_def simp del: map_map)
qed

lemma fwd_rules_mem:
  "fw \<in> set fws \<Longrightarrow> p \<in> set (fw_protocols fw) \<Longrightarrow> fwd_rule fw p (hdl (fw_port fw) p) \<in> set (fwd_rules hdl fws)"
  unfolding fwd_rules_def by (simp, rule bexI [of _ fw]) simp_all

lemma fwd_rules_in: "r \<in> set (fwd_rules hdl fws) \<Longrightarrow> list_all wf_forward fws \<Longrightarrow>
    \<exists>fw p k. r = fwd_rule fw p k \<and> wf_forward fw \<and> p \<in> set (fw_protocols fw)"
  by (auto simp: fwd_rules_def list_all_iff)

section \<open>Properties\<close>

text \<open>
  The namespaces of containers and virtual machines do not collide: the system and the
  identifier are read back from a namespace.
\<close>

theorem namespace_roundtrip:
  "ns_system (Namespace system ident) = system \<and> ucast (Namespace system ident) = ident"
  unfolding ns_system_def Namespace_def
  by (intro conjI bit_word_eqI) (auto simp: bit_simps dest: bit_imp_le_length)

text \<open>
  The text of a source is read back: for a source with a port and protocols \<^verbatim>\<open>getSource\<close>
  accepts, printing it and reading the text gives the source again.
\<close>

theorem source_roundtrip:
  assumes "0 < src_port s" "src_port s < 65536" "src_protocols s \<noteq> []" "list_all validProtocol (src_protocols s)"
    and "src_ip s \<noteq> []" "CHR '':'' \<notin> set (src_ip s)" "CHR ''|'' \<notin> set (src_ip s)"
  shows "getSource (source_String s) = Inr s"
proof -
  let ?addr = "if src_ip s \<noteq> addressAll then src_ip s @ '':'' else []" and ?port = "itoa (src_port s)"
  let ?prot = "if length (src_protocols s) \<noteq> 1 \<or> src_protocols s ! 0 \<noteq> ''tcp'' then ''|'' @ join ''+'' (src_protocols s) else []"
  have str: "source_String s = (?addr @ ?port) @ ?prot" using assms(5) by (simp add: source_String_def)
  have nb: "CHR ''|'' \<notin> set (?addr @ ?port)"
    using assms(7) digit_not_in [OF itoa_digits, of "CHR ''|''"] by (auto simp: isDigit_def)
  have val: "p \<in> set (src_protocols s) \<Longrightarrow> validProtocol p" for p using assms(4) by (simp add: list_all_iff)
  have "CHR ''+'' \<notin> set p" if "p \<in> set (src_protocols s)" for p using val [OF that] by (auto simp: validProtocol_def)
  then have sp: "split (CHR ''+'') (join ''+'' (src_protocols s)) = src_protocols s" by (rule split_join [OF assms(3)])
  have dflt: "src_protocols s = [''tcp'']" if "length (src_protocols s) = 1" "src_protocols s ! 0 = ''tcp''"
    using that by (cases "src_protocols s") auto
  let ?parts = "splitN2 (CHR ''|'') (source_String s)"
  have parts: "?parts ! 0 = ?addr @ ?port" "(if length ?parts = 2 then split (CHR ''+'') (?parts ! 1) else defaultProtocols) = src_protocols s"
    unfolding str using splitN2_sep [OF nb] splitN2_no_sep [OF nb] sp dflt by (auto simp: defaultProtocols_def)
  have ok: "find (\<lambda>p. \<not> validProtocol p) (src_protocols s) = None" using val by (simp add: find_None_iff)
  have nc: "CHR '':'' \<notin> set ?port" using digit_not_in [OF itoa_digits, of "CHR '':''"] by (auto simp: isDigit_def)
  have ap: "splitN2 (CHR '':'') (?addr @ ?port) = (if src_ip s \<noteq> addressAll then [src_ip s, ?port] else [?port])"
    using splitN2_sep [OF assms(6), of ?port] splitN2_no_sep [OF nc] by auto
  show ?thesis
    unfolding getSource_def Let_def parts ok ap using assms(1,2)
    by (auto simp: sscanf_itoa)
qed


text \<open>
  C24. Listing a namespace.  When the rules of the chain are those of a list of forwards with different ports,
  \<^verbatim>\<open>List\<close> returns exactly the forwards of the namespace: each under the text of its
  source, address, port and all its protocols, with its destination port.
\<close>

theorem list_forwards:
  assumes "nft_tool h ruleset"
    and "filter (\<lambda>r. rb_Table r = ''nat'' \<and> rb_Chain r = ''pre'') (ruleset w) = fwd_rules hdl fws"
    and "list_all wf_forward fws" "distinct (map fw_port fws)"
  shows "\<exists>w'. List_ns h n w =
      (Inr (fold (\<lambda>fw m. m(source_String \<lparr>src_ip = src_text (fw_src fw), src_port = fw_port fw,
                            src_protocols = fw_protocols fw\<rparr> \<mapsto> int (fw_dest fw)))
              (filter (\<lambda>fw. fw_ns fw = n) fws) Map.empty), w') \<and> ruleset w' = ruleset w"
proof -
  let ?fs = "[AndFilter (natPre @ [MarkFilter n])]" and ?fws = "filter (\<lambda>fw. fw_ns fw = n) fws"
  have "filter (selects ?fs) (ruleset w) = filter (\<lambda>r. Match (MarkFilter n) r) (filter (\<lambda>r. rb_Table r = ''nat'' \<and> rb_Chain r = ''pre'') (ruleset w))"
    unfolding filter_filter by (rule filter_cong) (auto simp: selects_marked simp del: Match.simps)
  also have "\<dots> = fwd_rules hdl ?fws" by (simp only: assms(2) fwd_rules_filter)
  finally have sel: "filter (selects ?fs) (ruleset w) = fwd_rules hdl ?fws" .
  have wf: "list_all wf_forward ?fws" "distinct (map fw_port ?fws)"
    using assms(3,4) by (auto simp: list_all_iff distinct_map inj_on_def)
  have "\<not> isl (rendered r)" if "r \<in> set (ruleset w)" "selects ?fs r" for r
  proof -
    have "r \<in> set (filter (selects ?fs) (ruleset w))" using that by simp
    then have "r \<in> set (fwd_rules hdl ?fws)" unfolding sel .
    then show ?thesis using fwd_rules_in [OF _ wf(1)] rendered_forward(1) by blast
  qed
  then have "renders ?fs (ruleset w)" by (simp add: renders_def list_all_iff)
  from Find_ok [OF assms(1) this] obtain w' where
    w': "Find h ?fs w = (Inr (map (projr \<circ> rendered) (fwd_rules hdl ?fws)), w')" "ruleset w' = ruleset w"
    unfolding sel by blast
  have "rulesFromMatches (map (projr \<circ> rendered) (fwd_rules hdl ?fws)) [] =
      Inr (map (\<lambda>fw. (fw_port fw, listed fw (fw_protocols fw))) ?fws)"
    using rules_forwards [OF wf, of "[]" hdl] by simp
  then have "List_ns h n w = (Inr (fold (\<lambda>(p, r) m. m(source_String (r_source r) \<mapsto> r_port r))
      (map (\<lambda>fw. (fw_port fw, listed fw (fw_protocols fw))) ?fws) Map.empty), w')"
    by (simp only: List_ns_def w'(1) prod.case sum.case)
  then show ?thesis using w'(2) by (simp add: fold_map comp_def listed_def)
qed

text \<open>
  Removing a namespace.  \<^verbatim>\<open>RemoveAll\<close> succeeds, drops exactly the rules of the chain that carry the mark
  of the namespace, leaving every other rule, and afterwards \<^verbatim>\<open>List\<close> finds nothing in it.
\<close>

theorem remove_all_exact:
  assumes "nft_tool h ruleset" "distinct (map rule_id (ruleset w))"
    and "renders [AndFilter (natPre @ [MarkFilter n])] (ruleset w)"
  shows "\<exists>w'. RemoveAll h n w = (None, w') \<and>
    ruleset w' = filter (\<lambda>r. \<not> (rb_Table r = ''nat'' \<and> rb_Chain r = ''pre'' \<and> Match (MarkFilter n) r)) (ruleset w) \<and>
    (\<exists>w''. List_ns h n w' = (Inr Map.empty, w'') \<and> ruleset w'' = ruleset w')"
proof -
  let ?fs = "[AndFilter (natPre @ [MarkFilter n])]"
  obtain w' where w': "RemoveAll h n w = (None, w')" "ruleset w' = filter (\<lambda>r. \<not> selects ?fs r) (ruleset w)"
    using drop_found_ok [OF assms] by (auto simp: RemoveAll_def)
  then have "renders ?fs (ruleset w')" "filter (selects ?fs) (ruleset w') = []"
    by (auto simp: renders_def list_all_iff filter_empty_conv)
  with Find_ok [OF assms(1) this(1)] obtain w'' where "Find h ?fs w' = (Inr [], w'')" "ruleset w'' = ruleset w'" by auto
  then have "List_ns h n w' = (Inr Map.empty, w'')" by (simp add: List_ns_def)
  then show ?thesis using w' \<open>ruleset w'' = ruleset w'\<close> by (auto simp: selects_marked simp del: Match.simps)
qed

text \<open>
  One forward per port.  When the rules of the chain are those of a list of forwards, \<^verbatim>\<open>SetPortForward\<close> refuses
  a port that any of them uses, in whatever namespace, protocol or source, and changes nothing; for a port that none uses
  it applies the rules of the forward and gives the reservation of the port back once they are in place.
\<close>

theorem set_port_once:
  assumes "nft_tool h ruleset"
    and "filter (\<lambda>r. rb_Table r = ''nat'' \<and> rb_Chain r = ''pre'') (ruleset w) = fwd_rules hdl fws"
    and "list_all wf_forward fws" "getSource host = Inr src"
  shows "(src_port src \<in> fw_port ` set fws \<longrightarrow>
      (\<exists>w'. SetPortForward h co n ip host dest (w, c) = (Some (PortInUse (src_port src)), w', c) \<and> ruleset w' = ruleset w)) \<and>
    (src_port src \<notin> fw_port ` set fws \<longrightarrow>
      (\<exists>w1. ruleset w1 = ruleset w \<and> SetPortForward h co n ip host dest (w, c) =
        (case Apply h (forward_nft (Rules \<lparr>r_ns = n, r_source = src, r_port = dest, r_ip = ip\<rparr>)) w1 of
           (Inl e, w2) \<Rightarrow> (Some (NftError e), w2, c)
         | (Inr _, w2) \<Rightarrow> (None, w2, c_Delete co (itoa (src_port src)) c))))"
proof -
  let ?fs = "[AndFilter (natPre @ [dport_filter (src_port src)])]"
  have port: "src_port src < 65536" using assms(4) by (auto simp: getSource_def Let_def split: option.splits if_splits)
  have "filter (selects ?fs) (ruleset w) = filter (\<lambda>r. Match (dport_filter (src_port src)) r)
      (filter (\<lambda>r. rb_Table r = ''nat'' \<and> rb_Chain r = ''pre'') (ruleset w))"
    unfolding filter_filter by (rule filter_cong) (auto simp: selects_def natPre_def)
  then have sel: "filter (selects ?fs) (ruleset w) = filter (\<lambda>r. Match (dport_filter (src_port src)) r) (fwd_rules hdl fws)"
    by (simp only: assms(2))
  have "\<not> isl (rendered r)" if "r \<in> set (ruleset w)" "selects ?fs r" for r
  proof -
    have "r \<in> set (filter (selects ?fs) (ruleset w))" using that by simp
    then have "r \<in> set (fwd_rules hdl fws)" unfolding sel by simp
    then show ?thesis using fwd_rules_in [OF _ assms(3)] rendered_forward(1) by blast
  qed
  then have "renders ?fs (ruleset w)" by (simp add: renders_def list_all_iff)
  from Find_ok [OF assms(1) this] obtain w1 where
    w1: "Find h ?fs w = (Inr (map (projr \<circ> rendered) (filter (selects ?fs) (ruleset w))), w1)" "ruleset w1 = ruleset w" by blast
  have "filter (selects ?fs) (ruleset w) \<noteq> [] \<longleftrightarrow> src_port src \<in> fw_port ` set fws"
  proof
    assume "filter (selects ?fs) (ruleset w) \<noteq> []"
    then obtain r where r: "r \<in> set (fwd_rules hdl fws)" "Match (dport_filter (src_port src)) r"
      unfolding sel filter_empty_conv by blast
    then obtain fw p where "fw \<in> set fws" "p \<in> set (fw_protocols fw)" "r = fwd_rule fw p (hdl (fw_port fw) p)"
      by (auto simp: fwd_rules_def)
    then have "fw_port fw = src_port src"
      using r(2) dport_forward [of fw p "src_port src"] port assms(3) by (auto simp: list_all_iff)
    with \<open>fw \<in> set fws\<close> show "src_port src \<in> fw_port ` set fws" by (metis imageI)
  next
    assume "src_port src \<in> fw_port ` set fws"
    then obtain fw where fw: "fw \<in> set fws" "fw_port fw = src_port src" by auto
    then have "wf_forward fw" using assms(3) by (simp add: list_all_iff)
    moreover obtain p where "p \<in> set (fw_protocols fw)" using calculation by (cases "fw_protocols fw") (auto simp: wf_forward_def)
    ultimately have "Match (dport_filter (src_port src)) (fwd_rule fw p (hdl (fw_port fw) p))"
      "fwd_rule fw p (hdl (fw_port fw) p) \<in> set (fwd_rules hdl fws)"
      using dport_forward [of fw p "src_port src"] port fw fwd_rules_mem [OF fw(1)] by simp_all
    then show "filter (selects ?fs) (ruleset w) \<noteq> []" unfolding sel filter_empty_conv by blast
  qed
  then show ?thesis using w1 assms(4) by (auto simp: SetPortForward_def simp del: map_map)
qed

text \<open>
  Reserving ports.  When enough ports from 1024 to 65534 are neither listened on, nor forwarded nor reserved, \<^verbatim>\<open>Reserve\<close>
  returns, with as many different ports as it was asked for, all of them free ones of that range, and marks exactly these
  as reserved.
\<close>

theorem reserve_correct:
  assumes "cache_laws co" "getForwardedPorts h w = (Inr fwd, w1)"
    and "used = set (map snd (filter (\<lambda>p. fst p = ''tcp'') ps)) \<union> fwd"
    and "n \<le> card {q. 1024 \<le> q \<and> q < 65535 \<and> free co used c q}"
  shows "\<exists>new c'. Reserve h co (Inr ps) (int n) (w, c) = Some ((new, None), w1, c') \<and> length new = n \<and> distinct new \<and>
    (\<forall>q. q \<in> set new \<longrightarrow> 1024 \<le> q \<and> q < 65535 \<and> free co used c q) \<and>
    (\<forall>k. c_Get co k c' \<longleftrightarrow> c_Get co k c \<or> (\<exists>q \<in> set new. k = itoa (unat q)))"
proof -
  obtain new c' where "reserve_loop co used n 1024 [] c = Some (new, None, c')" "length new = n" "distinct new"
    "\<forall>q \<in> set new. 1024 \<le> q \<and> q < 65535 \<and> free co used c q"
    "\<forall>k. c_Get co k c' \<longleftrightarrow> c_Get co k c \<or> (\<exists>q \<in> set new. k = itoa (unat q))"
    using reserve_loop_free [OF assms(1,4), of "[]"] by auto
  moreover from this(1) have "Reserve h co (Inr ps) (int n) (w, c) = Some ((new, None), w1, c')"
    unfolding assms(3) by (simp add: Reserve_def assms(2) Let_def)
  ultimately show ?thesis by blast
qed

text \<open>
  Where reserving goes wrong.  The counter has 16 bits, so its bound never stops the search: with no free port from
  1024 on it wraps around and hands out port 0; with no free port at all it never returns; and the last port, 65535, is
  reported as exhaustion even when it is free.
\<close>

theorem reserve_limits:
  "((\<forall>q. 1024 \<le> q \<longrightarrow> \<not> free co used c q) \<and> free co used c 0 \<longrightarrow>
      reserve_loop co used 1 1024 [] c = Some ([0], None, c_Set co ''0'' c)) \<and>
   ((\<forall>q. \<not> free co used c q) \<longrightarrow> next_port k (\<lambda>q. q \<in> used \<or> c_Get co (itoa (unat q)) c) p = None) \<and>
   ((\<forall>q. 1024 \<le> q \<longrightarrow> free co used c q = (q = 65535)) \<longrightarrow>
      reserve_loop co used 1 1024 [] c = Some ([], Some Exhausted, c))"
proof (intro conjI)
  let ?t = "\<lambda>q. q \<in> used \<or> c_Get co (itoa (unat q)) c"
  have t: "?t q \<longleftrightarrow> \<not> free co used c q" for q by (auto simp: free_def)
  have zero: "itoa 0 = ''0''" by code_simp
  have ge: "(1024 :: u16) \<le> 1024 + of_nat j" if "j < 64512" for j
    using that by (simp add: word_le_nat_alt unat_word_ariths unat_of_nat)
  show "(\<forall>q. 1024 \<le> q \<longrightarrow> \<not> free co used c q) \<and> free co used c 0 \<longrightarrow>
     reserve_loop co used 1 1024 [] c = Some ([0], None, c_Set co ''0'' c)"
  proof (intro impI, elim conjE)
    assume a: "\<forall>q. 1024 \<le> q \<longrightarrow> \<not> free co used c q" "free co used c 0"
    have "(0 :: u16) = 1024 + of_nat 64512" by simp
    then have "next_port 65536 ?t 1024 = Some 0"
      unfolding next_port_Some t using a ge by (intro exI [of _ 64512]) auto
    then show "reserve_loop co used 1 1024 [] c = Some ([0], None, c_Set co ''0'' c)"
      by (simp add: zero)
  qed
  show "(\<forall>q. \<not> free co used c q) \<longrightarrow> next_port k ?t p = None"
    by (simp add: next_port_None t)
  show "(\<forall>q. 1024 \<le> q \<longrightarrow> free co used c q = (q = 65535)) \<longrightarrow> reserve_loop co used 1 1024 [] c = Some ([], Some Exhausted, c)"
  proof
    assume a: "\<forall>q. 1024 \<le> q \<longrightarrow> free co used c q = (q = 65535)"
    have "(1024 :: u16) + of_nat j \<noteq> 65535" if "j < 64511" for j
      using that by (simp add: word_unat_eq_iff unat_word_ariths unat_of_nat)
    then have "next_port 65536 ?t 1024 = Some 65535"
      unfolding next_port_Some t using a ge by (intro exI [of _ 64511]) auto
    then show "reserve_loop co used 1 1024 [] c = Some ([], Some Exhausted, c)" by simp
  qed
qed

section \<open>Witnesses\<close>

text \<open>A host with one forward, from any source on port 80, whose world tells whether its rule is there.\<close>

definition sampleForward :: fwd where
  "sampleForward = \<lparr>fw_ns = 0x01000002, fw_src = AnySrc, fw_port = 80, fw_protocols = [''tcp''], fw_ip = 0xAC120003, fw_dest = 8080\<rparr>"

definition sampleForward_rule :: json where
  "sampleForward_rule =
     JObj [(''family'', JStr ''ip''), (''expr'', JArr (map JObj (forward_exprs sampleForward ''tcp''))),
       (''table'', JStr ''nat''), (''handle'', JNum 7), (''chain'', JStr ''pre'')]"

definition forwardHost :: "bool host" where
  "forwardHost = sampleHost\<lparr>h_unjson :=
     (\<lambda>text. Some (JObj [(''nftables'', JArr (if text = ''1'' then [JObj [(''rule'', sampleForward_rule)]] else []))]))\<rparr>"

lemma sampleForward_wf: "wf_forward sampleForward"
  by (simp add: wf_forward_def sampleForward_def validProtocol_def)

lemma sampleForward_decodes: "ruleOf sampleForward_rule = Some (fwd_rule sampleForward ''tcp'' 7)"
  by (simp add: sampleForward_rule_def ruleOf_def field_defs fwd_rule_def forward_exprs_def payload_match_def sampleForward_def)

lemma forwardHost_tool: "nft_tool forwardHost (\<lambda>w. if w then [fwd_rule sampleForward ''tcp'' 7] else [])"
proof (rule nft_toolI [where del = "\<lambda>w r. False" and
        job = "\<lambda>w. (NewJobResult (sampleJob [] []))\<lparr>jr_Streams := [if w then ''1'' else ''0'', []]\<rparr>"])
  fix w
  let ?job = "(NewJobResult (sampleJob [] []))\<lparr>jr_Streams := [if w then ''1'' else ''0'', []]\<rparr>"
  let ?es = "[(''nftables'', JArr (if w then [JObj [(''rule'', sampleForward_rule)]] else []))]"
  have "h_System forwardHost list_call w = ((?job, None), w)" by (simp add: forwardHost_def sampleHost_def)
  moreover have "h_unjson forwardHost (Stdout (jr_Streams ?job)) = Some (JObj ?es)"
    by (simp add: forwardHost_def Stdout_def)
  moreover have "objectOf (JObj ?es) = Some ?es" by simp
  moreover have "field_array raw_map ''nftables'' ?es = Some (if w then [[(''rule'', sampleForward_rule)]] else [])"
    by (simp add: field_array_def lower_def)
  moreover have "map ruleOf (rule_messages (if w then [[(''rule'', sampleForward_rule)]] else [])) =
      map Some (if w then [fwd_rule sampleForward ''tcp'' 7] else [])"
    by (simp add: sampleForward_decodes)
  ultimately show "lists forwardHost w (if w then [fwd_rule sampleForward ''tcp'' 7] else []) w"
    unfolding lists_def by blast
qed (simp_all add: forwardHost_def sampleHost_def list_call_def split: if_splits)

lemma sample_fwd_rules:
  "filter (\<lambda>r. rb_Table r = ''nat'' \<and> rb_Chain r = ''pre'') [fwd_rule sampleForward ''tcp'' 7] = fwd_rules (\<lambda>_ _. 7) [sampleForward]"
  by (simp add: fwd_rules_def fwd_rule_def sampleForward_def)

definition listCache :: "string list cache_ops" where
  "listCache = \<lparr>c_Get = (\<lambda>k c. k \<in> set c), c_Set = (\<lambda>k c. k # c), c_Delete = (\<lambda>k c. filter (\<lambda>x. x \<noteq> k) c)\<rparr>"

theorem source_roundtrip_witness:
  "getSource (source_String \<lparr>src_ip = ''eth0'', src_port = 8000, src_protocols = [''tcp'', ''udp'']\<rparr>) =
     Inr \<lparr>src_ip = ''eth0'', src_port = 8000, src_protocols = [''tcp'', ''udp'']\<rparr>"
  by (rule source_roundtrip) (simp_all add: validProtocol_def)


theorem list_forwards_witness: "\<exists>w'. List_ns forwardHost 0x01000002 True = (Inr [''80'' \<mapsto> 8080], w')"
proof -
  have "source_String \<lparr>src_ip = [], src_port = 80, src_protocols = [''tcp'']\<rparr> = ''80''" by code_simp
  then show ?thesis
    using list_forwards [OF forwardHost_tool, where w = True and hdl = "\<lambda>_ _. 7" and fws = "[sampleForward]" and n = "0x01000002"] sample_fwd_rules sampleForward_wf
    by (auto simp: sampleForward_def)
qed

theorem remove_all_exact_witness: "RemoveAll forwardHost 0x01000002 True = (None, False)"
proof -
  have "renders [AndFilter (natPre @ [MarkFilter 0x01000002])] [fwd_rule sampleForward ''tcp'' 7]"
    using rendered_forward(1) [OF sampleForward_wf, of "''tcp''" 7] by (simp add: renders_def sampleForward_def)
  moreover have "Match (MarkFilter 0x01000002) (fwd_rule sampleForward ''tcp'' 7)"
    unfolding mark_forward by (simp add: sampleForward_def)
  ultimately show ?thesis
    using remove_all_exact [OF forwardHost_tool, where w = True and n = "0x01000002"] by (auto simp: fwd_rule_def split: if_splits simp del: Match.simps)
qed

theorem set_port_once_witness:
  "\<exists>w'. SetPortForward forwardHost listCache 0x01000003 ''172.18.0.4'' ''80'' 80 (True, []) = (Some (PortInUse 80), w', [])"
proof -
  have "getSource ''80'' = Inr \<lparr>src_ip = ''0.0.0.0'', src_port = 80, src_protocols = [''tcp'']\<rparr>"
    by (simp add: getSource_def splitN2_def sscanf_uint_def isDigit_def goSpace_def atoi_def digitVal_def defaultProtocols_def
        validProtocol_def addressAll_def Let_def)
  then show ?thesis
    using set_port_once [OF forwardHost_tool, where w = True and hdl = "\<lambda>_ _. 7" and fws = "[sampleForward]" and host = "''80''"
        and co = listCache and n = "0x01000003" and ip = "''172.18.0.4''" and dest = 80 and c = "[]"] sample_fwd_rules sampleForward_wf
    by (auto simp: sampleForward_def)
qed

lemma listCache_laws: "cache_laws listCache"
  by (simp add: cache_laws_def listCache_def)

theorem reserve_correct_witness:
  "\<exists>new w1 c'. Reserve forwardHost listCache (Inr [(''tcp'', 1024)]) 1 (False, []) = Some ((new, None), w1, c') \<and> length new = 1 \<and>
     1024 \<notin> set new"
proof -
  have f: "getForwardedPorts forwardHost False = (Inr {}, False)"
  proof -
    obtain w' where "Find forwardHost [AndFilter natPre] False = (Inr [], w')" "\<not> w'"
      using Find_ok [OF forwardHost_tool, where fs = "[AndFilter natPre]" and w = False] by (auto simp: renders_def split: if_splits)
    then show ?thesis by (simp add: getForwardedPorts_def)
  qed
  have "(2000 :: u16) \<in> {q. 1024 \<le> q \<and> q < 65535 \<and> free listCache {1024} [] q}"
    by (simp add: free_def listCache_def)
  then have "0 < card {q :: u16. 1024 \<le> q \<and> q < 65535 \<and> free listCache {1024} [] q}"
    by (metis (no_types, lifting) card_gt_0_iff empty_iff finite)
  then have "1 \<le> card {q :: u16. 1024 \<le> q \<and> q < 65535 \<and> free listCache {1024} [] q}" by simp
  from reserve_correct [OF listCache_laws f _ this, of "[(''tcp'', 1024)]"] obtain new c' where
    "Reserve forwardHost listCache (Inr [(''tcp'', 1024)]) 1 (False, []) = Some ((new, None), False, c')" "length new = 1"
    "\<forall>q. q \<in> set new \<longrightarrow> 1024 \<le> q \<and> q < 65535 \<and> free listCache {1024} [] q" by auto
  moreover from this(3) have "1024 \<notin> set new" by (auto simp: free_def)
  ultimately show ?thesis by blast
qed

theorem reserve_limits_witness:
  "reserve_loop listCache {q. 1024 \<le> q} 1 1024 [] [] = Some ([0], None, [''0''])"
  using reserve_limits [of listCache "{q. 1024 \<le> q}" "[]"] by (simp add: free_def listCache_def)

end
