(* ===== verification/Transport.thy ===== *)
theory Transport
  imports Pm_Manager Go_Json
begin

text \<open>
  \<^verbatim>\<open>apps/core0/transport\<close>: the sink takes commands from a queue of the redis server, hands them to the process
  manager and pushes the results back.  The server is a parameter: \<open>redis\<close> says what each of its commands
  answers and how it changes the server, and \<open>redis_laws\<close> what the code relies on.  The texts of JSON values are written and read by
  \<open>enc\<close> and \<open>dec\<close>.
\<close>

section \<open>Commands and results as JSON\<close>

definition field_bool :: "string \<Rightarrow> (string \<times> json) list \<Rightarrow> bool option" where
  "field_bool name es = store (\<lambda>j. case j of JBool b \<Rightarrow> Some b | _ \<Rightarrow> None) False (entries name es)"

text \<open>An element of an array of strings or of integers; a null element is the zero value.\<close>

definition elem_string :: "json \<Rightarrow> string option" where
  "elem_string j = (case j of JStr s \<Rightarrow> Some s | JNull \<Rightarrow> Some [] | _ \<Rightarrow> None)"

definition elem_int :: "json \<Rightarrow> int option" where
  "elem_int j = (case j of JNum n \<Rightarrow> if - (2 ^ 63) \<le> n \<and> n < 2 ^ 63 then Some n else None | JNull \<Rightarrow> Some 0 | _ \<Rightarrow> None)"

text \<open>\<^verbatim>\<open>LoadCmd\<close> on a decoded value; \<open>enc\<close> gives the text of the arguments, which is empty for a nil pointer.  The flags cannot be set from outside.\<close>

definition LoadCmd :: "(json \<Rightarrow> string) \<Rightarrow> json \<Rightarrow> command option" where
  "LoadCmd enc j =
     (case objectOf j of
        None \<Rightarrow> None
      | Some es \<Rightarrow>
          (case (field_string ''id'' es, field_string ''command'' es, field_string ''queue'' es, field_int ''stats_interval'' es,
                 field_int ''max_time'' es, field_int ''max_restart'' es, field_int ''recurring_period'' es,
                 field_bool ''stream'' es, field_array elem_int ''log_levels'' es, field_array elem_string ''tags'' es) of
             (Some i, Some c, Some q, Some si, Some mt, Some mr, Some rp, Some st, Some ll, Some ts) \<Rightarrow>
               Some \<lparr>cmd_ID = i, cmd_Command = c,
                     cmd_Arguments = (case field_raw ''arguments'' es of None \<Rightarrow> [] | Some JNull \<Rightarrow> [] | Some a \<Rightarrow> enc a),
                     cmd_Queue = q, cmd_StatsInterval = si, cmd_MaxTime = mt, cmd_MaxRestart = mr, cmd_RecurringPeriod = rp,
                     cmd_Stream = st, cmd_LogLevels = ll, cmd_Tags = ts,
                     cmd_Flags = \<lparr>Protected = False, NoOutput = False, NoSetPGID = False\<rparr>\<rparr>
           | _ \<Rightarrow> None))"

text \<open>The JSON of a result, with the fields that are omitted when empty; an empty list of tags is Go's nil.\<close>

definition resultJson :: "job_result \<Rightarrow> json" where
  "resultJson r =
     JObj ([(''id'', JStr (jr_ID r)), (''command'', JStr (jr_Command r)), (''data'', JStr (jr_Data r))] @
           (if jr_Streams r = [] then [] else [(''streams'', JArr (map JStr (jr_Streams r)))]) @
           (if jr_Critical r = [] then [] else [(''critical'', JStr (jr_Critical r))]) @
           [(''level'', JNum (uint (jr_Level r))), (''state'', JStr (state_text (jr_State r))), (''code'', JNum (uint (jr_Code r))),
            (''starttime'', JNum (jr_StartTime r)), (''time'', JNum (jr_Time r)), (''tags'', if jr_Tags r = [] then JNull else JArr (map JStr (jr_Tags r))),
            (''container'', JNum (uint (jr_Container r)))])"

text \<open>A state text that names no state cannot come from the process manager and is rejected.\<close>

definition stateOf :: "string \<Rightarrow> job_state option option" where
  "stateOf s =
     (if s = [] then Some None
      else map_option Some (find (\<lambda>st. state_text (Some st) = s)
             [StateSuccess, StateError, StateTimeout, StateKilled, StateUnknownCmd, StateDuplicateID]))"

definition resultOf :: "json \<Rightarrow> job_result option" where
  "resultOf j =
     (case objectOf j of
        None \<Rightarrow> None
      | Some es \<Rightarrow>
          (case (field_string ''id'' es, field_string ''command'' es, field_string ''data'' es,
                 field_array elem_string ''streams'' es, field_string ''critical'' es, field_uint 16 ''level'' es,
                 Option.bind (field_string ''state'' es) stateOf, field_uint 32 ''code'' es, field_int ''starttime'' es,
                 field_int ''time'' es, field_array elem_string ''tags'' es, field_uint 64 ''container'' es) of
             (Some i, Some c, Some d, Some ss, Some cr, Some l, Some st, Some co, Some t0, Some t, Some ts, Some con) \<Rightarrow>
               Some \<lparr>jr_ID = i, jr_Command = c, jr_Data = d, jr_Streams = ss, jr_Critical = cr, jr_Level = of_nat l, jr_State = st,
                     jr_Code = of_nat co, jr_StartTime = t0, jr_Time = t, jr_Tags = ts, jr_Container = of_nat con\<rparr>
           | _ \<Rightarrow> None))"

section \<open>The channel\<close>

record 'r redis =
  rd_RPUSH :: "string \<Rightarrow> string list \<Rightarrow> 'r \<Rightarrow> (go_error + int) \<times> 'r"
  rd_LTRIM :: "string \<Rightarrow> int \<Rightarrow> int \<Rightarrow> 'r \<Rightarrow> go_error option \<times> 'r"
  rd_GET :: "string \<Rightarrow> 'r \<Rightarrow> (go_error + string option) \<times> 'r"
  rd_SET :: "string \<Rightarrow> string \<Rightarrow> 'r \<Rightarrow> go_error option \<times> 'r"
  rd_DEL :: "string list \<Rightarrow> 'r \<Rightarrow> (go_error + int) \<times> 'r"
  rd_EXPIRE :: "string \<Rightarrow> int \<Rightarrow> 'r \<Rightarrow> (go_error + int) \<times> 'r"
  rd_EXISTS :: "string \<Rightarrow> 'r \<Rightarrow> (go_error + int) \<times> 'r"
  rd_BLPOP :: "string \<Rightarrow> int \<Rightarrow> 'r \<Rightarrow> (go_error + string list option) \<times> 'r"
  rd_BRPOPLPUSH :: "string \<Rightarrow> string \<Rightarrow> int \<Rightarrow> 'r \<Rightarrow> (go_error + string option) \<times> 'r"
  rd_enc :: "json \<Rightarrow> string"
  rd_dec :: "string \<Rightarrow> json option"

definition ReturnExpire :: int where "ReturnExpire = 300"
definition SinkQueue :: string where "SinkQueue = ''core:default''"

datatype sink_error = ErrNil | RedisError go_error | BadJson | NoID | UnknownJob string

definition GetNext :: "'r redis \<Rightarrow> string \<Rightarrow> 'r \<Rightarrow> (sink_error + command) \<times> 'r" where
  "GetNext rd queue r =
     (case rd_BLPOP rd queue 10 r of
        (Inl e, r1) \<Rightarrow> (Inl (RedisError e), r1)
      | (Inr None, r1) \<Rightarrow> (Inl ErrNil, r1)
      | (Inr (Some payload), r1) \<Rightarrow>
          if length payload < 2 then (Inl ErrNil, r1)
          else (case Option.bind (rd_dec rd (payload ! 1)) (LoadCmd (rd_enc rd)) of
                  None \<Rightarrow> (Inl BadJson, r1)
                | Some cmd \<Rightarrow> (Inr cmd, r1)))"

definition Push :: "'r redis \<Rightarrow> string \<Rightarrow> json \<Rightarrow> 'r \<Rightarrow> sink_error option \<times> 'r" where
  "Push rd queue payload r =
     (case rd_RPUSH rd queue [rd_enc rd payload] r of
        (Inl e, r1) \<Rightarrow> (Some (RedisError e), r1)
      | (Inr _, r1) \<Rightarrow> (None, r1))"

definition result_queue :: "string \<Rightarrow> string" where "result_queue i = ''result:'' @ i"
definition flag_key :: "string \<Rightarrow> string" where "flag_key i = ''result:'' @ i @ '':flag''"

definition Respond :: "'r redis \<Rightarrow> job_result \<Rightarrow> 'r \<Rightarrow> sink_error option \<times> 'r" where
  "Respond rd result r =
     (if jr_ID result = [] then (Some NoID, r)
      else case Push rd (result_queue (jr_ID result)) (resultJson result) r of
             (Some e, r1) \<Rightarrow> (Some e, r1)
           | (None, r1) \<Rightarrow>
               (case rd_EXPIRE rd (result_queue (jr_ID result)) ReturnExpire r1 of
                  (Inl e, r2) \<Rightarrow> (Some (RedisError e), r2)
                | (Inr _, r2) \<Rightarrow> (None, r2)))"

definition GetResponse :: "'r redis \<Rightarrow> string \<Rightarrow> int \<Rightarrow> 'r \<Rightarrow> (sink_error + job_result) \<times> 'r" where
  "GetResponse rd i timeout r =
     (case rd_BRPOPLPUSH rd (result_queue i) (result_queue i) timeout r of
        (Inl e, r1) \<Rightarrow> (Inl (RedisError e), r1)
      | (Inr None, r1) \<Rightarrow> (Inl ErrNil, r1)
      | (Inr (Some payload), r1) \<Rightarrow>
          (case Option.bind (rd_dec rd payload) resultOf of
             None \<Rightarrow> (Inl BadJson, r1)
           | Some result \<Rightarrow> (Inr result, r1)))"

definition ch_Flag :: "'r redis \<Rightarrow> string \<Rightarrow> 'r \<Rightarrow> (go_error + int) \<times> 'r" where
  "ch_Flag rd i r = rd_RPUSH rd (flag_key i) [[]] r"

definition UnFlag :: "'r redis \<Rightarrow> string \<Rightarrow> 'r \<Rightarrow> (go_error + int) \<times> 'r" where
  "UnFlag rd i r = rd_EXPIRE rd (flag_key i) ReturnExpire r"

definition Flagged :: "'r redis \<Rightarrow> string \<Rightarrow> 'r \<Rightarrow> bool \<times> 'r" where
  "Flagged rd i r = (case rd_EXISTS rd (flag_key i) r of (Inl e, r1) \<Rightarrow> (False, r1) | (Inr v, r1) \<Rightarrow> (v = 1, r1))"

section \<open>The sink\<close>

definition sink_Get :: "'r redis \<Rightarrow> string \<Rightarrow> 'r \<Rightarrow> (go_error + string option) \<times> 'r" where
  "sink_Get rd key r = rd_GET rd key r"

definition Forward :: "'r redis \<Rightarrow> job_result \<Rightarrow> 'r \<Rightarrow> sink_error option \<times> 'r" where
  "Forward rd result r = Respond rd result (snd (UnFlag rd (jr_ID result) r))"

definition sink_Result :: "'r redis \<Rightarrow> command \<Rightarrow> job_result \<Rightarrow> 'r \<Rightarrow> 'r" where
  "sink_Result rd cmd result r = snd (Forward rd result r)"

definition GetResult :: "'r redis \<Rightarrow> string \<Rightarrow> int \<Rightarrow> 'r \<Rightarrow> (sink_error + job_result) \<times> 'r" where
  "GetResult rd job timeout r =
     (case Flagged rd job r of
        (True, r1) \<Rightarrow> GetResponse rd job timeout r1
      | (False, r1) \<Rightarrow> (Inl (UnknownJob job), r1))"

text \<open>
  One iteration of \<^verbatim>\<open>process\<close>; \<open>run\<close> is \<^verbatim>\<open>pm.Run\<close> on the state of the process manager.
\<close>

definition process_step ::
  "'r redis \<Rightarrow> (command \<Rightarrow> 'p \<Rightarrow> run_error option \<times> 'p) \<Rightarrow> 'r \<times> 'p \<Rightarrow> 'r \<times> 'p" where
  "process_step rd run s =
     (case s of (r, p) \<Rightarrow>
        (case GetNext rd SinkQueue r of
           (Inl e, r1) \<Rightarrow> (r1, p)
         | (Inr cmd, r1) \<Rightarrow>
             if cmd_ID cmd = [] then (r1, p)
             else (case Flagged rd (cmd_ID cmd) r1 of
                     (True, r2) \<Rightarrow> (r2, p)
                   | (False, r2) \<Rightarrow>
                       let r3 = snd (ch_Flag rd (cmd_ID cmd) r2)
                       in (case run cmd p of
                             (Some UnknownCommandErr, p1) \<Rightarrow>
                               (snd (Forward rd ((NewJobResult cmd)\<lparr>jr_State := Some StateUnknownCmd\<rparr>) r3), p1)
                           | (_, p1) \<Rightarrow> (r3, p1)))))"

section \<open>The server\<close>

definition redis_laws :: "'r redis \<Rightarrow> ('r \<Rightarrow> string \<Rightarrow> string list) \<Rightarrow> bool" where
  "redis_laws rd ls \<longleftrightarrow>
     (\<forall>k vs r. \<exists>r'. rd_RPUSH rd k vs r = (Inr (int (length (ls r k @ vs))), r') \<and> ls r' = (ls r)(k := ls r k @ vs)) \<and>
     (\<forall>k n r. \<exists>v r'. rd_EXPIRE rd k n r = (Inr v, r') \<and> ls r' = ls r) \<and>
     (\<forall>k r. \<exists>r'. rd_EXISTS rd k r = (Inr (if ls r k = [] then 0 else 1), r') \<and> ls r' = ls r) \<and>
     (\<forall>k n r. \<exists>r'. rd_LTRIM rd k (- int n) (- 1) r = (None, r') \<and> ls r' = (ls r)(k := lastn n (ls r k))) \<and>
     (\<forall>k t r. ls r k \<noteq> [] \<longrightarrow> (\<exists>r'. rd_BLPOP rd k t r = (Inr (Some [k, hd (ls r k)]), r') \<and> ls r' = (ls r)(k := tl (ls r k)))) \<and>
     (\<forall>k t r. ls r k \<noteq> [] \<longrightarrow> (\<exists>r'. rd_BRPOPLPUSH rd k k t r = (Inr (Some (last (ls r k))), r') \<and>
        ls r' = (ls r)(k := last (ls r k) # butlast (ls r k))))"

section \<open>Lemmas\<close>

lemma state_text_inject: "stateOf (state_text st) = Some st"
proof (cases st)
  case (Some x)
  then show ?thesis by (cases x) (simp_all add: stateOf_def state_text_def)
qed (simp add: stateOf_def state_text_def)

lemma those_elem_string: "those (map elem_string (map JStr xs)) = Some xs"
  by (induction xs) (simp_all add: elem_string_def)

lemma nth_redis:
  assumes "redis_laws rd ls"
  shows "\<exists>r'. rd_RPUSH rd k vs r = (Inr (int (length (ls r k @ vs))), r') \<and> ls r' = (ls r)(k := ls r k @ vs)"
    and "\<exists>v r'. rd_EXPIRE rd k n r = (Inr v, r') \<and> ls r' = ls r"
    and "\<exists>r'. rd_EXISTS rd k r = (Inr (if ls r k = [] then 0 else 1), r') \<and> ls r' = ls r"
    and "\<exists>r'. rd_LTRIM rd k (- int m) (- 1) r = (None, r') \<and> ls r' = (ls r)(k := lastn m (ls r k))"
    and "ls r k \<noteq> [] \<Longrightarrow> \<exists>r'. rd_BLPOP rd k t r = (Inr (Some [k, hd (ls r k)]), r') \<and> ls r' = (ls r)(k := tl (ls r k))"
    and "ls r k \<noteq> [] \<Longrightarrow> \<exists>r'. rd_BRPOPLPUSH rd k k t r = (Inr (Some (last (ls r k))), r') \<and>
          ls r' = (ls r)(k := last (ls r k) # butlast (ls r k))"
  using assms unfolding redis_laws_def by blast+

lemma Forward_pushes:
  assumes "redis_laws rd ls" "jr_ID result \<noteq> []"
  shows "\<exists>r'. Forward rd result r = (None, r') \<and>
    ls r' = (ls r)(result_queue (jr_ID result) := ls r (result_queue (jr_ID result)) @ [rd_enc rd (resultJson result)])"
proof -
  obtain v r1 where 1: "UnFlag rd (jr_ID result) r = (Inr v, r1)" "ls r1 = ls r"
    using nth_redis(2) [OF assms(1)] unfolding UnFlag_def by blast
  obtain v2 r2 where 2: "rd_RPUSH rd (result_queue (jr_ID result)) [rd_enc rd (resultJson result)] r1 = (Inr v2, r2)"
    "ls r2 = (ls r1)(result_queue (jr_ID result) := ls r1 (result_queue (jr_ID result)) @ [rd_enc rd (resultJson result)])"
    using nth_redis(1) [OF assms(1)] by blast
  obtain v3 r3 where 3: "rd_EXPIRE rd (result_queue (jr_ID result)) ReturnExpire r2 = (Inr v3, r3)" "ls r3 = ls r2"
    using nth_redis(2) [OF assms(1)] by blast
  show ?thesis using assms(2) 1 2 3 by (simp add: Forward_def Respond_def Push_def)
qed

lemma queue_not_flag: "result_queue i \<noteq> flag_key i"
  by (simp add: result_queue_def flag_key_def)

lemma Flagged_iff:
  assumes "redis_laws rd ls"
  shows "\<exists>r'. Flagged rd i r = (ls r (flag_key i) \<noteq> [], r') \<and> ls r' = ls r"
  using nth_redis(3) [OF assms, of "flag_key i" r] by (auto simp: Flagged_def)

section \<open>Properties\<close>

text \<open>
  A result survives the way to the client: whatever its fields, the JSON the sink writes is read back to
  the same result.
\<close>

theorem result_roundtrip:
  assumes "- (2 ^ 63) \<le> jr_StartTime r" "jr_StartTime r < 2 ^ 63" "- (2 ^ 63) \<le> jr_Time r" "jr_Time r < 2 ^ 63"
  shows "resultOf (resultJson r) = Some r"
proof -
  have b: "uint (jr_Level r) < 65536" "uint (jr_Code r) < 4294967296" "uint (jr_Container r) < 18446744073709551616"
    using unsigned_less [of "jr_Level r", where 'a = int] unsigned_less [of "jr_Code r", where 'a = int]
      unsigned_less [of "jr_Container r", where 'a = int] by simp_all
  show ?thesis
    using assms b those_elem_string [of "jr_Streams r"] those_elem_string [of "jr_Tags r"]
    by (simp add: resultOf_def resultJson_def field_string_def field_array_def field_uint_def field_int_def lower_def
        state_text_inject)
qed


text \<open>
  Results can be fetched.  After the result of a flagged job has been forwarded, \<^verbatim>\<open>GetResult\<close> returns it, and
  leaves it in place for the next caller.
\<close>

theorem result_fetched:
  assumes "redis_laws rd ls" "ls r (flag_key (jr_ID result)) \<noteq> []" "jr_ID result \<noteq> []"
    and "rd_dec rd (rd_enc rd (resultJson result)) = Some (resultJson result)" "resultOf (resultJson result) = Some result"
  shows "\<exists>r' r''. Forward rd result r = (None, r') \<and> GetResult rd (jr_ID result) timeout r' = (Inr result, r'') \<and>
    set (ls r'' (result_queue (jr_ID result))) = set (ls r' (result_queue (jr_ID result)))"
proof -
  let ?q = "result_queue (jr_ID result)"
  obtain r1 where r1: "Forward rd result r = (None, r1)" "ls r1 = (ls r)(?q := ls r ?q @ [rd_enc rd (resultJson result)])"
    using Forward_pushes [OF assms(1,3)] by blast
  obtain r2 where r2: "Flagged rd (jr_ID result) r1 = (True, r2)" "ls r2 = ls r1"
    using Flagged_iff [OF assms(1), of "jr_ID result" r1] assms(2) r1(2) queue_not_flag [of "jr_ID result"] by auto
  obtain r3 where r3: "rd_BRPOPLPUSH rd ?q ?q timeout r2 = (Inr (Some (last (ls r2 ?q))), r3)"
    "ls r3 = (ls r2)(?q := last (ls r2 ?q) # butlast (ls r2 ?q))"
    using nth_redis(6) [OF assms(1), of r2 ?q timeout] r1(2) r2(2) by auto
  have "last (ls r2 ?q) = rd_enc rd (resultJson result)" using r1(2) r2(2) by simp
  then have "GetResult rd (jr_ID result) timeout r1 = (Inr result, r3)"
    using r2(1) r3(1) assms(4,5) by (simp add: GetResult_def GetResponse_def)
  moreover have "set (ls r3 ?q) = set (ls r1 ?q)" using r3(2) r2(2) r1(2) by simp
  ultimately show ?thesis using r1(1) by blast
qed

text \<open>A server whose state is its lists.\<close>

definition listServer :: "json \<Rightarrow> (string \<Rightarrow> string list) redis" where
  "listServer j =
     \<lparr>rd_RPUSH = (\<lambda>k vs r. (Inr (int (length (r k @ vs))), r(k := r k @ vs))),
      rd_LTRIM = (\<lambda>k a b r. (None, r(k := lastn (nat (- a)) (r k)))),
      rd_GET = (\<lambda>k r. (Inr None, r)), rd_SET = (\<lambda>k v r. (None, r)), rd_DEL = (\<lambda>ks r. (Inr 0, r)),
      rd_EXPIRE = (\<lambda>k n r. (Inr 1, r)),
      rd_EXISTS = (\<lambda>k r. (Inr (if r k = [] then 0 else 1), r)),
      rd_BLPOP = (\<lambda>k t r. (Inr (if r k = [] then None else Some [k, hd (r k)]), r(k := tl (r k)))),
      rd_BRPOPLPUSH = (\<lambda>k l t r. if r k = [] then (Inr None, r)
                                 else (Inr (Some (last (r k))), r(k := last (r k) # butlast (r k)))),
      rd_enc = (\<lambda>j. ''x''), rd_dec = (\<lambda>t. Some j)\<rparr>"

lemma listServer_laws: "redis_laws (listServer j) (\<lambda>r. r)"
  by (simp add: redis_laws_def listServer_def)

definition sampleResult :: job_result where
  "sampleResult = (NewJobResult (sampleJob ''1'' []))\<lparr>jr_Streams := [''out'', ''err''], jr_State := Some StateSuccess, jr_Time := 12\<rparr>"

theorem result_roundtrip_witness: "resultOf (resultJson sampleResult) = Some sampleResult"
  by (rule result_roundtrip) (simp_all add: sampleResult_def NewJobResult_def)


theorem result_fetched_witness:
  "\<exists>r' r''. Forward (listServer (resultJson sampleResult)) sampleResult ((\<lambda>k. [])(flag_key ''1'' := [[]])) = (None, r') \<and>
     GetResult (listServer (resultJson sampleResult)) ''1'' 5 r' = (Inr sampleResult, r'')"
proof -
  have "jr_ID sampleResult = ''1''" by (simp add: sampleResult_def NewJobResult_def)
  moreover have "resultOf (resultJson sampleResult) = Some sampleResult"
    by (simp add: sampleResult_def NewJobResult_def sampleJob_def resultOf_def resultJson_def field_string_def field_array_def
        field_uint_def field_int_def lower_def elem_string_def state_text_inject)
  ultimately show ?thesis
    using result_fetched [OF listServer_laws, of "(\<lambda>k. [])(flag_key ''1'' := [[]])" sampleResult "resultJson sampleResult" 5]
    by (auto simp: listServer_def)
qed

end
