(* ===== verification/Logger.thy ===== *)
theory Logger
  imports Transport Stream_Buffer
begin

text \<open>
  \<^verbatim>\<open>apps/core0/logger\<close>: the loggers that receive every message of every job.  The ledis logger keeps a
  backlog and copies records to the queues of its subscribers, the stream logger copies the messages of jobs that are streamed.
  \<open>mar\<close> is \<^verbatim>\<open>json.Marshal\<close> of a record, \<^const>\<open>None\<close> when it fails.
\<close>

section \<open>Records and levels\<close>

record log_record =
  lr_Core :: u16
  lr_Command :: string
  lr_Message :: message

definition MaxRedisQueueSize :: int where "MaxRedisQueueSize = 1000"
definition MaxStreamRedisQueueSize :: int where "MaxStreamRedisQueueSize = 1000"
definition StreamRedisQueueTTL :: int where "StreamRedisQueueTTL = 60"

definition IsLoggable :: "u16 list \<Rightarrow> message \<Rightarrow> bool" where
  "IsLoggable defaults msg = (if length defaults > 0 then Meta_Assert (Meta msg) defaults else True)"

text \<open>The record \<^verbatim>\<open>Loggers.Message\<close> makes of a message of a command.\<close>

definition Loggers_Message :: "command \<Rightarrow> message \<Rightarrow> log_record" where
  "Loggers_Message cmd msg = \<lparr>lr_Core = 0, lr_Command = cmd_ID cmd, lr_Message = msg\<rparr>"

text \<open>The line the console logger prints, if any.\<close>

definition Console_LogRecord :: "u16 list \<Rightarrow> log_record \<Rightarrow> string option" where
  "Console_LogRecord defaults rec =
     (if \<not> IsLoggable defaults (lr_Message rec) then None
      else if length (Message (lr_Message rec)) > 0
      then Some (''['' @ itoa (unat (lr_Core rec)) @ '']'' @ lr_Command rec @ '' '' @ Message_String (lr_Message rec))
      else None)"

section \<open>The ledis logger\<close>

record ledis_logger =
  ll_defaults :: "u16 list"
  ll_size :: int
  ll_buffer :: "log_record buffer"
  ll_queues :: "(string \<times> u16 list) list"

definition NewLedisLogger :: "u16 list \<Rightarrow> int \<Rightarrow> ledis_logger" where
  "NewLedisLogger defaults siz =
     \<lparr>ll_defaults = defaults, ll_size = (if siz = 0 then MaxRedisQueueSize else siz),
      ll_buffer = NewBuffer MaxStreamRedisQueueSize, ll_queues = []\<rparr>"

text \<open>Whether the logger puts a record on its channel.\<close>

definition Ledis_LogRecord :: "ledis_logger \<Rightarrow> log_record \<Rightarrow> bool" where
  "Ledis_LogRecord l rec = IsLoggable (ll_defaults l) (lr_Message rec)"

text \<open>Which records a subscriber with these levels gets: all of them without levels, and always the last of a job.\<close>

definition passes :: "u16 list \<Rightarrow> log_record \<Rightarrow> bool" where
  "passes lvls rec =
     (if length lvls > 0
      then \<not> (Meta_Level (Meta (lr_Message rec)) \<notin> set lvls \<and>
              \<not> Meta_Is (Meta (lr_Message rec)) (ExitSuccessFlag OR ExitErrorFlag))
      else True)"

fun flush_backlog :: "'r redis \<Rightarrow> (log_record \<Rightarrow> string option) \<Rightarrow> string \<Rightarrow> u16 list \<Rightarrow> log_record list \<Rightarrow> 'r \<Rightarrow> go_error option \<times> 'r" where
  "flush_backlog rd mar queue lvls [] r = (None, r)"
| "flush_backlog rd mar queue lvls (rec # recs) r =
     (if \<not> passes lvls rec then flush_backlog rd mar queue lvls recs r
      else (case mar rec of
              None \<Rightarrow> flush_backlog rd mar queue lvls recs r
            | Some bytes \<Rightarrow>
                (case rd_RPUSH rd queue [bytes] r of
                   (Inl e, r1) \<Rightarrow> (Some e, r1)
                 | (Inr _, r1) \<Rightarrow> flush_backlog rd mar queue lvls recs r1)))"

definition Ledis_Subscribe ::
  "'r redis \<Rightarrow> (log_record \<Rightarrow> string option) \<Rightarrow> string \<Rightarrow> u16 list \<Rightarrow> ledis_logger \<times> 'r \<Rightarrow> go_error option \<times> ledis_logger \<times> 'r" where
  "Ledis_Subscribe rd mar queue lvls s =
     (case s of (l, r) \<Rightarrow>
        if queue \<in> fst ` set (ll_queues l) then (None, l, r)
        else let l1 = l\<lparr>ll_queues := ll_queues l @ [(queue, lvls)]\<rparr>
             in (case flush_backlog rd mar queue lvls (List (ll_buffer l)) r of
                   (Some e, r1) \<Rightarrow> (Some e, l1, r1)
                 | (None, r1) \<Rightarrow>
                     (case rd_LTRIM rd queue (- ll_size l) (- 1) r1 of (e, r2) \<Rightarrow> (e, l1, r2))))"

text \<open>The command \<^verbatim>\<open>logger.subscribe\<close>: the name of the queue it answers with and subscribes in the background.\<close>

definition subscribe_queue :: "string \<Rightarrow> string \<Rightarrow> string" where
  "subscribe_queue uuid queue = ''logger:'' @ (if length queue = 0 then uuid else queue)"

definition unSubscribe :: "string \<Rightarrow> ledis_logger \<Rightarrow> go_error + ledis_logger" where
  "unSubscribe queue l =
     (if length queue = 0 then Inl (Errorf ''queue is required'')
      else Inr (l\<lparr>ll_queues := filter (\<lambda>q. fst q \<noteq> queue) (ll_queues l)\<rparr>))"

fun push_each :: "'r redis \<Rightarrow> int \<Rightarrow> string \<Rightarrow> log_record \<Rightarrow> (string \<times> u16 list) list \<Rightarrow> 'r \<Rightarrow> go_error option \<times> 'r" where
  "push_each rd siz bytes rec [] r = (None, r)"
| "push_each rd siz bytes rec ((queue, lvls) # qs) r =
     (if \<not> passes lvls rec then push_each rd siz bytes rec qs r
      else (case rd_RPUSH rd queue [bytes] r of
              (Inl e, r1) \<Rightarrow> (Some e, r1)
            | (Inr _, r1) \<Rightarrow>
                (case rd_LTRIM rd queue (- siz) (- 1) r1 of
                   (Some e, r2) \<Rightarrow> (Some e, r2)
                 | (None, r2) \<Rightarrow> push_each rd siz bytes rec qs r2)))"

definition pushQueues :: "'r redis \<Rightarrow> (log_record \<Rightarrow> string option) \<Rightarrow> log_record \<Rightarrow> ledis_logger \<times> 'r \<Rightarrow> ledis_logger \<times> 'r" where
  "pushQueues rd mar rec s =
     (case s of (l, r) \<Rightarrow>
        let l1 = l\<lparr>ll_buffer := Buffer_Append rec (ll_buffer l)\<rparr>
        in if length (ll_queues l) = 0 then (l1, r)
           else (case mar rec of
                   None \<Rightarrow> (l1, r)
                 | Some bytes \<Rightarrow> (l1, snd (push_each rd (ll_size l) bytes rec (ll_queues l) r))))"

section \<open>The stream logger\<close>

definition Stream_LogRecord :: "log_record \<Rightarrow> bool" where
  "Stream_LogRecord rec = Meta_Is (Meta (lr_Message rec)) StreamFlag"

definition stream_queue :: "string \<Rightarrow> string" where
  "stream_queue cmd = ''stream:'' @ cmd"

definition stream_push :: "'r redis \<Rightarrow> (log_record \<Rightarrow> string option) \<Rightarrow> int \<Rightarrow> log_record \<Rightarrow> 'r \<Rightarrow> 'r" where
  "stream_push rd mar siz rec r =
     (case mar rec of
        None \<Rightarrow> r
      | Some bytes \<Rightarrow>
          (case rd_RPUSH rd (stream_queue (lr_Command rec)) [bytes] r of
             (Inl e, r1) \<Rightarrow> r1
           | (Inr _, r1) \<Rightarrow>
               (case rd_LTRIM rd (stream_queue (lr_Command rec)) (- siz) (- 1) r1 of
                  (Some e, r2) \<Rightarrow> r2
                | (None, r2) \<Rightarrow> snd (rd_EXPIRE rd (stream_queue (lr_Command rec)) StreamRedisQueueTTL r2))))"

section \<open>Lemmas\<close>

text \<open>
  What a subscriber is to get of a list of records: those of the levels it asked for, all when it named none, and the records that end a job.
\<close>

definition wanted :: "u16 list \<Rightarrow> log_record \<Rightarrow> bool" where
  "wanted lvls rec \<longleftrightarrow>
     lvls = [] \<or> Meta_Level (Meta (lr_Message rec)) \<in> set lvls \<or> Meta_Is (Meta (lr_Message rec)) (ExitSuccessFlag OR ExitErrorFlag)"

definition payloads :: "(log_record \<Rightarrow> string) \<Rightarrow> u16 list \<Rightarrow> log_record list \<Rightarrow> string list" where
  "payloads bytes lvls recs = map bytes (filter (wanted lvls) recs)"

lemma payloads_passes: "payloads bytes lvls recs = map bytes (filter (passes lvls) recs)"
proof -
  have "wanted lvls = passes lvls" by (auto simp: wanted_def passes_def fun_eq_iff)
  then show ?thesis by (simp add: payloads_def)
qed

lemma flush_backlog_ok:
  assumes "redis_laws rd ls"
  shows "\<exists>r'. flush_backlog rd (\<lambda>x. Some (bytes x)) queue lvls recs r = (None, r') \<and>
    ls r' = (ls r)(queue := ls r queue @ payloads bytes lvls recs)"
proof (induction recs arbitrary: r)
  case (Cons rec recs)
  obtain v r1 where r1: "rd_RPUSH rd queue [bytes rec] r = (Inr v, r1)" "ls r1 = (ls r)(queue := ls r queue @ [bytes rec])"
    using nth_redis(1) [OF assms] by blast
  obtain r2 where r2: "flush_backlog rd (\<lambda>x. Some (bytes x)) queue lvls recs r1 = (None, r2)"
    "ls r2 = (ls r1)(queue := ls r1 queue @ payloads bytes lvls recs)" using Cons.IH by blast
  show ?case using Cons.IH [of r] r1 r2 by (cases "passes lvls rec") (auto simp: payloads_passes)
qed (simp add: payloads_passes)

lemma push_each_ok:
  assumes "redis_laws rd ls"
  shows "distinct (map fst qs) \<Longrightarrow> \<exists>r'. push_each rd (int n) bytes rec qs r = (None, r') \<and>
    (\<forall>k. ls r' k = (case map_of qs k of
        None \<Rightarrow> ls r k
      | Some lvls \<Rightarrow> if passes lvls rec then lastn n (ls r k @ [bytes]) else ls r k))"
proof (induction qs arbitrary: r)
  case (Cons q qs)
  obtain queue lvls where q: "q = (queue, lvls)" by fastforce
  have fresh: "map_of qs queue = None" using Cons.prems q by (simp add: map_of_eq_None_iff)
  show ?case
  proof (cases "passes lvls rec")
    case True
    obtain v r1 where r1: "rd_RPUSH rd queue [bytes] r = (Inr v, r1)" "ls r1 = (ls r)(queue := ls r queue @ [bytes])"
      using nth_redis(1) [OF assms] by blast
    obtain r2 where r2: "rd_LTRIM rd queue (- int n) (- 1) r1 = (None, r2)" "ls r2 = (ls r1)(queue := lastn n (ls r1 queue))"
      using nth_redis(4) [OF assms] by blast
    obtain r3 where r3: "push_each rd (int n) bytes rec qs r2 = (None, r3)"
      "\<forall>k. ls r3 k = (case map_of qs k of None \<Rightarrow> ls r2 k
         | Some lvls \<Rightarrow> if passes lvls rec then lastn n (ls r2 k @ [bytes]) else ls r2 k)"
      using Cons.IH [of r2] Cons.prems by auto
    have "\<forall>k. ls r3 k = (case map_of (q # qs) k of None \<Rightarrow> ls r k
        | Some lvls \<Rightarrow> if passes lvls rec then lastn n (ls r k @ [bytes]) else ls r k)"
      using r3(2) r1(2) r2(2) fresh q True by (auto split: option.splits)
    then show ?thesis using q True r1(1) r2(1) r3(1) by auto
  next
    case False
    obtain r3 where r3: "push_each rd (int n) bytes rec qs r = (None, r3)"
      "\<forall>k. ls r3 k = (case map_of qs k of None \<Rightarrow> ls r k
         | Some lvls \<Rightarrow> if passes lvls rec then lastn n (ls r k @ [bytes]) else ls r k)"
      using Cons.IH [of r] Cons.prems by auto
    have "\<forall>k. ls r3 k = (case map_of (q # qs) k of None \<Rightarrow> ls r k
        | Some lvls \<Rightarrow> if passes lvls rec then lastn n (ls r k @ [bytes]) else ls r k)"
      using r3(2) fresh q False by (auto split: option.splits)
    then show ?thesis using q False r3(1) by auto
  qed
qed simp

definition wf_logger :: "nat \<Rightarrow> ledis_logger \<Rightarrow> bool" where
  "wf_logger n l \<longleftrightarrow> ll_size l = int n \<and> distinct (map fst (ll_queues l)) \<and> wf_buffer (ll_buffer l)"

text \<open>Every queue after one record, whatever the other subscribers.\<close>

lemma pushQueues_ok:
  assumes "redis_laws rd ls" "wf_logger n l"
  shows "\<exists>r'. pushQueues rd (\<lambda>x. Some (bytes x)) rec (l, r) = (l\<lparr>ll_buffer := Buffer_Append rec (ll_buffer l)\<rparr>, r') \<and>
    (\<forall>k lvls. map_of (ll_queues l) k = Some lvls \<longrightarrow>
       ls r' k = (if passes lvls rec then lastn n (ls r k @ [bytes rec]) else ls r k))"
proof (cases "ll_queues l = []")
  case True
  then show ?thesis by (simp add: pushQueues_def Let_def)
next
  case False
  obtain r' where "push_each rd (int n) (bytes rec) rec (ll_queues l) r = (None, r')"
    "\<forall>k. ls r' k = (case map_of (ll_queues l) k of None \<Rightarrow> ls r k
       | Some lvls \<Rightarrow> if passes lvls rec then lastn n (ls r k @ [bytes rec]) else ls r k)"
    using push_each_ok [OF assms(1), of "ll_queues l" n "bytes rec" rec r] assms(2) by (auto simp: wf_logger_def)
  then show ?thesis using False assms(2) by (auto simp: pushQueues_def Let_def wf_logger_def)
qed

lemma wf_logger_push: "wf_logger n l \<Longrightarrow> wf_logger n (l\<lparr>ll_buffer := Buffer_Append rec (ll_buffer l)\<rparr>)"
  by (simp add: wf_logger_def wf_Buffer_Append)

lemma fold_push:
  assumes "redis_laws rd ls"
  shows "wf_logger n l \<Longrightarrow> map_of (ll_queues l) queue = Some lvls \<Longrightarrow> length (ls r queue) \<le> n \<Longrightarrow>
    \<exists>l' r'. fold (pushQueues rd (\<lambda>x. Some (bytes x))) recs (l, r) = (l', r') \<and>
      ls r' queue = lastn n (ls r queue @ payloads bytes lvls recs)"
proof (induction recs arbitrary: l r)
  case (Cons rec recs)
  obtain r1 where r1: "pushQueues rd (\<lambda>x. Some (bytes x)) rec (l, r) = (l\<lparr>ll_buffer := Buffer_Append rec (ll_buffer l)\<rparr>, r1)"
    "ls r1 queue = (if passes lvls rec then lastn n (ls r queue @ [bytes rec]) else ls r queue)"
    using pushQueues_ok [OF assms Cons.prems(1)] Cons.prems(2) by blast
  have "length (ls r1 queue) \<le> n" using r1(2) Cons.prems(3) by simp
  from Cons.IH [OF wf_logger_push [OF Cons.prems(1), of rec] _ this] Cons.prems(2) obtain l' r' where
    lr: "fold (pushQueues rd (\<lambda>x. Some (bytes x))) recs (l\<lparr>ll_buffer := Buffer_Append rec (ll_buffer l)\<rparr>, r1) = (l', r')"
      "ls r' queue = lastn n (ls r1 queue @ payloads bytes lvls recs)" by auto
  have "ls r' queue = lastn n (ls r queue @ payloads bytes lvls (rec # recs))"
    using lr(2) r1(2) lastn_lastn_append [of n "ls r queue @ [bytes rec]" "payloads bytes lvls recs"]
    by (simp add: payloads_passes)
  then show ?case using lr(1) r1(1) by auto
qed (simp add: payloads_passes)

section \<open>Properties\<close>

text \<open>
  C31. What a subscriber of the logs finds.  After the records \<open>old\<close> were logged, a subscription to a new queue and the
  records \<open>new\<close>, with any other subscribers around, the queue holds the last \<open>n\<close> of: what
  it held before, the records of the backlog (the last thousand of \<open>old\<close>) and then those of \<open>new\<close>, each only when
  its level was asked for or it ends a job, in the order they were logged.
\<close>

theorem subscriber_queue:
  assumes "redis_laws rd ls" "wf_logger n l" "queue \<notin> fst ` set (ll_queues l)"
    and "List (ll_buffer l) = lastn 1000 old"
  shows "\<exists>l1 r1 l2 r2. Ledis_Subscribe rd (\<lambda>x. Some (bytes x)) queue lvls (l, r) = (None, l1, r1) \<and>
    fold (pushQueues rd (\<lambda>x. Some (bytes x))) new (l1, r1) = (l2, r2) \<and>
    ls r2 queue = lastn n (ls r queue @ payloads bytes lvls (lastn 1000 old) @ payloads bytes lvls new)"
proof -
  let ?l1 = "l\<lparr>ll_queues := ll_queues l @ [(queue, lvls)]\<rparr>"
  obtain r1 where r1: "flush_backlog rd (\<lambda>x. Some (bytes x)) queue lvls (lastn 1000 old) r = (None, r1)"
    "ls r1 = (ls r)(queue := ls r queue @ payloads bytes lvls (lastn 1000 old))"
    using flush_backlog_ok [OF assms(1)] by blast
  obtain r2 where r2: "rd_LTRIM rd queue (- int n) (- 1) r1 = (None, r2)" "ls r2 = (ls r1)(queue := lastn n (ls r1 queue))"
    using nth_redis(4) [OF assms(1)] by blast
  have sub: "Ledis_Subscribe rd (\<lambda>x. Some (bytes x)) queue lvls (l, r) = (None, ?l1, r2)"
    using assms(2-4) r1(1) r2(1) by (simp add: Ledis_Subscribe_def Let_def wf_logger_def)
  have q: "ls r2 queue = lastn n (ls r queue @ payloads bytes lvls (lastn 1000 old))" using r1(2) r2(2) by simp
  have "map_of (ll_queues l) queue = None" using assms(3) by (simp add: map_of_eq_None_iff)
  then have "wf_logger n ?l1" "map_of (ll_queues ?l1) queue = Some lvls"
    using assms(2,3) by (auto simp: wf_logger_def map_add_def)
  from fold_push [OF assms(1) this, of r2 bytes new] obtain l2 r3 where
    f: "fold (pushQueues rd (\<lambda>x. Some (bytes x))) new (?l1, r2) = (l2, r3)" "ls r3 queue = lastn n (ls r2 queue @ payloads bytes lvls new)"
    using q by auto
  have "ls r3 queue = lastn n (ls r queue @ payloads bytes lvls (lastn 1000 old) @ payloads bytes lvls new)"
    using f(2) q lastn_lastn_append [of n "ls r queue @ payloads bytes lvls (lastn 1000 old)"] by simp
  then show ?thesis using sub f(1) by blast
qed

definition sampleRecord :: log_record where
  "sampleRecord = \<lparr>lr_Core = 0, lr_Command = ''job'', lr_Message = \<lparr>Message = ''hello'', Epoch = 0, Meta = NewMeta 1 []\<rparr>\<rparr>"

theorem subscriber_queue_witness:
  "\<exists>l1 r1 l2 r2. Ledis_Subscribe (listServer JNull) (\<lambda>x. Some (lr_Command x)) ''logger:q'' [] (NewLedisLogger [] 0, \<lambda>k. []) = (None, l1, r1) \<and>
     fold (pushQueues (listServer JNull) (\<lambda>x. Some (lr_Command x))) [sampleRecord, sampleRecord] (l1, r1) = (l2, r2) \<and>
     r2 ''logger:q'' = [''job'', ''job'']"
proof -
  have "wf_logger 1000 (NewLedisLogger [] 0)" "List (ll_buffer (NewLedisLogger [] 0)) = lastn 1000 []"
    by (simp_all add: wf_logger_def NewLedisLogger_def MaxRedisQueueSize_def wf_NewBuffer)
  moreover have "payloads lr_Command [] [sampleRecord, sampleRecord] = [''job'', ''job'']" "payloads lr_Command [] [] = []"
    by (simp_all add: payloads_passes passes_def sampleRecord_def)
  ultimately show ?thesis
    using subscriber_queue [OF listServer_laws [of JNull], where n = 1000 and l = "NewLedisLogger [] 0" and queue = "''logger:q''" and old = "[]"
        and bytes = lr_Command and lvls = "[]" and r = "\<lambda>k. []" and new = "[sampleRecord, sampleRecord]"] by (simp add: NewLedisLogger_def)
qed

end
