(* ===== verification/Stats.thy ===== *)
theory Stats
  imports Transport Pm_Handlers "HOL-Library.List_Lexorder" "HOL-Library.Char_ord"
begin

text \<open>
  \<^verbatim>\<open>apps/core0/stats\<close>: aggregation of the statistics jobs report.  A state holds a current sample per period
  and the last finished ones; \<^verbatim>\<open>Stats\<close> loads the state of a metric from the database, feeds it a value, pushes the
  finished samples to a queue and stores the state.  The operations on \<^verbatim>\<open>float64\<close> are the record \<open>float_ops\<close>:
  no law of arithmetic is assumed of them.
\<close>

section \<open>Samples\<close>

record 'f float_ops =
  fl_zero :: 'f
  fl_add :: "'f \<Rightarrow> 'f \<Rightarrow> 'f"
  fl_sub :: "'f \<Rightarrow> 'f \<Rightarrow> 'f"
  fl_div :: "'f \<Rightarrow> 'f \<Rightarrow> 'f"
  fl_gt :: "'f \<Rightarrow> 'f \<Rightarrow> bool"
  fl_ofint :: "int \<Rightarrow> 'f"
  fl_isnan :: "'f \<Rightarrow> bool"

definition Average :: string where "Average = ''A''"
definition Differential :: string where "Differential = ''D''"
definition HistoryLength :: nat where "HistoryLength = 5"
definition Periods :: "int list" where "Periods = [300, 3600]"

record 'f sample =
  sm_Avg :: 'f
  sm_Total :: 'f
  sm_Max :: 'f
  sm_Count :: u64
  sm_Start :: int

definition zero_sample :: "'f float_ops \<Rightarrow> 'f sample" where
  "zero_sample F = \<lparr>sm_Avg = fl_zero F, sm_Total = fl_zero F, sm_Max = fl_zero F, sm_Count = 0, sm_Start = 0\<rparr>"

text \<open>\<^verbatim>\<open>Sample.Feed\<close>: the finished sample it returns, if any, and the sample after.\<close>

definition sample_Feed :: "'f float_ops \<Rightarrow> 'f sample \<Rightarrow> 'f \<Rightarrow> int \<Rightarrow> int \<Rightarrow> 'f sample option \<times> 'f sample" where
  "sample_Feed F m val now duration =
     (let period = goDiv now duration * duration
      in if period \<noteq> 0 \<and> sm_Start m < period
         then (Some m, \<lparr>sm_Avg = val, sm_Total = val, sm_Max = val, sm_Count = 1, sm_Start = period\<rparr>)
         else let start = (if sm_Start m = 0 then period else sm_Start m);
                  total = fl_add F (sm_Total m) val;
                  count = sm_Count m + 1
              in (None, \<lparr>sm_Avg = fl_div F total (fl_ofint F (uint count)), sm_Total = total,
                         sm_Max = (if fl_gt F val (sm_Max m) then val else sm_Max m), sm_Count = count, sm_Start = start\<rparr>))"

section \<open>States\<close>

record 'f metric_state =
  ms_Operation :: string
  ms_LastValue :: 'f
  ms_LastTime :: int
  ms_Tags :: "tag list"
  ms_Current :: "(int \<times> 'f sample) list"
  ms_History :: "int \<Rightarrow> 'f sample list"

definition NewState :: "'f float_ops \<Rightarrow> string \<Rightarrow> int list \<Rightarrow> 'f metric_state" where
  "NewState F op durations =
     \<lparr>ms_Operation = op, ms_LastValue = fl_zero F, ms_LastTime = - 1, ms_Tags = [],
      ms_Current = map (\<lambda>d. (d, zero_sample F)) (remdups durations), ms_History = (\<lambda>_. [])\<rparr>"

text \<open>Feeding every current sample.\<close>

definition feed_all :: "'f float_ops \<Rightarrow> 'f \<Rightarrow> int \<Rightarrow> (int \<times> 'f sample) list \<Rightarrow> (int \<times> 'f sample) list" where
  "feed_all F val now cur = map (\<lambda>(d, m). (d, snd (sample_Feed F m val now d))) cur"

definition state_init :: "'f float_ops \<Rightarrow> int \<Rightarrow> 'f \<Rightarrow> 'f metric_state \<Rightarrow> 'f metric_state" where
  "state_init F now val s =
     (if ms_Operation s = Average then s\<lparr>ms_Current := feed_all F val now (ms_Current s)\<rparr> else s)"

definition state_log :: "int \<Rightarrow> 'f sample \<Rightarrow> (int \<Rightarrow> 'f sample list) \<Rightarrow> int \<Rightarrow> 'f sample list" where
  "state_log period m h =
     (if sm_Start m = 0 then h
      else let his = h period @ [m]
           in h(period := (if length his > HistoryLength then drop (length his - HistoryLength) his else his)))"

definition updates_of :: "'f float_ops \<Rightarrow> 'f \<Rightarrow> int \<Rightarrow> (int \<times> 'f sample) list \<Rightarrow> (int \<times> 'f sample) list" where
  "updates_of F val now cur =
     List.map_filter (\<lambda>(d, m). map_option (\<lambda>u. (d, u)) (fst (sample_Feed F m val now d))) cur"

text \<open>The last value and time are stored on every path, also when the value is ignored.\<close>

definition FeedOn :: "'f float_ops \<Rightarrow> int \<Rightarrow> 'f \<Rightarrow> 'f metric_state \<Rightarrow> (int \<times> 'f sample) list \<times> 'f metric_state" where
  "FeedOn F now orig s =
     (let done = (\<lambda>s. s\<lparr>ms_LastValue := orig, ms_LastTime := now\<rparr>)
      in if ms_LastTime s = - 1 then ([], done (state_init F now orig s))
         else if ms_LastTime s \<ge> now then ([], done s)
         else
           let val = (if ms_Operation s = Differential
                      then fl_div F (fl_sub F orig (ms_LastValue s)) (fl_ofint F (now - ms_LastTime s)) else orig)
           in if fl_isnan F val then ([], done s)
              else let ups = updates_of F val now (ms_Current s)
                   in (ups, done (s\<lparr>ms_Current := feed_all F val now (ms_Current s),
                                    ms_History := fold (\<lambda>(d, u). state_log d u) ups (ms_History s)\<rparr>)))"

section \<open>The aggregator\<close>

text \<open>
  \<^verbatim>\<open>Stats\<close>, with the tags sorted by key (Go leaves open the order of equal keys, which is kept here): \<open>hash\<close> is the MD5 text of the sorted tags, \<open>load\<close> and \<open>save\<close> read and write a state as JSON, \<open>point\<close> is the JSON
  of a point.  The keys of the cache say which metrics are tracked.
\<close>

record 'f stats_env =
  se_hash :: "tag list \<Rightarrow> string"
  se_load :: "string \<Rightarrow> 'f metric_state option"
  se_save :: "'f metric_state \<Rightarrow> string option"
  se_point :: "string \<Rightarrow> tag list \<Rightarrow> 'f sample \<Rightarrow> string option"

definition state_key :: "string \<Rightarrow> string \<Rightarrow> string" where
  "state_key key hash = ''state:'' @ key @ '':'' @ hash"

definition statistics_queue :: "int \<Rightarrow> string" where
  "statistics_queue period = ''statistics:'' @ itoaInt period"

fun push_points ::
  "'f stats_env \<Rightarrow> 'r redis \<Rightarrow> string \<Rightarrow> tag list \<Rightarrow> (int \<times> 'f sample) list \<Rightarrow> 'r \<Rightarrow> 'r" where
  "push_points E rd key tags [] r = r"
| "push_points E rd key tags ((period, m) # ups) r =
     (if sm_Start m = 0 then push_points E rd key tags ups r
      else (case se_point E key tags m of
              None \<Rightarrow> push_points E rd key tags ups r
            | Some data \<Rightarrow> push_points E rd key tags ups (snd (rd_RPUSH rd (statistics_queue period) [data] r))))"

definition aggregate_Stats ::
  "'f float_ops \<Rightarrow> 'f stats_env \<Rightarrow> 'r redis \<Rightarrow> int \<Rightarrow> string \<Rightarrow> string \<Rightarrow> 'f \<Rightarrow> string \<Rightarrow> tag list \<Rightarrow> string set \<times> 'r \<Rightarrow> string set \<times> 'r" where
  "aggregate_Stats F E rd now op key val i tags0 cr =
     (let tags = sort_key fst (if length i \<noteq> 0 then tags0 @ [(''id'', i)] else tags0);
          internal = state_key key (se_hash E tags);
          c1 = insert internal (fst cr)
      in case rd_GET rd internal (snd cr) of
           (Inl e, r1) \<Rightarrow> (c1, r1)
         | (Inr data, r1) \<Rightarrow>
             (case (case data of None \<Rightarrow> Some (NewState F op Periods) | Some d \<Rightarrow> se_load E d) of
                None \<Rightarrow> (c1, r1)
              | Some s0 \<Rightarrow>
                  let s = (if length tags \<noteq> 0 then s0\<lparr>ms_Tags := tags\<rparr> else s0);
                      (ups, s1) = FeedOn F now val s;
                      r2 = push_points E rd key (ms_Tags s) ups r1
                  in (case se_save E s1 of
                        None \<Rightarrow> (c1, r2)
                      | Some d \<Rightarrow> (c1, snd (rd_SET rd internal d r2)))))"

text \<open>
  The filter of the command \<^verbatim>\<open>aggregator.query\<close>: whether a state has the tags asked for, and the name it is
  reported under.
\<close>

definition tags_match :: "(string \<times> string) list \<Rightarrow> 'f metric_state \<Rightarrow> bool" where
  "tags_match want s = list_all (\<lambda>(k, v). list_ex (\<lambda>t. fst t = k \<and> snd t = v) (ms_Tags s)) want"

definition metric_name :: "string \<Rightarrow> 'f metric_state \<Rightarrow> string" where
  "metric_name metric s =
     (case find (\<lambda>t. fst t = ''id'') (ms_Tags s) of None \<Rightarrow> metric | Some t \<Rightarrow> metric @ ''/'' @ snd t)"

section \<open>Lemmas\<close>

definition period_of :: "int \<Rightarrow> int \<Rightarrow> int" where
  "period_of d t = t div d * d"

lemma goDiv_period: "0 \<le> t \<Longrightarrow> 0 < d \<Longrightarrow> goDiv t d * d = period_of d t"
  by (simp add: goDiv_nonneg period_of_def)

lemma period_pos: "0 < d \<Longrightarrow> d \<le> t \<Longrightarrow> 0 < period_of d t"
  by (simp add: period_of_def pos_imp_zdiv_pos_iff)

lemma period_mono: "0 < d \<Longrightarrow> s \<le> t \<Longrightarrow> period_of d s \<le> period_of d t"
  by (simp add: period_of_def zdiv_mono1)

text \<open>What a sample says of the values of one period, oldest first.\<close>

definition summary :: "'f float_ops \<Rightarrow> int \<Rightarrow> 'f list \<Rightarrow> 'f sample" where
  "summary F start vs =
     (let total = foldl (fl_add F) (hd vs) (tl vs)
      in \<lparr>sm_Avg = (if length vs = 1 then hd vs else fl_div F total (fl_ofint F (int (length vs)))), sm_Total = total,
          sm_Max = foldl (\<lambda>m v. if fl_gt F v m then v else m) (hd vs) (tl vs), sm_Count = of_nat (length vs), sm_Start = start\<rparr>)"

text \<open>The values of the period of the last time, in a list of times and values.\<close>

definition last_values :: "int \<Rightarrow> (int \<times> 'f) list \<Rightarrow> 'f list" where
  "last_values d xs = map snd (filter (\<lambda>x. period_of d (fst x) = period_of d (fst (last xs))) xs)"

definition feed_list :: "'f float_ops \<Rightarrow> int \<Rightarrow> (int \<times> 'f) list \<Rightarrow> 'f sample \<Rightarrow> 'f sample" where
  "feed_list F d xs m = fold (\<lambda>(t, v) m. snd (sample_Feed F m v t d)) xs m"

lemma feed_new:
  "0 < d \<Longrightarrow> d \<le> t \<Longrightarrow> sm_Start m < period_of d t \<Longrightarrow> sample_Feed F m v t d = (Some m, summary F (period_of d t) [v])"
  using goDiv_period [of t d] period_pos [of d t] by (simp add: sample_Feed_def summary_def Let_def)

lemma uint_of_nat64: "n < 2 ^ 64 \<Longrightarrow> uint (of_nat n :: u64) = int n"
  by (simp add: unsigned_of_nat take_bit_eq_mod)

lemma feed_same:
  assumes "0 < d" "d \<le> t" "vs \<noteq> []" "Suc (length vs) < 2 ^ 64"
  shows "sample_Feed F (summary F (period_of d t) vs) v t d = (None, summary F (period_of d t) (vs @ [v]))"
proof -
  obtain w ws where w: "vs = w # ws" using assms(3) by (cases vs) auto
  have p: "goDiv t d * d = period_of d t" "period_of d t \<noteq> 0"
    using goDiv_period [of t d] period_pos [of d t] assms(1,2) by auto
  have c: "uint (of_nat (length ws) + 1 + 1 :: u64) = int (length ws) + 2"
  proof -
    have "of_nat (length ws) + 1 + 1 = (of_nat (length ws + 2) :: u64)" by simp
    moreover have "uint (of_nat (length ws + 2) :: u64) = int (length ws + 2)"
      using assms(4) w by (intro uint_of_nat64) simp
    ultimately show ?thesis by simp
  qed
  show ?thesis
    unfolding sample_Feed_def Let_def p(1) using p(2) c
    by (simp add: summary_def Let_def w algebra_simps)
qed

lemma sorted_last: "sorted (map f xs) \<Longrightarrow> x \<in> set xs \<Longrightarrow> f x \<le> f (last xs)"
  by (induction xs) auto

lemma last_values_snoc:
  assumes "0 < d" "sorted (map fst (xs @ [(t, v)]))" "xs \<noteq> []"
  shows "last_values d (xs @ [(t, v)]) = (if period_of d (fst (last xs)) < period_of d t then [] else last_values d xs) @ [v]"
proof -
  have le: "period_of d (fst x) \<le> period_of d (fst (last xs))" if "x \<in> set xs" for x
    using assms(1,2) that by (intro period_mono sorted_last) (auto simp: sorted_append)
  have "fst (last xs) \<le> t" using assms(2,3) by (auto simp: sorted_append)
  then have t: "period_of d (fst (last xs)) \<le> period_of d t" by (rule period_mono [OF assms(1)])
  show ?thesis
  proof (cases "period_of d (fst (last xs)) < period_of d t")
    case True
    then have "filter (\<lambda>x. period_of d (fst x) = period_of d t) xs = []" using le by (fastforce simp: filter_empty_conv)
    then show ?thesis using True by (simp add: last_values_def)
  next
    case False
    then have "period_of d (fst (last xs)) = period_of d t" using t by simp
    then show ?thesis by (simp add: last_values_def)
  qed
qed

lemma last_values_nonempty: "xs \<noteq> [] \<Longrightarrow> last_values d xs \<noteq> []"
  by (auto simp: last_values_def filter_empty_conv intro: bexI [of _ "last xs"])

lemma length_last_values: "length (last_values d xs) \<le> length xs"
  by (simp add: last_values_def)

lemma feed_list_summary:
  assumes "0 < d" "xs \<noteq> []" "sorted (map fst xs)" "list_all (\<lambda>x. d \<le> fst x) xs" "length xs < 2 ^ 64" "sm_Start m \<le> 0"
  shows "feed_list F d xs m = summary F (period_of d (fst (last xs))) (last_values d xs)"
  using assms(2-5)
proof (induction xs rule: rev_induct)
  case (snoc x xs)
  obtain t v where x: "x = (t, v)" by fastforce
  have dt: "d \<le> t" using snoc.prems(3) x by simp
  have step: "feed_list F d (xs @ [x]) m = snd (sample_Feed F (feed_list F d xs m) v t d)"
    by (simp add: feed_list_def x)
  show ?case
  proof (cases "xs = []")
    case True
    have "sample_Feed F m v t d = (Some m, summary F (period_of d t) [v])"
      using assms(1,6) dt period_pos [of d t] by (intro feed_new) auto
    then show ?thesis using True step x by (simp add: feed_list_def last_values_def)
  next
    case False
    have IH: "feed_list F d xs m = summary F (period_of d (fst (last xs))) (last_values d xs)"
      using snoc.prems False by (intro snoc.IH) (auto simp: sorted_append)
    have lv: "last_values d (xs @ [x]) = (if period_of d (fst (last xs)) < period_of d t then [] else last_values d xs) @ [v]"
      using last_values_snoc [OF assms(1) _ False] snoc.prems(2) x by blast
    have "fst (last xs) \<le> t" using snoc.prems(2) False x by (auto simp: sorted_append)
    then have mono: "period_of d (fst (last xs)) \<le> period_of d t" by (rule period_mono [OF assms(1)])
    show ?thesis
    proof (cases "period_of d (fst (last xs)) < period_of d t")
      case True
      then have "sample_Feed F (feed_list F d xs m) v t d = (Some (feed_list F d xs m), summary F (period_of d t) [v])"
        using assms(1) dt by (intro feed_new) (simp_all add: IH summary_def Let_def)
      then show ?thesis using step lv True x by simp
    next
      case False
      then have eq: "period_of d (fst (last xs)) = period_of d t" using mono by simp
      have "Suc (length (last_values d xs)) < 2 ^ 64" using length_last_values [of d xs] snoc.prems(4) by simp
      then have "sample_Feed F (feed_list F d xs m) v t d = (None, summary F (period_of d t) (last_values d xs @ [v]))"
        unfolding IH eq using assms(1) dt last_values_nonempty \<open>xs \<noteq> []\<close> by (intro feed_same) auto
      then show ?thesis using step lv False x by simp
    qed
  qed
qed simp

section \<open>Properties\<close>

text \<open>
  A sample describes its period.  For values fed at times that do not go back (none before the end of the first
  period since the epoch), a fresh sample holds the start of the period of the last value and the sum, maximum, count and average of exactly the values
  of that period, taken in order; and a value that opens a new period hands out the sample of the one before it.
\<close>

theorem sample_of_period:
  assumes "0 < d" "xs \<noteq> []" "sorted (map fst (xs @ [(t, v)]))" "list_all (\<lambda>x. d \<le> fst x) (xs @ [(t, v)])" "length xs < 2 ^ 63"
  shows "feed_list F d xs (zero_sample F) = summary F (period_of d (fst (last xs))) (last_values d xs) \<and>
    fst (sample_Feed F (feed_list F d xs (zero_sample F)) v t d) =
      (if period_of d (fst (last xs)) < period_of d t then Some (summary F (period_of d (fst (last xs))) (last_values d xs)) else None)"
proof -
  let ?m = "summary F (period_of d (fst (last xs))) (last_values d xs)"
  have m: "feed_list F d xs (zero_sample F) = ?m"
    using assms by (intro feed_list_summary) (auto simp: sorted_append zero_sample_def)
  have dt: "d \<le> t" using assms(4) by simp
  have "fst (last xs) \<le> t" using assms(2,3) by (auto simp: sorted_append)
  then have mono: "period_of d (fst (last xs)) \<le> period_of d t" by (rule period_mono [OF assms(1)])
  have "fst (sample_Feed F ?m v t d) = (if period_of d (fst (last xs)) < period_of d t then Some ?m else None)"
  proof (cases "period_of d (fst (last xs)) < period_of d t")
    case True
    then show ?thesis using feed_new [OF assms(1) dt, of ?m F v] by (simp add: summary_def Let_def)
  next
    case False
    then have eq: "period_of d (fst (last xs)) = period_of d t" using mono by simp
    have "Suc (length (last_values d xs)) < 2 ^ 64" using length_last_values [of d xs] assms(5) by simp
    then show ?thesis
      unfolding eq using feed_same [OF assms(1) dt last_values_nonempty [OF assms(2)]] by simp
  qed
  then show ?thesis using m by simp
qed

definition ratOps :: "int float_ops" where
  "ratOps = \<lparr>fl_zero = 0, fl_add = (+), fl_sub = (-), fl_div = (div), fl_gt = (\<lambda>a b. a > b), fl_ofint = id, fl_isnan = (\<lambda>x. False)\<rparr>"

theorem sample_of_period_witness:
  "feed_list ratOps 300 [(600, 4), (900, 2), (950, 8)] (zero_sample ratOps) =
     \<lparr>sm_Avg = 5, sm_Total = 10, sm_Max = 8, sm_Count = 2, sm_Start = 900\<rparr>"
  using sample_of_period [of 300 "[(600, 4), (900, 2), (950, 8)]" 1000 1 ratOps]
  by (simp add: last_values_def period_of_def summary_def ratOps_def)

text \<open>
  Values that come too late.  A value whose time is not after the last one is ignored: no sample and no
  history changes.  But its time and value are remembered all the same, so that the clock of the state goes back, and the next
  difference of a differential metric is taken to the ignored value.
\<close>

theorem late_value_moves_clock:
  assumes "ms_LastTime s \<noteq> - 1" "now \<le> ms_LastTime s" "now < next" "now \<noteq> - 1" "ms_Operation s = Differential"
    and "\<not> fl_isnan F (fl_div F (fl_sub F w v) (fl_ofint F (next - now)))"
  shows "FeedOn F now v s = ([], s\<lparr>ms_LastValue := v, ms_LastTime := now\<rparr>) \<and>
    ms_Current (snd (FeedOn F next w (snd (FeedOn F now v s)))) =
      feed_all F (fl_div F (fl_sub F w v) (fl_ofint F (next - now))) next (ms_Current s)"
  using assms by (simp add: FeedOn_def Let_def)

theorem late_value_moves_clock_witness:
  "FeedOn ratOps 1000 7 ((NewState ratOps Differential Periods)\<lparr>ms_LastTime := 2000\<rparr>) =
     ([], (NewState ratOps Differential Periods)\<lparr>ms_LastTime := 1000, ms_LastValue := 7\<rparr>)"
  using late_value_moves_clock [of "(NewState ratOps Differential Periods)\<lparr>ms_LastTime := 2000\<rparr>" 1000 1001 ratOps 9 7]
  by (simp add: NewState_def ratOps_def)

text \<open>
  The history of a period is bounded: it holds the last five finished samples that were logged, in order.
\<close>

theorem history_keeps_last:
  assumes "length (h period) \<le> HistoryLength"
  shows "fold (state_log period) ms h period = lastn HistoryLength (h period @ filter (\<lambda>m. sm_Start m \<noteq> 0) ms)"
  using assms
proof (induction ms arbitrary: h)
  case (Cons m ms)
  have l: "state_log period m h period = (if sm_Start m = 0 then h period else lastn HistoryLength (h period @ [m]))"
    by (auto simp: state_log_def Let_def lastn_def)
  then have "length (state_log period m h period) \<le> HistoryLength" using Cons.prems by simp
  from Cons.IH [of "state_log period m h", OF this] show ?case
    using l lastn_lastn_append [of HistoryLength "h period @ [m]"] by simp
qed simp

theorem history_keeps_last_witness:
  "length (fold (state_log 300) (replicate 7 \<lparr>sm_Avg = 0, sm_Total = 0, sm_Max = 0 :: int, sm_Count = 1, sm_Start = 600\<rparr>) (\<lambda>_. []) 300) = 5"
  using history_keeps_last [of "\<lambda>_. []" 300 "replicate 7 \<lparr>sm_Avg = 0, sm_Total = 0, sm_Max = 0 :: int, sm_Count = 1, sm_Start = 600\<rparr>"]
  by (simp add: HistoryLength_def)

end
