(* ===== verification/Cgroups.thy ===== *)
theory Cgroups
  imports Utils Pm_Command Go_Json
begin

text \<open>
  \<^verbatim>\<open>apps/core0/subsys/cgroups\<close>: the control groups of devices, cpu sets and memory, and the commands on them.  A group
  is a directory below \<^verbatim>\<open>/sys/fs/cgroup\<close> and its settings are files in it: \<open>cg_fs\<close> says what the file system of the
  kernel answers, in a world \<open>'w\<close>.
\<close>

section \<open>Groups\<close>

record 'w cg_fs =
  fs_Stat :: "string \<Rightarrow> 'w \<Rightarrow> bool option"
  fs_Mkdir :: "string \<Rightarrow> 'w \<Rightarrow> go_error option \<times> 'w"
  fs_Remove :: "string \<Rightarrow> 'w \<Rightarrow> go_error option \<times> 'w"
  fs_ReadDir :: "string \<Rightarrow> 'w \<Rightarrow> go_error + (string \<times> bool) list"
  fs_ReadFile :: "string \<Rightarrow> 'w \<Rightarrow> go_error + string"
  fs_WriteFile :: "string \<Rightarrow> string \<Rightarrow> 'w \<Rightarrow> go_error option \<times> 'w"

definition DevicesSubsystem :: string where "DevicesSubsystem = ''devices''"
definition CPUSetSubsystem :: string where "CPUSetSubsystem = ''cpuset''"
definition MemorySubsystem :: string where "MemorySubsystem = ''memory''"
definition CGroupBase :: string where "CGroupBase = ''/sys/fs/cgroup''"

definition subsystems :: "string list" where
  "subsystems = [DevicesSubsystem, CPUSetSubsystem, MemorySubsystem]"

text \<open>\<^verbatim>\<open>path.Join\<close> of parts of which the first starts at the root.\<close>

definition path_join :: "string list \<Rightarrow> string" where
  "path_join parts = path_clean_rooted (join ''/'' (filter (\<lambda>p. p \<noteq> []) parts))"

record cgroup =
  cg_name :: string
  cg_subsys :: string

definition cg_base :: "cgroup \<Rightarrow> string" where
  "cg_base g = path_join [CGroupBase, cg_subsys g, cg_name g]"

definition cg_file :: "cgroup \<Rightarrow> string \<Rightarrow> string" where
  "cg_file g name = path_join [cg_base g, name]"

definition cg_Root :: "cgroup \<Rightarrow> cgroup" where
  "cg_Root g = \<lparr>cg_name = [], cg_subsys = cg_subsys g\<rparr>"

definition cg_Task :: "'w cg_fs \<Rightarrow> cgroup \<Rightarrow> int \<Rightarrow> 'w \<Rightarrow> go_error option \<times> 'w" where
  "cg_Task fs g pid w = fs_WriteFile fs (cg_file g ''cgroup.procs'') (itoaInt pid) w"

definition scan_error :: go_error where "scan_error = Errorf ''expected integer''"

fun read_pids :: "string list \<Rightarrow> go_error + int list" where
  "read_pids [] = Inr []"
| "read_pids (s # ss) =
     (if length s = 0 then read_pids ss
      else (case sscanf_int s of
              None \<Rightarrow> Inl scan_error
            | Some pid \<Rightarrow> (case read_pids ss of Inl e \<Rightarrow> Inl e | Inr pids \<Rightarrow> Inr (pid # pids))))"

definition cg_Tasks :: "'w cg_fs \<Rightarrow> cgroup \<Rightarrow> 'w \<Rightarrow> go_error + int list" where
  "cg_Tasks fs g w =
     (case fs_ReadFile fs (cg_file g ''cgroup.procs'') w of
        Inl e \<Rightarrow> Inl e
      | Inr raw \<Rightarrow> read_pids (split (CHR 0x0A) raw))"

section \<open>Cpu sets\<close>

definition Cpus :: "'w cg_fs \<Rightarrow> cgroup \<Rightarrow> string \<Rightarrow> 'w \<Rightarrow> go_error option \<times> 'w" where
  "Cpus fs g spec w = fs_WriteFile fs (cg_file g ''cpuset.cpus'') spec w"

definition Mems :: "'w cg_fs \<Rightarrow> cgroup \<Rightarrow> string \<Rightarrow> 'w \<Rightarrow> go_error option \<times> 'w" where
  "Mems fs g spec w = fs_WriteFile fs (cg_file g ''cpuset.mems'') spec w"

definition GetCpus :: "'w cg_fs \<Rightarrow> cgroup \<Rightarrow> 'w \<Rightarrow> go_error + string" where
  "GetCpus fs g w =
     (case fs_ReadFile fs (cg_file g ''cpuset.cpus'') w of Inl e \<Rightarrow> Inl e | Inr d \<Rightarrow> Inr (trimSpace d))"

definition GetMems :: "'w cg_fs \<Rightarrow> cgroup \<Rightarrow> 'w \<Rightarrow> go_error + string" where
  "GetMems fs g w =
     (case fs_ReadFile fs (cg_file g ''cpuset.mems'') w of Inl e \<Rightarrow> Inl e | Inr d \<Rightarrow> Inr (trimSpace d))"

text \<open>An error of a read is dropped and leaves the empty string.\<close>

definition or_empty :: "go_error + string \<Rightarrow> string" where
  "or_empty x = (case x of Inl e \<Rightarrow> [] | Inr s \<Rightarrow> s)"

definition cpuset_Reset :: "'w cg_fs \<Rightarrow> cgroup \<Rightarrow> 'w \<Rightarrow> 'w" where
  "cpuset_Reset fs g w =
     (let root = cg_Root g;
          w1 = snd (Cpus fs g (or_empty (GetCpus fs root w)) w)
      in snd (Mems fs g (or_empty (GetMems fs root w1)) w1))"

section \<open>Memory\<close>

definition memFile :: "cgroup \<Rightarrow> string" where
  "memFile g = cg_file g ''memory.limit_in_bytes''"

definition swapFile :: "cgroup \<Rightarrow> string" where
  "swapFile g = cg_file g ''memory.memsw.limit_in_bytes''"

definition read_limit :: "'w cg_fs \<Rightarrow> string \<Rightarrow> 'w \<Rightarrow> go_error + int" where
  "read_limit fs p w =
     (case fs_ReadFile fs p w of
        Inl e \<Rightarrow> Inl e
      | Inr d \<Rightarrow> (case sscanf_int (trimSpace d) of None \<Rightarrow> Inl scan_error | Some n \<Rightarrow> Inr n))"

definition Limits :: "'w cg_fs \<Rightarrow> cgroup \<Rightarrow> 'w \<Rightarrow> go_error + int \<times> int" where
  "Limits fs g w =
     (case read_limit fs (memFile g) w of
        Inl e \<Rightarrow> Inl e
      | Inr m \<Rightarrow> (case read_limit fs (swapFile g) w of Inl e \<Rightarrow> Inl e | Inr s \<Rightarrow> Inr (m, s)))"

definition mem_set :: "'w cg_fs \<Rightarrow> string \<Rightarrow> int \<Rightarrow> 'w \<Rightarrow> go_error option \<times> 'w" where
  "mem_set fs name val w = fs_WriteFile fs name (itoaInt val) w"

definition memory_Reset :: "'w cg_fs \<Rightarrow> cgroup \<Rightarrow> 'w \<Rightarrow> 'w" where
  "memory_Reset fs g w = snd (mem_set fs (memFile g) (- 1) (snd (mem_set fs (swapFile g) (- 1) w)))"

definition wrapInt :: "int \<Rightarrow> int" where
  "wrapInt x = (x + 2 ^ 63) mod 2 ^ 64 - 2 ^ 63"

text \<open>The errors of the two writes are dropped.\<close>

definition Limit :: "'w cg_fs \<Rightarrow> cgroup \<Rightarrow> int \<Rightarrow> int \<Rightarrow> 'w \<Rightarrow> go_error option \<times> 'w" where
  "Limit fs g mem0 swap0 w =
     (case Limits fs g w of
        Inl e \<Rightarrow> (Some e, w)
      | Inr (cmem, cswap) \<Rightarrow>
          let mem = (if mem0 = 0 then cmem else mem0);
              swap = wrapInt (mem + swap0)
          in if cswap < mem
             then (None, snd (mem_set fs (memFile g) mem (snd (mem_set fs (swapFile g) swap w))))
             else (None, snd (mem_set fs (swapFile g) swap (snd (mem_set fs (memFile g) mem w)))))"

section \<open>Devices\<close>

definition Deny :: "'w cg_fs \<Rightarrow> cgroup \<Rightarrow> string \<Rightarrow> 'w \<Rightarrow> go_error option \<times> 'w" where
  "Deny fs g spec w = fs_WriteFile fs (cg_file g ''devices.deny'') spec w"

definition Allow :: "'w cg_fs \<Rightarrow> cgroup \<Rightarrow> string \<Rightarrow> 'w \<Rightarrow> go_error option \<times> 'w" where
  "Allow fs g spec w = fs_WriteFile fs (cg_file g ''devices.allow'') spec w"

definition devices_List :: "'w cg_fs \<Rightarrow> cgroup \<Rightarrow> 'w \<Rightarrow> go_error + string list" where
  "devices_List fs g w =
     (case fs_ReadFile fs (cg_file g ''devices.list'') w of Inl e \<Rightarrow> Inl e | Inr d \<Rightarrow> Inr (split (CHR 0x0A) d))"

section \<open>Groups by name\<close>

definition cg_Reset :: "'w cg_fs \<Rightarrow> cgroup \<Rightarrow> 'w \<Rightarrow> 'w" where
  "cg_Reset fs g w =
     (if cg_subsys g = CPUSetSubsystem then cpuset_Reset fs g w
      else if cg_subsys g = MemorySubsystem then memory_Reset fs g w
      else w)"

definition cg_Exists :: "'w cg_fs \<Rightarrow> string \<Rightarrow> string \<Rightarrow> 'w \<Rightarrow> bool" where
  "cg_Exists fs subsystem name w =
     (if subsystem \<notin> set subsystems then False
      else fs_Stat fs (path_join [CGroupBase, subsystem, name]) w = Some True)"

definition GetGroup :: "'w cg_fs \<Rightarrow> string \<Rightarrow> string \<Rightarrow> 'w \<Rightarrow> (go_error + cgroup) \<times> 'w" where
  "GetGroup fs subsystem name w =
     (if subsystem \<notin> set subsystems
      then (Inl (Errorf (''unknown subsystem '' @ [CHR 0x27] @ subsystem @ [CHR 0x27])), w)
      else let p = path_join [CGroupBase, subsystem, name]; g = \<lparr>cg_name = name, cg_subsys = subsystem\<rparr>
           in if fs_Stat fs p w \<noteq> None then (Inr g, w)
              else (case fs_Mkdir fs p w of
                      (Some e, w1) \<Rightarrow> (Inl e, w1)
                    | (None, w1) \<Rightarrow> (Inr g, cg_Reset fs g w1)))"

definition ErrDoesNotExist :: go_error where "ErrDoesNotExist = Errorf ''cgroup does not exist''"
definition ErrInvalidType :: go_error where "ErrInvalidType = Errorf ''cgroup of invalid type''"

definition cg_Get :: "'w cg_fs \<Rightarrow> string \<Rightarrow> string \<Rightarrow> 'w \<Rightarrow> (go_error + cgroup) \<times> 'w" where
  "cg_Get fs subsystem name w =
     (if \<not> cg_Exists fs subsystem name w then (Inl ErrDoesNotExist, w) else GetGroup fs subsystem name w)"

fun get_groups :: "'w cg_fs \<Rightarrow> string list \<Rightarrow> 'w \<Rightarrow> go_error + (string \<times> string list) list" where
  "get_groups fs [] w = Inr []"
| "get_groups fs (sub # subs) w =
     (if sub = DevicesSubsystem then get_groups fs subs w
      else (case fs_ReadDir fs (path_join [CGroupBase, sub]) w of
              Inl e \<Rightarrow> Inl e
            | Inr info \<Rightarrow>
                (case get_groups fs subs w of
                   Inl e \<Rightarrow> Inl e
                 | Inr m \<Rightarrow>
                     let dirs = map fst (filter snd info) in Inr (if dirs = [] then m else (sub, dirs) # m))))"

definition GetGroups :: "'w cg_fs \<Rightarrow> 'w \<Rightarrow> go_error + (string \<times> string list) list" where
  "GetGroups fs w = get_groups fs subsystems w"

definition move_tasks :: "'w cg_fs \<Rightarrow> cgroup \<Rightarrow> int list \<Rightarrow> 'w \<Rightarrow> 'w" where
  "move_tasks fs root pids w = fold (\<lambda>pid w. snd (cg_Task fs root pid w)) pids w"

definition cg_Remove :: "'w cg_fs \<Rightarrow> string \<Rightarrow> string \<Rightarrow> 'w \<Rightarrow> go_error option \<times> 'w" where
  "cg_Remove fs subsystem name w =
     (if \<not> cg_Exists fs subsystem name w then (None, w)
      else let g = \<lparr>cg_name = name, cg_subsys = subsystem\<rparr>
           in case cg_Tasks fs g w of
                Inl e \<Rightarrow> (Some e, w)
              | Inr tasks \<Rightarrow>
                  if length tasks = 0 then fs_Remove fs (path_join [CGroupBase, subsystem, name]) w
                  else fs_Remove fs (path_join [CGroupBase, subsystem, name]) (move_tasks fs (cg_Root g) tasks w))"

section \<open>Commands\<close>

record group_arg =
  ga_Subsystem :: string
  ga_Name :: string
  ga_PID :: int

definition group_args :: "json \<Rightarrow> group_arg option" where
  "group_args j =
     (case objectOf j of
        None \<Rightarrow> None
      | Some es \<Rightarrow>
          (case (field_string ''subsystem'' es, field_string ''name'' es, field_int ''pid'' es) of
             (Some s, Some n, Some p) \<Rightarrow> Some \<lparr>ga_Subsystem = s, ga_Name = n, ga_PID = p\<rparr>
           | _ \<Rightarrow> None))"

definition bad_json :: go_error where "bad_json = BadRequestError ''json''"

text \<open>A command that decodes its arguments and works on an existing group.\<close>

definition on_group ::
  "'w cg_fs \<Rightarrow> json \<Rightarrow> (group_arg \<Rightarrow> cgroup \<Rightarrow> 'w \<Rightarrow> (go_error + 'a) \<times> 'w) \<Rightarrow> 'w \<Rightarrow> (go_error + 'a) \<times> 'w" where
  "on_group fs cmd f w =
     (case group_args cmd of
        None \<Rightarrow> (Inl bad_json, w)
      | Some args \<Rightarrow>
          (case cg_Get fs (ga_Subsystem args) (ga_Name args) w of
             (Inl e, w1) \<Rightarrow> (Inl (NotFoundError (err_Text e)), w1)
           | (Inr g, w1) \<Rightarrow> f args g w1))"

definition err_result :: "go_error option \<times> 'w \<Rightarrow> (go_error + unit) \<times> 'w" where
  "err_result x = (case x of (Some e, w) \<Rightarrow> (Inl e, w) | (None, w) \<Rightarrow> (Inr (), w))"

definition cg_ensure :: "'w cg_fs \<Rightarrow> json \<Rightarrow> 'w \<Rightarrow> (go_error + unit) \<times> 'w" where
  "cg_ensure fs cmd w =
     (case group_args cmd of
        None \<Rightarrow> (Inl bad_json, w)
      | Some args \<Rightarrow>
          (case GetGroup fs (ga_Subsystem args) (ga_Name args) w of (Inl e, w1) \<Rightarrow> (Inl e, w1) | (Inr g, w1) \<Rightarrow> (Inr (), w1)))"

definition cg_remove :: "'w cg_fs \<Rightarrow> json \<Rightarrow> 'w \<Rightarrow> (go_error + unit) \<times> 'w" where
  "cg_remove fs cmd w =
     (case group_args cmd of
        None \<Rightarrow> (Inl bad_json, w)
      | Some args \<Rightarrow> err_result (cg_Remove fs (ga_Subsystem args) (ga_Name args) w))"

definition cg_reset :: "'w cg_fs \<Rightarrow> json \<Rightarrow> 'w \<Rightarrow> (go_error + unit) \<times> 'w" where
  "cg_reset fs cmd w = on_group fs cmd (\<lambda>args g w. (Inr (), cg_Reset fs g w)) w"

definition cg_tasks :: "'w cg_fs \<Rightarrow> json \<Rightarrow> 'w \<Rightarrow> (go_error + int list) \<times> 'w" where
  "cg_tasks fs cmd w = on_group fs cmd (\<lambda>args g w. (cg_Tasks fs g w, w)) w"

definition taskAdd :: "'w cg_fs \<Rightarrow> json \<Rightarrow> 'w \<Rightarrow> (go_error + unit) \<times> 'w" where
  "taskAdd fs cmd w = on_group fs cmd (\<lambda>args g w. err_result (cg_Task fs g (ga_PID args) w)) w"

definition taskRemove :: "'w cg_fs \<Rightarrow> json \<Rightarrow> 'w \<Rightarrow> (go_error + unit) \<times> 'w" where
  "taskRemove fs cmd w = on_group fs cmd (\<lambda>args g w. err_result (cg_Task fs (cg_Root g) (ga_PID args) w)) w"

text \<open>The answer of \<^verbatim>\<open>cgroup.cpuset.spec\<close>: the cpus and memory nodes after the change.\<close>

definition cpusetSpec :: "'w cg_fs \<Rightarrow> json \<Rightarrow> 'w \<Rightarrow> (go_error + string \<times> string) \<times> 'w" where
  "cpusetSpec fs cmd w =
     (case objectOf cmd of
        None \<Rightarrow> (Inl bad_json, w)
      | Some es \<Rightarrow>
          (case (field_string ''name'' es, field_string ''cpus'' es, field_string ''mems'' es) of
             (Some name, Some cpus, Some mems) \<Rightarrow>
               (case cg_Get fs CPUSetSubsystem name w of
                  (Inl e, w1) \<Rightarrow> (Inl (NotFoundError (err_Text e)), w1)
                | (Inr g, w1) \<Rightarrow>
                    (case (if length cpus \<noteq> 0 then Cpus fs g cpus w1 else (None, w1)) of
                       (Some e, w2) \<Rightarrow> (Inl e, w2)
                     | (None, w2) \<Rightarrow>
                         (case (if length mems \<noteq> 0 then Mems fs g mems w2 else (None, w2)) of
                            (Some e, w3) \<Rightarrow> (Inl e, w3)
                          | (None, w3) \<Rightarrow> (Inr (or_empty (GetCpus fs g w3), or_empty (GetMems fs g w3)), w3))))
           | _ \<Rightarrow> (Inl bad_json, w)))"

text \<open>The answer of \<^verbatim>\<open>cgroup.memory.spec\<close>: memory and swap after the change; both are zero when they cannot be read.\<close>

definition memorySpec :: "'w cg_fs \<Rightarrow> json \<Rightarrow> 'w \<Rightarrow> (go_error + int \<times> int) \<times> 'w" where
  "memorySpec fs cmd w =
     (case objectOf cmd of
        None \<Rightarrow> (Inl bad_json, w)
      | Some es \<Rightarrow>
          (case (field_string ''name'' es, field_int ''mem'' es, field_int ''swap'' es) of
             (Some name, Some mem, Some swap) \<Rightarrow>
               (case cg_Get fs MemorySubsystem name w of
                  (Inl e, w1) \<Rightarrow> (Inl (NotFoundError (err_Text e)), w1)
                | (Inr g, w1) \<Rightarrow>
                    (case (if mem \<noteq> 0 then Limit fs g mem swap w1 else (None, w1)) of
                       (Some e, w2) \<Rightarrow> (Inl e, w2)
                     | (None, w2) \<Rightarrow>
                         (case Limits fs g w2 of
                            Inl e \<Rightarrow> (Inr (0, 0), w2)
                          | Inr (m, s) \<Rightarrow> (Inr (m, wrapInt (s - m)), w2))))
           | _ \<Rightarrow> (Inl bad_json, w)))"

section \<open>The memory controller\<close>

text \<open>
  What the kernel does with the two limits of a group, \<open>lim\<close>: it answers with them, refuses to let the memory limit
  exceed the limit of memory and swap, and changes nothing when it refuses.  Limits are whole pages, and the group does not use
  more than what is asked.
\<close>

definition memory_controller :: "'w cg_fs \<Rightarrow> cgroup \<Rightarrow> ('w \<Rightarrow> int \<times> int) \<Rightarrow> bool" where
  "memory_controller fs g lim \<longleftrightarrow>
     (\<forall>w. 0 \<le> fst (lim w) \<and> fst (lim w) \<le> snd (lim w) \<and> snd (lim w) < 2 ^ 63 \<and>
          4096 dvd fst (lim w) \<and> 4096 dvd snd (lim w)) \<and>
     (\<forall>w. fs_ReadFile fs (memFile g) w = Inr (itoaInt (fst (lim w)) @ [CHR 0x0A]) \<and>
          fs_ReadFile fs (swapFile g) w = Inr (itoaInt (snd (lim w)) @ [CHR 0x0A])) \<and>
     (\<forall>w m. 0 \<le> m \<and> m \<le> snd (lim w) \<and> 4096 dvd m \<longrightarrow>
        (\<exists>w'. fs_WriteFile fs (memFile g) (itoaInt m) w = (None, w') \<and> lim w' = (m, snd (lim w)))) \<and>
     (\<forall>w s. fst (lim w) \<le> s \<and> s < 2 ^ 63 \<and> 4096 dvd s \<longrightarrow>
        (\<exists>w'. fs_WriteFile fs (swapFile g) (itoaInt s) w = (None, w') \<and> lim w' = (fst (lim w), s))) \<and>
     (\<forall>w s. 0 \<le> s \<and> s < fst (lim w) \<and> 4096 dvd s \<longrightarrow>
        (\<exists>e w'. fs_WriteFile fs (swapFile g) (itoaInt s) w = (Some e, w') \<and> lim w' = lim w))"

section \<open>Lemmas\<close>

lemma takeWhile_digits: "takeWhile isDigit (itoa n) = itoa n"
  using itoa_digits [of n] by (auto simp: takeWhile_eq_all_conv list_all_iff)

lemma skipSpace_stop: "s \<noteq> [] \<Longrightarrow> hd s \<notin> set goSpace \<Longrightarrow> hd s \<noteq> CHR 0x0A \<Longrightarrow> skipSpace s = Some s"
  by (cases s) auto

lemma hd_itoa: "isDigit (hd (itoa n))"
  using itoa_digits [of n] by (cases "itoa n") auto

lemma digit_not_space: "isDigit c \<Longrightarrow> c \<notin> set goSpace" "isDigit c \<Longrightarrow> c \<noteq> CHR 0x0A" "isDigit c \<Longrightarrow> c \<noteq> CHR ''-''" "isDigit c \<Longrightarrow> c \<noteq> CHR ''+''"
  by (auto simp: isDigit_def goSpace_def)

lemma sscanf_int_itoa:
  assumes "int n < 2 ^ 63"
  shows "sscanf_int (itoa n) = Some (int n)"
proof -
  have "skipSpace (itoa n) = Some (itoa n)"
    using hd_itoa [of n] digit_not_space by (intro skipSpace_stop) auto
  moreover have "hd (itoa n) \<noteq> CHR ''-''" "hd (itoa n) \<noteq> CHR ''+''" using hd_itoa [of n] digit_not_space by blast+
  ultimately show ?thesis
    using assms by (simp add: sscanf_int_def Let_def takeWhile_digits del: takeWhile_eq_all_conv)
qed

lemma sscanf_int_neg:
  assumes "int n \<le> 2 ^ 63"
  shows "sscanf_int (CHR ''-'' # itoa n) = Some (- int n)"
  using assms by (simp add: sscanf_int_def Let_def takeWhile_digits goSpace_def)

lemma sscanf_itoaInt: "- (2 ^ 63) \<le> n \<Longrightarrow> n < 2 ^ 63 \<Longrightarrow> sscanf_int (itoaInt n) = Some n"
  using sscanf_int_itoa [of "nat n"] sscanf_int_neg [of "nat (- n)"] by (auto simp: itoaInt_def)

lemma itoaInt_no_space: "c \<in> set (itoaInt n) \<Longrightarrow> c \<notin> set goSpace"
  using itoa_digits [of "nat n"] itoa_digits [of "nat (- n)"] digit_not_space(1)
  by (auto simp: itoaInt_def list_all_iff goSpace_def split: if_splits)

lemma itoaInt_nonempty [simp]: "itoaInt n \<noteq> []"
  by (simp add: itoaInt_def)

lemma trimSpace_line: "trimSpace (itoaInt n @ [CHR 0x0A]) = itoaInt n"
proof -
  have "dropWhile (\<lambda>c. c \<in> set goSpace) (itoaInt n @ [CHR 0x0A]) = itoaInt n @ [CHR 0x0A]"
    using itoaInt_no_space [of _ n] by (cases "itoaInt n") auto
  moreover have "dropWhile (\<lambda>c. c \<in> set goSpace) (rev (itoaInt n)) = rev (itoaInt n)"
    using itoaInt_no_space [of _ n] by (cases "rev (itoaInt n)") (auto dest: arg_cong [where f = set])
  ultimately show ?thesis by (simp add: trimSpace_def trim_def trimLeft_def trimRight_def goSpace_def)
qed

lemma read_limit_line:
  "fs_ReadFile fs p w = Inr (itoaInt n @ [CHR 0x0A]) \<Longrightarrow> - (2 ^ 63) \<le> n \<Longrightarrow> n < 2 ^ 63 \<Longrightarrow> read_limit fs p w = Inr n"
  by (simp add: read_limit_def trimSpace_line sscanf_itoaInt)

lemma controllerD:
  assumes "memory_controller fs g lim"
  shows "0 \<le> fst (lim w)" "fst (lim w) \<le> snd (lim w)" "snd (lim w) < 2 ^ 63" "4096 dvd fst (lim w)"
    and "Limits fs g w = Inr (lim w)"
    and "0 \<le> m \<Longrightarrow> m \<le> snd (lim w) \<Longrightarrow> 4096 dvd m \<Longrightarrow> \<exists>w'. mem_set fs (memFile g) m w = (None, w') \<and> lim w' = (m, snd (lim w))"
    and "fst (lim w) \<le> s \<Longrightarrow> s < 2 ^ 63 \<Longrightarrow> 4096 dvd s \<Longrightarrow> \<exists>w'. mem_set fs (swapFile g) s w = (None, w') \<and> lim w' = (fst (lim w), s)"
    and "0 \<le> s \<Longrightarrow> s < fst (lim w) \<Longrightarrow> 4096 dvd s \<Longrightarrow> \<exists>e w'. mem_set fs (swapFile g) s w = (Some e, w') \<and> lim w' = lim w"
proof -
  show b: "0 \<le> fst (lim w)" "fst (lim w) \<le> snd (lim w)" "snd (lim w) < 2 ^ 63" "4096 dvd fst (lim w)"
    using assms unfolding memory_controller_def by blast+
  have rd: "fs_ReadFile fs (memFile g) w = Inr (itoaInt (fst (lim w)) @ [CHR 0x0A])"
    "fs_ReadFile fs (swapFile g) w = Inr (itoaInt (snd (lim w)) @ [CHR 0x0A])"
    using assms unfolding memory_controller_def by blast+
  have "read_limit fs (memFile g) w = Inr (fst (lim w))" "read_limit fs (swapFile g) w = Inr (snd (lim w))"
    using read_limit_line [OF rd(1)] read_limit_line [OF rd(2)] b by linarith+
  then show "Limits fs g w = Inr (lim w)" by (simp add: Limits_def)
  show "0 \<le> m \<Longrightarrow> m \<le> snd (lim w) \<Longrightarrow> 4096 dvd m \<Longrightarrow> \<exists>w'. mem_set fs (memFile g) m w = (None, w') \<and> lim w' = (m, snd (lim w))"
    "fst (lim w) \<le> s \<Longrightarrow> s < 2 ^ 63 \<Longrightarrow> 4096 dvd s \<Longrightarrow> \<exists>w'. mem_set fs (swapFile g) s w = (None, w') \<and> lim w' = (fst (lim w), s)"
    "0 \<le> s \<Longrightarrow> s < fst (lim w) \<Longrightarrow> 4096 dvd s \<Longrightarrow> \<exists>e w'. mem_set fs (swapFile g) s w = (Some e, w') \<and> lim w' = lim w"
    using assms unfolding memory_controller_def mem_set_def by blast+
qed

lemma wrapInt_id: "- (2 ^ 63) \<le> x \<Longrightarrow> x < 2 ^ 63 \<Longrightarrow> wrapInt x = x"
  by (simp add: wrapInt_def)

text \<open>A memory controller that behaves as the kernel's, the two limits its world.\<close>

definition sampleGroup :: cgroup where
  "sampleGroup = \<lparr>cg_name = ''db'', cg_subsys = MemorySubsystem\<rparr>"

definition sampleLim :: "int \<times> int \<Rightarrow> int \<times> int" where
  "sampleLim w = (if 0 \<le> fst w \<and> fst w \<le> snd w \<and> snd w < 2 ^ 63 \<and> 4096 dvd fst w \<and> 4096 dvd snd w then w else (0, 0))"

definition sampleCg :: "(int \<times> int) cg_fs" where
  "sampleCg =
     \<lparr>fs_Stat = (\<lambda>_ _. Some True), fs_Mkdir = (\<lambda>_ w. (None, w)), fs_Remove = (\<lambda>_ w. (None, w)),
      fs_ReadDir = (\<lambda>_ _. Inr []),
      fs_ReadFile = (\<lambda>p w.
        if p = memFile sampleGroup then Inr (itoaInt (fst (sampleLim w)) @ [CHR 0x0A])
        else if p = swapFile sampleGroup then Inr (itoaInt (snd (sampleLim w)) @ [CHR 0x0A])
        else Inr (''1'' @ [CHR 0x0A] @ ''734'' @ [CHR 0x0A])),
      fs_WriteFile = (\<lambda>p d w.
        case sscanf_int d of
          None \<Rightarrow> (Some (Errorf ''invalid argument''), w)
        | Some n \<Rightarrow>
            if p = memFile sampleGroup \<and> n \<le> snd (sampleLim w) then (None, (n, snd (sampleLim w)))
            else if p = swapFile sampleGroup \<and> fst (sampleLim w) \<le> n then (None, (fst (sampleLim w), n))
            else (Some (Errorf ''invalid argument''), w))\<rparr>"

lemma sample_files:
  "swapFile sampleGroup \<noteq> memFile sampleGroup"
  "cg_file sampleGroup ''cgroup.procs'' \<noteq> memFile sampleGroup" "cg_file sampleGroup ''cgroup.procs'' \<noteq> swapFile sampleGroup"
  by code_simp+

lemma sampleLim_valid:
  "0 \<le> fst (sampleLim w)" "fst (sampleLim w) \<le> snd (sampleLim w)" "snd (sampleLim w) < 2 ^ 63"
  "4096 dvd fst (sampleLim w)" "4096 dvd snd (sampleLim w)"
  by (auto simp: sampleLim_def)

lemma sampleLim_id:
  "0 \<le> m \<Longrightarrow> m \<le> s \<Longrightarrow> s < 2 ^ 63 \<Longrightarrow> 4096 dvd m \<Longrightarrow> 4096 dvd s \<Longrightarrow> sampleLim (m, s) = (m, s)"
  by (simp add: sampleLim_def)

lemma sampleCg_controller: "memory_controller sampleCg sampleGroup sampleLim"
proof -
  have mem: "\<exists>w'. fs_WriteFile sampleCg (memFile sampleGroup) (itoaInt m) w = (None, w') \<and> sampleLim w' = (m, snd (sampleLim w))"
    if "0 \<le> m" "m \<le> snd (sampleLim w)" "4096 dvd m" for m w
    using that sampleLim_valid [of w] sscanf_itoaInt [of m] by (simp add: sampleCg_def sampleLim_id)
  have swap: "\<exists>w'. fs_WriteFile sampleCg (swapFile sampleGroup) (itoaInt s) w = (None, w') \<and> sampleLim w' = (fst (sampleLim w), s)"
    if "fst (sampleLim w) \<le> s" "s < 2 ^ 63" "4096 dvd s" for s w
    using that sampleLim_valid [of w] sscanf_itoaInt [of s] sample_files by (simp add: sampleCg_def sampleLim_id)
  have refused: "\<exists>e w'. fs_WriteFile sampleCg (swapFile sampleGroup) (itoaInt s) w = (Some e, w') \<and> sampleLim w' = sampleLim w"
    if "0 \<le> s" "s < fst (sampleLim w)" for s w
    using that sampleLim_valid [of w] sscanf_itoaInt [of s] sample_files by (simp add: sampleCg_def)
  have reads: "fs_ReadFile sampleCg (memFile sampleGroup) w = Inr (itoaInt (fst (sampleLim w)) @ [CHR 0x0A])"
    "fs_ReadFile sampleCg (swapFile sampleGroup) w = Inr (itoaInt (snd (sampleLim w)) @ [CHR 0x0A])" for w
    using sample_files by (simp_all add: sampleCg_def)
  show ?thesis
    unfolding memory_controller_def by (intro conjI allI impI reads sampleLim_valid mem swap refused; elim conjE; assumption)
qed

section \<open>Properties\<close>

text \<open>
  C32. Changing the limits of a group.  Whatever the limits were, \<^verbatim>\<open>Limit\<close> writes the two files in an order the kernel
  accepts, and afterwards the memory limit is the one asked for and the other one that plus the swap; a memory of zero keeps the
  memory limit.
\<close>

theorem memory_limit_set:
  assumes "memory_controller fs g lim" "0 \<le> mem" "0 \<le> swap" "new = (if mem = 0 then fst (lim w) else mem)" "new + swap < 2 ^ 63"
    and "4096 dvd mem" "4096 dvd swap"
  shows "\<exists>w'. Limit fs g mem swap w = (None, w') \<and> lim w' = (new, new + swap)"
proof -
  note c = controllerD [OF assms(1)]
  have new: "0 \<le> new" "4096 dvd new" using assms(2,4,6) c(1,4) by auto
  have sum: "4096 dvd new + swap" using new(2) assms(7) by (rule dvd_add)
  have wrap: "wrapInt (new + swap) = new + swap" using new(1) assms(3,5) by (intro wrapInt_id) auto
  show ?thesis
  proof (cases "snd (lim w) < new")
    case True
    obtain w1 where w1: "mem_set fs (swapFile g) (new + swap) w = (None, w1)" "lim w1 = (fst (lim w), new + swap)"
      using c(7) [of w "new + swap"] c(2) [of w] True assms(3,5) sum by auto
    obtain w2 where w2: "mem_set fs (memFile g) new w1 = (None, w2)" "lim w2 = (new, new + swap)"
      using c(6) [of new w1] new w1(2) assms(3) by auto
    show ?thesis
      using True w1(1) w2 wrap c(5) [of w] assms(4) by (cases "lim w") (auto simp: Limit_def Let_def)
  next
    case False
    obtain w1 where w1: "mem_set fs (memFile g) new w = (None, w1)" "lim w1 = (new, snd (lim w))"
      using c(6) [of new w] new False by auto
    obtain w2 where w2: "mem_set fs (swapFile g) (new + swap) w1 = (None, w2)" "lim w2 = (new, new + swap)"
      using c(7) [of w1 "new + swap"] w1(2) assms(3,5) sum by auto
    show ?thesis
      using False w1(1) w2 wrap c(5) [of w] assms(4) by (cases "lim w") (auto simp: Limit_def Let_def)
  qed
qed

theorem memory_limit_set_witness:
  "\<exists>w'. Limit sampleCg sampleGroup 8192 4096 (0, 4096) = (None, w') \<and> sampleLim w' = (8192, 12288)"
  using memory_limit_set [OF sampleCg_controller, of 8192 4096 8192 "(0, 4096)"] by simp

text \<open>
  A refused limit goes unnoticed: when the swap is negative, the kernel refuses the second write, the limit of memory and swap
  stays as it was, and \<^verbatim>\<open>Limit\<close> reports no error.
\<close>

theorem memory_limit_silent:
  assumes "memory_controller fs g lim" "0 < mem" "mem \<le> snd (lim w)" "swap < 0" "0 \<le> mem + swap"
    and "4096 dvd mem" "4096 dvd swap"
  shows "\<exists>w'. Limit fs g mem swap w = (None, w') \<and> lim w' = (mem, snd (lim w))"
proof -
  note c = controllerD [OF assms(1)]
  have sum: "4096 dvd mem + swap" using assms(6,7) by (rule dvd_add)
  have wrap: "wrapInt (mem + swap) = mem + swap" using assms c(3) [of w] by (intro wrapInt_id) auto
  obtain w1 where w1: "mem_set fs (memFile g) mem w = (None, w1)" "lim w1 = (mem, snd (lim w))"
    using c(6) [of mem w] assms by auto
  obtain e w2 where w2: "mem_set fs (swapFile g) (mem + swap) w1 = (Some e, w2)" "lim w2 = lim w1"
    using c(8) [of "mem + swap" w1] w1(2) assms sum by auto
  show ?thesis
    using assms w1 w2 wrap c(5) [of w] by (cases "lim w") (auto simp: Limit_def Let_def)
qed

theorem memory_limit_silent_witness:
  "\<exists>w'. Limit sampleCg sampleGroup 8192 (- 4096) (0, 8192) = (None, w') \<and> sampleLim w' = (8192, 8192)"
  using memory_limit_silent [OF sampleCg_controller, of 8192 "(0, 8192)" "- 4096"] by (simp add: sampleLim_def)

text \<open>
  The processes of a group are read back: from the lines the kernel lists, one number each, \<^verbatim>\<open>Tasks\<close> returns
  exactly the numbers, in order.
\<close>

theorem tasks_roundtrip:
  assumes "fs_ReadFile fs (cg_file g ''cgroup.procs'') w = Inr (concat (map (\<lambda>p. itoaInt p @ [CHR 0x0A]) pids))"
    and "list_all (\<lambda>p. - (2 ^ 63) \<le> p \<and> p < 2 ^ 63) pids"
  shows "cg_Tasks fs g w = Inr pids"
proof -
  have "read_pids (split (CHR 0x0A) (concat (map (\<lambda>p. itoaInt p @ [CHR 0x0A]) pids))) = Inr pids"
    using assms(2)
  proof (induction pids)
    case (Cons p pids)
    have "CHR 0x0A \<notin> set (itoaInt p)" using itoaInt_no_space [of "CHR 0x0A" p] by (auto simp: goSpace_def)
    then show ?case
      using Cons by (simp add: split_append_sep sscanf_itoaInt)
  qed simp
  then show ?thesis using assms(1) by (simp add: cg_Tasks_def)
qed

theorem tasks_roundtrip_witness: "cg_Tasks sampleCg sampleGroup (0, 0) = Inr [1, 734]"
proof -
  have "fs_ReadFile sampleCg (cg_file sampleGroup ''cgroup.procs'') (0, 0) = Inr (concat (map (\<lambda>p. itoaInt p @ [CHR 0x0A]) [1, 734]))"
  proof -
    have "itoaInt 1 = ''1''" "itoaInt 734 = ''734''" by code_simp+
    then show ?thesis using sample_files by (simp add: sampleCg_def)
  qed
  then show ?thesis by (rule tasks_roundtrip) simp
qed

end
