(* ===== verification/Go_Effect.thy ===== *)
theory Go_Effect
  imports Pm_Command
begin

text \<open>
  Code that calls the system and may fail: an effect takes a state to an error or a value and the state after.  The
  combinators are the shapes the sources are written in: a call followed by a check of its error (\<open>andThen\<close>), a
  call whose error is looked at or dropped (\<open>attempt\<close>, \<open>ignore\<close>), an error that is wrapped in another one (\<open>wrapErr\<close>)
  and a loop that returns at the first error (\<open>forEach\<close>).
\<close>

type_synonym ('e, 'a, 's) eff = "'s \<Rightarrow> ('e + 'a) \<times> 's"

definition ret :: "'a \<Rightarrow> ('e, 'a, 's) eff" where "ret x s = (Inr x, s)"
definition fail :: "'e \<Rightarrow> ('e, 'a, 's) eff" where "fail e s = (Inl e, s)"

definition andThen :: "('e, 'a, 's) eff \<Rightarrow> ('a \<Rightarrow> ('e, 'b, 's) eff) \<Rightarrow> ('e, 'b, 's) eff" where
  "andThen m k s = (case m s of (Inl e, s1) \<Rightarrow> (Inl e, s1) | (Inr x, s1) \<Rightarrow> k x s1)"

definition attempt :: "('e, 'a, 's) eff \<Rightarrow> ('e + 'a \<Rightarrow> ('f, 'b, 's) eff) \<Rightarrow> ('f, 'b, 's) eff" where
  "attempt m k s = (case m s of (r, s1) \<Rightarrow> k r s1)"

definition ignore :: "('e, 'a, 's) eff \<Rightarrow> ('f, unit, 's) eff" where
  "ignore m s = (Inr (), snd (m s))"

definition wrapErr :: "('e \<Rightarrow> 'f) \<Rightarrow> ('e, 'a, 's) eff \<Rightarrow> ('f, 'a, 's) eff" where
  "wrapErr f m s = (case m s of (Inl e, s1) \<Rightarrow> (Inl (f e), s1) | (Inr x, s1) \<Rightarrow> (Inr x, s1))"

text \<open>A question to the system that does not change it.\<close>

definition ask :: "('s \<Rightarrow> 'e + 'a) \<Rightarrow> ('e, 'a, 's) eff" where
  "ask f s = (f s, s)"

text \<open>A call that answers with an error or nothing.\<close>

definition call :: "('s \<Rightarrow> 'e option \<times> 's) \<Rightarrow> ('e, unit, 's) eff" where
  "call f s = (case f s of (None, s1) \<Rightarrow> (Inr (), s1) | (Some e, s1) \<Rightarrow> (Inl e, s1))"

fun forEach :: "('a \<Rightarrow> ('e, unit, 's) eff) \<Rightarrow> 'a list \<Rightarrow> ('e, unit, 's) eff" where
  "forEach f [] = ret ()"
| "forEach f (x # xs) = andThen (f x) (\<lambda>_. forEach f xs)"

section \<open>Lemmas\<close>

named_theorems eff_simps \<open>running the combinators\<close>

lemma eff_runs [eff_simps]:
  "ret x s = (Inr x, s)" "fail e s = (Inl e, s)" "ask f s = (f s, s)" "ignore m s = (Inr (), snd (m s))"
  by (simp_all add: ret_def fail_def ask_def ignore_def)

lemma andThen_ret [eff_simps]: "andThen (ret x) k = k x"
  by (simp add: andThen_def ret_def fun_eq_iff)

lemma andThen_fail [eff_simps]: "andThen (fail e) k = fail e"
  by (simp add: andThen_def fail_def fun_eq_iff)

lemma andThen_Inr: "m s = (Inr x, s1) \<Longrightarrow> andThen m k s = k x s1"
  by (simp add: andThen_def)

lemma andThen_Inl: "m s = (Inl e, s1) \<Longrightarrow> andThen m k s = (Inl e, s1)"
  by (simp add: andThen_def)

lemma andThen_InrE:
  assumes "andThen m k s = (Inr y, s')"
  obtains x s1 where "m s = (Inr x, s1)" "k x s1 = (Inr y, s')"
  using assms by (auto simp: andThen_def split: prod.splits sum.splits)

lemma andThen_assoc: "andThen (andThen m k) l = andThen m (\<lambda>x. andThen (k x) l)"
  by (auto simp: andThen_def fun_eq_iff split: prod.splits sum.splits)

lemma forEach_append: "forEach f (xs @ ys) = andThen (forEach f xs) (\<lambda>_. forEach f ys)"
  by (induction xs) (simp_all add: andThen_ret andThen_assoc)

text \<open>What is kept by every part of an effect is kept by the whole.\<close>

definition keeps :: "('s \<Rightarrow> bool) \<Rightarrow> ('e, 'a, 's) eff \<Rightarrow> bool" where
  "keeps P m \<longleftrightarrow> (\<forall>s. P s \<longrightarrow> P (snd (m s)))"

lemma keepsD: "keeps P m \<Longrightarrow> P s \<Longrightarrow> P (snd (m s))"
  by (simp add: keeps_def)

lemma keeps_simps:
  "keeps P (ret x)" "keeps P (fail e)" "keeps P (ask f)"
  by (simp_all add: keeps_def eff_simps)

lemma keeps_andThen: "keeps P m \<Longrightarrow> (\<And>x. keeps P (k x)) \<Longrightarrow> keeps P (andThen m k)"
  by (fastforce simp: keeps_def andThen_def split: prod.splits sum.splits)

lemma keeps_attempt: "keeps P m \<Longrightarrow> (\<And>r. keeps P (k r)) \<Longrightarrow> keeps P (attempt m k)"
  by (fastforce simp: keeps_def attempt_def split: prod.splits)

lemma keeps_ignore: "keeps P m \<Longrightarrow> keeps P (ignore m)"
  by (simp add: keeps_def eff_simps)

lemma keeps_wrapErr: "keeps P m \<Longrightarrow> keeps P (wrapErr f m)"
  by (fastforce simp: keeps_def wrapErr_def split: prod.splits sum.splits)

lemma keeps_forEach: "(\<And>x. x \<in> set xs \<Longrightarrow> keeps P (f x)) \<Longrightarrow> keeps P (forEach f xs)"
  by (induction xs) (auto intro: keeps_andThen keeps_simps)

lemma keeps_call: "(\<And>s. P s \<Longrightarrow> P (snd (f s))) \<Longrightarrow> keeps P (call f)"
  by (fastforce simp: keeps_def call_def split: prod.splits option.splits)

lemmas keeps_intros = keeps_simps keeps_andThen keeps_attempt keeps_ignore keeps_wrapErr keeps_forEach

end
