(* ===== verification/Netlink.thy ===== *)
theory Netlink
  imports Go_Effect Go_Net Socat
begin

text \<open>
  The network devices of the machine, as the packages netlink and net give them to the container and bridge managers:
  devices, what can be asked of and done to them (\<open>netlink\<close>, over a state \<open>'s\<close>), and \<^verbatim>\<open>net.ParseMAC\<close>.
\<close>

record link =
  lk_Name :: string
  lk_Index :: int
  lk_Type :: string
  lk_HW :: "nat list"
  lk_Master :: int

text \<open>A device just made is known by its name, one that was looked up by its index.\<close>

datatype link_ref = ByName string | ByIndex int

datatype new_link = Veth string string | Macvlan string int | Bridge string "nat list"

record 's netlink =
  nl_LinkByName :: "string \<Rightarrow> 's \<Rightarrow> go_error + link"
  nl_LinkByIndex :: "int \<Rightarrow> 's \<Rightarrow> go_error + link"
  nl_LinkList :: "'s \<Rightarrow> go_error + link list"
  nl_AddrList :: "link \<Rightarrow> 's \<Rightarrow> go_error + ipnet list"
  nl_LinkAdd :: "new_link \<Rightarrow> 's \<Rightarrow> go_error option \<times> 's"
  nl_LinkDel :: "link_ref \<Rightarrow> 's \<Rightarrow> go_error option \<times> 's"
  nl_LinkSetMaster :: "link_ref \<Rightarrow> link_ref \<Rightarrow> 's \<Rightarrow> go_error option \<times> 's"
  nl_LinkSetNoMaster :: "link_ref \<Rightarrow> 's \<Rightarrow> go_error option \<times> 's"
  nl_LinkSetHardwareAddr :: "link_ref \<Rightarrow> nat list \<Rightarrow> 's \<Rightarrow> go_error option \<times> 's"
  nl_LinkSetNsPid :: "link_ref \<Rightarrow> int \<Rightarrow> 's \<Rightarrow> go_error option \<times> 's"
  nl_LinkSetUp :: "link_ref \<Rightarrow> 's \<Rightarrow> go_error option \<times> 's"
  nl_LinkSetDown :: "link_ref \<Rightarrow> 's \<Rightarrow> go_error option \<times> 's"
  nl_LinkSetName :: "link_ref \<Rightarrow> string \<Rightarrow> 's \<Rightarrow> go_error option \<times> 's"
  nl_AddrAdd :: "link_ref \<Rightarrow> ipnet \<Rightarrow> 's \<Rightarrow> go_error option \<times> 's"

text \<open>
  \<^verbatim>\<open>net.ParseMAC\<close>: groups of two digits between colons or dashes, or of four between dots, of 6, 8 or 20 bytes.
\<close>

fun mac_bytes :: "string \<Rightarrow> nat list" where
  "mac_bytes (a # b # s) = (16 * hexVal a + hexVal b) # mac_bytes s"
| "mac_bytes s = []"

definition mac_groups :: "nat \<Rightarrow> string list \<Rightarrow> nat list option" where
  "mac_groups n gs =
     (if list_all (\<lambda>g. length g = 2 * n \<and> list_all isHex g) gs \<and> n * length gs \<in> {6, 8, 20}
      then Some (concat (map mac_bytes gs)) else None)"

definition ParseMAC :: "string \<Rightarrow> nat list option" where
  "ParseMAC s =
     (if length s < 14 then None
      else if s ! 2 = CHR '':'' \<or> s ! 2 = CHR ''-'' then mac_groups 1 (split (s ! 2) s)
      else if s ! 4 = CHR ''.'' then mac_groups 2 (split (CHR ''.'') s)
      else None)"

text \<open>Bytes in hexadecimal, and \<^verbatim>\<open>HardwareAddr.String\<close>.\<close>

definition hex2 :: "nat \<Rightarrow> string" where
  "hex2 n = [hexDigit (n div 16), hexDigit (n mod 16)]"

definition hw_String :: "nat list \<Rightarrow> string" where
  "hw_String hw = join '':'' (map hex2 hw)"

end
