(* ===== verification/Containers.thy ===== *)
theory Containers
  imports Netlink Cgroups Transport
begin

text \<open>
  \<^verbatim>\<open>apps/core0/subsys/containers\<close>: \<^verbatim>\<open>manager.go\<close>, the table of the containers of the node, their identifiers, the checks on
  what a client asks for, and the commands that look containers up.  The machine is the parameter \<open>chost\<close>, over the state
  of the kernel and the cache of reserved ports; the table is a list of containers by identifier, in the order a \<^verbatim>\<open>range\<close> loop
  over the Go map happens to visit them.
\<close>

section \<open>Data\<close>

definition DefaultBridgeName :: string where "DefaultBridgeName = ''core0''"
definition ContainersHardLimit :: nat where "ContainersHardLimit = 1000"
definition NicStateConfigured :: string where "NicStateConfigured = ''configured''"
definition NicStateDestroyed :: string where "NicStateDestroyed = ''destroyed''"
definition NicStateUnknown :: string where "NicStateUnknown = ''unknown''"
definition NicStateError :: string where "NicStateError = ''error''"

definition BridgeIP :: ip4 where "BridgeIP = ofOctets 172 18 0 1"
definition DefaultBridgeIP :: string where "DefaultBridgeIP = IP_String BridgeIP"

definition DevicesCGroup :: "string \<times> string" where "DevicesCGroup = (DevicesSubsystem, ''corex'')"

record network_config =
  nc_Dhcp :: bool
  nc_CIDR :: string
  nc_Gateway :: string
  nc_DNS :: "string list"

record nic =
  nic_Type :: string
  nic_ID :: string
  nic_HWAddress :: string
  nic_Name :: string
  nic_Config :: network_config
  nic_Monitor :: bool
  nic_State :: string
  nic_Index :: int
  nic_OriginalHW :: "nat list"

record create_args =
  cc_Root :: string
  cc_Mount :: "(string \<times> string) list"
  cc_HostNetwork :: bool
  cc_Identity :: string
  cc_Nics :: "nic list"
  cc_Port :: "(string \<times> int) list"
  cc_Privileged :: bool
  cc_Hostname :: string
  cc_Storage :: string
  cc_Name :: string
  cc_Tags :: "string list"
  cc_Env :: "(string \<times> string) list"
  cc_CGroups :: "(string \<times> string) list"
  cc_Config :: "(string \<times> string) list"

record container =
  ct_id :: u16
  ct_Args :: create_args
  ct_Root :: string
  ct_PID :: int
  ct_running :: bool
  ct_channel :: bool
  ct_terminating :: bool
  ct_zto :: bool
  ct_zterr :: "go_error option"

record container_mgr =
  cm_sequence :: u16
  cm_containers :: "(u16 \<times> container) list"

datatype file_stat = NotExist | StatError go_error | IsDir | IsFile

record ('w, 'c) chost =
  ch_host :: "'w host"
  ch_cache :: "'c cache_ops"
  ch_net :: "('w \<times> 'c) netlink"
  ch_redis :: "('w \<times> 'c) redis"
  ch_cgroups :: "('w \<times> 'c) cg_fs"
  ch_urlParse :: "string \<Rightarrow> go_error + string \<times> string"
  ch_Stat :: "string \<Rightarrow> 'w \<times> 'c \<Rightarrow> file_stat"
  ch_uuid :: "'w \<times> 'c \<Rightarrow> string \<times> 'w \<times> 'c"
  ch_send :: "u16 \<Rightarrow> command \<Rightarrow> 'w \<times> 'c \<Rightarrow> bool \<times> 'w \<times> 'c"
  ch_ReadFile :: "string \<Rightarrow> 'w \<times> 'c \<Rightarrow> go_error + string"
  ch_WriteFile :: "string \<Rightarrow> string \<Rightarrow> 'w \<times> 'c \<Rightarrow> go_error option \<times> 'w \<times> 'c"
  ch_Append :: "string \<Rightarrow> string \<Rightarrow> 'w \<times> 'c \<Rightarrow> go_error option \<times> 'w \<times> 'c"
  ch_Create :: "string \<Rightarrow> 'w \<times> 'c \<Rightarrow> go_error option \<times> 'w \<times> 'c"
  ch_MkdirAll :: "string \<Rightarrow> 'w \<times> 'c \<Rightarrow> go_error option \<times> 'w \<times> 'c"
  ch_RemoveAll :: "string \<Rightarrow> 'w \<times> 'c \<Rightarrow> go_error option \<times> 'w \<times> 'c"
  ch_Mount :: "string \<Rightarrow> string \<Rightarrow> 'w \<times> 'c \<Rightarrow> go_error option \<times> 'w \<times> 'c"
  ch_Unmount :: "string \<Rightarrow> 'w \<times> 'c \<Rightarrow> go_error option \<times> 'w \<times> 'c"
  ch_LookPath :: "string \<Rightarrow> 'w \<times> 'c \<Rightarrow> go_error + string"
  ch_Partitions :: "'w \<times> 'c \<Rightarrow> go_error + (string \<times> string) list"
  ch_MountFList :: "string \<Rightarrow> string \<Rightarrow> string \<Rightarrow> string \<Rightarrow> 'w \<times> 'c \<Rightarrow> go_error option \<times> 'w \<times> 'c"
  ch_storage :: string
  ch_RunSystem :: "system_args \<Rightarrow> 'w \<times> 'c \<Rightarrow> go_error option \<times> 'w \<times> 'c"
  ch_RunContainer :: "string \<Rightarrow> container_args \<Rightarrow> 'w \<times> 'c \<Rightarrow> go_error option \<times> 'w \<times> 'c"
  ch_Kill :: "string \<Rightarrow> 'w \<times> 'c \<Rightarrow> go_error option \<times> 'w \<times> 'c"
  ch_Signal :: "string \<Rightarrow> int \<Rightarrow> 'w \<times> 'c \<Rightarrow> 'w \<times> 'c"
  ch_startZerotier :: "u16 \<Rightarrow> 'w \<times> 'c \<Rightarrow> go_error option \<times> 'w \<times> 'c"
  ch_sleep :: "'w \<times> 'c \<Rightarrow> 'w \<times> 'c"

text \<open>The errors of the commands, by the package they come from, and with the text put before them.\<close>

datatype ct_error = GoErr go_error | Wrapped string ct_error | SocatErr socat_error | NftErrC nft_error | SinkErr sink_error

section \<open>Decoding\<close>

text \<open>A Go map from a JSON object: every key once, with its last value.\<close>

definition put_kv :: "string \<times> 'a \<Rightarrow> (string \<times> 'a) list \<Rightarrow> (string \<times> 'a) list" where
  "put_kv kv m = filter (\<lambda>e. fst e \<noteq> fst kv) m @ [kv]"

definition field_map :: "(json \<Rightarrow> 'a option) \<Rightarrow> string \<Rightarrow> (string \<times> json) list \<Rightarrow> (string \<times> 'a) list option" where
  "field_map d name es =
     Option.bind (field_struct name es)
       (\<lambda>kvs. map_option (\<lambda>xs. fold put_kv xs []) (those (map (\<lambda>(k, v). map_option (Pair k) (d v)) kvs)))"

definition config_of :: "(string \<times> json) list \<Rightarrow> network_config option" where
  "config_of es =
     (case (field_bool ''dhcp'' es, field_string ''cidr'' es, field_string ''gateway'' es, field_array elem_string ''dns'' es) of
        (Some d, Some c, Some g, Some ns) \<Rightarrow> Some \<lparr>nc_Dhcp = d, nc_CIDR = c, nc_Gateway = g, nc_DNS = ns\<rparr>
      | _ \<Rightarrow> None)"

text \<open>A null in the list of devices is a nil pointer, on which the commands panic: it is refused here.\<close>

definition nic_of :: "json \<Rightarrow> nic option" where
  "nic_of j =
     (if j = JNull then None
      else case objectOf j of
        None \<Rightarrow> None
      | Some es \<Rightarrow>
          (case (field_string ''type'' es, field_string ''id'' es, field_string ''hwaddr'' es, field_string ''name'' es,
                 Option.bind (field_struct ''config'' es) config_of, field_bool ''monitor'' es, field_string ''state'' es) of
             (Some t, Some i, Some h, Some n, Some c, Some m, Some st) \<Rightarrow>
               Some \<lparr>nic_Type = t, nic_ID = i, nic_HWAddress = h, nic_Name = n, nic_Config = c, nic_Monitor = m, nic_State = st,
                     nic_Index = 0, nic_OriginalHW = []\<rparr>
           | _ \<Rightarrow> None))"

text \<open>An array of two strings: missing elements are empty, further ones are dropped.\<close>

definition cgroup_of :: "json \<Rightarrow> (string \<times> string) option" where
  "cgroup_of j =
     (case j of
        JArr js \<Rightarrow> map_option (\<lambda>ss. (if length ss > 0 then ss ! 0 else [], if length ss > 1 then ss ! 1 else []))
                      (those (map elem_string (take 2 js)))
      | JNull \<Rightarrow> Some ([], [])
      | _ \<Rightarrow> None)"

definition create_args_of :: "json \<Rightarrow> create_args option" where
  "create_args_of j =
     (case objectOf j of
        None \<Rightarrow> None
      | Some es \<Rightarrow>
          (case (field_string ''root'' es, field_map elem_string ''mount'' es, field_bool ''host_network'' es,
                 field_string ''identity'' es, field_array nic_of ''nics'' es, field_map elem_int ''port'' es,
                 field_bool ''privileged'' es, field_string ''hostname'' es, field_string ''storage'' es, field_string ''name'' es,
                 field_array elem_string ''tags'' es, field_map elem_string ''env'' es, field_array cgroup_of ''cgroups'' es,
                 field_map elem_string ''config'' es) of
             (Some r, Some m, Some hn, Some i, Some ns, Some p, Some pr, Some h, Some st, Some n, Some ts, Some e, Some cg, Some cf) \<Rightarrow>
               Some \<lparr>cc_Root = r, cc_Mount = m, cc_HostNetwork = hn, cc_Identity = i, cc_Nics = ns, cc_Port = p, cc_Privileged = pr,
                     cc_Hostname = h, cc_Storage = st, cc_Name = n, cc_Tags = ts, cc_Env = e, cc_CGroups = cg, cc_Config = cf\<rparr>
           | _ \<Rightarrow> None))"

section \<open>Checking the arguments\<close>

definition isAbs :: "string \<Rightarrow> bool" where
  "isAbs p \<longleftrightarrow> hasPrefix p ''/''"

fun validate_mounts :: "('w, 'c) chost \<Rightarrow> (string \<times> string) list \<Rightarrow> 'w \<times> 'c \<Rightarrow> go_error option" where
  "validate_mounts ch [] s = None"
| "validate_mounts ch ((host, guest) # ms) s =
     (case ch_urlParse ch host of
        Inl e \<Rightarrow> Some (Errorf (''invalid host mount: '' @ err_Text e))
      | Inr (scheme, p) \<Rightarrow>
          if scheme \<noteq> [] then validate_mounts ch ms s
          else if \<not> isAbs p then Some (Errorf (''host path '' @ host @ '' must be absolute''))
          else if \<not> isAbs guest then Some (Errorf (''guest path '' @ guest @ '' must be absolute''))
          else if ch_Stat ch p s = NotExist then Some (Errorf (''host path '' @ p @ '' does not exist''))
          else validate_mounts ch ms s)"

fun validate_ports :: "(string \<times> int) list \<Rightarrow> go_error option" where
  "validate_ports [] = None"
| "validate_ports ((host, guest) # ps) =
     (if \<not> ValidHost host then Some (Errorf (''invalid host port '' @ host))
      else if guest < 0 \<or> guest > 65535 then Some (Errorf (''invalid guest port '' @ itoaInt guest))
      else validate_ports ps)"

text \<open>The check of one device, with the number of times each bridge or device was used before; the count after it.\<close>

definition validate_nic ::
  "('w, 'c) chost \<Rightarrow> nic \<Rightarrow> (string \<Rightarrow> nat) \<Rightarrow> 'w \<times> 'c \<Rightarrow> go_error + (string \<Rightarrow> nat)" where
  "validate_nic ch n br s =
     (if nic_Type n = ''default'' then
        (if br DefaultBridgeName + 1 > 1 then Inl (Errorf ''only one default network is allowed'')
         else Inr (br(DefaultBridgeName := br DefaultBridgeName + 1)))
      else if nic_Type n = ''bridge'' then
        (if nic_ID n = DefaultBridgeName then Inl (Errorf (''cannot use bridge '' @ DefaultBridgeName @ '' with nic type bridge''))
         else if br (nic_ID n) + 1 > 1 then Inl (Errorf (''connecting to bridge '' @ nic_ID n @ '' more than one time is not allowed''))
         else Inr (br(nic_ID n := br (nic_ID n) + 1)))
      else if nic_Type n \<in> {''passthrough'', ''macvlan''} then
        (case nl_LinkByName (ch_net ch) (nic_ID n) s of
           Inl e \<Rightarrow> Inl e
         | Inr l \<Rightarrow>
             if lk_Type l \<noteq> ''device'' \<and> lk_Type l \<noteq> ''dummy''
             then Inl (Errorf (''cannot use '' @ lk_Type l @ '' '' @ nic_ID n @ '' with nic type '' @ nic_Type n))
             else if br (nic_ID n) + 1 > 1 then Inl (Errorf (''connecting to link '' @ nic_ID n @ '' more than one time is not allowed''))
             else Inr (br(nic_ID n := br (nic_ID n) + 1)))
      else if nic_Type n \<in> {''vlan'', ''vxlan'', ''zerotier''} then Inr br
      else Inl (Errorf (''unsupported network type '' @ nic_Type n)))"

fun validate_nics :: "('w, 'c) chost \<Rightarrow> nic list \<Rightarrow> (string \<Rightarrow> nat) \<Rightarrow> 'w \<times> 'c \<Rightarrow> go_error option" where
  "validate_nics ch [] br s = None"
| "validate_nics ch (n # ns) br s =
     (if nic_State n = NicStateDestroyed then validate_nics ch ns br s
      else (case validate_nic ch n br s of Inl e \<Rightarrow> Some e | Inr br' \<Rightarrow> validate_nics ch ns br' s))"

fun validate_names :: "nic list \<Rightarrow> string set \<Rightarrow> go_error option" where
  "validate_names [] names = None"
| "validate_names (n # ns) names =
     (if nic_State n = NicStateDestroyed \<or> nic_Name n = [] then validate_names ns names
      else if nic_Name n \<in> names then Some (Errorf (''name '' @ nic_Name n @ '' is passed twice in the container''))
      else if length (nic_Name n) > 15 then Some (Errorf (''invalid name '' @ nic_Name n @ '' too long''))
      else if nic_Name n = ''default'' then Some (Errorf (''invalid name '' @ nic_Name n))
      else if hasPrefix (nic_Name n) ''eth'' \<or> hasPrefix (nic_Name n) ''zt''
      then Some (Errorf (''name '' @ nic_Name n @ '' cannot be used as it is started with eth or zt''))
      else validate_names ns (insert (nic_Name n) names))"

definition validate_cgroups :: "('w, 'c) chost \<Rightarrow> (string \<times> string) list \<Rightarrow> 'w \<times> 'c \<Rightarrow> go_error option" where
  "validate_cgroups ch cgs s =
     (case find (\<lambda>(sub, name). \<not> cg_Exists (ch_cgroups ch) sub name s) cgs of
        None \<Rightarrow> None
      | Some (sub, name) \<Rightarrow> Some (Errorf (''invalid cgroup ['' @ sub @ '' '' @ name @ '']'')))"

definition Args_Validate :: "('w, 'c) chost \<Rightarrow> create_args \<Rightarrow> 'w \<times> 'c \<Rightarrow> go_error option" where
  "Args_Validate ch c s =
     (if cc_Root c = [] then Some (Errorf ''root plist is required'')
      else case validate_mounts ch (cc_Mount c) s of
             Some e \<Rightarrow> Some e
           | None \<Rightarrow>
               (case validate_ports (cc_Port c) of
                  Some e \<Rightarrow> Some e
                | None \<Rightarrow>
                    (case validate_nics ch (cc_Nics c) (\<lambda>_. 0) s of
                       Some e \<Rightarrow> Some e
                     | None \<Rightarrow>
                         (case validate_names (cc_Nics c) {} of
                            Some e \<Rightarrow> Some e
                          | None \<Rightarrow> validate_cgroups ch (cc_CGroups c) s))))"

section \<open>The table of containers\<close>

text \<open>
  \<^verbatim>\<open>getNextSequence\<close>: the counter wraps around and skips 0, 65535 and the identifiers in use.  It looks at every number
  within 65536 steps, so \<^const>\<open>None\<close> after as many is a loop that never ends.
\<close>

fun next_sequence :: "nat \<Rightarrow> u16 set \<Rightarrow> u16 \<Rightarrow> u16 option" where
  "next_sequence 0 used q = None"
| "next_sequence (Suc n) used q =
     (if q + 1 \<noteq> 0 \<and> q + 1 < 65535 \<and> q + 1 \<notin> used then Some (q + 1) else next_sequence n used (q + 1))"

definition getNextSequence :: "container_mgr \<Rightarrow> (u16 \<times> container_mgr) option" where
  "getNextSequence m =
     map_option (\<lambda>q. (q, m\<lparr>cm_sequence := q\<rparr>)) (next_sequence 65536 (set (map fst (cm_containers m))) (cm_sequence m))"

definition setContainer :: "u16 \<Rightarrow> container \<Rightarrow> container_mgr \<Rightarrow> container_mgr" where
  "setContainer i c m = m\<lparr>cm_containers := filter (\<lambda>e. fst e \<noteq> i) (cm_containers m) @ [(i, c)]\<rparr>"

definition unsetContainer :: "u16 \<Rightarrow> container_mgr \<Rightarrow> container_mgr" where
  "unsetContainer i m = m\<lparr>cm_containers := filter (\<lambda>e. fst e \<noteq> i) (cm_containers m)\<rparr>"

text \<open>The text of the cell on the console.\<close>

definition cell_text :: "container_mgr \<Rightarrow> string" where
  "cell_text m = ''Containers: '' @ itoa (length (cm_containers m))"

definition Of :: "u16 \<Rightarrow> container_mgr \<Rightarrow> container option" where
  "Of i m = map_of (cm_containers m) i"

text \<open>A change of a container that the table points to.\<close>

definition updContainer :: "container \<Rightarrow> container_mgr \<Rightarrow> container_mgr" where
  "updContainer c m = m\<lparr>cm_containers := map (\<lambda>e. if fst e = ct_id c then (ct_id c, c) else e) (cm_containers m)\<rparr>"

definition GetWithTags :: "string list \<Rightarrow> container_mgr \<Rightarrow> container list" where
  "GetWithTags tags m = filter (\<lambda>c. list_all (\<lambda>t. t \<in> set (cc_Tags (ct_Args c))) tags) (map snd (cm_containers m))"

definition GetOneWithTags :: "string list \<Rightarrow> container_mgr \<Rightarrow> container option" where
  "GetOneWithTags tags m = (case GetWithTags tags m of [] \<Rightarrow> None | c # cs \<Rightarrow> Some c)"

definition OVSTag :: string where "OVSTag = ''ovs''"

text \<open>\<^verbatim>\<open>strings.EqualFold\<close> for ASCII names.\<close>

definition equalFold :: "string \<Rightarrow> string \<Rightarrow> bool" where
  "equalFold a b \<longleftrightarrow> map lower a = map lower b"

definition getByName :: "string \<Rightarrow> container_mgr \<Rightarrow> u16 \<times> container option" where
  "getByName name m =
     (case find (\<lambda>(i, c). equalFold (cc_Name (ct_Args c)) name) (cm_containers m) of
        None \<Rightarrow> (0, None)
      | Some (i, c) \<Rightarrow> (i, Some c))"

definition getByID :: "u16 \<Rightarrow> container_mgr \<Rightarrow> u16 \<times> container option" where
  "getByID i m = (i, Of i m)"

section \<open>Paths, addresses and names of a container\<close>

definition BackendBaseDir :: string where "BackendBaseDir = ''/var/cache/containers''"
definition ContainerBaseRootDir :: string where "ContainerBaseRootDir = ''/mnt/containers''"

definition ct_name :: "container \<Rightarrow> string" where
  "ct_name c = itoa (unat (ct_id c))"

definition ct_root :: "container \<Rightarrow> string" where
  "ct_root c = path_join [ContainerBaseRootDir, ct_name c]"

definition newContainer :: "u16 \<Rightarrow> create_args \<Rightarrow> container" where
  "newContainer i args =
     (let c = \<lparr>ct_id = i, ct_Args = args, ct_Root = [], ct_PID = 0, ct_running = False, ct_channel = False, ct_terminating = False,
               ct_zto = False, ct_zterr = None\<rparr>
      in c\<lparr>ct_Root := ct_root c\<rparr>)"

text \<open>\<^verbatim>\<open>base&0xff00>>8\<close> is \<^verbatim>\<open>(base&0xff00)>>8\<close>: the two operators have the same precedence in Go.\<close>

definition getDefaultIP :: "u16 \<Rightarrow> ip4" where
  "getDefaultIP i =
     (let base = i + 1
      in ofOctets (octet BridgeIP 0) (octet BridgeIP 1) (unat (drop_bit 8 (base AND 0xff00))) (unat (base AND 0x00ff)))"

definition forwardId :: "u16 \<Rightarrow> ns" where
  "forwardId i = Namespace Container i"

definition core_id :: "u16 \<Rightarrow> string" where
  "core_id i = ''core-'' @ itoa (unat i)"

definition link_name :: "u16 \<Rightarrow> nat \<Rightarrow> bool \<Rightarrow> string" where
  "link_name i idx monitor = (if monitor then ''contm'' else ''cont'') @ itoa (unat i) @ ''-'' @ itoa idx"

definition peer_name :: "string \<Rightarrow> string" where
  "peer_name name = name @ ''p''"

section \<open>Talking to a container\<close>

definition pushToContainer :: "('w, 'c) chost \<Rightarrow> container \<Rightarrow> command \<Rightarrow> (ct_error, unit, 'w \<times> 'c) eff" where
  "pushToContainer ch c cmd =
     andThen (ignore (ch_Flag (ch_redis ch) (cmd_ID cmd)))
       (\<lambda>_ s. case ch_send ch (ct_id c) cmd s of
                (True, s1) \<Rightarrow> (Inr (), s1)
              | (False, s1) \<Rightarrow> (Inl (GoErr (Errorf ''failed to dispatch command to container, check system logs for errors'')), s1))"

definition Dispatch :: "('w, 'c) chost \<Rightarrow> container_mgr \<Rightarrow> u16 \<Rightarrow> command \<Rightarrow> (ct_error, job_result, 'w \<times> 'c) eff" where
  "Dispatch ch m i cmd =
     andThen (\<lambda>s. case ch_uuid ch s of (u, s1) \<Rightarrow> (Inr u, s1)) (\<lambda>u.
     (case Of i m of
        None \<Rightarrow> fail (GoErr (Errorf ''container does not exist''))
      | Some c \<Rightarrow>
          andThen (pushToContainer ch c (cmd\<lparr>cmd_ID := u\<rparr>))
            (\<lambda>_. wrapErr SinkErr (GetResult (ch_redis ch) u ReturnExpire))))"

text \<open>The command \<^verbatim>\<open>corex.dispatch\<close>, with its arguments decoded.\<close>

definition dispatch_cmd :: "('w, 'c) chost \<Rightarrow> container_mgr \<Rightarrow> u16 \<Rightarrow> command \<Rightarrow> (ct_error, string, 'w \<times> 'c) eff" where
  "dispatch_cmd ch m i cmd =
     (if i = 0 then fail (GoErr (Errorf ''invalid container id''))
      else case Of i m of
             None \<Rightarrow> fail (GoErr (Errorf ''container does not exist''))
           | Some c \<Rightarrow>
               andThen (\<lambda>s. if cmd_ID cmd = [] then (case ch_uuid ch s of (u, s1) \<Rightarrow> (Inr u, s1)) else (Inr (cmd_ID cmd), s))
                 (\<lambda>u. andThen (pushToContainer ch c (cmd\<lparr>cmd_ID := u\<rparr>)) (\<lambda>_. ret u)))"

end
