(* ===== verification/Container_Network.thy ===== *)
theory Container_Network
  imports Containers
begin

text \<open>
  \<^verbatim>\<open>apps/core0/subsys/containers/network.go\<close>: the network devices of a container, made before it starts (\<^verbatim>\<open>pre\<close>), moved into
  it and configured once it runs (\<^verbatim>\<open>post\<close>), and taken down when they are removed or the container ends.  The daemon of
  zerotier is started by \<open>ch_startZerotier\<close>, whose hooks and timers are not modelled.
\<close>

section \<open>Calls\<close>

type_synonym ('a, 'w, 'c) ceff = "(ct_error, 'a, 'w \<times> 'c) eff"

definition system :: "('w, 'c) chost \<Rightarrow> string list \<Rightarrow> ('w \<times> 'c) \<Rightarrow> (go_error + job_result) \<times> 'w \<times> 'c" where
  "system ch args s =
     (case s of (w, c) \<Rightarrow>
        (case h_System (ch_host ch) args w of
           ((job, None), w1) \<Rightarrow> (Inr job, w1, c)
         | ((job, Some e), w1) \<Rightarrow> (Inl e, w1, c)))"

definition wrapped :: "string \<Rightarrow> (go_error, 'a, 'w \<times> 'c) eff \<Rightarrow> ('a, 'w, 'c) ceff" where
  "wrapped t m = wrapErr (\<lambda>e. Wrapped t (GoErr e)) m"

definition plainly :: "(go_error, 'a, 'w \<times> 'c) eff \<Rightarrow> ('a, 'w, 'c) ceff" where
  "plainly m = wrapErr GoErr m"

text \<open>\<^verbatim>\<open>ip -n\<close> in the namespace of the container.\<close>

definition ip_n :: "('w, 'c) chost \<Rightarrow> container \<Rightarrow> string list \<Rightarrow> 'w \<times> 'c \<Rightarrow> (go_error + job_result) \<times> 'w \<times> 'c" where
  "ip_n ch c args = system ch ([''ip'', ''-n'', ct_name c] @ args)"

section \<open>Configuring a device\<close>

definition setGateway :: "('w, 'c) chost \<Rightarrow> container \<Rightarrow> string \<Rightarrow> string \<Rightarrow> (unit, 'w, 'c) ceff" where
  "setGateway ch c dev gw =
     andThen (wrapped ''error settings default gateway: ''
       (ip_n ch c [''route'', ''add'', ''metric'', ''1000'', ''default'', ''via'', gw, ''dev'', dev])) (\<lambda>_. ret ())"

definition setDNS :: "('w, 'c) chost \<Rightarrow> container \<Rightarrow> string \<Rightarrow> (unit, 'w, 'c) ceff" where
  "setDNS ch c dns =
     andThen (ignore (call (ch_MkdirAll ch (path_join [ct_root c, ''etc'']))))
       (\<lambda>_. plainly (call (ch_Append ch (path_join [ct_root c, ''etc'', ''resolv.conf''])
                ([CHR 0x0A] @ ''nameserver '' @ dns @ [CHR 0x0A]))))"

definition dhcp_args :: "container \<Rightarrow> string \<Rightarrow> system_args" where
  "dhcp_args c target =
     \<lparr>sa_Name = ''ip'', sa_Dir = [],
      sa_Args = [''netns'', ''exec'', ct_name c, ''udhcpc'', ''-q'', ''-i'', target, ''-s'', ''/usr/share/udhcp/simple.script''],
      sa_Env = [(''ROOT'', ct_root c)], sa_StdIn = []\<rparr>"

definition setupLink :: "('w, 'c) chost \<Rightarrow> container \<Rightarrow> string \<Rightarrow> string \<Rightarrow> network_config \<Rightarrow> (unit, 'w, 'c) ceff" where
  "setupLink ch c src target cfg =
     andThen (wrapped ''get link: '' (ask (nl_LinkByName (ch_net ch) src))) (\<lambda>l.
     andThen (wrapped ''set ns pid: '' (call (nl_LinkSetNsPid (ch_net ch) (ByIndex (lk_Index l)) (ct_PID c)))) (\<lambda>_.
     andThen (wrapped ''failed to rename device: '' (ip_n ch c [''link'', ''set'', src, ''name'', target])) (\<lambda>_.
     andThen
       (if nc_Dhcp cfg then ignore (call (ch_RunSystem ch (dhcp_args c target)))
        else if nc_CIDR cfg \<noteq> [] then
          (case ParseCIDR (nc_CIDR cfg) of
             None \<Rightarrow> fail (GoErr (Errorf (''invalid CIDR address: '' @ nc_CIDR cfg)))
           | Some _ \<Rightarrow>
               andThen (wrapped ''error bringing interface up: '' (ip_n ch c [''link'', ''set'', ''dev'', target, ''up''])) (\<lambda>_.
               andThen (wrapped ''error settings interface ip: '' (ip_n ch c [''address'', ''add'', nc_CIDR cfg, ''dev'', target]))
                 (\<lambda>_. ret ())))
        else ret ()) (\<lambda>_.
     andThen (if nc_Gateway cfg \<noteq> [] then setGateway ch c target (nc_Gateway cfg) else ret ()) (\<lambda>_.
     forEach (setDNS ch c) (nc_DNS cfg))))))"

definition postBridge :: "('w, 'c) chost \<Rightarrow> container \<Rightarrow> string \<Rightarrow> nat \<Rightarrow> bool \<Rightarrow> network_config \<Rightarrow> (unit, 'w, 'c) ceff" where
  "postBridge ch c dev idx monitor cfg = setupLink ch c (peer_name (link_name (ct_id c) idx monitor)) dev cfg"

definition postLink :: "('w, 'c) chost \<Rightarrow> container \<Rightarrow> string \<Rightarrow> nat \<Rightarrow> nic \<Rightarrow> (unit, 'w, 'c) ceff" where
  "postLink ch c dev idx n = setupLink ch c (link_name (ct_id c) idx (nic_Monitor n)) dev (nic_Config n)"

text \<open>The configuration of a device on the default bridge; its \<^verbatim>\<open>Monitor\<close> is not that of the device asked for.\<close>

definition default_config :: "container \<Rightarrow> network_config" where
  "default_config c =
     \<lparr>nc_Dhcp = False, nc_CIDR = IP_String (getDefaultIP (ct_id c)) @ ''/16'', nc_Gateway = DefaultBridgeIP,
      nc_DNS = [DefaultBridgeIP]\<rparr>"

definition postDefaultNetwork :: "('w, 'c) chost \<Rightarrow> container \<Rightarrow> string \<Rightarrow> nat \<Rightarrow> (unit, 'w, 'c) ceff" where
  "postDefaultNetwork ch c name idx = postBridge ch c name idx False (default_config c)"

section \<open>Making a device\<close>

definition set_hw :: "('w, 'c) chost \<Rightarrow> string \<Rightarrow> link_ref \<Rightarrow> (unit, 'w, 'c) ceff" where
  "set_hw ch hwaddr l =
     (if hwaddr = [] then ret ()
      else case ParseMAC hwaddr of
             None \<Rightarrow> ret ()
           | Some mac \<Rightarrow> wrapped ''failed to setup hw address: '' (call (nl_LinkSetHardwareAddr (ch_net ch) l mac)))"

definition ovs_command :: "('w, 'c) chost \<Rightarrow> string \<Rightarrow> (string \<times> json) list \<Rightarrow> command" where
  "ovs_command ch name args =
     \<lparr>cmd_ID = [], cmd_Command = name, cmd_Arguments = rd_enc (ch_redis ch) (JObj args), cmd_Queue = [], cmd_StatsInterval = 0,
      cmd_MaxTime = 0, cmd_MaxRestart = 0, cmd_RecurringPeriod = 0, cmd_Stream = False, cmd_LogLevels = [], cmd_Tags = [],
      cmd_Flags = \<lparr>Protected = False, NoOutput = False, NoSetPGID = False\<rparr>\<rparr>"

definition attach :: "('w, 'c) chost \<Rightarrow> container_mgr \<Rightarrow> string \<Rightarrow> link \<Rightarrow> string \<Rightarrow> container option \<Rightarrow> (unit, 'w, 'c) ceff" where
  "attach ch m name l bridge ovs =
     (case ovs of
        None \<Rightarrow>
          if lk_Type l \<noteq> ''bridge'' then fail (GoErr (BadRequestError (bridge @ '' is not a bridge'')))
          else plainly (call (nl_LinkSetMaster (ch_net ch) (ByName name) (ByIndex (lk_Index l))))
      | Some sw \<Rightarrow>
          andThen (wrapErr (Wrapped ''ovs dispatch error: '')
              (Dispatch ch m (ct_id sw) (ovs_command ch ''ovs.port-add'' [(''bridge'', JStr bridge), (''port'', JStr name)])))
            (\<lambda>result. if jr_State result \<noteq> Some StateSuccess
                      then fail (GoErr (Errorf (''failed to attach veth to bridge: '' @ jr_Data result))) else ret ()))"

definition preBridge ::
  "('w, 'c) chost \<Rightarrow> container_mgr \<Rightarrow> container \<Rightarrow> nat \<Rightarrow> string \<Rightarrow> bool \<Rightarrow> string \<Rightarrow> container option \<Rightarrow> (unit, 'w, 'c) ceff" where
  "preBridge ch m c idx bridge monitor hwaddr ovs =
     (let name = link_name (ct_id c) idx monitor; peer = peer_name name in
      andThen (wrapErr (\<lambda>e. GoErr (NotFoundError (''bridge '' @ bridge @ '' not found: '' @ err_Text e)))
                (ask (nl_LinkByName (ch_net ch) bridge))) (\<lambda>l.
      andThen (wrapped ''create veth pair fail: '' (call (nl_LinkAdd (ch_net ch) (Veth name peer)))) (\<lambda>_.
      andThen (attach ch m name l bridge ovs) (\<lambda>_.
      andThen (wrapped ''get peer: '' (ask (nl_LinkByName (ch_net ch) peer))) (\<lambda>p.
      set_hw ch hwaddr (ByIndex (lk_Index p)))))))"

definition preMacVlanNetwork :: "('w, 'c) chost \<Rightarrow> container \<Rightarrow> nat \<Rightarrow> nic \<Rightarrow> (unit, 'w, 'c) ceff" where
  "preMacVlanNetwork ch c idx n =
     (let name = link_name (ct_id c) idx (nic_Monitor n) in
      andThen (wrapErr (\<lambda>e. GoErr (NotFoundError (''link '' @ nic_ID n @ '' not found: '' @ err_Text e)))
                (ask (nl_LinkByName (ch_net ch) (nic_ID n)))) (\<lambda>l.
      andThen (wrapped ''create macvlan link fail: '' (call (nl_LinkAdd (ch_net ch) (Macvlan name (lk_Index l))))) (\<lambda>_.
      set_hw ch (nic_HWAddress n) (ByName name))))"

definition prePassthroughNetwork :: "('w, 'c) chost \<Rightarrow> container \<Rightarrow> nat \<Rightarrow> nic \<Rightarrow> (unit, 'w, 'c) ceff" where
  "prePassthroughNetwork ch c idx n =
     andThen (wrapErr (\<lambda>e. GoErr (NotFoundError (''link '' @ nic_ID n @ '' not found: '' @ err_Text e)))
               (ask (nl_LinkByName (ch_net ch) (nic_ID n)))) (\<lambda>l.
     andThen (plainly (call (nl_LinkSetDown (ch_net ch) (ByIndex (lk_Index l))))) (\<lambda>_.
     andThen (plainly (call (nl_LinkSetName (ch_net ch) (ByIndex (lk_Index l)) (link_name (ct_id c) idx (nic_Monitor n))))) (\<lambda>_.
     set_hw ch (nic_HWAddress n) (ByIndex (lk_Index l)))))"

text \<open>What \<^verbatim>\<open>prePassthroughNetwork\<close> remembers of the device it takes.\<close>

definition remember_link :: "('w, 'c) chost \<Rightarrow> nic \<Rightarrow> 'w \<times> 'c \<Rightarrow> nic" where
  "remember_link ch n s =
     (case nl_LinkByName (ch_net ch) (nic_ID n) s of
        Inl e \<Rightarrow> n
      | Inr l \<Rightarrow> n\<lparr>nic_Index := lk_Index l, nic_OriginalHW := lk_HW l\<rparr>)"

definition setPortForward :: "('w, 'c) chost \<Rightarrow> container \<Rightarrow> string \<Rightarrow> int \<Rightarrow> (unit, 'w, 'c) ceff" where
  "setPortForward ch c host dest =
     wrapErr SocatErr (call (SetPortForward (ch_host ch) (ch_cache ch) (forwardId (ct_id c)) (IP_String (getDefaultIP (ct_id c))) host dest))"

definition setPortForwards :: "('w, 'c) chost \<Rightarrow> container \<Rightarrow> (unit, 'w, 'c) ceff" where
  "setPortForwards ch c = forEach (\<lambda>(host, dest). setPortForward ch c host dest) (cc_Port (ct_Args c))"

definition preDefaultNetwork :: "('w, 'c) chost \<Rightarrow> container_mgr \<Rightarrow> container \<Rightarrow> nat \<Rightarrow> (unit, 'w, 'c) ceff" where
  "preDefaultNetwork ch m c idx =
     andThen (preBridge ch m c idx DefaultBridgeName False [] None) (\<lambda>_. setPortForwards ch c)"

text \<open>
  Both kinds of virtual networks ask the container of the switch for a bridge and attach to it; \<open>msg\<close> is the command,
  \<open>args\<close> its arguments.
\<close>

definition via_ovs ::
  "('w, 'c) chost \<Rightarrow> container_mgr \<Rightarrow> container \<Rightarrow> nat \<Rightarrow> nic \<Rightarrow> string \<Rightarrow> string \<Rightarrow> (string \<times> json) list \<Rightarrow> (unit, 'w, 'c) ceff" where
  "via_ovs ch m c idx n kind msg args =
     (case GetOneWithTags [OVSTag] m of
        None \<Rightarrow> fail (GoErr (PreconditionFailedError (''ovs is needed for '' @ kind @ '' network type'')))
      | Some sw \<Rightarrow>
          andThen (Dispatch ch m (ct_id sw) (ovs_command ch msg args)) (\<lambda>result.
            if jr_State result \<noteq> Some StateSuccess then fail (GoErr (Errorf (''failed to ensure '' @ map lower kind @ '' bridge: '' @ jr_Data result)))
            else (case Option.bind (rd_dec (ch_redis ch) (jr_Data result)) elem_string of
                    None \<Rightarrow> fail (GoErr (Errorf (''failed to load '' @ map lower kind @ ''-ensure result'')))
                  | Some bridge \<Rightarrow> preBridge ch m c idx bridge (nic_Monitor n) (nic_HWAddress n) (Some sw))))"

definition OVSBackPlane :: string where "OVSBackPlane = ''backplane''"
definition OVSVXBackend :: string where "OVSVXBackend = ''vxbackend''"

definition preVxlanNetwork :: "('w, 'c) chost \<Rightarrow> container_mgr \<Rightarrow> container \<Rightarrow> nat \<Rightarrow> nic \<Rightarrow> (unit, 'w, 'c) ceff" where
  "preVxlanNetwork ch m c idx n =
     (case parseInt 64 (nic_ID n) of
        (v, Some e) \<Rightarrow> fail (GoErr (Errorf (''strconv.ParseInt: parsing '' @ nic_ID n)))
      | (v, None) \<Rightarrow>
          via_ovs ch m c idx n ''VXLAN'' ''ovs.vxlan-ensure'' [(''master'', JStr OVSVXBackend), (''vxlan'', JNum v)])"

definition preVlanNetwork :: "('w, 'c) chost \<Rightarrow> container_mgr \<Rightarrow> container \<Rightarrow> nat \<Rightarrow> nic \<Rightarrow> (unit, 'w, 'c) ceff" where
  "preVlanNetwork ch m c idx n =
     (case parseInt 16 (nic_ID n) of
        (v, Some e) \<Rightarrow> fail (GoErr (Errorf (''strconv.ParseInt: parsing '' @ nic_ID n)))
      | (v, None) \<Rightarrow>
          if v < 0 \<or> v \<ge> 4095 then fail (GoErr (Errorf ''invalid vlan id (0-4094)''))
          else via_ovs ch m c idx n ''VLAN'' ''ovs.vlan-ensure'' [(''master'', JStr OVSBackPlane), (''vlan'', JNum v)])"

text \<open>\<^verbatim>\<open>preStartNetwork\<close>: the error, if any, and the device with the state it is left in.\<close>

definition pre_network :: "('w, 'c) chost \<Rightarrow> container_mgr \<Rightarrow> container \<Rightarrow> nat \<Rightarrow> nic \<Rightarrow> (unit, 'w, 'c) ceff" where
  "pre_network ch m c idx n =
     (if nic_Type n = ''vxlan'' then preVxlanNetwork ch m c idx n
      else if nic_Type n = ''vlan'' then preVlanNetwork ch m c idx n
      else if nic_Type n = ''default'' then preDefaultNetwork ch m c idx
      else if nic_Type n = ''bridge'' then preBridge ch m c idx (nic_ID n) (nic_Monitor n) (nic_HWAddress n) None
      else if nic_Type n = ''macvlan'' then preMacVlanNetwork ch c idx n
      else if nic_Type n = ''passthrough'' then prePassthroughNetwork ch c idx n
      else if nic_Type n = ''zerotier'' then ret ()
      else fail (GoErr (BadRequestError (''unkown network type '' @ nic_Type n))))"

definition preStartNetwork ::
  "('w, 'c) chost \<Rightarrow> container_mgr \<Rightarrow> container \<Rightarrow> nat \<Rightarrow> nic \<Rightarrow> 'w \<times> 'c \<Rightarrow> ct_error option \<times> nic \<times> 'w \<times> 'c" where
  "preStartNetwork ch m c idx n0 s =
     (let n = (if nic_Type n0 = ''passthrough'' then remember_link ch n0 s else n0)
      in case pre_network ch m c idx n s of
           (Inr _, s1) \<Rightarrow> (None, n\<lparr>nic_State := NicStateUnknown\<rparr>, s1)
         | (Inl e, s1) \<Rightarrow> (Some e, n\<lparr>nic_State := NicStateError\<rparr>, s1))"

fun preStart_nics ::
  "('w, 'c) chost \<Rightarrow> container_mgr \<Rightarrow> container \<Rightarrow> nat \<Rightarrow> nic list \<Rightarrow> 'w \<times> 'c \<Rightarrow> ct_error option \<times> nic list \<times> 'w \<times> 'c" where
  "preStart_nics ch m c idx [] s = (None, [], s)"
| "preStart_nics ch m c idx (n # ns) s =
     (case preStartNetwork ch m c idx n s of
        (Some e, n1, s1) \<Rightarrow> (Some e, n1 # ns, s1)
      | (None, n1, s1) \<Rightarrow> (case preStart_nics ch m c (Suc idx) ns s1 of (r, ns1, s2) \<Rightarrow> (r, n1 # ns1, s2)))"

definition set_nics :: "nic list \<Rightarrow> container \<Rightarrow> container" where
  "set_nics ns c = c\<lparr>ct_Args := (ct_Args c)\<lparr>cc_Nics := ns\<rparr>\<rparr>"

definition preStartIsolatedNetworking ::
  "('w, 'c) chost \<Rightarrow> container_mgr \<Rightarrow> container \<Rightarrow> 'w \<times> 'c \<Rightarrow> ct_error option \<times> container \<times> 'w \<times> 'c" where
  "preStartIsolatedNetworking ch m c s =
     (case preStart_nics ch m c 0 (cc_Nics (ct_Args c)) s of (r, ns, s1) \<Rightarrow> (r, set_nics ns c, s1))"

definition preStartHostNetworking :: "('w, 'c) chost \<Rightarrow> container \<Rightarrow> (unit, 'w, 'c) ceff" where
  "preStartHostNetworking ch c =
     (let p = path_join [ct_root c, ''etc'', ''resolv.conf''] in
      andThen (ignore (call (ch_RemoveAll ch p))) (\<lambda>_.
      andThen (ignore (call (ch_WriteFile ch p []))) (\<lambda>_.
      plainly (call (ch_Mount ch ''/etc/resolv.conf'' p)))))"

section \<open>Zerotier\<close>

definition zerotierHome :: "container \<Rightarrow> string" where
  "zerotierHome c = path_join [BackendBaseDir, ct_name c, ''zerotier'']"

definition zerotierID :: "u16 \<Rightarrow> string" where
  "zerotierID i = ''container-'' @ itoa (unat i) @ ''-zerotier''"

text \<open>The public part of an identity: all but what follows the last colon.\<close>

definition public_identity :: "string \<Rightarrow> string" where
  "public_identity secret = join '':'' (butlast (split (CHR '':'') secret))"

text \<open>The daemon is set up once; afterwards the error of its last start is returned.\<close>

definition zerotierDaemon :: "('w, 'c) chost \<Rightarrow> container \<Rightarrow> 'w \<times> 'c \<Rightarrow> go_error option \<times> container \<times> 'w \<times> 'c" where
  "zerotierDaemon ch c s =
     (if ct_zto c then (ct_zterr c, c, s)
      else
        let home = zerotierHome c; ident = cc_Identity (ct_Args c);
            s1 = snd (ch_MkdirAll ch home (snd (ch_RemoveAll ch home s)));
            s2 = (if length ident > 0
                  then snd (ch_WriteFile ch (path_join [home, ''identity.public'']) (public_identity ident)
                         (snd (ch_WriteFile ch (path_join [home, ''identity.secret'']) ident s1)))
                  else s1)
        in case ch_startZerotier ch (ct_id c) s2 of (e, s3) \<Rightarrow> (e, c\<lparr>ct_zto := True, ct_zterr := e\<rparr>, s3))"

definition zerotier_cli :: "('w, 'c) chost \<Rightarrow> container \<Rightarrow> string \<Rightarrow> string \<Rightarrow> 'w \<times> 'c \<Rightarrow> ct_error option \<times> container \<times> 'w \<times> 'c" where
  "zerotier_cli ch c verb netID s =
     (case zerotierDaemon ch c s of
        (Some e, c1, s1) \<Rightarrow> (Some (GoErr e), c1, s1)
      | (None, c1, s1) \<Rightarrow>
          (case system ch [''ip'', ''netns'', ''exec'', ct_name c, ''zerotier-cli'', ''-D'' @ zerotierHome c, verb, netID] s1 of
             (Inl e, s2) \<Rightarrow> (Some (GoErr e), c1, s2)
           | (Inr _, s2) \<Rightarrow> (None, c1, s2)))"

definition joinZerotierNetwork :: "('w, 'c) chost \<Rightarrow> container \<Rightarrow> string \<Rightarrow> 'w \<times> 'c \<Rightarrow> ct_error option \<times> container \<times> 'w \<times> 'c" where
  "joinZerotierNetwork ch c netID = zerotier_cli ch c ''join'' netID"

definition leaveZerotierNetwork :: "('w, 'c) chost \<Rightarrow> container \<Rightarrow> string \<Rightarrow> 'w \<times> 'c \<Rightarrow> ct_error option \<times> container \<times> 'w \<times> 'c" where
  "leaveZerotierNetwork ch c netID = zerotier_cli ch c ''leave'' netID"

section \<open>Once the container runs\<close>

definition hostsFile :: string where
  "hostsFile = ''127.0.0.1'' @ [CHR 0x09] @ ''localhost.localdomain'' @ [CHR 0x09] @ ''localhost''"

definition nic_dev :: "nat \<Rightarrow> nic \<Rightarrow> string" where
  "nic_dev idx n = (if nic_Name n \<noteq> [] then nic_Name n else ''eth'' @ itoa idx)"

definition post_network :: "('w, 'c) chost \<Rightarrow> container \<Rightarrow> nat \<Rightarrow> nic \<Rightarrow> (unit, 'w, 'c) ceff" where
  "post_network ch c idx n =
     (if nic_Type n \<in> {''vxlan'', ''vlan'', ''bridge''} then postBridge ch c (nic_dev idx n) idx (nic_Monitor n) (nic_Config n)
      else if nic_Type n = ''default'' then postDefaultNetwork ch c (nic_dev idx n) idx
      else if nic_Type n \<in> {''macvlan'', ''passthrough''} then postLink ch c (nic_dev idx n) idx n
      else ret ())"

definition postStartNetwork ::
  "('w, 'c) chost \<Rightarrow> container \<Rightarrow> nat \<Rightarrow> nic \<Rightarrow> 'w \<times> 'c \<Rightarrow> ct_error option \<times> nic \<times> container \<times> 'w \<times> 'c" where
  "postStartNetwork ch c idx n s =
     (case (if nic_Type n = ''zerotier'' then joinZerotierNetwork ch c (nic_ID n) s
            else (case post_network ch c idx n s of (Inl e, s1) \<Rightarrow> (Some e, c, s1) | (Inr _, s1) \<Rightarrow> (None, c, s1))) of
        (e, c1, s1) \<Rightarrow>
          (e, n\<lparr>nic_State := (if e = None then NicStateConfigured else NicStateError)\<rparr>, c1, s1))"

fun postStart_nics ::
  "('w, 'c) chost \<Rightarrow> container \<Rightarrow> nat \<Rightarrow> nic list \<Rightarrow> 'w \<times> 'c \<Rightarrow> nic list \<times> container \<times> 'w \<times> 'c" where
  "postStart_nics ch c idx [] s = ([], c, s)"
| "postStart_nics ch c idx (n # ns) s =
     (case postStartNetwork ch c idx n s of
        (e, n1, c1, s1) \<Rightarrow> (case postStart_nics ch c1 (Suc idx) ns s1 of (ns1, c2, s2) \<Rightarrow> (n1 # ns1, c2, s2)))"

definition netns :: "container \<Rightarrow> string" where
  "netns c = ''/run/netns/'' @ ct_name c"

definition ct_namespace :: "('w, 'c) chost \<Rightarrow> container \<Rightarrow> (unit, 'w, 'c) ceff" where
  "ct_namespace ch c =
     andThen (ignore (call (ch_MkdirAll ch ''/run/netns''))) (\<lambda>_.
     andThen (ignore (call (ch_Create ch (netns c)))) (\<lambda>_.
     wrapped ''namespace mount: '' (call (ch_Mount ch (''/proc/'' @ itoaInt (ct_PID c) @ ''/ns/net'') (netns c)))))"

definition setupLO :: "('w, 'c) chost \<Rightarrow> container \<Rightarrow> (unit, 'w, 'c) ceff" where
  "setupLO ch c =
     andThen (plainly (ip_n ch c [''address'', ''add'', ''127.0.0.1/8'', ''dev'', ''lo''])) (\<lambda>_.
     andThen (plainly (ip_n ch c [''address'', ''add'', ''::1/128'', ''dev'', ''lo''])) (\<lambda>_.
     andThen (plainly (ip_n ch c [''link'', ''set'', ''lo'', ''up''])) (\<lambda>_.
     plainly (call (ch_WriteFile ch (path_join [ct_root c, ''etc'', ''hosts'']) hostsFile)))))"

text \<open>The errors of single devices are logged, each device keeps its own state.\<close>

definition postStartIsolatedNetworking :: "('w, 'c) chost \<Rightarrow> container \<Rightarrow> 'w \<times> 'c \<Rightarrow> ct_error option \<times> container \<times> 'w \<times> 'c" where
  "postStartIsolatedNetworking ch c s =
     (case andThen (ct_namespace ch c) (\<lambda>_. setupLO ch c) s of
        (Inl e, s1) \<Rightarrow> (Some e, c, s1)
      | (Inr _, s1) \<Rightarrow>
          (case postStart_nics ch c 0 (cc_Nics (ct_Args c)) s1 of (ns, c1, s2) \<Rightarrow> (None, set_nics ns c1, s2)))"

section \<open>Taking devices down\<close>

text \<open>The name of the device inside the container is always taken to be \<^verbatim>\<open>eth\<close> and its index.\<close>

definition unLink :: "('w, 'c) chost \<Rightarrow> container \<Rightarrow> nat \<Rightarrow> nic \<Rightarrow> 'w \<times> 'c \<Rightarrow> ct_error option \<times> nic \<times> 'w \<times> 'c" where
  "unLink ch c idx n s =
     (if nic_Type n \<noteq> ''macvlan'' then (Some (GoErr (Errorf ''unlink is only for macvlan nic type'')), n, s)
      else case ip_n ch c [''link'', ''del'', ''eth'' @ itoa idx] s of
             (Inl e, s1) \<Rightarrow> (Some (GoErr e), n, s1)
           | (Inr _, s1) \<Rightarrow> (None, n\<lparr>nic_State := NicStateDestroyed\<rparr>, s1))"

definition unBridge ::
  "('w, 'c) chost \<Rightarrow> container_mgr \<Rightarrow> container \<Rightarrow> nat \<Rightarrow> nic \<Rightarrow> container option \<Rightarrow> (unit, 'w, 'c) ceff" where
  "unBridge ch m c idx n ovs =
     (let name = link_name (ct_id c) idx (nic_Monitor n) in
      andThen (case ovs of
                 None \<Rightarrow> ret ()
               | Some sw \<Rightarrow> andThen (Dispatch ch m (ct_id sw) (ovs_command ch ''ovs.port-del'' [(''port'', JStr name)])) (\<lambda>_. ret ())) (\<lambda>_.
      andThen (plainly (ask (nl_LinkByName (ch_net ch) name))) (\<lambda>l.
      plainly (call (nl_LinkDel (ch_net ch) (ByIndex (lk_Index l)))))))"

text \<open>The device is looked for up to 31 times, with a tenth of a second in between.\<close>

fun find_link :: "('w, 'c) chost \<Rightarrow> int \<Rightarrow> nat \<Rightarrow> 'w \<times> 'c \<Rightarrow> (ct_error + link) \<times> 'w \<times> 'c" where
  "find_link ch ix 0 s =
     (case nl_LinkByIndex (ch_net ch) ix s of
        Inr l \<Rightarrow> (Inr l, s)
      | Inl e \<Rightarrow> (Inl (GoErr (Errorf (''failed to find device with index: '' @ itoaInt ix))), s))"
| "find_link ch ix (Suc k) s =
     (case nl_LinkByIndex (ch_net ch) ix s of Inr l \<Rightarrow> (Inr l, s) | Inl e \<Rightarrow> find_link ch ix k (ch_sleep ch s))"

definition destroyPassthroughNetwork :: "('w, 'c) chost \<Rightarrow> nic \<Rightarrow> (unit, 'w, 'c) ceff" where
  "destroyPassthroughNetwork ch n =
     andThen (find_link ch (nic_Index n) 30) (\<lambda>l.
     andThen (plainly (call (nl_LinkSetHardwareAddr (ch_net ch) (ByIndex (lk_Index l)) (nic_OriginalHW n)))) (\<lambda>_.
     plainly (call (nl_LinkSetName (ch_net ch) (ByIndex (lk_Index l)) (nic_ID n)))))"

text \<open>The first loop of \<^verbatim>\<open>destroyNetwork\<close>: errors are logged, and a device that is taken down is marked destroyed.\<close>

fun destroy_nics :: "('w, 'c) chost \<Rightarrow> container_mgr \<Rightarrow> container \<Rightarrow> nat \<Rightarrow> nic list \<Rightarrow> 'w \<times> 'c \<Rightarrow> nic list \<times> 'w \<times> 'c" where
  "destroy_nics ch m c idx [] s = ([], s)"
| "destroy_nics ch m c idx (n # ns) s =
     (if nic_Type n \<in> {''vxlan'', ''vlan''} then
        (case destroy_nics ch m c (Suc idx) ns (snd (unBridge ch m c idx n (GetOneWithTags [OVSTag] m) s)) of
           (ns1, s1) \<Rightarrow> (n\<lparr>nic_State := NicStateDestroyed\<rparr> # ns1, s1))
      else if nic_Type n = ''default'' then
        (let s1 = snd (unBridge ch m c idx n None s); s2 = (snd (RemoveAll (ch_host ch) (forwardId (ct_id c)) (fst s1)), snd s1)
         in case destroy_nics ch m c (Suc idx) ns s2 of
              (ns1, s3) \<Rightarrow> (n\<lparr>nic_State := NicStateDestroyed\<rparr> # ns1, s3))
      else (case destroy_nics ch m c (Suc idx) ns s of (ns1, s1) \<Rightarrow> (n # ns1, s1)))"

fun restore_passthrough :: "('w, 'c) chost \<Rightarrow> nic list \<Rightarrow> 'w \<times> 'c \<Rightarrow> 'w \<times> 'c" where
  "restore_passthrough ch [] s = s"
| "restore_passthrough ch (n # ns) s =
     restore_passthrough ch ns (if nic_Type n = ''passthrough'' then snd (destroyPassthroughNetwork ch n s) else s)"

definition destroyNetwork :: "('w, 'c) chost \<Rightarrow> container_mgr \<Rightarrow> container \<Rightarrow> 'w \<times> 'c \<Rightarrow> container \<times> 'w \<times> 'c" where
  "destroyNetwork ch m c s =
     (if cc_HostNetwork (ct_Args c) then (c, s)
      else
        (case destroy_nics ch m c 0 (cc_Nics (ct_Args c)) s of
           (ns, s1) \<Rightarrow>
             let s2 = snd (ch_Kill ch (zerotierID (ct_id c)) s1);
                 s3 = (if ct_PID c > 0 then snd (ch_RemoveAll ch (netns c) (snd (ch_Unmount ch (netns c) s2))) else s2)
             in (set_nics ns c, restore_passthrough ch ns s3)))"

end
