(* ===== verification/Container_Life.thy ===== *)
theory Container_Life
  imports Container_Network
begin

text \<open>
  \<^verbatim>\<open>apps/core0/subsys/containers\<close>: \<^verbatim>\<open>filesystem.go\<close> (the root of a container and what is mounted in it),
  \<^verbatim>\<open>container.go\<close> (its life, from \<^verbatim>\<open>Start\<close> over the hooks of its process to \<^verbatim>\<open>cleanup\<close>) and the commands of \<^verbatim>\<open>manager.go\<close>
  that change the table.  The locks of the manager are held one at a time, so a command is one step; the hooks of the process run later and are steps
  of their own.
\<close>

section \<open>The file system of a container\<close>

definition path_dir :: "string \<Rightarrow> string" where
  "path_dir p = path_clean_rooted (rev (dropWhile (\<lambda>c. c \<noteq> CHR ''/'') (rev p)))"

definition flist_path :: "string \<Rightarrow> string \<Rightarrow> string" where
  "flist_path target name = path_join [target, SafeNormalize name]"

definition flistConfigOverride :: "('w, 'c) chost \<Rightarrow> string \<Rightarrow> (string \<times> string) list \<Rightarrow> (unit, 'w, 'c) ceff" where
  "flistConfigOverride ch target cfg =
     forEach (\<lambda>(name, content).
       let p = flist_path target name in
       andThen (wrapped (''failed to create director: '') (call (ch_MkdirAll ch (path_dir p)))) (\<lambda>_.
       plainly (call (ch_WriteFile ch p content)))) cfg"

text \<open>The storage used; the first mount stores it in the arguments of the container.\<close>

definition storage_of :: "('w, 'c) chost \<Rightarrow> container \<Rightarrow> string" where
  "storage_of ch c = (if cc_Storage (ct_Args c) = [] then ch_storage ch else cc_Storage (ct_Args c))"

definition mountFList :: "('w, 'c) chost \<Rightarrow> container \<Rightarrow> string \<Rightarrow> string \<Rightarrow> (string \<times> string) list \<Rightarrow> (unit, 'w, 'c) ceff" where
  "mountFList ch c src target cfg =
     andThen (plainly (call (ch_MountFList ch (''containers/'' @ ct_name c) (storage_of ch c) src target))) (\<lambda>_.
     flistConfigOverride ch target cfg)"

text \<open>
  \<^verbatim>\<open>getFSType\<close>: the type of the partition with the longest mount point above the directory; Go leaves open which of two mount points of the same
  length comes first.
\<close>

definition getFSType :: "(string \<times> string) list \<Rightarrow> string \<Rightarrow> string" where
  "getFSType parts dir =
     (let d = trimRight dir ''/'' @ ''/'';
          sorted = sort_key (\<lambda>p. - int (length (fst p))) parts
      in case find (\<lambda>p. hasPrefix d (if fst p \<noteq> ''/'' then fst p @ ''/'' else fst p)) sorted of
           None \<Rightarrow> [] | Some p \<Rightarrow> snd p)"

definition backend_fs :: "('w, 'c) chost \<Rightarrow> 'w \<times> 'c \<Rightarrow> string" where
  "backend_fs ch s = (case ch_Partitions ch s of Inl e \<Rightarrow> [] | Inr parts \<Rightarrow> getFSType parts BackendBaseDir)"

text \<open>One mount that the client asked for.\<close>

definition mount_target :: "container \<Rightarrow> string \<Rightarrow> string" where
  "mount_target c dst = path_join [ct_root c, dst]"

definition sandbox_mount :: "('w, 'c) chost \<Rightarrow> container \<Rightarrow> string \<times> string \<Rightarrow> (unit, 'w, 'c) ceff" where
  "sandbox_mount ch c sd =
     (let src = fst sd; target = mount_target c (snd sd) in
      case ch_urlParse ch src of
        Inl e \<Rightarrow> fail (GoErr (Errorf (''bad mount source '' @ src @ '': '' @ err_Text e)))
      | Inr (scheme, p) \<Rightarrow>
          if scheme = [] then
            (\<lambda>s. case ch_Stat ch src s of
               NotExist \<Rightarrow> (Inl (GoErr (Errorf (src @ '': no such file or directory''))), s)
             | StatError e \<Rightarrow> (Inl (GoErr e), s)
             | IsDir \<Rightarrow>
                 andThen (ignore (call (ch_MkdirAll ch target))) (\<lambda>_. wrapped ''mount-bind'' (call (ch_Mount ch src target))) s
             | IsFile \<Rightarrow>
                 andThen (ignore (call (ch_MkdirAll ch (path_dir target)))) (\<lambda>_.
                 andThen (plainly (call (ch_Create ch target))) (\<lambda>_. wrapped ''mount-bind'' (call (ch_Mount ch src target)))) s)
          else
            andThen (plainly (call (ch_MkdirAll ch target))) (\<lambda>_.
            wrapErr (Wrapped ''mount-bind-flist'') (mountFList ch c src target [])))"

definition backend_dir :: "container \<Rightarrow> string" where
  "backend_dir c = path_join [BackendBaseDir, ct_name c]"

definition coreXBinaryName :: string where "coreXBinaryName = ''coreX''"

definition sandbox_backend :: "('w, 'c) chost \<Rightarrow> container \<Rightarrow> 'w \<times> 'c \<Rightarrow> 'w \<times> 'c" where
  "sandbox_backend ch c s =
     (let s1 = snd (ch_RemoveAll ch (backend_dir c) s)
      in if backend_fs ch s1 = ''btrfs''
         then let s2 = (if ch_Stat ch (backend_dir c) s1 \<noteq> NotExist
                        then snd (system ch [''btrfs'', ''subvolume'', ''delete'', backend_dir c] s1) else s1)
              in snd (system ch [''btrfs'', ''subvolume'', ''create'', backend_dir c] s2)
         else s1)"

definition sandbox :: "('w, 'c) chost \<Rightarrow> container \<Rightarrow> (unit, 'w, 'c) ceff" where
  "sandbox ch c s =
     andThen (ignore (call (ch_RemoveAll ch (ct_root c)))) (\<lambda>_.
     andThen (wrapErr (Wrapped ''mount-root-flist'') (mountFList ch c (cc_Root (ct_Args c)) (ct_root c) (cc_Config (ct_Args c)))) (\<lambda>_.
     andThen (ignore (call (ch_MkdirAll ch (path_join [ct_root c, ''etc''])))) (\<lambda>_.
     andThen (forEach (sandbox_mount ch c) (cc_Mount (ct_Args c))) (\<lambda>_.
     andThen (plainly (call (ch_Create ch (path_join [ct_root c, coreXBinaryName])))) (\<lambda>_.
     andThen (plainly (ask (ch_LookPath ch coreXBinaryName))) (\<lambda>src.
     plainly (call (ch_Mount ch src (path_join [ct_root c, coreXBinaryName])))))))))
     (sandbox_backend ch c s)"

text \<open>
  The mount points below a directory that the lines of \<^verbatim>\<open>/proc/mounts\<close> name, the deepest first.  \<^verbatim>\<open>sort.Slice\<close>
  leaves open the order of equally deep ones, which is kept here.
\<close>

fun fields_of :: "string \<Rightarrow> string \<Rightarrow> string list" where
  "fields_of cur [] = (if cur = [] then [] else [cur])"
| "fields_of cur (c # s) =
     (if c \<in> set goSpace then (if cur = [] then fields_of [] s else cur # fields_of [] s) else fields_of (cur @ [c]) s)"

definition Fields :: "string \<Rightarrow> string list" where
  "Fields s = fields_of [] s"

definition depth :: "string \<Rightarrow> nat" where
  "depth p = length (filter (\<lambda>c. c = CHR ''/'') p)"

definition mount_targets :: "string \<Rightarrow> string \<Rightarrow> string list" where
  "mount_targets rt mnts =
     sort_key (\<lambda>t. - int (depth t))
       (filter (\<lambda>t. t = rt \<or> hasPrefix t (rt @ ''/''))
         (map (\<lambda>fs. fs ! 1) (filter (\<lambda>fs. \<not> length fs < 2) (map Fields (split (CHR 0x0A) mnts)))))"

definition unMountAll :: "('w, 'c) chost \<Rightarrow> container \<Rightarrow> 'w \<times> 'c \<Rightarrow> go_error option \<times> 'w \<times> 'c" where
  "unMountAll ch c s =
     (case ch_ReadFile ch ''/proc/mounts'' s of
        Inl e \<Rightarrow> (Some e, s)
      | Inr mnts \<Rightarrow> (None, fold (\<lambda>t s. snd (ch_Unmount ch t s)) (mount_targets (ct_root c) mnts) s))"

definition cleanSandbox :: "('w, 'c) chost \<Rightarrow> container \<Rightarrow> 'w \<times> 'c \<Rightarrow> 'w \<times> 'c" where
  "cleanSandbox ch c s =
     (let s1 = snd (unMountAll ch c s);
          s2 = (if backend_fs ch s1 = ''btrfs'' then snd (system ch [''btrfs'', ''subvolume'', ''delete'', backend_dir c] s1)
                else snd (ch_RemoveAll ch (backend_dir c) s1))
      in snd (ch_RemoveAll ch (ct_root c) s2))"

section \<open>The life of a container\<close>

type_synonym ('w, 'c) cstate = "container_mgr \<times> 'w \<times> 'c"

definition cleanup :: "('w, 'c) chost \<Rightarrow> container \<Rightarrow> ('w, 'c) cstate \<Rightarrow> ('w, 'c) cstate" where
  "cleanup ch c ms =
     (case ms of (m, s) \<Rightarrow>
        (case destroyNetwork ch m c s of
           (c1, s1) \<Rightarrow> (unsetContainer (ct_id c) m, snd (unMountAll ch c1 s1))))"

definition preStart :: "('w, 'c) chost \<Rightarrow> container_mgr \<Rightarrow> container \<Rightarrow> 'w \<times> 'c \<Rightarrow> ct_error option \<times> container \<times> 'w \<times> 'c" where
  "preStart ch m c s =
     (if cc_HostNetwork (ct_Args c)
      then (case preStartHostNetworking ch c s of (Inl e, s1) \<Rightarrow> (Some e, c, s1) | (Inr _, s1) \<Rightarrow> (None, c, s1))
      else preStartIsolatedNetworking ch m c s)"

definition coreX_env :: "(string \<times> string) list \<Rightarrow> (string \<times> string) list" where
  "coreX_env env =
     fold put_kv env
       [(''PATH'', ''/usr/local/sbin:/usr/local/bin:/usr/sbin:/usr/bin:/sbin:/bin''), (''HOME'', ''/'')]"

definition coreX_args :: "container \<Rightarrow> container_args" where
  "coreX_args c =
     \<lparr>ca_Name = ''/coreX'', ca_Dir = ''/'',
      ca_Args = [''-hostname'', cc_Hostname (ct_Args c)] @ (if cc_Privileged (ct_Args c) then [] else [''-unprivileged'']),
      ca_Env = coreX_env (cc_Env (ct_Args c)), ca_HostNetwork = cc_HostNetwork (ct_Args c), ca_Chroot = ct_root c,
      ca_Log = path_join [BackendBaseDir, ct_name c, ''container.log'']\<rparr>"

text \<open>\<^verbatim>\<open>Start\<close>: any error runs \<^verbatim>\<open>cleanup\<close>; without one the table has the container with its devices and its job.\<close>

definition ct_Start :: "('w, 'c) chost \<Rightarrow> container \<Rightarrow> ('w, 'c) cstate \<Rightarrow> ct_error option \<times> ('w, 'c) cstate" where
  "ct_Start ch c0 ms =
     (case ms of (m, s) \<Rightarrow>
        let c = c0\<lparr>ct_Args := (ct_Args c0)\<lparr>cc_Storage := storage_of ch c0\<rparr>\<rparr>
        in case sandbox ch c0 s of
             (Inl e, s1) \<Rightarrow> (Some e, cleanup ch c (updContainer c m, s1))
           | (Inr _, s1) \<Rightarrow>
               (case preStart ch m c s1 of
                  (Some e, c1, s2) \<Rightarrow> (Some e, cleanup ch c1 (updContainer c1 m, s2))
                | (None, c1, s2) \<Rightarrow>
                    (case ch_RunContainer ch (core_id (ct_id c)) (coreX_args c1) s2 of
                       (Some e, s3) \<Rightarrow> (Some (GoErr e), cleanup ch c1 (updContainer c1 m, s3))
                     | (None, s3) \<Rightarrow> (None, updContainer (c1\<lparr>ct_running := True\<rparr>) m, s3))))"

definition Terminate :: "('w, 'c) chost \<Rightarrow> container \<Rightarrow> 'w \<times> 'c \<Rightarrow> ct_error option \<times> 'w \<times> 'c" where
  "Terminate ch c s =
     (if \<not> ct_running c then (Some (GoErr (Errorf ''container was not started'')), s)
      else (None, ch_Signal ch (core_id (ct_id c)) SIGTERM s))"

text \<open>The tasks of the container are put into its control groups, those that are missing skipped.\<close>

fun join_cgroups :: "('w, 'c) chost \<Rightarrow> int \<Rightarrow> (string \<times> string) list \<Rightarrow> 'w \<times> 'c \<Rightarrow> 'w \<times> 'c" where
  "join_cgroups ch pid [] s = s"
| "join_cgroups ch pid ((sub, name) # cgs) s =
     (case cg_Get (ch_cgroups ch) sub name s of
        (Inl e, s1) \<Rightarrow> join_cgroups ch pid cgs s1
      | (Inr g, s1) \<Rightarrow> join_cgroups ch pid cgs (snd (cg_Task (ch_cgroups ch) g pid s1)))"

definition postStart :: "('w, 'c) chost \<Rightarrow> container \<Rightarrow> 'w \<times> 'c \<Rightarrow> ct_error option \<times> container \<times> 'w \<times> 'c" where
  "postStart ch c s = (if cc_HostNetwork (ct_Args c) then (None, c, s) else postStartIsolatedNetworking ch c s)"

text \<open>The hook of the process of the container, once it has a pid.\<close>

definition onStart :: "('w, 'c) chost \<Rightarrow> container \<Rightarrow> int \<Rightarrow> ('w, 'c) cstate \<Rightarrow> ('w, 'c) cstate" where
  "onStart ch c0 pid ms =
     (case ms of (m, s) \<Rightarrow>
        let cgs = cc_CGroups (ct_Args c0) @ (if cc_Privileged (ct_Args c0) then [] else [DevicesCGroup]);
            c = c0\<lparr>ct_channel := True, ct_PID := pid, ct_Args := (ct_Args c0)\<lparr>cc_CGroups := cgs\<rparr>\<rparr>
        in case postStart ch c (join_cgroups ch pid cgs s) of
             (e, c1, s1) \<Rightarrow> (updContainer c1 m, s1))"

text \<open>The hook at the end of the process; \<^verbatim>\<open>None\<close> when there is no tag to log the end under.\<close>

definition exit_record :: "container \<Rightarrow> string option" where
  "exit_record c = (let tags = join ''.'' (cc_Tags (ct_Args c)) in if tags = [] then None else Some (''container.'' @ tags))"

definition onExit :: "('w, 'c) chost \<Rightarrow> container \<Rightarrow> ('w, 'c) cstate \<Rightarrow> ('w, 'c) cstate" where
  "onExit ch c ms = cleanup ch (c\<lparr>ct_terminating := True\<rparr>) ms"

section \<open>Commands\<close>

definition limit_of :: "int \<Rightarrow> int" where
  "limit_of maxCount = (if maxCount = 0 then int ContainersHardLimit else maxCount)"

text \<open>\<^const>\<open>None\<close> when no identifier is left and the search for one never ends.\<close>

definition createContainer ::
  "('w, 'c) chost \<Rightarrow> int \<Rightarrow> create_args \<Rightarrow> ('w, 'c) cstate \<Rightarrow> ((ct_error + u16) \<times> ('w, 'c) cstate) option" where
  "createContainer ch maxCount args ms =
     (case ms of (m, s) \<Rightarrow>
        case Args_Validate ch args s of
          Some e \<Rightarrow> Some (Inl (GoErr e), m, s)
        | None \<Rightarrow>
            if int (length (cm_containers m)) \<ge> limit_of maxCount
            then Some (Inl (GoErr (ServiceUnavailableError (''reached the hard limit of '' @ itoa (length (cm_containers m)) @ '' containers''))), m, s)
            else (case getNextSequence m of
                    None \<Rightarrow> None
                  | Some (i, m1) \<Rightarrow>
                      let c = newContainer i args
                      in (case ct_Start ch c (setContainer i c m1, s) of
                            (Some e, ms1) \<Rightarrow> Some (Inl e, ms1)
                          | (None, ms1) \<Rightarrow> Some (Inr i, ms1))))"

definition bad_args :: ct_error where "bad_args = GoErr (BadRequestError ''json'')"

definition create_cmd ::
  "('w, 'c) chost \<Rightarrow> int \<Rightarrow> json \<Rightarrow> string list \<Rightarrow> ('w, 'c) cstate \<Rightarrow> ((ct_error + u16) \<times> ('w, 'c) cstate) option" where
  "create_cmd ch maxCount j tags ms =
     (case create_args_of j of
        None \<Rightarrow> Some (Inl bad_args, ms)
      | Some args \<Rightarrow> createContainer ch maxCount (args\<lparr>cc_Tags := tags\<rparr>) ms)"

definition no_container :: ct_error where "no_container = GoErr (NotFoundError ''container does not exist'')"

definition nicAdd :: "('w, 'c) chost \<Rightarrow> u16 \<Rightarrow> nic \<Rightarrow> ('w, 'c) cstate \<Rightarrow> ct_error option \<times> ('w, 'c) cstate" where
  "nicAdd ch i nic0 ms =
     (case ms of (m, s) \<Rightarrow>
        case Of i m of
          None \<Rightarrow> (Some no_container, ms)
        | Some c \<Rightarrow>
            if cc_HostNetwork (ct_Args c) then (Some (GoErr (BadRequestError ''cannot add a nic in host network mode'')), ms)
            else
              let n = nic0\<lparr>nic_State := NicStateUnknown\<rparr>; nics = cc_Nics (ct_Args c); idx = length nics;
                  c1 = set_nics (nics @ [n]) c
              in case Args_Validate ch (ct_Args c1) s of
                   Some e \<Rightarrow> (Some (GoErr (BadRequestError (err_Text e))), ms)
                 | None \<Rightarrow>
                     (case preStartNetwork ch m c1 idx n s of
                        (Some e, n1, s1) \<Rightarrow> (Some e, updContainer (set_nics (nics @ [n1]) c) m, s1)
                      | (None, n1, s1) \<Rightarrow>
                          (case postStartNetwork ch c1 idx n1 s1 of
                             (e, n2, c2, s2) \<Rightarrow> (e, updContainer (set_nics (nics @ [n2]) c2) m, s2))))"

definition nicRemove :: "('w, 'c) chost \<Rightarrow> u16 \<Rightarrow> int \<Rightarrow> ('w, 'c) cstate \<Rightarrow> ct_error option \<times> ('w, 'c) cstate" where
  "nicRemove ch i idx ms =
     (case ms of (m, s) \<Rightarrow>
        case Of i m of
          None \<Rightarrow> (Some no_container, ms)
        | Some c \<Rightarrow>
            let nics = cc_Nics (ct_Args c)
            in if idx < 0 \<or> idx \<ge> int (length nics) then (Some (GoErr (BadRequestError ''nic index out of range'')), ms)
               else
                 let n = nics ! nat idx; put = (\<lambda>n c. updContainer (set_nics (nics[nat idx := n]) c) m)
                 in if nic_State n \<noteq> NicStateConfigured
                    then (Some (GoErr (PreconditionFailedError (''nic is in '' @ nic_State n @ '' state''))), ms)
                    else if nic_Type n = ''zerotier'' then
                      (case leaveZerotierNetwork ch c (nic_ID n) s of
                         (Some e, c1, s1) \<Rightarrow> (Some e, put (n\<lparr>nic_State := NicStateError\<rparr>) c1, s1)
                       | (None, c1, s1) \<Rightarrow> (None, put (n\<lparr>nic_State := NicStateDestroyed\<rparr>) c1, s1))
                    else if nic_Type n = ''macvlan'' then
                      (case unLink ch c (nat idx) n s of (e, n1, s1) \<Rightarrow> (e, put n1 c, s1))
                    else
                      let ovs = (if nic_Type n \<in> {''vlan'', ''vxlan''} then GetOneWithTags [OVSTag] m else None)
                      in (case unBridge ch m c (nat idx) n ovs s of
                            (Inl e, s1) \<Rightarrow> (Some e, put (n\<lparr>nic_State := NicStateDestroyed\<rparr>) c, s1)
                          | (Inr _, s1) \<Rightarrow> (None, put (n\<lparr>nic_State := NicStateDestroyed\<rparr>) c, s1)))"

definition portforwardAdd :: "('w, 'c) chost \<Rightarrow> container_mgr \<Rightarrow> u16 \<Rightarrow> string \<Rightarrow> int \<Rightarrow> (unit, 'w, 'c) ceff" where
  "portforwardAdd ch m i host dest =
     (case Of i m of
        None \<Rightarrow> fail no_container
      | Some c \<Rightarrow>
          if \<not> list_ex (\<lambda>n. nic_Type n = ''default'') (cc_Nics (ct_Args c))
          then fail (GoErr (Errorf ''Container does not have a default nic''))
          else setPortForward ch c host dest)"

definition portforwardRemove :: "('w, 'c) chost \<Rightarrow> container_mgr \<Rightarrow> u16 \<Rightarrow> string \<Rightarrow> int \<Rightarrow> (unit, 'w, 'c) ceff" where
  "portforwardRemove ch m i host dest =
     (case Of i m of
        None \<Rightarrow> fail no_container
      | Some c \<Rightarrow>
          wrapErr SocatErr (\<lambda>(w, k). case RemovePortForward (ch_host ch) (forwardId (ct_id c)) host dest w of
            (None, w1) \<Rightarrow> (Inr (), w1, k) | (Some e, w1) \<Rightarrow> (Inl e, w1, k)))"

definition terminate_cmd :: "('w, 'c) chost \<Rightarrow> u16 \<Rightarrow> ('w, 'c) cstate \<Rightarrow> ct_error option \<times> ('w, 'c) cstate" where
  "terminate_cmd ch i ms =
     (case ms of (m, s) \<Rightarrow>
        case Of i m of
          None \<Rightarrow> (Some (GoErr (Errorf (''no container with id '' @ itoa (unat i)))), ms)
        | Some c \<Rightarrow> (case Terminate ch c s of (e, s1) \<Rightarrow> (e, m, s1)))"

end
