(* ===== verification/Container_Safety.thy ===== *)
theory Container_Safety
  imports Container_Life
begin

text \<open>
  What the container manager keeps: an induction over the operations that touch its table (creating, ending, terminating a
  container, adding and removing a network interface) shows that ids stay positive, unused and below the limit, that every
  container is found under its own id, and what a creation hands to the process manager. The last section shows what
  happens to a network interface that could not be set up.
\<close>


lemma unat16: "unat (b :: u16) < 65536"
  using unsigned_less [of b] by simp

lemma low_byte: "unat ((b :: u16) AND 0x00ff) = unat b mod 256"
proof -
  have "(0x00ff :: u16) = mask 8" by (simp add: mask_eq_exp_minus_1)
  then have "b AND 0x00ff = take_bit 8 b" by (simp add: take_bit_eq_mask)
  then show ?thesis by (simp add: take_bit_eq_mod unat_mod_distrib)
qed

lemma high_byte: "unat (drop_bit 8 ((b :: u16) AND 0xff00)) = unat b div 256"
proof -
  have "drop_bit 8 (0xff00 :: u16) = mask 8" by (simp add: mask_eq_exp_minus_1 drop_bit_numeral_bit0)
  then have "drop_bit 8 (b AND 0xff00) = take_bit 8 (drop_bit 8 b)" by (simp add: take_bit_eq_mask)
  moreover have "unat b div 256 < 256" using unat16 [of b] by (simp add: less_mult_imp_div_less)
  ultimately show ?thesis by (simp add: take_bit_eq_mod drop_bit_eq_div unat_mod_distrib unat_div_distrib)
qed

lemma bridge_octets: "octet BridgeIP 0 = 172" "octet BridgeIP 1 = 18"
  by (simp_all add: BridgeIP_def ofOctets_def octet_eq [unfolded One_nat_def])

lemma unat_of_nat32: "n < 2 ^ 32 \<Longrightarrow> unat (of_nat n :: u32) = n"
  by (simp add: unsigned_of_nat take_bit_nat_eq_self_iff)

lemma getDefaultIP_nat: "unat (getDefaultIP i) = 2886860800 + unat (i + 1)"
proof -
  have "unat (i + 1) div 256 * 256 + unat (i + 1) mod 256 = unat (i + 1)" by simp
  then have eq: "((172 * 256 + 18) * 256 + unat (i + 1) div 256) * 256 + unat (i + 1) mod 256 = 2886860800 + unat (i + 1)" by simp
  show ?thesis
    unfolding getDefaultIP_def Let_def bridge_octets low_byte high_byte ofOctets_def eq
    using unat16 [of "i + 1"] by (intro unat_of_nat32) simp
qed

lemma getDefaultIP_inj: "getDefaultIP i = getDefaultIP j \<longleftrightarrow> i = j"
  by (metis add_left_cancel add_right_cancel getDefaultIP_nat word_unat_eq_iff)

lemma getDefaultIP_bridge: "getDefaultIP i = BridgeIP \<longleftrightarrow> i = 0"
proof -
  have "BridgeIP = getDefaultIP 0" 
    by (rule word_unat_eq_iff [THEN iffD2]) (simp add: getDefaultIP_nat BridgeIP_def ofOctets_def)
  then show ?thesis using getDefaultIP_inj [of i 0] by simp
qed

lemma getDefaultIP_broadcast: "getDefaultIP i = ofOctets 172 18 255 255 \<longleftrightarrow> i = 65534"
proof -
  have "ofOctets 172 18 255 255 = getDefaultIP 65534"
    by (rule word_unat_eq_iff [THEN iffD2]) (simp add: getDefaultIP_nat ofOctets_def)
  then show ?thesis by (simp add: getDefaultIP_inj)
qed

lemma getDefaultIP_net: "octet (getDefaultIP i) 0 = 172" "octet (getDefaultIP i) 1 = 18"
proof -
  have d: "(2886860800 + n) div 65536 = (44050 :: nat)" if "n < 65536" for n
    using that div_mult_self1 [of "65536 :: nat" n 44050] by simp
  have "(2886860800 + n) div 16777216 = (172 :: nat)" "(2886860800 + n) div 65536 mod 256 = (18 :: nat)" if "n < 65536" for n
    using d [OF that] div_mult2_eq [of "2886860800 + n" 65536 256] by simp_all
  then show "octet (getDefaultIP i) 0 = 172" "octet (getDefaultIP i) 1 = 18"
    using unat16 [of "i + 1"] by (simp_all only: octet_eq getDefaultIP_nat)
qed

lemma dash_itoa: "CHR ''-'' \<notin> set (itoa n)" "CHR ''p'' \<notin> set (itoa n)" "CHR ''m'' \<notin> set (itoa n)"
  using itoa_digits [of n] by (auto simp: list_all_iff isDigit_def)

lemma split_dash:
  assumes "xs @ CHR ''-'' # ys = us @ CHR ''-'' # vs" "CHR ''-'' \<notin> set xs" "CHR ''-'' \<notin> set us"
  shows "xs = us \<and> ys = vs"
  using assms
proof (induction xs arbitrary: us)
  case Nil
  then show ?case by (cases us) auto
next
  case (Cons x xs)
  then show ?case by (cases us) auto
qed

lemma link_name_inject: "link_name i a x = link_name j b y \<longleftrightarrow> i = j \<and> a = b \<and> x = y"
proof
  have m: "CHR ''m'' # itoa p @ r \<noteq> itoa q @ r'" for p q r r'
    using dash_itoa(3) [of q] by (cases "itoa q") auto
  assume "link_name i a x = link_name j b y"
  then have "x = y" and "itoa (unat i) @ CHR ''-'' # itoa a = itoa (unat j) @ CHR ''-'' # itoa b"
    using m by (auto simp: link_name_def split: if_splits) (metis m)+
  then show "i = j \<and> a = b \<and> x = y" using split_dash dash_itoa(1) by (metis itoa_inject word_unat_eq_iff)
qed simp

lemma peer_not_link: "peer_name n \<noteq> link_name j b y"
proof
  assume "peer_name n = link_name j b y"
  then have "last (peer_name n) = last (link_name j b y)" by simp
  then have "CHR ''p'' = last (itoa b)" by (simp add: peer_name_def link_name_def)
  then show False using dash_itoa(2) [of b] last_in_set [of "itoa b"] by simp
qed

section \<open>Identifiers\<close>

definition free_id :: "u16 set \<Rightarrow> u16 \<Rightarrow> bool" where
  "free_id used v \<longleftrightarrow> v \<noteq> 0 \<and> v < 65535 \<and> v \<notin> used"

lemma next_sequence_free: "next_sequence n used q = Some v \<Longrightarrow> free_id used v"
  by (induction n arbitrary: q) (auto simp: free_id_def split: if_splits)

lemma next_sequence_None:
  "next_sequence n used q = None \<longleftrightarrow> (\<forall>k < n. \<not> free_id used (q + 1 + of_nat k))"
proof (induction n arbitrary: q)
  case (Suc n)
  have "(\<forall>k < Suc n. \<not> free_id used (q + 1 + of_nat k)) \<longleftrightarrow>
      \<not> free_id used (q + 1) \<and> (\<forall>k < n. \<not> free_id used (q + 1 + 1 + of_nat k))"
    unfolding less_Suc_eq_0_disj by (auto simp: add.assoc)
  then show ?case using Suc.IH [of "q + 1"] by (auto simp: free_id_def)
qed simp

lemma next_sequence_total: "next_sequence 65536 used q = None \<longleftrightarrow> (\<forall>v. \<not> free_id used v)"
proof -
  have "\<exists>k < 65536. q + 1 + of_nat k = v" for v
    using unat16 [of "v - (q + 1)"] by (intro exI [of _ "unat (v - (q + 1))"]) simp
  then show ?thesis unfolding next_sequence_None by metis
qed

lemma few_ids_free:
  assumes "finite used" "card used < 65534"
  shows "\<exists>v. free_id used v"
proof (rule ccontr)
  assume "\<not> ?thesis"
  then have "{v :: u16. v \<noteq> 0 \<and> v < 65535} \<subseteq> used" by (auto simp: free_id_def)
  then have "card {v :: u16. v \<noteq> 0 \<and> v < 65535} \<le> card used" using assms(1) by (intro card_mono)
  moreover have "{v :: u16. v \<noteq> 0 \<and> v < 65535} = UNIV - {0, 65535}"
  proof (intro set_eqI iffI)
    fix v :: u16
    assume "v \<in> UNIV - {0, 65535}"
    then have "v \<noteq> 65535" "v \<noteq> 0" by auto
    moreover have "v \<le> 65535" using unat16 [of v] by (simp add: word_le_nat_alt)
    ultimately show "v \<in> {v. v \<noteq> 0 \<and> v < 65535}" by simp
  qed auto
  moreover have "card (UNIV - {0 :: u16, 65535}) = 65534" by (subst card_Diff_subset) (simp_all add: card_word)
  ultimately show False using assms(2) by simp
qed

section \<open>The table\<close>

lemma ids_updContainer [simp]: "map fst (cm_containers (updContainer c m)) = map fst (cm_containers m)"
  by (simp add: updContainer_def comp_def if_distrib cong: if_cong)

lemma ids_unset [simp]: "map fst (cm_containers (unsetContainer i m)) = filter (\<lambda>j. j \<noteq> i) (map fst (cm_containers m))"
  by (simp add: unsetContainer_def filter_map comp_def)

lemma ids_set [simp]:
  "map fst (cm_containers (setContainer i c m)) = filter (\<lambda>j. j \<noteq> i) (map fst (cm_containers m)) @ [i]"
  by (simp add: setContainer_def filter_map comp_def)

lemma ct_id_set_nics [simp]: "ct_id (set_nics ns c) = ct_id c"
  by (simp add: set_nics_def)

lemma ct_id_newContainer [simp]: "ct_id (newContainer i args) = i"
  by (simp add: newContainer_def Let_def)

lemma zerotierDaemon_id: "zerotierDaemon ch c s = (e, c1, s1) \<Longrightarrow> ct_id c1 = ct_id c"
  by (auto simp: zerotierDaemon_def Let_def split: if_splits prod.splits)

lemma zerotier_cli_id: "zerotier_cli ch c verb n s = (e, c1, s1) \<Longrightarrow> ct_id c1 = ct_id c"
  by (auto simp: zerotier_cli_def dest: zerotierDaemon_id split: prod.splits option.splits sum.splits)

lemma postStartNetwork_id: "postStartNetwork ch c idx n s = (e, n1, c1, s1) \<Longrightarrow> ct_id c1 = ct_id c"
  by (auto simp: postStartNetwork_def joinZerotierNetwork_def dest: zerotier_cli_id split: prod.splits if_splits sum.splits)

lemma postStart_nics_id: "postStart_nics ch c idx ns s = (ns1, c1, s1) \<Longrightarrow> ct_id c1 = ct_id c"
  by (induction ns arbitrary: c idx s ns1 c1 s1) (auto dest: postStartNetwork_id split: prod.splits)

lemma postStart_id: "postStart ch c s = (e, c1, s1) \<Longrightarrow> ct_id c1 = ct_id c"
  by (auto simp: postStart_def postStartIsolatedNetworking_def dest: postStart_nics_id split: prod.splits if_splits sum.splits)

lemma preStart_id: "preStart ch m c s = (e, c1, s1) \<Longrightarrow> ct_id c1 = ct_id c"
  by (auto simp: preStart_def preStartIsolatedNetworking_def split: prod.splits if_splits sum.splits)

lemmas keeps_id = zerotier_cli_id postStartNetwork_id postStart_id preStart_id

lemma cleanup_table: "fst (cleanup ch c (m, s)) = unsetContainer (ct_id c) m"
  by (simp add: cleanup_def split: prod.splits)

lemma unset_upd: "unsetContainer (ct_id c) (updContainer c m) = unsetContainer (ct_id c) m"
proof -
  have "filter (\<lambda>e. fst e \<noteq> ct_id c) (map (\<lambda>e. if fst e = ct_id c then (ct_id c, c) else e) xs) = filter (\<lambda>e. fst e \<noteq> ct_id c) xs" for xs
    by (induction xs) auto
  then show ?thesis by (simp add: unsetContainer_def updContainer_def)
qed

text \<open>Starting a container either leaves the table with it, updated, or without it.\<close>

lemma ct_Start_table:
  assumes "ct_Start ch c (m, s) = (e, m1, s1)"
  shows "(e \<noteq> None \<longrightarrow> m1 = unsetContainer (ct_id c) m) \<and> (e = None \<longrightarrow> (\<exists>c1. ct_id c1 = ct_id c \<and> ct_running c1 \<and> m1 = updContainer c1 m))"
proof -
  let ?c = "c\<lparr>ct_Args := (ct_Args c)\<lparr>cc_Storage := storage_of ch c\<rparr>\<rparr>"
  have fail: "m1 = unsetContainer (ct_id c) m" if "cleanup ch c1 (updContainer c1 m, s2) = (m1, s1)" "ct_id c1 = ct_id c" for c1 s2
    using that cleanup_table [of ch c1 "updContainer c1 m" s2] unset_upd [of c1 m] by simp
  have id: "ct_id c1 = ct_id c" if "preStart ch m ?c s2 = (r, c1, s3)" for r c1 s2 s3
    using preStart_id [OF that] by simp
  obtain r s2 where sb: "sandbox ch c s = (r, s2)" by (rule prod.exhaust)
  show ?thesis
  proof (cases r)
    case (Inl e1)
    then show ?thesis using assms sb fail [of ?c s2] by (auto simp: ct_Start_def Let_def)
  next
    case (Inr u)
    obtain p c1 s3 where pre: "preStart ch m ?c s2 = (p, c1, s3)" by (cases "preStart ch m ?c s2") auto
    obtain q s4 where run: "ch_RunContainer ch (core_id (ct_id c)) (coreX_args c1) s3 = (q, s4)" by (rule prod.exhaust)
    show ?thesis
      using assms sb Inr pre run fail [of c1 s3] fail [of c1 s4] id [OF pre]
      by (cases p; cases q) (auto simp: ct_Start_def Let_def intro: exI [of _ "c1\<lparr>ct_running := True\<rparr>"])
  qed
qed

text \<open>
  What the manager goes through: the commands that change the table and the hooks of the processes, in any order and with anything
  happening to the machine in between.
\<close>

inductive cm_reach :: "('w, 'c) chost \<Rightarrow> int \<Rightarrow> ('w, 'c) cstate \<Rightarrow> bool" for ch maxCount where
  boot: "cm_reach ch maxCount (\<lparr>cm_sequence = 0, cm_containers = []\<rparr>, s)"
| create: "cm_reach ch maxCount ms \<Longrightarrow> createContainer ch maxCount args ms = Some (r, ms1) \<Longrightarrow> cm_reach ch maxCount ms1"
| started: "cm_reach ch maxCount ms \<Longrightarrow> Of i (fst ms) = Some c \<Longrightarrow> cm_reach ch maxCount (onStart ch c pid ms)"
| exited: "cm_reach ch maxCount ms \<Longrightarrow> Of i (fst ms) = Some c \<Longrightarrow> cm_reach ch maxCount (onExit ch c ms)"
| nic_add: "cm_reach ch maxCount ms \<Longrightarrow> cm_reach ch maxCount (snd (nicAdd ch i n ms))"
| nic_remove: "cm_reach ch maxCount ms \<Longrightarrow> cm_reach ch maxCount (snd (nicRemove ch i idx ms))"
| machine: "cm_reach ch maxCount (m, s) \<Longrightarrow> cm_reach ch maxCount (m, s')"

definition cm_inv :: "int \<Rightarrow> container_mgr \<Rightarrow> bool" where
  "cm_inv maxCount m \<longleftrightarrow>
     distinct (map fst (cm_containers m)) \<and> (\<forall>(i, c) \<in> set (cm_containers m). ct_id c = i \<and> i \<noteq> 0 \<and> i < 65535) \<and>
     int (length (cm_containers m)) \<le> max 0 (limit_of maxCount)"

lemma cm_inv_unset: "cm_inv k m \<Longrightarrow> cm_inv k (unsetContainer i m)"
proof -
  assume inv: "cm_inv k m"
  have "int (length (filter (\<lambda>e. fst e \<noteq> i) (cm_containers m))) \<le> max 0 (limit_of k)"
    by (rule order_trans [of _ "int (length (cm_containers m))"]) (use inv in \<open>simp_all add: cm_inv_def\<close>)
  then show ?thesis using inv by (auto simp: cm_inv_def unsetContainer_def distinct_map_filter)
qed

lemma cm_inv_upd: "cm_inv k m \<Longrightarrow> cm_inv k (updContainer c m)"
  unfolding cm_inv_def ids_updContainer by (auto simp: updContainer_def)

lemma cm_inv_set:
  assumes "cm_inv k m" "i \<notin> fst ` set (cm_containers m)" "ct_id c = i" "i \<noteq> 0" "i < 65535"
    and "int (length (cm_containers m)) < limit_of k"
  shows "cm_inv k (setContainer i c m)"
proof -
  have "filter (\<lambda>e. fst e \<noteq> i) (cm_containers m) = cm_containers m" using assms(2) by (auto simp: filter_id_conv)
  then show ?thesis using assms by (auto simp: cm_inv_def setContainer_def image_iff)
qed

lemma Of_id: "cm_inv k m \<Longrightarrow> Of i m = Some c \<Longrightarrow> ct_id c = i"
  by (auto simp: cm_inv_def Of_def dest: map_of_SomeD)

lemma getNextSequence_free:
  assumes "getNextSequence m = Some (i, m1)"
  shows "free_id (fst ` set (cm_containers m)) i" "cm_containers m1 = cm_containers m"
  using assms next_sequence_free by (auto simp: getNextSequence_def)

lemma createContainer_cases:
  assumes "createContainer ch k args (m, s) = Some (r, m1, s1)"
  obtains (refused) e where "r = Inl e" "m1 = m" "s1 = s"
  | (made) i m0 where "getNextSequence m = Some (i, m0)" "int (length (cm_containers m)) < limit_of k"
      "isl r \<longrightarrow> m1 = unsetContainer i (setContainer i (newContainer i args) m0)"
      "\<not> isl r \<longrightarrow> r = Inr i \<and> (\<exists>c. ct_id c = i \<and> ct_running c \<and> m1 = updContainer c (setContainer i (newContainer i args) m0))"
proof (cases "Args_Validate ch args s = None \<and> int (length (cm_containers m)) < limit_of k")
  case False
  then show ?thesis using assms refused by (auto simp: createContainer_def split: option.splits if_splits)
next
  case True
  then obtain i m0 where seq: "getNextSequence m = Some (i, m0)"
    using assms by (auto simp: createContainer_def split: option.splits)
  obtain e ms where st: "ct_Start ch (newContainer i args) (setContainer i (newContainer i args) m0, s) = (e, ms)" by (rule prod.exhaust)
  obtain m2 s2 where ms: "ms = (m2, s2)" by (rule prod.exhaust)
  have r: "r = (case e of None \<Rightarrow> Inr i | Some e \<Rightarrow> Inl e)" and m: "m1 = m2"
    using assms True seq st ms by (auto simp: createContainer_def split: option.splits)
  note tbl = ct_Start_table [OF st [unfolded ms], unfolded ct_id_newContainer, folded m]
  show ?thesis
  proof (rule made [OF seq])
    show "int (length (cm_containers m)) < limit_of k" using True by blast
    show "isl r \<longrightarrow> m1 = unsetContainer i (setContainer i (newContainer i args) m0)" using r tbl by (cases e) simp_all
    show "\<not> isl r \<longrightarrow> r = Inr i \<and> (\<exists>c. ct_id c = i \<and> ct_running c \<and> m1 = updContainer c (setContainer i (newContainer i args) m0))"
      using r tbl by (cases e) simp_all
  qed
qed

lemma fresh_set_unset:
  assumes "i \<notin> fst ` set (cm_containers m)"
  shows "cm_containers (unsetContainer i (setContainer i c m)) = cm_containers m"
proof -
  have "filter (\<lambda>e. fst e \<noteq> i) (cm_containers m) = cm_containers m" using assms by (auto simp: filter_id_conv)
  then show ?thesis by (simp add: unsetContainer_def setContainer_def)
qed

lemma cm_inv_create:
  assumes "cm_inv k m" "createContainer ch k args (m, s) = Some (r, m1, s1)"
  shows "cm_inv k m1"
  using assms(2)
proof (cases rule: createContainer_cases)
  case (made i m0)
  note free = getNextSequence_free [OF made(1)]
  have m0: "cm_inv k m0" using assms(1) free(2) by (simp add: cm_inv_def)
  have "cm_inv k (setContainer i (newContainer i args) m0)"
    using free made(2) by (intro cm_inv_set [OF m0]) (auto simp: free_id_def)
  then show ?thesis using made(3,4) cm_inv_unset cm_inv_upd by (cases "isl r") auto
qed (use assms(1) in simp)

lemma cm_inv_nicAdd: "cm_inv k (fst ms) \<Longrightarrow> cm_inv k (fst (snd (nicAdd ch i n ms)))"
  by (cases ms) (simp add: nicAdd_def Let_def cm_inv_upd split: prod.split option.split)

lemma cm_inv_nicRemove: "cm_inv k (fst ms) \<Longrightarrow> cm_inv k (fst (snd (nicRemove ch i idx ms)))"
  by (cases ms) (simp add: nicRemove_def Let_def cm_inv_upd split: prod.split option.split sum.split)

lemma cm_inv_onStart: "cm_inv k (fst ms) \<Longrightarrow> cm_inv k (fst (onStart ch c pid ms))"
  by (auto simp: onStart_def Let_def intro: cm_inv_upd split: prod.splits)

lemma cm_inv_onExit: "cm_inv k (fst ms) \<Longrightarrow> cm_inv k (fst (onExit ch c ms))"
  by (cases ms) (simp add: onExit_def cleanup_table cm_inv_unset)

lemma cm_reach_inv: "cm_reach ch k ms \<Longrightarrow> cm_inv k (fst ms)"
proof (induction rule: cm_reach.induct)
  case (create ms args r ms1)
  then show ?case by (cases ms; cases ms1) (auto intro: cm_inv_create)
qed (auto simp: cm_inv_def [of _ "\<lparr>cm_sequence = 0, cm_containers = []\<rparr>"]
     intro: cm_inv_nicAdd cm_inv_nicRemove cm_inv_onStart cm_inv_onExit)

lemma validate_nics_append:
  "validate_nics ch (xs @ ys) br s = None \<Longrightarrow> \<exists>br'. validate_nics ch ys br' s = None"
  by (induction xs arbitrary: br) (auto split: if_splits sum.splits)

text \<open>Two devices on the same bridge never pass.\<close>

lemma validate_twice:
  assumes "nic_Type a \<in> {''default'', ''bridge''}" "nic_Type b = nic_Type a" "nic_ID b = nic_ID a"
    and "nic_State a \<noteq> NicStateDestroyed" "nic_State b \<noteq> NicStateDestroyed"
  shows "validate_nics ch (xs @ [a, b]) br s \<noteq> None"
proof
  assume "validate_nics ch (xs @ [a, b]) br s = None"
  then obtain br' where "validate_nics ch [a, b] br' s = None" using validate_nics_append by blast
  then show False using assms by (auto simp: validate_nic_def split: if_splits)
qed

lemma Args_Validate_nics: "validate_nics ch (cc_Nics a) (\<lambda>_. 0) s \<noteq> None \<Longrightarrow> Args_Validate ch a s \<noteq> None"
  by (auto simp: Args_Validate_def split: option.splits)

lemma Of_upd: "Of i m = Some c \<Longrightarrow> ct_id c1 = i \<Longrightarrow> Of i (updContainer c1 m) = Some c1"
proof -
  have "map_of xs i = Some c \<Longrightarrow> map_of (map (\<lambda>e. if fst e = i then (i, c1) else e) xs) i = Some c1" for xs
    by (induction xs) (auto split: if_splits)
  then show "Of i m = Some c \<Longrightarrow> ct_id c1 = i \<Longrightarrow> ?thesis" by (auto simp: Of_def updContainer_def)
qed

lemma cc_set_nics [simp]: "cc_Nics (ct_Args (set_nics ns c)) = ns" "cc_HostNetwork (ct_Args (set_nics ns c)) = cc_HostNetwork (ct_Args c)"
  by (simp_all add: set_nics_def)

lemma set_nics_twice [simp]: "set_nics a (set_nics b c) = set_nics a c"
  by (simp add: set_nics_def)

lemma remember_link_simps [simp]:
  "nic_Type (remember_link ch n s) = nic_Type n" "nic_ID (remember_link ch n s) = nic_ID n"
  by (simp_all add: remember_link_def split: sum.splits)

lemma preStartNetwork_nic:
  "preStartNetwork ch m c idx n s = (e, n1, s1) \<Longrightarrow> nic_Type n1 = nic_Type n \<and> nic_ID n1 = nic_ID n \<and>
     nic_State n1 = (if e = None then NicStateUnknown else NicStateError)"
  by (auto simp: preStartNetwork_def Let_def split: prod.splits sum.splits if_splits)

lemma zerotier_cli_host: "zerotier_cli ch c verb n s = (e, c1, s1) \<Longrightarrow> cc_HostNetwork (ct_Args c1) = cc_HostNetwork (ct_Args c)"
  by (auto simp: zerotier_cli_def zerotierDaemon_def Let_def split: prod.splits option.splits sum.splits if_splits)

lemma postStartNetwork_nic:
  "postStartNetwork ch c idx n s = (e, n1, c1, s1) \<Longrightarrow> nic_Type n1 = nic_Type n \<and> nic_ID n1 = nic_ID n \<and>
     nic_State n1 = (if e = None then NicStateConfigured else NicStateError) \<and>
     cc_HostNetwork (ct_Args c1) = cc_HostNetwork (ct_Args c)"
  by (auto simp: postStartNetwork_def joinZerotierNetwork_def dest: zerotier_cli_host split: prod.splits sum.splits if_splits)

text \<open>A device whose set-up failed stays in the list of the container, in the error state.\<close>

lemma nicAdd_failed:
  assumes "nicAdd ch i n (m, s) = (Some e, m1, s1)" "Of i m = Some c" "ct_id c = i" "\<not> cc_HostNetwork (ct_Args c)"
    and "Args_Validate ch (ct_Args (set_nics (cc_Nics (ct_Args c) @ [n\<lparr>nic_State := NicStateUnknown\<rparr>]) c)) s = None"
  obtains c1 n1 where "Of i m1 = Some c1" "cc_Nics (ct_Args c1) = cc_Nics (ct_Args c) @ [n1]" "nic_State n1 = NicStateError"
    "nic_Type n1 = nic_Type n" "nic_ID n1 = nic_ID n" "\<not> cc_HostNetwork (ct_Args c1)"
proof -
  let ?n = "n\<lparr>nic_State := NicStateUnknown\<rparr>" and ?nics = "cc_Nics (ct_Args c)"
  let ?c = "set_nics (?nics @ [?n]) c"
  obtain p n1 s2 where pre: "preStartNetwork ch m ?c (length ?nics) ?n s = (p, n1, s2)" by (cases "preStartNetwork ch m ?c (length ?nics) ?n s") auto
  note n1 = preStartNetwork_nic [OF pre]
  show ?thesis
  proof (cases p)
    case (Some e1)
    then have "m1 = updContainer (set_nics (?nics @ [n1]) c) m" using assms pre by (simp add: nicAdd_def Let_def)
    then show ?thesis using that [of "set_nics (?nics @ [n1]) c" n1] n1 Some assms(2-4) Of_upd [OF assms(2)] by simp
  next
    case None
    obtain q n2 c2 s3 where post: "postStartNetwork ch ?c (length ?nics) n1 s2 = (q, n2, c2, s3)"
      by (cases "postStartNetwork ch ?c (length ?nics) n1 s2") auto
    note n2 = postStartNetwork_nic [OF post] postStartNetwork_id [OF post]
    have "m1 = updContainer (set_nics (?nics @ [n2]) c2) m" "q = Some e"
      using assms pre post None by (simp_all add: nicAdd_def Let_def)
    then show ?thesis using that [of "set_nics (?nics @ [n2]) c2" n2] n1 n2 assms(2-4) Of_upd [OF assms(2)] by simp
  qed
qed

section \<open>Properties\<close>


text \<open>
  C15. Creating a container is all or nothing for the table: an error leaves the containers as they were, success adds exactly
  one, running, under an identifier that was free, and changes no other.  It returns unless every identifier is taken, which a limit
  below 65535 rules out.
\<close>

theorem container_created:
  assumes "cm_reach ch maxCount (m, s)"
  shows "(\<forall>e m1 s1. createContainer ch maxCount args (m, s) = Some (Inl e, m1, s1) \<longrightarrow> cm_containers m1 = cm_containers m) \<and>
    (\<forall>i m1 s1. createContainer ch maxCount args (m, s) = Some (Inr i, m1, s1) \<longrightarrow>
       Of i m = None \<and> (\<exists>c. Of i m1 = Some c \<and> ct_id c = i \<and> ct_running c) \<and> (\<forall>j. j \<noteq> i \<longrightarrow> Of j m1 = Of j m)) \<and>
    (limit_of maxCount \<le> 65534 \<longrightarrow> createContainer ch maxCount args (m, s) \<noteq> None)"
proof (intro conjI allI impI)
  fix e m1 s1
  assume "createContainer ch maxCount args (m, s) = Some (Inl e, m1, s1)"
  then show "cm_containers m1 = cm_containers m"
  proof (cases rule: createContainer_cases)
    case (made i m0)
    then show ?thesis
      using getNextSequence_free [OF made(1)] fresh_set_unset [of i m0 "newContainer i args"] by (simp add: free_id_def)
  qed simp
next
  fix i m1 s1
  assume "createContainer ch maxCount args (m, s) = Some (Inr i, m1, s1)"
  then have "Of i m = None \<and> (\<exists>c. Of i m1 = Some c \<and> ct_id c = i \<and> ct_running c) \<and> (\<forall>j. j \<noteq> i \<longrightarrow> Of j m1 = Of j m)"
  proof (cases rule: createContainer_cases)
    case (made k m0)
    then have k: "k = i" by simp
    obtain c where c: "ct_id c = i" "ct_running c" "m1 = updContainer c (setContainer i (newContainer i args) m0)"
      using made(4) k by auto
    have fresh: "i \<notin> fst ` set (cm_containers m)" "cm_containers m0 = cm_containers m"
      using getNextSequence_free [OF made(1)] k by (simp_all add: free_id_def)
    then have none: "Of i m = None" by (simp add: Of_def map_of_eq_None_iff)
    have "filter (\<lambda>e. fst e \<noteq> i) (cm_containers m) = cm_containers m"
      "map (\<lambda>e. if fst e = i then (i, c) else e) (cm_containers m) = cm_containers m"
      using fresh(1) by (force simp: filter_id_conv intro!: map_idI)+
    then have m1: "cm_containers m1 = cm_containers m @ [(i, c)]"
      using fresh(2) unfolding c(3) updContainer_def setContainer_def c(1) by simp
    show ?thesis using none m1 c(1,2) by (auto simp: Of_def map_add_def split: option.splits)
  qed simp
  then show "Of i m = None" "\<exists>c. Of i m1 = Some c \<and> ct_id c = i \<and> ct_running c" "j \<noteq> i \<Longrightarrow> Of j m1 = Of j m" for j by blast+
next
  assume "limit_of maxCount \<le> 65534"
  show "createContainer ch maxCount args (m, s) \<noteq> None"
  proof (cases "int (length (cm_containers m)) < limit_of maxCount")
    case True
    have "card (set (map fst (cm_containers m))) \<le> length (map fst (cm_containers m))" by (rule card_length)
    then have "\<exists>v. free_id (set (map fst (cm_containers m))) v"
      using True \<open>limit_of maxCount \<le> 65534\<close> by (intro few_ids_free) auto
    then have "getNextSequence m \<noteq> None" using next_sequence_total by (auto simp: getNextSequence_def)
    then show ?thesis by (auto simp: createContainer_def Let_def split: option.splits prod.splits)
  qed (auto simp: createContainer_def split: option.splits)
qed

text \<open>
  A device that could not be set up is there to stay: when adding it fails on the machine, it remains in the list in the error state, it
  cannot be removed, and every further attempt to connect the container to the same bridge is refused, whatever was repaired on the machine.
\<close>

theorem failed_nic_stuck:
  assumes "nicAdd ch i n (m, s) = (Some e, m1, s1)" "Of i m = Some c" "ct_id c = i" "\<not> cc_HostNetwork (ct_Args c)"
    and "Args_Validate ch (ct_Args (set_nics (cc_Nics (ct_Args c) @ [n\<lparr>nic_State := NicStateUnknown\<rparr>]) c)) s = None"
    and "nic_Type n \<in> {''default'', ''bridge''}"
  shows "nicRemove ch i (int (length (cc_Nics (ct_Args c)))) (m1, s2) =
      (Some (GoErr (PreconditionFailedError ''nic is in error state'')), m1, s2) \<and>
    (\<exists>e2. nicAdd ch i n (m1, s2) = (Some (GoErr (BadRequestError e2)), m1, s2))"
proof -
  obtain c1 n1 where c1: "Of i m1 = Some c1" "cc_Nics (ct_Args c1) = cc_Nics (ct_Args c) @ [n1]" "nic_State n1 = NicStateError"
    "nic_Type n1 = nic_Type n" "nic_ID n1 = nic_ID n" "\<not> cc_HostNetwork (ct_Args c1)"
    using nicAdd_failed [OF assms(1-5)] by blast
  let ?n = "n\<lparr>nic_State := NicStateUnknown\<rparr>"
  have "validate_nics ch (cc_Nics (ct_Args c) @ [n1, ?n]) (\<lambda>_. 0) s2 \<noteq> None"
    using assms(6) c1 by (intro validate_twice) (auto simp: NicStateError_def NicStateUnknown_def NicStateDestroyed_def)
  then have "Args_Validate ch (ct_Args (set_nics (cc_Nics (ct_Args c1) @ [?n]) c1)) s2 \<noteq> None"
    using c1(2) by (intro Args_Validate_nics) simp
  then have "\<exists>e2. nicAdd ch i n (m1, s2) = (Some (GoErr (BadRequestError e2)), m1, s2)"
    using c1(1,6) by (auto simp: nicAdd_def Let_def)
  moreover have "nicRemove ch i (int (length (cc_Nics (ct_Args c)))) (m1, s2) =
      (Some (GoErr (PreconditionFailedError ''nic is in error state'')), m1, s2)"
    using c1(1-3) by (simp add: nicRemove_def Let_def NicStateError_def NicStateConfigured_def)
  ultimately show ?thesis by blast
qed

text \<open>
  A client decides what is checked: devices that it declares destroyed are skipped by the checks, but they are set up when the container
  starts like all others, so that two devices on the default bridge get through.
\<close>

theorem destroyed_nics_unchecked:
  "Args_Validate ch args s = Args_Validate ch (args\<lparr>cc_Nics := filter (\<lambda>n. nic_State n \<noteq> NicStateDestroyed) (cc_Nics args)\<rparr>) s \<and>
   (case preStart_nics ch m c idx ns s1 of (e, _, s2) \<Rightarrow> (e, s2)) =
   (case preStart_nics ch m c idx (map (\<lambda>n. n\<lparr>nic_State := st\<rparr>) ns) s1 of (e, _, s2) \<Rightarrow> (e, s2))"
proof
  have nics: "validate_nics ch (filter (\<lambda>n. nic_State n \<noteq> NicStateDestroyed) ns) br s = validate_nics ch ns br s" for ns br
    by (induction ns arbitrary: br) (auto split: sum.splits)
  have names: "validate_names (filter (\<lambda>n. nic_State n \<noteq> NicStateDestroyed) ns) names = validate_names ns names" for ns names
    by (induction ns arbitrary: names) auto
  show "Args_Validate ch args s =
      Args_Validate ch (args\<lparr>cc_Nics := filter (\<lambda>n. nic_State n \<noteq> NicStateDestroyed) (cc_Nics args)\<rparr>) s"
    by (simp add: Args_Validate_def nics names split: option.split)
next
  have rem: "remember_link ch (n\<lparr>nic_State := st\<rparr>) s = (remember_link ch n s)\<lparr>nic_State := st\<rparr>" for n s
    by (simp add: remember_link_def split: sum.split)
  have pre: "pre_network ch m c k (n\<lparr>nic_State := st\<rparr>) = pre_network ch m c k n" for n k
    by (cases n) (simp only: pre_network_def preVxlanNetwork_def preVlanNetwork_def via_ovs_def preMacVlanNetwork_def
        prePassthroughNetwork_def nic.update_convs nic.select_convs)
  have one: "preStartNetwork ch m c k (n\<lparr>nic_State := st\<rparr>) s = preStartNetwork ch m c k n s" for n k s
    by (simp add: preStartNetwork_def Let_def rem pre split: prod.split sum.split)
  show "(case preStart_nics ch m c idx ns s1 of (e, _, s2) \<Rightarrow> (e, s2)) =
      (case preStart_nics ch m c idx (map (\<lambda>n. n\<lparr>nic_State := st\<rparr>) ns) s1 of (e, _, s2) \<Rightarrow> (e, s2))"
    by (induction ns arbitrary: idx s1) (fastforce simp: one split: prod.splits option.splits)+
qed

section \<open>Examples\<close>

text \<open>A machine without devices on which every call succeeds.\<close>

definition quietNet :: "'s netlink" where
  "quietNet =
     \<lparr>nl_LinkByName = (\<lambda>_ _. Inl (Errorf ''Link not found'')), nl_LinkByIndex = (\<lambda>_ _. Inl (Errorf ''Link not found'')),
      nl_LinkList = (\<lambda>_. Inr []), nl_AddrList = (\<lambda>_ _. Inr []), nl_LinkAdd = (\<lambda>_ s. (None, s)), nl_LinkDel = (\<lambda>_ s. (None, s)),
      nl_LinkSetMaster = (\<lambda>_ _ s. (None, s)), nl_LinkSetNoMaster = (\<lambda>_ s. (None, s)), nl_LinkSetHardwareAddr = (\<lambda>_ _ s. (None, s)),
      nl_LinkSetNsPid = (\<lambda>_ _ s. (None, s)), nl_LinkSetUp = (\<lambda>_ s. (None, s)), nl_LinkSetDown = (\<lambda>_ s. (None, s)),
      nl_LinkSetName = (\<lambda>_ _ s. (None, s)), nl_AddrAdd = (\<lambda>_ _ s. (None, s))\<rparr>"

definition quietHost :: "unit host" where
  "quietHost =
     \<lparr>h_System = (\<lambda>_ w. ((NewJobResult (sampleJob [] []), None), w)), h_TempFile = (\<lambda>w. (Inr ''/tmp/x'', w)),
      h_Write = (\<lambda>_ _ w. (None, w)), h_RemoveAll = (\<lambda>_ w. w), h_unjson = (\<lambda>_. None)\<rparr>"

definition quietRedis :: "'r redis" where
  "quietRedis =
     \<lparr>rd_RPUSH = (\<lambda>_ _ r. (Inr 1, r)), rd_LTRIM = (\<lambda>_ _ _ r. (None, r)), rd_GET = (\<lambda>_ r. (Inr None, r)), rd_SET = (\<lambda>_ _ r. (None, r)),
      rd_DEL = (\<lambda>_ r. (Inr 0, r)), rd_EXPIRE = (\<lambda>_ _ r. (Inr 1, r)), rd_EXISTS = (\<lambda>_ r. (Inr 0, r)), rd_BLPOP = (\<lambda>_ _ r. (Inr None, r)),
      rd_BRPOPLPUSH = (\<lambda>_ _ _ r. (Inr None, r)), rd_enc = (\<lambda>_. []), rd_dec = (\<lambda>_. None)\<rparr>"

definition quietCgroups :: "'w cg_fs" where
  "quietCgroups =
     \<lparr>fs_Stat = (\<lambda>_ _. Some True), fs_Mkdir = (\<lambda>_ w. (None, w)), fs_Remove = (\<lambda>_ w. (None, w)), fs_ReadDir = (\<lambda>_ _. Inr []),
      fs_ReadFile = (\<lambda>_ _. Inr []), fs_WriteFile = (\<lambda>_ _ w. (None, w))\<rparr>"

definition quietChost :: "(unit, unit) chost" where
  "quietChost =
     \<lparr>ch_host = quietHost, ch_cache = \<lparr>c_Get = (\<lambda>_ _. False), c_Set = (\<lambda>_ c. c), c_Delete = (\<lambda>_ c. c)\<rparr>, ch_net = quietNet,
      ch_redis = quietRedis, ch_cgroups = quietCgroups, ch_urlParse = (\<lambda>u. Inr ([], u)), ch_Stat = (\<lambda>_ _. IsDir), ch_uuid = (\<lambda>s. (''u'', s)),
      ch_send = (\<lambda>_ _ s. (True, s)), ch_ReadFile = (\<lambda>_ _. Inr []), ch_WriteFile = (\<lambda>_ _ s. (None, s)), ch_Append = (\<lambda>_ _ s. (None, s)),
      ch_Create = (\<lambda>_ s. (None, s)), ch_MkdirAll = (\<lambda>_ s. (None, s)), ch_RemoveAll = (\<lambda>_ s. (None, s)), ch_Mount = (\<lambda>_ _ s. (None, s)),
      ch_Unmount = (\<lambda>_ s. (None, s)), ch_LookPath = (\<lambda>_ _. Inr ''/sbin/coreX''), ch_Partitions = (\<lambda>_. Inr []),
      ch_MountFList = (\<lambda>_ _ _ _ s. (None, s)), ch_storage = ''zdb://hub.grid.tf:9900'', ch_RunSystem = (\<lambda>_ s. (None, s)),
      ch_RunContainer = (\<lambda>_ _ s. (None, s)), ch_Kill = (\<lambda>_ s. (None, s)), ch_Signal = (\<lambda>_ _ s. s), ch_startZerotier = (\<lambda>_ s. (None, s)),
      ch_sleep = (\<lambda>s. s)\<rparr>"

definition plainArgs :: create_args where
  "plainArgs =
     \<lparr>cc_Root = ''ubuntu.flist'', cc_Mount = [], cc_HostNetwork = False, cc_Identity = [], cc_Nics = [], cc_Port = [], cc_Privileged = False,
      cc_Hostname = ''db'', cc_Storage = [], cc_Name = ''db'', cc_Tags = [], cc_Env = [], cc_CGroups = [], cc_Config = []\<rparr>"

definition bridgeNic :: nic where
  "bridgeNic =
     \<lparr>nic_Type = ''bridge'', nic_ID = ''br0'', nic_HWAddress = [], nic_Name = [],
      nic_Config = \<lparr>nc_Dhcp = False, nc_CIDR = [], nc_Gateway = [], nc_DNS = []\<rparr>, nic_Monitor = False, nic_State = [], nic_Index = 0,
      nic_OriginalHW = []\<rparr>"

definition emptyTable :: container_mgr where
  "emptyTable = \<lparr>cm_sequence = 0, cm_containers = []\<rparr>"

lemma plain_valid: "Args_Validate quietChost plainArgs s = None"
  by (simp add: Args_Validate_def plainArgs_def validate_cgroups_def)

lemma first_sequence: "getNextSequence emptyTable = Some (1, emptyTable\<lparr>cm_sequence := 1\<rparr>)"
proof -
  have "next_sequence 65536 {} 0 = Some 1" using next_sequence.simps(2) [of 65535 "{}" 0] by simp
  then show ?thesis by (simp add: getNextSequence_def emptyTable_def del: next_sequence.simps)
qed

lemma quiet_Start: "ct_Start quietChost (newContainer 1 plainArgs) (m, s) =
  (None, updContainer ((newContainer 1 plainArgs)\<lparr>ct_running := True, ct_Args := plainArgs\<lparr>cc_Storage := ''zdb://hub.grid.tf:9900''\<rparr>\<rparr>) m, s)"
  by (simp add: ct_Start_def sandbox_def sandbox_backend_def mountFList_def flistConfigOverride_def storage_of_def newContainer_def Let_def plainArgs_def
      quietChost_def andThen_def ignore_def call_def wrapErr_def wrapped_def plainly_def ask_def ret_def preStart_def preStartIsolatedNetworking_def
      set_nics_def backend_fs_def getFSType_def)

lemma quiet_create:
  "\<exists>m. createContainer quietChost 0 plainArgs (emptyTable, s) = Some (Inr 1, m, s) \<and> map fst (cm_containers m) = [1]"
proof -
  let ?m = "setContainer 1 (newContainer 1 plainArgs) (emptyTable\<lparr>cm_sequence := 1\<rparr>)"
  let ?c = "(newContainer 1 plainArgs)\<lparr>ct_running := True, ct_Args := plainArgs\<lparr>cc_Storage := ''zdb://hub.grid.tf:9900''\<rparr>\<rparr>"
  have "map fst (cm_containers (updContainer ?c ?m)) = [1]" unfolding ids_updContainer ids_set by (simp add: emptyTable_def)
  moreover have "cm_containers emptyTable = []" by (simp add: emptyTable_def)
  then have "createContainer quietChost 0 plainArgs (emptyTable, s) = Some (Inr 1, updContainer ?c ?m, s)"
    by (simp add: createContainer_def limit_of_def ContainersHardLimit_def plain_valid first_sequence quiet_Start Let_def)
  ultimately show ?thesis by (intro exI conjI)
qed


theorem container_created_witness:
  "\<exists>m s c. createContainer quietChost 0 plainArgs (emptyTable, ((), ())) = Some (Inr 1, m, s) \<and> Of 1 m = Some c \<and> ct_running c"
proof -
  obtain m s where m: "createContainer quietChost 0 plainArgs (emptyTable, ((), ())) = Some (Inr 1, m, s)" using quiet_create [of "((), ())"] by (elim exE conjE)
  have "cm_reach quietChost 0 (emptyTable, ((), ()))" by (simp add: emptyTable_def cm_reach.boot)
  then have "\<exists>c. Of 1 m = Some c \<and> ct_id c = 1 \<and> ct_running c" using container_created m by metis
  then show ?thesis using m by (elim exE conjE) (intro exI conjI)
qed

definition oneContainer :: container_mgr where
  "oneContainer = \<lparr>cm_sequence = 1, cm_containers = [(1, newContainer 1 plainArgs)]\<rparr>"

theorem failed_nic_stuck_witness:
  "\<exists>e m. nicAdd quietChost 1 bridgeNic (oneContainer, ((), ())) = (Some e, m, ((), ())) \<and>
     nicRemove quietChost 1 0 (m, ((), ())) = (Some (GoErr (PreconditionFailedError ''nic is in error state'')), m, ((), ()))"
proof -
  let ?c = "newContainer 1 plainArgs" and ?n = "bridgeNic\<lparr>nic_State := NicStateUnknown\<rparr>"
  have of: "Of 1 oneContainer = Some ?c" by (simp add: Of_def oneContainer_def)
  have c: "ct_id ?c = 1" "\<not> cc_HostNetwork (ct_Args ?c)" "cc_Nics (ct_Args ?c) = []" by (simp_all add: newContainer_def Let_def plainArgs_def)
  have v: "Args_Validate quietChost (ct_Args (set_nics (cc_Nics (ct_Args ?c) @ [?n]) ?c)) ((), ()) = None"
    by (simp add: Args_Validate_def newContainer_def Let_def plainArgs_def set_nics_def validate_cgroups_def validate_nic_def bridgeNic_def
        NicStateUnknown_def NicStateDestroyed_def DefaultBridgeName_def)
  obtain e m where add: "nicAdd quietChost 1 bridgeNic (oneContainer, ((), ())) = (Some e, m, ((), ()))"
    using of c v
    by (simp add: nicAdd_def Let_def preStartNetwork_def pre_network_def preBridge_def bridgeNic_def quietChost_def quietNet_def andThen_def
        wrapErr_def ask_def)
  show ?thesis
    using add failed_nic_stuck [OF add of c(1,2) v, of "((), ())"] c(3) by (auto simp: bridgeNic_def)
qed
end
