(* ===== verification/Container_Paths.thy ===== *)
theory Container_Paths
  imports Container_Life
begin

text \<open>
  The paths the container manager builds below the root of a container, and the order in which its mounts are taken down.
\<close>


section \<open>Paths\<close>

lemma clean_elems_append: "clean_elems out (xs @ ys) = clean_elems (rev (clean_elems out xs)) ys"
  by (induction out xs rule: clean_elems.induct) simp_all

lemma split_append: "split c (p @ c # s) = split c p @ split c s"
  by (induction p) (auto split: list.splits)

lemma split_itoa: "split (CHR ''/'') (itoa n) = [itoa n]"
  using itoa_digits [of n] by (intro split_no_sep) (auto simp: list_all_iff isDigit_def)

lemma itoa_clean: "clean_elem (itoa n)"
  using itoa_digits [of n] by (auto simp: clean_elem_def list_all_iff isDigit_def)

lemma clean_itoa: "clean_elems out [itoa n] = rev out @ [itoa n]"
  using clean_elems_id [of "[itoa n]" out] itoa_clean [of n] by simp

definition root_elems :: "container \<Rightarrow> string list" where
  "root_elems c = [''mnt'', ''containers'', ct_name c]"

lemma join_base: "join ''/'' [a, b, c] = a @ ''/'' @ b @ ''/'' @ c"
  by simp

lemma split_base: "split (CHR ''/'') (''/mnt/containers/'' @ s) = [[], ''mnt'', ''containers''] @ split (CHR ''/'') s"
  by simp

lemma ct_root_eq: "ct_root c = ''/mnt/containers/'' @ ct_name c"
proof -
  have "path_clean_rooted (''/mnt/containers/'' @ itoa n) = ''/mnt/containers/'' @ itoa n" for n
    unfolding path_clean_rooted_def split_base split_itoa clean_elems_append clean_itoa by simp
  then show ?thesis by (simp add: ct_root_def path_join_def ContainerBaseRootDir_def ct_name_def)
qed

lemma below_root:
  "path_join [ct_root c, q] = ''/'' @ join ''/'' (clean_elems (rev (root_elems c)) (if q = [] then [] else split (CHR ''/'') q))"
proof -
  have nq: "ct_root c \<noteq> []" by (simp add: ct_root_eq)
  let ?b = "[[], ''mnt'', ''containers''] @ [ct_name c]"
  have e: "clean_elems [] ?b = root_elems c"
    unfolding clean_elems_append ct_name_def clean_itoa by (simp add: root_elems_def ct_name_def)
  have "split (CHR ''/'') (ct_root c @ ''/'' @ q) = ?b @ split (CHR ''/'') q"
    using split_append [of "CHR ''/''" "ct_root c" q] split_base [of "ct_name c"] by (simp add: ct_root_eq ct_name_def split_itoa)
  moreover have "split (CHR ''/'') (ct_root c) = ?b"
    using split_base [of "ct_name c"] by (simp add: ct_root_eq ct_name_def split_itoa)
  moreover have "clean_elems [] (?b @ split (CHR ''/'') q) = clean_elems (rev (root_elems c)) (split (CHR ''/'') q)"
    by (simp only: clean_elems_append [of "[]" ?b "split (CHR ''/'') q"] e)
  ultimately show ?thesis
    using nq e by (simp add: path_join_def path_clean_rooted_def)
qed

lemma join_append: "xs \<noteq> [] \<Longrightarrow> ys \<noteq> [] \<Longrightarrow> join sep (xs @ ys) = join sep xs @ sep @ join sep ys"
proof (induction xs)
  case (Cons x xs)
  then show ?case by (cases xs) (simp_all add: join_Cons)
qed simp

text \<open>
  Files a container image is configured with stay inside the root of the container, whatever their names; the target of a
  mount does not: an absolute guest path can put it over the root of any other container.
\<close>

theorem config_confined:
  "(flist_path (ct_root c) name = ct_root c \<or> hasPrefix (flist_path (ct_root c) name) (ct_root c @ ''/'')) \<and>
   (\<exists>dst. isAbs dst \<and> mount_target c dst = ct_root d)"
proof
  let ?es = "clean_elems [] (split (CHR ''/'') name)"
  have clean: "\<forall>e \<in> set ?es. clean_elem e" by (rule clean_elems_clean)
  have sn: "SafeNormalize name = ''/'' @ join ''/'' ?es" by (rule SafeNormalize_elems)
  have "clean_elems (rev (root_elems c)) (split (CHR ''/'') (SafeNormalize name)) = root_elems c @ ?es"
  proof (cases "?es = []")
    case True
    then show ?thesis unfolding sn by (simp add: root_elems_def)
  next
    case False
    then have "split (CHR ''/'') (join ''/'' ?es) = ?es" using clean by (intro split_join) (auto simp: clean_elem_def)
    then show ?thesis unfolding sn using clean_elems_id [OF clean] by simp
  qed
  moreover have "SafeNormalize name \<noteq> []" by (simp add: sn)
  ultimately have p: "flist_path (ct_root c) name = ''/'' @ join ''/'' (root_elems c @ ?es)"
    by (simp add: flist_path_def below_root)
  have r: "ct_root c = ''/'' @ join ''/'' (root_elems c)" by (simp add: ct_root_eq root_elems_def)
  show "flist_path (ct_root c) name = ct_root c \<or> hasPrefix (flist_path (ct_root c) name) (ct_root c @ ''/'')"
  proof (cases "?es = []")
    case False
    then have "join ''/'' (root_elems c @ ?es) = join ''/'' (root_elems c) @ ''/'' @ join ''/'' ?es"
      by (intro join_append) (simp_all add: root_elems_def)
    then have "flist_path (ct_root c) name = (ct_root c @ ''/'') @ join ''/'' ?es" using p r by simp
    then show ?thesis using hasPrefix_append by metis
  qed (use p r in simp)
next
  have "mount_target c (''/../'' @ ct_name d) = ct_root d"
    unfolding mount_target_def below_root by (simp add: ct_name_def split_itoa root_elems_def ct_root_eq itoa_clean [unfolded clean_elem_def])
  moreover have "isAbs (''/../'' @ ct_name d)" by (simp add: isAbs_def)
  ultimately show "\<exists>dst. isAbs dst \<and> mount_target c dst = ct_root d" by blast
qed

section \<open>Unmounting\<close>

lemma depth_append: "depth (p @ q) = depth p + depth q"
  by (simp add: depth_def)

text \<open>
  The mounts of a container are taken down from the inside: the mount points that are taken are those at its root and
  below, no matter which containers have a number that starts alike, and none is taken before one below it.
\<close>

theorem unmount_order:
  assumes "ts = mount_targets rt mnts"
  shows "set ts = {t. (t = rt \<or> hasPrefix t (rt @ ''/'')) \<and>
           (\<exists>line \<in> set (split (CHR 0x0A) mnts). length (Fields line) \<ge> 2 \<and> t = Fields line ! 1)} \<and>
         (\<forall>i j. i < j \<and> j < length ts \<longrightarrow> \<not> hasPrefix (ts ! j) (ts ! i @ ''/''))"
proof
  show "set ts = {t. (t = rt \<or> hasPrefix t (rt @ ''/'')) \<and>
           (\<exists>line \<in> set (split (CHR 0x0A) mnts). length (Fields line) \<ge> 2 \<and> t = Fields line ! 1)}"
    unfolding assms mount_targets_def by (auto simp: not_less)
  have "sorted (map (\<lambda>t. - int (depth t)) ts)" unfolding assms mount_targets_def by simp
  then have mono: "depth (ts ! j) \<le> depth (ts ! i)" if "i < j" "j < length ts" for i j
    using that sorted_nth_mono [of "map (\<lambda>t. - int (depth t)) ts" i j] by simp
  have deeper: "depth p < depth q" if "hasPrefix q (p @ ''/'')" for p q
    using that by (auto simp: hasPrefix_iff depth_append) (simp add: depth_def)
  show "\<forall>i j. i < j \<and> j < length ts \<longrightarrow> \<not> hasPrefix (ts ! j) (ts ! i @ ''/'')"
    using mono deeper by (meson leD)
qed

definition sampleMounts :: string where
  "sampleMounts = ''/dev/a /m/1 btrfs rw'' @ [CHR 0x0A] @ ''tmpfs /m/1/proc tmpfs rw'' @ [CHR 0x0A] @ ''/dev/b /m/12 btrfs rw''"

theorem unmount_order_witness:
  "mount_targets ''/m/1'' sampleMounts = [''/m/1/proc'', ''/m/1''] \<and>
   \<not> hasPrefix (mount_targets ''/m/1'' sampleMounts ! 1) (mount_targets ''/m/1'' sampleMounts ! 0 @ ''/'')"
proof
  show e: "mount_targets ''/m/1'' sampleMounts = [''/m/1/proc'', ''/m/1'']" by code_simp
  show "\<not> hasPrefix (mount_targets ''/m/1'' sampleMounts ! 1) (mount_targets ''/m/1'' sampleMounts ! 0 @ ''/'')"
    using unmount_order [OF refl, of "''/m/1''" sampleMounts] e by simp
qed

end
