(* ===== verification/Bridges.thy ===== *)
theory Bridges
  imports Netlink Nft_Manager Transport Cgroups
begin

text \<open>
  \<^verbatim>\<open>apps/core0/builtin/bridge.go\<close>: the commands that create and delete bridges, give them a network, translate their
  addresses and put devices into them.  The devices, the program \<^verbatim>\<open>nft\<close>, the files and the process manager belong to a world
  \<open>'w\<close>.  Addresses are those of IPv4: in Go an address of another family never lies in a network of this one.
\<close>

section \<open>Data\<close>

record 'w bhost =
  bh_nft :: "'w host"
  bh_net :: "'w netlink"
  bh_RemoveAll :: "string \<Rightarrow> 'w \<Rightarrow> go_error option \<times> 'w"
  bh_MkdirAll :: "string \<Rightarrow> 'w \<Rightarrow> go_error option \<times> 'w"
  bh_WriteFile :: "string \<Rightarrow> string \<Rightarrow> 'w \<Rightarrow> go_error option \<times> 'w"
  bh_Run :: "string \<Rightarrow> system_args \<Rightarrow> job_flags \<Rightarrow> 'w \<Rightarrow> go_error option \<times> 'w"
  bh_Kill :: "string \<Rightarrow> 'w \<Rightarrow> go_error option \<times> 'w"
  bh_JobOf :: "string \<Rightarrow> 'w \<Rightarrow> bool"
  bh_Signal :: "string \<Rightarrow> int \<Rightarrow> 'w \<Rightarrow> go_error option \<times> 'w"

datatype br_error = BrErr go_error | BrNft nft_error

type_synonym ('a, 'w) beff = "(br_error, 'a, 'w) eff"

record bridge_network =
  bn_Mode :: string
  bn_Nat :: bool
  bn_Settings :: "json option"

record bridge_args =
  ba_Name :: string
  ba_HwAddress :: string
  ba_Network :: bridge_network

record dnsmasq_settings =
  dm_CIDR :: string
  dm_Start :: "ip4 option"
  dm_End :: "ip4 option"

definition NoneBridgeNetworkMode :: string where "NoneBridgeNetworkMode = []"
definition DnsMasqBridgeNetworkMode :: string where "DnsMasqBridgeNetworkMode = ''dnsmasq''"
definition StaticBridgeNetworkMode :: string where "StaticBridgeNetworkMode = ''static''"

definition bridge_network_of :: "(string \<times> json) list \<Rightarrow> bridge_network option" where
  "bridge_network_of es =
     (case (field_string ''mode'' es, field_bool ''nat'' es) of
        (Some m, Some n) \<Rightarrow> Some \<lparr>bn_Mode = m, bn_Nat = n, bn_Settings = field_raw ''settings'' es\<rparr>
      | _ \<Rightarrow> None)"

definition bridge_args_of :: "json \<Rightarrow> bridge_args option" where
  "bridge_args_of j =
     (case objectOf j of
        None \<Rightarrow> None
      | Some es \<Rightarrow>
          (case (field_string ''name'' es, field_string ''hwaddr'' es, Option.bind (field_struct ''network'' es) bridge_network_of) of
             (Some n, Some h, Some net) \<Rightarrow> Some \<lparr>ba_Name = n, ba_HwAddress = h, ba_Network = net\<rparr>
           | _ \<Rightarrow> None))"

text \<open>The settings of a network; absent ones do not decode.\<close>

definition static_settings_of :: "json option \<Rightarrow> string option" where
  "static_settings_of j = Option.bind (Option.bind j objectOf) (field_string ''cidr'')"

definition dnsmasq_settings_of :: "json option \<Rightarrow> dnsmasq_settings option" where
  "dnsmasq_settings_of j =
     (case Option.bind j objectOf of
        None \<Rightarrow> None
      | Some es \<Rightarrow>
          (case (field_string ''cidr'' es, field_ip ''start'' es, field_ip ''end'' es) of
             (Some c, Some s, Some e) \<Rightarrow> Some \<lparr>dm_CIDR = c, dm_Start = s, dm_End = e\<rparr>
           | _ \<Rightarrow> None))"

section \<open>Validation\<close>

definition static_Validate :: "string \<Rightarrow> go_error option" where
  "static_Validate cidr =
     (case ParseCIDR cidr of
        None \<Rightarrow> Some (Errorf (''invalid CIDR address: '' @ cidr))
      | Some (ip, network) \<Rightarrow> if net_IP network = ip then Some (Errorf ''Invalid IP'') else None)"

definition in_network :: "ipnet \<Rightarrow> ip4 option \<Rightarrow> bool" where
  "in_network n a = (case a of None \<Rightarrow> False | Some ip \<Rightarrow> net_Contains (net_IP n) (Some (net_Mask n)) ip)"

definition dnsmasq_Validate :: "dnsmasq_settings \<Rightarrow> go_error option" where
  "dnsmasq_Validate n =
     (case ParseCIDR (dm_CIDR n) of
        None \<Rightarrow> Some (Errorf (''invalid CIDR address: '' @ dm_CIDR n))
      | Some (ip, network) \<Rightarrow>
          if net_IP network = ip then Some (Errorf ''Invalid IP'')
          else if \<not> in_network network (dm_Start n) then Some (Errorf ''start ip address out of range'')
          else if \<not> in_network network (dm_End n) then Some (Errorf ''end ip address out of range'')
          else None)"

definition bridge_Validate :: "bridge_args \<Rightarrow> go_error option" where
  "bridge_Validate br =
     (let name = length (ba_Name br)
      in if 1 > name \<or> name > 15 then Some (Errorf ''Bridge name must be between 1 and 15 characters'')
         else if ba_Name br = ''default'' then Some (Errorf (''Bridge name can'' @ [CHR 0x27] @ ''t be '' @ [CHR 0x27] @ ''default'' @ [CHR 0x27]))
         else None)"

section \<open>Overlapping networks\<close>

definition intersect :: "ipnet \<Rightarrow> ipnet \<Rightarrow> bool" where
  "intersect n1 n2 =
     (let ip1 = net_IP n1 AND net_Mask n2;
          ip2 = net_IP n2 AND net_Mask n1
      in net_Contains (net_IP n2) (Some (net_Mask n2)) ip1 \<or> net_Contains (net_IP n1) (Some (net_Mask n1)) ip2)"

definition goCall :: "(go_error, 'a, 'w) eff \<Rightarrow> ('a, 'w) beff" where
  "goCall m = wrapErr BrErr m"

text \<open>The inner loop of \<^verbatim>\<open>conflict\<close>, over the addresses of one device.\<close>

definition conflict_link :: "'w bhost \<Rightarrow> ipnet \<Rightarrow> link \<Rightarrow> (unit, 'w) beff" where
  "conflict_link bh addr l =
     andThen (goCall (ask (nl_AddrList (bh_net bh) l))) (\<lambda>as.
       case find (\<lambda>a. intersect a addr) as of
         None \<Rightarrow> ret ()
       | Some a \<Rightarrow> fail (BrErr (Errorf (''overlapping range with '' @ IPNet_String a @ '' on '' @ lk_Name l))))"

definition conflict :: "'w bhost \<Rightarrow> ipnet \<Rightarrow> (unit, 'w) beff" where
  "conflict bh addr =
     andThen (goCall (ask (nl_LinkList (bh_net bh)))) (\<lambda>links. forEach (conflict_link bh addr) links)"

section \<open>The network of a bridge\<close>

definition dnsmasqPName :: "string \<Rightarrow> string" where
  "dnsmasqPName n = ''dnsmasq-'' @ n"

definition dnsmasqHostsFilePath :: "string \<Rightarrow> string" where
  "dnsmasqHostsFilePath n = ''/var/run/dnsmasq/'' @ dnsmasqPName n"

definition leases_file :: "string \<Rightarrow> string" where
  "leases_file n = ''/var/lib/misc/'' @ n @ ''.leases''"

text \<open>\<^verbatim>\<open>netlink.ParseAddr\<close>: the address itself, with the length of its network.\<close>

definition ParseAddr :: "string \<Rightarrow> ipnet option" where
  "ParseAddr s = map_option (\<lambda>(ip, n). \<lparr>net_IP = ip, net_Len = net_Len n\<rparr>) (ParseCIDR s)"

definition dnsmasq_common :: "string \<Rightarrow> ipnet \<Rightarrow> string list" where
  "dnsmasq_common name addr =
     [''--no-hosts'', ''--keep-in-foreground'', ''--pid-file=/var/run/dnsmasq/'' @ name @ ''.pid'',
      ''--dhcp-leasefile='' @ leases_file name, ''--listen-address='' @ IP_String (net_IP addr), ''--interface='' @ name]"

definition static_args :: "string \<Rightarrow> ipnet \<Rightarrow> string list" where
  "static_args name addr = dnsmasq_common name addr @ [''--bind-interfaces'', ''--except-interface=lo'']"

definition ip_text :: "ip4 option \<Rightarrow> string" where
  "ip_text a = (case a of None \<Rightarrow> ''<nil>'' | Some ip \<Rightarrow> IP_String ip)"

definition dnsmasq_args :: "string \<Rightarrow> ipnet \<Rightarrow> dnsmasq_settings \<Rightarrow> string list" where
  "dnsmasq_args name addr settings =
     dnsmasq_common name addr @
     [''--dhcp-range='' @ ip_text (dm_Start settings) @ '','' @ ip_text (dm_End settings) @ '','' @ IP_String (net_Mask addr),
      ''--dhcp-option=6,'' @ IP_String (net_IP addr), ''--dhcp-hostsfile='' @ dnsmasqHostsFilePath name,
      ''--bind-interfaces'', ''--except-interface=lo'']"

definition run_dnsmasq :: "'w bhost \<Rightarrow> string \<Rightarrow> string list \<Rightarrow> bool \<Rightarrow> (unit, 'w) beff" where
  "run_dnsmasq bh name args quiet =
     goCall (call (bh_Run bh (dnsmasqPName name) \<lparr>sa_Name = ''dnsmasq'', sa_Dir = [], sa_Args = args, sa_Env = [], sa_StdIn = []\<rparr>
       \<lparr>Protected = False, NoOutput = quiet, NoSetPGID = False\<rparr>))"

text \<open>What both kinds of network do with a checked address: refuse an overlap, then give it to the bridge.\<close>

definition claim_addr :: "'w bhost \<Rightarrow> string \<Rightarrow> string \<Rightarrow> (ipnet, 'w) beff" where
  "claim_addr bh name cidr =
     (case ParseAddr cidr of
        None \<Rightarrow> fail (BrErr (Errorf (''invalid CIDR address: '' @ cidr)))
      | Some addr \<Rightarrow>
          andThen (conflict bh addr) (\<lambda>_.
          andThen (goCall (call (nl_AddrAdd (bh_net bh) (ByName name) addr))) (\<lambda>_. ret addr)))"

definition bridgeStaticNetworking :: "'w bhost \<Rightarrow> string \<Rightarrow> bridge_network \<Rightarrow> (ipnet, 'w) beff" where
  "bridgeStaticNetworking bh name network =
     (case static_settings_of (bn_Settings network) of
        None \<Rightarrow> fail (BrErr (Errorf ''json''))
      | Some cidr \<Rightarrow>
          (case static_Validate cidr of
             Some e \<Rightarrow> fail (BrErr e)
           | None \<Rightarrow>
               andThen (claim_addr bh name cidr) (\<lambda>addr.
               andThen (ignore (call (bh_RemoveAll bh (leases_file name)))) (\<lambda>_.
               andThen (run_dnsmasq bh name (static_args name addr) False) (\<lambda>_. ret addr)))))"

definition bridgeDnsMasqNetworking :: "'w bhost \<Rightarrow> string \<Rightarrow> bridge_network \<Rightarrow> (ipnet, 'w) beff" where
  "bridgeDnsMasqNetworking bh name network =
     (case dnsmasq_settings_of (bn_Settings network) of
        None \<Rightarrow> fail (BrErr (Errorf ''json''))
      | Some settings \<Rightarrow>
          (case dnsmasq_Validate settings of
             Some e \<Rightarrow> fail (BrErr e)
           | None \<Rightarrow>
               andThen (ignore (call (bh_MkdirAll bh ''/var/run/dnsmasq''))) (\<lambda>_.
               andThen (claim_addr bh name (dm_CIDR settings)) (\<lambda>addr.
               andThen (ignore (call (bh_RemoveAll bh (dnsmasqHostsFilePath name)))) (\<lambda>_.
               andThen (ignore (call (bh_MkdirAll bh (dnsmasqHostsFilePath name)))) (\<lambda>_.
               andThen (ignore (call (bh_RemoveAll bh (leases_file name)))) (\<lambda>_.
               andThen (run_dnsmasq bh name (dnsmasq_args name addr settings) True) (\<lambda>_. ret addr))))))))"

section \<open>Address translation\<close>

definition nat_rule :: "ipnet \<Rightarrow> string" where
  "nat_rule addr = ''ip saddr '' @ IPNet_String addr @ '' masquerade''"

definition rules_only :: "string list \<Rightarrow> nft_chain" where
  "rules_only rs = \<lparr>chain_Type = [], chain_Hook = [], chain_Priority = 0, chain_Policy = [], chain_Rules = rs\<rparr>"

definition setNAT :: "'w bhost \<Rightarrow> ipnet \<Rightarrow> (unit, 'w) beff" where
  "setNAT bh addr =
     wrapErr BrNft (Apply (bh_nft bh)
       [(''nat'', \<lparr>table_Family = FamilyIP, table_Chains = [(''post'', rules_only [nat_rule addr])], table_Sets = []\<rparr>)])"

text \<open>The loop over the rules found: a rule that cannot be dropped does not stop it.\<close>

fun drop_each :: "'w host \<Rightarrow> filter_rule list \<Rightarrow> 'w \<Rightarrow> bool \<times> 'w" where
  "drop_each h [] w = (False, w)"
| "drop_each h (r # rs) w =
     (case Drop h (fr_Family r) (fr_Table r) (fr_Chain r) (fr_Handle r) w of
        (res, w1) \<Rightarrow> (case drop_each h rs w1 of (errored, w2) \<Rightarrow> (isl res \<or> errored, w2)))"

text \<open>The network of an address as the kernel lists it.\<close>

definition network_of :: "ipnet \<Rightarrow> ipnet" where
  "network_of a = \<lparr>net_IP = net_IP a AND net_Mask a, net_Len = net_Len a\<rparr>"

definition nat_filter :: "ipnet \<Rightarrow> nft_filter" where
  "nat_filter a = AndFilter [TableFilter ''nat'', ChainFilter ''post'', NetworkMatchFilter ''ip'' ''saddr'' (network_of a)]"

definition drop_found_rules :: "'w bhost \<Rightarrow> nft_filter list \<Rightarrow> string \<Rightarrow> (unit, 'w) beff" where
  "drop_found_rules bh fs msg w =
     (case Find (bh_nft bh) fs w of
        (Inl e, w1) \<Rightarrow> (Inl (BrNft e), w1)
      | (Inr matches, w1) \<Rightarrow>
          (case drop_each (bh_nft bh) matches w1 of
             (errored, w2) \<Rightarrow> (if errored then Inl (BrErr (Errorf msg)) else Inr (), w2)))"

definition unsetNAT :: "'w bhost \<Rightarrow> ipnet list \<Rightarrow> (unit, 'w) beff" where
  "unsetNAT bh addr =
     (if length addr = 0 then ret ()
      else drop_found_rules bh (map nat_filter addr) ''error cleaning natting rules'')"

definition bridgeNetworking :: "'w bhost \<Rightarrow> string \<Rightarrow> bridge_network \<Rightarrow> (unit, 'w) beff" where
  "bridgeNetworking bh name network =
     (let nat = (\<lambda>addr. if bn_Nat network then setNAT bh addr else ret ())
      in if bn_Mode network = StaticBridgeNetworkMode then andThen (bridgeStaticNetworking bh name network) nat
         else if bn_Mode network = DnsMasqBridgeNetworkMode then andThen (bridgeDnsMasqNetworking bh name network) nat
         else if bn_Mode network = NoneBridgeNetworkMode then ret ()
         else fail (BrErr (Errorf (''invalid networking mode '' @ bn_Mode network))))"

section \<open>Commands\<close>

definition input_rule :: "string \<Rightarrow> string" where
  "input_rule br = ''iif '' @ [CHR 0x22] @ br @ [CHR 0x22] @ '' udp dport {53,67,68} accept''"

definition bridge_nft :: "'w bhost \<Rightarrow> string \<Rightarrow> (unit, 'w) beff" where
  "bridge_nft bh br =
     wrapErr BrNft (Apply (bh_nft bh)
       [(''filter'', \<lparr>table_Family = FamilyINET, table_Chains = [(''input'', rules_only [input_rule br])], table_Sets = []\<rparr>)])"

definition iif_filter :: "int \<Rightarrow> nft_filter" where
  "iif_filter idx = AndFilter [TableFilter ''filter'', ChainFilter ''input'', MetaMatchFilter ''iif'' (itoaInt idx)]"

definition unNFT :: "'w bhost \<Rightarrow> int \<Rightarrow> (unit, 'w) beff" where
  "unNFT bh idx = drop_found_rules bh [iif_filter idx] ''failed to clean up nft rules''"

text \<open>
  \<^verbatim>\<open>create\<close>: the deferred function deletes the bridge when the variable \<^verbatim>\<open>err\<close> of the command holds an error.  The error of
  \<^verbatim>\<open>nft\<close> is in a variable of the same name of its own, so that it does not count.
\<close>

definition deleting :: "'w bhost \<Rightarrow> string \<Rightarrow> (unit, 'w) beff \<Rightarrow> (unit, 'w) beff" where
  "deleting bh name m =
     attempt m (\<lambda>r. case r of
       Inl e \<Rightarrow> andThen (ignore (call (nl_LinkDel (bh_net bh) (ByName name)))) (\<lambda>_. fail e)
     | Inr x \<Rightarrow> ret x)"

definition bridge_up :: "'w bhost \<Rightarrow> string \<Rightarrow> nat list option \<Rightarrow> (unit, 'w) beff" where
  "bridge_up bh name hw =
     (let net = bh_net bh in
      andThen (goCall (call (nl_LinkAdd net (Bridge name (case hw of None \<Rightarrow> [] | Some h \<Rightarrow> h))))) (\<lambda>_.
      andThen (case hw of None \<Rightarrow> ret () | Some h \<Rightarrow> deleting bh name (goCall (call (nl_LinkSetHardwareAddr net (ByName name) h)))) (\<lambda>_.
      deleting bh name (goCall (call (nl_LinkSetUp net (ByName name)))))))"

definition create_bridge :: "'w bhost \<Rightarrow> bridge_args \<Rightarrow> nat list option \<Rightarrow> (unit, 'w) beff" where
  "create_bridge bh args hw =
     (let name = ba_Name args in
      andThen (bridge_up bh name hw) (\<lambda>_.
      andThen (bridge_nft bh name) (\<lambda>_.
      deleting bh name (bridgeNetworking bh name (ba_Network args)))))"

definition bridge_create :: "'w bhost \<Rightarrow> json \<Rightarrow> (unit, 'w) beff" where
  "bridge_create bh cmd =
     (case bridge_args_of cmd of
        None \<Rightarrow> fail (BrErr (Errorf ''json''))
      | Some args \<Rightarrow>
          (case bridge_Validate args of
             Some e \<Rightarrow> fail (BrErr e)
           | None \<Rightarrow>
               if ba_HwAddress args \<noteq> []
               then (case ParseMAC (ba_HwAddress args) of
                       None \<Rightarrow> fail (BrErr (Errorf (''address '' @ ba_HwAddress args @ '': invalid MAC address'')))
                     | Some hw \<Rightarrow> create_bridge bh args (Some hw))
               else create_bridge bh args None))"

definition name_arg :: "string \<Rightarrow> json \<Rightarrow> string option" where
  "name_arg f j = Option.bind (objectOf j) (field_string f)"

definition bridge_delete :: "'w bhost \<Rightarrow> json \<Rightarrow> (unit, 'w) beff" where
  "bridge_delete bh cmd =
     (case name_arg ''name'' cmd of
        None \<Rightarrow> fail (BrErr (Errorf ''json''))
      | Some name \<Rightarrow>
          andThen (goCall (ask (nl_LinkByName (bh_net bh) name))) (\<lambda>l.
          if lk_Type l \<noteq> ''bridge'' then fail (BrErr (Errorf ''bridge not found''))
          else
            andThen (ignore (call (bh_Kill bh (dnsmasqPName (lk_Name l))))) (\<lambda>_.
            andThen (goCall (ask (nl_AddrList (bh_net bh) l))) (\<lambda>addresses.
            andThen (unsetNAT bh addresses) (\<lambda>_.
            andThen (goCall (call (nl_LinkDel (bh_net bh) (ByIndex (lk_Index l))))) (\<lambda>_.
            ignore (unNFT bh (lk_Index l))))))))"

definition bridge_list :: "'w bhost \<Rightarrow> (string list, 'w) beff" where
  "bridge_list bh =
     andThen (goCall (ask (nl_LinkList (bh_net bh)))) (\<lambda>links.
     ret (map lk_Name (filter (\<lambda>l. lk_Type l = ''bridge'') links)))"

definition addHost :: "'w bhost \<Rightarrow> json \<Rightarrow> (unit, 'w) beff" where
  "addHost bh cmd =
     (case (name_arg ''bridge'' cmd, name_arg ''ip'' cmd, name_arg ''mac'' cmd) of
        (Some br, Some ip, Some mac) \<Rightarrow>
          (\<lambda>w. if \<not> bh_JobOf bh (dnsmasqPName br) w then fail (BrErr (Errorf ''not supported no dnsmasq process found'')) w
               else andThen (goCall (call (bh_WriteFile bh (path_join [dnsmasqHostsFilePath br, ip]) (mac @ '','' @ ip)))) (\<lambda>_.
                    goCall (call (bh_Signal bh (dnsmasqPName br) 1))) w)
      | _ \<Rightarrow> fail (BrErr (Errorf ''json'')))"

definition not_found :: "(go_error, 'a, 'w) eff \<Rightarrow> ('a, 'w) beff" where
  "not_found m = wrapErr (\<lambda>e. BrErr (NotFoundError (err_Text e))) m"

definition bridge_link :: "'w bhost \<Rightarrow> string \<Rightarrow> (link, 'w) beff" where
  "bridge_link bh name =
     andThen (not_found (ask (nl_LinkByName (bh_net bh) name))) (\<lambda>l.
     if lk_Type l \<noteq> ''bridge'' then fail (BrErr (BadRequestError ''not a bridge'')) else ret l)"

definition addNic :: "'w bhost \<Rightarrow> json \<Rightarrow> (unit, 'w) beff" where
  "addNic bh cmd =
     (case (name_arg ''name'' cmd, name_arg ''nic'' cmd) of
        (Some name, Some n) \<Rightarrow>
          andThen (bridge_link bh name) (\<lambda>l.
          andThen (not_found (ask (nl_LinkByName (bh_net bh) n))) (\<lambda>nic.
          goCall (call (nl_LinkSetMaster (bh_net bh) (ByIndex (lk_Index nic)) (ByIndex (lk_Index l))))))
      | _ \<Rightarrow> fail (BrErr (BadRequestError ''json'')))"

definition removeNic :: "'w bhost \<Rightarrow> json \<Rightarrow> (unit, 'w) beff" where
  "removeNic bh cmd =
     (case name_arg ''nic'' cmd of
        None \<Rightarrow> fail (BrErr (BadRequestError ''json''))
      | Some n \<Rightarrow>
          andThen (not_found (ask (nl_LinkByName (bh_net bh) n))) (\<lambda>nic.
          goCall (call (nl_LinkSetNoMaster (bh_net bh) (ByIndex (lk_Index nic))))))"

definition listNic :: "'w bhost \<Rightarrow> json \<Rightarrow> (string list, 'w) beff" where
  "listNic bh cmd =
     (case name_arg ''name'' cmd of
        None \<Rightarrow> fail (BrErr (BadRequestError ''json''))
      | Some name \<Rightarrow>
          andThen (bridge_link bh name) (\<lambda>l.
          andThen (wrapErr (\<lambda>e. BrErr (InternalError (err_Text e))) (ask (nl_LinkList (bh_net bh)))) (\<lambda>links.
          ret (map lk_Name (filter (\<lambda>k. lk_Master k = lk_Index l) links)))))"

end
