(* ===== verification/Bridge_Safety.thy ===== *)
theory Bridge_Safety
  imports Bridges "HOL-Library.Multiset"
begin

text \<open>
  What the bridge commands keep: networks of different devices stay apart, a failed creation takes its bridge with it, except
  where the code forgets to, and removing the address translation of a bridge removes exactly its rules.
\<close>

section \<open>Networks\<close>

lemma NOT_masks: "NOT (mask a) AND NOT (mask b) = (NOT (mask (max a b)) :: 'a::len word)"
  by (rule bit_word_eqI) (auto simp: bit_simps)

lemma masks_nested: "net_Mask a AND net_Mask b = net_Mask a \<or> net_Mask a AND net_Mask b = net_Mask b"
  by (simp add: net_Mask_def NOT_masks max_def)

lemma in_network_iff: "in_network n (Some ip) \<longleftrightarrow> net_IP n AND net_Mask n = ip AND net_Mask n"
  by (simp add: in_network_def net_Contains_def)

lemma intersect_iff:
  "intersect a b \<longleftrightarrow> net_IP a AND net_Mask b = net_IP b AND net_Mask b \<or> net_IP b AND net_Mask a = net_IP a AND net_Mask a"
  by (auto simp: intersect_def net_Contains_def Let_def and.assoc)

lemma common_coarser:
  assumes "net_Mask a AND net_Mask b = net_Mask a" "in_network a (Some ip)" "in_network b (Some ip)"
  shows "intersect a b"
proof -
  have "net_IP b AND net_Mask a = (net_IP b AND net_Mask b) AND net_Mask a" using assms(1) by (metis and.assoc and.commute)
  also have "\<dots> = (ip AND net_Mask b) AND net_Mask a" using assms(3) by (simp add: in_network_iff)
  also have "\<dots> = net_IP a AND net_Mask a" using assms(1,2) by (metis and.assoc and.commute in_network_iff)
  finally show ?thesis by (simp add: intersect_iff)
qed

lemma intersect_sym: "intersect a b \<longleftrightarrow> intersect b a"
  by (auto simp: intersect_iff)

lemma intersect_common:
  "intersect n1 n2 \<longleftrightarrow> (\<exists>ip. in_network n1 (Some ip) \<and> in_network n2 (Some ip))"
proof
  assume "intersect n1 n2"
  then have "in_network n2 (Some (net_IP n1)) \<or> in_network n1 (Some (net_IP n2))"
    by (auto simp: intersect_iff in_network_iff)
  moreover have "in_network n (Some (net_IP n))" for n by (simp add: in_network_iff)
  ultimately show "\<exists>ip. in_network n1 (Some ip) \<and> in_network n2 (Some ip)" by blast
next
  assume "\<exists>ip. in_network n1 (Some ip) \<and> in_network n2 (Some ip)"
  then show "intersect n1 n2"
    using masks_nested [of n1 n2] common_coarser intersect_sym by (metis and.commute)
qed

text \<open>
  The test for overlapping ranges: two networks are found to intersect exactly when some address lies in both, whether their
  addresses are those of the network or, as the kernel lists them, of a host in it.
\<close>

theorem intersect_overlap:
  "intersect n1 n2 \<longleftrightarrow> (\<exists>ip. net_IP n1 AND net_Mask n1 = ip AND net_Mask n1 \<and> net_IP n2 AND net_Mask n2 = ip AND net_Mask n2)"
  using intersect_common [of n1 n2] by (simp add: in_network_iff)

section \<open>Addresses stay apart\<close>

text \<open>
  What the commands rely on of the system, for a world whose devices have the addresses \<open>addrs\<close>: they are listed, adding
  an address adds at most that one, and nothing else the commands call adds any.
\<close>

definition all_addrs :: "'w bhost \<Rightarrow> 'w \<Rightarrow> ipnet list \<Rightarrow> bool" where
  "all_addrs bh w as \<longleftrightarrow>
     (\<exists>ls f. nl_LinkList (bh_net bh) w = Inr ls \<and> (\<forall>l \<in> set ls. nl_AddrList (bh_net bh) l w = Inr (f l)) \<and> as = concat (map f ls))"

definition adds_none :: "('w \<Rightarrow> ipnet list) \<Rightarrow> ('w \<Rightarrow> 'b \<times> 'w) \<Rightarrow> bool" where
  "adds_none addrs f \<longleftrightarrow> (\<forall>w. mset (addrs (snd (f w))) \<subseteq># mset (addrs w))"

definition addr_laws :: "'w bhost \<Rightarrow> ('w \<Rightarrow> ipnet list) \<Rightarrow> bool" where
  "addr_laws bh addrs \<longleftrightarrow>
     (\<forall>w. all_addrs bh w (addrs w)) \<and>
     (\<forall>r a w. mset (addrs (snd (nl_AddrAdd (bh_net bh) r a w))) \<subseteq># add_mset a (mset (addrs w))) \<and>
     (\<forall>x. adds_none addrs (nl_LinkAdd (bh_net bh) x)) \<and> (\<forall>r. adds_none addrs (nl_LinkDel (bh_net bh) r)) \<and>
     (\<forall>r h. adds_none addrs (nl_LinkSetHardwareAddr (bh_net bh) r h)) \<and> (\<forall>r. adds_none addrs (nl_LinkSetUp (bh_net bh) r)) \<and>
     (\<forall>p. adds_none addrs (bh_RemoveAll bh p)) \<and> (\<forall>p. adds_none addrs (bh_MkdirAll bh p)) \<and>
     (\<forall>i a fl. adds_none addrs (bh_Run bh i a fl)) \<and> (\<forall>i. adds_none addrs (bh_Kill bh i)) \<and>
     (\<forall>as. adds_none addrs (h_System (bh_nft bh) (''nft'' # as))) \<and> adds_none addrs (h_TempFile (bh_nft bh)) \<and>
     (\<forall>n t. adds_none addrs (h_Write (bh_nft bh) n t)) \<and> (\<forall>n w. mset (addrs (h_RemoveAll (bh_nft bh) n w)) \<subseteq># mset (addrs w))"

definition apart :: "ipnet list \<Rightarrow> bool" where
  "apart as \<longleftrightarrow> (\<forall>a b. {#a, b#} \<subseteq># mset as \<longrightarrow> \<not> (\<exists>ip. in_network a (Some ip) \<and> in_network b (Some ip)))"

lemma apart_mono: "apart as \<Longrightarrow> mset bs \<subseteq># mset as \<Longrightarrow> apart bs"
  by (meson apart_def subset_mset.order_trans)

lemma apart_add:
  assumes "apart as" "mset bs \<subseteq># add_mset a (mset as)" "\<forall>b \<in> set as. \<not> intersect b a"
  shows "apart bs"
  unfolding apart_def
proof (intro allI impI)
  fix x y
  assume "{#x, y#} \<subseteq># mset bs"
  then have xy: "{#x, y#} \<subseteq># add_mset a (mset as)" using assms(2) by (rule subset_mset.order_trans)
  show "\<not> (\<exists>ip. in_network x (Some ip) \<and> in_network y (Some ip))"
  proof (cases "{#x, y#} \<subseteq># mset as")
    case True
    then show ?thesis using assms(1) by (simp add: apart_def)
  next
    case False
    have "{#x, y#} \<subseteq># mset as" if "x \<noteq> a" "y \<noteq> a"
      using xy that subset_eq_diff_conv [of "{#x, y#}" "{#a#}" "mset as"] by simp
    then have "(x = a \<and> y \<in># mset as) \<or> (y = a \<and> x \<in># mset as)"
      using xy False by (cases "x = a"; cases "y = a") (auto simp: insert_subset_eq_iff)
    then show ?thesis using assms(3) intersect_common [of x y] intersect_sym by auto
  qed
qed


lemma adds_none_apart: "adds_none addrs f \<Longrightarrow> apart (addrs w) \<Longrightarrow> apart (addrs (snd (f w)))"
  unfolding adds_none_def by (blast intro: apart_mono)

lemma keeps_apart_call: "adds_none addrs f \<Longrightarrow> keeps (\<lambda>w. apart (addrs w)) (call f)"
  by (rule keeps_call) (rule adds_none_apart)

lemma system_err_keeps:
  assumes "P (snd (h_System h as w))"
  shows "P (snd (system_err h as w))"
proof -
  obtain job e w1 where "h_System h as w = ((job, e), w1)" by (metis prod.exhaust)
  then show ?thesis using assms by (cases e) (simp_all add: system_err_def)
qed

lemma Apply_keeps:
  assumes "\<And>as w. P w \<Longrightarrow> P (snd (h_System h (''nft'' # as) w))" "\<And>w. P w \<Longrightarrow> P (snd (h_TempFile h w))"
    and "\<And>n t w. P w \<Longrightarrow> P (snd (h_Write h n t w))" "\<And>n w. P w \<Longrightarrow> P (h_RemoveAll h n w)"
  shows "keeps P (Apply h n)"
  unfolding keeps_def
proof (intro allI impI)
  fix w
  assume w: "P w"
  obtain t w1 where t: "h_TempFile h w = (t, w1)" by (rule prod.exhaust)
  then have w1: "P w1" using assms(2) [OF w] by simp
  have wr: "P (snd (case h_Write h name d w1 of
                  (Some e, w2) \<Rightarrow> (Inl (SysErr e), h_RemoveAll h name w2)
                | (None, w2) \<Rightarrow> (case ApplyFromFile h name w2 of (r, w3) \<Rightarrow> (r, h_RemoveAll h name w3))))" for name d
  proof -
    obtain e w2 where e: "h_Write h name d w1 = (e, w2)" by (rule prod.exhaust)
    then have w2: "P w2" using assms(3) [OF w1, of name d] by simp
    obtain r w3 where r: "ApplyFromFile h name w2 = (r, w3)" by (rule prod.exhaust)
    then have "P w3" using system_err_keeps [of P h "[''nft'', ''-f'', name]" w2] assms(1) [OF w2] by (simp add: ApplyFromFile_def)
    then show ?thesis using e r w2 assms(4) by (cases e) simp_all
  qed
  show "P (snd (Apply h n w))"
    using w w1 wr by (simp add: Apply_def t split: sum.split)
qed

lemma Find_keeps:
  assumes "\<And>as w. P w \<Longrightarrow> P (snd (h_System h (''nft'' # as) w))" "P w"
  shows "P (snd (Find h fs w))"
proof -
  obtain job e w1 where j: "h_System h list_call w = ((job, e), w1)" by (metis prod.exhaust)
  have "P (snd (h_System h list_call w))" unfolding list_call_def by (rule assms(1) [OF assms(2)])
  then show ?thesis using j by (cases e) (simp_all add: Find_def)
qed

lemma drop_each_keeps:
  assumes "\<And>as w. P w \<Longrightarrow> P (snd (h_System h (''nft'' # as) w))"
  shows "P w \<Longrightarrow> P (snd (drop_each h rs w))"
proof (induction rs arbitrary: w)
  case (Cons r rs)
  have "P (snd (Drop h (fr_Family r) (fr_Table r) (fr_Chain r) (fr_Handle r) w))"
    unfolding Drop_def by (rule system_err_keeps) (rule assms [OF Cons.prems])
  then obtain res w1 where d: "Drop h (fr_Family r) (fr_Table r) (fr_Chain r) (fr_Handle r) w = (res, w1)" "P w1"
    by (metis prod.exhaust snd_conv)
  then show ?case using Cons.IH [OF d(2)] by (cases "drop_each h rs w1") simp
qed simp

lemma drop_found_keeps:
  assumes "\<And>as w. P w \<Longrightarrow> P (snd (h_System (bh_nft bh) (''nft'' # as) w))"
  shows "keeps P (drop_found_rules bh fs msg)"
  unfolding keeps_def
proof (intro allI impI)
  fix w
  assume "P w"
  then have "P (snd (Find (bh_nft bh) fs w))" using Find_keeps [where P = P and h = "bh_nft bh", OF assms] by blast
  then obtain r w1 where r: "Find (bh_nft bh) fs w = (r, w1)" "P w1" by (metis prod.exhaust snd_conv)
  then show "P (snd (drop_found_rules bh fs msg w))"
    using drop_each_keeps [of P "bh_nft bh" w1 "projr r", OF assms r(2)]
    by (cases r; cases "drop_each (bh_nft bh) (projr r) w1") (simp_all add: drop_found_rules_def)
qed


lemma keeps_goCall: "keeps P m \<Longrightarrow> keeps P (goCall m)"
  unfolding goCall_def by (rule keeps_wrapErr)

lemma deleting_keeps: "keeps P m \<Longrightarrow> keeps P (call (nl_LinkDel (bh_net bh) (ByName name))) \<Longrightarrow> keeps P (deleting bh name m)"
  unfolding deleting_def by (intro keeps_intros) (auto split: sum.split intro: keeps_intros)

lemma addr_lists: "addr_laws bh addrs \<Longrightarrow> all_addrs bh w (addrs w)"
  by (simp add: addr_laws_def)

lemma addr_calls:
  assumes "addr_laws bh addrs"
  shows "keeps (\<lambda>w. apart (addrs w)) (call (nl_LinkAdd (bh_net bh) x))"
    "keeps (\<lambda>w. apart (addrs w)) (call (nl_LinkDel (bh_net bh) r))"
    "keeps (\<lambda>w. apart (addrs w)) (call (nl_LinkSetHardwareAddr (bh_net bh) r h))"
    "keeps (\<lambda>w. apart (addrs w)) (call (nl_LinkSetUp (bh_net bh) r))"
    "keeps (\<lambda>w. apart (addrs w)) (call (bh_RemoveAll bh p))"
    "keeps (\<lambda>w. apart (addrs w)) (call (bh_MkdirAll bh p))"
    "keeps (\<lambda>w. apart (addrs w)) (call (bh_Run bh i a fl))"
    "keeps (\<lambda>w. apart (addrs w)) (call (bh_Kill bh i))"
  using assms unfolding addr_laws_def by (simp_all add: keeps_apart_call)

lemma addr_nft:
  assumes "addr_laws bh addrs" "apart (addrs w)"
  shows "apart (addrs (snd (h_System (bh_nft bh) (''nft'' # as) w)))" "apart (addrs (snd (h_TempFile (bh_nft bh) w)))"
    "apart (addrs (snd (h_Write (bh_nft bh) n t w)))" "apart (addrs (h_RemoveAll (bh_nft bh) n w))"
proof -
  have "adds_none addrs (h_System (bh_nft bh) (''nft'' # as))" "adds_none addrs (h_TempFile (bh_nft bh))"
    "adds_none addrs (h_Write (bh_nft bh) n t)" "mset (addrs (h_RemoveAll (bh_nft bh) n w)) \<subseteq># mset (addrs w)"
    using assms(1) by (simp_all add: addr_laws_def)
  then show "apart (addrs (snd (h_System (bh_nft bh) (''nft'' # as) w)))" "apart (addrs (snd (h_TempFile (bh_nft bh) w)))"
    "apart (addrs (snd (h_Write (bh_nft bh) n t w)))" "apart (addrs (h_RemoveAll (bh_nft bh) n w))"
    using assms(2) by (simp_all add: adds_none_apart apart_mono)
qed

lemma Apply_apart: "addr_laws bh addrs \<Longrightarrow> keeps (\<lambda>w. apart (addrs w)) (Apply (bh_nft bh) n)"
  by (rule Apply_keeps) (rule addr_nft, assumption+)+

lemma drop_found_apart: "addr_laws bh addrs \<Longrightarrow> keeps (\<lambda>w. apart (addrs w)) (drop_found_rules bh fs msg)"
  by (rule drop_found_keeps) (rule addr_nft(1))

lemma conflict_none:
  assumes "addr_laws bh addrs" "conflict bh a w = (Inr u, w1)"
  shows "w1 = w \<and> (\<forall>b \<in> set (addrs w). \<not> intersect b a)"
proof -
  obtain ls f where f: "nl_LinkList (bh_net bh) w = Inr ls" "\<forall>l \<in> set ls. nl_AddrList (bh_net bh) l w = Inr (f l)"
    "addrs w = concat (map f ls)" using addr_lists [OF assms(1), of w] unfolding all_addrs_def by blast
  have one: "conflict_link bh a l w = (Inr u, v) \<longleftrightarrow> v = w \<and> (\<forall>b \<in> set (f l). \<not> intersect b a)"
    if "nl_AddrList (bh_net bh) l w = Inr (f l)" for l u v
    using that by (auto simp: conflict_link_def andThen_def goCall_def wrapErr_def eff_simps find_None_iff find_Some_iff split: option.split)
  have "w1 = w \<and> (\<forall>b \<in> set (concat (map f ls)). \<not> intersect b a)"
    if "forEach (conflict_link bh a) ls w = (Inr u, w1)" and "\<forall>l \<in> set ls. nl_AddrList (bh_net bh) l w = Inr (f l)" for ls
    using that
  proof (induction ls)
    case (Cons l ls)
    then obtain u1 v where "conflict_link bh a l w = (Inr u1, v)" "forEach (conflict_link bh a) ls v = (Inr u, w1)"
      by (auto elim: andThen_InrE)
    then show ?case using one [of l] Cons.IH Cons.prems(2) by auto
  qed (simp add: eff_simps)
  then show ?thesis using assms(2) f by (simp add: conflict_def andThen_def goCall_def wrapErr_def eff_simps)
qed

lemma conflict_keeps: "snd (conflict bh a w) = w"
proof -
  have "keeps (\<lambda>v. v = w) (conflict bh a)"
    unfolding conflict_def conflict_link_def goCall_def by (intro keeps_intros) (auto split: option.split intro: keeps_intros)
  then show ?thesis by (simp add: keeps_def)
qed

lemma claim_apart:
  assumes "addr_laws bh addrs"
  shows "keeps (\<lambda>w. apart (addrs w)) (claim_addr bh name cidr)"
  unfolding keeps_def
proof (intro allI impI)
  fix w
  assume w: "apart (addrs w)"
  show "apart (addrs (snd (claim_addr bh name cidr w)))"
  proof (cases "ParseAddr cidr")
    case (Some a)
    obtain r where r: "conflict bh a w = (r, w)" using conflict_keeps [of bh a w] by (metis prod.collapse)
    show ?thesis
    proof (cases r)
      case (Inr u)
      then have "\<forall>b \<in> set (addrs w). \<not> intersect b a" using conflict_none [OF assms] r by blast
      moreover have "mset (addrs (snd (nl_AddrAdd (bh_net bh) (ByName name) a w))) \<subseteq># add_mset a (mset (addrs w))"
        using assms by (simp add: addr_laws_def)
      ultimately have "apart (addrs (snd (nl_AddrAdd (bh_net bh) (ByName name) a w)))" using apart_add [OF w] by blast
      then show ?thesis
        using r Inr Some by (cases "nl_AddrAdd (bh_net bh) (ByName name) a w")
          (auto simp: claim_addr_def andThen_def goCall_def wrapErr_def call_def eff_simps split: option.split)
    qed (use r Some w in \<open>simp add: claim_addr_def andThen_def\<close>)
  qed (simp add: claim_addr_def eff_simps w)
qed


lemmas bridge_calls = keeps_intros keeps_goCall deleting_keeps

lemma networking_apart:
  assumes "addr_laws bh addrs"
  shows "keeps (\<lambda>w. apart (addrs w)) (bridgeNetworking bh name network)"
proof -
  note [intro] = addr_calls [OF assms] claim_apart [OF assms] Apply_apart [OF assms]
  have "keeps (\<lambda>w. apart (addrs w)) (run_dnsmasq bh name as q)" for as q
    unfolding run_dnsmasq_def by (intro bridge_calls addr_calls [OF assms])
  moreover have "keeps (\<lambda>w. apart (addrs w)) (setNAT bh a)" for a
    unfolding setNAT_def by (intro bridge_calls Apply_apart [OF assms])
  ultimately show ?thesis
    unfolding bridgeNetworking_def bridgeStaticNetworking_def bridgeDnsMasqNetworking_def Let_def
    by (auto split: option.split intro!: bridge_calls)
qed

text \<open>
  C19. On a machine where no address lies in the networks of two devices, creating and deleting bridges, whatever
  their arguments and whether or not they succeed, keeps it so.
\<close>

theorem bridges_disjoint:
  assumes "addr_laws bh addrs" "apart (addrs w)"
  shows "apart (addrs (snd (bridge_create bh cmd w))) \<and> apart (addrs (snd (bridge_delete bh cmd w)))"
proof
  note calls = bridge_calls addr_calls [OF assms(1)] Apply_apart [OF assms(1)] networking_apart [OF assms(1)] drop_found_apart [OF assms(1)]
  have "keeps (\<lambda>w. apart (addrs w)) (create_bridge bh args hw)" for args hw
    unfolding create_bridge_def bridge_up_def bridge_nft_def Let_def
    by (intro calls) (auto split: option.split intro: calls)
  then have "keeps (\<lambda>w. apart (addrs w)) (bridge_create bh cmd)"
    unfolding bridge_create_def by (auto split: option.split intro: keeps_intros)
  then show "apart (addrs (snd (bridge_create bh cmd w)))" using assms(2) by (rule keepsD)
  have "keeps (\<lambda>w. apart (addrs w)) (unsetNAT bh as)" for as
    unfolding unsetNAT_def by (auto intro: calls)
  moreover have "keeps (\<lambda>w. apart (addrs w)) (unNFT bh i)" for i
    unfolding unNFT_def by (intro calls)
  ultimately have "keeps (\<lambda>w. apart (addrs w)) (bridge_delete bh cmd)"
    unfolding bridge_delete_def by (auto split: option.split intro!: calls)
  then show "apart (addrs (snd (bridge_delete bh cmd w)))" using assms(2) by (rule keepsD)
qed

section \<open>Address translation\<close>

lemma drop_each_rules:
  "drop_rules h (map (\<lambda>r. (fr_Family r, fr_Table r, fr_Chain r, fr_Handle r)) rs) w = (Inr (), w1) \<Longrightarrow> drop_each h rs w = (False, w1)"
  by (induction rs arbitrary: w) (auto split: prod.splits sum.splits)

text \<open>
  With a program that lists and deletes rules as documented, removing the address translation of a bridge succeeds and removes
  exactly the rules of the chain \<^verbatim>\<open>post\<close> of the table \<^verbatim>\<open>nat\<close> that match the network of one of its addresses.
\<close>

theorem nat_removed:
  assumes "nft_tool (bh_nft bh) ruleset" "distinct (map rule_id (ruleset w))" "renders (map nat_filter addrs) (ruleset w)"
  shows "\<exists>w1. unsetNAT bh addrs w = (Inr (), w1) \<and>
    ruleset w1 = filter (\<lambda>r. \<not> (rb_Table r = ''nat'' \<and> rb_Chain r = ''post'' \<and>
      (\<exists>a \<in> set addrs. Match (NetworkMatchFilter ''ip'' ''saddr'' (network_of a)) r))) (ruleset w)"
proof -
  let ?fs = "map nat_filter addrs"
  have sel: "selects ?fs r \<longleftrightarrow> rb_Table r = ''nat'' \<and> rb_Chain r = ''post'' \<and>
      (\<exists>a \<in> set addrs. Match (NetworkMatchFilter ''ip'' ''saddr'' (network_of a)) r)" for r
    by (auto simp: selects_def nat_filter_def list_ex_iff)
  obtain w1 where w1: "Find (bh_nft bh) ?fs w = (Inr (map (projr \<circ> rendered) (filter (selects ?fs) (ruleset w))), w1)"
    "ruleset w1 = ruleset w" using Find_ok [OF assms(1,3)] by blast
  let ?rs = "filter (selects ?fs) (ruleset w)"
  have "map (\<lambda>r. (fr_Family r, fr_Table r, fr_Chain r, fr_Handle r)) (map (projr \<circ> rendered) ?rs) = map rule_id ?rs"
    unfolding map_map using assms(3) by (intro map_cong) (auto simp: rendered_ids renders_def list_all_iff)
  moreover obtain w2 where "drop_rules (bh_nft bh) (map rule_id ?rs) w1 = (Inr (), w2)"
    "ruleset w2 = filter (\<lambda>r. \<not> selects ?fs r) (ruleset w)"
    using drop_selected [OF assms(1,2) w1(2)] by blast
  ultimately have "drop_each (bh_nft bh) (map (projr \<circ> rendered) ?rs) w1 = (False, w2)"
    "ruleset w2 = filter (\<lambda>r. \<not> selects ?fs r) (ruleset w)"
    by (simp_all add: drop_each_rules del: map_map)
  then show ?thesis
    using w1 by (cases "addrs = []") (auto simp: unsetNAT_def drop_found_rules_def eff_simps sel)
qed


section \<open>Failed creations\<close>

text \<open>What the commands rely on for the names of the devices: only adding and deleting a device changes them.\<close>

definition same_names :: "('w \<Rightarrow> string set) \<Rightarrow> ('w \<Rightarrow> 'b \<times> 'w) \<Rightarrow> bool" where
  "same_names names f \<longleftrightarrow> (\<forall>w. names (snd (f w)) = names w)"

definition name_laws :: "'w bhost \<Rightarrow> ('w \<Rightarrow> string set) \<Rightarrow> bool" where
  "name_laws bh names \<longleftrightarrow>
     (\<forall>n h w e w1. nl_LinkAdd (bh_net bh) (Bridge n h) w = (e, w1) \<longrightarrow> names w1 = (if e = None then insert n (names w) else names w)) \<and>
     (\<forall>n w. names (snd (nl_LinkDel (bh_net bh) (ByName n) w)) = names w - {n}) \<and>
     (\<forall>r h. same_names names (nl_LinkSetHardwareAddr (bh_net bh) r h)) \<and> (\<forall>r. same_names names (nl_LinkSetUp (bh_net bh) r)) \<and>
     (\<forall>as. same_names names (h_System (bh_nft bh) (''nft'' # as))) \<and> same_names names (h_TempFile (bh_nft bh)) \<and>
     (\<forall>n t. same_names names (h_Write (bh_nft bh) n t)) \<and> (\<forall>n w. names (h_RemoveAll (bh_nft bh) n w) = names w)"

lemma deleting_ok: "deleting bh n m w = (Inr x, w1) \<longleftrightarrow> m w = (Inr x, w1)"
  by (auto simp: deleting_def attempt_def eff_simps andThen_def split: prod.split sum.split)

lemma deleting_fails:
  assumes "name_laws bh names" "deleting bh n m w = (Inl e, w1)"
  shows "n \<notin> names w1"
proof -
  obtain r w2 where r: "m w = (r, w2)" by (rule prod.exhaust)
  then have "w1 = snd (nl_LinkDel (bh_net bh) (ByName n) w2)"
    using assms(2) by (cases r; cases "nl_LinkDel (bh_net bh) (ByName n) w2")
      (auto simp: deleting_def attempt_def andThen_def call_def eff_simps split: option.splits)
  then show ?thesis using assms(1) by (simp add: name_laws_def)
qed

lemma same_call: "same_names names f \<Longrightarrow> goCall (call f) w = (r, w1) \<Longrightarrow> names w1 = names w"
  by (cases "f w"; cases "fst (f w)") (auto simp: same_names_def goCall_def wrapErr_def call_def dest: spec [of _ w])

lemma nft_names: "name_laws bh names \<Longrightarrow> names (snd (bridge_nft bh n w)) = names w"
proof -
  assume laws: "name_laws bh names"
  have "keeps (\<lambda>v. names v = names w) (bridge_nft bh n)"
    unfolding bridge_nft_def by (intro keeps_wrapErr Apply_keeps) (use laws in \<open>simp_all add: name_laws_def same_names_def\<close>)
  then show ?thesis by (simp add: keeps_def)
qed

lemma up_names:
  assumes "name_laws bh names" "bridge_up bh n hw w = (r, w1)" "n \<notin> names w"
  shows "n \<in> names w1 \<longleftrightarrow> r = Inr ()"
proof -
  obtain e w2 where e: "nl_LinkAdd (bh_net bh) (Bridge n (case hw of None \<Rightarrow> [] | Some h \<Rightarrow> h)) w = (e, w2)" by (rule prod.exhaust)
  then have n2: "names w2 = (if e = None then insert n (names w) else names w)" using assms(1) by (simp add: name_laws_def)
  let ?hw = "case hw of None \<Rightarrow> ret () | Some h \<Rightarrow> deleting bh n (goCall (call (nl_LinkSetHardwareAddr (bh_net bh) (ByName n) h)))"
  let ?up = "deleting bh n (goCall (call (nl_LinkSetUp (bh_net bh) (ByName n))))"
  show ?thesis
  proof (cases e)
    case None
    have "n \<in> names w1 \<longleftrightarrow> r = Inr ()" if "?up w3 = (r, w1)" "n \<in> names w3" for w3
    proof (cases r)
      case (Inr x)
      then have "goCall (call (nl_LinkSetUp (bh_net bh) (ByName n))) w3 = (Inr x, w1)" using that(1) by (simp add: deleting_ok)
      moreover have "same_names names (nl_LinkSetUp (bh_net bh) (ByName n))" using assms(1) by (simp add: name_laws_def)
      ultimately show ?thesis using same_call that(2) Inr by fastforce
    qed (use that deleting_fails [OF assms(1)] in auto)
    moreover have "(\<exists>w3. ?hw w2 = (Inr (), w3) \<and> n \<in> names w3 \<and> ?up w3 = (r, w1)) \<or> (\<exists>e1. r = Inl e1 \<and> n \<notin> names w1)"
    proof -
      obtain q w3 where q: "?hw w2 = (q, w3)" by (rule prod.exhaust)
      have b: "andThen ?hw (\<lambda>_. ?up) w2 = (r, w1)"
        using assms(2) e None by (simp add: bridge_up_def Let_def andThen_def goCall_def wrapErr_def call_def)
      show ?thesis
      proof (cases q)
        case (Inl e1)
        then have "r = Inl e1" "w1 = w3" using b q by (simp_all add: andThen_Inl)
        moreover have "n \<notin> names w3" using q Inl deleting_fails [OF assms(1)] by (cases hw) (auto simp: eff_simps)
        ultimately show ?thesis by blast
      next
        case (Inr x)
        have "n \<in> names w3"
        proof (cases hw)
          case (Some h)
          then have "goCall (call (nl_LinkSetHardwareAddr (bh_net bh) (ByName n) h)) w2 = (Inr x, w3)"
            using q Inr by (simp add: deleting_ok)
          moreover have "same_names names (nl_LinkSetHardwareAddr (bh_net bh) (ByName n) h)" using assms(1) by (simp add: name_laws_def)
          ultimately show ?thesis using same_call n2 None by fastforce
        qed (use q n2 None in \<open>simp add: eff_simps\<close>)
        moreover have "?up w3 = (r, w1)" using b q Inr by (simp add: andThen_Inr)
        ultimately show ?thesis using q Inr by simp
      qed
    qed
    ultimately show ?thesis by blast
  next
    case (Some x)
    then have "r = Inl (BrErr x)" "w1 = w2"
      using assms(2) e by (simp_all add: bridge_up_def Let_def andThen_def goCall_def wrapErr_def call_def)
    then show ?thesis using n2 Some assms(3) by simp
  qed
qed

text \<open>
  A failed creation leaves its bridge behind exactly when the rule for its traffic could not be
  installed: that error is kept in a variable that hides the one the clean-up looks at.  After every other error the bridge is gone.
\<close>

theorem create_leftover:
  assumes "name_laws bh names" "bridge_args_of cmd = Some args" "bridge_Validate args = None"
    and "hw = (if ba_HwAddress args = [] then None else ParseMAC (ba_HwAddress args))" "ba_HwAddress args \<noteq> [] \<longrightarrow> hw \<noteq> None"
    and "ba_Name args \<notin> names w" "bridge_create bh cmd w = (Inl e, w1)"
  shows "ba_Name args \<in> names w1 \<longleftrightarrow>
    (\<exists>w2. bridge_up bh (ba_Name args) hw w = (Inr (), w2) \<and> fst (bridge_nft bh (ba_Name args) w2) = Inl e)"
proof -
  let ?n = "ba_Name args"
  have c: "create_bridge bh args hw w = (Inl e, w1)"
    using assms(2-5,7) by (auto simp: bridge_create_def split: option.splits if_splits)
  obtain r w2 where r: "bridge_up bh ?n hw w = (r, w2)" by (rule prod.exhaust)
  show ?thesis
  proof (cases r)
    case (Inl e1)
    then show ?thesis using c r up_names [OF assms(1) r assms(6)] by (simp add: create_bridge_def Let_def andThen_Inl)
  next
    case (Inr x)
    then have n2: "?n \<in> names w2" using up_names [OF assms(1) r assms(6)] by simp
    obtain q w3 where q: "bridge_nft bh ?n w2 = (q, w3)" by (rule prod.exhaust)
    have n3: "names w3 = names w2" using nft_names [OF assms(1), of ?n w2] q by simp
    have c2: "andThen (bridge_nft bh ?n) (\<lambda>_. deleting bh ?n (bridgeNetworking bh ?n (ba_Network args))) w2 = (Inl e, w1)"
      using c r Inr by (simp add: create_bridge_def Let_def andThen_Inr)
    show ?thesis
    proof (cases q)
      case (Inl e1)
      then show ?thesis using c2 q n3 n2 r Inr by (simp add: andThen_Inl)
    next
      case (Inr y)
      then have "deleting bh ?n (bridgeNetworking bh ?n (ba_Network args)) w3 = (Inl e, w1)" using c2 q by (simp add: andThen_Inr)
      then have "?n \<notin> names w1" by (rule deleting_fails [OF assms(1)])
      then show ?thesis using q r Inr by simp
    qed
  qed
qed


section \<open>Witnesses\<close>

definition idleNet :: "'w netlink" where
  "idleNet =
     (let fine = (\<lambda>w. (None, w)) in
      \<lparr>nl_LinkByName = (\<lambda>n w. Inl (Errorf ''none'')), nl_LinkByIndex = (\<lambda>i w. Inl (Errorf ''none'')), nl_LinkList = (\<lambda>w. Inr []),
       nl_AddrList = (\<lambda>l w. Inr []), nl_LinkAdd = (\<lambda>x. fine), nl_LinkDel = (\<lambda>r. fine), nl_LinkSetMaster = (\<lambda>r s. fine),
       nl_LinkSetNoMaster = (\<lambda>r. fine), nl_LinkSetHardwareAddr = (\<lambda>r h. fine), nl_LinkSetNsPid = (\<lambda>r p. fine), nl_LinkSetUp = (\<lambda>r. fine),
       nl_LinkSetDown = (\<lambda>r. fine), nl_LinkSetName = (\<lambda>r n. fine), nl_AddrAdd = (\<lambda>r a. fine)\<rparr>)"

text \<open>A machine with one device that has all addresses, and no rules of \<^verbatim>\<open>nft\<close>.\<close>

definition brCommand :: json where
  "brCommand = JObj [(''name'', JStr ''br''), (''network'', JObj [(''mode'', JStr ''static''), (''settings'', JObj [(''cidr'', JStr ''10.0.0.1/24'')])])]"

definition brHost :: "bool \<Rightarrow> (string set \<times> ipnet list) bhost" where
  "brHost ok =
     (let fine = (\<lambda>w. (None, w)) in
      \<lparr>bh_nft = \<lparr>h_System = (\<lambda>args w. (((NewJobResult (sampleJob [] []))\<lparr>jr_Streams := [''x'', []]\<rparr>, None), w)),
                h_TempFile = (\<lambda>w. (if ok then Inr ''/tmp/x'' else Inl (Errorf ''disk full''), w)),
                h_Write = (\<lambda>name data. fine), h_RemoveAll = (\<lambda>name w. w),
                h_unjson = (\<lambda>t. Some (JObj [(''nftables'', JArr [])]))\<rparr>,
       bh_net = idleNet\<lparr>
         nl_LinkList := (\<lambda>w. Inr [\<lparr>lk_Name = ''l'', lk_Index = 1, lk_Type = ''dummy'', lk_HW = [], lk_Master = 0\<rparr>]),
         nl_AddrList := (\<lambda>l w. Inr (snd w)),
         nl_LinkAdd := (\<lambda>x w. (None, insert (case x of Bridge n h \<Rightarrow> n | Veth n p \<Rightarrow> n | Macvlan n i \<Rightarrow> n) (fst w), snd w)),
         nl_LinkDel := (\<lambda>r w. (None, (case r of ByName n \<Rightarrow> fst w - {n} | ByIndex i \<Rightarrow> fst w), snd w)),
         nl_AddrAdd := (\<lambda>r a w. (None, fst w, a # snd w))\<rparr>,
       bh_RemoveAll = (\<lambda>p. fine), bh_MkdirAll = (\<lambda>p. fine), bh_WriteFile = (\<lambda>p t. fine), bh_Run = (\<lambda>i a f. fine),
       bh_Kill = (\<lambda>i. fine), bh_JobOf = (\<lambda>i w. False), bh_Signal = (\<lambda>i s. fine)\<rparr>)"

lemma brHost_addrs: "addr_laws (brHost ok) snd"
  unfolding addr_laws_def all_addrs_def adds_none_def brHost_def idleNet_def Let_def
  by (auto split: new_link.splits link_ref.splits intro: exI [of _ "\<lambda>_. _"])

lemma brHost_names: "name_laws (brHost ok) fst"
  by (auto simp: name_laws_def same_names_def brHost_def idleNet_def Let_def)

lemma brCommand_args:
  "bridge_args_of brCommand = Some \<lparr>ba_Name = ''br'', ba_HwAddress = [],
     ba_Network = \<lparr>bn_Mode = ''static'', bn_Nat = False, bn_Settings = Some (JObj [(''cidr'', JStr ''10.0.0.1/24'')])\<rparr>\<rparr>"
  by code_simp

lemma nft_text: "\<exists>t. MarshalText [(''filter'', \<lparr>table_Family = FamilyINET, table_Chains = [(''input'', rules_only [input_rule n])], table_Sets = []\<rparr>)] = Inr t"
  by (simp add: table_marshal_def FamilyINET_def)

lemma br_calls:
  "nl_LinkAdd (bh_net (brHost ok)) (Bridge n h) w = (None, insert n (fst w), snd w)"
  "nl_LinkSetUp (bh_net (brHost ok)) r w = (None, w)"
  "nl_LinkDel (bh_net (brHost ok)) (ByName n) w = (None, fst w - {n}, snd w)"
  "nl_LinkList (bh_net (brHost ok)) w = Inr [\<lparr>lk_Name = ''l'', lk_Index = 1, lk_Type = ''dummy'', lk_HW = [], lk_Master = 0\<rparr>]"
  "nl_AddrList (bh_net (brHost ok)) l w = Inr (snd w)"
  "nl_AddrAdd (bh_net (brHost ok)) r a w = (None, fst w, a # snd w)"
  "bh_RemoveAll (brHost ok) p w = (None, w)"
  "bh_Run (brHost ok) i as f w = (None, w)"
  by (simp_all add: brHost_def idleNet_def Let_def)

lemma br_nft:
  "bridge_nft (brHost True) n w = (Inr (), w)"
  "bridge_nft (brHost False) n w = (Inl (BrNft (SysErr (Errorf ''disk full''))), w)"
  using nft_text [of n] by (auto simp: bridge_nft_def Apply_def ApplyFromFile_def system_err_def wrapErr_def brHost_def idleNet_def Let_def)

lemmas br_run = andThen_def attempt_def goCall_def wrapErr_def call_def eff_simps Let_def

lemma br_up: "bridge_up (brHost ok) n None w = (Inr (), insert n (fst w), snd w)"
  by (simp add: bridge_up_def deleting_def br_run br_calls)

lemma br_create: "bridge_create (brHost ok) brCommand w = create_bridge (brHost ok)
  \<lparr>ba_Name = ''br'', ba_HwAddress = [],
     ba_Network = \<lparr>bn_Mode = ''static'', bn_Nat = False, bn_Settings = Some (JObj [(''cidr'', JStr ''10.0.0.1/24'')])\<rparr>\<rparr> None w"
  by (simp add: bridge_create_def brCommand_args bridge_Validate_def)

lemma br_fails: "bridge_create (brHost False) brCommand w = (Inl (BrNft (SysErr (Errorf ''disk full''))), insert ''br'' (fst w), snd w)"
  by (simp add: br_create create_bridge_def br_up br_nft br_run)

lemma br_settings: "static_settings_of (Some (JObj [(''cidr'', JStr ''10.0.0.1/24'')])) = Some ''10.0.0.1/24''" by code_simp

lemma br_parse: "ParseCIDR ''10.0.0.1/24'' = Some (ofOctets 10 0 0 1, \<lparr>net_IP = ofOctets 10 0 0 0, net_Len = 24\<rparr>)"
proof -
  have "splitN2 (CHR ''/'') ''10.0.0.1/24'' = [''10.0.0.1'', ''24'']" by code_simp
  moreover have "split (CHR ''.'') ''10.0.0.1'' = [''10'', ''0'', ''0'', ''1'']" by code_simp
  moreover have "isByte ''10'' \<and> isByte ''0'' \<and> isByte ''1'' \<and> list_all isDigit ''24''" by code_simp
  moreover have "atoi ''10'' = 10" "atoi ''0'' = 0" "atoi ''1'' = 1" "atoi ''24'' = 24" by code_simp+
  moreover have "ofOctets 10 0 0 1 AND NOT (mask 8) = ofOctets 10 0 0 0" by (simp add: ofOctets_def mask_eq_exp_minus_1)
  ultimately show ?thesis by (simp add: ParseCIDR_def parseIPv4_def)
qed

lemma br_networking:
  "bridgeNetworking (brHost ok) n \<lparr>bn_Mode = ''static'', bn_Nat = False, bn_Settings = Some (JObj [(''cidr'', JStr ''10.0.0.1/24'')])\<rparr> w =
     (case find (\<lambda>a. intersect a \<lparr>net_IP = ofOctets 10 0 0 1, net_Len = 24\<rparr>) (snd w) of
        None \<Rightarrow> (Inr (), fst w, \<lparr>net_IP = ofOctets 10 0 0 1, net_Len = 24\<rparr> # snd w)
      | Some a \<Rightarrow> (Inl (BrErr (Errorf (''overlapping range with '' @ IPNet_String a @ '' on l''))), w))"
proof -
  have "ofOctets 10 0 0 0 \<noteq> ofOctets 10 0 0 1" by (simp add: ofOctets_def)
  then have "static_Validate ''10.0.0.1/24'' = None" by (simp add: static_Validate_def br_parse)
  moreover have "ParseAddr ''10.0.0.1/24'' = Some \<lparr>net_IP = ofOctets 10 0 0 1, net_Len = 24\<rparr>" by (simp add: ParseAddr_def br_parse)
  ultimately show ?thesis
    by (simp add: bridgeNetworking_def StaticBridgeNetworkMode_def bridgeStaticNetworking_def br_settings claim_addr_def conflict_def conflict_link_def
        run_dnsmasq_def br_run br_calls split: option.split)
qed

theorem bridges_disjoint_witness:
  "snd (snd (bridge_create (brHost True) brCommand ({}, []))) = [\<lparr>net_IP = ofOctets 10 0 0 1, net_Len = 24\<rparr>] \<and>
   isl (fst (bridge_create (brHost True) brCommand (snd (bridge_create (brHost True) brCommand ({}, []))))) \<and>
   apart (snd (snd (bridge_create (brHost True) brCommand ({}, []))))"
proof -
  let ?a = "\<lparr>net_IP = ofOctets 10 0 0 1, net_Len = 24\<rparr>"
  have "intersect ?a ?a" by (simp add: intersect_iff)
  moreover have one: "bridge_create (brHost True) brCommand ({}, []) = (Inr (), {''br''}, [?a])"
    by (simp add: br_create create_bridge_def br_up br_nft br_networking deleting_def br_run)
  ultimately have "isl (fst (bridge_create (brHost True) brCommand (snd (bridge_create (brHost True) brCommand ({}, [])))))"
    by (simp add: br_create create_bridge_def br_up br_nft br_networking deleting_def br_calls br_run)
  then show ?thesis using one bridges_disjoint [OF brHost_addrs, of "({}, [])" True brCommand] by (simp add: apart_def)
qed

theorem create_leftover_witness:
  "\<exists>e w1. bridge_create (brHost False) brCommand ({}, []) = (Inl e, w1) \<and> ''br'' \<in> fst w1"
proof -
  have v: "bridge_Validate \<lparr>ba_Name = ''br'', ba_HwAddress = [], ba_Network = n\<rparr> = None" for n by (simp add: bridge_Validate_def)
  show ?thesis
    using create_leftover [OF brHost_names brCommand_args v refl, of "({}, [])"] br_fails [of "({}, [])"]
    by (simp add: br_up br_nft)
qed

text \<open>A machine whose only rule translates the addresses of one network.\<close>

definition natRule :: json where
  "natRule = JObj [(''family'', JStr ''ip''), (''table'', JStr ''nat''), (''chain'', JStr ''post''), (''handle'', JNum 7),
     (''expr'', JArr [JObj [(''match'', JObj [(''left'', JObj [(''payload'', JObj [(''name'', JStr ''ip''), (''field'', JStr ''saddr'')])]),
       (''right'', JObj [(''prefix'', JObj [(''addr'', JStr ''10.0.0.0''), (''len'', JNum 24)])])])], JObj [(''masquerade'', JNull)]])]"

definition natBlock :: nft_rule where
  "natBlock = the (ruleOf natRule)"

definition natHost :: "bool bhost" where
  "natHost = \<lparr>bh_nft =
     \<lparr>h_System = (\<lambda>args w. (((NewJobResult (sampleJob [] []))\<lparr>jr_Streams := [if w then ''1'' else ''0'', []]\<rparr>, None),
                           if args = list_call then w else False)),
      h_TempFile = (\<lambda>w. (Inr ''/tmp/x'', w)), h_Write = (\<lambda>name data w. (None, w)), h_RemoveAll = (\<lambda>name w. w),
      h_unjson = (\<lambda>text. Some (JObj [(''nftables'', JArr (if text = ''1'' then [JObj [(''rule'', natRule)]] else []))]))\<rparr>,
     bh_net = idleNet, bh_RemoveAll = (\<lambda>p w. (None, w)), bh_MkdirAll = (\<lambda>p w. (None, w)), bh_WriteFile = (\<lambda>p t w. (None, w)),
     bh_Run = (\<lambda>i a f w. (None, w)), bh_Kill = (\<lambda>i w. (None, w)), bh_JobOf = (\<lambda>i w. False), bh_Signal = (\<lambda>i s w. (None, w))\<rparr>"

lemma natBlock_eq:
  "ruleOf natRule = Some natBlock"
  "natBlock = \<lparr>rb_Family = ''ip'',
     rb_Expresion = [[(''match'', JObj [(''left'', JObj [(''payload'', JObj [(''name'', JStr ''ip''), (''field'', JStr ''saddr'')])]),
       (''right'', JObj [(''prefix'', JObj [(''addr'', JStr ''10.0.0.0''), (''len'', JNum 24)])])])], [(''masquerade'', JNull)]],
     rb_Table = ''nat'', rb_Handle = 7, rb_Chain = ''post''\<rparr>"
  by (simp_all add: natBlock_def natRule_def ruleOf_def field_string_def field_array_def field_int_def lower_def)

lemma natHost_tool: "nft_tool (bh_nft natHost) (\<lambda>w. if w then [natBlock] else [])"
proof -
  have "lists (bh_nft natHost) w (if w then [natBlock] else []) w" for w
  proof -
    let ?job = "(NewJobResult (sampleJob [] []))\<lparr>jr_Streams := [if w then ''1'' else ''0'', []]\<rparr>"
    let ?es = "[(''nftables'', JArr (if w then [JObj [(''rule'', natRule)]] else []))]"
    have "h_System (bh_nft natHost) list_call w = ((?job, None), w)" by (simp add: natHost_def)
    moreover have "h_unjson (bh_nft natHost) (Stdout (jr_Streams ?job)) = Some (JObj ?es)"
      by (simp add: natHost_def Stdout_def)
    moreover have "objectOf (JObj ?es) = Some ?es" by simp
    moreover have "field_array raw_map ''nftables'' ?es = Some (if w then [[(''rule'', natRule)]] else [])"
      by (simp add: field_array_def lower_def)
    moreover have "map ruleOf (rule_messages (if w then [[(''rule'', natRule)]] else [])) = map Some (if w then [natBlock] else [])"
      by (simp add: natBlock_eq(1))
    ultimately show ?thesis unfolding lists_def by blast
  qed
  then show ?thesis
    by (rule nft_toolI [where del = "\<lambda>w r. False" and
          job = "\<lambda>w. (NewJobResult (sampleJob [] []))\<lparr>jr_Streams := [if w then ''1'' else ''0'', []]\<rparr>"])
       (simp_all add: natHost_def list_call_def split: if_splits)
qed

theorem nat_removed_witness: "unsetNAT natHost [\<lparr>net_IP = ofOctets 10 0 0 1, net_Len = 24\<rparr>] True = (Inr (), False)"
proof -
  let ?a = "\<lparr>net_IP = ofOctets 10 0 0 1, net_Len = 24\<rparr>"
  have p: "parseIPv4 ''10.0.0.0'' = Some (ofOctets 10 0 0 0)"
  proof -
    have "split (CHR ''.'') ''10.0.0.0'' = [''10'', ''0'', ''0'', ''0'']" by code_simp
    moreover have "isByte ''10'' \<and> isByte ''0''" by code_simp
    moreover have "atoi ''10'' = 10" "atoi ''0'' = 0" by code_simp+
    ultimately show ?thesis by (simp add: parseIPv4_def)
  qed
  have n: "network_of ?a = \<lparr>net_IP = ofOctets 10 0 0 0, net_Len = 24\<rparr>"
    by (simp add: network_of_def net_Mask_def ofOctets_def mask_eq_exp_minus_1)
  have m: "Match (NetworkMatchFilter ''ip'' ''saddr'' (network_of ?a)) natBlock"
    by (simp add: n [unfolded One_nat_def] natBlock_eq(2) some_exp_def matchNetworkExp_def payload_of_def prefix_of_def field_ip_def p
        field_struct_def field_string_def field_int_def lower_def)
  have ren: "\<not> isl (rendered natBlock)"
    by (simp add: rendered_def renderRule_def natBlock_eq(2) renderExp_def renderMatch_def renderLeft_def renderRight_def
        field_struct_def field_string_def field_raw_def field_array_def field_int_def lower_def)
  show ?thesis
    using nat_removed [OF natHost_tool, of True "[?a]"] m ren by (auto simp: renders_def natBlock_eq(2) split: if_splits)
qed

end
