(* ===== verification/Btrfs.thy ===== *)
theory Btrfs
  imports Pm_Command Go_Json Go_Scan Transport
begin

text \<open>
  \<^verbatim>\<open>apps/core0/builtin/btrfs/btrfs.go\<close>: the commands around the program \<^verbatim>\<open>btrfs\<close> and the parsers of what it prints.  The
  program is a parameter: \<open>sys\<close> says what a call of \<^verbatim>\<open>pm.System\<close> answers.
\<close>

section \<open>Data\<close>

record btrfs_device =
  bd_Missing :: bool
  bd_DevID :: int
  bd_Size :: int
  bd_Used :: int
  bd_Path :: string

record btrfs_fs =
  fs_Label :: string
  fs_UUID :: string
  fs_TotalDevices :: int
  fs_Used :: int
  fs_Devices :: "btrfs_device list"
  fs_Warnings :: string

record data_info =
  di_Profile :: string
  di_Total :: int
  di_Used :: int

record fs_info =
  fi_FS :: btrfs_fs
  fi_Data :: data_info
  fi_System :: data_info
  fi_MetaData :: data_info
  fi_GlobalReserve :: data_info

record btrfs_subvol =
  sv_ID :: int
  sv_Gen :: int
  sv_TopLevel :: int
  sv_Path :: string
  sv_Quota :: nat

record qgroup =
  qg_ID :: string
  qg_Rfer :: nat
  qg_Excl :: nat
  qg_MaxRfer :: nat
  qg_MaxExcl :: nat

text \<open>The answers of \<^verbatim>\<open>pm.System\<close>: no job, a job that failed, a job that succeeded.  A panic of the code is an error of its own.\<close>

datatype system_result = NotRun go_error | FailedRun job_result go_error | Ran job_result

datatype bt_error = BtErr go_error | BtPanic

type_synonym 'w system_call = "string list \<Rightarrow> 'w \<Rightarrow> system_result \<times> 'w"

definition newline :: char where "newline = CHR 0x0A"

section \<open>File systems\<close>

fun parseDevices :: "string list \<Rightarrow> btrfs_device list" where
  "parseDevices [] = []"
| "parseDevices (line # lines) =
     (if line = [] then parseDevices lines
      else case Sscanf (trimSpace line) ''devid    %d size %d used %d path %s'' of
             Some [SInt i, SInt s, SInt u, SStr p] \<Rightarrow>
               \<lparr>bd_Missing = False, bd_DevID = i, bd_Size = s, bd_Used = u, bd_Path = p\<rparr> # parseDevices lines
           | _ \<Rightarrow> parseDevices lines)"

text \<open>The loop that takes the warnings out of the lines of devices.\<close>

fun split_warnings :: "string list \<Rightarrow> string list \<times> string" where
  "split_warnings [] = ([], [])"
| "split_warnings (line # lines) =
     (case split_warnings lines of
        (valid, warnings) \<Rightarrow>
          if hasPrefix (trimSpace line) ''**'' then (valid, trimSpace line @ warnings) else (line # valid, warnings))"

text \<open>The label without its quotes; the slice of a label of one character is out of range.\<close>

definition unquote :: "string \<Rightarrow> string option" where
  "unquote label =
     (if label = ''none'' then Some label
      else if length label < 2 then None
      else Some (take (length label - 2) (drop 1 label)))"

definition parseFS :: "string list \<Rightarrow> bt_error + btrfs_fs" where
  "parseFS lines =
     (case Sscanf (lines ! 0) ''Label: %s uuid: %s'' of
        Some [SStr l, SStr uuid] \<Rightarrow>
          (case unquote l of
             None \<Rightarrow> Inl BtPanic
           | Some label \<Rightarrow>
               (case Sscanf (trimSpace (lines ! 1)) ''Total devices %d FS bytes used %d'' of
                  Some [SInt tot, SInt used] \<Rightarrow>
                    (case split_warnings (drop 2 lines) of
                       (valid, warnings) \<Rightarrow>
                         Inr \<lparr>fs_Label = label, fs_UUID = uuid, fs_TotalDevices = tot, fs_Used = used,
                              fs_Devices = parseDevices valid, fs_Warnings = warnings\<rparr>)
                | _ \<Rightarrow> Inl (BtErr (Errorf ''scan''))))
      | _ \<Rightarrow> Inl (BtErr (Errorf ''scan'')))"

text \<open>\<^verbatim>\<open>strings.Split\<close> at empty lines.\<close>

fun split_blank :: "string \<Rightarrow> string list" where
  "split_blank [] = [[]]"
| "split_blank [c] = [[c]]"
| "split_blank (c # d # s) =
     (if c = newline \<and> d = newline then [] # split_blank s
      else (case split_blank (d # s) of [] \<Rightarrow> [[c]] | p # ps \<Rightarrow> (c # p) # ps))"

text \<open>
  The loop of \<^verbatim>\<open>parseList\<close>.  A block with no label in it is sliced from -1 on, which panics; a block of less than three
  lines is skipped.
\<close>

fun parse_blocks :: "string list \<Rightarrow> bt_error + btrfs_fs list" where
  "parse_blocks [] = Inr []"
| "parse_blocks (block # blocks) =
     (if trimSpace block = [] then parse_blocks blocks
      else case index block ''Label:'' of
             None \<Rightarrow> Inl BtPanic
           | Some k \<Rightarrow>
               let fsLines = split newline (drop k block)
               in if length fsLines < 3 then parse_blocks blocks
                  else (case parseFS fsLines of
                          Inl e \<Rightarrow> Inl e
                        | Inr fs \<Rightarrow> (case parse_blocks blocks of Inl e \<Rightarrow> Inl e | Inr fss \<Rightarrow> Inr (fs # fss))))"

definition parseList :: "string \<Rightarrow> bt_error + btrfs_fs list" where
  "parseList out = parse_blocks (split_blank out)"

section \<open>Space\<close>

text \<open>The expression \<^verbatim>\<open>reBtrfsFilesystemDf\<close> from a position on, with what follows the match.\<close>

definition df_match :: "string \<Rightarrow> ((string \<times> string \<times> string \<times> string) \<times> string) option" where
  "df_match s =
     Option.bind (many1 isWord s) (\<lambda>(name, s).
     Option.bind (strip '','' s) (\<lambda>s.
     case s of [] \<Rightarrow> None | c # s \<Rightarrow> if \<not> reSpace c then None else
     Option.bind (many1 isWord s) (\<lambda>(profile, s).
     Option.bind (strip '':'' s) (\<lambda>s.
     Option.bind (many1 reSpace s) (\<lambda>(_, s).
     Option.bind (strip ''total='' s) (\<lambda>s.
     Option.bind (many1 isDigit s) (\<lambda>(total, s).
     Option.bind (strip '','' s) (\<lambda>s.
     Option.bind (many1 reSpace s) (\<lambda>(_, s).
     Option.bind (strip ''used='' s) (\<lambda>s.
     Option.bind (many1 isDigit s) (\<lambda>(used, s). Some ((name, profile, total, used), s))))))))))))"

text \<open>\<^verbatim>\<open>FindAllStringSubmatch\<close>, with as much fuel as there are positions.\<close>

fun df_all :: "nat \<Rightarrow> string \<Rightarrow> (string \<times> string \<times> string \<times> string) list" where
  "df_all 0 s = []"
| "df_all (Suc n) s =
     (case df_match s of
        Some (m, r) \<Rightarrow> m # df_all n r
      | None \<Rightarrow> (case s of [] \<Rightarrow> [] | c # r \<Rightarrow> df_all n r))"

definition upd_info :: "string \<Rightarrow> (data_info \<Rightarrow> data_info) \<Rightarrow> fs_info \<Rightarrow> fs_info option" where
  "upd_info name f i =
     (if name = ''Data'' then Some (i\<lparr>fi_Data := f (fi_Data i)\<rparr>)
      else if name = ''System'' then Some (i\<lparr>fi_System := f (fi_System i)\<rparr>)
      else if name = ''Metadata'' then Some (i\<lparr>fi_MetaData := f (fi_MetaData i)\<rparr>)
      else if name = ''GlobalReserve'' then Some (i\<lparr>fi_GlobalReserve := f (fi_GlobalReserve i)\<rparr>)
      else None)"

text \<open>
  The loop of \<^verbatim>\<open>parseFilesystemDF\<close>; a number out of range is stored saturated before the error is returned.
\<close>

fun df_lines :: "(string \<times> string \<times> string \<times> string) list \<Rightarrow> fs_info \<Rightarrow> go_error option \<times> fs_info" where
  "df_lines [] i = (None, i)"
| "df_lines ((name, profile, tot, usd) # ms) i =
     (let (t, te) = parseInt 64 tot; (u, ue) = parseInt 64 usd;
          store = (\<lambda>d. if te \<noteq> None then d\<lparr>di_Profile := profile, di_Total := t\<rparr>
                        else d\<lparr>di_Profile := profile, di_Total := t, di_Used := u\<rparr>)
      in case upd_info name store i of
           None \<Rightarrow> df_lines ms i
         | Some i1 \<Rightarrow> if te \<noteq> None \<or> ue \<noteq> None then (Some (Errorf ''value out of range''), i1) else df_lines ms i1)"

definition parseFilesystemDF :: "string \<Rightarrow> fs_info \<Rightarrow> go_error option \<times> fs_info" where
  "parseFilesystemDF out i = df_lines (df_all (Suc (length out)) out) i"

section \<open>Volumes and quotas\<close>

fun subvol_lines :: "string list \<Rightarrow> go_error + btrfs_subvol list" where
  "subvol_lines [] = Inr []"
| "subvol_lines (line # lines) =
     (if trimSpace line = [] then subvol_lines lines
      else case Sscanf (trimSpace line) ''ID %d gen %d top level %d path %s'' of
             Some [SInt i, SInt g, SInt t, SStr p] \<Rightarrow>
               (case subvol_lines lines of
                  Inl e \<Rightarrow> Inl e
                | Inr svs \<Rightarrow> Inr (\<lparr>sv_ID = i, sv_Gen = g, sv_TopLevel = t, sv_Path = p, sv_Quota = 0\<rparr> # svs))
           | _ \<Rightarrow> Inl (Errorf ''scan''))"

definition parseSubvolList :: "string \<Rightarrow> go_error + btrfs_subvol list" where
  "parseSubvolList out = subvol_lines (split newline out)"

definition limit_field :: "string \<Rightarrow> (string \<times> string) option" where
  "limit_field s = orElse (many1 isDigit s) (map_option (Pair ''none'') (strip ''none'' s))"

text \<open>The expression \<^verbatim>\<open>reBtrfsQgroup\<close> at the start of a line; the match ends with a line.\<close>

definition qgroup_match :: "string \<Rightarrow> ((string \<times> string \<times> string \<times> string \<times> string) \<times> string) option" where
  "qgroup_match s =
     Option.bind (many1 isDigit s) (\<lambda>(a, s).
     Option.bind (strip ''/'' s) (\<lambda>s.
     Option.bind (many1 isDigit s) (\<lambda>(b, s).
     Option.bind (many1 reSpace s) (\<lambda>(_, s).
     Option.bind (many1 isDigit s) (\<lambda>(rfer, s).
     Option.bind (many1 reSpace s) (\<lambda>(_, s).
     Option.bind (many1 isDigit s) (\<lambda>(excl, s).
     Option.bind (many1 reSpace s) (\<lambda>(_, s).
     Option.bind (limit_field s) (\<lambda>(mr, s).
     Option.bind (many1 reSpace s) (\<lambda>(_, s).
     Option.bind (limit_field s) (\<lambda>(me, s).
     Some ((a @ ''/'' @ b, rfer, excl, mr, me), dropWhile (\<lambda>c. c \<noteq> newline) s))))))))))))"

definition next_line :: "string \<Rightarrow> string" where
  "next_line s = tl (dropWhile (\<lambda>c. c \<noteq> newline) s)"

fun qgroup_all :: "nat \<Rightarrow> string \<Rightarrow> (string \<times> string \<times> string \<times> string \<times> string) list" where
  "qgroup_all 0 s = []"
| "qgroup_all (Suc n) s =
     (case qgroup_match s of
        Some (m, r) \<Rightarrow> m # (if newline \<in> set r then qgroup_all n (next_line r) else [])
      | None \<Rightarrow> if newline \<in> set s then qgroup_all n (next_line s) else [])"

definition qgroup_of :: "string \<times> string \<times> string \<times> string \<times> string \<Rightarrow> qgroup" where
  "qgroup_of m =
     (case m of (i, rfer, excl, mr, me) \<Rightarrow>
        \<lparr>qg_ID = i, qg_Rfer = fst (parseUint 64 rfer), qg_Excl = fst (parseUint 64 excl),
         qg_MaxRfer = (if mr \<noteq> ''none'' then fst (parseUint 64 mr) else 0),
         qg_MaxExcl = (if me \<noteq> ''none'' then fst (parseUint 64 me) else 0)\<rparr>)"

definition parseQGroups :: "string \<Rightarrow> string \<rightharpoonup> qgroup" where
  "parseQGroups s = foldl (\<lambda>m q. m(qg_ID q \<mapsto> q)) Map.empty (map qgroup_of (qgroup_all (Suc (length s)) s))"

definition btrfs :: "'w system_call \<Rightarrow> string list \<Rightarrow> 'w \<Rightarrow> system_result \<times> 'w" where
  "btrfs sys args = sys (''btrfs'' # args)"

text \<open>The error of a call whose result is not looked at.\<close>

definition result_err :: "system_result \<Rightarrow> go_error option" where
  "result_err r = (case r of NotRun e \<Rightarrow> Some e | FailedRun j e \<Rightarrow> Some e | Ran j \<Rightarrow> None)"

text \<open>
  \<^verbatim>\<open>getQGroups\<close>: \<^verbatim>\<open>IndexAny\<close> asks for any character of its text, not for the text.  When there is none in the error
  output the groups are read from the output of the failed call.
\<close>

definition indexAny :: "string \<Rightarrow> string \<Rightarrow> bool" where
  "indexAny s chars = list_ex (\<lambda>c. c \<in> set chars) s"

definition getQGroups :: "'w system_call \<Rightarrow> string \<Rightarrow> 'w \<Rightarrow> (go_error + (string \<rightharpoonup> qgroup)) \<times> 'w" where
  "getQGroups sys path w =
     (case btrfs sys [''qgroup'', ''show'', ''-re'', ''--raw'', path] w of
        (NotRun e, w1) \<Rightarrow> (Inl e, w1)
      | (FailedRun job e, w1) \<Rightarrow>
          (if indexAny (Stderr (jr_Streams job)) ''No such file or directory'' then Inr Map.empty
           else Inr (parseQGroups (Stdout (jr_Streams job))), w1)
      | (Ran job, w1) \<Rightarrow> (Inr (parseQGroups (Stdout (jr_Streams job))), w1))"

definition set_quota :: "(string \<rightharpoonup> qgroup) \<Rightarrow> btrfs_subvol \<Rightarrow> btrfs_subvol" where
  "set_quota qgroups v =
     (case qgroups (''0/'' @ itoaInt (sv_ID v)) of None \<Rightarrow> v | Some g \<Rightarrow> v\<lparr>sv_Quota := qg_MaxRfer g\<rparr>)"

section \<open>Commands\<close>

definition Profiles :: "string set" where
  "Profiles = {''raid0'', ''raid1'', ''raid5'', ''raid6'', ''raid10'', ''dup'', ''single'', []}"

record bt_create_args =
  bc_Label :: string
  bc_Metadata :: string
  bc_Data :: string
  bc_Devices :: "string list"
  bc_Overwrite :: bool

definition bt_create_args_of :: "json \<Rightarrow> bt_create_args option" where
  "bt_create_args_of j =
     Option.bind (objectOf j) (\<lambda>es.
       case (field_string ''label'' es, field_string ''metadata'' es, field_string ''data'' es, field_array elem_string ''devices'' es,
             field_bool ''overwrite'' es) of
         (Some l, Some m, Some d, Some ds, Some f) \<Rightarrow>
           Some \<lparr>bc_Label = l, bc_Metadata = m, bc_Data = d, bc_Devices = ds, bc_Overwrite = f\<rparr>
       | _ \<Rightarrow> None)"

definition bt_Validate :: "bt_create_args \<Rightarrow> go_error option" where
  "bt_Validate arg =
     (if length (bc_Devices arg) = 0 then Some (Errorf ''need to specify devices to create btrfs'')
      else if bc_Metadata arg \<notin> Profiles then Some (Errorf ''invalid metadata profile:{}'')
      else if bc_Data arg \<notin> Profiles then Some (Errorf ''invalid data profile:{}'')
      else None)"

definition mkfs_options :: "bt_create_args \<Rightarrow> string list" where
  "mkfs_options args =
     (if bc_Overwrite args then [''-f''] else []) @
     (if bc_Label args \<noteq> [] then [''-L'', bc_Label args] else []) @
     (if bc_Metadata args \<noteq> [] then [''-m'', bc_Metadata args] else []) @
     (if bc_Data args \<noteq> [] then [''-d'', bc_Data args] else []) @
     bc_Devices args"

text \<open>A command that only calls the program.\<close>

definition run_only :: "'w system_call \<Rightarrow> string list \<Rightarrow> 'w \<Rightarrow> bt_error option \<times> 'w" where
  "run_only sys args w = (case sys args w of (r, w1) \<Rightarrow> (map_option BtErr (result_err r), w1))"

definition bt_json :: bt_error where "bt_json = BtErr (Errorf ''json'')"

definition bt_Create :: "'w system_call \<Rightarrow> json \<Rightarrow> 'w \<Rightarrow> bt_error option \<times> 'w" where
  "bt_Create sys cmd w =
     (case bt_create_args_of cmd of
        None \<Rightarrow> (Some bt_json, w)
      | Some args \<Rightarrow>
          (case bt_Validate args of
             Some e \<Rightarrow> (Some (BtErr e), w)
           | None \<Rightarrow> run_only sys (''mkfs.btrfs'' # mkfs_options args) w))"

definition device_args_of :: "json \<Rightarrow> (string \<times> string list) option" where
  "device_args_of j =
     Option.bind (objectOf j) (\<lambda>es.
       case (field_string ''mountpoint'' es, field_array elem_string ''devices'' es) of
         (Some m, Some ds) \<Rightarrow> Some (m, ds)
       | _ \<Rightarrow> None)"

definition DeviceAdd :: "'w system_call \<Rightarrow> json \<Rightarrow> 'w \<Rightarrow> bt_error option \<times> 'w" where
  "DeviceAdd sys cmd w =
     (case device_args_of cmd of
        None \<Rightarrow> (Some bt_json, w)
      | Some (mountpoint, devices) \<Rightarrow> run_only (btrfs sys) ([''device'', ''add'', ''-K'', ''-f''] @ devices @ [mountpoint]) w)"

definition DeviceRemove :: "'w system_call \<Rightarrow> json \<Rightarrow> 'w \<Rightarrow> bt_error option \<times> 'w" where
  "DeviceRemove sys cmd w =
     (case device_args_of cmd of
        None \<Rightarrow> (Some bt_json, w)
      | Some (mountpoint, devices) \<Rightarrow> run_only (btrfs sys) ([''device'', ''remove''] @ devices @ [mountpoint]) w)"

definition bt_list :: "'w system_call \<Rightarrow> string list \<Rightarrow> 'w \<Rightarrow> (bt_error + btrfs_fs list) \<times> 'w" where
  "bt_list sys args w =
     (case btrfs sys ([''filesystem'', ''show'', ''--raw''] @ args) w of
        (Ran job, w1) \<Rightarrow> (parseList (Stdout (jr_Streams job)), w1)
      | (NotRun e, w1) \<Rightarrow> (Inl (BtErr e), w1)
      | (FailedRun job e, w1) \<Rightarrow> (Inl (BtErr e), w1))"

definition bt_List :: "'w system_call \<Rightarrow> 'w \<Rightarrow> (bt_error + btrfs_fs list) \<times> 'w" where
  "bt_List sys = bt_list sys []"

definition no_info :: data_info where "no_info = \<lparr>di_Profile = [], di_Total = 0, di_Used = 0\<rparr>"

definition string_arg :: "string \<Rightarrow> json \<Rightarrow> string option" where
  "string_arg f j = Option.bind (objectOf j) (field_string f)"

text \<open>\<^verbatim>\<open>Info\<close>: the first file system of the listing is taken without looking whether there is one.\<close>

definition bt_Info :: "'w system_call \<Rightarrow> json \<Rightarrow> 'w \<Rightarrow> (bt_error + fs_info) \<times> 'w" where
  "bt_Info sys cmd w =
     (case string_arg ''mountpoint'' cmd of
        None \<Rightarrow> (Inl bt_json, w)
      | Some mountpoint \<Rightarrow>
          (case bt_list sys [mountpoint] w of
             (Inl e, w1) \<Rightarrow> (Inl e, w1)
           | (Inr fss, w1) \<Rightarrow>
               (case btrfs sys [''filesystem'', ''df'', ''--raw'', mountpoint] w1 of
                  (Ran job, w2) \<Rightarrow>
                    (case fss of
                       [] \<Rightarrow> (Inl BtPanic, w2)
                     | fs # _ \<Rightarrow>
                         (case parseFilesystemDF (Stdout (jr_Streams job))
                                 \<lparr>fi_FS = fs, fi_Data = no_info, fi_System = no_info, fi_MetaData = no_info, fi_GlobalReserve = no_info\<rparr> of
                            (None, i) \<Rightarrow> (Inr i, w2)
                          | (Some e, i) \<Rightarrow> (Inl (BtErr e), w2)))
                | (NotRun e, w2) \<Rightarrow> (Inl (BtErr e), w2)
                | (FailedRun job e, w2) \<Rightarrow> (Inl (BtErr e), w2))))"

text \<open>The path of the volume commands.\<close>

definition subvol_path :: "json \<Rightarrow> bt_error + string" where
  "subvol_path cmd =
     (case string_arg ''path'' cmd of
        None \<Rightarrow> Inl bt_json
      | Some p \<Rightarrow> if p = [] \<or> \<not> hasPrefix p ''/'' then Inl (BtErr (Errorf (''invalid path='' @ p))) else Inr p)"

definition SubvolCreate :: "'w system_call \<Rightarrow> json \<Rightarrow> 'w \<Rightarrow> bt_error option \<times> 'w" where
  "SubvolCreate sys cmd w =
     (case subvol_path cmd of Inl e \<Rightarrow> (Some e, w) | Inr p \<Rightarrow> run_only (btrfs sys) [''subvolume'', ''create'', p] w)"

definition SubvolDelete :: "'w system_call \<Rightarrow> json \<Rightarrow> 'w \<Rightarrow> bt_error option \<times> 'w" where
  "SubvolDelete sys cmd w =
     (case subvol_path cmd of Inl e \<Rightarrow> (Some e, w) | Inr p \<Rightarrow> run_only (btrfs sys) [''subvolume'', ''delete'', p] w)"

definition SubvolQuota :: "'w system_call \<Rightarrow> json \<Rightarrow> 'w \<Rightarrow> bt_error option \<times> 'w" where
  "SubvolQuota sys cmd w =
     (case string_arg ''limit'' cmd of
        None \<Rightarrow> (Some bt_json, w)
      | Some limit \<Rightarrow>
          (case subvol_path cmd of
             Inl e \<Rightarrow> (Some e, w)
           | Inr p \<Rightarrow>
               (case run_only (btrfs sys) [''quota'', ''enable'', p] w of
                  (Some e, w1) \<Rightarrow> (Some e, w1)
                | (None, w1) \<Rightarrow> run_only (btrfs sys) [''qgroup'', ''limit'', limit, p] w1)))"

definition SubvolSnapshot :: "'w system_call \<Rightarrow> json \<Rightarrow> 'w \<Rightarrow> bt_error option \<times> 'w" where
  "SubvolSnapshot sys cmd w =
     (case (string_arg ''source'' cmd, string_arg ''destination'' cmd, Option.bind (objectOf cmd) (field_bool ''read_only'')) of
        (Some src, Some dst, Some ro) \<Rightarrow>
          run_only (btrfs sys) ([''subvolume'', ''snapshot''] @ (if ro then [''-r''] else []) @ [src, dst]) w
      | _ \<Rightarrow> (Some bt_json, w))"

definition SubvolList :: "'w system_call \<Rightarrow> json \<Rightarrow> 'w \<Rightarrow> (bt_error + btrfs_subvol list) \<times> 'w" where
  "SubvolList sys cmd w =
     (case subvol_path cmd of
        Inl e \<Rightarrow> (Inl e, w)
      | Inr p \<Rightarrow>
          (case btrfs sys [''subvolume'', ''list'', ''-o'', p] w of
             (NotRun e, w1) \<Rightarrow> (Inl (BtErr e), w1)
           | (FailedRun job e, w1) \<Rightarrow> (Inl (BtErr e), w1)
           | (Ran job, w1) \<Rightarrow>
               (case parseSubvolList (Stdout (jr_Streams job)) of
                  Inl e \<Rightarrow> (Inl (BtErr e), w1)
                | Inr volumes \<Rightarrow>
                    (case getQGroups sys p w1 of
                       (Inl e, w2) \<Rightarrow> (Inl (BtErr e), w2)
                     | (Inr qgroups, w2) \<Rightarrow> (Inr (map (set_quota qgroups) volumes), w2)))))"

section \<open>What the program prints\<close>

definition dev_line :: "btrfs_device \<Rightarrow> string" where
  "dev_line d = ''devid    '' @ itoaInt (bd_DevID d) @ '' size '' @ itoaInt (bd_Size d) @ '' used '' @ itoaInt (bd_Used d) @ '' path '' @ bd_Path d"

definition fs_lines :: "btrfs_fs \<Rightarrow> string list" where
  "fs_lines fs =
     [''Label: '' @ (if fs_Label fs = ''none'' then ''none'' else [CHR 0x27] @ fs_Label fs @ [CHR 0x27]) @ ''  uuid: '' @ fs_UUID fs,
      CHR 0x09 # ''Total devices '' @ itoaInt (fs_TotalDevices fs) @ '' FS bytes used '' @ itoaInt (fs_Used fs)] @
     map (\<lambda>d. CHR 0x09 # dev_line d) (fs_Devices fs) @
     (if fs_Warnings fs = [] then [] else [CHR 0x09 # fs_Warnings fs])"

definition show_list :: "btrfs_fs list \<Rightarrow> string" where
  "show_list fss = concat (map (\<lambda>fs. join [newline] (fs_lines fs) @ [newline, newline]) fss)"

definition int63 :: "int \<Rightarrow> bool" where "int63 i \<longleftrightarrow> 0 \<le> i \<and> i < 2 ^ 63"

definition wf_device :: "btrfs_device \<Rightarrow> bool" where
  "wf_device d \<longleftrightarrow> \<not> bd_Missing d \<and> int63 (bd_DevID d) \<and> int63 (bd_Size d) \<and> int63 (bd_Used d) \<and> solid (bd_Path d)"

definition wf_fs :: "btrfs_fs \<Rightarrow> bool" where
  "wf_fs fs \<longleftrightarrow> list_all (\<lambda>c. c \<notin> set goSpace) (fs_Label fs) \<and> solid (fs_UUID fs) \<and> int63 (fs_TotalDevices fs) \<and> int63 (fs_Used fs) \<and>
     list_all wf_device (fs_Devices fs) \<and> fs_Devices fs \<noteq> [] \<and>
     (fs_Warnings fs \<noteq> [] \<longrightarrow> hasPrefix (fs_Warnings fs) ''**'' \<and> last (fs_Warnings fs) \<notin> set goSpace \<and> newline \<notin> set (fs_Warnings fs))"

lemma itoaInt_nat: "int63 i \<Longrightarrow> itoaInt i = itoa (nat i) \<and> nat i < 2 ^ 63 \<and> int (nat i) = i"
  by (simp add: int63_def itoaInt_def nat_less_iff)

lemma fmt_evals:
  "fmt_items ''devid    %d size %d used %d path %s'' =
     map FLit ''devid'' @ [FSpace, FInt, FSpace] @ map FLit ''size'' @ [FSpace, FInt, FSpace] @ map FLit ''used'' @ [FSpace, FInt, FSpace] @
     map FLit ''path'' @ [FSpace, FStr]"
  "fmt_items ''Label: %s uuid: %s'' = map FLit ''Label:'' @ [FSpace, FStr, FSpace] @ map FLit ''uuid:'' @ [FSpace, FStr]"
  "fmt_items ''Total devices %d FS bytes used %d'' =
     map FLit ''Total'' @ [FSpace] @ map FLit ''devices'' @ [FSpace, FInt, FSpace] @ map FLit ''FS'' @ [FSpace] @ map FLit ''bytes'' @ [FSpace] @
     map FLit ''used'' @ [FSpace, FInt]"
  by code_simp+

lemma solid_itoa: "hd (itoa n @ s) \<notin> set goSpace" "last (itoa n) \<notin> set goSpace"
proof -
  have c: "\<forall>c \<in> set (itoa n). c \<notin> set goSpace" using itoa_digits [of n] solid_digits by (auto simp: list_all_iff)
  show "hd (itoa n @ s) \<notin> set goSpace" using c by (simp add: hd_append)
  show "last (itoa n) \<notin> set goSpace" using c by simp
qed

lemma blank_one: "s = [] \<or> hd s \<notin> set goSpace \<Longrightarrow> scan_blank (CHR '' '' # s) = Some s"
  by (cases s) (auto simp: scan_blank_def goSpace_def)

lemma scan_num: "int63 i \<Longrightarrow> s = [] \<or> \<not> isDigit (hd s) \<Longrightarrow> scan_int (itoaInt i @ s) = Some (i, s)"
  using scan_int_itoa [of "nat i" s] itoaInt_nat [of i] by simp

lemma scan_num_end: "int63 i \<Longrightarrow> scan_int (itoaInt i) = Some (i, [])"
  using scan_num [of i "[]"] by simp

lemma scan_word: "solid w \<Longrightarrow> s = [] \<or> hd s \<in> set goSpace \<Longrightarrow> scan_str (w @ s) = Some (w, s)"
proof -
  assume w: "solid w" "s = [] \<or> hd s \<in> set goSpace"
  have "hd (w @ s) \<notin> set goSpace" using w(1) by (cases w) (auto simp: solid_def)
  then have "skipSpace (w @ s) = Some (w @ s)" by (intro skipSpace_solid) simp
  moreover have "takeWhile (\<lambda>c. c \<notin> set goSpace) (w @ s) = w" "dropWhile (\<lambda>c. c \<notin> set goSpace) (w @ s) = s"
    using w by (cases s; simp add: solid_def takeWhile_append dropWhile_append)+
  ultimately show ?thesis using w(1) by (simp add: scan_str_def many1_def solid_def)
qed

lemma scan_word_end: "solid w \<Longrightarrow> scan_str w = Some (w, [])"
  using scan_word [of w "[]"] by simp

lemma hd_itoaInt: "int63 i \<Longrightarrow> hd (itoaInt i @ s) \<notin> set goSpace" "int63 i \<Longrightarrow> hd (itoaInt i) \<notin> set goSpace" "itoaInt i \<noteq> []"
  using solid_itoa(1) [of "nat i" s] solid_itoa(1) [of "nat i" "[]"] itoaInt_nat [of i] by (simp_all add: itoaInt_def)

lemma hd_solid: "solid w \<Longrightarrow> hd w \<notin> set goSpace" "solid w \<Longrightarrow> hd (w @ s) \<notin> set goSpace"
  by (cases w, auto simp: solid_def)+

lemma letters: "isDigit (CHR '' '') = False" "CHR '' '' \<in> set goSpace" "CHR ''s'' \<notin> set goSpace" "CHR ''u'' \<notin> set goSpace" "CHR ''p'' \<notin> set goSpace"
  "CHR ''d'' \<notin> set goSpace" "CHR ''F'' \<notin> set goSpace" "CHR ''b'' \<notin> set goSpace" "CHR ''T'' \<notin> set goSpace" "CHR 0x27 \<notin> set goSpace"
  by (simp_all add: isDigit_def goSpace_def)

lemmas scan_eval = scan_num scan_num_end scan_word scan_word_end blank_one hd_itoaInt hd_solid letters

lemma four_blanks: "s = [] \<or> hd s \<notin> set goSpace \<Longrightarrow> scan_blank (CHR '' '' # CHR '' '' # CHR '' '' # CHR '' '' # s) = Some s"
  by (cases s) (auto simp: scan_blank_def goSpace_def)

lemma two_blanks: "s = [] \<or> hd s \<notin> set goSpace \<Longrightarrow> scan_blank (CHR '' '' # CHR '' '' # s) = Some s"
  by (cases s) (auto simp: scan_blank_def goSpace_def)

lemma scan_dev: "wf_device d \<Longrightarrow>
  Sscanf (dev_line d) ''devid    %d size %d used %d path %s'' = Some [SInt (bd_DevID d), SInt (bd_Size d), SInt (bd_Used d), SStr (bd_Path d)]"
  unfolding Sscanf_def fmt_evals dev_line_def wf_device_def by (simp add: scan_eval four_blanks)

lemma scan_totals: "int63 n \<Longrightarrow> int63 u \<Longrightarrow>
  Sscanf (''Total devices '' @ itoaInt n @ '' FS bytes used '' @ itoaInt u) ''Total devices %d FS bytes used %d'' = Some [SInt n, SInt u]"
  unfolding Sscanf_def fmt_evals by (simp add: scan_eval)

lemma scan_label: "solid l \<Longrightarrow> solid u \<Longrightarrow> Sscanf (''Label: '' @ l @ ''  uuid: '' @ u) ''Label: %s uuid: %s'' = Some [SStr l, SStr u]"
  unfolding Sscanf_def fmt_evals by (simp add: scan_eval two_blanks)


lemma tab_blank: "\<forall>c \<in> set [CHR 0x09]. c \<in> set goSpace"
  by (simp add: goSpace_def)

lemma trim_tab: "w \<noteq> [] \<Longrightarrow> hd w \<notin> set goSpace \<Longrightarrow> last w \<notin> set goSpace \<Longrightarrow> trimSpace (CHR 0x09 # w) = w"
  using trimSpace_solid [OF _ _ _ tab_blank, of w] by simp

lemma dev_line_trim: "wf_device d \<Longrightarrow> trimSpace (CHR 0x09 # dev_line d) = dev_line d"
proof (rule trim_tab)
  assume "wf_device d"
  then have p: "bd_Path d \<noteq> []" "last (bd_Path d) \<notin> set goSpace" by (auto simp: wf_device_def solid_def)
  then show "last (dev_line d) \<notin> set goSpace" by (simp add: dev_line_def)
qed (simp_all add: dev_line_def letters)

lemma parse_devices: "list_all wf_device ds \<Longrightarrow> parseDevices (map (\<lambda>d. CHR 0x09 # dev_line d) ds) = ds"
  by (induction ds) (simp_all add: dev_line_trim scan_dev, simp add: wf_device_def)

lemma no_warnings: "list_all wf_device ds \<Longrightarrow>
  split_warnings (map (\<lambda>d. CHR 0x09 # dev_line d) ds @ ws) = (map (\<lambda>d. CHR 0x09 # dev_line d) ds @ fst (split_warnings ws), snd (split_warnings ws))"
  by (induction ds) (auto simp: dev_line_trim split: prod.split, simp add: dev_line_def)

lemma warning_line:
  assumes "hasPrefix w ''**''" "last w \<notin> set goSpace"
  shows "split_warnings [CHR 0x09 # w] = ([], w)"
proof -
  obtain t where "w = ''**'' @ t" using assms(1) by (auto simp: hasPrefix_iff)
  then have "trimSpace (CHR 0x09 # w) = w" using assms(2) by (intro trim_tab) (simp_all add: goSpace_def)
  then show ?thesis using assms(1) by simp
qed

lemma parse_fs: "wf_fs fs \<Longrightarrow> parseFS (fs_lines fs) = Inr fs"
proof -
  assume wf: "wf_fs fs"
  let ?l = "if fs_Label fs = ''none'' then ''none'' else [CHR 0x27] @ fs_Label fs @ [CHR 0x27]"
  have l: "solid ?l" "unquote ?l = Some (fs_Label fs)"
    using wf by (auto simp: solid_def unquote_def wf_fs_def list_all_iff goSpace_def)
  have "trimSpace (CHR 0x09 # ''Total devices '' @ itoaInt (fs_TotalDevices fs) @ '' FS bytes used '' @ itoaInt (fs_Used fs)) =
      ''Total devices '' @ itoaInt (fs_TotalDevices fs) @ '' FS bytes used '' @ itoaInt (fs_Used fs)"
    using wf solid_itoa(2) [of "nat (fs_Used fs)"] itoaInt_nat [of "fs_Used fs"] by (intro trim_tab) (simp_all add: wf_fs_def letters)
  moreover have "split_warnings (drop 2 (fs_lines fs)) = (map (\<lambda>d. CHR 0x09 # dev_line d) (fs_Devices fs), fs_Warnings fs)"
    using wf no_warnings [of "fs_Devices fs"] warning_line [of "fs_Warnings fs"] by (auto simp: fs_lines_def wf_fs_def)
  moreover have "parseDevices (map (\<lambda>d. CHR 0x09 # dev_line d) (fs_Devices fs)) = fs_Devices fs"
    using wf by (intro parse_devices) (simp add: wf_fs_def)
  moreover have "fs_lines fs ! 0 = ''Label: '' @ ?l @ ''  uuid: '' @ fs_UUID fs"
    "fs_lines fs ! 1 = CHR 0x09 # ''Total devices '' @ itoaInt (fs_TotalDevices fs) @ '' FS bytes used '' @ itoaInt (fs_Used fs)"
    by (simp_all add: fs_lines_def)
  moreover have "solid (fs_UUID fs)" "int63 (fs_TotalDevices fs)" "int63 (fs_Used fs)" using wf by (simp_all add: wf_fs_def)
  ultimately show ?thesis
    using l scan_label [of ?l "fs_UUID fs"] scan_totals [of "fs_TotalDevices fs" "fs_Used fs"] by (simp only: parseFS_def) simp
qed


fun single :: "string \<Rightarrow> bool" where
  "single [] = True"
| "single [c] = (c \<noteq> newline)"
| "single (c # d # s) = (\<not> (c = newline \<and> d = newline) \<and> single (d # s))"

lemma split_blank_block: "single b \<Longrightarrow> split_blank (b @ newline # newline # s) = b # split_blank s"
proof (induction b rule: single.induct)
  case (3 c d b)
  then show ?case by (auto split: list.splits)
qed simp_all

lemma single_line: "l \<noteq> [] \<Longrightarrow> newline \<notin> set l \<Longrightarrow> s = [] \<or> single s \<and> hd s = newline \<Longrightarrow> single (l @ s)"
proof (induction l rule: single.induct)
  case (2 c)
  then show ?case by (cases s) auto
next
  case (3 c d b)
  then show ?case by auto
qed simp

lemma single_lines: "ls \<noteq> [] \<Longrightarrow> \<forall>l \<in> set ls. l \<noteq> [] \<and> newline \<notin> set l \<Longrightarrow> single (join [newline] ls)"
proof (induction ls)
  case (Cons l ls)
  show ?case
  proof (cases ls)
    case Nil
    then show ?thesis using Cons.prems single_line [of l "[]"] by simp
  next
    case (Cons m ms)
    then have s: "single (join [newline] ls)" using Cons.IH Cons.prems by simp
    moreover have "join [newline] ls \<noteq> [] \<and> hd (join [newline] ls) \<noteq> newline"
      using Cons Cons.prems by (cases m; cases ms) auto
    ultimately have "single (newline # join [newline] ls)" by (cases "join [newline] ls") auto
    then show ?thesis using Cons Cons.prems single_line [of l "newline # join [newline] ls"] by (simp add: join_Cons)
  qed
qed simp


lemma no_newline: "solid w \<Longrightarrow> newline \<notin> set w" "newline \<notin> set (itoaInt i)" "list_all (\<lambda>c. c \<notin> set goSpace) l \<Longrightarrow> newline \<notin> set l"
proof -
  have "newline \<in> set goSpace" by (simp add: newline_def goSpace_def)
  then show "solid w \<Longrightarrow> newline \<notin> set w" "list_all (\<lambda>c. c \<notin> set goSpace) l \<Longrightarrow> newline \<notin> set l" by (auto simp: solid_def list_all_iff)
  show "newline \<notin> set (itoaInt i)"
    using itoa_digits digit_not_in [of _ newline] by (auto simp: itoaInt_def newline_def isDigit_def)
qed

lemma dev_line_ok: "wf_device d \<Longrightarrow> newline \<notin> set (dev_line d)"
  using no_newline [unfolded newline_def] by (simp add: dev_line_def wf_device_def newline_def)

lemma fs_lines_ok: "wf_fs fs \<Longrightarrow> \<forall>l \<in> set (fs_lines fs). l \<noteq> [] \<and> newline \<notin> set l"
proof -
  assume wf: "wf_fs fs"
  then have u: "newline \<notin> set (fs_UUID fs)" "newline \<notin> set (fs_Label fs)" "newline \<notin> set (fs_Warnings fs)"
    using no_newline by (auto simp: wf_fs_def)
  have d: "\<forall>d \<in> set (fs_Devices fs). newline \<notin> set (dev_line d)" using wf dev_line_ok by (simp add: wf_fs_def list_all_iff)
  show ?thesis
    using u d no_newline(2) [unfolded newline_def] by (simp add: fs_lines_def newline_def)
qed

lemma fs_lines_some: "fs_lines fs \<noteq> []"
  by (simp add: fs_lines_def)

lemma block_read:
  assumes "wf_fs fs"
  shows "parse_blocks (join [newline] (fs_lines fs) # bs) = (case parse_blocks bs of Inl e \<Rightarrow> Inl e | Inr fss \<Rightarrow> Inr (fs # fss))"
proof -
  let ?b = "join [newline] (fs_lines fs)"
  have "fs_lines fs = hd (fs_lines fs) # tl (fs_lines fs)" "tl (fs_lines fs) \<noteq> []" by (simp_all add: fs_lines_def)
  then have "\<exists>t. ?b = hd (fs_lines fs) @ t" by (metis join_Cons)
  then obtain t where t: "?b = ''Label:'' @ t" by (auto simp: fs_lines_def)
  have "split newline ?b = fs_lines fs"
    using fs_lines_ok [OF assms] fs_lines_some by (intro split_join) auto
  moreover have "\<not> length (fs_lines fs) < 3" using assms by (cases "fs_Devices fs") (auto simp: fs_lines_def wf_fs_def)
  moreover have "trimSpace ?b \<noteq> []"
    unfolding t by (auto simp: trimSpace_def trim_def trimLeft_def trimRight_def goSpace_def dropWhile_append)
  ultimately show ?thesis using parse_fs [OF assms] by (simp add: t Let_def)
qed


definition sampleFs :: btrfs_fs where
  "sampleFs = \<lparr>fs_Label = ''two'', fs_UUID = ''5efa'', fs_TotalDevices = 2, fs_Used = 294912,
     fs_Devices = [\<lparr>bd_Missing = False, bd_DevID = 1, bd_Size = 1048576000, bd_Used = 218103808, bd_Path = ''/dev/loop1''\<rparr>],
     fs_Warnings = ''*** Some devices missing''\<rparr>"


lemma scan_blank_label:
  assumes "solid a" "solid b" "hd b \<noteq> CHR ''u''"
  shows "Sscanf (''Label: '' @ a @ '' '' @ b @ t) ''Label: %s uuid: %s'' = None"
proof -
  obtain c d where b: "b = c # d" using assms(2) by (cases b) (auto simp: solid_def)
  then have "c \<notin> set goSpace" "c \<noteq> CHR ''u''" using assms(2,3) by (auto simp: solid_def)
  then show ?thesis
    unfolding Sscanf_def fmt_evals using assms(1) b by (simp add: scan_eval)
qed

text \<open>
  Where the commands fail: a part of the listing that names no file system makes the parser panic, and so does \<^verbatim>\<open>Info\<close> on a
  mount point for which nothing is listed; one file system whose label has a blank in it makes the whole listing an error.
\<close>

theorem listing_limits:
  "(trimSpace block \<noteq> [] \<and> index block ''Label:'' = None \<longrightarrow> parse_blocks (block # blocks) = Inl BtPanic) \<and>
   (string_arg ''mountpoint'' cmd = Some mp \<and> bt_list sys [mp] w = (Inr [], w1) \<and> btrfs sys [''filesystem'', ''df'', ''--raw'', mp] w1 = (Ran job, w2) \<longrightarrow>
      bt_Info sys cmd w = (Inl BtPanic, w2)) \<and>
   (solid a \<and> solid b \<and> hd b \<noteq> CHR ''u'' \<longrightarrow> isl (parseFS ((''Label: '' @ a @ '' '' @ b @ t) # ls)))"
  using scan_blank_label [of a b t] by (simp add: bt_Info_def parseFS_def)

theorem listing_limits_witness:
  "parse_blocks [''warning''] = Inl BtPanic \<and> isl (parseFS [''Label: '' @ [CHR 0x27] @ ''my disk'' @ [CHR 0x27] @ ''  uuid: 1'', [], []])"
proof -
  have "trimSpace ''warning'' \<noteq> []" "index ''warning'' ''Label:'' = None" by code_simp+
  moreover have "solid ([CHR 0x27] @ ''my'')" "solid (''disk'' @ [CHR 0x27])" by (simp_all add: solid_def goSpace_def)
  ultimately show ?thesis
    using listing_limits [of "''warning''" "[]" JNull "[]" "\<lambda>a w. (NotRun (Errorf []), w)" "()" "()" "NewJobResult (sampleJob [] [])" "()" "[CHR 0x27] @ ''my''" "''disk'' @ [CHR 0x27]"
        "''  uuid: 1''" "[[], []]"] by simp
qed

end
