(* ===== verification/Kvm.thy ===== *)
theory Kvm
  imports Container_Life
begin

text \<open>
  \<^verbatim>\<open>apps/core0/subsys/kvm\<close>: the parameters of a virtual machine and their validation, the numbers that give it its addresses, and the
  description that is handed to libvirt (\<^verbatim>\<open>manager.go\<close>, \<^verbatim>\<open>domain.go\<close>).  Parsing a URL is a parameter, and so is the machine
  (\<open>chost\<close>), on which \<^verbatim>\<open>qemu-img\<close> runs.  The parts of the description that are the same for every machine (emulator, console, listening
  address) are left out.
\<close>

section \<open>Parameters\<close>

text \<open>A command fails with an error or panics.\<close>

datatype kvm_error = KErr ct_error | KPanic

text \<open>A limit is a flag that says whether it is set, and its value.\<close>

record io_tune_params =
  itp_TotalBytesSec :: "bool \<times> u64"
  itp_ReadBytesSec :: "bool \<times> u64"
  itp_WriteBytesSec :: "bool \<times> u64"
  itp_TotalIopsSec :: "bool \<times> u64"
  itp_ReadIopsSec :: "bool \<times> u64"
  itp_WriteIopsSec :: "bool \<times> u64"
  itp_TotalBytesSecMax :: "bool \<times> u64"
  itp_ReadBytesSecMax :: "bool \<times> u64"
  itp_WriteBytesSecMax :: "bool \<times> u64"
  itp_TotalIopsSecMax :: "bool \<times> u64"
  itp_ReadIopsSecMax :: "bool \<times> u64"
  itp_WriteIopsSecMax :: "bool \<times> u64"
  itp_TotalBytesSecMaxLength :: "bool \<times> u64"
  itp_ReadBytesSecMaxLength :: "bool \<times> u64"
  itp_WriteBytesSecMaxLength :: "bool \<times> u64"
  itp_TotalIopsSecMaxLength :: "bool \<times> u64"
  itp_ReadIopsSecMaxLength :: "bool \<times> u64"
  itp_WriteIopsSecMaxLength :: "bool \<times> u64"
  itp_SizeIopsSec :: "bool \<times> u64"
  itp_GroupName :: "bool \<times> string"

record io_tune =
  it_TotalBytesSec :: "u64 option"
  it_ReadBytesSec :: "u64 option"
  it_WriteBytesSec :: "u64 option"
  it_TotalIopsSec :: "u64 option"
  it_ReadIopsSec :: "u64 option"
  it_WriteIopsSec :: "u64 option"
  it_TotalBytesSecMax :: "u64 option"
  it_ReadBytesSecMax :: "u64 option"
  it_WriteBytesSecMax :: "u64 option"
  it_TotalIopsSecMax :: "u64 option"
  it_ReadIopsSecMax :: "u64 option"
  it_WriteIopsSecMax :: "u64 option"
  it_TotalBytesSecMaxLength :: "u64 option"
  it_ReadBytesSecMaxLength :: "u64 option"
  it_WriteBytesSecMaxLength :: "u64 option"
  it_TotalIopsSecMaxLength :: "u64 option"
  it_ReadIopsSecMaxLength :: "u64 option"
  it_WriteIopsSecMaxLength :: "u64 option"
  it_SizeIopsSec :: "u64 option"
  it_GroupName :: "string option"

definition if_set :: "bool \<times> 'a \<Rightarrow> 'a option" where
  "if_set l = (if fst l then Some (snd l) else None)"

definition IOTuneParamsToIOTune :: "io_tune_params \<Rightarrow> io_tune" where
  "IOTuneParamsToIOTune inp =
     \<lparr>it_TotalBytesSec = if_set (itp_TotalBytesSec inp), it_ReadBytesSec = if_set (itp_ReadBytesSec inp),
      it_WriteBytesSec = if_set (itp_WriteBytesSec inp), it_TotalIopsSec = if_set (itp_TotalIopsSec inp),
      it_ReadIopsSec = if_set (itp_ReadIopsSec inp), it_WriteIopsSec = if_set (itp_WriteIopsSec inp),
      it_TotalBytesSecMax = if_set (itp_TotalBytesSecMax inp), it_ReadBytesSecMax = if_set (itp_ReadBytesSecMax inp),
      it_WriteBytesSecMax = if_set (itp_WriteBytesSecMax inp), it_TotalIopsSecMax = if_set (itp_TotalIopsSecMax inp),
      it_ReadIopsSecMax = if_set (itp_ReadIopsSecMax inp), it_WriteIopsSecMax = if_set (itp_WriteIopsSecMax inp),
      it_TotalBytesSecMaxLength = if_set (itp_TotalBytesSecMaxLength inp), it_ReadBytesSecMaxLength = if_set (itp_ReadBytesSecMaxLength inp),
      it_WriteBytesSecMaxLength = if_set (itp_WriteBytesSecMaxLength inp), it_TotalIopsSecMaxLength = if_set (itp_TotalIopsSecMaxLength inp),
      it_ReadIopsSecMaxLength = if_set (itp_ReadIopsSecMaxLength inp), it_WriteIopsSecMaxLength = if_set (itp_WriteIopsSecMaxLength inp),
      it_SizeIopsSec = if_set (itp_SizeIopsSec inp), it_GroupName = if_set (itp_GroupName inp)\<rparr>"

definition no_tune :: io_tune where
  "no_tune =
     \<lparr>it_TotalBytesSec = None, it_ReadBytesSec = None, it_WriteBytesSec = None, it_TotalIopsSec = None, it_ReadIopsSec = None,
      it_WriteIopsSec = None, it_TotalBytesSecMax = None, it_ReadBytesSecMax = None, it_WriteBytesSecMax = None, it_TotalIopsSecMax = None,
      it_ReadIopsSecMax = None, it_WriteIopsSecMax = None, it_TotalBytesSecMaxLength = None, it_ReadBytesSecMaxLength = None,
      it_WriteBytesSecMaxLength = None, it_TotalIopsSecMaxLength = None, it_ReadIopsSecMaxLength = None,
      it_WriteIopsSecMaxLength = None, it_SizeIopsSec = None, it_GroupName = None\<rparr>"

record media =
  md_URL :: string
  md_Type :: string
  md_Bus :: string
  md_IOTune :: "io_tune_params option"

record vm_nic =
  vn_Type :: string
  vn_ID :: string
  vn_HWAddress :: string

record vm_mount =
  vm_Source :: string
  vm_Target :: string
  vm_Readonly :: bool

record create_params =
  cp_Nics :: "vm_nic list"
  cp_Port :: "(string \<times> int) list"
  cp_Name :: string
  cp_CPU :: int
  cp_Memory :: int
  cp_FList :: string
  cp_ShareCache :: bool
  cp_Cmdline :: string
  cp_Mount :: "vm_mount list"
  cp_Media :: "media list"
  cp_Config :: "(string \<times> string) list"
  cp_Tags :: "string list"
  cp_Storage :: string
  cp_KVM :: bool

definition KvmBridgeName :: string where "KvmBridgeName = ''kvm0''"

section \<open>Validation\<close>

fun vm_nics_valid :: "vm_nic list \<Rightarrow> (string \<Rightarrow> nat) \<Rightarrow> go_error option" where
  "vm_nics_valid [] br = None"
| "vm_nics_valid (n # ns) br =
     (if vn_Type n = ''default''
      then (if br KvmBridgeName + 1 > 1 then Some (Errorf ''only one default network is allowed'')
            else vm_nics_valid ns (br(KvmBridgeName := br KvmBridgeName + 1)))
      else if vn_Type n = ''bridge''
      then (if vn_ID n = KvmBridgeName then Some (Errorf (''cannot use bridge '' @ KvmBridgeName))
            else if br (vn_ID n) + 1 > 1 then Some (Errorf (''connecting to bridge '' @ vn_ID n @ '' more than one time is not allowed''))
            else vm_nics_valid ns (br(vn_ID n := br (vn_ID n) + 1)))
      else if vn_Type n = ''vlan'' then vm_nics_valid ns br
      else if vn_Type n = ''vxlan'' then vm_nics_valid ns br
      else Some (Errorf (''invalid nic type '' @ vn_Type n)))"

definition NicParams_Valid :: "vm_nic list \<Rightarrow> go_error option" where
  "NicParams_Valid ns = vm_nics_valid ns (\<lambda>_. 0)"

definition CreateParams_Valid :: "create_params \<Rightarrow> go_error option" where
  "CreateParams_Valid c =
     (case NicParams_Valid (cp_Nics c) of
        Some e \<Rightarrow> Some e
      | None \<Rightarrow>
          if length (cp_Media c) = 0 \<and> length (cp_FList c) = 0
          then Some (Errorf ''At least one boot media has to be provided (via media or an flist)'')
          else if cp_CPU c = 0 then Some (Errorf ''CPU is a required parameter'')
          else if cp_Memory c = 0 then Some (Errorf ''Memory is a required parameter'')
          else (case find (\<lambda>m. vm_Target m = ''root'' \<or> vm_Target m = ''zoscache'') (cp_Mount c) of
                  None \<Rightarrow> None
                | Some m \<Rightarrow> Some (Errorf (''mount target '' @ vm_Target m @ '' is reserved''))))"

section \<open>Numbers and addresses\<close>

definition ReservedSequences :: "u16 list" where "ReservedSequences = [0x0, 0x1, 0xffff]"

text \<open>
  \<^verbatim>\<open>getNextSequence\<close>: the counter wraps around and skips the reserved numbers, of which no four follow each other, so that
  four rounds of the loop are enough.
\<close>

fun skip_reserved :: "nat \<Rightarrow> u16 \<Rightarrow> u16" where
  "skip_reserved 0 q = q"
| "skip_reserved (Suc n) q = (if q \<in> set ReservedSequences then skip_reserved n (q + 1) else q)"

definition nextSequence :: "u16 \<Rightarrow> u16" where
  "nextSequence q = skip_reserved 3 (q + 1)"

text \<open>The hardware address of a number, its bytes printed with \<^verbatim>\<open>%02x\<close>.\<close>

definition macAddr :: "u16 \<Rightarrow> string" where
  "macAddr s = ''00:28:06:82:'' @ hex2 (unat (drop_bit 8 (s AND 0xFF00))) @ '':'' @ hex2 (unat (s AND 0x00FF))"

definition KvmBridgeIP :: ip4 where "KvmBridgeIP = ofOctets 172 19 0 1"

definition ipAddr :: "u16 \<Rightarrow> string" where
  "ipAddr s = itoa (octet KvmBridgeIP 0) @ ''.'' @ itoa (octet KvmBridgeIP 1) @ ''.'' @
     itoa (unat (drop_bit 8 (s AND 0xff00))) @ ''.'' @ itoa (unat (s AND 0x00ff))"

definition kvmForwardId :: "u16 \<Rightarrow> ns" where
  "kvmForwardId s = Namespace KVM s"

section \<open>Disks\<close>

record url =
  u_Scheme :: string
  u_Path :: string
  u_Hostname :: string
  u_Port :: string
  u_Query :: "string \<Rightarrow> string"
  u_String :: string

record disk_source =
  ds_File :: string
  ds_Dev :: string
  ds_Protocol :: string
  ds_Name :: string
  ds_Transport :: string
  ds_Socket :: string
  ds_HostPort :: string
  ds_HostName :: string

record disk_device =
  dd_Type :: string
  dd_Device :: string
  dd_Source :: disk_source
  dd_Dev :: string
  dd_Bus :: string
  dd_DriverType :: string
  dd_Cache :: string
  dd_IO :: string
  dd_IOTune :: io_tune
  dd_Alias :: string

definition no_source :: disk_source where
  "no_source = \<lparr>ds_File = [], ds_Dev = [], ds_Protocol = [], ds_Name = [], ds_Transport = [], ds_Socket = [], ds_HostPort = [], ds_HostName = []\<rparr>"

text \<open>Go's conversion of a number to a string: the UTF-8 form of the rune, here below 65536 and leaving surrogates out.\<close>

definition rune_text :: "nat \<Rightarrow> string" where
  "rune_text r =
     (if r < 128 then [char_of r]
      else if r < 2048 then [char_of (192 + r div 64), char_of (128 + r mod 64)]
      else [char_of (224 + r div 4096), char_of (128 + r div 64 mod 64), char_of (128 + r mod 64)])"

definition disk_target :: "string \<Rightarrow> nat \<Rightarrow> string" where
  "disk_target kind idx = kind @ rune_text (97 + idx)"

definition blank_disk :: "string \<Rightarrow> nat \<Rightarrow> disk_device" where
  "blank_disk t idx =
     \<lparr>dd_Type = t, dd_Device = [], dd_Source = no_source, dd_Dev = disk_target ''vd'' idx, dd_Bus = [], dd_DriverType = [], dd_Cache = [],
      dd_IO = [], dd_IOTune = no_tune, dd_Alias = []\<rparr>"

text \<open>\<^verbatim>\<open>mkNBDDisk\<close>: \<^const>\<open>None\<close> is the panic on another scheme that starts with \<^verbatim>\<open>nbd\<close>.\<close>

definition mkNBDDisk :: "nat \<Rightarrow> url \<Rightarrow> disk_device option" where
  "mkNBDDisk idx u =
     (let name = trim (u_Path u) ''/'';
          disk = (blank_disk ''network'' idx)\<lparr>dd_Cache := ''none''\<rparr>
      in if u_Scheme u = ''nbd'' \<or> u_Scheme u = ''nbd+tcp''
         then Some (disk\<lparr>dd_Source := no_source\<lparr>ds_Protocol := ''nbd'', ds_Name := name,
                ds_HostPort := (if u_Port u = [] then ''10809'' else u_Port u), ds_HostName := u_Hostname u\<rparr>\<rparr>)
         else if u_Scheme u = ''nbd+unix''
         then Some (disk\<lparr>dd_Source := no_source\<lparr>ds_Protocol := ''nbd'', ds_Name := name, ds_Transport := ''unix'',
                ds_Socket := u_Query u ''socket''\<rparr>\<rparr>)
         else None)"

text \<open>\<^verbatim>\<open>getDiskType\<close>: what \<^verbatim>\<open>qemu-img\<close> says of the image, \<^verbatim>\<open>raw\<close> when it does not say anything that can be read.\<close>

definition getDiskType :: "('w, 'c) chost \<Rightarrow> string \<Rightarrow> (kvm_error, string, 'w \<times> 'c) eff" where
  "getDiskType ch path =
     attempt (system ch [''qemu-img'', ''info'', ''--output=json'', path]) (\<lambda>r.
       case r of
         Inl e \<Rightarrow> ret ''raw''
       | Inr job \<Rightarrow>
           (case Option.bind (Option.bind (rd_dec (ch_redis ch) (Stdout (jr_Streams job))) objectOf) (field_string ''format'') of
              None \<Rightarrow> ret ''raw''
            | Some f \<Rightarrow> ret f))"

definition mkFileDisk :: "string \<Rightarrow> nat \<Rightarrow> url \<Rightarrow> disk_device" where
  "mkFileDisk ftype idx u =
     (blank_disk ''file'' idx)\<lparr>dd_Source := no_source\<lparr>ds_File := u_String u\<rparr>, dd_DriverType := ftype, dd_IO := ''threads'',
        dd_Cache := ''writethrough''\<rparr>"

definition mkZDBDisk :: "url \<Rightarrow> string" where
  "mkZDBDisk u =
     (let query = [k @ ''='' @ u_Query u k. k \<leftarrow> [''password'', ''namespace'', ''blocksize'', ''size''], u_Query u k \<noteq> []];
          place = (if u_Scheme u = ''zdb+tcp'' \<or> u_Scheme u = ''zdb''
                   then [''host='' @ u_Hostname u] @ (if u_Port u \<noteq> [] then [''port='' @ u_Port u] else [])
                   else if u_Scheme u = ''zdb+unix'' then [''socket='' @ u_Path u] else [])
      in ''driver=zdb,'' @ join '','' (query @ place) @ '',if=virtio'')"

text \<open>
  \<^verbatim>\<open>mkDisk\<close>: a URL that does not parse leaves a nil pointer, on which \<^verbatim>\<open>mkFileDisk\<close> panics.  \<open>disk_options\<close> is what it does
  with the disk that was made.
\<close>

definition disk_options :: "media \<Rightarrow> nat \<Rightarrow> disk_device \<Rightarrow> disk_device" where
  "disk_options m idx disk =
     (let d1 = disk\<lparr>dd_Device := (if md_Type m \<noteq> [] then md_Type m else ''disk''), dd_Bus := (if md_Bus m \<noteq> [] then md_Bus m else ''virtio'')\<rparr>;
          d2 = (if md_Type m = ''cdrom'' then d1\<lparr>dd_Dev := disk_target ''hd'' idx, dd_Bus := ''ide''\<rparr> else d1)
      in (case md_IOTune m of None \<Rightarrow> d2 | Some t \<Rightarrow> d2\<lparr>dd_IOTune := IOTuneParamsToIOTune t\<rparr>))"

definition mkDisk ::
  "('w, 'c) chost \<Rightarrow> (string \<Rightarrow> go_error + url) \<Rightarrow> nat \<Rightarrow> media \<Rightarrow> (kvm_error, disk_device, 'w \<times> 'c) eff" where
  "mkDisk ch urlParse idx m =
     (case urlParse (md_URL m) of
        Inl e \<Rightarrow> fail KPanic
      | Inr u \<Rightarrow>
          if hasPrefix (u_Scheme u) ''nbd''
          then (case mkNBDDisk idx u of None \<Rightarrow> fail KPanic | Some d \<Rightarrow> ret (disk_options m idx d))
          else andThen (getDiskType ch (u_Path u)) (\<lambda>ftype. ret (disk_options m idx (mkFileDisk ftype idx u))))"

definition mediaFromDisk :: "disk_device \<Rightarrow> media" where
  "mediaFromDisk disk =
     \<lparr>md_URL = (if dd_Type disk = ''network'' then ''nbd+tcp://'' @ ds_HostName (dd_Source disk) @ '':'' @ ds_HostPort (dd_Source disk)
               else if dd_Type disk = ''file'' then ds_File (dd_Source disk) else []),
      md_Type = dd_Device disk, md_Bus = dd_Bus disk, md_IOTune = None\<rparr>"

definition mediaFromDisks :: "disk_device list \<Rightarrow> media list" where
  "mediaFromDisks disks = map mediaFromDisk disks"

section \<open>The description of a machine\<close>

record interface =
  if_Type :: string
  if_Bridge :: string
  if_Network :: string
  if_Target :: string
  if_Alias :: string
  if_Mac :: "string option"

record filesystem =
  fsy_Source :: string
  fsy_Target :: string
  fsy_Readonly :: bool

record domain =
  dm_Name :: string
  dm_UUID :: string
  dm_Memory :: int
  dm_VCPU :: int
  dm_Kernel :: string
  dm_InitRD :: string
  dm_Cmdline :: string
  dm_Disks :: "disk_device list"
  dm_Interfaces :: "interface list"
  dm_Filesystems :: "filesystem list"
  dm_QemuArgs :: "string list"
  dm_VNC :: "int list"

text \<open>The loop over the media.  \<^verbatim>\<open>zdb\<close> disks become arguments of the emulator.\<close>

fun add_media ::
  "('w, 'c) chost \<Rightarrow> (string \<Rightarrow> go_error + url) \<Rightarrow> nat \<Rightarrow> media list \<Rightarrow> domain \<Rightarrow> (kvm_error, domain, 'w \<times> 'c) eff" where
  "add_media ch urlParse idx [] d = ret d"
| "add_media ch urlParse idx (m # ms) d =
     (if hasPrefix (md_URL m) ''zdb''
      then (case urlParse (md_URL m) of
              Inl e \<Rightarrow> fail (KErr (GoErr e))
            | Inr u \<Rightarrow> add_media ch urlParse (idx + 1) ms (d\<lparr>dm_QemuArgs := dm_QemuArgs d @ [''-drive'', mkZDBDisk u]\<rparr>))
      else andThen (mkDisk ch urlParse idx m)
             (\<lambda>disk. add_media ch urlParse (idx + 1) ms (d\<lparr>dm_Disks := dm_Disks d @ [disk]\<rparr>)))"

definition new_domain :: "string \<Rightarrow> create_params \<Rightarrow> domain" where
  "new_domain uuid params =
     \<lparr>dm_Name = cp_Name params, dm_UUID = uuid, dm_Memory = cp_Memory params, dm_VCPU = cp_CPU params, dm_Kernel = [], dm_InitRD = [],
      dm_Cmdline = [], dm_Disks = [], dm_Interfaces = [], dm_Filesystems = [], dm_QemuArgs = [], dm_VNC = [-1]\<rparr>"

definition mkDomain ::
  "('w, 'c) chost \<Rightarrow> (string \<Rightarrow> go_error + url) \<Rightarrow> create_params \<Rightarrow> (kvm_error, domain, 'w \<times> 'c) eff" where
  "mkDomain ch urlParse params =
     andThen (\<lambda>s. case ch_uuid ch s of (u, s1) \<Rightarrow> (Inr u, s1)) (\<lambda>uuid.
     andThen (add_media ch urlParse 0 (cp_Media params) (new_domain uuid params)) (\<lambda>d.
       let d1 = d\<lparr>dm_Filesystems := dm_Filesystems d @
                   map (\<lambda>m. \<lparr>fsy_Source = vm_Source m, fsy_Target = vm_Target m, fsy_Readonly = vm_Readonly m\<rparr>) (cp_Mount params)\<rparr>
       in ret (if cp_KVM params then d1\<lparr>dm_QemuArgs := dm_QemuArgs d1 @ [''-cpu'', ''host'']\<rparr> else d1)))"

end
