(* ===== verification/Kvm_Manager.thy ===== *)
theory Kvm_Manager
  imports Kvm
begin

text \<open>
  \<^verbatim>\<open>apps/core0/subsys/kvm\<close>: the manager of the virtual machines, how a machine is connected to networks (\<^verbatim>\<open>network.go\<close>), gets its
  root from an flist (\<^verbatim>\<open>filesystem.go\<close>), is created (\<^verbatim>\<open>manager.go\<close>) and cleaned up after (\<^verbatim>\<open>events.go\<close>).  Libvirt and the emulator are the
  parameter \<open>libvirt\<close>; the state is the manager, whose fields its mutexes guard one at a time, with the state of the machine.  The commands
  take their arguments decoded.
\<close>

section \<open>Libvirt\<close>

datatype net_lookup = NetFound | NoNetwork | NetError go_error
datatype unmount_result = Unmounted | NotMounted | UnmountFailed go_error

datatype domain_state = DOMAIN_NOSTATE | DOMAIN_RUNNING | DOMAIN_BLOCKED | DOMAIN_PAUSED | DOMAIN_SHUTDOWN | DOMAIN_SHUTOFF | DOMAIN_CRASHED
  | DOMAIN_PMSUSPENDED | DOMAIN_OTHER

definition StateToString :: "domain_state \<Rightarrow> string" where
  "StateToString st =
     (case st of
        DOMAIN_NOSTATE \<Rightarrow> ''nostate'' | DOMAIN_RUNNING \<Rightarrow> ''running'' | DOMAIN_BLOCKED \<Rightarrow> ''blocked'' | DOMAIN_PAUSED \<Rightarrow> ''paused''
      | DOMAIN_SHUTDOWN \<Rightarrow> ''shutdown'' | DOMAIN_CRASHED \<Rightarrow> ''crashed'' | DOMAIN_PMSUSPENDED \<Rightarrow> ''pmsuspended'' | DOMAIN_SHUTOFF \<Rightarrow> ''shutoff''
      | DOMAIN_OTHER \<Rightarrow> [])"

record virt_network =
  nw_Name :: string
  nw_Mode :: string
  nw_Bridge :: string
  nw_VirtualPort :: string

record boot_config =
  bc_Root :: string
  bc_Kernel :: string
  bc_InitRD :: string
  bc_Cmdline :: string
  bc_NoDefault :: bool

text \<open>
  A machine is known to libvirt by its identifier.  \<open>lv_WaitRemoved\<close> says whether the event that a device is gone arrives in time; \<open>lv_Run\<close>
  runs a command of the node and waits for its result.
\<close>

record 's libvirt =
  lv_IsAlive :: "'s \<Rightarrow> bool"
  lv_Close :: "'s \<Rightarrow> 's"
  lv_NewConnect :: "'s \<Rightarrow> go_error option \<times> 's"
  lv_Register :: "string \<Rightarrow> 's \<Rightarrow> go_error option \<times> 's"
  lv_Lookup :: "string \<Rightarrow> 's \<Rightarrow> bool"
  lv_LookupByName :: "string \<Rightarrow> 's \<Rightarrow> go_error + string"
  lv_ListAll :: "'s \<Rightarrow> go_error + string list"
  lv_GetXMLDesc :: "string \<Rightarrow> 's \<Rightarrow> go_error + string"
  lv_GetUUIDString :: "string \<Rightarrow> 's \<Rightarrow> go_error + string"
  lv_GetID :: "string \<Rightarrow> 's \<Rightarrow> go_error + int"
  lv_GetName :: "string \<Rightarrow> 's \<Rightarrow> go_error + string"
  lv_GetState :: "string \<Rightarrow> 's \<Rightarrow> go_error + domain_state"
  lv_DomainCreateXML :: "string \<Rightarrow> 's \<Rightarrow> go_error option \<times> 's"
  lv_Destroy :: "string \<Rightarrow> 's \<Rightarrow> go_error option \<times> 's"
  lv_Shutdown :: "string \<Rightarrow> 's \<Rightarrow> go_error option \<times> 's"
  lv_Reboot :: "string \<Rightarrow> 's \<Rightarrow> go_error option \<times> 's"
  lv_Reset :: "string \<Rightarrow> 's \<Rightarrow> go_error option \<times> 's"
  lv_Suspend :: "string \<Rightarrow> 's \<Rightarrow> go_error option \<times> 's"
  lv_Resume :: "string \<Rightarrow> 's \<Rightarrow> go_error option \<times> 's"
  lv_AttachDevice :: "string \<Rightarrow> string \<Rightarrow> 's \<Rightarrow> go_error option \<times> 's"
  lv_DetachDevice :: "string \<Rightarrow> string \<Rightarrow> 's \<Rightarrow> go_error option \<times> 's"
  lv_WaitRemoved :: "string \<Rightarrow> string \<Rightarrow> 's \<Rightarrow> bool \<times> 's"
  lv_SetBlockIoTune :: "string \<Rightarrow> string \<Rightarrow> io_tune_params \<Rightarrow> 's \<Rightarrow> go_error option \<times> 's"
  lv_Migrate :: "string \<Rightarrow> string \<Rightarrow> string \<Rightarrow> string \<Rightarrow> 's \<Rightarrow> go_error option \<times> 's"
  lv_LookupNetwork :: "string \<Rightarrow> 's \<Rightarrow> net_lookup"
  lv_NetworkCreateXML :: "string \<Rightarrow> 's \<Rightarrow> go_error option \<times> 's"
  lv_Unmount :: "string \<Rightarrow> 's \<Rightarrow> unmount_result \<times> 's"
  lv_Run :: "string \<Rightarrow> (string \<times> json) list \<Rightarrow> 's \<Rightarrow> (go_error + job_result) \<times> 's"
  lv_Domain :: "string \<Rightarrow> go_error + domain"
  lv_DomainXML :: "domain \<Rightarrow> go_error + string"
  lv_DiskXML :: "disk_device \<Rightarrow> go_error + string"
  lv_InterfaceXML :: "interface \<Rightarrow> go_error + string"
  lv_NetworkXML :: "virt_network \<Rightarrow> go_error + string"
  lv_yaml :: "string \<Rightarrow> go_error + boot_config"
  lv_urlParse :: "string \<Rightarrow> go_error + url"
  lv_urlString :: "string \<Rightarrow> string \<Rightarrow> (string \<times> string) list \<Rightarrow> string"

section \<open>The manager\<close>

text \<open>
  What the manager keeps of a machine.  The forwarded ports are kept apart from the parameters of which they are a field, for they are
  replaced by those that are found whenever the machine is listed.
\<close>

record domain_info =
  di_Params :: create_params
  di_Port :: port_map
  di_Sequence :: u16

record kvm_mgr =
  kv_conn :: bool
  kv_sequence :: u16
  kv_info :: "string \<rightharpoonup> domain_info"
  kv_cell :: string
  kv_events :: "(string \<times> string) list list"

type_synonym ('w, 'c) kstate = "kvm_mgr \<times> 'w \<times> 'c"
type_synonym ('a, 'w, 'c) keff = "(kvm_error, 'a, ('w, 'c) kstate) eff"

definition onHost :: "('e, 'a, 'w \<times> 'c) eff \<Rightarrow> ('e, 'a, ('w, 'c) kstate) eff" where
  "onHost m ks = (case ks of (k, s) \<Rightarrow> case m s of (r, s1) \<Rightarrow> (r, k, s1))"

definition goK :: "(go_error, 'a, 'w \<times> 'c) eff \<Rightarrow> ('a, 'w, 'c) keff" where
  "goK m = onHost (wrapErr (\<lambda>e. KErr (GoErr e)) m)"

definition goKw :: "string \<Rightarrow> (go_error, 'a, 'w \<times> 'c) eff \<Rightarrow> ('a, 'w, 'c) keff" where
  "goKw t m = onHost (wrapErr (\<lambda>e. KErr (Wrapped t (GoErr e))) m)"

definition kfail :: "string \<Rightarrow> ('a, 'w, 'c) keff" where
  "kfail t = fail (KErr (GoErr (Errorf t)))"

definition pureK :: "go_error + 'a \<Rightarrow> ('a, 'w, 'c) keff" where
  "pureK r = (case r of Inl e \<Rightarrow> fail (KErr (GoErr e)) | Inr x \<Rightarrow> ret x)"

text \<open>Deferred calls: always, and only when the call returns an error (which a panic does not).\<close>

definition finallyK :: "('b, 'w, 'c) keff \<Rightarrow> ('a, 'w, 'c) keff \<Rightarrow> ('a, 'w, 'c) keff" where
  "finallyK h m ks = (case m ks of (r, ks1) \<Rightarrow> (r, snd (h ks1)))"

definition onErrorK :: "('b, 'w, 'c) keff \<Rightarrow> ('a, 'w, 'c) keff \<Rightarrow> ('a, 'w, 'c) keff" where
  "onErrorK h m ks = (case m ks of (Inl (KErr e), ks1) \<Rightarrow> (Inl (KErr e), snd (h ks1)) | (r, ks1) \<Rightarrow> (r, ks1))"

section \<open>The connection\<close>

definition register :: "'s libvirt \<Rightarrow> 's \<Rightarrow> 's" where
  "register lv s = fold (\<lambda>ev s. snd (lv_Register lv ev s)) [''lifecycle'', ''device removed'', ''device removal failed''] s"

definition getConnection :: "('w \<times> 'c) libvirt \<Rightarrow> (unit, 'w, 'c) keff" where
  "getConnection lv ks =
     (case ks of (k, s) \<Rightarrow>
        if kv_conn k \<and> lv_IsAlive lv s then (Inr (), k, s)
        else (case lv_NewConnect lv (if kv_conn k then lv_Close lv s else s) of
                (Some e, s1) \<Rightarrow> (Inl (KErr (GoErr e)), k, s1)
              | (None, s1) \<Rightarrow> (Inr (), k\<lparr>kv_conn := True\<rparr>, register lv s1)))"

definition lookupDomain :: "('w \<times> 'c) libvirt \<Rightarrow> string \<Rightarrow> (unit, 'w, 'c) keff" where
  "lookupDomain lv uuid ks =
     (if lv_Lookup lv uuid (snd ks) then ret () ks else kfail (''couldn't find domain with the uuid '' @ uuid) ks)"

definition getDomain :: "('w \<times> 'c) libvirt \<Rightarrow> string \<Rightarrow> (unit, 'w, 'c) keff" where
  "getDomain lv uuid = andThen (getConnection lv) (\<lambda>_. lookupDomain lv uuid)"

definition getDomainStruct :: "('w \<times> 'c) libvirt \<Rightarrow> string \<Rightarrow> (domain, 'w, 'c) keff" where
  "getDomainStruct lv uuid =
     andThen (getDomain lv uuid) (\<lambda>_.
     andThen (goKw ''cannot get domain xml: '' (ask (lv_GetXMLDesc lv uuid))) (\<lambda>x.
     goKw ''cannot parse the domain xml: '' (ask (\<lambda>_. lv_Domain lv x))))"

definition getDomainInfo :: "string \<Rightarrow> (domain_info, 'w, 'c) keff" where
  "getDomainInfo uuid ks =
     (case kv_info (fst ks) uuid of
        None \<Rightarrow> kfail (''couldnt find domaininfo with uuid '' @ uuid) ks
      | Some i \<Rightarrow> ret i ks)"

text \<open>A change of the info that the table points to.\<close>

definition kvm_upd_info :: "string \<Rightarrow> (domain_info \<Rightarrow> domain_info) \<Rightarrow> (unit, 'w, 'c) keff" where
  "kvm_upd_info uuid f ks =
     (case ks of (k, s) \<Rightarrow> (Inr (), k\<lparr>kv_info := (kv_info k)(uuid := map_option f (kv_info k uuid))\<rparr>, s))"

definition updateView :: "('w \<times> 'c) libvirt \<Rightarrow> (unit, 'w, 'c) keff" where
  "updateView lv ks =
     (case getConnection lv ks of
        (Inl e, ks1) \<Rightarrow> (Inr (), ks1)
      | (Inr _, k, s) \<Rightarrow>
          (case lv_ListAll lv s of
             Inl e \<Rightarrow> (Inr (), k, s)
           | Inr ds \<Rightarrow> (Inr (), k\<lparr>kv_cell := ''Virtual Machines: '' @ itoa (length ds)\<rparr>, s)))"

definition takeSequence :: "(u16, 'w, 'c) keff" where
  "takeSequence ks = (case ks of (k, s) \<Rightarrow> let q = nextSequence (kv_sequence k) in (Inr q, k\<lparr>kv_sequence := q\<rparr>, s))"

section \<open>Networks\<close>

definition kvm_setPortForward :: "('w, 'c) chost \<Rightarrow> u16 \<Rightarrow> string \<Rightarrow> int \<Rightarrow> (unit, 'w, 'c) keff" where
  "kvm_setPortForward ch seq host dest =
     onHost (wrapErr (\<lambda>e. KErr (SocatErr e)) (call (SetPortForward (ch_host ch) (ch_cache ch) (kvmForwardId seq) (ipAddr seq) host dest)))"

definition kvm_setPortForwards :: "('w, 'c) chost \<Rightarrow> u16 \<Rightarrow> (string \<times> int) list \<Rightarrow> (unit, 'w, 'c) keff" where
  "kvm_setPortForwards ch seq port = forEach (\<lambda>(host, dest). kvm_setPortForward ch seq host dest) port"

definition setDHCPHost :: "('w \<times> 'c) libvirt \<Rightarrow> u16 \<Rightarrow> (unit, 'w, 'c) keff" where
  "setDHCPHost lv seq =
     andThen (goK (lv_Run lv ''bridge.add_host'' [(''bridge'', JStr KvmBridgeName), (''mac'', JStr (macAddr seq)), (''ip'', JStr (ipAddr seq))]))
       (\<lambda>result. if jr_State result \<noteq> Some StateSuccess then kfail (''failed to add host to dnsmasq: '' @ jr_Data result) else ret ())"

text \<open>The default bridge, made when the node starts; the same command of the bridges as a client would use.\<close>

definition setupDefaultGateway :: "('w \<times> 'c) libvirt \<Rightarrow> (unit, 'w, 'c) keff" where
  "setupDefaultGateway lv =
     andThen (goK (lv_Run lv ''bridge.create''
         [(''name'', JStr KvmBridgeName),
          (''network'', JObj [(''nat'', JBool True), (''mode'', JStr ''dnsmasq''),
             (''settings'', JObj [(''cidr'', JStr (IP_String KvmBridgeIP @ ''/16'')), (''start'', JStr (IP_String (ofOctets 172 19 0 2))),
                                  (''end'', JStr (IP_String (ofOctets 172 19 255 254)))])])]))
       (\<lambda>result. if jr_State result \<noteq> Some StateSuccess then kfail (''failed to create default container bridge: '' @ jr_Data result) else ret ())"

definition setVirtNetwork :: "('w \<times> 'c) libvirt \<Rightarrow> virt_network \<Rightarrow> (unit, 'w, 'c) keff" where
  "setVirtNetwork lv nw =
     andThen (getConnection lv) (\<lambda>_ ks.
       case lv_LookupNetwork lv (nw_Name nw) (snd ks) of
         NetFound \<Rightarrow> ret () ks
       | NetError e \<Rightarrow> fail (KErr (GoErr e)) ks
       | NoNetwork \<Rightarrow> andThen (pureK (lv_NetworkXML lv nw)) (\<lambda>x. goK (call (lv_NetworkCreateXML lv x))) ks)"

definition parse_hw :: "string \<Rightarrow> (string option, 'w, 'c) keff" where
  "parse_hw hwaddr =
     (if hwaddr = [] then ret None
      else (case ParseMAC hwaddr of
              None \<Rightarrow> kfail (''address '' @ hwaddr @ '': invalid MAC address'')
            | Some hw \<Rightarrow> ret (Some (hw_String hw))))"

text \<open>What \<^verbatim>\<open>prepareVLanNetwork\<close> and \<^verbatim>\<open>prepareVXLanNetwork\<close> do once the number is read.\<close>

definition switch_network ::
  "('w, 'c) chost \<Rightarrow> ('w \<times> 'c) libvirt \<Rightarrow> container_mgr \<Rightarrow> vm_nic \<Rightarrow> string \<Rightarrow> string \<Rightarrow> (string \<times> json) list \<Rightarrow> (interface, 'w, 'c) keff" where
  "switch_network ch lv m n kind msg args =
     andThen (parse_hw (vn_HWAddress n)) (\<lambda>mac.
     (case GetOneWithTags [OVSTag] m of
        None \<Rightarrow> kfail (''ovs is needed for '' @ kind @ '' network type'')
      | Some sw \<Rightarrow>
          andThen (onHost (wrapErr KErr (Dispatch ch m (ct_id sw) (ovs_command ch msg args)))) (\<lambda>result.
            if jr_State result \<noteq> Some StateSuccess then kfail (''failed to ensure vlan bridge: '' @ jr_Data result)
            else (case Option.bind (rd_dec (ch_redis ch) (jr_Data result)) elem_string of
                    None \<Rightarrow> kfail ''failed to load vlan-ensure result''
                  | Some bridge \<Rightarrow>
                      andThen (setVirtNetwork lv \<lparr>nw_Name = bridge, nw_Mode = ''bridge'', nw_Bridge = bridge, nw_VirtualPort = ''openvswitch''\<rparr>)
                        (\<lambda>_. ret \<lparr>if_Type = ''network'', if_Bridge = bridge, if_Network = bridge, if_Target = [], if_Alias = [], if_Mac = mac\<rparr>)))))"

definition prepareVLanNetwork ::
  "('w, 'c) chost \<Rightarrow> ('w \<times> 'c) libvirt \<Rightarrow> container_mgr \<Rightarrow> vm_nic \<Rightarrow> (interface, 'w, 'c) keff" where
  "prepareVLanNetwork ch lv m n =
     (case parseInt 16 (vn_ID n) of
        (v, Some e) \<Rightarrow> kfail (''strconv.ParseInt: parsing '' @ vn_ID n)
      | (v, None) \<Rightarrow>
          if v < 0 \<or> v \<ge> 4095 then kfail ''invalid vlan id (0-4094)''
          else switch_network ch lv m n ''VLAN'' ''ovs.vlan-ensure'' [(''master'', JStr OVSBackPlane), (''vlan'', JNum v)])"

definition prepareVXLanNetwork ::
  "('w, 'c) chost \<Rightarrow> ('w \<times> 'c) libvirt \<Rightarrow> container_mgr \<Rightarrow> vm_nic \<Rightarrow> (interface, 'w, 'c) keff" where
  "prepareVXLanNetwork ch lv m n =
     (case parseInt 64 (vn_ID n) of
        (v, Some e) \<Rightarrow> kfail (''strconv.ParseInt: parsing '' @ vn_ID n)
      | (v, None) \<Rightarrow> switch_network ch lv m n ''VXLAN'' ''ovs.vxlan-ensure'' [(''master'', JStr OVSVXBackend), (''vxlan'', JNum v)])"

definition prepareDefaultNetwork ::
  "('w, 'c) chost \<Rightarrow> ('w \<times> 'c) libvirt \<Rightarrow> u16 \<Rightarrow> (string \<times> int) list \<Rightarrow> (interface, 'w, 'c) keff" where
  "prepareDefaultNetwork ch lv seq port =
     andThen (onHost (wrapErr (\<lambda>e. KErr (GoErr (Errorf (''bridge '' @ KvmBridgeName @ '' not found''))))
               (ask (nl_LinkByName (ch_net ch) KvmBridgeName)))) (\<lambda>l.
     andThen (setDHCPHost lv seq) (\<lambda>_.
     andThen (kvm_setPortForwards ch seq port) (\<lambda>_.
     ret \<lparr>if_Type = ''bridge'', if_Bridge = KvmBridgeName, if_Network = [], if_Target = [], if_Alias = [], if_Mac = Some (macAddr seq)\<rparr>)))"

definition prepareBridgeNetwork :: "('w, 'c) chost \<Rightarrow> vm_nic \<Rightarrow> (interface, 'w, 'c) keff" where
  "prepareBridgeNetwork ch n =
     andThen (onHost (wrapErr (\<lambda>e. KErr (GoErr (BadRequestError (''bridge '' @ vn_ID n @ '' not found''))))
               (ask (nl_LinkByName (ch_net ch) (vn_ID n))))) (\<lambda>l.
     andThen (parse_hw (vn_HWAddress n)) (\<lambda>mac.
     ret \<lparr>if_Type = ''bridge'', if_Bridge = vn_ID n, if_Network = [], if_Target = [], if_Alias = [], if_Mac = mac\<rparr>))"

fun setNetworking ::
  "('w, 'c) chost \<Rightarrow> ('w \<times> 'c) libvirt \<Rightarrow> container_mgr \<Rightarrow> (string \<times> int) list \<Rightarrow> u16 \<Rightarrow> vm_nic list \<Rightarrow> domain \<Rightarrow> (domain, 'w, 'c) keff" where
  "setNetworking ch lv m port seq [] d = ret d"
| "setNetworking ch lv m port seq (n # ns) d =
     andThen (if vn_Type n = ''default'' then prepareDefaultNetwork ch lv seq port
              else if vn_Type n = ''bridge'' then prepareBridgeNetwork ch n
              else if vn_Type n = ''vlan'' then prepareVLanNetwork ch lv m n
              else if vn_Type n = ''vxlan'' then prepareVXLanNetwork ch lv m n
              else kfail (''unsupported network mode: '' @ vn_Type n))
       (\<lambda>dev. setNetworking ch lv m port seq ns (d\<lparr>dm_Interfaces := dm_Interfaces d @ [dev]\<rparr>))"

section \<open>A root from an flist\<close>

definition VmBaseRoot :: string where "VmBaseRoot = ''/mnt/vms''"
definition VmNamespace :: "string \<Rightarrow> string" where "VmNamespace uuid = ''vms/'' @ uuid"
definition vm_target :: "string \<Rightarrow> string" where "vm_target uuid = path_join [VmBaseRoot, uuid]"
definition CacheZeroFSDir :: string where "CacheZeroFSDir = ''/var/cache/zerofs''"

definition kvm_flistConfigOverride :: "('w, 'c) chost \<Rightarrow> string \<Rightarrow> (string \<times> string) list \<Rightarrow> (unit, 'w, 'c) keff" where
  "kvm_flistConfigOverride ch target cfg =
     forEach (\<lambda>(name, content).
       let p = flist_path target name in
       andThen (onHost (wrapErr (\<lambda>e. KErr (GoErr (Errorf (''failed to create director: '' @ path_dir p)))) (call (ch_MkdirAll ch (path_dir p))))) (\<lambda>_.
       goK (call (ch_WriteFile ch p content)))) cfg"

definition flistUnmount :: "('w, 'c) chost \<Rightarrow> ('w \<times> 'c) libvirt \<Rightarrow> string \<Rightarrow> (unit, 'w, 'c) keff" where
  "flistUnmount ch lv uuid ks =
     (case ks of (k, s) \<Rightarrow>
        case lv_Unmount lv (vm_target uuid) s of
          (NotMounted, s1) \<Rightarrow> (Inr (), k, s1)
        | (UnmountFailed e, s1) \<Rightarrow> (Inl (KErr (GoErr e)), k, s1)
        | (Unmounted, s1) \<Rightarrow> (Inr (), k, snd (ch_RemoveAll ch (VmNamespace uuid) (snd (ch_RemoveAll ch (vm_target uuid) s1)))))"

definition flistMount ::
  "('w, 'c) chost \<Rightarrow> ('w \<times> 'c) libvirt \<Rightarrow> string \<Rightarrow> string \<Rightarrow> string \<Rightarrow> (string \<times> string) list \<Rightarrow> (boot_config, 'w, 'c) keff" where
  "flistMount ch lv uuid src storage cfg =
     (let store = (if storage = [] then ch_storage ch else storage);
          target = vm_target uuid
      in andThen (goK (call (ch_MountFList ch (VmNamespace uuid) store src target))) (\<lambda>_.
         andThen (forEach (\<lambda>d. ignore (goK (call (ch_MkdirAll ch (path_join [target, d]))))) [''dev'', ''sys'', ''proc'']) (\<lambda>_.
         onErrorK (flistUnmount ch lv uuid) (
           andThen (kvm_flistConfigOverride ch target cfg) (\<lambda>_.
           andThen (goKw ''failed to open boot/boot.yaml: '' (ask (ch_ReadFile ch (path_join [target, ''boot'', ''boot.yaml''])))) (\<lambda>cfgstr.
           andThen (pureK (lv_yaml lv cfgstr)) (\<lambda>config. ret (config\<lparr>bc_Root := target\<rparr>))))))))"

text \<open>The hook of the process that serves the flist: without its root the machine is destroyed.\<close>

definition flist_exited :: "('w \<times> 'c) libvirt \<Rightarrow> string \<Rightarrow> (unit, 'w, 'c) keff" where
  "flist_exited lv uuid = ignore (andThen (getDomain lv uuid) (\<lambda>_. goK (call (lv_Destroy lv uuid))))"

definition prepareFlist ::
  "('w, 'c) chost \<Rightarrow> ('w \<times> 'c) libvirt \<Rightarrow> create_params \<Rightarrow> domain \<Rightarrow> (domain, 'w, 'c) keff" where
  "prepareFlist ch lv params d =
     andThen (flistMount ch lv (dm_UUID d) (cp_FList params) (cp_Storage params) (cp_Config params)) (\<lambda>config.
       let cmdline = (if \<not> bc_NoDefault config then ''rootfstype=9p rootflags=rw,trans=virtio,cache=loose root=root'' else []);
           d1 = d\<lparr>dm_Kernel := path_join [bc_Root config, SafeNormalize (bc_Kernel config)],
                  dm_InitRD := (if length (bc_InitRD config) \<noteq> 0 then path_join [bc_Root config, SafeNormalize (bc_InitRD config)] else dm_InitRD d),
                  dm_Cmdline := trimSpace (join '' '' [cmdline, bc_Cmdline config, cp_Cmdline params]),
                  dm_Filesystems := dm_Filesystems d @ [\<lparr>fsy_Source = bc_Root config, fsy_Target = ''root'', fsy_Readonly = False\<rparr>]\<rparr>
       in ret (if cp_ShareCache params
               then d1\<lparr>dm_Filesystems := dm_Filesystems d1 @ [\<lparr>fsy_Source = CacheZeroFSDir, fsy_Target = ''zoscache'', fsy_Readonly = False\<rparr>]\<rparr>
               else d1))"

section \<open>Creating and ending a machine\<close>

definition handleStopped :: "('w, 'c) chost \<Rightarrow> ('w \<times> 'c) libvirt \<Rightarrow> string \<Rightarrow> (unit, 'w, 'c) keff" where
  "handleStopped ch lv uuid =
     finallyK (updateView lv) (\<lambda>ks.
       case ks of (k, w, c) \<Rightarrow>
         let k1 = k\<lparr>kv_info := (kv_info k)(uuid := None)\<rparr>
         in (case kv_info k uuid of
               None \<Rightarrow> flistUnmount ch lv uuid (k1, w, c)
             | Some i \<Rightarrow> flistUnmount ch lv uuid (k1, snd (RemoveAll (ch_host ch) (kvmForwardId (di_Sequence i)) w), c)))"

definition put_info :: "string \<Rightarrow> domain_info \<Rightarrow> (unit, 'w, 'c) keff" where
  "put_info uuid i ks = (case ks of (k, s) \<Rightarrow> (Inr (), k\<lparr>kv_info := (kv_info k)(uuid \<mapsto> i)\<rparr>, s))"

text \<open>
  The addresses of the devices that libvirt made, written over those of the info; it panics when there are more devices than were asked for,
  or one has no address.  The result says whether it got through.
\<close>

fun set_macs :: "nat \<Rightarrow> interface list \<Rightarrow> vm_nic list \<Rightarrow> bool \<times> vm_nic list" where
  "set_macs i [] ns = (True, ns)"
| "set_macs i (dev # devs) ns =
     (case if_Mac dev of
        None \<Rightarrow> (False, ns)
      | Some a \<Rightarrow> if i < length ns then set_macs (i + 1) devs (ns[i := (ns ! i)\<lparr>vn_HWAddress := a\<rparr>]) else (False, ns))"

definition with_nics :: "vm_nic list \<Rightarrow> domain_info \<Rightarrow> domain_info" where
  "with_nics ns i = i\<lparr>di_Params := (di_Params i)\<lparr>cp_Nics := ns\<rparr>\<rparr>"

text \<open>\<^verbatim>\<open>create\<close> in three parts: once the machine is in the table, once it has its number, and the whole.\<close>

definition start_machine ::
  "('w, 'c) chost \<Rightarrow> ('w \<times> 'c) libvirt \<Rightarrow> container_mgr \<Rightarrow> create_params \<Rightarrow> u16 \<Rightarrow> domain \<Rightarrow> (string, 'w, 'c) keff" where
  "start_machine ch lv m params seq d1 =
     andThen (setNetworking ch lv m (cp_Port params) seq (cp_Nics params) d1) (\<lambda>d2.
     andThen (goKw ''failed to generate domain xml: '' (ask (\<lambda>_. lv_DomainXML lv d2))) (\<lambda>data.
     andThen (getConnection lv) (\<lambda>_.
     andThen (goKw ''failed to create machine: '' (call (lv_DomainCreateXML lv data))) (\<lambda>_.
     andThen (getDomainStruct lv (dm_UUID d1)) (\<lambda>ds.
     andThen (getDomainInfo (dm_UUID d1)) (\<lambda>info.
       case set_macs 0 (dm_Interfaces ds) (cp_Nics (di_Params info)) of
         (ok, ns) \<Rightarrow> andThen (kvm_upd_info (dm_UUID d1) (with_nics ns)) (\<lambda>_. if ok then ret (dm_UUID d1) else fail KPanic)))))))"

definition new_info :: "create_params \<Rightarrow> u16 \<Rightarrow> domain_info" where
  "new_info params seq = \<lparr>di_Params = params, di_Port = map_of (cp_Port params), di_Sequence = seq\<rparr>"

definition create_numbered ::
  "('w, 'c) chost \<Rightarrow> ('w \<times> 'c) libvirt \<Rightarrow> container_mgr \<Rightarrow> create_params \<Rightarrow> u16 \<Rightarrow> (string, 'w, 'c) keff" where
  "create_numbered ch lv m params seq =
     andThen (onHost (mkDomain ch (lv_urlParse lv) params)) (\<lambda>d.
     andThen (if length (cp_FList params) \<noteq> 0 then prepareFlist ch lv params d else ret d) (\<lambda>d1.
     andThen (put_info (dm_UUID d1) (new_info params seq)) (\<lambda>_.
     onErrorK (handleStopped ch lv (dm_UUID d1)) (start_machine ch lv m params seq d1))))"

definition kvm_create ::
  "('w, 'c) chost \<Rightarrow> ('w \<times> 'c) libvirt \<Rightarrow> container_mgr \<Rightarrow> string list \<Rightarrow> create_params \<Rightarrow> (string, 'w, 'c) keff" where
  "kvm_create ch lv m tags params0 =
     finallyK (updateView lv)
       (let params = params0\<lparr>cp_Tags := tags\<rparr> in
        case CreateParams_Valid params of
          Some e \<Rightarrow> fail (KErr (GoErr e))
        | None \<Rightarrow> andThen takeSequence (create_numbered ch lv m params))"

definition prepareMigrationTarget ::
  "('w, 'c) chost \<Rightarrow> ('w \<times> 'c) libvirt \<Rightarrow> container_mgr \<Rightarrow> string \<Rightarrow> vm_nic list \<Rightarrow> (string \<times> int) list \<Rightarrow> (unit, 'w, 'c) keff" where
  "prepareMigrationTarget ch lv m uuid nics port =
     finallyK (updateView lv)
       (case NicParams_Valid nics of
          Some e \<Rightarrow> fail (KErr (GoErr e))
        | None \<Rightarrow>
            andThen takeSequence (\<lambda>seq.
            andThen (setNetworking ch lv m port seq nics
                \<lparr>dm_Name = [], dm_UUID = uuid, dm_Memory = 0, dm_VCPU = 0, dm_Kernel = [], dm_InitRD = [], dm_Cmdline = [], dm_Disks = [],
                 dm_Interfaces = [], dm_Filesystems = [], dm_QemuArgs = [], dm_VNC = []\<rparr>) (\<lambda>_. ret ())))"

definition destroyDomain :: "('w \<times> 'c) libvirt \<Rightarrow> string \<Rightarrow> (unit, 'w, 'c) keff" where
  "destroyDomain lv uuid = goK (call (lv_Destroy lv uuid))"

definition kvm_destroy :: "('w \<times> 'c) libvirt \<Rightarrow> string \<Rightarrow> (unit, 'w, 'c) keff" where
  "kvm_destroy lv uuid = finallyK (updateView lv) (andThen (getDomain lv uuid) (\<lambda>_. destroyDomain lv uuid))"

definition kvm_shutdown :: "('w \<times> 'c) libvirt \<Rightarrow> string \<Rightarrow> (unit, 'w, 'c) keff" where
  "kvm_shutdown lv uuid = andThen (getDomain lv uuid) (\<lambda>_. goKw ''failed to shutdown machine: '' (call (lv_Shutdown lv uuid)))"

definition kvm_reboot :: "('w \<times> 'c) libvirt \<Rightarrow> string \<Rightarrow> (unit, 'w, 'c) keff" where
  "kvm_reboot lv uuid = andThen (getDomain lv uuid) (\<lambda>_. goKw ''failed to reboot machine: '' (call (lv_Reboot lv uuid)))"

definition kvm_reset :: "('w \<times> 'c) libvirt \<Rightarrow> string \<Rightarrow> (unit, 'w, 'c) keff" where
  "kvm_reset lv uuid = andThen (getDomain lv uuid) (\<lambda>_. goKw ''failed to reset machine: '' (call (lv_Reset lv uuid)))"

definition kvm_pause :: "('w \<times> 'c) libvirt \<Rightarrow> string \<Rightarrow> (unit, 'w, 'c) keff" where
  "kvm_pause lv uuid = andThen (getDomain lv uuid) (\<lambda>_. goKw ''failed to pause machine: '' (call (lv_Suspend lv uuid)))"

definition kvm_resume :: "('w \<times> 'c) libvirt \<Rightarrow> string \<Rightarrow> (unit, 'w, 'c) keff" where
  "kvm_resume lv uuid = andThen (getDomain lv uuid) (\<lambda>_. goKw ''failed to resume machine: '' (call (lv_Resume lv uuid)))"

section \<open>Events\<close>

text \<open>\<^verbatim>\<open>domaineLifeCycleHandler\<close>, with the event split into words: what the words say, the last value of each key.\<close>

definition event_data :: "string \<Rightarrow> string \<Rightarrow> string list \<Rightarrow> (string \<times> string) list" where
  "event_data uuid name parts =
     fold (\<lambda>part data. case splitN2 (CHR ''='') part of [k, v] \<Rightarrow> put_kv (k, v) data | _ \<Rightarrow> data) parts
       [(''uuid'', uuid), (''name'', name)]"

definition domaineLifeCycleHandler ::
  "('w, 'c) chost \<Rightarrow> ('w \<times> 'c) libvirt \<Rightarrow> string \<Rightarrow> string \<Rightarrow> string list \<Rightarrow> ('w, 'c) kstate \<Rightarrow> ('w, 'c) kstate" where
  "domaineLifeCycleHandler ch lv uuid name parts ks =
     (let data = event_data uuid name parts;
          ks1 = (if map_of data ''event'' = Some ''stopped'' then snd (handleStopped ch lv uuid ks) else ks)
      in (case ks1 of (k, s) \<Rightarrow> (k\<lparr>kv_events := kv_events k @ [data]\<rparr>, s)))"

text \<open>The command \<^verbatim>\<open>kvm.events\<close> numbers the events it takes from the channel.\<close>

fun number_events :: "u64 \<Rightarrow> (string \<times> string) list list \<Rightarrow> (u64 \<times> (string \<times> string) list) list" where
  "number_events sequence [] = []"
| "number_events sequence (data # evs) = (sequence, data) # number_events (sequence + 1) evs"

definition kvm_events_log :: "kvm_mgr \<Rightarrow> (u64 \<times> (string \<times> string) list) list" where
  "kvm_events_log k = number_events 1 (kv_events k)"

end
