(* ===== verification/Kvm_Devices.thy ===== *)
theory Kvm_Devices
  imports Kvm_Manager Stats
begin

text \<open>
  \<^verbatim>\<open>apps/core0/subsys/kvm/manager.go\<close>: the disks and network devices of a running machine, its limits and its migration, the listing of the
  machines, what is measured of them, and their forwarded ports.
\<close>

section \<open>Attaching and detaching\<close>

definition attachDevice :: "('w \<times> 'c) libvirt \<Rightarrow> string \<Rightarrow> string \<Rightarrow> (unit, 'w, 'c) keff" where
  "attachDevice lv uuid x = andThen (getDomain lv uuid) (\<lambda>_. goKw ''failed to attach device: '' (call (lv_AttachDevice lv uuid x)))"

definition detachDevice :: "('w \<times> 'c) libvirt \<Rightarrow> string \<Rightarrow> string \<Rightarrow> string \<Rightarrow> (unit, 'w, 'c) keff" where
  "detachDevice lv uuid alias x =
     andThen (getDomain lv uuid) (\<lambda>_.
     andThen (goKw ''failed to detach device: '' (call (lv_DetachDevice lv uuid x))) (\<lambda>_ ks.
       case ks of (k, s) \<Rightarrow>
         (case lv_WaitRemoved lv uuid alias s of
            (True, s1) \<Rightarrow> (Inr (), k, s1)
          | (False, s1) \<Rightarrow> (Inl (KErr (Wrapped ''failed to detach device: '' (GoErr (Errorf ''timeout'')))), k, s1))))"

section \<open>Disks\<close>

text \<open>
  \<^verbatim>\<open>mediaFromZDBString\<close>, one \<^verbatim>\<open>key=value\<close> at a time.  The last case compares the key with the value of \<^verbatim>\<open>size\<close> and not with its name.
  A part without a value panics.
\<close>

record zdb_scan =
  zs_protocol :: string
  zs_socket :: string
  zs_host :: string
  zs_port :: string
  zs_password :: string
  zs_namespace :: string
  zs_blocksize :: string
  zs_size :: string
  zs_urlHost :: string
  zs_urlPath :: string
  zs_query :: "(string \<times> string) list"

definition zdb_set :: "string \<Rightarrow> string \<Rightarrow> zdb_scan \<Rightarrow> zdb_scan" where
  "zdb_set k v z =
     (if k = ''socket'' then z\<lparr>zs_socket := v, zs_protocol := ''zdb+unix://''\<rparr>
      else if k = ''host'' then z\<lparr>zs_host := v, zs_protocol := ''zdb+tcp://''\<rparr>
      else if k = ''port'' then z\<lparr>zs_port := v\<rparr>
      else if k = ''password'' then z\<lparr>zs_password := v\<rparr>
      else if k = ''namespace'' then z\<lparr>zs_namespace := v\<rparr>
      else if k = ''blocksize'' then z\<lparr>zs_blocksize := v\<rparr>
      else if k = zs_size z then z\<lparr>zs_size := v\<rparr>
      else z)"

definition zdb_url :: "zdb_scan \<Rightarrow> zdb_scan" where
  "zdb_url z =
     (let z1 = (if zs_socket z \<noteq> [] then z\<lparr>zs_urlPath := zs_protocol z @ zs_socket z\<rparr> else z);
          z2 = (if zs_host z \<noteq> [] then z1\<lparr>zs_urlHost := zs_protocol z @ zs_host z\<rparr> else z1);
          z3 = (if zs_port z \<noteq> [] then z2\<lparr>zs_urlHost := zs_urlHost z2 @ '':'' @ zs_port z\<rparr> else z2)
      in z3\<lparr>zs_query := zs_query z3 @
            [kv \<leftarrow> [(''password'', zs_password z), (''namespace'', zs_namespace z), (''blocksize'', zs_blocksize z), (''size'', zs_size z)].
             snd kv \<noteq> []]\<rparr>)"

fun zdb_parts :: "string list \<Rightarrow> zdb_scan \<Rightarrow> zdb_scan option" where
  "zdb_parts [] z = Some z"
| "zdb_parts (part # parts) z =
     (case split (CHR ''='') part of
        k # v # _ \<Rightarrow> zdb_parts parts (zdb_url (zdb_set k v z))
      | _ \<Rightarrow> None)"

definition zdb_start :: zdb_scan where
  "zdb_start = \<lparr>zs_protocol = [], zs_socket = [], zs_host = [], zs_port = [], zs_password = [], zs_namespace = [], zs_blocksize = [],
     zs_size = [], zs_urlHost = [], zs_urlPath = [], zs_query = []\<rparr>"

definition mediaFromZDBString :: "('w \<times> 'c) libvirt \<Rightarrow> string \<Rightarrow> (media, 'w, 'c) keff" where
  "mediaFromZDBString lv zdb =
     (if \<not> hasPrefix zdb ''driver=zdb'' then kfail (''couldn't find driver=zdb string in '' @ zdb)
      else (case zdb_parts (split (CHR '','') zdb) zdb_start of
              None \<Rightarrow> fail KPanic
            | Some z \<Rightarrow> ret \<lparr>md_URL = lv_urlString lv (zs_urlHost z) (zs_urlPath z) (zs_query z), md_Type = [], md_Bus = [], md_IOTune = None\<rparr>))"

fun zdb_medias :: "('w \<times> 'c) libvirt \<Rightarrow> string list \<Rightarrow> media list \<Rightarrow> (media list, 'w, 'c) keff" where
  "zdb_medias lv [] ms = ret ms"
| "zdb_medias lv (a # as) ms = andThen (mediaFromZDBString lv a) (\<lambda>m. zdb_medias lv as (ms @ [m]))"

definition with_media :: "media list \<Rightarrow> domain_info \<Rightarrow> domain_info" where
  "with_media ms i = i\<lparr>di_Params := (di_Params i)\<lparr>cp_Media := ms\<rparr>\<rparr>"

definition updateMediaInfo :: "('w \<times> 'c) libvirt \<Rightarrow> string \<Rightarrow> (unit, 'w, 'c) keff" where
  "updateMediaInfo lv uuid =
     andThen (getDomainInfo uuid) (\<lambda>_.
     andThen (getDomainStruct lv uuid) (\<lambda>ds.
     andThen (zdb_medias lv (dm_QemuArgs ds) (mediaFromDisks (dm_Disks ds))) (\<lambda>ms.
     kvm_upd_info uuid (with_media ms))))"

definition attachDisk :: "('w, 'c) chost \<Rightarrow> ('w \<times> 'c) libvirt \<Rightarrow> string \<Rightarrow> media \<Rightarrow> (unit, 'w, 'c) keff" where
  "attachDisk ch lv uuid m =
     andThen (getDomainStruct lv uuid) (\<lambda>ds.
     andThen (onHost (mkDisk ch (lv_urlParse lv) (length (dm_Disks ds)) m)) (\<lambda>disk.
     if list_ex (\<lambda>d. dd_Source d = dd_Source disk) (dm_Disks ds) then kfail ''The disk you tried is already attached to the vm''
     else
       andThen (onHost (wrapErr (\<lambda>e. KErr (GoErr (Errorf ''cannot marshal disk to xml''))) (ask (\<lambda>_. lv_DiskXML lv disk)))) (\<lambda>x.
       andThen (attachDevice lv uuid x) (\<lambda>_.
       updateMediaInfo lv uuid))))"

definition detachDisk :: "('w, 'c) chost \<Rightarrow> ('w \<times> 'c) libvirt \<Rightarrow> string \<Rightarrow> media \<Rightarrow> (unit, 'w, 'c) keff" where
  "detachDisk ch lv uuid m =
     andThen (getDomainStruct lv uuid) (\<lambda>ds.
     andThen (onHost (mkDisk ch (lv_urlParse lv) 0 m)) (\<lambda>inp.
     (case find (\<lambda>d. dd_Source d = dd_Source inp) (dm_Disks ds) of
        None \<Rightarrow> kfail ''The disk you tried is not attached to the vm''
      | Some disk \<Rightarrow>
          andThen (onHost (wrapErr (\<lambda>e. KErr (GoErr (Errorf ''cannot marshal disk to xml''))) (ask (\<lambda>_. lv_DiskXML lv disk)))) (\<lambda>x.
          andThen (detachDevice lv uuid (dd_Alias disk) x) (\<lambda>_.
          updateMediaInfo lv uuid)))))"

definition limitDiskIO :: "('w, 'c) chost \<Rightarrow> ('w \<times> 'c) libvirt \<Rightarrow> string \<Rightarrow> media \<Rightarrow> io_tune_params \<Rightarrow> (unit, 'w, 'c) keff" where
  "limitDiskIO ch lv uuid m tune =
     andThen (getDomain lv uuid) (\<lambda>_.
     andThen (getDomainStruct lv uuid) (\<lambda>ds.
     andThen (onHost (mkDisk ch (lv_urlParse lv) 0 m)) (\<lambda>inp.
       let target = (case find (\<lambda>d. dd_Source d = dd_Source inp) (dm_Disks ds) of None \<Rightarrow> [] | Some d \<Rightarrow> dd_Dev d)
       in if target = [] then kfail ''The disk you tried is not attached to the vm''
          else goKw ''failed to tune disk: '' (call (lv_SetBlockIoTune lv uuid target tune)))))"

section \<open>Network devices\<close>

definition if_Source :: "interface \<Rightarrow> string \<times> string" where
  "if_Source dev = (if_Bridge dev, if_Network dev)"

text \<open>The last device of the machine is taken for the new one; no device, or one without an address, panics.\<close>

definition kvm_addNic :: "('w, 'c) chost \<Rightarrow> ('w \<times> 'c) libvirt \<Rightarrow> container_mgr \<Rightarrow> string \<Rightarrow> vm_nic \<Rightarrow> (unit, 'w, 'c) keff" where
  "kvm_addNic ch lv m uuid n =
     andThen (getDomainStruct lv uuid) (\<lambda>ds.
     andThen (getDomainInfo uuid) (\<lambda>info.
     andThen
       (if vn_Type n = ''default'' then
          (if list_ex (\<lambda>d. if_Bridge d = KvmBridgeName) (dm_Interfaces ds) then kfail ''The default nic is already attached to the vm''
           else prepareDefaultNetwork ch lv (di_Sequence info) [])
        else if vn_Type n = ''bridge'' then
          (if vn_ID n = KvmBridgeName then kfail ''the default bridge for the vm should not be added manually'' else prepareBridgeNetwork ch n)
        else if vn_Type n = ''vlan'' then prepareVLanNetwork ch lv m n
        else if vn_Type n = ''vxlan'' then prepareVXLanNetwork ch lv m n
        else kfail (''unsupported network mode: '' @ vn_Type n)) (\<lambda>dev.
     if vn_Type n \<noteq> ''default'' \<and> list_ex (\<lambda>d. if_Source d = if_Source dev) (dm_Interfaces ds)
     then kfail ''This nic is already attached to the vm''
     else
       andThen (onHost (wrapErr (\<lambda>e. KErr (GoErr (Errorf ''cannot marshal nic to xml''))) (ask (\<lambda>_. lv_InterfaceXML lv dev)))) (\<lambda>x.
       andThen (attachDevice lv uuid x) (\<lambda>_.
       andThen (getDomainStruct lv uuid) (\<lambda>ds1.
       (case dm_Interfaces ds1 of
          [] \<Rightarrow> fail KPanic
        | _ \<Rightarrow>
            (case if_Mac (last (dm_Interfaces ds1)) of
               None \<Rightarrow> fail KPanic
             | Some a \<Rightarrow> kvm_upd_info uuid (\<lambda>i. with_nics (cp_Nics (di_Params i) @ [n\<lparr>vn_HWAddress := a\<rparr>]) i)))))))))"

definition updateNics :: "('w \<times> 'c) libvirt \<Rightarrow> string \<Rightarrow> (unit, 'w, 'c) keff" where
  "updateNics lv uuid =
     andThen (getDomainInfo uuid) (\<lambda>info.
     andThen (getDomainStruct lv uuid) (\<lambda>ds.
       if list_ex (\<lambda>d. if_Mac d = None) (dm_Interfaces ds) then fail KPanic
       else kvm_upd_info uuid (\<lambda>i. with_nics (filter (\<lambda>n. Some (vn_HWAddress n) \<in> set (map if_Mac (dm_Interfaces ds))) (cp_Nics (di_Params i))) i)))"

text \<open>
  \<^verbatim>\<open>removeNic\<close>: the source of the device to look for.  When the network of a virtual LAN cannot be prepared, the pointer it reads
  the source from is nil, before the error is looked at.
\<close>

definition nilDeref :: "('a, 'w, 'c) keff \<Rightarrow> ('a, 'w, 'c) keff" where
  "nilDeref m ks = (case m ks of (Inl e, ks1) \<Rightarrow> (Inl KPanic, ks1) | (Inr x, ks1) \<Rightarrow> (Inr x, ks1))"

definition nic_source :: "('w, 'c) chost \<Rightarrow> ('w \<times> 'c) libvirt \<Rightarrow> container_mgr \<Rightarrow> vm_nic \<Rightarrow> (string \<times> string, 'w, 'c) keff" where
  "nic_source ch lv m n =
     (if vn_Type n = ''default'' then ret (KvmBridgeName, [])
      else if vn_Type n = ''bridge'' then ret (vn_ID n, [])
      else if vn_Type n = ''vlan'' then andThen (nilDeref (prepareVLanNetwork ch lv m n)) (\<lambda>tmp. ret (if_Source tmp))
      else if vn_Type n = ''vxlan'' then andThen (nilDeref (prepareVXLanNetwork ch lv m n)) (\<lambda>tmp. ret (if_Source tmp))
      else kfail (''unsupported network mode: '' @ vn_Type n))"

definition kvm_removeNic :: "('w, 'c) chost \<Rightarrow> ('w \<times> 'c) libvirt \<Rightarrow> container_mgr \<Rightarrow> string \<Rightarrow> vm_nic \<Rightarrow> (unit, 'w, 'c) keff" where
  "kvm_removeNic ch lv m uuid n =
     andThen (nic_source ch lv m n) (\<lambda>src.
     andThen (getDomainStruct lv uuid) (\<lambda>ds.
     (case find (\<lambda>d. if_Source d = src) (dm_Interfaces ds) of
        None \<Rightarrow> kfail ''The nic you tried is not attached to the vm''
      | Some dev \<Rightarrow>
          andThen (onHost (wrapErr (\<lambda>e. KErr (GoErr (Errorf ''cannot marshal nic to xml''))) (ask (\<lambda>_. lv_InterfaceXML lv dev)))) (\<lambda>x.
          andThen (detachDevice lv uuid (if_Alias dev) x) (\<lambda>_.
          updateNics lv uuid)))))"

section \<open>Migration\<close>

text \<open>
  The two regular expressions: an \<^verbatim>\<open>interface\<close> element up to the nearest closing tag, with at least one character inside, and a \<^verbatim>\<open>target\<close>
  tag without a slash before the one that ends it.  A match is its text and what follows.
\<close>

fun upto_close :: "string \<Rightarrow> (string \<times> string) option" where
  "upto_close [] = None"
| "upto_close (c # s) =
     (case strip ''</interface>'' (c # s) of
        Some rest \<Rightarrow> Some (''</interface>'', rest)
      | None \<Rightarrow> map_option (apfst ((#) c)) (upto_close s))"

definition interfaceAt :: "string \<Rightarrow> (string \<times> string) option" where
  "interfaceAt s =
     (case strip ''<interface'' s of
        None \<Rightarrow> None
      | Some r \<Rightarrow>
          let attrs = takeWhile (\<lambda>c. c \<noteq> CHR ''>'') r in
          (case dropWhile (\<lambda>c. c \<noteq> CHR ''>'') r of
             gt # c # body \<Rightarrow> map_option (apfst (\<lambda>b. ''<interface'' @ attrs @ [gt, c] @ b)) (upto_close body)
           | _ \<Rightarrow> None))"

definition targetAt :: "string \<Rightarrow> string option" where
  "targetAt s =
     (case strip ''<target'' s of
        None \<Rightarrow> None
      | Some r \<Rightarrow> if takeWhile (\<lambda>c. c \<noteq> CHR ''/'') r = [] then None else strip ''/>'' (dropWhile (\<lambda>c. c \<noteq> CHR ''/'') r))"

lemma strip_shorter: "strip p s = Some r \<Longrightarrow> length r \<le> length s"
  by (auto simp: strip_def split: if_splits)

lemma strip_shorter': "strip p s = Some r \<Longrightarrow> p \<noteq> [] \<Longrightarrow> length r < length s"
  by (cases p; cases s) (auto simp: strip_def hasPrefix_def split: if_splits)

lemma upto_close_shorter: "upto_close s = Some (b, r) \<Longrightarrow> length r \<le> length s"
  by (induction s arbitrary: b) (auto dest: strip_shorter split: option.splits)

lemma interfaceAt_shorter: "interfaceAt s = Some (b, r) \<Longrightarrow> length r < length s"
proof -
  assume "interfaceAt s = Some (b, r)"
  then obtain q gt c body b1 where q: "strip ''<interface'' s = Some q" "dropWhile (\<lambda>c. c \<noteq> CHR ''>'') q = gt # c # body"
      "upto_close body = Some (b1, r)"
    by (auto simp: interfaceAt_def Let_def split: option.splits list.splits)
  have "length r \<le> length body" using q(3) by (rule upto_close_shorter)
  moreover have "length body < length q" using length_dropWhile_le [of "\<lambda>c. c \<noteq> CHR ''>''" q] q(2) by simp
  moreover have "length q \<le> length s" using q(1) by (rule strip_shorter)
  ultimately show ?thesis by linarith
qed

lemma targetAt_shorter: "targetAt s = Some r \<Longrightarrow> length r < length s"
proof -
  assume "targetAt s = Some r"
  then obtain q where q: "strip ''<target'' s = Some q" "strip ''/>'' (dropWhile (\<lambda>c. c \<noteq> CHR ''/'') q) = Some r"
    by (auto simp: targetAt_def split: option.splits if_splits)
  have "length r \<le> length q" using strip_shorter [OF q(2)] length_dropWhile_le [of _ q] by (rule le_trans)
  moreover have "length q < length s" using q(1) by (rule strip_shorter') simp
  ultimately show ?thesis by linarith
qed

function drop_targets :: "string \<Rightarrow> string" where
  "drop_targets s =
     (case targetAt s of
        Some r \<Rightarrow> drop_targets r
      | None \<Rightarrow> (case s of [] \<Rightarrow> [] | c # t \<Rightarrow> c # drop_targets t))"
  by pat_completeness auto
termination
  by (relation "measure length") (auto dest: targetAt_shorter)

declare drop_targets.simps [simp del]

function fixXML :: "string \<Rightarrow> string" where
  "fixXML s =
     (case interfaceAt s of
        Some (b, r) \<Rightarrow> drop_targets b @ fixXML r
      | None \<Rightarrow> (case s of [] \<Rightarrow> [] | c # t \<Rightarrow> c # fixXML t))"
  by pat_completeness auto
termination
  by (relation "measure length") (auto dest: interfaceAt_shorter)

declare fixXML.simps [simp del]

definition migrate :: "('w \<times> 'c) libvirt \<Rightarrow> string \<Rightarrow> string \<Rightarrow> (unit, 'w, 'c) keff" where
  "migrate lv uuid dest =
     andThen (getDomain lv uuid) (\<lambda>_.
     andThen (goK (ask (lv_GetName lv uuid))) (\<lambda>name.
     andThen (goKw ''cannot get domain xml: '' (ask (lv_GetXMLDesc lv uuid))) (\<lambda>srcxml.
     goK (call (lv_Migrate lv uuid dest (fixXML srcxml) name)))))"

section \<open>Listing\<close>

record machine =
  mc_ID :: int
  mc_UUID :: string
  mc_Name :: string
  mc_State :: string
  mc_Vnc :: int
  mc_Tags :: "string list"
  mc_IfcTargets :: "string list"
  mc_DefaultIP :: string
  mc_Params :: create_params
  mc_Port :: port_map

definition getMachine ::
  "('w, 'c) chost \<Rightarrow> ('w \<times> 'c) libvirt \<Rightarrow> string \<Rightarrow> (ns \<rightharpoonup> port_map) option \<Rightarrow> (machine, 'w, 'c) keff" where
  "getMachine ch lv vm ruleset =
     andThen (goK (ask (lv_GetUUIDString lv vm))) (\<lambda>uuid.
     andThen (getDomainStruct lv uuid) (\<lambda>ds.
     andThen (goK (ask (lv_GetID lv vm))) (\<lambda>mid.
     andThen (goK (ask (lv_GetName lv vm))) (\<lambda>name.
     andThen (goK (ask (lv_GetState lv vm))) (\<lambda>state.
     andThen (getDomainInfo uuid) (\<lambda>info.
     andThen (case ruleset of
                None \<Rightarrow> onHost (wrapErr (\<lambda>e. KErr (NftErrC e)) (\<lambda>(w, c). case List_ns (ch_host ch) (kvmForwardId (di_Sequence info)) w of (r, w1) \<Rightarrow> (r, w1, c)))
              | Some rs \<Rightarrow> ret (case rs (kvmForwardId (di_Sequence info)) of None \<Rightarrow> Map.empty | Some ps \<Rightarrow> ps)) (\<lambda>ports.
     andThen (kvm_upd_info uuid (\<lambda>i. i\<lparr>di_Port := ports\<rparr>)) (\<lambda>_.
     ret \<lparr>mc_ID = mid, mc_UUID = uuid, mc_Name = name, mc_State = StateToString state,
          mc_Vnc = (case dm_VNC ds of [] \<Rightarrow> -1 | p # _ \<Rightarrow> p), mc_Tags = cp_Tags (di_Params info), mc_IfcTargets = map if_Target (dm_Interfaces ds),
          mc_DefaultIP = ipAddr (di_Sequence info), mc_Params = di_Params info, mc_Port = ports\<rparr>))))))))"

fun list_machines ::
  "('w, 'c) chost \<Rightarrow> ('w \<times> 'c) libvirt \<Rightarrow> (ns \<rightharpoonup> port_map) \<Rightarrow> string list \<Rightarrow> machine list \<Rightarrow> (machine list, 'w, 'c) keff" where
  "list_machines ch lv rs [] acc = ret acc"
| "list_machines ch lv rs (d # ds) acc = andThen (getMachine ch lv d (Some rs)) (\<lambda>mc. list_machines ch lv rs ds (acc @ [mc]))"

definition kvm_list :: "('w, 'c) chost \<Rightarrow> ('w \<times> 'c) libvirt \<Rightarrow> (machine list, 'w, 'c) keff" where
  "kvm_list ch lv =
     andThen (getConnection lv) (\<lambda>_.
     andThen (goKw ''failed to list machines: '' (ask (lv_ListAll lv))) (\<lambda>ds.
     andThen (onHost (wrapErr (\<lambda>e. KErr (NftErrC e)) (\<lambda>(w, c). case ListAll (ch_host ch) KVM w of (r, w1) \<Rightarrow> (r, w1, c)))) (\<lambda>ruleset.
     list_machines ch lv ruleset ds [])))"

definition kvm_get :: "('w, 'c) chost \<Rightarrow> ('w \<times> 'c) libvirt \<Rightarrow> string \<Rightarrow> string \<Rightarrow> (machine, 'w, 'c) keff" where
  "kvm_get ch lv name uuid =
     (if (length name = 0) = (length uuid = 0) then kfail ''Must supply either Name or UUID''
      else
        andThen (getConnection lv) (\<lambda>_.
        andThen (if name \<noteq> [] then goKw ''failed to lookup domain by name: '' (ask (lv_LookupByName lv name))
                 else (\<lambda>ks. if lv_Lookup lv uuid (snd ks) then ret uuid ks else kfail ''failed to lookup domain by uuid'' ks)) (\<lambda>d.
        getMachine ch lv d None)))"

section \<open>Forwarded ports\<close>

definition kvm_portforwardAdd :: "('w, 'c) chost \<Rightarrow> ('w \<times> 'c) libvirt \<Rightarrow> string \<Rightarrow> string \<Rightarrow> int \<Rightarrow> (unit, 'w, 'c) keff" where
  "kvm_portforwardAdd ch lv uuid host dest =
     andThen (\<lambda>ks. case getDomainStruct lv uuid ks of
                     (Inl e, ks1) \<Rightarrow> kfail (''couldn't find domain with the uuid '' @ uuid) ks1
                   | (Inr ds, ks1) \<Rightarrow> (Inr ds, ks1)) (\<lambda>ds.
     if \<not> list_ex (\<lambda>d. if_Source d = (KvmBridgeName, [])) (dm_Interfaces ds) then kfail ''KVM doesn't have a default nic''
     else andThen (getDomainInfo uuid) (\<lambda>info. kvm_setPortForward ch (di_Sequence info) host dest))"

definition kvm_portforwardRemove :: "('w, 'c) chost \<Rightarrow> ('w \<times> 'c) libvirt \<Rightarrow> string \<Rightarrow> string \<Rightarrow> int \<Rightarrow> (unit, 'w, 'c) keff" where
  "kvm_portforwardRemove ch lv uuid host dest =
     andThen (getDomain lv uuid) (\<lambda>_.
     andThen (getDomainInfo uuid) (\<lambda>info.
     onHost (wrapErr (\<lambda>e. KErr (SocatErr e)) (\<lambda>(w, k). case RemovePortForward (ch_host ch) (kvmForwardId (di_Sequence info)) host dest w of
       (None, w1) \<Rightarrow> (Inr (), w1, k) | (Some e, w1) \<Rightarrow> (Inl e, w1, k)))))"

section \<open>Images and statistics\<close>

definition createImage :: "('w, 'c) chost \<Rightarrow> string \<Rightarrow> string \<Rightarrow> string \<Rightarrow> (unit, 'w, 'c) keff" where
  "createImage ch file format isize =
     andThen (goK (system ch [''qemu-img'', ''create'', ''-f'', format, file, isize])) (\<lambda>_. ret ())"

definition convertImage :: "('w, 'c) chost \<Rightarrow> string \<Rightarrow> string \<Rightarrow> string \<Rightarrow> (unit, 'w, 'c) keff" where
  "convertImage ch input output format =
     andThen (goK (system ch [''qemu-img'', ''convert'', ''-O'', format, input, output])) (\<lambda>_. ret ())"

text \<open>\<^verbatim>\<open>infops\<close>: a query that does not succeed is answered with nothing and no error.\<close>

definition infops :: "('w, 'c) chost \<Rightarrow> ('w \<times> 'c) libvirt \<Rightarrow> string \<Rightarrow> (json option, 'w, 'c) keff" where
  "infops ch lv uuid =
     andThen (goK (lv_Run lv ''aggregator.query'' [(''tags'', JObj [(''id'', JStr uuid)])])) (\<lambda>result.
       if jr_State result \<noteq> Some StateSuccess then ret None
       else (case rd_dec (ch_redis ch) (jr_Data result) of
               None \<Rightarrow> kfail ''invalid JSON''
             | Some j \<Rightarrow> ret (Some j)))"

record vcpu_stats =
  vs_State :: int
  vs_Time :: u64

record net_stats =
  ns_Name :: string
  ns_RxBytes :: u64
  ns_RxPkts :: u64
  ns_RxErrs :: u64
  ns_RxDrop :: u64
  ns_TxBytes :: u64
  ns_TxPkts :: u64
  ns_TxErrs :: u64
  ns_TxDrop :: u64

record block_stats =
  bs_Name :: string
  bs_RdBytes :: u64
  bs_RdReqs :: u64
  bs_RdTimes :: u64
  bs_WrBytes :: u64
  bs_WrReqs :: u64
  bs_WrTimes :: u64

text \<open>What libvirt reports of a running machine; the answers to the questions about it are part of the report.\<close>

record vm_stats =
  st_Name :: "go_error + string"
  st_XML :: "go_error + string"
  st_Info :: "go_error + u64 \<times> u64"
  st_Vcpu :: "vcpu_stats list"
  st_Net :: "net_stats list"
  st_Block :: "block_stats list"

text \<open>\<^verbatim>\<open>info\<close> gives the first report, field by field, the numbers of requests left out; no report panics.\<close>

definition kvm_info ::
  "('w \<times> 'c) libvirt \<Rightarrow> (string \<Rightarrow> 'w \<times> 'c \<Rightarrow> go_error + vm_stats list) \<Rightarrow> string
     \<Rightarrow> (vcpu_stats list \<times> net_stats list \<times> (string \<times> u64 \<times> u64 \<times> u64 \<times> u64) list, 'w, 'c) keff" where
  "kvm_info lv stats uuid =
     andThen (getDomain lv uuid) (\<lambda>_.
     andThen (getConnection lv) (\<lambda>_.
     andThen (goKw ''failed to get machine info: '' (ask (stats uuid))) (\<lambda>infos.
     (case infos of
        [] \<Rightarrow> fail KPanic
      | i # _ \<Rightarrow> ret (st_Vcpu i, st_Net i, map (\<lambda>b. (bs_Name b, bs_RdBytes b, bs_RdTimes b, bs_WrBytes b, bs_WrTimes b)) (st_Block i))))))"

text \<open>A call of \<^verbatim>\<open>pm.Aggregate\<close>: operation, key, value, identifier and tags.\<close>

type_synonym 'f aggregated = "string \<times> string \<times> 'f \<times> string \<times> (string \<times> string) list"

definition u_float :: "'f float_ops \<Rightarrow> u64 \<Rightarrow> 'f" where
  "u_float F v = fl_ofint F (uint v)"

definition net_measures :: "'f float_ops \<Rightarrow> string \<Rightarrow> (string \<times> string option) list \<Rightarrow> net_stats \<Rightarrow> 'f aggregated list" where
  "net_measures F name macs n =
     (let mac = (case map_of (rev macs) (ns_Name n) of Some (Some a) \<Rightarrow> a | _ \<Rightarrow> []);
          nid = name @ ''.'' @ mac; tags = [(''type'', ''virt''), (''name'', ns_Name n)]
      in [(Differential, ''kvm.net.rxbytes'', u_float F (ns_RxBytes n), nid, tags), (Differential, ''kvm.net.rxpackets'', u_float F (ns_RxPkts n), nid, tags),
          (Differential, ''kvm.net.txbytes'', u_float F (ns_TxBytes n), nid, tags), (Differential, ''kvm.net.txpackets'', u_float F (ns_TxPkts n), nid, tags)])"

definition block_measures :: "'f float_ops \<Rightarrow> string \<Rightarrow> block_stats \<Rightarrow> 'f aggregated list" where
  "block_measures F name b =
     (let bid = name @ ''.'' @ bs_Name b; tags = [(''type'', ''virt''), (''name'', bs_Name b)]
      in [(Differential, ''kvm.disk.rdbytes'', u_float F (bs_RdBytes b), bid, tags), (Differential, ''kvm.disk.iops.read'', u_float F (bs_RdReqs b), bid, tags),
          (Differential, ''kvm.disk.wrbytes'', u_float F (bs_WrBytes b), bid, tags), (Differential, ''kvm.disk.iops.write'', u_float F (bs_WrReqs b), bid, tags)])"

definition vcpu_measures :: "'f float_ops \<Rightarrow> string \<Rightarrow> nat \<times> vcpu_stats \<Rightarrow> 'f aggregated list" where
  "vcpu_measures F name iv =
     (let tags = [(''type'', ''virt''), (''nr'', itoa (fst iv))]
      in [(Average, ''kvm.vcpu.state'', fl_ofint F (vs_State (snd iv)), name, tags),
          (Differential, ''kvm.vcpu.time'', fl_div F (u_float F (vs_Time (snd iv))) (fl_ofint F 1000000000), name, tags)])"

text \<open>
  \<^verbatim>\<open>monitor\<close>: the measures of one machine, or the error that ends the loop.  A device without an address panics.
\<close>

definition vm_measures :: "'f float_ops \<Rightarrow> 's libvirt \<Rightarrow> vm_stats \<Rightarrow> kvm_error + 'f aggregated list" where
  "vm_measures F lv st =
     (case st_Name st of
        Inl e \<Rightarrow> Inl (KErr (GoErr e))
      | Inr name \<Rightarrow>
          (case st_XML st of
             Inl e \<Rightarrow> Inl (KErr (Wrapped ''cannot get domain xml: '' (GoErr e)))
           | Inr x \<Rightarrow>
               (case lv_Domain lv x of
                  Inl e \<Rightarrow> Inl (KErr (Wrapped ''cannot parse the domain xml: '' (GoErr e)))
                | Inr ds \<Rightarrow>
                    if list_ex (\<lambda>d. if_Mac d = None) (dm_Interfaces ds) then Inl KPanic
                    else (case st_Info st of
                            Inl e \<Rightarrow> Inl (KErr (Wrapped ''cannot get domain info: '' (GoErr e)))
                          | Inr (maxMem, cpuTime) \<Rightarrow>
                              let macs = map (\<lambda>d. (if_Target d, if_Mac d)) (dm_Interfaces ds)
                              in Inr ([(Average, ''kvm.memory.max'', fl_div F (u_float F maxMem) (fl_ofint F 1000), name, [(''type'', ''virt'')]),
                                       (Differential, ''kvm.cpu.time'', fl_div F (u_float F cpuTime) (fl_ofint F 1000000000), name, [(''type'', ''virt'')])]
                                      @ concat (map (vcpu_measures F name) (enumerate 0 (st_Vcpu st)))
                                      @ concat (map (net_measures F name macs) (st_Net st))
                                      @ concat (map (block_measures F name) (st_Block st)))))))"

text \<open>What is measured before an error is kept: the measures are made as the loop goes.\<close>

fun monitor_loop :: "'f float_ops \<Rightarrow> 's libvirt \<Rightarrow> vm_stats list \<Rightarrow> 'f aggregated list \<times> kvm_error option" where
  "monitor_loop F lv [] = ([], None)"
| "monitor_loop F lv (st # sts) =
     (case vm_measures F lv st of
        Inl e \<Rightarrow> ([], Some e)
      | Inr ms \<Rightarrow> (case monitor_loop F lv sts of (rest, e) \<Rightarrow> (ms @ rest, e)))"

definition kvm_monitor ::
  "'f float_ops \<Rightarrow> ('w \<times> 'c) libvirt \<Rightarrow> ('w \<times> 'c \<Rightarrow> go_error + vm_stats list) \<Rightarrow> ('f aggregated list \<times> kvm_error option, 'w, 'c) keff" where
  "kvm_monitor F lv stats =
     andThen (getConnection lv) (\<lambda>_.
     andThen (goK (ask stats)) (\<lambda>infos. ret (monitor_loop F lv infos)))"

end
