(* ===== verification/Kvm_Addresses.thy ===== *)
theory Kvm_Addresses
  imports Kvm_Devices Container_Safety Socat_Forward
begin

text \<open>
  Properties of the virtual machines: their numbers and addresses, and which network devices are accepted.
\<close>

section \<open>Numbers and addresses\<close>

lemma seq_of_nat: "n < 65536 \<Longrightarrow> unat (of_nat n :: u16) = n"
  by (simp add: unsigned_of_nat take_bit_nat_eq_self_iff)

lemma not_reserved: "q \<notin> set ReservedSequences \<longleftrightarrow> 2 \<le> unat q \<and> unat q < 65535"
proof -
  have "q = 0 \<longleftrightarrow> unat q = 0" "q = 1 \<longleftrightarrow> unat q = 1" "q = 0xffff \<longleftrightarrow> unat q = 65535"
    by (simp_all add: word_unat_eq_iff)
  then show ?thesis using unat16 [of q] by (auto simp: ReservedSequences_def)
qed

lemma nextSequence_step: "j < 65533 \<Longrightarrow> nextSequence (of_nat (2 + j)) = of_nat (2 + Suc j mod 65533)"
proof (cases "Suc j < 65533")
  case True
  then have "(of_nat (2 + j) :: u16) + 1 \<notin> set ReservedSequences"
    using seq_of_nat [of "3 + j"] by (simp add: not_reserved add.commute add.left_commute)
  then show ?thesis using True by (simp add: nextSequence_def numeral_3_eq_3 add.commute add.left_commute)
next
  assume "j < 65533"
  case False
  with \<open>j < 65533\<close> have "j = 65532" by simp
  moreover have "nextSequence 65534 = 2" by (simp add: nextSequence_def numeral_3_eq_3 ReservedSequences_def)
  ultimately show ?thesis by simp
qed

lemma sequences: "(nextSequence ^^ Suc k) 0 = of_nat (2 + k mod 65533)"
proof (induction k)
  case 0
  then show ?case by (simp add: nextSequence_def numeral_3_eq_3 ReservedSequences_def)
next
  case (Suc k)
  have "(nextSequence ^^ Suc (Suc k)) 0 = nextSequence ((nextSequence ^^ Suc k) 0)" by simp
  also have "\<dots> = of_nat (2 + Suc (k mod 65533) mod 65533)"
    unfolding Suc.IH by (rule nextSequence_step) simp
  finally show ?case by (simp add: mod_Suc_eq)
qed

lemma nextSequence_ok: "nextSequence q \<notin> set ReservedSequences"
proof (cases "q \<in> set ReservedSequences")
  case True
  then show ?thesis by (auto simp: nextSequence_def numeral_3_eq_3 ReservedSequences_def)
next
  case False
  define j where "j = unat q - 2"
  have u: "2 \<le> unat q" "unat q < 65535" using False by (simp_all add: not_reserved)
  then have "j < 65533" "2 + j = unat q" unfolding j_def by linarith+
  then have q: "q = of_nat (2 + j)" "j < 65533" by simp_all
  have "Suc j mod 65533 < 65533" by simp
  then show ?thesis
    unfolding q(1) nextSequence_step [OF q(2)] not_reserved
    by (subst (1 2) seq_of_nat) simp_all
qed

lemma kvm_octets: "octet KvmBridgeIP 0 = 172" "octet KvmBridgeIP 1 = 19"
  by (simp_all add: KvmBridgeIP_def ofOctets_def octet_eq [unfolded One_nat_def])

definition kvm_ip :: "u16 \<Rightarrow> ip4" where
  "kvm_ip s = of_nat (2886926336 + unat s)"

lemma kvm_ip_nat: "unat (kvm_ip s) = 2886926336 + unat s"
  unfolding kvm_ip_def using unat16 [of s] by (intro unat_of_nat32) simp

lemma ipAddr_String: "ipAddr s = IP_String (kvm_ip s)"
proof -
  have d: "(2886926336 + n) div 65536 = (44051 :: nat)" if "n < 65536" for n
    using that div_mult_self1 [of "65536 :: nat" n 44051] by simp
  have e: "(2886926336 + n) div 256 mod 256 = n div (256 :: nat)" "(2886926336 + n) mod 256 = n mod (256 :: nat)" if "n < 65536" for n
  proof -
    have eq: "2886926336 + n = n + 256 * 11277056" by simp
    show "(2886926336 + n) mod 256 = n mod 256" unfolding eq by (rule mod_mult_self2)
    have "(2886926336 + n) div 256 = n div 256 + 11277056" unfolding eq by (subst div_mult_self2) simp_all
    also have "\<dots> mod 256 = n div 256" using that less_mult_imp_div_less [of n 256 256] 
      by (simp add: mod_add_eq [of _ _ 11277056, symmetric])
    finally show "(2886926336 + n) div 256 mod 256 = n div 256" .
  qed
  have "(2886926336 + n) div 16777216 = (172 :: nat)" "(2886926336 + n) div 65536 mod 256 = (19 :: nat)" if "n < 65536" for n
    using d [OF that] div_mult2_eq [of "2886926336 + n" 65536 256] by simp_all
  then have "octet (kvm_ip s) 0 = 172" "octet (kvm_ip s) 1 = 19" "octet (kvm_ip s) 2 = unat s div 256" "octet (kvm_ip s) 3 = unat s mod 256"
    using unat16 [of s] e by (simp_all only: octet_eq kvm_ip_nat)
  then show ?thesis
    unfolding ipAddr_def kvm_octets low_byte high_byte by (simp add: IP_String_def)
qed

lemma kvm_ip_inject: "kvm_ip s = kvm_ip t \<longleftrightarrow> s = t"
  by (metis add_left_cancel kvm_ip_nat word_unat_eq_iff)

lemma ipAddr_nat:
  "ipAddr s = itoa 172 @ ''.'' @ itoa 19 @ ''.'' @ itoa (unat s div 256) @ ''.'' @ itoa (unat s mod 256)"
  unfolding ipAddr_def kvm_octets low_byte high_byte ..

lemma ipAddr_inject: "ipAddr s = ipAddr t \<longleftrightarrow> s = t"
proof
  assume "ipAddr s = ipAddr t"
  then have "parseIPv4 (IP_String (kvm_ip s)) = parseIPv4 (IP_String (kvm_ip t))" by (simp add: ipAddr_String)
  then show "s = t" by (simp add: kvm_ip_inject)
qed simp

lemma hex2_inject: "a < 256 \<Longrightarrow> b < 256 \<Longrightarrow> hex2 a = hex2 b \<longleftrightarrow> a = b"
proof
  assume ab: "a < 256" "b < 256" "hex2 a = hex2 b"
  then have "hexVal (hexDigit (a div 16)) = hexVal (hexDigit (b div 16))" "hexVal (hexDigit (a mod 16)) = hexVal (hexDigit (b mod 16))"
    by (simp_all add: hex2_def)
  moreover have "a div 16 < 16" "b div 16 < 16" "a mod 16 < 16" "b mod 16 < 16" using ab by auto
  ultimately have "a div 16 = b div 16" "a mod 16 = b mod 16" by (simp_all only: hexDigit_facts(2))
  then show "a = b" by (metis div_mult_mod_eq)
qed simp

lemma macAddr_inject: "macAddr s = macAddr t \<longleftrightarrow> s = t"
proof
  assume "macAddr s = macAddr t"
  then have "hex2 (unat s div 256) = hex2 (unat t div 256)" "hex2 (unat s mod 256) = hex2 (unat t mod 256)"
    unfolding macAddr_def low_byte high_byte by (simp_all add: hex2_def)
  moreover have "unat s div 256 < 256" "unat t div 256 < 256"
    using unat16 [of s] unat16 [of t] by (simp_all add: less_mult_imp_div_less)
  ultimately have "unat s div 256 = unat t div 256" "unat s mod 256 = unat t mod 256" by (simp_all add: hex2_inject)
  then show "s = t" by (metis mult_div_mod_eq word_unat_eq_iff)
qed simp

lemma kvmForwardId_inject: "kvmForwardId s = kvmForwardId t \<longleftrightarrow> s = t"
proof
  have "ucast (kvmForwardId i) = i" for i
    unfolding kvmForwardId_def Namespace_def by (rule bit_word_eqI) (auto simp: bit_simps dest: bit_imp_le_length)
  then show "kvmForwardId s = kvmForwardId t \<Longrightarrow> s = t" by metis
qed simp

text \<open>
  The numbers and addresses of machines.  The k-th machine that is created after the start gets number 2 + (k - 1) mod 65533, so that the
  numbers repeat after 65533 machines, whether or not the earlier ones have ended.  Different numbers have different IP addresses, MAC addresses and
  namespaces of forwards, and no machine gets the address of the network, of the bridge or the broadcast address.
\<close>

theorem machine_addresses:
  "(nextSequence ^^ Suc k) 0 = of_nat (2 + k mod 65533) \<and>
   (ipAddr s = ipAddr t \<longleftrightarrow> s = t) \<and> (macAddr s = macAddr t \<longleftrightarrow> s = t) \<and> (kvmForwardId s = kvmForwardId t \<longleftrightarrow> s = t) \<and>
   ipAddr (nextSequence q) \<notin> {''172.19.0.0'', ''172.19.0.1'', ''172.19.255.255''}"
proof -
  have "itoa 172 = ''172''" "itoa 19 = ''19''" "itoa 0 = ''0''" "itoa 1 = ''1''" "itoa 255 = ''255''" by code_simp+
  then have "ipAddr 0 = ''172.19.0.0''" "ipAddr 1 = ''172.19.0.1''" "ipAddr 0xffff = ''172.19.255.255''"
    by (simp_all add: ipAddr_nat)
  then have "{''172.19.0.0'', ''172.19.0.1'', ''172.19.255.255''} = ipAddr ` set ReservedSequences" by (simp add: ReservedSequences_def)
  moreover have "inj ipAddr" by (rule injI) (simp add: ipAddr_inject)
  ultimately have "ipAddr (nextSequence q) \<notin> {''172.19.0.0'', ''172.19.0.1'', ''172.19.255.255''}"
    using nextSequence_ok [of q] by (simp only: inj_image_mem_iff not_False_eq_True)
  with sequences ipAddr_inject macAddr_inject kvmForwardId_inject show ?thesis by (intro conjI) assumption+
qed

section \<open>Validation\<close>

definition known_nic :: "vm_nic \<Rightarrow> bool" where
  "known_nic n \<longleftrightarrow> vn_Type n \<in> {''default'', ''bridge'', ''vlan'', ''vxlan''} \<and> (vn_Type n = ''bridge'' \<longrightarrow> vn_ID n \<noteq> KvmBridgeName)"

definition bridge_ids :: "vm_nic list \<Rightarrow> string list" where
  "bridge_ids ns = map vn_ID (filter (\<lambda>n. vn_Type n = ''bridge'') ns)"

definition defaults :: "vm_nic list \<Rightarrow> nat" where
  "defaults ns = length (filter (\<lambda>n. vn_Type n = ''default'') ns)"

lemma nic_counts [simp]:
  "bridge_ids [] = []" "defaults [] = 0"
  "bridge_ids (n # ns) = (if vn_Type n = ''bridge'' then vn_ID n # bridge_ids ns else bridge_ids ns)"
  "defaults (n # ns) = (if vn_Type n = ''default'' then Suc (defaults ns) else defaults ns)"
  by (simp_all add: bridge_ids_def defaults_def)

lemma known_ids: "list_all known_nic ns \<Longrightarrow> KvmBridgeName \<notin> set (bridge_ids ns)"
  by (auto simp: list_all_iff known_nic_def bridge_ids_def)

lemma vm_nics_valid_None:
  "vm_nics_valid ns br = None \<longleftrightarrow>
     list_all known_nic ns \<and> defaults ns \<le> 1 - br KvmBridgeName \<and> distinct (bridge_ids ns) \<and> list_all (\<lambda>b. br b = 0) (bridge_ids ns)"
proof (induction ns br rule: vm_nics_valid.induct)
  case (1 br)
  then show ?case by simp
next
  case (2 n ns br)
  consider "vn_Type n = ''default''" | "vn_Type n = ''bridge''" | "vn_Type n = ''vlan''" | "vn_Type n = ''vxlan''"
    | "vn_Type n \<notin> {''default'', ''bridge'', ''vlan'', ''vxlan''}" by blast
  then show ?case
  proof cases
    case 1
    then have k: "known_nic n" by (simp add: known_nic_def)
    show ?thesis
    proof (cases "br KvmBridgeName = 0")
      case True
      define br' where "br' = br(KvmBridgeName := 1)"
      have v: "vm_nics_valid (n # ns) br = vm_nics_valid ns br'" using 1 True by (simp add: br'_def del: fun_upd_apply)
      have e: "vm_nics_valid ns br' = None \<longleftrightarrow> list_all known_nic ns \<and> defaults ns \<le> 1 - br' KvmBridgeName \<and>
          distinct (bridge_ids ns) \<and> list_all (\<lambda>b. br' b = 0) (bridge_ids ns)"
        using "2.IH"(1) 1 True by (simp add: br'_def del: fun_upd_apply)
      have "list_all known_nic ns \<Longrightarrow> list_all (\<lambda>b. br' b = 0) (bridge_ids ns) = list_all (\<lambda>b. br b = 0) (bridge_ids ns)"
        using known_ids [of ns] by (auto simp: list_all_iff br'_def)
      moreover have "br' KvmBridgeName = 1" by (simp add: br'_def)
      ultimately show ?thesis unfolding v e using 1 k True by auto
    qed (use 1 k in simp)
  next
    case b: 2
    show ?thesis
    proof (cases "vn_ID n = KvmBridgeName \<or> br (vn_ID n) \<noteq> 0")
      case True
      with b show ?thesis by (auto simp: known_nic_def)
    next
      case False
      define br' where "br' = br(vn_ID n := 1)"
      have v: "vm_nics_valid (n # ns) br = vm_nics_valid ns br'" using b False by (simp add: br'_def del: fun_upd_apply)
      have e: "vm_nics_valid ns br' = None \<longleftrightarrow> list_all known_nic ns \<and> defaults ns \<le> 1 - br' KvmBridgeName \<and>
          distinct (bridge_ids ns) \<and> list_all (\<lambda>b. br' b = 0) (bridge_ids ns)"
        using "2.IH"(2) b False by (simp add: br'_def del: fun_upd_apply)
      have "list_all (\<lambda>x. br' x = 0) (bridge_ids ns) \<longleftrightarrow> vn_ID n \<notin> set (bridge_ids ns) \<and> list_all (\<lambda>x. br x = 0) (bridge_ids ns)"
        by (auto simp: list_all_iff br'_def)
      moreover have "br' KvmBridgeName = br KvmBridgeName" using False by (auto simp: br'_def)
      moreover have "known_nic n" using b False by (simp add: known_nic_def)
      ultimately show ?thesis unfolding v e using b False by auto
    qed
  next
    case 3
    then show ?thesis using "2.IH"(3) by (simp add: known_nic_def)
  next
    case 4
    then show ?thesis using "2.IH"(4) by (simp add: known_nic_def)
  next
    case 5
    then show ?thesis by (simp add: known_nic_def)
  qed
qed

text \<open>
  What \<^verbatim>\<open>NicParams.Valid\<close> accepts: devices of the four known types, at most one of them on the default bridge, none that names the default
  bridge itself, and no bridge twice.
\<close>

theorem nics_accepted:
  "NicParams_Valid ns = None \<longleftrightarrow>
     list_all (\<lambda>n. vn_Type n \<in> {''default'', ''bridge'', ''vlan'', ''vxlan''}) ns \<and>
     length (filter (\<lambda>n. vn_Type n = ''default'') ns) \<le> 1 \<and>
     distinct (KvmBridgeName # map vn_ID (filter (\<lambda>n. vn_Type n = ''bridge'') ns))"
proof -
  have "list_all known_nic ns \<longleftrightarrow>
      list_all (\<lambda>n. vn_Type n \<in> {''default'', ''bridge'', ''vlan'', ''vxlan''}) ns \<and> KvmBridgeName \<notin> set (bridge_ids ns)"
    by (induction ns) (auto simp: known_nic_def)
  moreover have "NicParams_Valid ns = None \<longleftrightarrow> list_all known_nic ns \<and> defaults ns \<le> 1 \<and> distinct (bridge_ids ns)"
    by (simp add: NicParams_Valid_def vm_nics_valid_None list_all_iff)
  ultimately show ?thesis unfolding bridge_ids_def [symmetric] defaults_def [symmetric] by auto
qed

end
