(* ===== verification/Kvm_Safety.thy ===== *)
theory Kvm_Safety
  imports Kvm_Addresses
begin

text \<open>
  Properties of the virtual machines: what creating a machine does to the table, what a migration leaves behind and sends along, the names and the
  listing of the disks, and which arguments panic.
\<close>

section \<open>What the steps keep of the table\<close>

abbreviation info_is :: "(string \<rightharpoonup> domain_info) \<Rightarrow> ('w, 'c) kstate \<Rightarrow> bool" where
  "info_is T ks \<equiv> kv_info (fst ks) = T"

named_theorems keeps_info \<open>steps that leave the table of machines as it is\<close>

lemma keeps_onHost [keeps_info]: "keeps (info_is T) (onHost m)"
  by (auto simp: keeps_def onHost_def split: prod.splits)

lemma keeps_plain [keeps_info]:
  "keeps (info_is T) (goK m)" "keeps (info_is T) (goKw t m)" "keeps (info_is T) (kfail t)"
  unfolding goK_def goKw_def kfail_def by (rule keeps_onHost keeps_simps)+

lemma keeps_pureK [keeps_info]: "keeps (info_is T) (pureK r)"
  by (cases r) (simp_all add: pureK_def keeps_simps)

lemma keepsI: "(\<And>s. P s \<Longrightarrow> P (snd (m s))) \<Longrightarrow> keeps P m"
  by (simp add: keeps_def)

lemma keeps_finallyK: "keeps P h \<Longrightarrow> keeps P m \<Longrightarrow> keeps P (finallyK h m)"
proof (rule keepsI)
  fix s assume k: "keeps P h" "keeps P m" "P s"
  obtain r s1 where m: "m s = (r, s1)" by (rule prod.exhaust)
  have "P s1" using keepsD [OF k(2,3)] m by simp
  then show "P (snd (finallyK h m s))" using keepsD [OF k(1), of s1] m by (simp add: finallyK_def)
qed

lemma keeps_onErrorK: "keeps P h \<Longrightarrow> keeps P m \<Longrightarrow> keeps P (onErrorK h m)"
proof (rule keepsI)
  fix s assume k: "keeps P h" "keeps P m" "P s"
  obtain r s1 where m: "m s = (r, s1)" by (rule prod.exhaust)
  have "P s1" using keepsD [OF k(2,3)] m by simp
  then show "P (snd (onErrorK h m s))" using keepsD [OF k(1), of s1] m
    by (simp add: onErrorK_def split: sum.split kvm_error.split)
qed

lemma keeps_getConnection [keeps_info]: "keeps (info_is T) (getConnection lv)"
  by (auto simp: keeps_def getConnection_def split: prod.splits option.splits)

lemma keeps_lookupDomain [keeps_info]: "keeps (info_is T) (lookupDomain lv u)"
  by (simp add: keeps_def lookupDomain_def kfail_def eff_simps)

lemma keeps_getDomain [keeps_info]: "keeps (info_is T) (getDomain lv u)"
  unfolding getDomain_def by (intro keeps_intros keeps_info)

lemma keeps_getDomainStruct [keeps_info]: "keeps (info_is T) (getDomainStruct lv u)"
  unfolding getDomainStruct_def by (intro keeps_intros keeps_info)

lemma keeps_getDomainInfo [keeps_info]: "keeps (info_is T) (getDomainInfo u)"
  by (auto simp: keeps_def getDomainInfo_def kfail_def eff_simps split: option.splits)

lemma keeps_updateView [keeps_info]: "keeps (info_is T) (updateView lv)"
proof (unfold keeps_def, intro allI impI)
  fix ks :: "('a, 'b) kstate" assume T: "info_is T ks"
  obtain r k s where c: "getConnection lv ks = (r, k, s)" by (metis prod.exhaust)
  have "info_is T (k, s)" using keepsD [OF keeps_getConnection T, of lv] c by simp
  then show "info_is T (snd (updateView lv ks))"
    using c by (cases r) (auto simp: updateView_def split: sum.splits)
qed

lemma keeps_takeSequence [keeps_info]: "keeps (info_is T) takeSequence"
  by (auto simp: keeps_def takeSequence_def Let_def split: prod.splits)

lemma keeps_setVirtNetwork [keeps_info]: "keeps (info_is T) (setVirtNetwork lv nw)"
proof -
  have "keeps (info_is T) (andThen (pureK (lv_NetworkXML lv nw)) (\<lambda>x. goK (call (lv_NetworkCreateXML lv x))))"
    by (intro keeps_intros keeps_info)
  from keepsD [OF this]
  have "keeps (info_is T) (\<lambda>ks. case lv_LookupNetwork lv (nw_Name nw) (snd ks) of
         NetFound \<Rightarrow> ret () ks
       | NetError e \<Rightarrow> fail (KErr (GoErr e)) ks
       | NoNetwork \<Rightarrow> andThen (pureK (lv_NetworkXML lv nw)) (\<lambda>x. goK (call (lv_NetworkCreateXML lv x))) ks)"
    by (intro keepsI) (simp add: eff_simps split: net_lookup.split)
  then show ?thesis unfolding setVirtNetwork_def by (intro keeps_andThen keeps_info)
qed

lemma keeps_parse_hw [keeps_info]: "keeps (info_is T) (parse_hw h)"
  unfolding parse_hw_def by (auto intro!: keeps_simps keeps_info split: option.splits)

lemma keeps_switch_network [keeps_info]: "keeps (info_is T) (switch_network ch lv m n kind msg args)"
  unfolding switch_network_def by (auto intro!: keeps_andThen keeps_simps keeps_info split: option.splits)

lemma keeps_prepare [keeps_info]:
  "keeps (info_is T) (prepareVLanNetwork ch lv m n)" "keeps (info_is T) (prepareVXLanNetwork ch lv m n)"
  "keeps (info_is T) (prepareBridgeNetwork ch n)"
  unfolding prepareVLanNetwork_def prepareVXLanNetwork_def prepareBridgeNetwork_def
  by (auto intro!: keeps_andThen keeps_simps keeps_info split: prod.splits option.splits)

lemma keeps_prepareDefault [keeps_info]: "keeps (info_is T) (prepareDefaultNetwork ch lv seq port)"
  unfolding prepareDefaultNetwork_def setDHCPHost_def kvm_setPortForwards_def kvm_setPortForward_def
  by (auto intro!: keeps_andThen keeps_simps keeps_forEach keeps_info split: prod.splits)

lemma keeps_setNetworking [keeps_info]: "keeps (info_is T) (setNetworking ch lv m port seq ns d)"
  by (induction ns arbitrary: d) (auto intro!: keeps_andThen keeps_simps keeps_info)

lemma keeps_flistUnmount [keeps_info]: "keeps (info_is T) (flistUnmount ch lv u)"
  by (auto simp: keeps_def flistUnmount_def split: prod.splits unmount_result.splits)

lemma keeps_prepareFlist [keeps_info]: "keeps (info_is T) (prepareFlist ch lv params d)"
  unfolding prepareFlist_def flistMount_def Let_def kvm_flistConfigOverride_def
  by (intro keeps_andThen keeps_forEach keeps_ignore keeps_onErrorK keeps_info) (auto intro!: keeps_andThen keeps_simps keeps_info split: prod.splits)

lemma info_kept: "keeps (info_is (kv_info (fst ks))) m \<Longrightarrow> m ks = (r, ks1) \<Longrightarrow> kv_info (fst ks1) = kv_info (fst ks)"
  by (auto dest: keepsD)

section \<open>Creating a machine\<close>

lemma updateView_info [simp]: "kv_info (fst (snd (updateView lv ks))) = kv_info (fst ks)"
  by (rule keepsD [OF keeps_updateView refl])

lemma flistUnmount_info [simp]: "kv_info (fst (snd (flistUnmount ch lv u ks))) = kv_info (fst ks)"
  by (rule keepsD [OF keeps_flistUnmount refl])

lemma finallyK_snd: "snd (finallyK h m ks) = snd (h (snd (m ks)))"
  by (simp add: finallyK_def split: prod.split)

lemma finallyK_fst: "fst (finallyK h m ks) = fst (m ks)"
  by (simp add: finallyK_def split: prod.split)

lemma handleStopped_info:
  "kv_info (fst (snd (handleStopped ch lv u ks))) = (kv_info (fst ks))(u := None)"
  by (cases ks) (simp add: handleStopped_def finallyK_snd Let_def split: option.split)

text \<open>What a call answers, and the table after it, when it starts with the table \<open>T\<close>.\<close>

definition ends :: "(string \<rightharpoonup> domain_info) \<Rightarrow> ('a, 'w, 'c) keff \<Rightarrow> (kvm_error + 'a \<Rightarrow> (string \<rightharpoonup> domain_info) \<Rightarrow> bool) \<Rightarrow> bool" where
  "ends T m Q \<longleftrightarrow> (\<forall>ks. info_is T ks \<longrightarrow> Q (fst (m ks)) (kv_info (fst (snd (m ks)))))"

lemma endsI: "(\<And>ks. info_is T ks \<Longrightarrow> Q (fst (m ks)) (kv_info (fst (snd (m ks))))) \<Longrightarrow> ends T m Q"
  unfolding ends_def by blast

lemma endsD: "ends T m Q \<Longrightarrow> info_is T ks \<Longrightarrow> Q (fst (m ks)) (kv_info (fst (snd (m ks))))"
  unfolding ends_def by blast

lemma ends_andThen:
  assumes "ends T m (\<lambda>r T1. case r of Inl e \<Rightarrow> Q (Inl e) T1 | Inr x \<Rightarrow> ends T1 (k x) Q)"
  shows "ends T (andThen m k) Q"
proof (rule endsI, goal_cases)
  case i: (1 ks)
  obtain r1 ks1 where m: "m ks = (r1, ks1)" by (rule prod.exhaust)
  show ?case
  proof (cases r1)
    case (Inl e)
    then show ?thesis using endsD [OF assms i] m by (simp add: andThen_def)
  next
    case (Inr x)
    then have "ends (kv_info (fst ks1)) (k x) Q" using endsD [OF assms i] m by simp
    from endsD [OF this refl] show ?thesis using Inr m by (simp add: andThen_def)
  qed
qed

lemma ends_keeps: "keeps (info_is T) m \<Longrightarrow> (\<And>r. Q r T) \<Longrightarrow> ends T m Q"
  by (rule endsI) (use keepsD in fastforce)

lemma ends_step:
  assumes "keeps (info_is T) m" "\<And>e. Q (Inl e) T" "\<And>x. ends T (k x) Q"
  shows "ends T (andThen m k) Q"
  by (rule ends_andThen, rule ends_keeps [OF assms(1)]) (simp add: assms split: sum.split)

lemma ends_finallyK: "ends T m Q \<Longrightarrow> ends T (finallyK (updateView lv) m) Q"
  by (rule endsI) (simp add: finallyK_fst finallyK_snd endsD)

lemma ends_stop:
  assumes "ends T m (\<lambda>r T1. case r of Inl (KErr e) \<Rightarrow> Q r (T1(u := None)) | _ \<Rightarrow> Q r T1)"
  shows "ends T (onErrorK (handleStopped ch lv u) m) Q"
proof (rule endsI, goal_cases)
  case i: (1 ks)
  obtain r1 ks1 where m: "m ks = (r1, ks1)" by (rule prod.exhaust)
  show ?case
    using endsD [OF assms i] m by (simp add: onErrorK_def handleStopped_info split: sum.splits kvm_error.splits)
qed

lemma ends_put: "ends T (put_info u i) (\<lambda>r T1. r = Inr () \<and> T1 = T(u \<mapsto> i))"
  by (rule endsI) (auto simp: put_info_def split: prod.split)

lemma ends_upd: "ends T (kvm_upd_info u f) (\<lambda>r T1. r = Inr () \<and> T1 = T(u := map_option f (T u)))"
  by (rule endsI) (auto simp: kvm_upd_info_def split: prod.split)

lemma ends_getDomainInfo: "ends T (getDomainInfo u) (\<lambda>r T1. T1 = T \<and> (\<forall>i. r = Inr i \<longrightarrow> T u = Some i))"
  by (rule endsI) (auto simp: getDomainInfo_def kfail_def eff_simps split: option.split)

lemma ends_mono: "ends T m Q \<Longrightarrow> (\<And>r T1. Q r T1 \<Longrightarrow> Q' r T1) \<Longrightarrow> ends T m Q'"
  unfolding ends_def by blast

lemma ends_ret: "Q (Inr x) T \<Longrightarrow> ends T (ret x) Q"
  by (rule endsI) (simp add: eff_simps)

lemma ends_fail: "Q (Inl e) T \<Longrightarrow> ends T (fail e) Q"
  by (rule endsI) (simp add: eff_simps)

text \<open>The identifier of the machine is the one that was drawn.\<close>

lemma add_media_uuid: "add_media ch up i ms d s = (Inr d', s') \<Longrightarrow> dm_UUID d' = dm_UUID d"
proof (induction ch up i ms d arbitrary: s rule: add_media.induct)
  case (1 ch up idx d)
  then show ?case by (simp add: eff_simps)
next
  case (2 ch up idx m ms d)
  show ?case
  proof (cases "hasPrefix (md_URL m) ''zdb''")
    case True
    with 2 show ?thesis by (auto simp: eff_simps split: sum.splits)
  next
    case False
    then have "andThen (mkDisk ch up idx m) (\<lambda>disk. add_media ch up (idx + 1) ms (d\<lparr>dm_Disks := dm_Disks d @ [disk]\<rparr>)) s = (Inr d', s')"
      using "2.prems" by simp
    then obtain disk s1 where "add_media ch up (idx + 1) ms (d\<lparr>dm_Disks := dm_Disks d @ [disk]\<rparr>) s1 = (Inr d', s')"
      by (rule andThen_InrE)
    from "2.IH"(2) [OF False this] show ?thesis by simp
  qed
qed

lemma mkDomain_uuid:
  assumes "mkDomain ch up p s = (Inr d, s')"
  shows "dm_UUID d = fst (ch_uuid ch s)"
proof -
  obtain u s0 where u: "ch_uuid ch s = (u, s0)" by (rule prod.exhaust)
  then have "andThen (add_media ch up 0 (cp_Media p) (new_domain u p)) (\<lambda>d.
       let d1 = d\<lparr>dm_Filesystems := dm_Filesystems d @
                   map (\<lambda>m. \<lparr>fsy_Source = vm_Source m, fsy_Target = vm_Target m, fsy_Readonly = vm_Readonly m\<rparr>) (cp_Mount p)\<rparr>
       in ret (if cp_KVM p then d1\<lparr>dm_QemuArgs := dm_QemuArgs d1 @ [''-cpu'', ''host'']\<rparr> else d1)) s0 = (Inr d, s')"
    using assms by (simp add: mkDomain_def andThen_def)
  then obtain d0 s1 where "add_media ch up 0 (cp_Media p) (new_domain u p) s0 = (Inr d0, s1)" "dm_UUID d = dm_UUID d0"
    by (rule andThen_InrE) (auto simp: Let_def eff_simps split: if_splits)
  with add_media_uuid [OF this(1)] show ?thesis using u by (simp add: new_domain_def)
qed

lemma ends_mkDomain:
  assumes "\<And>s. T (fst (ch_uuid ch s)) = None"
  shows "ends T (onHost (mkDomain ch up p)) (\<lambda>r T1. T1 = T \<and> (\<forall>d. r = Inr d \<longrightarrow> T (dm_UUID d) = None))"
proof (rule endsI, goal_cases)
  case i: (1 ks)
  obtain k s where ks: "ks = (k, s)" by (rule prod.exhaust)
  obtain r s1 where m: "mkDomain ch up p s = (r, s1)" by (rule prod.exhaust)
  have "r = Inr d \<Longrightarrow> T (dm_UUID d) = None" for d using mkDomain_uuid [of ch up p s d s1] m assms by simp
  then show ?case
    using i m ks by (simp add: onHost_def)
qed

lemma ends_prepareFlist:
  "ends T (prepareFlist ch lv p d) (\<lambda>r T1. T1 = T \<and> (\<forall>d1. r = Inr d1 \<longrightarrow> dm_UUID d1 = dm_UUID d))"
proof (rule endsI, goal_cases)
  case i: (1 ks)
  have "kv_info (fst (snd (prepareFlist ch lv p d ks))) = T" using keepsD [OF keeps_prepareFlist i] .
  moreover have "dm_UUID d1 = dm_UUID d" if "fst (prepareFlist ch lv p d ks) = Inr d1" for d1
  proof -
    obtain r ks1 where "prepareFlist ch lv p d ks = (r, ks1)" by (rule prod.exhaust)
    then have "prepareFlist ch lv p d ks = (Inr d1, ks1)" using that by simp
    then show ?thesis unfolding prepareFlist_def by (rule andThen_InrE) (auto simp: Let_def eff_simps split: if_splits)
  qed
  ultimately show ?case by blast
qed


text \<open>The end of \<^verbatim>\<open>create\<close>, once the machine is in the table.\<close>

definition created :: "(string \<rightharpoonup> domain_info) \<Rightarrow> u16 \<Rightarrow> string list \<Rightarrow> kvm_error + string \<Rightarrow> (string \<rightharpoonup> domain_info) \<Rightarrow> bool" where
  "created T seq tags r T1 \<longleftrightarrow>
     (case r of
        Inr u \<Rightarrow> T u = None \<and> (\<exists>i. T1 = T(u \<mapsto> i) \<and> di_Sequence i = seq \<and> cp_Tags (di_Params i) = tags)
      | Inl (KErr e) \<Rightarrow> T1 = T
      | Inl KPanic \<Rightarrow> T1 = T \<or> (\<exists>u i. T u = None \<and> T1 = T(u \<mapsto> i)))"

lemma created_fail: "created T seq tags (Inl e) T"
  by (cases e) (simp_all add: created_def)

lemma created_ok: "T u = None \<Longrightarrow> di_Sequence i = seq \<Longrightarrow> cp_Tags (di_Params i) = tags \<Longrightarrow> created T seq tags (Inr u) (T(u \<mapsto> i))"
  by (auto simp: created_def)

lemma created_panic: "T u = None \<Longrightarrow> created T seq tags (Inl KPanic) (T(u \<mapsto> i))"
  by (auto simp: created_def)

lemma ends_start:
  assumes "T (dm_UUID d1) = None" "cp_Tags params = tags"
  shows "ends (T(dm_UUID d1 \<mapsto> new_info params seq)) (onErrorK (handleStopped ch lv (dm_UUID d1)) (start_machine ch lv m params seq d1))
    (created T seq tags)"
proof (rule ends_stop)
  let ?u = "dm_UUID d1" and ?i = "new_info params seq"
  let ?Q = "\<lambda>r T1. case r of Inl (KErr e) \<Rightarrow> created T seq tags r (T1(?u := None)) | _ \<Rightarrow> created T seq tags r T1"
  have del: "(T(?u \<mapsto> ?i))(?u := None) = T" using assms(1) by (simp add: fun_eq_iff)
  have err: "?Q (Inl e) (T(?u \<mapsto> ?i))" for e
    using assms(1) del by (cases e) (auto simp: created_def)
  have fin: "ends (T(?u \<mapsto> ?i)) (case set_macs 0 (dm_Interfaces ds) (cp_Nics (di_Params info)) of
      (ok, ns) \<Rightarrow> andThen (kvm_upd_info ?u (with_nics ns)) (\<lambda>_. if ok then ret ?u else fail KPanic)) ?Q" for ds info
  proof -
    obtain ok ns where s: "set_macs 0 (dm_Interfaces ds) (cp_Nics (di_Params info)) = (ok, ns)" by (rule prod.exhaust)
    have "ends (T(?u \<mapsto> with_nics ns ?i)) (if ok then ret ?u else fail KPanic) ?Q"
      using assms by (cases ok) (auto intro!: ends_ret ends_fail created_ok created_panic simp: with_nics_def new_info_def)
    then show ?thesis unfolding s prod.case
      by (intro ends_andThen, intro ends_mono [OF ends_upd]) simp
  qed
  show "ends (T(?u \<mapsto> ?i)) (start_machine ch lv m params seq d1) ?Q"
    unfolding start_machine_def by (intro ends_step keeps_info err fin)
qed

lemma ends_numbered:
  assumes "\<And>s. T (fst (ch_uuid ch s)) = None" "cp_Tags params = tags"
  shows "ends T (create_numbered ch lv m params seq) (created T seq tags)"
  unfolding create_numbered_def
proof (rule ends_andThen, rule ends_mono [OF ends_mkDomain], rule assms(1), goal_cases)
  case (1 r T1)
  have flist: "ends T (if length (cp_FList params) \<noteq> 0 then prepareFlist ch lv params d else ret d)
      (\<lambda>r T1. T1 = T \<and> (\<forall>d1. r = Inr d1 \<longrightarrow> dm_UUID d1 = dm_UUID d))" for d
    by (auto intro: ends_prepareFlist ends_ret)
  show ?case
  proof (cases r)
    case (Inl e)
    then show ?thesis using 1 by (simp add: created_fail)
  next
    case (Inr d)
    with 1 have d: "T1 = T" "T (dm_UUID d) = None" by simp_all
    show ?thesis unfolding Inr sum.case d(1)
    proof (rule ends_andThen, rule ends_mono [OF flist], goal_cases)
      case (1 r1 T2)
      show ?case
      proof (cases r1)
        case (Inl e)
        then show ?thesis using 1 by (simp add: created_fail)
      next
        case (Inr d1)
        with 1 have T2: "T2 = T" "dm_UUID d1 = dm_UUID d" by simp_all
        have "ends T (andThen (put_info (dm_UUID d1) (new_info params seq))
            (\<lambda>_. onErrorK (handleStopped ch lv (dm_UUID d1)) (start_machine ch lv m params seq d1))) (created T seq tags)"
          using d(2)[folded T2(2)] assms(2) by (intro ends_andThen, intro ends_mono [OF ends_put]) (simp add: ends_start)
        then show ?thesis unfolding Inr sum.case T2(1) .
      qed
    qed
  qed
qed

text \<open>
  C21. Creating a machine.  When the identifiers drawn are not in use, \<^verbatim>\<open>create\<close> adds exactly one machine to the table, under the identifier it
  answers and with the next number and the tags of the command, or, when it fails with an error at whatever step, leaves the table as it was.  Only
  a panic can leave a machine behind.
\<close>

theorem create_all_or_nothing:
  assumes "\<And>s. kv_info k (fst (ch_uuid ch s)) = None"
    and "kvm_create ch lv m tags p (k, s) = (r, k', s')"
  shows "case r of
      Inr u \<Rightarrow> kv_info k u = None \<and> (\<exists>i. kv_info k' = (kv_info k)(u \<mapsto> i) \<and> di_Sequence i = nextSequence (kv_sequence k) \<and> cp_Tags (di_Params i) = tags)
    | Inl (KErr e) \<Rightarrow> kv_info k' = kv_info k
    | Inl KPanic \<Rightarrow> kv_info k' = kv_info k \<or> (\<exists>u i. kv_info k u = None \<and> kv_info k' = (kv_info k)(u \<mapsto> i))"
proof -
  let ?q = "nextSequence (kv_sequence k)" and ?T = "kv_info k" and ?p = "p\<lparr>cp_Tags := tags\<rparr>"
  have "created ?T ?q tags (fst (kvm_create ch lv m tags p (k, s))) (kv_info (fst (snd (kvm_create ch lv m tags p (k, s)))))"
  proof (cases "CreateParams_Valid ?p")
    case (Some e)
    then show ?thesis by (simp add: kvm_create_def Let_def finallyK_fst finallyK_snd eff_simps created_fail)
  next
    case None
    have "ends ?T (create_numbered ch lv m ?p ?q) (created ?T ?q tags)" using assms(1) by (intro ends_numbered) simp_all
    from endsD [OF this, of "(k\<lparr>kv_sequence := ?q\<rparr>, s)"]
    show ?thesis using None
      by (simp add: kvm_create_def Let_def finallyK_fst finallyK_snd andThen_def [of takeSequence] takeSequence_def)
  qed
  then show ?thesis by (simp add: assms(2) created_def)
qed

section \<open>Listing the machines\<close>

lemma keeps_upd_None: "keeps (\<lambda>ks. kv_info (fst ks) u = None) (kvm_upd_info v f)"
  by (rule keepsI) (auto simp: kvm_upd_info_def split: prod.split)

lemma keeps_None: "(\<And>T. keeps (info_is T) m) \<Longrightarrow> keeps (\<lambda>ks. kv_info (fst ks) u = None) m"
proof (rule keepsI, goal_cases)
  case (1 s)
  show ?case using keepsD [OF 1(1) refl, of s] 1(2) by simp
qed

lemma keeps_getMachine: "keeps (\<lambda>ks. kv_info (fst ks) u = None) (getMachine ch lv d rs)"
  unfolding getMachine_def
  by (intro keeps_andThen keeps_upd_None keeps_simps) (auto intro!: keeps_None keeps_info keeps_simps split: option.splits)

definition fails :: "('s \<Rightarrow> bool) \<Rightarrow> ('e, 'a, 's) eff \<Rightarrow> bool" where
  "fails P m \<longleftrightarrow> (\<forall>s. P s \<longrightarrow> (\<exists>e. fst (m s) = Inl e))"

lemma failsI: "(\<And>s. P s \<Longrightarrow> \<exists>e. fst (m s) = Inl e) \<Longrightarrow> fails P m"
  by (simp add: fails_def)

lemma failsD: "fails P m \<Longrightarrow> P s \<Longrightarrow> \<exists>e. fst (m s) = Inl e"
  by (simp add: fails_def)

lemma fails_now: "fails P m \<Longrightarrow> fails P (andThen m k)"
  by (rule failsI, drule (1) failsD) (auto simp: andThen_def split: prod.splits sum.splits)

lemma fails_later: "keeps P m \<Longrightarrow> (\<And>x. fails P (k x)) \<Longrightarrow> fails P (andThen m k)"
proof (rule failsI)
  fix s assume a: "keeps P m" "\<And>x. fails P (k x)" "P s"
  obtain r s1 where m: "m s = (r, s1)" by (rule prod.exhaust)
  then have "P s1" using keepsD [OF a(1,3)] by simp
  then show "\<exists>e. fst (andThen m k s) = Inl e" using failsD [OF a(2)] m by (cases r) (simp_all add: andThen_def)
qed

lemma fails_getDomainInfo: "fails (\<lambda>ks. kv_info (fst ks) u = None) (getDomainInfo u)"
  by (rule failsI) (simp add: getDomainInfo_def kfail_def eff_simps)

lemma goK_ask: "(\<And>s. f s = Inr x) \<Longrightarrow> andThen (goK (ask f)) k = k x"
  by (auto simp: fun_eq_iff goK_def onHost_def wrapErr_def ask_def andThen_def)

lemma goKw_ask: "(\<And>s. f s = Inr x) \<Longrightarrow> andThen (goKw t (ask f)) k = k x"
  by (auto simp: fun_eq_iff goKw_def onHost_def wrapErr_def ask_def andThen_def)

lemma getMachine_unknown:
  assumes "\<And>s. lv_GetUUIDString lv d s = Inr u"
  shows "fails (\<lambda>ks. kv_info (fst ks) u = None) (getMachine ch lv d rs)"
  unfolding getMachine_def goK_ask [of "lv_GetUUIDString lv d", OF assms]
  by ((rule fails_now, rule fails_getDomainInfo) | (rule fails_later, rule keeps_None, rule keeps_info))+

lemma list_machines_unknown:
  assumes "\<And>s. lv_GetUUIDString lv d s = Inr u" "d \<in> set ds"
  shows "fails (\<lambda>ks. kv_info (fst ks) u = None) (list_machines ch lv rs ds acc)"
  using assms(2)
proof (induction ds arbitrary: acc)
  case Nil
  then show ?case by simp
next
  case (Cons x xs)
  show ?case
  proof (cases "d = x")
    case True
    then show ?thesis using getMachine_unknown [OF assms(1)] by (simp add: fails_now)
  next
    case False
    with Cons have "fails (\<lambda>ks. kv_info (fst ks) u = None) (list_machines ch lv rs xs acc1)" for acc1 by simp
    then show ?thesis by (simp add: fails_later keeps_getMachine)
  qed
qed

lemma kvm_list_unknown:
  assumes "\<And>s. lv_ListAll lv s = Inr ds" "d \<in> set ds" "\<And>s. lv_GetUUIDString lv d s = Inr u"
  shows "fails (\<lambda>ks. kv_info (fst ks) u = None) (kvm_list ch lv)"
  unfolding kvm_list_def goKw_ask [of "lv_ListAll lv", OF assms(1)]
  by (rule fails_later, rule keeps_None, rule keeps_info)+ (rule list_machines_unknown [OF assms(3,2)])

lemma prepareMigrationTarget_info:
  "kv_info (fst (snd (prepareMigrationTarget ch lv m u ns port ks))) = kv_info (fst ks)"
proof -
  have "keeps (info_is T) (prepareMigrationTarget ch lv m u ns port)" for T
    unfolding prepareMigrationTarget_def
    by (intro keeps_finallyK keeps_info) (auto intro!: keeps_andThen keeps_simps keeps_info split: option.split)
  from keepsD [OF this refl] show ?thesis .
qed

text \<open>
  A machine that came by migration.  Preparing the node for it leaves the table as it was, whatever the outcome; from then on, for as long as
  libvirt lists the machine, \<^verbatim>\<open>kvm.list\<close> fails for all machines.
\<close>

theorem migrated_breaks_list:
  assumes "\<And>s. lv_ListAll lv s = Inr ds" "d \<in> set ds" "\<And>s. lv_GetUUIDString lv d s = Inr u" "kv_info (fst ks) u = None"
  shows "\<exists>e. fst (kvm_list ch lv (snd (prepareMigrationTarget ch lv m u ns port ks))) = Inl e"
  by (rule failsD [OF kvm_list_unknown [OF assms(1-3)]]) (simp add: prepareMigrationTarget_info assms(4))

section \<open>Migration\<close>

text \<open>
  The description of a machine as text, elements of devices and what is between them; \<open>render\<close> writes it, and the network devices are to lose their targets.
\<close>

datatype piece = Inner string | Target string
datatype segment = Outer string | Interface string "piece list"

fun piece_text :: "piece \<Rightarrow> string" where
  "piece_text (Inner s) = s"
| "piece_text (Target a) = ''<target'' @ a @ ''/>''"

fun segment_text :: "segment \<Rightarrow> string" where
  "segment_text (Outer s) = s"
| "segment_text (Interface a ps) = ''<interface'' @ a @ ''>'' @ concat (map piece_text ps) @ ''</interface>''"

definition xml_text :: "segment list \<Rightarrow> string" where
  "xml_text segs = concat (map segment_text segs)"

fun is_target :: "piece \<Rightarrow> bool" where
  "is_target (Target a) = True" | "is_target (Inner s) = False"

fun without_targets :: "segment \<Rightarrow> segment" where
  "without_targets (Outer s) = Outer s"
| "without_targets (Interface a ps) = Interface a (filter (\<lambda>p. \<not> is_target p) ps)"

text \<open>A text in which, whatever follows it, the tag does not start.\<close>

fun clash :: "string \<Rightarrow> string \<Rightarrow> bool" where
  "clash (a # as) (b # bs) \<longleftrightarrow> a \<noteq> b \<or> clash as bs"
| "clash _ _ \<longleftrightarrow> False"

fun free_of :: "string \<Rightarrow> string \<Rightarrow> bool" where
  "free_of tag [] \<longleftrightarrow> True"
| "free_of tag (c # s) \<longleftrightarrow> clash tag (c # s) \<and> free_of tag s"

fun wf_piece :: "piece \<Rightarrow> bool" where
  "wf_piece (Inner s) \<longleftrightarrow> free_of ''<target'' s \<and> free_of ''</interface>'' s"
| "wf_piece (Target a) \<longleftrightarrow> a \<noteq> [] \<and> CHR ''/'' \<notin> set a \<and> free_of ''</interface>'' (a @ ''/>'')"

fun wf_segment :: "segment \<Rightarrow> bool" where
  "wf_segment (Outer s) \<longleftrightarrow> free_of ''<interface'' s"
| "wf_segment (Interface a ps) \<longleftrightarrow> CHR ''>'' \<notin> set a \<and> free_of ''<target'' a \<and> concat (map piece_text ps) \<noteq> [] \<and> list_all wf_piece ps"

lemma clash_strip: "clash tag s \<Longrightarrow> strip tag (s @ r) = None"
  by (induction tag s rule: clash.induct) (auto simp: strip_def hasPrefix_def)

lemma strip_app: "strip p (p @ s) = Some s"
  by (simp add: strip_def hasPrefix_def)

lemma upto_close_free: "free_of ''</interface>'' s \<Longrightarrow> upto_close (s @ r) = map_option (apfst ((@) s)) (upto_close r)"
proof (induction s)
  case Nil
  then show ?case by (cases "upto_close r") (simp_all add: apfst_def map_prod_def split: prod.split)
next
  case (Cons c s)
  then have "strip ''</interface>'' (c # s @ r) = None" using clash_strip [of "''</interface>''" "c # s" r] by simp
  with Cons show ?case by (cases "upto_close r") (auto simp: apfst_def map_prod_def)
qed

lemma drop_targets_free: "free_of ''<target'' s \<Longrightarrow> drop_targets (s @ r) = s @ drop_targets r"
proof (induction s)
  case (Cons c s)
  then have "targetAt (c # s @ r) = None" using clash_strip [of "''<target''" "c # s" r] by (simp add: targetAt_def)
  with Cons show ?case by (subst drop_targets.simps) simp
qed simp

lemma fixXML_free: "free_of ''<interface'' s \<Longrightarrow> fixXML (s @ r) = s @ fixXML r"
proof (induction s)
  case (Cons c s)
  then have "interfaceAt (c # s @ r) = None" using clash_strip [of "''<interface''" "c # s" r] by (simp add: interfaceAt_def)
  with Cons show ?case by (subst fixXML.simps) simp
qed simp

lemma clash_app: "clash tag s \<Longrightarrow> clash tag (s @ t)"
  by (induction tag s rule: clash.induct) auto

lemma free_of_app: "free_of tag s \<Longrightarrow> free_of tag t \<Longrightarrow> free_of tag (s @ t)"
  by (induction s) (auto dest: clash_app [of tag "_ # _" t])

lemma free_of_tl: "free_of tag s \<Longrightarrow> free_of tag (tl s)"
  by (cases s) simp_all

lemma free_of_pieces: "list_all wf_piece ps \<Longrightarrow> free_of ''</interface>'' (concat (map piece_text ps))"
proof (induction ps)
  case (Cons p ps)
  have "free_of ''</interface>'' (piece_text p)"
  proof (cases p)
    case (Target a)
    have "free_of ''</interface>'' ''<target''" by simp
    with Target Cons.prems show ?thesis using free_of_app [of "''</interface>''" "''<target''" "a @ ''/>''"] by simp
  qed (use Cons.prems in simp)
  with Cons show ?case by (simp add: free_of_app)
qed simp

lemma takeWhile_upto: "c \<notin> set a \<Longrightarrow> takeWhile (\<lambda>x. x \<noteq> c) (a @ c # s) = a" "c \<notin> set a \<Longrightarrow> dropWhile (\<lambda>x. x \<noteq> c) (a @ c # s) = c # s"
  by (induction a) auto

lemma targetAt_here: "a \<noteq> [] \<Longrightarrow> CHR ''/'' \<notin> set a \<Longrightarrow> targetAt (''<target'' @ a @ ''/>'' @ r) = Some r"
  unfolding targetAt_def strip_app option.case
  using takeWhile_upto [of "CHR ''/''" a "CHR ''>'' # r"] strip_app [of "''/>''" r] by simp

lemma drop_targets_pieces:
  "list_all wf_piece ps \<Longrightarrow>
     drop_targets (concat (map piece_text ps) @ r) = concat (map piece_text (filter (\<lambda>p. \<not> is_target p) ps)) @ drop_targets r"
proof (induction ps)
  case (Cons p ps)
  show ?case
  proof (cases p)
    case (Inner s)
    with Cons show ?thesis by (simp add: drop_targets_free)
  next
    case (Target a)
    with Cons.prems have "targetAt (piece_text p @ concat (map piece_text ps) @ r) = Some (concat (map piece_text ps) @ r)"
      using targetAt_here [of a "concat (map piece_text ps) @ r"] by simp
    with Cons Target show ?thesis by (subst drop_targets.simps) simp
  qed
qed simp

lemma drop_targets_segment:
  assumes "wf_segment (Interface a ps)"
  shows "drop_targets (segment_text (Interface a ps)) = segment_text (without_targets (Interface a ps))"
proof -
  have f: "free_of ''<target'' (''<interface'' @ a @ ''>'')" "free_of ''<target'' ''</interface>''"
    using assms free_of_app [of "''<target''" a "''>''"] free_of_app [of "''<target''" "''<interface''" "a @ ''>''"] by simp_all
  have "drop_targets ''</interface>'' = ''</interface>'' @ drop_targets []"
    using drop_targets_free [OF f(2), of "[]"] by simp
  moreover have "drop_targets [] = []" by (subst drop_targets.simps) (simp add: targetAt_def strip_def hasPrefix_def)
  ultimately have "drop_targets (concat (map piece_text ps) @ ''</interface>'') = concat (map piece_text (filter (\<lambda>p. \<not> is_target p) ps)) @ ''</interface>''"
    using drop_targets_pieces [of ps "''</interface>''"] assms by simp
  then show ?thesis using drop_targets_free [OF f(1), of "concat (map piece_text ps) @ ''</interface>''"] by simp
qed

lemma interfaceAt_segment:
  assumes "wf_segment (Interface a ps)"
  shows "interfaceAt (segment_text (Interface a ps) @ r) = Some (segment_text (Interface a ps), r)"
proof -
  let ?b = "concat (map piece_text ps)"
  obtain c b where b: "?b = c # b" using assms by (cases ?b) auto
  have "free_of ''</interface>'' b" using free_of_tl [OF free_of_pieces, of ps] assms b by simp
  from upto_close_free [OF this, of "''</interface>'' @ r"]
  have u: "upto_close (b @ ''</interface>'' @ r) = Some (b @ ''</interface>'', r)"
    using strip_app [of "''</interface>''" r] by simp
  have w: "takeWhile (\<lambda>c. c \<noteq> CHR ''>'') (a @ CHR ''>'' # x) = a" "dropWhile (\<lambda>c. c \<noteq> CHR ''>'') (a @ CHR ''>'' # x) = CHR ''>'' # x" for x
    using assms takeWhile_upto [of "CHR ''>''" a] by simp_all
  have "segment_text (Interface a ps) @ r = ''<interface'' @ a @ CHR ''>'' # c # b @ ''</interface>'' @ r" using b by simp
  moreover have "interfaceAt (''<interface'' @ a @ CHR ''>'' # c # b @ ''</interface>'' @ r) = Some (''<interface'' @ a @ [CHR ''>'', c] @ b @ ''</interface>'', r)"
    unfolding interfaceAt_def strip_app option.case w Let_def list.case u by simp
  ultimately show ?thesis using b by simp
qed

lemma fixXML_text: "list_all wf_segment segs \<Longrightarrow> fixXML (xml_text segs) = xml_text (map without_targets segs)"
proof (induction segs)
  case Nil
  then show ?case by (simp add: xml_text_def) (subst fixXML.simps, simp add: interfaceAt_def strip_def hasPrefix_def)
next
  case (Cons seg segs)
  show ?case
  proof (cases seg)
    case (Outer s)
    with Cons show ?thesis using fixXML_free [of s "xml_text segs"] by (simp add: xml_text_def)
  next
    case (Interface a ps)
    with Cons.prems have w: "wf_segment (Interface a ps)" by simp
    have "fixXML (segment_text (Interface a ps) @ xml_text segs) = drop_targets (segment_text (Interface a ps)) @ fixXML (xml_text segs)"
      by (subst fixXML.simps) (simp only: interfaceAt_segment [OF w] option.case prod.case)
    then show ?thesis using Cons Interface drop_targets_segment [OF w] by (simp add: xml_text_def)
  qed
qed

text \<open>
  The description sent along with a migration.  On a description that is written as elements of network devices and other text, the two regular
  expressions remove exactly the targets of the network devices: the rest of the devices, and every target elsewhere, stays.
\<close>

theorem migration_xml:
  assumes "list_all wf_segment segs"
  shows "fixXML (xml_text segs) = xml_text (map without_targets segs)"
  by (rule fixXML_text [OF assms])

definition sampleXml :: "segment list" where
  "sampleXml = [Outer ''<disk><target dev=vda/></disk>'', Interface '' type=bridge'' [Inner ''<source bridge=kvm0/>'', Target '' dev=vnet0'', Inner ''<mac/>''],
     Outer ''</devices>'']"

theorem migration_xml_witness:
  "fixXML ''<disk><target dev=vda/></disk><interface type=bridge><source bridge=kvm0/><target dev=vnet0/><mac/></interface></devices>'' =
     ''<disk><target dev=vda/></disk><interface type=bridge><source bridge=kvm0/><mac/></interface></devices>''"
proof -
  have "list_all wf_segment sampleXml" by (simp add: sampleXml_def)
  from migration_xml [OF this] show ?thesis by (simp add: sampleXml_def xml_text_def)
qed

section \<open>Disks\<close>

lemma rune_inject: "a < 2048 \<Longrightarrow> b < 2048 \<Longrightarrow> rune_text a = rune_text b \<longleftrightarrow> a = b"
proof
  assume ab: "a < 2048" "b < 2048" and eq: "rune_text a = rune_text b"
  have c: "char_of m = (char_of n :: char) \<longleftrightarrow> m = n" if "m < 256" "n < 256" for m n :: nat
    using that by (metis char_of_eq_iff of_char_of mod_less)
  show "a = b"
  proof (cases "a < 128 \<or> b < 128")
    case True
    with eq ab show ?thesis using c [of a b] by (auto simp: rune_text_def split: if_splits)
  next
    case False
    then have "char_of (192 + a div 64) = (char_of (192 + b div 64) :: char)" "char_of (128 + a mod 64) = (char_of (128 + b mod 64) :: char)"
      using eq ab by (simp_all add: rune_text_def)
    moreover have "192 + a div 64 < 256" "192 + b div 64 < 256" "128 + a mod 64 < 256" "128 + b mod 64 < 256"
      using ab by (simp_all add: less_mult_imp_div_less)
    ultimately have "a div 64 = b div 64" "a mod 64 = b mod 64" using c by simp_all
    then show ?thesis by (metis div_mult_mod_eq)
  qed
qed simp

lemma disk_target_inject:
  assumes "k \<in> {''vd'', ''hd''}" "k' \<in> {''vd'', ''hd''}" "i < 1000" "j < 1000" "i \<noteq> j"
  shows "disk_target k i \<noteq> disk_target k' j"
  using assms rune_inject [of "97 + i" "97 + j"] by (auto simp: disk_target_def)

lemma disk_options_facts:
  "dd_Dev (disk_options m idx d) = (if md_Type m = ''cdrom'' then disk_target ''hd'' idx else dd_Dev d)"
  "dd_Source (disk_options m idx d) = dd_Source d" "dd_Type (disk_options m idx d) = dd_Type d"
  by (auto simp: disk_options_def Let_def split: option.split)

lemma mkDisk_made:
  assumes "mkDisk ch up idx m s = (Inr disk, s1)"
  obtains u where "up (md_URL m) = Inr u"
    "(hasPrefix (u_Scheme u) ''nbd'' \<and> (\<exists>d. mkNBDDisk idx u = Some d \<and> disk = disk_options m idx d)) \<or>
     (\<not> hasPrefix (u_Scheme u) ''nbd'' \<and> (\<exists>t. disk = disk_options m idx (mkFileDisk t idx u)))"
proof (cases "up (md_URL m)")
  case (Inl e)
  with assms show thesis by (simp add: mkDisk_def eff_simps)
next
  case (Inr u)
  show thesis
  proof (cases "hasPrefix (u_Scheme u) ''nbd''")
    case True
    with assms Inr show thesis by (intro that [of u]) (auto simp: mkDisk_def eff_simps split: option.splits)
  next
    case False
    with assms Inr have "andThen (getDiskType ch (u_Path u)) (\<lambda>ftype. ret (disk_options m idx (mkFileDisk ftype idx u))) s = (Inr disk, s1)"
      by (simp add: mkDisk_def)
    then obtain t where "disk = disk_options m idx (mkFileDisk t idx u)" by (rule andThen_InrE) (auto simp: eff_simps)
    with False Inr show thesis by (intro that [of u]) auto
  qed
qed

lemma mkNBDDisk_dev: "mkNBDDisk idx u = Some d \<Longrightarrow> dd_Dev d = disk_target ''vd'' idx"
  by (auto simp: mkNBDDisk_def blank_disk_def Let_def split: if_splits)

lemma mkDisk_dev:
  assumes "mkDisk ch up idx m s = (Inr disk, s1)"
  shows "dd_Dev disk = disk_target (if md_Type m = ''cdrom'' then ''hd'' else ''vd'') idx"
  using mkDisk_made [OF assms]
proof cases
  case (1 u)
  then show ?thesis by (auto simp: disk_options_facts mkNBDDisk_dev mkFileDisk_def blank_disk_def)
qed

text \<open>Disks with different names, from the numbers that follow.\<close>

definition named_from :: "nat \<Rightarrow> nat \<Rightarrow> disk_device list \<Rightarrow> bool" where
  "named_from idx n ds \<longleftrightarrow> distinct (map dd_Dev ds) \<and>
     (\<forall>x \<in> set ds. \<exists>k i. k \<in> {''vd'', ''hd''} \<and> idx \<le> i \<and> i < idx + n \<and> dd_Dev x = disk_target k i)"

lemma named_from_Suc: "named_from (idx + 1) n ds \<Longrightarrow> named_from idx (Suc n) ds"
  unfolding named_from_def by (metis add.commute add_Suc_right add_leD1 plus_1_eq_Suc add_Suc)

lemma named_from_Cons:
  assumes "named_from (idx + 1) n ds" "dd_Dev d = disk_target kind idx" "kind \<in> {''vd'', ''hd''}" "idx + Suc n \<le> 1000"
  shows "named_from idx (Suc n) (d # ds)"
proof -
  have "dd_Dev d \<noteq> dd_Dev x" if "x \<in> set ds" for x
  proof -
    obtain k i where x: "k \<in> {''vd'', ''hd''}" "idx + 1 \<le> i" "i < idx + 1 + n" "dd_Dev x = disk_target k i"
      using assms(1) \<open>x \<in> set ds\<close> unfolding named_from_def by meson
    then show ?thesis using disk_target_inject [of kind k idx i] assms(2-4) by simp
  qed
  then have "dd_Dev d \<notin> dd_Dev ` set ds" by auto
  moreover have "\<exists>k i. k \<in> {''vd'', ''hd''} \<and> idx \<le> i \<and> i < idx + Suc n \<and> dd_Dev d = disk_target k i"
    using assms(2,3) by (intro exI [of _ kind] exI [of _ idx]) simp
  ultimately show ?thesis using named_from_Suc [OF assms(1)] by (simp add: named_from_def)
qed

lemma add_media_devs:
  "add_media ch up idx ms d s = (Inr d', s') \<Longrightarrow> idx + length ms \<le> 1000 \<Longrightarrow>
     \<exists>ds. dm_Disks d' = dm_Disks d @ ds \<and> named_from idx (length ms) ds"
proof (induction ch up idx ms d arbitrary: s rule: add_media.induct)
  case (1 ch up idx d)
  then show ?case by (simp add: eff_simps named_from_def)
next
  case (2 ch up idx m ms d)
  have len: "idx + 1 + length ms \<le> 1000" using "2.prems"(2) by simp
  show ?case
  proof (cases "hasPrefix (md_URL m) ''zdb''")
    case True
    then obtain u where u: "up (md_URL m) = Inr u"
        "add_media ch up (idx + 1) ms (d\<lparr>dm_QemuArgs := dm_QemuArgs d @ [''-drive'', mkZDBDisk u]\<rparr>) s = (Inr d', s')"
      using "2.prems" by (auto simp: eff_simps split: sum.splits)
    from "2.IH"(1) [OF True u len] obtain ds where "dm_Disks d' = dm_Disks d @ ds" "named_from (idx + 1) (length ms) ds" by auto
    then show ?thesis using named_from_Suc by auto
  next
    case False
    then have "andThen (mkDisk ch up idx m) (\<lambda>disk. add_media ch up (idx + 1) ms (d\<lparr>dm_Disks := dm_Disks d @ [disk]\<rparr>)) s = (Inr d', s')"
      using "2.prems" by simp
    then obtain disk s1 where k: "mkDisk ch up idx m s = (Inr disk, s1)"
        "add_media ch up (idx + 1) ms (d\<lparr>dm_Disks := dm_Disks d @ [disk]\<rparr>) s1 = (Inr d', s')"
      by (rule andThen_InrE)
    from "2.IH"(2) [OF False k(2) len] obtain ds where ds: "dm_Disks d' = dm_Disks d @ disk # ds" "named_from (idx + 1) (length ms) ds" by auto
    define kind where "kind = (if md_Type m = ''cdrom'' then ''hd'' else ''vd'')"
    then have "kind \<in> {''vd'', ''hd''}" "dd_Dev disk = disk_target kind idx" using mkDisk_dev [OF k(1)] by simp_all
    then have "named_from idx (length (m # ms)) (disk # ds)" using named_from_Cons [OF ds(2)] len by simp
    then show ?thesis using ds(1) by blast
  qed
qed

text \<open>
  The names of the disks.  The disks of a new machine, up to a thousand, get different names.  A disk that is attached later is named after the
  number of disks there are: when one of several disks other than the last was detached, the next disk gets the name of the last one, which is in use.
\<close>

theorem disk_names:
  "(mkDomain ch up p s = (Inr d, s1) \<longrightarrow> length (cp_Media p) \<le> 1000 \<longrightarrow> distinct (map dd_Dev (dm_Disks d))) \<and>
   (map dd_Dev disks = map (disk_target ''vd'') [0..<Suc n] \<longrightarrow> j < n \<longrightarrow> rest = take j disks @ drop (Suc j) disks \<longrightarrow>
      md_Type m \<noteq> ''cdrom'' \<longrightarrow> mkDisk ch up (length rest) m s2 = (Inr disk, s3) \<longrightarrow> dd_Dev disk \<in> dd_Dev ` set rest)"
proof (intro conjI impI)
  assume a: "mkDomain ch up p s = (Inr d, s1)" "length (cp_Media p) \<le> 1000"
  obtain u s0 where u: "ch_uuid ch s = (u, s0)" by (rule prod.exhaust)
  then have "andThen (add_media ch up 0 (cp_Media p) (new_domain u p)) (\<lambda>d.
       let d1 = d\<lparr>dm_Filesystems := dm_Filesystems d @
                   map (\<lambda>m. \<lparr>fsy_Source = vm_Source m, fsy_Target = vm_Target m, fsy_Readonly = vm_Readonly m\<rparr>) (cp_Mount p)\<rparr>
       in ret (if cp_KVM p then d1\<lparr>dm_QemuArgs := dm_QemuArgs d1 @ [''-cpu'', ''host'']\<rparr> else d1)) s0 = (Inr d, s1)"
    using a(1) by (simp add: mkDomain_def andThen_def)
  then obtain d0 s1' where d0: "add_media ch up 0 (cp_Media p) (new_domain u p) s0 = (Inr d0, s1')" "dm_Disks d = dm_Disks d0"
    by (rule andThen_InrE) (auto simp: Let_def eff_simps split: if_splits)
  from add_media_devs [OF d0(1)] a(2) d0(2) show "distinct (map dd_Dev (dm_Disks d))" by (auto simp: new_domain_def named_from_def)
next
  assume a: "map dd_Dev disks = map (disk_target ''vd'') [0..<Suc n]" "j < n" "rest = take j disks @ drop (Suc j) disks"
    "md_Type m \<noteq> ''cdrom''" "mkDisk ch up (length rest) m s2 = (Inr disk, s3)"
  have len: "length disks = Suc n" using arg_cong [OF a(1), of length] by simp
  then have "length rest = n" using a(2,3) by simp
  then have "dd_Dev disk = disk_target ''vd'' n" using mkDisk_dev [OF a(5)] a(4) by simp
  also have "\<dots> = map dd_Dev disks ! n" unfolding a(1) by (simp del: upt_Suc)
  also have "\<dots> = dd_Dev (disks ! n)" using len by simp
  finally have "dd_Dev disk = dd_Dev (disks ! n)" .
  moreover have "disks ! n = drop (Suc j) disks ! (n - Suc j)" using len a(2) by simp
  moreover have "n - Suc j < length (drop (Suc j) disks)" using len a(2) by simp
  ultimately show "dd_Dev disk \<in> dd_Dev ` set rest" using a(3) by (metis UnCI imageI nth_mem set_append)
qed

text \<open>
  The media that are listed after a disk was attached or detached.  A file is listed as it was given; of a disk on a network server the export is lost,
  so that all the exports of a server are listed alike, though they are different disks.
\<close>

theorem listed_media:
  "(mkDisk ch up i m s = (Inr disk, s1) \<longrightarrow> up (md_URL m) = Inr u \<longrightarrow> \<not> hasPrefix (u_Scheme u) ''nbd'' \<longrightarrow> md_URL (mediaFromDisk disk) = u_String u) \<and>
   (mkDisk ch up i m s = (Inr disk, s1) \<longrightarrow> up (md_URL m) = Inr u \<longrightarrow> u_Scheme u \<in> {''nbd'', ''nbd+tcp''} \<longrightarrow> u_Port u \<noteq> [] \<longrightarrow>
      md_URL (mediaFromDisk disk) = ''nbd+tcp://'' @ u_Hostname u @ '':'' @ u_Port u \<and> ds_Name (dd_Source disk) = trim (u_Path u) ''/'')"
proof (intro conjI impI)
  assume a: "mkDisk ch up i m s = (Inr disk, s1)" "up (md_URL m) = Inr u" "\<not> hasPrefix (u_Scheme u) ''nbd''"
  from mkDisk_made [OF a(1)] a(2,3) obtain t where "disk = disk_options m i (mkFileDisk t i u)" by auto
  then show "md_URL (mediaFromDisk disk) = u_String u"
    by (simp add: mediaFromDisk_def disk_options_facts mkFileDisk_def blank_disk_def)
next
  assume a: "mkDisk ch up i m s = (Inr disk, s1)" "up (md_URL m) = Inr u" "u_Scheme u \<in> {''nbd'', ''nbd+tcp''}" "u_Port u \<noteq> []"
  have "hasPrefix (u_Scheme u) ''nbd''" using a(3) by (auto simp: hasPrefix_def)
  with mkDisk_made [OF a(1)] a(2) obtain d where d: "mkNBDDisk i u = Some d" "disk = disk_options m i d" by auto
  with a(3,4) show "md_URL (mediaFromDisk disk) = ''nbd+tcp://'' @ u_Hostname u @ '':'' @ u_Port u"
      "ds_Name (dd_Source disk) = trim (u_Path u) ''/''"
    by (auto simp: mediaFromDisk_def disk_options_facts mkNBDDisk_def Let_def no_source_def blank_disk_def)
qed

section \<open>Errors\<close>

lemma mkNBDDisk_None: "mkNBDDisk idx u = None \<longleftrightarrow> u_Scheme u \<notin> {''nbd'', ''nbd+tcp'', ''nbd+unix''}"
  by (auto simp: mkNBDDisk_def Let_def)

lemma getDiskType_ok: "\<exists>t s1. getDiskType ch p s = (Inr t, s1)"
proof -
  obtain r s1 where "system ch [''qemu-img'', ''info'', ''--output=json'', p] s = (r, s1)" by (rule prod.exhaust)
  then show ?thesis by (auto simp: getDiskType_def attempt_def eff_simps split: sum.split option.split)
qed

definition nopanic :: "('a, 'w, 'c) keff \<Rightarrow> bool" where
  "nopanic m \<longleftrightarrow> (\<forall>s. fst (m s) \<noteq> Inl KPanic)"

lemma nopanicD: "nopanic m \<Longrightarrow> fst (m s) = Inl KPanic \<longleftrightarrow> False"
  by (simp add: nopanic_def del: split_paired_All)

lemma nopanicI: "(\<And>s. fst (m s) \<noteq> Inl KPanic) \<Longrightarrow> nopanic m"
  by (simp add: nopanic_def)

lemma nopanic_andThen: "nopanic m \<Longrightarrow> (\<And>x. nopanic (k x)) \<Longrightarrow> nopanic (andThen m k)"
proof (rule nopanicI, goal_cases)
  case (1 s)
  obtain r s1 where m: "m s = (r, s1)" by (rule prod.exhaust)
  then have "r \<noteq> Inl KPanic" using nopanicD [OF 1(1), of s] by simp
  with m show ?case by (cases r) (simp_all add: andThen_def nopanicD [OF 1(2)])
qed

lemma nopanic_plain: "nopanic (goK m)" "nopanic (goKw t m)" "nopanic (kfail t)"
  by (auto simp: nopanic_def goK_def goKw_def kfail_def onHost_def wrapErr_def eff_simps split: prod.split sum.split)

lemma nopanic_getConnection: "nopanic (getConnection lv)"
  by (auto simp: nopanic_def getConnection_def split: prod.split option.split)

lemma nopanic_lookup: "nopanic (lookupDomain lv u)" "nopanic (getDomainInfo u)"
  by (auto simp: nopanic_def lookupDomain_def getDomainInfo_def kfail_def eff_simps split: option.split)

lemma nopanic_getDomainStruct: "nopanic (getDomainStruct lv u)"
  unfolding getDomainStruct_def getDomain_def
  by (intro nopanic_andThen nopanic_getConnection nopanic_lookup nopanic_plain)

lemma kfail_andThen: "andThen (kfail t) k = kfail t"
  by (simp add: kfail_def eff_simps)

text \<open>
  Arguments that panic.  A disk whose URL does not parse, or with a scheme that starts with \<^verbatim>\<open>nbd\<close> and is not one of the three known ones, panics, and
  nothing else about a disk does; a network device of type \<^verbatim>\<open>vlan\<close> or \<^verbatim>\<open>vxlan\<close> whose number does not parse panics when it is removed, while
  adding it answers an error.
\<close>

theorem panics:
  "(fst (mkDisk ch up i m s) = Inl KPanic \<longleftrightarrow>
      (case up (md_URL m) of Inl e \<Rightarrow> True | Inr u \<Rightarrow> hasPrefix (u_Scheme u) ''nbd'' \<and> u_Scheme u \<notin> {''nbd'', ''nbd+tcp'', ''nbd+unix''})) \<and>
   (vn_Type n \<in> {''vlan'', ''vxlan''} \<longrightarrow> snd (parseInt (if vn_Type n = ''vlan'' then 16 else 64) (vn_ID n)) \<noteq> None \<longrightarrow>
      kvm_removeNic ch lv cm uuid n ks = (Inl KPanic, ks) \<and> fst (kvm_addNic ch lv cm uuid n ks) \<noteq> Inl KPanic)"
proof (intro conjI impI)
  show "fst (mkDisk ch up i m s) = Inl KPanic \<longleftrightarrow>
      (case up (md_URL m) of Inl e \<Rightarrow> True | Inr u \<Rightarrow> hasPrefix (u_Scheme u) ''nbd'' \<and> u_Scheme u \<notin> {''nbd'', ''nbd+tcp'', ''nbd+unix''})"
  proof (cases "up (md_URL m)")
    case (Inl e)
    then show ?thesis by (simp add: mkDisk_def eff_simps)
  next
    case (Inr u)
    obtain t s1 where "getDiskType ch (u_Path u) s = (Inr t, s1)" using getDiskType_ok by metis
    then show ?thesis using Inr mkNBDDisk_None [of i u] by (auto simp: mkDisk_def eff_simps andThen_Inr split: option.split)
  qed
next
  assume a: "vn_Type n \<in> {''vlan'', ''vxlan''}" "snd (parseInt (if vn_Type n = ''vlan'' then 16 else 64) (vn_ID n)) \<noteq> None"
  then obtain v e where p: "parseInt (if vn_Type n = ''vlan'' then 16 else 64) (vn_ID n) = (v, Some e)" by (metis not_None_eq prod.collapse)
  then show "kvm_removeNic ch lv cm uuid n ks = (Inl KPanic, ks)"
    using a(1) by (auto simp: kvm_removeNic_def nic_source_def prepareVLanNetwork_def prepareVXLanNetwork_def nilDeref_def kfail_def andThen_def eff_simps)
  obtain t where "kvm_addNic ch lv cm uuid n = andThen (getDomainStruct lv uuid) (\<lambda>ds. andThen (getDomainInfo uuid) (\<lambda>info. kfail t))"
    using p a(1) by (cases "vn_Type n = ''vlan''") (simp_all add: kvm_addNic_def prepareVLanNetwork_def prepareVXLanNetwork_def kfail_andThen)
  moreover have "nopanic (andThen (getDomainStruct lv uuid) (\<lambda>ds. andThen (getDomainInfo uuid) (\<lambda>info. kfail t)))"
    by (intro nopanic_andThen nopanic_getDomainStruct nopanic_lookup nopanic_plain)
  ultimately have "nopanic (kvm_addNic ch lv cm uuid n)" by simp
  then show "fst (kvm_addNic ch lv cm uuid n ks) \<noteq> Inl KPanic" using nopanicD by blast
qed

section \<open>Witnesses\<close>

definition fileUrl :: "string \<Rightarrow> go_error + url" where
  "fileUrl u = Inr \<lparr>u_Scheme = [], u_Path = u, u_Hostname = [], u_Port = [], u_Query = (\<lambda>_. []), u_String = u\<rparr>"

definition nbdUrl :: "string \<Rightarrow> go_error + url" where
  "nbdUrl u = Inr \<lparr>u_Scheme = ''nbd'', u_Path = ''/disk1'', u_Hostname = ''10.0.0.1'', u_Port = ''9000'', u_Query = (\<lambda>_. []), u_String = u\<rparr>"

definition fileMedia :: "string \<Rightarrow> media" where
  "fileMedia u = \<lparr>md_URL = u, md_Type = [], md_Bus = [], md_IOTune = None\<rparr>"

definition vmParams :: create_params where
  "vmParams = \<lparr>cp_Nics = [], cp_Port = [], cp_Name = ''vm'', cp_CPU = 1, cp_Memory = 512, cp_FList = [], cp_ShareCache = False, cp_Cmdline = [],
     cp_Mount = [], cp_Media = [fileMedia ''a.img'', fileMedia ''b.img''], cp_Config = [], cp_Tags = [], cp_Storage = [], cp_KVM = False\<rparr>"

definition quietVirt :: "(unit \<times> unit) libvirt" where
  "quietVirt =
     \<lparr>lv_IsAlive = (\<lambda>_. True), lv_Close = (\<lambda>s. s), lv_NewConnect = (\<lambda>s. (None, s)), lv_Register = (\<lambda>_ s. (None, s)), lv_Lookup = (\<lambda>_ _. True),
      lv_LookupByName = (\<lambda>n _. Inr n), lv_ListAll = (\<lambda>_. Inr [''u'']), lv_GetXMLDesc = (\<lambda>_ _. Inr []), lv_GetUUIDString = (\<lambda>d _. Inr d),
      lv_GetID = (\<lambda>_ _. Inr 1), lv_GetName = (\<lambda>n _. Inr n), lv_GetState = (\<lambda>_ _. Inr DOMAIN_RUNNING), lv_DomainCreateXML = (\<lambda>_ s. (None, s)),
      lv_Destroy = (\<lambda>_ s. (None, s)), lv_Shutdown = (\<lambda>_ s. (None, s)), lv_Reboot = (\<lambda>_ s. (None, s)), lv_Reset = (\<lambda>_ s. (None, s)),
      lv_Suspend = (\<lambda>_ s. (None, s)), lv_Resume = (\<lambda>_ s. (None, s)), lv_AttachDevice = (\<lambda>_ _ s. (None, s)), lv_DetachDevice = (\<lambda>_ _ s. (None, s)),
      lv_WaitRemoved = (\<lambda>_ _ s. (True, s)), lv_SetBlockIoTune = (\<lambda>_ _ _ s. (None, s)), lv_Migrate = (\<lambda>_ _ _ _ s. (None, s)),
      lv_LookupNetwork = (\<lambda>_ _. NetFound), lv_NetworkCreateXML = (\<lambda>_ s. (None, s)), lv_Unmount = (\<lambda>_ s. (NotMounted, s)),
      lv_Run = (\<lambda>_ _ s. (Inl (Errorf ''no such command''), s)), lv_Domain = (\<lambda>_. Inr (new_domain ''u'' vmParams)), lv_DomainXML = (\<lambda>_. Inr []),
      lv_DiskXML = (\<lambda>_. Inr []), lv_InterfaceXML = (\<lambda>_. Inr []), lv_NetworkXML = (\<lambda>_. Inr []), lv_yaml = (\<lambda>_. Inl (Errorf ''yaml'')),
      lv_urlParse = fileUrl, lv_urlString = (\<lambda>_ _ _. [])\<rparr>"

definition freshKvm :: kvm_mgr where
  "freshKvm = \<lparr>kv_conn = True, kv_sequence = 0, kv_info = Map.empty, kv_cell = [], kv_events = []\<rparr>"

lemma quiet_parts:
  "ch_uuid quietChost s = (''u'', s)" "ch_host quietChost = quietHost" "ch_redis quietChost = quietRedis"
  "h_System quietHost args w = ((NewJobResult (sampleJob [] []), None), w)" "rd_dec quietRedis t = None"
  "lv_urlParse quietVirt = fileUrl" "lv_ListAll quietVirt v = Inr [''u'']" "lv_GetUUIDString quietVirt d v = Inr d" "lv_IsAlive quietVirt v = True"
  "lv_DomainXML quietVirt vm = Inr []" "lv_DomainCreateXML quietVirt x v = (None, v)" "lv_Lookup quietVirt u v = True"
  "lv_GetXMLDesc quietVirt u v = Inr []" "lv_Domain quietVirt x = Inr (new_domain ''u'' vmParams)"
  by (simp_all add: quietChost_def quietHost_def quietRedis_def quietVirt_def)

lemma quiet_type: "getDiskType quietChost p s = (Inr ''raw'', s)"
  by (cases s) (simp add: getDiskType_def attempt_def system_def quiet_parts eff_simps)

lemma quiet_file_disk:
  "mkDisk quietChost fileUrl i (fileMedia u) s = (Inr (disk_options (fileMedia u) i (mkFileDisk ''raw'' i
     \<lparr>u_Scheme = [], u_Path = u, u_Hostname = [], u_Port = [], u_Query = (\<lambda>_. []), u_String = u\<rparr>)), s)"
  by (simp add: mkDisk_def fileUrl_def fileMedia_def hasPrefix_def andThen_Inr [OF quiet_type] eff_simps)

lemma quiet_nbd_disk:
  "\<exists>d. mkDisk quietChost nbdUrl i (fileMedia u) s = (Inr d, s)"
  by (simp add: mkDisk_def nbdUrl_def fileMedia_def hasPrefix_def mkNBDDisk_def Let_def eff_simps)

lemma vm_media: "cp_Media (vmParams\<lparr>cp_Tags := ts\<rparr>) = [fileMedia ''a.img'', fileMedia ''b.img'']" "cp_KVM (vmParams\<lparr>cp_Tags := ts\<rparr>) = False"
  "cp_Media vmParams = [fileMedia ''a.img'', fileMedia ''b.img'']" "cp_KVM vmParams = False"
  by (simp_all add: vmParams_def)

lemma quiet_domain: "\<exists>d. mkDomain quietChost fileUrl vmParams s = (Inr d, s) \<and> length (dm_Disks d) = 2"
proof -
  have z: "\<not> hasPrefix (md_URL (fileMedia ''a.img'')) ''zdb''" "\<not> hasPrefix (md_URL (fileMedia ''b.img'')) ''zdb''"
    by (simp_all add: fileMedia_def hasPrefix_def)
  show ?thesis
    by (simp add: mkDomain_def andThen_def quiet_parts vm_media z quiet_file_disk eff_simps Let_def new_domain_def)
qed

theorem disk_names_witness:
  "(\<exists>d s. mkDomain quietChost fileUrl vmParams s = (Inr d, s) \<and> length (dm_Disks d) = 2 \<and> distinct (map dd_Dev (dm_Disks d))) \<and>
   (\<exists>disk. mkDisk quietChost fileUrl 1 (fileMedia ''c.img'') ((), ()) = (Inr disk, ((), ())) \<and> dd_Dev disk \<in> dd_Dev ` {blank_disk ''file'' 1})"
proof -
  obtain d where d: "mkDomain quietChost fileUrl vmParams ((), ()) = (Inr d, ((), ()))" "length (dm_Disks d) = 2"
    using quiet_domain by metis
  obtain disk where k: "mkDisk quietChost fileUrl 1 (fileMedia ''c.img'') ((), ()) = (Inr disk, ((), ()))"
    using quiet_file_disk by metis
  let ?all = "[blank_disk ''file'' 0, blank_disk ''file'' 1]"
  have "distinct (map dd_Dev (dm_Disks d)) \<and> dd_Dev disk \<in> dd_Dev ` set [blank_disk ''file'' 1]"
    using disk_names [of quietChost fileUrl vmParams "((), ())" d "((), ())" ?all 1 0 "[blank_disk ''file'' 1]" "fileMedia ''c.img''" "((), ())" disk "((), ())"]
      d k by (simp add: vm_media blank_disk_def fileMedia_def)
  with d k show ?thesis by auto
qed

theorem listed_media_witness:
  "(\<exists>disk. mkDisk quietChost fileUrl 0 (fileMedia ''a.img'') ((), ()) = (Inr disk, ((), ())) \<and> md_URL (mediaFromDisk disk) = ''a.img'') \<and>
   (\<exists>disk. mkDisk quietChost nbdUrl 0 (fileMedia ''nbd://10.0.0.1:9000/disk1'') ((), ()) = (Inr disk, ((), ())) \<and>
      md_URL (mediaFromDisk disk) = ''nbd+tcp://10.0.0.1:9000'' \<and> ds_Name (dd_Source disk) = ''disk1'')"
proof -
  let ?f = "fileMedia ''a.img''" and ?n = "fileMedia ''nbd://10.0.0.1:9000/disk1''"
  obtain d1 where d1: "mkDisk quietChost fileUrl 0 ?f ((), ()) = (Inr d1, ((), ()))" using quiet_file_disk by metis
  obtain d2 where d2: "mkDisk quietChost nbdUrl 0 ?n ((), ()) = (Inr d2, ((), ()))" using quiet_nbd_disk by metis
  have "md_URL (mediaFromDisk d1) = ''a.img''"
    using listed_media [of quietChost fileUrl 0 ?f "((), ())" d1 "((), ())" "projr (fileUrl ''a.img'')"] d1
    by (simp add: fileMedia_def fileUrl_def hasPrefix_def)
  moreover have "trim ''/disk1'' ''/'' = ''disk1''" by code_simp
  then have "md_URL (mediaFromDisk d2) = ''nbd+tcp://10.0.0.1:9000'' \<and> ds_Name (dd_Source d2) = ''disk1''"
    using listed_media [of quietChost nbdUrl 0 ?n "((), ())" d2 "((), ())" "projr (nbdUrl [])\<lparr>u_String := md_URL ?n\<rparr>"] d2
    by (simp add: fileMedia_def nbdUrl_def hasPrefix_def)
  ultimately show ?thesis using d1 d2 by blast
qed

theorem panics_witness:
  "fst (mkDisk quietChost (\<lambda>u. Inl (Errorf ''parse'')) 0 (fileMedia ''%zz'') ((), ())) = Inl KPanic \<and>
   kvm_removeNic quietChost quietVirt emptyTable ''u'' \<lparr>vn_Type = ''vlan'', vn_ID = ''x'', vn_HWAddress = []\<rparr> (freshKvm, (), ()) = (Inl KPanic, freshKvm, (), ())"
proof -
  have "snd (parseInt 16 ''x'') \<noteq> None" by (simp add: parseInt_def isDigit_def)
  then show ?thesis
    using panics [of quietChost "\<lambda>u. Inl (Errorf ''parse'')" 0 "fileMedia ''%zz''" "((), ())" "\<lparr>vn_Type = ''vlan'', vn_ID = ''x'', vn_HWAddress = []\<rparr>"
      quietVirt emptyTable "''u''" "(freshKvm, (), ())"] by simp
qed

theorem migrated_breaks_list_witness:
  "\<exists>e. fst (kvm_list quietChost quietVirt (snd (prepareMigrationTarget quietChost quietVirt emptyTable ''u'' [] [] (freshKvm, (), ())))) = Inl e"
  by (rule migrated_breaks_list [of quietVirt "[''u'']" "''u''" "''u''"]) (simp_all add: quiet_parts freshKvm_def)

lemma quiet_domain_tagged:
  "\<exists>d. mkDomain quietChost fileUrl (vmParams\<lparr>cp_Tags := ts\<rparr>) s = (Inr d, s) \<and> dm_UUID d = ''u'' \<and> dm_Interfaces d = []"
proof -
  have z: "\<not> hasPrefix (md_URL (fileMedia ''a.img'')) ''zdb''" "\<not> hasPrefix (md_URL (fileMedia ''b.img'')) ''zdb''"
    by (simp_all add: fileMedia_def hasPrefix_def)
  show ?thesis
    by (simp add: mkDomain_def andThen_def quiet_parts vm_media z quiet_file_disk eff_simps Let_def new_domain_def)
qed

lemma quiet_connection: "kv_conn k \<Longrightarrow> getConnection quietVirt (k, s) = (Inr (), k, s)"
  by (simp add: getConnection_def quiet_parts)

lemma quiet_struct: "kv_conn k \<Longrightarrow> getDomainStruct quietVirt u (k, s) = (Inr (new_domain ''u'' vmParams), k, s)"
  by (simp add: getDomainStruct_def getDomain_def lookupDomain_def andThen_def goKw_def onHost_def wrapErr_def quiet_connection quiet_parts eff_simps)

lemma quiet_start:
  assumes "cp_Nics params = []" "kv_conn k" "kv_info k ''u'' = Some i" "dm_UUID d = ''u''"
  shows "\<exists>k'. start_machine quietChost quietVirt m params seq d (k, s) = (Inr ''u'', k', s)"
  using assms
  by (simp add: start_machine_def andThen_def goKw_def onHost_def wrapErr_def quiet_connection quiet_parts eff_simps quiet_struct getDomainInfo_def
      new_domain_def kvm_upd_info_def call_def)

lemma quiet_vm_create: "\<exists>k' s'. kvm_create quietChost quietVirt emptyTable ts vmParams (freshKvm, s) = (Inr ''u'', k', s')"
proof -
  let ?p = "vmParams\<lparr>cp_Tags := ts\<rparr>"
  obtain d where d: "mkDomain quietChost fileUrl ?p s = (Inr d, s)" "dm_UUID d = ''u''" using quiet_domain_tagged by blast
  have p: "cp_FList ?p = []" "cp_Nics ?p = []" "CreateParams_Valid ?p = None"
    by (simp_all add: vmParams_def CreateParams_Valid_def NicParams_Valid_def)
  let ?k = "freshKvm\<lparr>kv_sequence := nextSequence 0\<rparr>"
  let ?k1 = "?k\<lparr>kv_info := (kv_info ?k)(''u'' \<mapsto> new_info ?p (nextSequence 0))\<rparr>"
  obtain k' where "start_machine quietChost quietVirt emptyTable ?p (nextSequence 0) d (?k1, s) = (Inr ''u'', k', s)"
    using quiet_start [of ?p ?k1 "new_info ?p (nextSequence 0)" d emptyTable "nextSequence 0" s] p d(2) by (auto simp: freshKvm_def)
  then have "fst (kvm_create quietChost quietVirt emptyTable ts vmParams (freshKvm, s)) = Inr ''u''"
    using d p by (simp add: kvm_create_def finallyK_fst Let_def andThen_def takeSequence_def create_numbered_def onHost_def quiet_parts eff_simps
        put_info_def onErrorK_def freshKvm_def)
  then show ?thesis by (metis prod.collapse)
qed

theorem create_all_or_nothing_witness:
  "\<exists>k' s'. kvm_create quietChost quietVirt emptyTable [''web''] vmParams (freshKvm, (), ()) = (Inr ''u'', k', s') \<and>
     (\<exists>i. kv_info k' = [''u'' \<mapsto> i] \<and> di_Sequence i = 2 \<and> cp_Tags (di_Params i) = [''web''])"
proof -
  obtain k' s' where c: "kvm_create quietChost quietVirt emptyTable [''web''] vmParams (freshKvm, (), ()) = (Inr ''u'', k', s')"
    using quiet_vm_create by blast
  have "nextSequence 0 = 2" by (simp add: nextSequence_def numeral_3_eq_3 ReservedSequences_def)
  then have "\<exists>i. kv_info k' = [''u'' \<mapsto> i] \<and> di_Sequence i = 2 \<and> cp_Tags (di_Params i) = [''web'']"
    using create_all_or_nothing [OF _ c] by (simp add: freshKvm_def)
  then show ?thesis using c by blast
qed

end
