(* ===== verification/Kvm_Sync.thy ===== *)
theory Kvm_Sync
  imports Prelude
begin

text \<open>
  \<^verbatim>\<open>apps/core0/subsys/kvm/sync.go\<close>: how the command that detaches a device waits for the event that the device is gone.  A channel with room for one
  token is kept for every expected event; the mutex is held while the table is looked at.  An operation that has to wait for the mutex is
  \<^const>\<open>None\<close>; the operations of several commands and of the event handlers are interleaved in any order.
\<close>

section \<open>Operations\<close>

datatype sync_key = SyncKey string string

record chan =
  chn_full :: bool
  chn_closed :: bool

record sync =
  sy_m :: "sync_key \<rightharpoonup> nat"
  sy_chans :: "chan list"
  sy_locked :: bool

definition NewSync :: sync where
  "NewSync = \<lparr>sy_m = Map.empty, sy_chans = [], sy_locked = False\<rparr>"

definition Sync_Expect :: "sync_key \<Rightarrow> sync \<Rightarrow> sync option" where
  "Sync_Expect k y =
     (if sy_locked y then None
      else Some (y\<lparr>sy_m := (sy_m y)(k \<mapsto> length (sy_chans y)), sy_chans := sy_chans y @ [\<lparr>chn_full = False, chn_closed = False\<rparr>]\<rparr>))"

definition Sync_Release :: "sync_key \<Rightarrow> sync \<Rightarrow> sync option" where
  "Sync_Release k y =
     (if sy_locked y then None
      else Some (case sy_m y k of
                   None \<Rightarrow> y
                 | Some c \<Rightarrow> y\<lparr>sy_chans := (sy_chans y)[c := (sy_chans y ! c)\<lparr>chn_full := True\<rparr>]\<rparr>))"

definition Sync_Unexpect :: "sync_key \<Rightarrow> sync \<Rightarrow> sync option" where
  "Sync_Unexpect k y =
     (if sy_locked y then None
      else Some (case sy_m y k of
                   None \<Rightarrow> y
                 | Some c \<Rightarrow> y\<lparr>sy_chans := (sy_chans y)[c := (sy_chans y ! c)\<lparr>chn_closed := True\<rparr>], sy_m := (sy_m y)(k := None)\<rparr>))"

text \<open>
  \<^verbatim>\<open>Wait\<close>, up to where it waits: the channel, or the error for an event that is not expected, in which case it returns without
  giving the mutex back.
\<close>

definition Wait_begin :: "sync_key \<Rightarrow> sync \<Rightarrow> (nat option \<times> sync) option" where
  "Wait_begin k y =
     (if sy_locked y then None
      else (case sy_m y k of
              None \<Rightarrow> Some (None, y\<lparr>sy_locked := True\<rparr>)
            | Some c \<Rightarrow> Some (Some c, y)))"

text \<open>The end of the wait: a token or a closed channel is taken for the event; otherwise the timeout is all that is left.\<close>

definition event_received :: "nat \<Rightarrow> sync \<Rightarrow> bool" where
  "event_received c y \<longleftrightarrow> chn_full (sy_chans y ! c) \<or> chn_closed (sy_chans y ! c)"

definition take_token :: "nat \<Rightarrow> sync \<Rightarrow> sync" where
  "take_token c y = y\<lparr>sy_chans := (sy_chans y)[c := (sy_chans y ! c)\<lparr>chn_full := False\<rparr>]\<rparr>"

datatype sync_op = SExpect sync_key | SRelease sync_key | SUnexpect sync_key | SWait sync_key | STake nat

fun sync_step :: "sync_op \<Rightarrow> sync \<Rightarrow> sync option" where
  "sync_step (SExpect k) y = Sync_Expect k y"
| "sync_step (SRelease k) y = Sync_Release k y"
| "sync_step (SUnexpect k) y = Sync_Unexpect k y"
| "sync_step (SWait k) y = map_option snd (Wait_begin k y)"
| "sync_step (STake c) y = (if c < length (sy_chans y) \<and> event_received c y then Some (take_token c y) else None)"

fun sync_run :: "sync_op list \<Rightarrow> sync \<Rightarrow> sync option" where
  "sync_run [] y = Some y"
| "sync_run (a # as) y = Option.bind (sync_step a y) (sync_run as)"

section \<open>Invariant\<close>

text \<open>Every expected event has a channel of its own, which is open.\<close>

definition sync_wf :: "sync \<Rightarrow> bool" where
  "sync_wf y \<longleftrightarrow> inj_on (sy_m y) (dom (sy_m y)) \<and>
     (\<forall>k c. sy_m y k = Some c \<longrightarrow> c < length (sy_chans y) \<and> \<not> chn_closed (sy_chans y ! c))"

lemma nth_update: "xs[i := x] ! j = (if i = j \<and> j < length xs then x else xs ! j)"
  by (cases "i < length xs") (auto simp: nth_list_update nth_list_update_neq list_update_beyond)

lemma NewSync_wf: "sync_wf NewSync"
  by (simp add: sync_wf_def NewSync_def)

lemma sync_wfD: "sync_wf y \<Longrightarrow> sy_m y k = Some c \<Longrightarrow> c < length (sy_chans y) \<and> \<not> chn_closed (sy_chans y ! c)"
  by (simp add: sync_wf_def)

lemma sync_wf_inj: "sync_wf y \<Longrightarrow> sy_m y k = Some c \<Longrightarrow> sy_m y k' = Some c \<Longrightarrow> k = k'"
  by (auto simp: sync_wf_def inj_on_def dom_def)

lemma sync_wfI:
  assumes "\<And>k k' c. sy_m y k = Some c \<Longrightarrow> sy_m y k' = Some c \<Longrightarrow> k = k'"
    and "\<And>k c. sy_m y k = Some c \<Longrightarrow> c < length (sy_chans y) \<and> \<not> chn_closed (sy_chans y ! c)"
  shows "sync_wf y"
  using assms by (auto simp: sync_wf_def inj_on_def dom_def)

lemma Expect_wf: "sync_wf y \<Longrightarrow> Sync_Expect k y = Some y' \<Longrightarrow> sync_wf y'"
  by (rule sync_wfI; force simp: Sync_Expect_def nth_append dest: sync_wfD sync_wf_inj split: if_splits)

lemma Release_wf: "sync_wf y \<Longrightarrow> Sync_Release k y = Some y' \<Longrightarrow> sync_wf y'"
  by (rule sync_wfI; force simp: Sync_Release_def nth_update dest: sync_wfD sync_wf_inj split: if_splits option.splits)

lemma Unexpect_wf: "sync_wf y \<Longrightarrow> Sync_Unexpect k y = Some y' \<Longrightarrow> sync_wf y'"
  by (rule sync_wfI; force simp: Sync_Unexpect_def nth_update dest: sync_wfD sync_wf_inj split: if_splits option.splits)

lemma sync_step_wf: "sync_wf y \<Longrightarrow> sync_step a y = Some y' \<Longrightarrow> sync_wf y'"
proof (cases a)
  case (SWait k)
  assume "sync_wf y" "sync_step a y = Some y'"
  with SWait show ?thesis
    by (intro sync_wfI; force simp: Wait_begin_def dest: sync_wfD sync_wf_inj split: if_splits option.splits)
next
  case (STake c)
  assume "sync_wf y" "sync_step a y = Some y'"
  with STake show ?thesis
    by (intro sync_wfI; force simp: take_token_def nth_update dest: sync_wfD sync_wf_inj split: if_splits)
qed (auto intro: Expect_wf Release_wf Unexpect_wf)

lemma sync_run_wf: "sync_run as y = Some y' \<Longrightarrow> sync_wf y \<Longrightarrow> sync_wf y'"
  by (induction as arbitrary: y) (auto intro: sync_step_wf split: Option.bind_splits)

text \<open>
  C23. Whatever the commands and the event handlers do in whatever order, every expected event has an open channel of its own, so that no token is sent on
  a closed channel, on which Go panics.
\<close>

theorem sync_well_formed:
  assumes "sync_run as NewSync = Some y"
  shows "sync_wf y"
  using assms NewSync_wf by (rule sync_run_wf)

theorem sync_well_formed_witness:
  "\<exists>y. sync_run [SExpect (SyncKey ''a'' ''x''), SRelease (SyncKey ''a'' ''x''), SWait (SyncKey ''a'' ''x''), STake 0, SUnexpect (SyncKey ''a'' ''x'')] NewSync = Some y
     \<and> sync_wf y"
proof -
  obtain y where "sync_run [SExpect (SyncKey ''a'' ''x''), SRelease (SyncKey ''a'' ''x''), SWait (SyncKey ''a'' ''x''), STake 0, SUnexpect (SyncKey ''a'' ''x'')]
      NewSync = Some y"
    by (simp add: NewSync_def Sync_Expect_def Sync_Release_def Sync_Unexpect_def Wait_begin_def event_received_def take_token_def)
  then show ?thesis using sync_well_formed by blast
qed

section \<open>Events are not lost\<close>

text \<open>What other commands and events may do between the start of the wait and its end.\<close>

fun other_key :: "sync_key \<Rightarrow> nat \<Rightarrow> sync_op \<Rightarrow> bool" where
  "other_key k c (SExpect k') \<longleftrightarrow> k' \<noteq> k"
| "other_key k c (SUnexpect k') \<longleftrightarrow> k' \<noteq> k"
| "other_key k c (SRelease k') \<longleftrightarrow> True"
| "other_key k c (SWait k') \<longleftrightarrow> True"
| "other_key k c (STake c') \<longleftrightarrow> c' \<noteq> c"

definition pending :: "sync_key \<Rightarrow> nat \<Rightarrow> bool \<Rightarrow> sync \<Rightarrow> bool" where
  "pending k c b y \<longleftrightarrow> sync_wf y \<and> sy_m y k = Some c \<and> (b \<longrightarrow> chn_full (sy_chans y ! c))"

lemma pending_step:
  assumes "pending k c b y" "other_key k c a" "sync_step a y = Some y'"
  shows "pending k c (b \<or> a = SRelease k) y'"
proof -
  have wf: "sync_wf y'" using assms sync_step_wf by (auto simp: pending_def)
  have m: "sy_m y k = Some c" and len: "c < length (sy_chans y)" and full: "b \<longrightarrow> chn_full (sy_chans y ! c)"
    using assms(1) by (auto simp: pending_def dest: sync_wfD)
  have diff: "k' \<noteq> k \<Longrightarrow> sy_m y k' \<noteq> Some c" for k'
    using assms(1) m sync_wf_inj by (fastforce simp: pending_def)
  show ?thesis
  proof (cases a)
    case (SExpect k')
    then show ?thesis using assms wf m len full by (auto simp: pending_def Sync_Expect_def nth_append split: if_splits)
  next
    case (SRelease k')
    then show ?thesis using assms wf m len full diff
      by (auto simp: pending_def Sync_Release_def nth_update split: if_splits option.splits)
  next
    case (SUnexpect k')
    then show ?thesis using assms wf m len full diff
      by (auto simp: pending_def Sync_Unexpect_def nth_update split: if_splits option.splits)
  next
    case (SWait k')
    then show ?thesis using assms wf m len full by (auto simp: pending_def Wait_begin_def split: if_splits option.splits)
  next
    case (STake c')
    then show ?thesis using assms wf m len full by (auto simp: pending_def take_token_def nth_update split: if_splits)
  qed
qed

lemma pending_run:
  assumes "pending k c b y" "list_all (other_key k c) as" "sync_run as y = Some y'"
  shows "pending k c (b \<or> SRelease k \<in> set as) y'"
  using assms
proof (induction as arbitrary: y b)
  case Nil
  then show ?case by simp
next
  case (Cons a as)
  then obtain y1 where y1: "sync_step a y = Some y1" "sync_run as y1 = Some y'" by (auto split: Option.bind_splits)
  from Cons.IH [OF pending_step [OF Cons.prems(1) _ y1(1)] _ y1(2)] Cons.prems(2)
  show ?case by (simp add: disj_assoc eq_commute)
qed



text \<open>
  Two commands that detach the same device: the first to give up closes the channel of the second, so that the second is told that the device is
  gone though no event arrived; and when it only then begins to wait, it returns with the mutex held, after which no operation of any command or
  event handler gets on.
\<close>

theorem detach_twice:
  "(\<exists>y. sync_run [SExpect k, SExpect k, SWait k, SUnexpect k] NewSync = Some y \<and> event_received 1 y) \<and>
   (\<exists>y. sync_run [SExpect k, SExpect k, SUnexpect k, SWait k] NewSync = Some y \<and> sy_locked y \<and>
        (\<forall>k'. Sync_Expect k' y = None \<and> Sync_Release k' y = None \<and> Sync_Unexpect k' y = None \<and> Wait_begin k' y = None))"
  by (auto simp: NewSync_def Sync_Expect_def Sync_Unexpect_def Wait_begin_def Sync_Release_def event_received_def)

end
