(* ===== verification/Disks.thy ===== *)
theory Disks
  imports Btrfs Go_Effect
begin

text \<open>
  \<^verbatim>\<open>apps/core0/builtin/disk.go\<close>: the commands around \<^verbatim>\<open>lsblk\<close>, \<^verbatim>\<open>parted\<close>, \<^verbatim>\<open>smartctl\<close>, \<^verbatim>\<open>hdparm\<close>, \<^verbatim>\<open>blockdev\<close> and
  \<^verbatim>\<open>seektime\<close>, and the parsers of what they print and of the files of the kernel.  The programs, the files and the decoder of JSON are parameters.
\<close>

section \<open>Data\<close>

text \<open>What \<^verbatim>\<open>os.Stat\<close> answers: a mode and, when the system has one, the number of the device.\<close>

datatype disk_stat = StatMissing | StatFailed go_error | StatOk u32 "u64 option"

record 'w disk_host =
  dh_System :: "'w system_call"
  dh_ReadFile :: "string \<Rightarrow> 'w \<Rightarrow> go_error + string"
  dh_Stat :: "string \<Rightarrow> 'w \<Rightarrow> disk_stat"
  dh_dec :: "string \<Rightarrow> json option"
  dh_Sprintf :: "string \<Rightarrow> string"

datatype disk_err = DErr go_error | DPanic

type_synonym ('a, 'w) deff = "(disk_err, 'a, 'w) eff"

record free_block =
  fb_Start :: u64
  fb_End :: u64
  fb_Size :: u64

text \<open>
  A device of \<^verbatim>\<open>lsblk\<close>: the fields of type \<^verbatim>\<open>string\<close>, those that take any value, both by the name they have in JSON, and the children.
\<close>

datatype lsblk_result =
  LsblkResult (lb_strings: "(string \<times> string) list") (lb_values: "(string \<times> json) list") (lb_Children: "lsblk_result list")

record disk_info_result =
  dr_lsblk :: lsblk_result
  dr_Start :: u64
  dr_End :: u64
  dr_Size :: u64
  dr_BlockSize :: u64
  dr_Table :: string
  dr_Free :: "free_block list option"

record disk_mount =
  dm_Mountpoint :: string
  dm_Filesystem :: string
  dm_Options :: "string \<rightharpoonup> string"

record block_device =
  bk_Path :: string
  bk_Name :: string
  bk_Type :: string
  bk_Major :: u32
  bk_Minor :: u32

section \<open>Block devices\<close>

definition ModeDevice :: u32 where "ModeDevice = 0x04000000"
definition ModeCharDevice :: u32 where "ModeCharDevice = 0x00200000"

definition isModeBlockDevice :: "u32 \<Rightarrow> bool" where
  "isModeBlockDevice mode \<longleftrightarrow> mode AND ModeDevice \<noteq> 0 \<and> mode AND ModeCharDevice = 0"

definition dev_Major :: "u64 \<Rightarrow> u32" where
  "dev_Major d = ucast (drop_bit 8 (d AND 0x00000000000fff00)) OR ucast (drop_bit 32 (d AND 0xfffff00000000000))"

definition dev_Minor :: "u64 \<Rightarrow> u32" where
  "dev_Minor d = ucast (d AND 0x00000000000000ff) OR ucast (drop_bit 12 (d AND 0x00000ffffff00000))"

definition disk_exists :: "'w disk_host \<Rightarrow> string \<Rightarrow> 'w \<Rightarrow> bool" where
  "disk_exists h p w = (case dh_Stat h p w of StatMissing \<Rightarrow> False | _ \<Rightarrow> True)"

definition read_file :: "'w disk_host \<Rightarrow> string \<Rightarrow> (string, 'w) deff" where
  "read_file h p = ask (\<lambda>w. case dh_ReadFile h p w of Inl e \<Rightarrow> Inl (DErr e) | Inr s \<Rightarrow> Inr s)"

text \<open>The loop over the lines of a uevent file.  A value ends where its second \<^verbatim>\<open>=\<close> is.\<close>

fun uevent_lines :: "string list \<Rightarrow> (string \<rightharpoonup> string) \<Rightarrow> disk_err + (string \<rightharpoonup> string)" where
  "uevent_lines [] m = Inr m"
| "uevent_lines (v # vs) m =
     (let s = split (CHR ''='') v
      in if length s < 2 then Inl (DErr (Errorf ''malformed uevent file'')) else uevent_lines vs (m(s ! 0 \<mapsto> s ! 1)))"

definition blockUEvent :: "'w disk_host \<Rightarrow> string \<Rightarrow> (string \<rightharpoonup> string, 'w) deff" where
  "blockUEvent h path =
     andThen (read_file h path) (\<lambda>str. ask (\<lambda>w. uevent_lines (butlast (split newline str)) Map.empty))"

text \<open>Reading a Go map: the empty string where there is no entry.\<close>

definition map_get :: "(string \<rightharpoonup> string) \<Rightarrow> string \<Rightarrow> string" where
  "map_get m k = (case m k of None \<Rightarrow> [] | Some v \<Rightarrow> v)"

definition uevent_path :: "u32 \<Rightarrow> u32 \<Rightarrow> string" where
  "uevent_path mj mn = ''/sys/dev/block/'' @ itoa (unat mj) @ '':'' @ itoa (unat mn) @ ''/uevent''"

text \<open>The first byte of an empty name is out of range.\<close>

definition deviceToBlockDevice :: "'w disk_host \<Rightarrow> string \<Rightarrow> (block_device, 'w) deff" where
  "deviceToBlockDevice h dev0 =
     (if dev0 = [] then fail DPanic
      else let dev = (if dev0 ! 0 \<noteq> CHR ''/'' then ''/dev/'' @ dev0 else dev0) in
        andThen (ask (\<lambda>w. case dh_Stat h dev w of
                            StatMissing \<Rightarrow> Inl (DErr (Errorf ''no such file or directory''))
                          | StatFailed e \<Rightarrow> Inl (DErr e)
                          | StatOk mode rdev \<Rightarrow> Inr (mode, rdev))) (\<lambda>(mode, rdev).
        if \<not> isModeBlockDevice mode then fail (DErr (Errorf (dev @ '': not a block device'')))
        else case rdev of
               None \<Rightarrow> fail (DErr (Errorf ''internal stat error''))
             | Some devid \<Rightarrow>
                 andThen (blockUEvent h (uevent_path (dev_Major devid) (dev_Minor devid))) (\<lambda>pairs.
                 ret \<lparr>bk_Path = ''/dev/'' @ map_get pairs ''DEVNAME'', bk_Name = map_get pairs ''DEVNAME'',
                      bk_Type = map_get pairs ''DEVTYPE'', bk_Major = dev_Major devid, bk_Minor = dev_Minor devid\<rparr>)))"

definition diskBlockDevice :: "'w disk_host \<Rightarrow> string \<Rightarrow> (block_device, 'w) deff" where
  "diskBlockDevice h dev =
     andThen (deviceToBlockDevice h dev) (\<lambda>bd.
     if bk_Type bd \<noteq> ''disk'' then fail (DErr (Errorf (dev @ '': not a disk''))) else ret bd)"

text \<open>\<^verbatim>\<open>fmt.Sscanf\<close> with \<^verbatim>\<open>%d\<close> into a \<^verbatim>\<open>uint64\<close>: no sign.\<close>

definition sscanf_uint64 :: "string \<Rightarrow> u64 option" where
  "sscanf_uint64 s =
     (case skipSpace s of
        None \<Rightarrow> None
      | Some t \<Rightarrow>
          let ds = takeWhile isDigit t
          in if ds = [] \<or> atoi ds \<ge> 2 ^ 64 then None else Some (of_nat (atoi ds)))"

definition readUInt64 :: "'w disk_host \<Rightarrow> string \<Rightarrow> (u64, 'w) deff" where
  "readUInt64 h p =
     andThen (read_file h p) (\<lambda>bytes.
     case sscanf_uint64 bytes of None \<Rightarrow> fail (DErr (Errorf ''scan'')) | Some r \<Rightarrow> ret r)"

section \<open>The devices as lsblk lists them\<close>

definition lsblk_string_fields :: "string list" where
  "lsblk_string_fields =
     [''name'', ''kname'', ''maj:min'', ''ra'', ''ro'', ''rm'', ''hotplug'', ''model'', ''serial'', ''size'', ''owner'', ''group'',
      ''mode'', ''alignment'', ''min-io'', ''opt-io'', ''phy-sec'', ''log-sec'', ''rota'', ''rq-size'', ''type'', ''disc-aln'',
      ''disc-gran'', ''disc-max'', ''disc-zero'', ''wsame'', ''rand'', ''tran'', ''subsystems'']"

definition lsblk_value_fields :: "string list" where
  "lsblk_value_fields =
     [''fstype'', ''mountpoint'', ''label'', ''uuid'', ''parttype'', ''partlabel'', ''partuuid'', ''partflags'', ''state'', ''sched'',
      ''wwn'', ''pkname'', ''hctl'', ''rev'', ''vendor'']"

definition string_fields :: "string list \<Rightarrow> (string \<times> json) list \<Rightarrow> (string \<times> string) list option" where
  "string_fields names es = those (map (\<lambda>n. map_option (Pair n) (field_string n es)) names)"

definition value_fields :: "string list \<Rightarrow> (string \<times> json) list \<Rightarrow> (string \<times> json) list" where
  "value_fields names es = map (\<lambda>n. (n, case field_raw n es of None \<Rightarrow> JNull | Some v \<Rightarrow> v)) names"

lemma objectOf_size: "objectOf j = Some es \<Longrightarrow> size_list (size_prod (\<lambda>_. 0) Nat.size_class.size) es < Nat.size_class.size j + 1"
  by (cases j) auto

text \<open>Decoding a device, its children among its entries, and an array of devices.\<close>

function lsblk_of :: "json \<Rightarrow> lsblk_result option"
  and lsblk_children :: "(string \<times> json) list \<Rightarrow> lsblk_result list \<Rightarrow> lsblk_result list option"
  and lsblk_array :: "json list \<Rightarrow> lsblk_result list option" where
  "lsblk_of j =
     (case objectOf j of
        None \<Rightarrow> None
      | Some es \<Rightarrow>
          (case string_fields lsblk_string_fields es of
             None \<Rightarrow> None
           | Some ss \<Rightarrow> map_option (LsblkResult ss (value_fields lsblk_value_fields es)) (lsblk_children es [])))"
| "lsblk_children [] acc = Some acc"
| "lsblk_children ((k, v) # es) acc =
     (if map lower k \<noteq> ''children'' then lsblk_children es acc
      else case v of
             JNull \<Rightarrow> lsblk_children es []
           | JArr js \<Rightarrow> (case lsblk_array js of None \<Rightarrow> None | Some rs \<Rightarrow> lsblk_children es rs)
           | _ \<Rightarrow> None)"
| "lsblk_array [] = Some []"
| "lsblk_array (j # js) =
     (case lsblk_of j of None \<Rightarrow> None | Some r \<Rightarrow> map_option ((#) r) (lsblk_array js))"
  by pat_completeness auto
termination
  apply (relation "measure (\<lambda>x. case x of
       Inl j \<Rightarrow> 3 * Nat.size_class.size j + 4
     | Inr (Inl (es, _)) \<Rightarrow> 3 * size_list (size_prod (\<lambda>_. 0) Nat.size_class.size) es + 3
     | Inr (Inr js) \<Rightarrow> 3 * size_list Nat.size_class.size js + 2)")
  apply (auto dest: objectOf_size)
  done


declare lsblk_of.simps [simp del]

text \<open>The struct around the listing.\<close>

definition lsblkListResult :: "json \<Rightarrow> lsblk_result list option" where
  "lsblkListResult j =
     Option.bind (objectOf j) (\<lambda>es.
       store (\<lambda>j. case j of JArr js \<Rightarrow> lsblk_array js | _ \<Rightarrow> None) [] (entries ''blockdevices'' es))"

definition lb_string :: "string \<Rightarrow> lsblk_result \<Rightarrow> string" where
  "lb_string n r = (case map_of (lb_strings r) n of None \<Rightarrow> [] | Some s \<Rightarrow> s)"

definition lb_value :: "string \<Rightarrow> lsblk_result \<Rightarrow> json" where
  "lb_value n r = (case map_of (lb_values r) n of None \<Rightarrow> JNull | Some v \<Rightarrow> v)"

abbreviation lb_Name :: "lsblk_result \<Rightarrow> string" where "lb_Name \<equiv> lb_string ''name''"
abbreviation lb_Type :: "lsblk_result \<Rightarrow> string" where "lb_Type \<equiv> lb_string ''type''"
abbreviation lb_Partuuid :: "lsblk_result \<Rightarrow> json" where "lb_Partuuid \<equiv> lb_value ''partuuid''"

text \<open>A call of \<^verbatim>\<open>pm.System\<close> of which the output is used.\<close>

definition run_system :: "'w disk_host \<Rightarrow> string list \<Rightarrow> (job_result, 'w) deff" where
  "run_system h args w =
     (case dh_System h args w of
        (Ran job, w1) \<Rightarrow> (Inr job, w1)
      | (NotRun e, w1) \<Rightarrow> (Inl (DErr e), w1)
      | (FailedRun job e, w1) \<Rightarrow> (Inl (DErr e), w1))"

abbreviation job_out :: "job_result \<Rightarrow> string" where "job_out job \<equiv> Stdout (jr_Streams job)"

definition disk_json :: disk_err where "disk_json = DErr (Errorf ''json'')"

definition decoded :: "'a option \<Rightarrow> ('a, 'w) deff" where
  "decoded r = (case r of None \<Rightarrow> fail disk_json | Some x \<Rightarrow> ret x)"

definition lsblk :: "'w disk_host \<Rightarrow> block_device \<Rightarrow> (lsblk_result, 'w) deff" where
  "lsblk h bd =
     andThen (run_system h [''lsblk'', ''-O'', ''-J'', bk_Path bd]) (\<lambda>result.
     andThen (decoded (Option.bind (dh_dec h (job_out result)) lsblkListResult)) (\<lambda>devices.
     case devices of
       d # _ \<Rightarrow> ret d
     | [] \<Rightarrow> fail (DErr (Errorf (''no device with the name '' @ bk_Path bd)))))"

section \<open>Sizes, the partition table and the free space\<close>

definition blockSize :: "'w disk_host \<Rightarrow> block_device \<Rightarrow> (u64, 'w) deff" where
  "blockSize h bd = readUInt64 h (''/sys/block/'' @ bk_Name bd @ ''/queue/logical_block_size'')"

text \<open>\<^verbatim>\<open>partTableRegex\<close>: the first place where the label is followed by a word.\<close>

fun part_table :: "string \<Rightarrow> string option" where
  "part_table [] = None"
| "part_table (c # s) =
     (case Option.bind (strip ''Partition Table: '' (c # s)) (many1 isWord) of
        Some (t, _) \<Rightarrow> Some t
      | None \<Rightarrow> part_table s)"

text \<open>\<^verbatim>\<open>freeSpaceRegex\<close> at the start of a line; the blanks it begins with may be lines of their own.\<close>

definition free_match :: "string \<Rightarrow> ((string \<times> string \<times> string) \<times> string) option" where
  "free_match s =
     Option.bind (many1 isDigit (dropWhile reSpace s)) (\<lambda>(a, s).
     Option.bind (strip ''B'' s) (\<lambda>s.
     Option.bind (many1 reSpace s) (\<lambda>(_, s).
     Option.bind (many1 isDigit s) (\<lambda>(b, s).
     Option.bind (strip ''B'' s) (\<lambda>s.
     Option.bind (many1 reSpace s) (\<lambda>(_, s).
     Option.bind (many1 isDigit s) (\<lambda>(c, s).
     Option.bind (strip ''B'' s) (\<lambda>s.
     Option.bind (many1 reSpace s) (\<lambda>(_, s).
     Option.bind (strip ''Free Space'' s) (\<lambda>s.
     if s = [] \<or> hd s = newline then Some ((a, b, c), s) else None))))))))))"

text \<open>\<^verbatim>\<open>FindAllStringSubmatch\<close>, with as much fuel as there are lines.\<close>

fun free_all :: "nat \<Rightarrow> string \<Rightarrow> (string \<times> string \<times> string) list" where
  "free_all 0 s = []"
| "free_all (Suc n) s =
     (case free_match s of
        Some (m, r) \<Rightarrow> m # (if newline \<in> set r then free_all n (next_line r) else [])
      | None \<Rightarrow> if newline \<in> set s then free_all n (next_line s) else [])"

definition free_block_of :: "string \<times> string \<times> string \<Rightarrow> free_block" where
  "free_block_of m =
     (case m of (a, b, c) \<Rightarrow>
        \<lparr>fb_Start = of_nat (fst (parseUint 64 a)), fb_End = of_nat (fst (parseUint 64 b)), fb_Size = of_nat (fst (parseUint 64 c))\<rparr>)"

definition parse_table :: "string \<Rightarrow> string \<times> free_block list" where
  "parse_table out =
     (case part_table out of None \<Rightarrow> [] | Some t \<Rightarrow> t, map free_block_of (free_all (Suc (length out)) out))"

definition getTableInfo :: "'w disk_host \<Rightarrow> block_device \<Rightarrow> (string \<times> free_block list, 'w) deff" where
  "getTableInfo h bd =
     andThen (run_system h [''parted'', bk_Path bd, ''unit'', ''B'', ''print'', ''free'']) (\<lambda>result.
     ret (parse_table (job_out result)))"

text \<open>What the code fills in for a disk and for a partition.\<close>

definition whole_disk :: "lsblk_result \<Rightarrow> u64 \<Rightarrow> u64 \<Rightarrow> string \<times> free_block list \<Rightarrow> disk_info_result" where
  "whole_disk lb sz bs tb =
     \<lparr>dr_lsblk = lb, dr_Start = 0, dr_End = sz * bs - 1, dr_Size = sz * bs, dr_BlockSize = bs, dr_Table = fst tb,
      dr_Free = Some (snd tb)\<rparr>"

definition partition_of :: "lsblk_result \<Rightarrow> u64 \<Rightarrow> u64 \<Rightarrow> u64 \<Rightarrow> disk_info_result" where
  "partition_of lb start sz bs =
     \<lparr>dr_lsblk = lb, dr_Start = start * bs, dr_End = start * bs + sz * bs - 1, dr_Size = sz * bs, dr_BlockSize = bs,
      dr_Table = [], dr_Free = Some []\<rparr>"

definition diskInfo :: "'w disk_host \<Rightarrow> string \<Rightarrow> (disk_info_result, 'w) deff" where
  "diskInfo h disk =
     andThen (deviceToBlockDevice h disk) (\<lambda>bd.
     andThen (lsblk h bd) (\<lambda>lb.
     andThen (blockSize h bd) (\<lambda>bs.
     andThen (readUInt64 h (''/sys/block/'' @ bk_Name bd @ ''/size'')) (\<lambda>sz.
     andThen (getTableInfo h bd) (\<lambda>tb. ret (whole_disk lb sz bs tb))))))"

definition partInfo :: "'w disk_host \<Rightarrow> string \<Rightarrow> string \<Rightarrow> (disk_info_result, 'w) deff" where
  "partInfo h disk part =
     andThen (deviceToBlockDevice h disk) (\<lambda>dbd.
     andThen (deviceToBlockDevice h part) (\<lambda>pbd.
     andThen (lsblk h pbd) (\<lambda>lb.
     andThen (blockSize h dbd) (\<lambda>bs.
     andThen (readUInt64 h (''/sys/block/'' @ bk_Name dbd @ ''/'' @ bk_Name pbd @ ''/start'')) (\<lambda>start.
     andThen (readUInt64 h (''/sys/block/'' @ bk_Name dbd @ ''/'' @ bk_Name pbd @ ''/size'')) (\<lambda>sz.
     ret (partition_of lb start sz bs)))))))"

text \<open>The fields of the arguments of a command.\<close>

definition arg_string :: "string \<Rightarrow> json \<Rightarrow> (string, 'w) deff" where
  "arg_string n cmd = decoded (string_arg n cmd)"

definition disk_info :: "'w disk_host \<Rightarrow> json \<Rightarrow> (disk_info_result, 'w) deff" where
  "disk_info h cmd =
     andThen (arg_string ''disk'' cmd) (\<lambda>disk.
     andThen (arg_string ''part'' cmd) (\<lambda>part.
     if part = [] then diskInfo h disk else partInfo h disk part))"

section \<open>The list of disks\<close>

text \<open>The loop of \<^verbatim>\<open>list\<close>: a partition is looked up below the disk that came last before it.\<close>

fun list_disks :: "'w disk_host \<Rightarrow> string \<Rightarrow> lsblk_result list \<Rightarrow> (disk_info_result list, 'w) deff" where
  "list_disks h parent [] = ret []"
| "list_disks h parent (disk # disks) =
     andThen (deviceToBlockDevice h (lb_Name disk)) (\<lambda>bd.
     andThen (blockSize h bd) (\<lambda>bs.
     if lb_Type disk = ''disk'' then
       andThen (readUInt64 h (''/sys/block/'' @ bk_Name bd @ ''/size'')) (\<lambda>sz.
       andThen (getTableInfo h bd) (\<lambda>tb.
       andThen (list_disks h (lb_Name disk) disks) (\<lambda>rs. ret (whole_disk disk sz bs tb # rs))))
     else if lb_Type disk = ''part'' then
       andThen (readUInt64 h (''/sys/block/'' @ parent @ ''/'' @ bk_Name bd @ ''/start'')) (\<lambda>start.
       andThen (readUInt64 h (''/sys/block/'' @ parent @ ''/'' @ bk_Name bd @ ''/size'')) (\<lambda>sz.
       andThen (list_disks h parent disks) (\<lambda>rs. ret (partition_of disk start sz bs # rs))))
     else
       andThen (list_disks h parent disks) (\<lambda>rs.
       ret (\<lparr>dr_lsblk = disk, dr_Start = 0, dr_End = 0, dr_Size = 0, dr_BlockSize = bs, dr_Table = [], dr_Free = None\<rparr> # rs))))"

text \<open>The value a command returns, by its dynamic type.\<close>

datatype disk_value = DiskInfoResults "disk_info_result list" | LsblkList "lsblk_result list"

definition disk_list :: "'w disk_host \<Rightarrow> (disk_value, 'w) deff" where
  "disk_list h =
     andThen (run_system h [''lsblk'', ''--json'', ''--output-all'', ''--bytes'', ''--exclude'', ''1,2'']) (\<lambda>result.
     if job_out result = [] then ret (DiskInfoResults [])
     else andThen (decoded (Option.bind (dh_dec h (job_out result)) lsblkListResult)) (\<lambda>disks.
          andThen (list_disks h [] disks) (\<lambda>rs. ret (DiskInfoResults rs))))"

section \<open>Mounts\<close>

definition put_option :: "string \<Rightarrow> (string \<rightharpoonup> string) \<Rightarrow> (string \<rightharpoonup> string)" where
  "put_option opt m =
     (let l = split (CHR ''='') opt in if length l = 1 then m(l ! 0 \<mapsto> ''1'') else m(l ! 0 \<mapsto> l ! 1))"

text \<open>The loop of \<^verbatim>\<open>parseMountCmd\<close>; a line of less than four fields is indexed out of range.\<close>

fun mount_lines :: "string list \<Rightarrow> (string \<Rightarrow> disk_mount list) \<Rightarrow> disk_err + (string \<Rightarrow> disk_mount list)" where
  "mount_lines [] m = Inr m"
| "mount_lines (line0 # lines) m =
     (let line = trimSpace line0 in
      if line = [] then mount_lines lines m
      else let parts = split (CHR '' '') line in
        if length parts < 4 then Inl DPanic
        else mount_lines lines
               (m(parts ! 0 := m (parts ! 0) @
                    [\<lparr>dm_Mountpoint = parts ! 1, dm_Filesystem = parts ! 2,
                      dm_Options = fold put_option (split (CHR '','') (parts ! 3)) Map.empty\<rparr>])))"

definition parseMountCmd :: "string \<Rightarrow> disk_err + (string \<Rightarrow> disk_mount list)" where
  "parseMountCmd mount = mount_lines (split newline mount) (\<lambda>_. [])"

definition disk_mounts :: "'w disk_host \<Rightarrow> (string \<Rightarrow> disk_mount list, 'w) deff" where
  "disk_mounts h = andThen (read_file h ''/proc/mounts'') (\<lambda>file. ask (\<lambda>w. parseMountCmd file))"

section \<open>Protection\<close>

definition protect_part :: "'w disk_host \<Rightarrow> string \<Rightarrow> lsblk_result \<Rightarrow> lsblk_result \<Rightarrow> (unit, 'w) deff" where
  "protect_part h uuid dev part =
     (if lb_Partuuid part \<noteq> JStr uuid then ret ()
      else andThen (run_system h [''blockdev'', ''--setro'', ''/dev/'' @ lb_Name part]) (\<lambda>_.
           andThen (run_system h [''blockdev'', ''--setro'', ''/dev/'' @ lb_Name dev]) (\<lambda>_. ret ())))"

definition protect :: "'w disk_host \<Rightarrow> json \<Rightarrow> (unit, 'w) deff" where
  "protect h cmd =
     andThen (arg_string ''partuuid'' cmd) (\<lambda>uuid.
     if uuid = [] then fail (DErr (Errorf ''partuuid is required''))
     else andThen (disk_list h) (\<lambda>result.
       case result of
         LsblkList devs \<Rightarrow> forEach (\<lambda>dev. forEach (protect_part h uuid dev) (lb_Children dev)) devs
       | _ \<Rightarrow> fail (DErr (Errorf ''unexpected return from list!''))))"

section \<open>The tools of the drives\<close>

record smartctl_info =
  sm_Model :: string
  sm_SerialNumber :: string
  sm_DeviceID :: string
  sm_FirmwareVersion :: string
  sm_UserCapacity :: int
  sm_SectorSize :: int
  sm_RotationRate :: string
  sm_Device :: string
  sm_ATAVersion :: string
  sm_SATAVersion :: string
  sm_SmartSupportAvailable :: bool
  sm_SmartSupportEnabled :: bool

definition no_smart :: smartctl_info where
  "no_smart =
     \<lparr>sm_Model = [], sm_SerialNumber = [], sm_DeviceID = [], sm_FirmwareVersion = [], sm_UserCapacity = 0, sm_SectorSize = 0,
      sm_RotationRate = [], sm_Device = [], sm_ATAVersion = [], sm_SATAVersion = [], sm_SmartSupportAvailable = False,
      sm_SmartSupportEnabled = False\<rparr>"

definition strings_Contains :: "string \<Rightarrow> string \<Rightarrow> bool" where
  "strings_Contains s sub \<longleftrightarrow> index s sub \<noteq> None"

text \<open>The first part of \<^verbatim>\<open>strings.Split(value, "bytes")\<close>, without blanks and commas, as a number.\<close>

definition smart_bytes :: "string \<Rightarrow> int \<times> num_error option" where
  "smart_bytes value =
     (let sizeBytes = (case index value ''bytes'' of None \<Rightarrow> value | Some n \<Rightarrow> take n value)
      in parseInt 64 (filter (\<lambda>c. c \<noteq> CHR '','') (trimSpace sizeBytes)))"

definition smart_line :: "string \<Rightarrow> string \<Rightarrow> smartctl_info \<Rightarrow> num_error option \<times> smartctl_info" where
  "smart_line key value i =
     (if key = ''Device Model'' then (None, i\<lparr>sm_Model := value\<rparr>)
      else if key = ''Serial Number'' then (None, i\<lparr>sm_SerialNumber := value\<rparr>)
      else if key = ''LU WWN Device Id'' then (None, i\<lparr>sm_DeviceID := value\<rparr>)
      else if key = ''Firmware Version'' then (None, i\<lparr>sm_FirmwareVersion := value\<rparr>)
      else if key = ''User Capacity'' then (snd (smart_bytes value), i\<lparr>sm_UserCapacity := fst (smart_bytes value)\<rparr>)
      else if key = ''Sector Size'' then (snd (smart_bytes value), i\<lparr>sm_SectorSize := fst (smart_bytes value)\<rparr>)
      else if key = ''Rotation Rate'' then (None, i\<lparr>sm_RotationRate := value\<rparr>)
      else if key = ''Device is'' then (None, i\<lparr>sm_Device := value\<rparr>)
      else if key = ''ATA Version is'' then (None, i\<lparr>sm_ATAVersion := value\<rparr>)
      else if key = ''SATA Version is'' then (None, i\<lparr>sm_SATAVersion := value\<rparr>)
      else if key = ''SMART support is'' then
        (None, i\<lparr>sm_SmartSupportAvailable := sm_SmartSupportAvailable i \<or> strings_Contains value ''Available'',
                 sm_SmartSupportEnabled := sm_SmartSupportEnabled i \<or> strings_Contains value ''Enabled''\<rparr>)
      else (None, i))"

text \<open>The loop of \<^verbatim>\<open>parseSmartctlInfo\<close>: the value of a line is what stands between its first two colons.\<close>

fun smart_lines :: "string list \<Rightarrow> smartctl_info \<Rightarrow> num_error option \<times> smartctl_info" where
  "smart_lines [] i = (None, i)"
| "smart_lines (line # lines) i =
     (if CHR '':'' \<notin> set line then smart_lines lines i
      else let parts = split (CHR '':'') line in
        case smart_line (parts ! 0) (trimSpace (parts ! 1)) i of
          (None, i1) \<Rightarrow> smart_lines lines i1
        | (Some e, i1) \<Rightarrow> (Some e, i1))"

definition parseSmartctlInfo :: "string \<Rightarrow> num_error option \<times> smartctl_info" where
  "parseSmartctlInfo input = smart_lines (split newline input) no_smart"

definition disk_smartctlInfo :: "'w disk_host \<Rightarrow> json \<Rightarrow> (smartctl_info, 'w) deff" where
  "disk_smartctlInfo h cmd =
     andThen (arg_string ''device'' cmd) (\<lambda>device.
     andThen (run_system h [''smartctl'', ''-i'', device]) (\<lambda>result.
     case parseSmartctlInfo (job_out result) of
       (Some e, _) \<Rightarrow> fail (DErr (Errorf ''Atoi''))
     | (None, i) \<Rightarrow> ret i))"

definition disk_smartctlHealth :: "'w disk_host \<Rightarrow> json \<Rightarrow> (bool, 'w) deff" where
  "disk_smartctlHealth h cmd =
     andThen (arg_string ''device'' cmd) (\<lambda>device.
     andThen (run_system h [''smartctl'', ''-H'', device]) (\<lambda>result.
     ret (strings_Contains (job_out result) ''PASSED'')))"

definition assert_disk :: "'w disk_host \<Rightarrow> string \<Rightarrow> (unit, 'w) deff" where
  "assert_disk h disk =
     ask (\<lambda>w. if disk_exists h disk w then Inr () else Inl (DErr (BadRequestError (''disk doesn't exist: '' @ disk))))"

definition spindown :: "'w disk_host \<Rightarrow> json \<Rightarrow> (unit, 'w) deff" where
  "spindown h cmd =
     andThen (arg_string ''disk'' cmd) (\<lambda>disk.
     andThen (decoded (Option.bind (objectOf cmd) (field_uint 64 ''spindown''))) (\<lambda>n.
     andThen (assert_disk h disk) (\<lambda>_.
     if \<not> n < 241 then fail (DErr (BadRequestError (''spindown '' @ itoa n @ '' out of range 1 - 240'')))
     else andThen (run_system h [''hdparm'', ''-S'', itoa n, disk]) (\<lambda>_. ret ()))))"

text \<open>The first line with the state of the drive decides; it is indexed out of range when it has no colon.\<close>

fun parseHdparm :: "string list \<Rightarrow> disk_err + bool" where
  "parseHdparm [] = Inl (DErr (Errorf ''hdparm returned unparsable result for isStandby''))"
| "parseHdparm (i # lines) =
     (if strings_Contains i ''drive state'' then
        (let d = split (CHR '':'') i
         in if length d < 2 then Inl DPanic else Inr (trimSpace (d ! 1) = ''standby''))
      else parseHdparm lines)"

text \<open>The name of the disk is a format with no operands.\<close>

definition isStandby :: "'w disk_host \<Rightarrow> json \<Rightarrow> (bool, 'w) deff" where
  "isStandby h cmd =
     andThen (arg_string ''disk'' cmd) (\<lambda>disk.
     andThen (assert_disk h disk) (\<lambda>_.
     andThen (run_system h [''hdparm'', ''-C'', dh_Sprintf h disk]) (\<lambda>result.
     case parseHdparm (split newline (job_out result)) of
       Inr b \<Rightarrow> ret b
     | Inl DPanic \<Rightarrow> fail DPanic
     | Inl (DErr e) \<Rightarrow> fail (DErr (BadRequestError (err_Text e))))))"

definition seektime :: "'w disk_host \<Rightarrow> json \<Rightarrow> (json, 'w) deff" where
  "seektime h cmd =
     andThen (case string_arg ''disk'' cmd of None \<Rightarrow> fail (DErr (BadRequestError ''json'')) | Some disk \<Rightarrow> ret disk) (\<lambda>disk.
     andThen (deviceToBlockDevice h disk) (\<lambda>device.
     andThen (run_system h [''seektime'', ''-j'', bk_Path device]) (\<lambda>result.
     decoded (dh_dec h (job_out result)))))"

end
