(* ===== verification/Disk_Safety.thy ===== *)
theory Disk_Safety
  imports Disks
begin

text \<open>
  The properties of \<^verbatim>\<open>disk.go\<close>: the tables that the kernel and the programs print are read back, the places of disks and partitions are
  within bounds, and what a protection does.
\<close>

section \<open>Tables of words\<close>

text \<open>A word of a table: no blank in it.  Text of lines that end each with a newline splits into the lines and an empty one.\<close>

definition unbroken :: "string \<Rightarrow> bool" where
  "unbroken s \<longleftrightarrow> (\<forall>c \<in> set s. c \<notin> set goSpace)"

lemma newline_space: "newline \<in> set goSpace"
  by (simp add: newline_def goSpace_def)

lemma split_lines: "\<forall>l \<in> set ls. newline \<notin> set l \<Longrightarrow> split newline (concat (map (\<lambda>l. l @ [newline]) ls)) = ls @ [[]]"
  by (induction ls) (simp_all add: split_append_sep)

lemma unbroken_not_in: "unbroken s \<Longrightarrow> c \<in> set goSpace \<Longrightarrow> c \<notin> set s"
  by (auto simp: unbroken_def)

section \<open>The table of mounts\<close>

type_synonym mount_entry = "string \<times> string \<times> string \<times> (string \<times> string option) list"

definition option_text :: "string \<times> string option \<Rightarrow> string" where
  "option_text kv = (case kv of (k, None) \<Rightarrow> k | (k, Some v) \<Rightarrow> k @ ''='' @ v)"

definition option_value :: "string \<times> string option \<Rightarrow> string \<times> string" where
  "option_value kv = (case kv of (k, None) \<Rightarrow> (k, ''1'') | (k, Some v) \<Rightarrow> (k, v))"

definition mount_line :: "mount_entry \<Rightarrow> string" where
  "mount_line m =
     (case m of (d, p, fs, opts) \<Rightarrow> join '' '' [d, p, fs, join '','' (map option_text opts), ''0'', ''0''])"

definition mount_of :: "mount_entry \<Rightarrow> disk_mount" where
  "mount_of m =
     (case m of (d, p, fs, opts) \<Rightarrow>
        \<lparr>dm_Mountpoint = p, dm_Filesystem = fs, dm_Options = map_of (rev (map option_value opts))\<rparr>)"

definition option_ok :: "string \<times> string option \<Rightarrow> bool" where
  "option_ok kv \<longleftrightarrow> (case kv of (k, v) \<Rightarrow>
     unbroken k \<and> CHR '','' \<notin> set k \<and> CHR ''='' \<notin> set k \<and>
     (case v of None \<Rightarrow> True | Some x \<Rightarrow> unbroken x \<and> CHR '','' \<notin> set x \<and> CHR ''='' \<notin> set x))"

definition mount_ok :: "mount_entry \<Rightarrow> bool" where
  "mount_ok m \<longleftrightarrow> (case m of (d, p, fs, opts) \<Rightarrow>
     d \<noteq> [] \<and> unbroken d \<and> unbroken p \<and> unbroken fs \<and> opts \<noteq> [] \<and> list_all option_ok opts)"

lemma put_option_text: "option_ok kv \<Longrightarrow> put_option (option_text kv) m = m(fst (option_value kv) \<mapsto> snd (option_value kv))"
  by (auto simp: option_ok_def put_option_def option_text_def option_value_def split_no_sep split_append_sep split: prod.splits option.splits)

lemma fold_options:
  "list_all option_ok opts \<Longrightarrow> fold put_option (map option_text opts) m = m ++ map_of (rev (map option_value opts))"
proof (induction opts arbitrary: m)
  case (Cons kv opts)
  then show ?case by (simp add: put_option_text map_add_def fun_eq_iff split: option.splits)
qed simp

lemma option_text_chars:
  assumes "option_ok kv"
  shows "unbroken (option_text kv)" "CHR '','' \<notin> set (option_text kv)"
  using assms by (auto simp: option_ok_def option_text_def unbroken_def goSpace_def split: prod.splits option.splits)

lemma unbroken_join: "unbroken sep \<Longrightarrow> \<forall>p \<in> set ps. unbroken p \<Longrightarrow> unbroken (join sep ps)"
  unfolding unbroken_def by (induction sep ps rule: join.induct) auto

lemma options_chars:
  assumes "list_all option_ok opts"
  shows "unbroken (join '','' (map option_text opts))"
  using assms by (intro unbroken_join) (auto simp: list_all_iff option_text_chars, simp add: unbroken_def goSpace_def)

lemma options_split:
  "opts \<noteq> [] \<Longrightarrow> list_all option_ok opts \<Longrightarrow> split (CHR '','') (join '','' (map option_text opts)) = map option_text opts"
  by (rule split_join) (auto simp: list_all_iff option_text_chars)

lemma mount_line_parts:
  assumes "mount_ok (d, p, fs, opts)"
  shows "split (CHR '' '') (mount_line (d, p, fs, opts)) = [d, p, fs, join '','' (map option_text opts), ''0'', ''0'']"
    and "newline \<notin> set (mount_line (d, p, fs, opts))"
    and "trimSpace (mount_line (d, p, fs, opts)) = mount_line (d, p, fs, opts)"
proof -
  let ?l = "mount_line (d, p, fs, opts)"
  have u: "unbroken d" "unbroken p" "unbroken fs" "unbroken (join '','' (map option_text opts))" "d \<noteq> []"
    using assms by (auto simp: mount_ok_def options_chars)
  have z: "unbroken ''0''" by (simp add: unbroken_def goSpace_def)
  have sp: "CHR '' '' \<in> set goSpace" by (simp add: goSpace_def)
  have parts: "\<forall>x \<in> set [d, p, fs, join '','' (map option_text opts), ''0'', ''0'']. unbroken x" using u z by simp
  have "\<forall>x \<in> set [d, p, fs, join '','' (map option_text opts), ''0'', ''0'']. CHR '' '' \<notin> set x"
    using parts sp unbroken_not_in by blast
  then show "split (CHR '' '') ?l = [d, p, fs, join '','' (map option_text opts), ''0'', ''0'']"
    unfolding mount_line_def by (simp only: prod.case) (rule split_join, auto)
  have "\<forall>x \<in> set [d, p, fs, join '','' (map option_text opts), ''0'', ''0'']. newline \<notin> set x"
    using parts newline_space unbroken_not_in by blast
  moreover have "newline \<notin> set '' ''" by (simp add: newline_def)
  ultimately show "newline \<notin> set ?l"
    unfolding mount_line_def by (simp only: prod.case) (rule not_in_join)
  have "hd ?l \<notin> set goSpace" using u by (cases d) (simp_all add: mount_line_def unbroken_def)
  moreover have "last ?l \<notin> set goSpace" by (simp add: mount_line_def goSpace_def)
  moreover have "?l \<noteq> []" by (simp add: mount_line_def)
  ultimately show "trimSpace ?l = ?l" using trimSpace_solid [of ?l "[]"] by simp
qed

lemma mount_lines_print:
  "list_all mount_ok ms \<Longrightarrow>
     mount_lines (map mount_line ms @ [[]]) t = Inr (\<lambda>d. t d @ map mount_of (filter (\<lambda>m. fst m = d) ms))"
proof (induction ms arbitrary: t)
  case Nil
  then show ?case by (simp add: trimSpace_def trim_def trimLeft_def trimRight_def)
next
  case (Cons m ms)
  obtain d p fs opts where m: "m = (d, p, fs, opts)" by (rule prod_cases4)
  have ok: "mount_ok (d, p, fs, opts)" using Cons.prems m by simp
  have ne: "mount_line (d, p, fs, opts) \<noteq> []" by (simp add: mount_line_def)
  have opts: "opts \<noteq> []" "list_all option_ok opts" using ok by (simp_all add: mount_ok_def)
  show ?case
    using Cons.prems
    by (simp add: m Cons.IH mount_line_parts [OF ok] ne Let_def options_split [OF opts] fold_options [OF opts(2)] mount_of_def fun_eq_iff)
qed

text \<open>
  A table of mounts that is written the way the kernel writes it is read back: every device has its mounts in the order of the table, each
  with its options, where the last value of an option wins and an option without a value is \<^verbatim>\<open>1\<close>.
\<close>

theorem mounts_read:
  assumes "list_all mount_ok ms"
  shows "parseMountCmd (concat (map (\<lambda>m. mount_line m @ [newline]) ms)) = Inr (\<lambda>d. map mount_of (filter (\<lambda>m. fst m = d) ms))"
proof -
  have "\<forall>l \<in> set (map mount_line ms). newline \<notin> set l"
    using assms mount_line_parts(2) by (fastforce simp: list_all_iff)
  from split_lines [OF this] have "split newline (concat (map (\<lambda>m. mount_line m @ [newline]) ms)) = map mount_line ms @ [[]]"
    by (simp add: comp_def)
  then show ?thesis using mount_lines_print [OF assms, of "\<lambda>_. []"] by (simp add: parseMountCmd_def)
qed

section \<open>Protection\<close>

text \<open>An effect that calls the programs of a list only.\<close>

lemma keeps_run: "(\<And>w. P w \<Longrightarrow> P (snd (dh_System h args w))) \<Longrightarrow> keeps P (run_system h args)"
  by (auto simp: keeps_def run_system_def split: prod.splits system_result.splits) (metis snd_conv)+

lemma keeps_read: "keeps P (read_file h p)" "keeps P (decoded x)"
  by (simp_all add: read_file_def decoded_def keeps_simps split: option.split)

lemma keeps_readUInt64: "keeps P (readUInt64 h p)"
  unfolding readUInt64_def by (intro keeps_intros keeps_read) (auto intro: keeps_simps split: option.split)

lemma keeps_device: "keeps P (deviceToBlockDevice h dev)"
  unfolding deviceToBlockDevice_def Let_def blockUEvent_def
  by (auto intro!: keeps_intros keeps_read split: option.split)

lemma keeps_if: "keeps P m \<Longrightarrow> keeps P n \<Longrightarrow> keeps P (if c then m else n)"
  by simp

lemma keeps_table:
  "(\<And>args w. P w \<Longrightarrow> P (snd (dh_System h (''parted'' # args) w))) \<Longrightarrow> keeps P (getTableInfo h bd)"
  unfolding getTableInfo_def by (intro keeps_intros keeps_run)

lemma keeps_list_disks:
  assumes "\<And>args w. P w \<Longrightarrow> P (snd (dh_System h (''parted'' # args) w))"
  shows "keeps P (list_disks h parent disks)"
proof (induction disks arbitrary: parent)
  case (Cons d disks)
  show ?case
    unfolding list_disks.simps blockSize_def
    by (intro keeps_intros keeps_if keeps_device keeps_readUInt64 keeps_table Cons.IH assms)
qed (simp add: keeps_simps)

lemma keeps_disk_list:
  assumes "\<And>args w. P w \<Longrightarrow> P (snd (dh_System h (''parted'' # args) w))"
    and "\<And>args w. P w \<Longrightarrow> P (snd (dh_System h (''lsblk'' # args) w))"
  shows "keeps P (disk_list h)"
proof -
  have "keeps P (if c then ret (DiskInfoResults []) else andThen (decoded x) (\<lambda>disks. andThen (list_disks h [] disks) (\<lambda>rs. ret (DiskInfoResults rs))))" for c x
    by (cases c) (auto intro!: keeps_intros keeps_read keeps_list_disks assms(1))
  then show ?thesis unfolding disk_list_def by (intro keeps_andThen keeps_run assms(2))
qed

lemma disk_list_value: "fst (disk_list h w) = Inr v \<Longrightarrow> \<exists>rs. v = DiskInfoResults rs"
  by (auto simp: disk_list_def andThen_def eff_simps split: prod.splits sum.splits if_splits)

text \<open>
  A protection always ends with an error, whatever the arguments and the devices are, and only lists the devices: what the programs
  \<^verbatim>\<open>lsblk\<close> and \<^verbatim>\<open>parted\<close> keep is kept, so that no device is made read-only.  The value of \<^verbatim>\<open>list\<close> never has the type the command asks for.
\<close>

theorem protect_nothing:
  assumes "\<forall>args w. P w \<longrightarrow> P (snd (dh_System h (''parted'' # args) w))"
    and "\<forall>args w. P w \<longrightarrow> P (snd (dh_System h (''lsblk'' # args) w))"
    and "P w"
  shows "(\<exists>e. fst (protect h cmd w) = Inl e) \<and> P (snd (protect h cmd w))"
proof -
  obtain r w1 where l: "disk_list h w = (r, w1)" by (rule prod.exhaust)
  have "keeps P (disk_list h)" by (rule keeps_disk_list) (use assms in blast)+
  from keepsD [OF this assms(3)] have P1: "P w1" by (simp add: l)
  show ?thesis
  proof (cases "string_arg ''partuuid'' cmd")
    case None
    then show ?thesis using assms(3) by (simp add: protect_def arg_string_def decoded_def eff_simps)
  next
    case (Some uuid)
    show ?thesis
    proof (cases "uuid = []")
      case True
      then show ?thesis using Some assms(3) by (simp add: protect_def arg_string_def decoded_def eff_simps)
    next
      case False
      then have eq: "protect h cmd = andThen (disk_list h) (\<lambda>result. case result of
          LsblkList devs \<Rightarrow> forEach (\<lambda>dev. forEach (protect_part h uuid dev) (lb_Children dev)) devs
        | _ \<Rightarrow> fail (DErr (Errorf ''unexpected return from list!'')))"
        using Some by (simp add: protect_def arg_string_def decoded_def eff_simps)
      show ?thesis
      proof (cases r)
        case (Inl e)
        then show ?thesis using P1 l by (simp add: eq andThen_Inl)
      next
        case (Inr v)
        then obtain rs where "v = DiskInfoResults rs" using disk_list_value [of h w v] l by auto
        then show ?thesis using P1 l Inr by (simp add: eq andThen_Inr eff_simps)
      qed
    qed
  qed
qed

text \<open>A node that records the programs it calls; \<^verbatim>\<open>lsblk\<close> answers with nothing.\<close>

definition tool_job :: "string \<Rightarrow> job_result" where
  "tool_job out = (NewJobResult (sampleJob ''1'' ''q''))\<lparr>jr_Streams := [out, []]\<rparr>"

definition loggingHost :: "string list list disk_host" where
  "loggingHost =
     \<lparr>dh_System = \<lambda>args w. (Ran (tool_job []), w @ [args]), dh_ReadFile = \<lambda>p w. Inl (Errorf ''none''),
      dh_Stat = \<lambda>p w. StatMissing, dh_dec = \<lambda>s. None, dh_Sprintf = \<lambda>s. s\<rparr>"

lemma protect_nothing_witness:
  "(\<exists>e. fst (protect loggingHost (JObj [(''partuuid'', JStr ''u1'')]) []) = Inl e) \<and>
   [''blockdev'', ''--setro'', ''/dev/sda''] \<notin> set (snd (protect loggingHost (JObj [(''partuuid'', JStr ''u1'')]) []))"
  by (rule protect_nothing [where P = "\<lambda>w. [''blockdev'', ''--setro'', ''/dev/sda''] \<notin> set w"]) (simp_all add: loggingHost_def)

section \<open>The places of disks and partitions\<close>

text \<open>A number as a file of the kernel holds it.\<close>

definition number_file :: "'w disk_host \<Rightarrow> 'w \<Rightarrow> string \<Rightarrow> nat \<Rightarrow> bool" where
  "number_file h w p n \<longleftrightarrow> dh_ReadFile h p w = Inr (itoa n @ [newline]) \<and> n < 2 ^ 64"

lemma takeWhile_number: "s = [] \<or> \<not> isDigit (hd s) \<Longrightarrow> takeWhile isDigit (itoa n @ s) = itoa n"
  using itoa_digits [of n] by (cases s) (simp_all add: list_all_iff takeWhile_append)

lemma itoa_head: "itoa n @ s \<noteq> [] \<and> hd (itoa n @ s) \<notin> set goSpace"
  using itoa_digits [of n] by (cases "itoa n") (auto simp: solid_digits)

lemma readUInt64_number: "number_file h w p n \<Longrightarrow> readUInt64 h p w = (Inr (of_nat n), w)"
  using itoa_head [of n "[newline]"]
  by (simp add: number_file_def readUInt64_def read_file_def andThen_def eff_simps sscanf_uint64_def skipSpace_solid takeWhile_number
      isDigit_def newline_def Let_def)

text \<open>The numbers of the kernel as the code finds them; they stay while the programs run.\<close>

definition disk_numbers :: "'w disk_host \<Rightarrow> string \<Rightarrow> nat \<Rightarrow> nat \<Rightarrow> bool" where
  "disk_numbers h name bs tot \<longleftrightarrow>
     (\<forall>w. number_file h w (''/sys/block/'' @ name @ ''/queue/logical_block_size'') bs \<and>
          number_file h w (''/sys/block/'' @ name @ ''/size'') tot)"

definition part_numbers :: "'w disk_host \<Rightarrow> string \<Rightarrow> string \<Rightarrow> nat \<Rightarrow> nat \<Rightarrow> bool" where
  "part_numbers h name part start blocks \<longleftrightarrow>
     (\<forall>w. number_file h w (''/sys/block/'' @ name @ ''/'' @ part @ ''/start'') start \<and>
          number_file h w (''/sys/block/'' @ name @ ''/'' @ part @ ''/size'') blocks)"

lemma diskInfo_numbers:
  assumes "\<forall>w. deviceToBlockDevice h disk w = (Inr bd, w)" "disk_numbers h (bk_Name bd) bs tot"
    and "diskInfo h disk w = (Inr r, w1)"
  shows "\<exists>lb tb. r = whole_disk lb (of_nat tot) (of_nat bs) tb"
proof -
  have n: "blockSize h bd w = (Inr (of_nat bs), w)"
    "readUInt64 h (''/sys/block/'' @ bk_Name bd @ ''/size'') w = (Inr (of_nat tot), w)" for w
    using assms(2) unfolding blockSize_def disk_numbers_def by (blast intro: readUInt64_number)+
  obtain x w2 where x: "lsblk h bd w = (x, w2)" by (rule prod.exhaust)
  obtain t w3 where t: "getTableInfo h bd w2 = (t, w3)" by (rule prod.exhaust)
  from assms(3) show ?thesis
    by (cases x; cases t) (auto simp: diskInfo_def andThen_def eff_simps assms(1) x t n [simplified])
qed

lemma partInfo_numbers:
  assumes "\<forall>w. deviceToBlockDevice h disk w = (Inr bd, w)" "disk_numbers h (bk_Name bd) bs tot"
    and "\<forall>w. deviceToBlockDevice h part w = (Inr pd, w)" "part_numbers h (bk_Name bd) (bk_Name pd) start blocks"
    and "partInfo h disk part w = (Inr r, w1)"
  shows "\<exists>lb. r = partition_of lb (of_nat start) (of_nat blocks) (of_nat bs)"
proof -
  have n: "blockSize h bd w = (Inr (of_nat bs), w)"
    "readUInt64 h (''/sys/block/'' @ bk_Name bd @ ''/'' @ bk_Name pd @ ''/start'') w = (Inr (of_nat start), w)"
    "readUInt64 h (''/sys/block/'' @ bk_Name bd @ ''/'' @ bk_Name pd @ ''/size'') w = (Inr (of_nat blocks), w)" for w
    using assms(2,4) unfolding blockSize_def disk_numbers_def part_numbers_def by (blast intro: readUInt64_number)+
  obtain x w2 where x: "lsblk h pd w = (x, w2)" by (rule prod.exhaust)
  from assms(5) show ?thesis
    by (cases x) (auto simp: partInfo_def andThen_def eff_simps assms(1,3) x n [simplified])
qed

lemma unat_small: "n < 2 ^ 64 \<Longrightarrow> unat (of_nat n :: u64) = n"
  by (simp add: unat_of_nat)

lemma product_nat: "a * b < 2 ^ 64 \<Longrightarrow> unat (of_nat a * of_nat b :: u64) = a * b"
  by (metis (no_types) of_nat_mult unat_small)

lemma last_byte:
  assumes "0 < n" "n < 2 ^ 64"
  shows "unat (of_nat n - 1 :: u64) + 1 = n"
proof -
  have "(of_nat n - 1 :: u64) = of_nat (n - 1)" using assms(1) by (simp add: of_nat_diff)
  moreover have "n - 1 < 2 ^ 64" using assms by linarith
  ultimately show ?thesis using assms(1) unat_small [of "n - 1"] by simp
qed


text \<open>A node with one disk of 100 blocks of 512 bytes and a partition of 40 of them.\<close>

definition uevent_text :: "(string \<times> string) list \<Rightarrow> string" where
  "uevent_text kvs = concat (map (\<lambda>(k, v). k @ ''='' @ v @ [newline]) kvs)"

definition drive_files :: "(string \<times> string) list" where
  "drive_files =
     [(''/sys/dev/block/8:0/uevent'', uevent_text [(''DEVNAME'', ''sda''), (''DEVTYPE'', ''disk'')]),
      (''/sys/dev/block/8:1/uevent'', uevent_text [(''DEVNAME'', ''sda1''), (''DEVTYPE'', ''partition'')]),
      (''/sys/block/sda/queue/logical_block_size'', itoa 512 @ [newline]), (''/sys/block/sda/size'', itoa 100 @ [newline]),
      (''/sys/block/sda/sda1/start'', itoa 20 @ [newline]), (''/sys/block/sda/sda1/size'', itoa 40 @ [newline])]"

definition driveHost :: "unit disk_host" where
  "driveHost =
     \<lparr>dh_System = \<lambda>args w. (Ran (tool_job ''x''), w),
      dh_ReadFile = \<lambda>p w. case map_of drive_files p of None \<Rightarrow> Inl (Errorf ''none'') | Some s \<Rightarrow> Inr s,
      dh_Stat = \<lambda>p w. if p = ''/dev/sda'' then StatOk ModeDevice (Some 0x800)
                      else if p = ''/dev/sda1'' then StatOk ModeDevice (Some 0x801) else StatMissing,
      dh_dec = \<lambda>s. Some (JObj [(''blockdevices'', JArr [JObj [(''name'', JStr ''sda'')]])]), dh_Sprintf = \<lambda>s. s\<rparr>"

lemma drive_numbers: "disk_numbers driveHost ''sda'' 512 100" "part_numbers driveHost ''sda'' ''sda1'' 20 40"
  by (simp_all add: disk_numbers_def part_numbers_def number_file_def driveHost_def drive_files_def)

lemma drive_numbers_dev:
  "dev_Major 0x800 = 8" "dev_Minor 0x800 = 0" "dev_Major 0x801 = 8" "dev_Minor 0x801 = 1" "isModeBlockDevice ModeDevice"
  by (simp_all add: dev_Major_def dev_Minor_def isModeBlockDevice_def ModeDevice_def ModeCharDevice_def)

lemma drive_paths: "uevent_path 8 0 = ''/sys/dev/block/8:0/uevent''" "uevent_path 8 1 = ''/sys/dev/block/8:1/uevent''"
  by code_simp+

lemma drive_devices:
  "deviceToBlockDevice driveHost ''/dev/sda'' w = (Inr \<lparr>bk_Path = ''/dev/sda'', bk_Name = ''sda'', bk_Type = ''disk'', bk_Major = 8, bk_Minor = 0\<rparr>, w)"
  "deviceToBlockDevice driveHost ''/dev/sda1'' w = (Inr \<lparr>bk_Path = ''/dev/sda1'', bk_Name = ''sda1'', bk_Type = ''partition'', bk_Major = 8, bk_Minor = 1\<rparr>, w)"
  by (simp_all add: deviceToBlockDevice_def driveHost_def andThen_def eff_simps drive_numbers_dev drive_paths blockUEvent_def read_file_def
      drive_files_def uevent_text_def newline_def map_get_def Let_def)

lemma drive_infos:
  "\<exists>r. diskInfo driveHost ''/dev/sda'' () = (Inr r, ())" "\<exists>r. partInfo driveHost ''/dev/sda'' ''/dev/sda1'' () = (Inr r, ())"
proof -
  have l: "\<exists>r. lsblk driveHost bd () = (Inr r, ())" for bd
    by (simp add: lsblk_def run_system_def driveHost_def andThen_def eff_simps tool_job_def Stdout_def lsblkListResult_def decoded_def lower_def
        lsblk_of.simps string_fields_def lsblk_string_fields_def field_string_def)
  have run: "run_system driveHost args () = (Inr (tool_job ''x''), ())" for args
    by (simp add: run_system_def driveHost_def)
  have t: "\<exists>r. getTableInfo driveHost bd () = (Inr r, ())" for bd
    by (simp add: getTableInfo_def andThen_def eff_simps run)
  note n = drive_numbers [unfolded disk_numbers_def part_numbers_def, THEN spec, THEN conjunct1, THEN readUInt64_number]
    drive_numbers [unfolded disk_numbers_def part_numbers_def, THEN spec, THEN conjunct2, THEN readUInt64_number]
  show "\<exists>r. diskInfo driveHost ''/dev/sda'' () = (Inr r, ())"
    using l t by (auto simp: diskInfo_def andThen_def eff_simps drive_devices blockSize_def n [simplified] split: prod.splits sum.splits) (metis prod.inject sum.distinct(1))+
  show "\<exists>r. partInfo driveHost ''/dev/sda'' ''/dev/sda1'' () = (Inr r, ())"
    using l by (auto simp: partInfo_def andThen_def eff_simps drive_devices blockSize_def n [simplified] split: prod.splits sum.splits) (metis prod.inject sum.distinct(1))+
qed


section \<open>The names of the kernel\<close>

definition uevent_ok :: "string \<times> string \<Rightarrow> bool" where
  "uevent_ok kv \<longleftrightarrow> (case kv of (k, v) \<Rightarrow>
     CHR ''='' \<notin> set k \<and> newline \<notin> set k \<and> CHR ''='' \<notin> set v \<and> newline \<notin> set v)"

lemma uevent_lines_print:
  "list_all uevent_ok kvs \<Longrightarrow> uevent_lines (map (\<lambda>(k, v). k @ ''='' @ v) kvs) m = Inr (m ++ map_of (rev kvs))"
proof (induction kvs arbitrary: m)
  case (Cons kv kvs)
  then show ?case
    by (cases kv) (simp add: uevent_ok_def Let_def split_append_sep split_no_sep map_add_def fun_eq_iff split: option.splits)
qed simp

lemma uevent_read:
  assumes "list_all uevent_ok kvs"
  shows "uevent_lines (butlast (split newline (uevent_text kvs))) Map.empty = Inr (map_of (rev kvs))"
proof -
  have "\<forall>l \<in> set (map (\<lambda>(k, v). k @ ''='' @ v) kvs). newline \<notin> set l"
    using assms by (auto simp: list_all_iff uevent_ok_def newline_def)
  from split_lines [OF this] have "split newline (uevent_text kvs) = map (\<lambda>(k, v). k @ ''='' @ v) kvs @ [[]]"
    by (simp add: uevent_text_def comp_def split_def)
  then show ?thesis using uevent_lines_print [OF assms, of Map.empty] by simp
qed

text \<open>
  Whatever path leads to a block device, its name and type are those the kernel writes for its number: the device of a symbolic link is the one it
  points to.  A path that leads to anything else is refused.
\<close>

theorem device_resolved:
  assumes "dev \<noteq> []" "dh_Stat h (if dev ! 0 = CHR ''/'' then dev else ''/dev/'' @ dev) w = StatOk mode (Some devid)"
    and "dh_ReadFile h (uevent_path (dev_Major devid) (dev_Minor devid)) w = Inr (uevent_text kvs)" "list_all uevent_ok kvs"
  shows "deviceToBlockDevice h dev w =
     (if isModeBlockDevice mode
      then (Inr \<lparr>bk_Path = ''/dev/'' @ map_get (map_of (rev kvs)) ''DEVNAME'', bk_Name = map_get (map_of (rev kvs)) ''DEVNAME'',
                 bk_Type = map_get (map_of (rev kvs)) ''DEVTYPE'', bk_Major = dev_Major devid, bk_Minor = dev_Minor devid\<rparr>, w)
      else (Inl (DErr (Errorf ((if dev ! 0 = CHR ''/'' then dev else ''/dev/'' @ dev) @ '': not a block device''))), w))"
  using assms(1-3) uevent_read [OF assms(4)]
  by (cases "dev ! 0 = CHR ''/''") (simp_all add: deviceToBlockDevice_def Let_def andThen_def eff_simps blockUEvent_def read_file_def)

lemma device_resolved_witness:
  "bk_Name (case fst (deviceToBlockDevice driveHost ''sda1'' ()) of Inr b \<Rightarrow> b) = ''sda1''"
proof -
  let ?kvs = "[(''DEVNAME'', ''sda1''), (''DEVTYPE'', ''partition'')]"
  have "deviceToBlockDevice driveHost ''sda1'' () =
     (if isModeBlockDevice ModeDevice
      then (Inr \<lparr>bk_Path = ''/dev/'' @ map_get (map_of (rev ?kvs)) ''DEVNAME'', bk_Name = map_get (map_of (rev ?kvs)) ''DEVNAME'',
                 bk_Type = map_get (map_of (rev ?kvs)) ''DEVTYPE'', bk_Major = dev_Major 0x801, bk_Minor = dev_Minor 0x801\<rparr>, ())
      else (Inl (DErr (Errorf ((if ''sda1'' ! 0 = CHR ''/'' then ''sda1'' else ''/dev/'' @ ''sda1'') @ '': not a block device''))), ()))"
    by (rule device_resolved) (simp_all add: driveHost_def drive_files_def drive_numbers_dev drive_paths uevent_ok_def newline_def)
  then show ?thesis by (simp add: drive_numbers_dev map_get_def)
qed

section \<open>Free space\<close>

text \<open>The lines that \<^verbatim>\<open>parted\<close> prints: places that are free, and lines that begin with another word.\<close>

datatype parted_line = FreeLine nat nat nat nat | OtherLine nat string string

definition blanks :: "nat \<Rightarrow> string" where "blanks n = replicate n (CHR '' '')"

definition parted_text :: "parted_line \<Rightarrow> string" where
  "parted_text l =
     (case l of
        FreeLine n a b c \<Rightarrow> blanks n @ itoa a @ ''B'' @ blanks 1 @ itoa b @ ''B'' @ blanks 1 @ itoa c @ ''B'' @ blanks 1 @ ''Free Space''
      | OtherLine n w r \<Rightarrow> blanks n @ w @ r)"

definition line_ok :: "parted_line \<Rightarrow> bool" where
  "line_ok l \<longleftrightarrow>
     (case l of
        FreeLine n a b c \<Rightarrow> a < 2 ^ 64 \<and> b < 2 ^ 64 \<and> c < 2 ^ 64
      | OtherLine n w r \<Rightarrow> solid w \<and> newline \<notin> set r \<and> (r = [] \<or> hd r = CHR '' '') \<and> \<not> hasPrefix (dropWhile isDigit w) ''B'')"

definition free_of :: "parted_line list \<Rightarrow> free_block list" where
  "free_of ls = concat (map (\<lambda>l. case l of FreeLine n a b c \<Rightarrow> [\<lparr>fb_Start = of_nat a, fb_End = of_nat b, fb_Size = of_nat c\<rparr>] | _ \<Rightarrow> []) ls)"

lemma drop_blanks: "s = [] \<or> \<not> reSpace (hd s) \<Longrightarrow> dropWhile reSpace (blanks n @ s) = s"
  by (induction n) (cases s, auto simp: blanks_def reSpace_def)

lemma many1_blanks: "s = [] \<or> \<not> reSpace (hd s) \<Longrightarrow> many1 reSpace (blanks (Suc n) @ s) = Some (blanks (Suc n), s)"
  using drop_blanks [of s "Suc n"] by (cases s) (simp_all add: many1_def Let_def takeWhile_append blanks_def reSpace_def)

lemma many1_digits: "s = [] \<or> \<not> isDigit (hd s) \<Longrightarrow> many1 isDigit (itoa n @ s) = Some (itoa n, s)"
  using itoa_digits [of n] takeWhile_number [of s n]
  by (cases s) (simp_all add: many1_def Let_def list_all_iff dropWhile_append del: takeWhile_eq_all_conv)

lemma itoa_solid: "\<not> reSpace (hd (itoa n))"
  using itoa_digits [of n] by (cases "itoa n") (auto simp: reSpace_def isDigit_def)

lemma B_stops: "\<not> isDigit (CHR ''B'')" "\<not> reSpace (CHR ''F'')"
  by (simp_all add: isDigit_def reSpace_def)

lemma free_match_free:
  assumes "r = [] \<or> hd r = newline"
  shows "free_match (parted_text (FreeLine n a b c) @ r) = Some ((itoa a, itoa b, itoa c), r)"
  using assms
  by (simp add: free_match_def parted_text_def drop_blanks itoa_solid many1_digits B_stops strip_def many1_blanks [of _ 0, simplified])

lemma solid_word_head: "solid w \<Longrightarrow> w \<noteq> [] \<and> \<not> reSpace (hd w)"
  by (cases w) (auto simp: solid_def reSpace_def goSpace_def)

lemma free_match_other:
  assumes "line_ok (OtherLine n w r)" "t = [] \<or> hd t = newline"
  shows "free_match (parted_text (OtherLine n w r) @ t) = None"
proof -
  have s: "solid w" and nB: "\<not> hasPrefix (dropWhile isDigit w) ''B''" and r: "r = [] \<or> hd r = CHR '' ''"
    using assms(1) by (auto simp: line_ok_def)
  have d: "dropWhile reSpace (blanks n @ w @ r @ t) = w @ r @ t"
    using solid_word_head [OF s] by (intro drop_blanks) simp
  have "\<not> hasPrefix (dropWhile isDigit (w @ r @ t)) ''B''"
  proof (cases "dropWhile isDigit w")
    case Nil
    then have "dropWhile isDigit (w @ r @ t) = dropWhile isDigit (r @ t)" by (simp add: dropWhile_append3)
    moreover have "r @ t = [] \<or> hd (r @ t) \<noteq> CHR ''B'' \<and> \<not> isDigit (hd (r @ t))"
      using r assms(2) by (cases r; cases t) (auto simp: newline_def isDigit_def)
    ultimately show ?thesis using Nil by (cases "r @ t") (auto simp del: dropWhile_eq_Nil_conv)
  next
    case (Cons x xs)
    then have "dropWhile isDigit (w @ r @ t) = dropWhile isDigit w @ r @ t"
      by (metis dropWhile_append dropWhile_eq_Nil_conv list.distinct(1) append.assoc)
    then show ?thesis using nB Cons by simp
  qed
  then show ?thesis
    by (auto simp: free_match_def parted_text_def d many1_def Let_def strip_def split: option.splits)
qed

lemma parted_no_newline: "line_ok l \<Longrightarrow> newline \<notin> set (parted_text l)"
proof (cases l)
  case (FreeLine n a b c)
  have "newline \<notin> set (itoa k)" for k
    by (rule digit_not_in [OF itoa_digits]) (simp add: newline_def isDigit_def)
  then show ?thesis using FreeLine by (simp add: parted_text_def blanks_def newline_def)
next
  case (OtherLine n w r)
  moreover assume "line_ok l"
  ultimately show ?thesis using newline_space
    by (auto simp: parted_text_def line_ok_def solid_def blanks_def newline_def)
qed

lemma next_line_append: "newline \<notin> set p \<Longrightarrow> next_line (p @ newline # s) = s"
  by (simp add: next_line_def dropWhile_append)

definition listing :: "parted_line list \<Rightarrow> string" where
  "listing ls = concat (map (\<lambda>l. parted_text l @ [newline]) ls)"

lemma free_all_listing:
  "list_all line_ok ls \<Longrightarrow> length ls < n \<Longrightarrow> map free_block_of (free_all n (listing ls)) = free_of ls"
proof (induction ls arbitrary: n)
  case Nil
  then show ?case by (cases n) (simp_all add: listing_def free_of_def free_match_def many1_def)
next
  case (Cons l ls)
  obtain m where n: "n = Suc m" using Cons.prems(2) by (cases n) auto
  have shape: "listing (l # ls) = parted_text l @ newline # listing ls" by (simp add: listing_def)
  have ok: "line_ok l" and rest: "map free_block_of (free_all m (listing ls)) = free_of ls"
    using Cons by (simp_all add: n)
  show ?case
  proof (cases l)
    case (FreeLine k a b c)
    have "free_match (listing (l # ls)) = Some ((itoa a, itoa b, itoa c), newline # listing ls)"
      unfolding shape unfolding FreeLine by (rule free_match_free) simp
    moreover have "free_block_of (itoa a, itoa b, itoa c) = \<lparr>fb_Start = of_nat a, fb_End = of_nat b, fb_Size = of_nat c\<rparr>"
      using ok by (simp add: free_block_of_def FreeLine line_ok_def parseUint_itoa)
    ultimately show ?thesis
      using rest next_line_append [of "[]"] by (simp add: n FreeLine free_of_def)
  next
    case (OtherLine k w r)
    have "free_match (listing (l # ls)) = None"
      unfolding shape unfolding OtherLine by (rule free_match_other) (use ok OtherLine in simp_all)
    moreover have "newline \<in> set (listing (l # ls))" by (simp add: shape)
    moreover have "next_line (listing (l # ls)) = listing ls"
      unfolding shape by (rule next_line_append [OF parted_no_newline [OF ok]])
    ultimately show ?thesis using rest by (simp add: n OtherLine free_of_def)
  qed
qed

lemma length_listing: "length ls \<le> length (listing ls)"
  by (induction ls) (simp_all add: listing_def)

text \<open>
  In what \<^verbatim>\<open>parted\<close> prints, the places that are free are found, each with its numbers and in order, between lines that start with anything but
  a number of bytes.
\<close>

theorem free_space_read:
  assumes "list_all line_ok ls"
  shows "snd (parse_table (listing ls)) = free_of ls"
  using free_all_listing [OF assms, of "Suc (length (listing ls))"] length_listing [of ls] by (simp add: parse_table_def)

lemma free_space_read_witness:
  "snd (parse_table (listing [OtherLine 0 ''Number'' ''  Start'', FreeLine 8 17408 1048575 1031168, OtherLine 1 ''1'' '' 1048576B''])) =
   [\<lparr>fb_Start = 17408, fb_End = 1048575, fb_Size = 1031168\<rparr>]"
proof -
  have "solid ''Number''" "solid ''1''" by (simp_all add: solid_def goSpace_def)
  then show ?thesis
    using free_space_read [of "[OtherLine 0 ''Number'' ''  Start'', FreeLine 8 17408 1048575 1031168, OtherLine 1 ''1'' '' 1048576B'']"]
    by (simp add: line_ok_def newline_def isDigit_def free_of_def)
qed

section \<open>The listing\<close>

definition place_ok :: "disk_info_result \<Rightarrow> bool" where
  "place_ok r \<longleftrightarrow>
     (if lb_Type (dr_lsblk r) \<in> {''disk'', ''part''} then dr_End r + 1 = dr_Start r + dr_Size r \<and> dr_Free r \<noteq> None
      else dr_Start r = 0 \<and> dr_End r = 0 \<and> dr_Size r = 0 \<and> dr_Free r = None)"

lemma place_simps:
  "dr_lsblk (whole_disk lb sz bs tb) = lb" "dr_lsblk (partition_of lb start sz bs) = lb"
  "lb_Type lb = ''disk'' \<Longrightarrow> place_ok (whole_disk lb sz bs tb)"
  "lb_Type lb = ''part'' \<Longrightarrow> place_ok (partition_of lb start sz bs)"
  "lb_Type lb \<noteq> ''disk'' \<Longrightarrow> lb_Type lb \<noteq> ''part'' \<Longrightarrow>
     place_ok \<lparr>dr_lsblk = lb, dr_Start = 0, dr_End = 0, dr_Size = 0, dr_BlockSize = bs, dr_Table = [], dr_Free = None\<rparr>"
  by (simp_all add: place_ok_def whole_disk_def partition_of_def)

lemma list_disks_order:
  "list_disks h parent ds w = (Inr rs, w1) \<Longrightarrow> map dr_lsblk rs = ds \<and> list_all place_ok rs"
proof (induction ds arbitrary: parent w rs)
  case (Cons d ds)
  consider "lb_Type d = ''disk''" | "lb_Type d = ''part''" "lb_Type d \<noteq> ''disk''" | "lb_Type d \<noteq> ''disk''" "lb_Type d \<noteq> ''part''"
    by fastforce
  then show ?case
    by cases (use Cons in \<open>auto simp: eff_simps place_simps elim!: andThen_InrE\<close>)
qed (simp add: eff_simps)

text \<open>A command that lists the disks and succeeds reports every device \<^verbatim>\<open>lsblk\<close> names, in its order, each with consistent places.\<close>

theorem list_in_order:
  assumes "fst (run_system h [''lsblk'', ''--json'', ''--output-all'', ''--bytes'', ''--exclude'', ''1,2''] w) = Inr job"
    and "disk_list h w = (Inr v, w1)"
  shows "\<exists>rs. v = DiskInfoResults rs \<and> list_all place_ok rs \<and>
     (if job_out job = [] then rs = [] else Option.bind (dh_dec h (job_out job)) lsblkListResult = Some (map dr_lsblk rs))"
proof -
  from assms obtain w2 where r: "run_system h [''lsblk'', ''--json'', ''--output-all'', ''--bytes'', ''--exclude'', ''1,2''] w = (Inr job, w2)"
    by (metis prod.collapse)
  show ?thesis
  proof (cases "job_out job = []")
    case True
    then show ?thesis using assms(2) by (auto simp: disk_list_def andThen_Inr [where m = "run_system h _", OF r] eff_simps)
  next
    case False
    with assms(2) have "andThen (decoded (Option.bind (dh_dec h (job_out job)) lsblkListResult))
        (\<lambda>disks. andThen (list_disks h [] disks) (\<lambda>rs. ret (DiskInfoResults rs))) w2 = (Inr v, w1)"
      by (simp add: disk_list_def andThen_Inr [where m = "run_system h _", OF r])
    then show ?thesis using False
      by (auto simp: decoded_def eff_simps elim!: andThen_InrE dest: list_disks_order split: option.splits)
  qed
qed

section \<open>What smartctl prints\<close>

text \<open>A number with commas between groups of three digits.\<close>

definition three :: "nat \<Rightarrow> string" where
  "three n = [digitChar (n div 100), digitChar (n div 10 mod 10), digitChar (n mod 10)]"

fun commas :: "nat \<Rightarrow> string" where
  "commas n = (if n < 1000 then itoa n else commas (n div 1000) @ CHR '','' # three (n mod 1000))"

declare commas.simps [simp del]

lemma atoi_append: "atoi (s @ t) = foldl (\<lambda>n c. 10 * n + digitVal c) (atoi s) t"
  by (simp add: atoi_def)

lemma atoi_three:
  assumes "n < 1000"
  shows "atoi (s @ three n) = 1000 * atoi s + n"
proof -
  have "n div 100 = n div 10 div 10" using div_mult2_eq [of n 10 10] by simp
  moreover have "10 * (n div 10 div 10) + n div 10 mod 10 = n div 10" "10 * (n div 10) + n mod 10 = n"
    by (rule mult_div_mod_eq)+
  ultimately have "100 * (n div 100) + (10 * (n div 10 mod 10) + n mod 10) = n" by linarith
  moreover have "n div 100 < 10" using assms by simp
  ultimately show ?thesis by (simp add: atoi_append three_def digitVal_digitChar)
qed

lemma digits_no_comma: "list_all isDigit s \<Longrightarrow> filter (\<lambda>c. c \<noteq> CHR '','') s = s"
  by (auto simp: list_all_iff isDigit_def intro!: filter_True)

lemma three_digits: "n < 1000 \<Longrightarrow> list_all isDigit (three n)"
  by (simp add: three_def isDigit_digitChar)

lemma three_nonempty: "three n \<noteq> []"
  by (simp add: three_def)

lemma commas_read:
  "list_all isDigit (filter (\<lambda>c. c \<noteq> CHR '','') (commas n)) \<and> atoi (filter (\<lambda>c. c \<noteq> CHR '','') (commas n)) = n"
proof (induction n rule: commas.induct)
  case (1 n)
  show ?case
  proof (cases "n < 1000")
    case True
    then show ?thesis by (subst (1 2) commas.simps) (simp add: itoa_digits digits_no_comma)
  next
    case False
    with 1 show ?thesis
      by (subst (1 2) commas.simps) (simp add: three_digits digits_no_comma atoi_three)
  qed
qed

lemma commas_chars: "c \<in> set (commas n) \<Longrightarrow> isDigit c \<or> c = CHR '',''"
  using commas_read [of n] by (auto simp: list_all_iff)

lemma commas_nonempty: "commas n \<noteq> []"
  by (subst commas.simps) simp

lemma index_first: "sub \<noteq> [] \<Longrightarrow> hd sub \<notin> set p \<Longrightarrow> index (p @ sub @ r) sub = Some (length p)"
proof (induction p)
  case Nil
  then show ?case by (cases "sub @ r") (auto, metis append_Cons hasPrefix_append)
next
  case (Cons c p)
  then show ?case by (cases sub) auto
qed

lemma parseInt_digits:
  assumes "s \<noteq> []" "list_all isDigit s" "atoi s < 2 ^ 63"
  shows "parseInt 64 s = (int (atoi s), None)"
proof -
  have "isDigit (hd s)" using assms(1,2) by (cases s) auto
  then have "hd s \<noteq> CHR ''-''" "hd s \<noteq> CHR ''+''" by (auto simp: isDigit_def)
  then show ?thesis using assms by (simp add: parseInt_def Let_def)
qed

lemma trimSpace_after:
  assumes "w \<noteq> []" "hd w \<notin> set goSpace" "last w \<notin> set goSpace"
  shows "trimSpace (w @ '' '') = w"
proof -
  have "dropWhile (\<lambda>c. c \<in> set goSpace) (w @ '' '') = w @ '' ''" using assms(1,2) by (cases w) auto
  moreover have "dropWhile (\<lambda>c. c \<in> set goSpace) (rev w) = rev w" using assms(1,3) by (cases w rule: rev_cases) auto
  moreover have "CHR '' '' \<in> set goSpace" by (simp add: goSpace_def)
  ultimately show ?thesis by (simp add: trimSpace_def trim_def trimLeft_def trimRight_def)
qed

text \<open>
  The capacity of a drive is read with its commas whatever follows the word \<^verbatim>\<open>bytes\<close>, and the value of every line ends at its second colon.
\<close>

theorem capacity_read:
  assumes "n < 2 ^ 63"
  shows "smart_bytes (commas n @ '' bytes'' @ rest) = (int n, None)"
proof -
  let ?p = "commas n @ '' ''"
  have "CHR ''b'' \<notin> set ?p" using commas_chars [of "CHR ''b''" n] by (auto simp: isDigit_def)
  then have i: "index (?p @ ''bytes'' @ rest) ''bytes'' = Some (length ?p)" by (intro index_first) simp_all
  have dig: "isDigit c \<or> c = CHR '',''" if "c \<in> set (commas n)" for c using that by (rule commas_chars)
  have sp: "c \<notin> set goSpace" if "c \<in> set (commas n)" for c using dig [OF that] solid_digits [of c] by (auto simp: goSpace_def isDigit_def)
  have "trimSpace ?p = commas n"
    by (rule trimSpace_after) (simp_all add: commas_nonempty sp)
  moreover have "filter (\<lambda>c. c \<noteq> CHR '','') (commas n) \<noteq> []"
    by (subst commas.simps) (simp add: digits_no_comma itoa_digits three_digits three_nonempty)
  ultimately show ?thesis
    using i commas_read [of n] assms parseInt_digits [of "filter (\<lambda>c. c \<noteq> CHR '','') (commas n)"]
    by (simp add: smart_bytes_def)
qed

lemma capacity_read_witness: "smart_bytes ''240,057,409,536 bytes [240 GB]'' = (240057409536, None)"
proof -
  have "commas 240057409536 = ''240,057,409,536''"
    by (simp add: commas.simps three_def itoa.simps digitChar_def) code_simp
  then show ?thesis using capacity_read [of 240057409536 "'' [240 GB]''"] by simp
qed

theorem value_cut:
  assumes "CHR '':'' \<notin> set key" "CHR '':'' \<notin> set a"
  shows "smart_lines ((key @ '':'' @ a @ '':'' @ b) # lines) i =
         (case smart_line key (trimSpace a) i of (None, i1) \<Rightarrow> smart_lines lines i1 | (Some e, i1) \<Rightarrow> (Some e, i1))"
  using assms by (simp add: Let_def split_append_sep)

lemma sata_cut:
  "sm_SATAVersion (snd (parseSmartctlInfo ''SATA Version is:  SATA 3.0, 6.0 Gb/s (current: 6.0 Gb/s)'')) = ''SATA 3.0, 6.0 Gb/s (current''"
proof -
  have "split newline ''SATA Version is:  SATA 3.0, 6.0 Gb/s (current: 6.0 Gb/s)'' =
      [''SATA Version is'' @ '':'' @ ''  SATA 3.0, 6.0 Gb/s (current'' @ '':'' @ '' 6.0 Gb/s)'']"
    by (simp add: newline_def)
  moreover have "trimSpace ''  SATA 3.0, 6.0 Gb/s (current'' = ''SATA 3.0, 6.0 Gb/s (current''" by code_simp
  ultimately show ?thesis by (simp add: parseSmartctlInfo_def Let_def smart_line_def)
qed

end
