(* ===== verification/Ip_Commands.thy ===== *)
theory Ip_Commands
  imports Netlink Btrfs Bridges "HOL-Library.AList"
begin

text \<open>
  \<^verbatim>\<open>base/builtin/ip.go\<close>: the commands on links, bridges, addresses, routes and bonds.  The kernel, reached through netlink and
  the files of bonds, is a parameter; addresses are IPv4.
\<close>

section \<open>Data\<close>

record ip_link = link +
  il_Up :: bool
  il_MTU :: int

text \<open>The devices that the commands make.\<close>

datatype ip_new = NewBridge string | NewBond string int

record ip_route =
  rt_LinkIndex :: int
  rt_Dst :: "ipnet option"
  rt_Gw :: "ip4 option"

record 'w ip_host =
  ih_System :: "'w system_call"
  ih_ReadDir :: "string \<Rightarrow> 'w \<Rightarrow> go_error + string list"
  ih_ReadFile :: "string \<Rightarrow> 'w \<Rightarrow> go_error + string"
  ih_LinkByName :: "string \<Rightarrow> 'w \<Rightarrow> go_error + ip_link"
  ih_LinkList :: "'w \<Rightarrow> go_error + ip_link list"
  ih_LinkAdd :: "ip_new \<Rightarrow> 'w \<Rightarrow> go_error option \<times> 'w"
  ih_LinkDel :: "link_ref \<Rightarrow> 'w \<Rightarrow> go_error option \<times> 'w"
  ih_LinkSetMaster :: "link_ref \<Rightarrow> link_ref \<Rightarrow> 'w \<Rightarrow> go_error option \<times> 'w"
  ih_LinkSetNoMaster :: "link_ref \<Rightarrow> 'w \<Rightarrow> go_error option \<times> 'w"
  ih_LinkSetHardwareAddr :: "link_ref \<Rightarrow> nat list \<Rightarrow> 'w \<Rightarrow> go_error option \<times> 'w"
  ih_LinkSetUp :: "link_ref \<Rightarrow> 'w \<Rightarrow> go_error option \<times> 'w"
  ih_LinkSetDown :: "link_ref \<Rightarrow> 'w \<Rightarrow> go_error option \<times> 'w"
  ih_LinkSetName :: "link_ref \<Rightarrow> string \<Rightarrow> 'w \<Rightarrow> go_error option \<times> 'w"
  ih_LinkSetMTU :: "link_ref \<Rightarrow> int \<Rightarrow> 'w \<Rightarrow> go_error option \<times> 'w"
  ih_AddrAdd :: "link_ref \<Rightarrow> ipnet \<Rightarrow> 'w \<Rightarrow> go_error option \<times> 'w"
  ih_AddrDel :: "link_ref \<Rightarrow> ipnet \<Rightarrow> 'w \<Rightarrow> go_error option \<times> 'w"
  ih_AddrList :: "ip_link \<Rightarrow> 'w \<Rightarrow> go_error + ipnet list"
  ih_RouteAdd :: "ip_route \<Rightarrow> 'w \<Rightarrow> go_error option \<times> 'w"
  ih_RouteDel :: "ip_route \<Rightarrow> 'w \<Rightarrow> go_error option \<times> 'w"
  ih_RouteListFiltered :: "ip_route \<Rightarrow> bool \<Rightarrow> bool \<Rightarrow> 'w \<Rightarrow> go_error + ip_route list"
  ih_RouteList :: "'w \<Rightarrow> go_error + ip_route list"

type_synonym ('a, 'w) ieff = "(go_error, 'a, 'w) eff"

abbreviation lk_ref :: "ip_link \<Rightarrow> link_ref" where "lk_ref l \<equiv> ByIndex (lk_Index l)"

definition ip_arg :: "string \<Rightarrow> json \<Rightarrow> (string, 'w) ieff" where
  "ip_arg n cmd = (case string_arg n cmd of None \<Rightarrow> fail (Errorf ''json'') | Some s \<Rightarrow> ret s)"

definition ip_int_arg :: "string \<Rightarrow> json \<Rightarrow> (int, 'w) ieff" where
  "ip_int_arg n cmd = (case Option.bind (objectOf cmd) (field_int n) of None \<Rightarrow> fail (Errorf ''json'') | Some i \<Rightarrow> ret i)"

definition link_by_name :: "'w ip_host \<Rightarrow> string \<Rightarrow> (ip_link, 'w) ieff" where
  "link_by_name h n = ask (ih_LinkByName h n)"

section \<open>Bridges\<close>

definition brAdd :: "'w ip_host \<Rightarrow> json \<Rightarrow> (unit, 'w) ieff" where
  "brAdd h cmd =
     andThen (ip_arg ''name'' cmd) (\<lambda>name.
     andThen (ip_arg ''hwaddr'' cmd) (\<lambda>hwaddr.
     andThen (if hwaddr = [] then ret []
              else case ParseMAC hwaddr of None \<Rightarrow> fail (Errorf ''invalid MAC address'') | Some hw \<Rightarrow> ret hw) (\<lambda>hw.
     andThen (call (ih_LinkAdd h (NewBridge name))) (\<lambda>_.
     if hwaddr = [] then ret ()
     else attempt (call (ih_LinkSetHardwareAddr h (ByName name) hw)) (\<lambda>r.
       case r of
         Inr _ \<Rightarrow> ret ()
       | Inl e \<Rightarrow> andThen (ignore (call (ih_LinkDel h (ByName name)))) (\<lambda>_. fail e))))))"

definition bridge_by_name :: "'w ip_host \<Rightarrow> string \<Rightarrow> (ip_link, 'w) ieff" where
  "bridge_by_name h name =
     andThen (link_by_name h name) (\<lambda>l.
     if lk_Type l \<noteq> ''bridge'' then fail (Errorf (''no bridge with name '' @ name)) else ret l)"

definition brDel :: "'w ip_host \<Rightarrow> json \<Rightarrow> (unit, 'w) ieff" where
  "brDel h cmd =
     andThen (ip_arg ''name'' cmd) (\<lambda>name.
     andThen (bridge_by_name h name) (\<lambda>l. call (ih_LinkDel h (lk_ref l))))"

definition brAddInf :: "'w ip_host \<Rightarrow> json \<Rightarrow> (unit, 'w) ieff" where
  "brAddInf h cmd =
     andThen (ip_arg ''name'' cmd) (\<lambda>name.
     andThen (ip_arg ''inf'' cmd) (\<lambda>infName.
     andThen (bridge_by_name h name) (\<lambda>l.
     andThen (link_by_name h infName) (\<lambda>i. call (ih_LinkSetMaster h (lk_ref i) (lk_ref l))))))"

definition brDelInf :: "'w ip_host \<Rightarrow> json \<Rightarrow> (unit, 'w) ieff" where
  "brDelInf h cmd =
     andThen (ip_arg ''name'' cmd) (\<lambda>name.
     andThen (ip_arg ''inf'' cmd) (\<lambda>infName.
     andThen (bridge_by_name h name) (\<lambda>l.
     andThen (link_by_name h infName) (\<lambda>i.
     if lk_Master i \<noteq> lk_Index l then fail (Errorf ''interface is not connected to bridge'')
     else call (ih_LinkSetNoMaster h (lk_ref i))))))"

section \<open>Links\<close>

definition linkUp :: "'w ip_host \<Rightarrow> json \<Rightarrow> (unit, 'w) ieff" where
  "linkUp h cmd =
     andThen (ip_arg ''name'' cmd) (\<lambda>name.
     andThen (link_by_name h name) (\<lambda>l. call (ih_LinkSetUp h (lk_ref l))))"

definition linkDown :: "'w ip_host \<Rightarrow> json \<Rightarrow> (unit, 'w) ieff" where
  "linkDown h cmd =
     andThen (ip_arg ''name'' cmd) (\<lambda>name.
     andThen (link_by_name h name) (\<lambda>l. call (ih_LinkSetDown h (lk_ref l))))"

definition linkName :: "'w ip_host \<Rightarrow> json \<Rightarrow> (unit, 'w) ieff" where
  "linkName h cmd =
     andThen (ip_arg ''name'' cmd) (\<lambda>name.
     andThen (ip_arg ''new'' cmd) (\<lambda>new.
     andThen (link_by_name h name) (\<lambda>l. call (ih_LinkSetName h (lk_ref l) new))))"

definition linkMTU :: "'w ip_host \<Rightarrow> json \<Rightarrow> (unit, 'w) ieff" where
  "linkMTU h cmd =
     andThen (wrapErr (\<lambda>e. BadRequestError (err_Text e)) (andThen (ip_arg ''name'' cmd) (\<lambda>name. andThen (ip_int_arg ''mtu'' cmd) (\<lambda>mtu. ret (name, mtu)))))
       (\<lambda>(name, mtu).
     andThen (wrapErr (\<lambda>e. NotFoundError (err_Text e)) (link_by_name h name)) (\<lambda>l. call (ih_LinkSetMTU h (lk_ref l) mtu)))"

record ip_link_info =
  li_Name :: string
  li_Type :: string
  li_HwAddr :: string
  li_Master :: string
  li_Up :: bool
  li_MTU :: int

text \<open>The loop that looks for the master does not stop at the first one.\<close>

definition master_name :: "ip_link list \<Rightarrow> ip_link \<Rightarrow> string" where
  "master_name links l =
     (if lk_Master l = 0 then []
      else fold (\<lambda>k master. if lk_Master l = lk_Index k then lk_Name k else master) links [])"

definition link_info :: "ip_link list \<Rightarrow> ip_link \<Rightarrow> ip_link_info" where
  "link_info links l =
     \<lparr>li_Name = lk_Name l, li_Type = lk_Type l, li_HwAddr = hw_String (lk_HW l), li_Master = master_name links l,
      li_Up = il_Up l, li_MTU = il_MTU l\<rparr>"

definition linkList :: "'w ip_host \<Rightarrow> (ip_link_info list, 'w) ieff" where
  "linkList h = andThen (ask (ih_LinkList h)) (\<lambda>links. ret (map (link_info links) links))"

section \<open>Addresses\<close>

definition on_address :: "('w ip_host \<Rightarrow> link_ref \<Rightarrow> ipnet \<Rightarrow> 'w \<Rightarrow> go_error option \<times> 'w) \<Rightarrow> 'w ip_host \<Rightarrow> json \<Rightarrow> (unit, 'w) ieff" where
  "on_address act h cmd =
     andThen (ip_arg ''name'' cmd) (\<lambda>name.
     andThen (ip_arg ''ip'' cmd) (\<lambda>ip.
     andThen (link_by_name h name) (\<lambda>l.
     case ParseAddr ip of
       None \<Rightarrow> fail (Errorf ''invalid CIDR address'')
     | Some addr \<Rightarrow> call (act h (lk_ref l) addr))))"

definition addrAdd :: "'w ip_host \<Rightarrow> json \<Rightarrow> (unit, 'w) ieff" where "addrAdd = on_address ih_AddrAdd"
definition addrDel :: "'w ip_host \<Rightarrow> json \<Rightarrow> (unit, 'w) ieff" where "addrDel = on_address ih_AddrDel"

definition addrList :: "'w ip_host \<Rightarrow> json \<Rightarrow> (string list, 'w) ieff" where
  "addrList h cmd =
     andThen (ip_arg ''name'' cmd) (\<lambda>name.
     andThen (link_by_name h name) (\<lambda>l.
     andThen (ask (ih_AddrList h l)) (\<lambda>addrs. ret (map IPNet_String addrs))))"

section \<open>Routes\<close>

record route_info =
  ri_Dev :: string
  ri_Dst :: string
  ri_Gw :: string

definition route_args :: "json \<Rightarrow> (route_info, 'w) ieff" where
  "route_args cmd =
     andThen (ip_arg ''dev'' cmd) (\<lambda>dev.
     andThen (ip_arg ''dst'' cmd) (\<lambda>dst.
     andThen (ip_arg ''gw'' cmd) (\<lambda>gw. ret \<lparr>ri_Dev = dev, ri_Dst = dst, ri_Gw = gw\<rparr>)))"

definition route :: "'w ip_host \<Rightarrow> route_info \<Rightarrow> (ip_route, 'w) ieff" where
  "route h r =
     andThen (link_by_name h (ri_Dev r)) (\<lambda>l.
     andThen (if ri_Dst r = [] then ret None
              else case ParseAddr (ri_Dst r) of None \<Rightarrow> fail (Errorf ''invalid CIDR address'') | Some d \<Rightarrow> ret (Some d)) (\<lambda>dst.
     andThen (if ri_Gw r = [] then ret None
              else case parseIPv4 (ri_Gw r) of None \<Rightarrow> fail (Errorf (''invalid gw ip '' @ ri_Gw r)) | Some g \<Rightarrow> ret (Some g)) (\<lambda>gw.
     ret \<lparr>rt_LinkIndex = lk_Index l, rt_Dst = dst, rt_Gw = gw\<rparr>)))"

definition routeAdd :: "'w ip_host \<Rightarrow> json \<Rightarrow> (unit, 'w) ieff" where
  "routeAdd h cmd =
     andThen (route_args cmd) (\<lambda>args.
     andThen (route h args) (\<lambda>r. call (ih_RouteAdd h r)))"

definition routeDel :: "'w ip_host \<Rightarrow> json \<Rightarrow> (unit, 'w) ieff" where
  "routeDel h cmd =
     andThen (route_args cmd) (\<lambda>args.
     andThen (route h args) (\<lambda>r.
     andThen (ask (ih_RouteListFiltered h r (rt_Dst r \<noteq> None) (rt_Gw r \<noteq> None))) (\<lambda>routes.
     case routes of
       [] \<Rightarrow> fail (Errorf ''route not found'')
     | [r1] \<Rightarrow> call (ih_RouteDel h r1)
     | _ \<Rightarrow> fail (Errorf ''ambiguous route matches multiple routes''))))"

definition route_info_of :: "ip_link list \<Rightarrow> ip_route \<Rightarrow> route_info" where
  "route_info_of links r =
     \<lparr>ri_Dev = (case find (\<lambda>l. rt_LinkIndex r = lk_Index l) links of None \<Rightarrow> [] | Some l \<Rightarrow> lk_Name l),
      ri_Dst = (case rt_Dst r of None \<Rightarrow> [] | Some d \<Rightarrow> IPNet_String d),
      ri_Gw = (case rt_Gw r of None \<Rightarrow> [] | Some g \<Rightarrow> IP_String g)\<rparr>"

definition routeList :: "'w ip_host \<Rightarrow> (route_info list, 'w) ieff" where
  "routeList h =
     andThen (ask (ih_RouteList h)) (\<lambda>routes.
     andThen (ask (ih_LinkList h)) (\<lambda>links. ret (map (route_info_of links) routes)))"

section \<open>Bonds\<close>

text \<open>The manager remembers that it has loaded the module; the rest of the state is the kernel's.\<close>

type_synonym ('a, 'w) bond_eff = "(go_error, 'a, bool \<times> 'w) eff"

definition onKernel :: "('e, 'a, 'w) eff \<Rightarrow> ('e, 'a, bool \<times> 'w) eff" where
  "onKernel m s = (case m (snd s) of (r, w) \<Rightarrow> (r, (fst s, w)))"

definition loadBonding :: "'w ip_host \<Rightarrow> 'w \<Rightarrow> 'w" where
  "loadBonding h w =
     (let w1 = snd (ih_System h [''modprobe'', ''bonding''] w)
      in case ih_LinkByName h ''bond0'' w1 of
           Inl _ \<Rightarrow> w1
         | Inr l \<Rightarrow> snd (ih_LinkDel h (lk_ref l) w1))"

definition initBonding :: "'w ip_host \<Rightarrow> (unit, 'w) bond_eff" where
  "initBonding h s = (Inr (), if fst s then s else (True, loadBonding h (snd s)))"

type_synonym bond_section = "(string \<times> string) list"

text \<open>A section is a map, in the order its keys came.  A blank line ends a section; a line without a colon is skipped, a value keeps the blanks before it.\<close>

fun bond_lines :: "string list \<Rightarrow> bond_section \<Rightarrow> bond_section list \<Rightarrow> bond_section list" where
  "bond_lines [] m l = (if m \<noteq> [] then l @ [m] else l)"
| "bond_lines (line0 # lines) m l =
     (let line = trimSpace line0 in
      if line = [] then bond_lines lines [] (l @ [m])
      else case splitN2 (CHR '':'') line of
             [k, v] \<Rightarrow> bond_lines lines (AList.update k v m) l
           | _ \<Rightarrow> bond_lines lines m l)"

definition parseBond :: "string \<Rightarrow> bond_section list" where
  "parseBond c = bond_lines (split newline c) [] []"

definition bondingBaseDir :: string where "bondingBaseDir = ''/proc/net/bonding/''"

fun bond_files :: "'w ip_host \<Rightarrow> string list \<Rightarrow> (string \<rightharpoonup> bond_section list) \<Rightarrow> (string \<rightharpoonup> bond_section list, 'w) ieff" where
  "bond_files h [] bonds = ret bonds"
| "bond_files h (n # ns) bonds =
     andThen (wrapErr (\<lambda>e. InternalError (err_Text e)) (ask (ih_ReadFile h (path_join [bondingBaseDir, n])))) (\<lambda>bytes.
     bond_files h ns (bonds(n \<mapsto> parseBond bytes)))"

definition bondList :: "'w ip_host \<Rightarrow> (string \<rightharpoonup> bond_section list, 'w) bond_eff" where
  "bondList h =
     andThen (initBonding h) (\<lambda>_.
     onKernel (andThen (ask (ih_ReadDir h bondingBaseDir)) (\<lambda>files. bond_files h files Map.empty)))"

definition bondDel :: "'w ip_host \<Rightarrow> json \<Rightarrow> (unit, 'w) ieff" where
  "bondDel h cmd =
     andThen (ip_arg ''bond'' cmd) (\<lambda>bond.
     andThen (link_by_name h bond) (\<lambda>l. call (ih_LinkDel h (lk_ref l))))"

definition bond_slave :: "'w ip_host \<Rightarrow> int \<Rightarrow> string \<Rightarrow> (unit, 'w) ieff" where
  "bond_slave h mtu infName =
     andThen (wrapErr (\<lambda>e. NotFoundError (''interface '' @ infName @ '': '' @ err_Text e)) (link_by_name h infName)) (\<lambda>slave.
     andThen (call (ih_LinkSetMTU h (lk_ref slave) mtu)) (\<lambda>_.
     call (ih_LinkSetUp h (lk_ref slave))))"

definition interfaces_arg :: "json \<Rightarrow> (string list, 'w) ieff" where
  "interfaces_arg cmd =
     (case Option.bind (objectOf cmd) (field_array elem_string ''interfaces'') of None \<Rightarrow> fail (Errorf ''json'') | Some is \<Rightarrow> ret is)"

definition run_ifenslave :: "'w ip_host \<Rightarrow> string list \<Rightarrow> (unit, 'w) ieff" where
  "run_ifenslave h args = call (\<lambda>w. case ih_System h (''ifenslave'' # args) w of (r, w1) \<Rightarrow> (result_err r, w1))"

definition bondAdd :: "'w ip_host \<Rightarrow> json \<Rightarrow> (unit, 'w) bond_eff" where
  "bondAdd h cmd =
     andThen (initBonding h) (\<lambda>_. onKernel (
     andThen (ip_arg ''bond'' cmd) (\<lambda>bond.
     andThen (interfaces_arg cmd) (\<lambda>infs.
     andThen (ip_int_arg ''mtu'' cmd) (\<lambda>mtu0.
     let mtu = (if mtu0 = 0 then 1500 else mtu0) in
     andThen (forEach (bond_slave h mtu) infs) (\<lambda>_.
     andThen (call (ih_LinkAdd h (NewBond bond mtu))) (\<lambda>_.
     andThen (call (ih_LinkSetUp h (ByName bond))) (\<lambda>_.
     run_ifenslave h (bond # infs)))))))))"

section \<open>What a bridge, a route and a bond leave\<close>

text \<open>
  What the properties need of the kernel, for the names of its devices: a device that is added or deleted changes the names by its own, a call that fails
  changes none, and the other calls change none.
\<close>

definition names_kept :: "('w \<Rightarrow> string set) \<Rightarrow> ('w \<Rightarrow> go_error option \<times> 'w) \<Rightarrow> bool" where
  "names_kept names f \<longleftrightarrow> (\<forall>w. names (snd (f w)) = names w)"

definition link_names :: "('w \<Rightarrow> string set) \<Rightarrow> 'w ip_host \<Rightarrow> bool" where
  "link_names names h \<longleftrightarrow>
     (\<forall>n w. case ih_LinkAdd h (NewBridge n) w of
              (None, w1) \<Rightarrow> n \<notin> names w \<and> names w1 = insert n (names w)
            | (Some e, w1) \<Rightarrow> names w1 = names w) \<and>
     (\<forall>n w. n \<in> names w \<longrightarrow> names (snd (ih_LinkDel h (ByName n) w)) = names w - {n}) \<and>
     (\<forall>r hw. names_kept names (ih_LinkSetHardwareAddr h r hw))"

lemma link_added:
  assumes "link_names names h" "ih_LinkAdd h (NewBridge n) w = (r, w1)"
  shows "if r = None then n \<notin> names w \<and> names w1 = insert n (names w) else names w1 = names w"
proof -
  have "case ih_LinkAdd h (NewBridge n) w of (None, w1) \<Rightarrow> n \<notin> names w \<and> names w1 = insert n (names w) | (Some e, w1) \<Rightarrow> names w1 = names w"
    using assms(1) unfolding link_names_def by (elim conjE) (erule allE [where x = n], erule allE [where x = w], assumption)
  then show ?thesis by (cases r) (simp_all add: assms(2))
qed

lemma hw_set:
  assumes "link_names names h" "ih_LinkSetHardwareAddr h r hw w = (x, w1)"
  shows "names w1 = names w"
proof -
  have "names (snd (ih_LinkSetHardwareAddr h r hw w)) = names w"
    using assms(1) by (simp add: link_names_def names_kept_def)
  then show ?thesis using assms(2) by simp
qed

lemma link_deleted:
  "link_names names h \<Longrightarrow> n \<in> names w \<Longrightarrow> names (snd (ih_LinkDel h (ByName n) w)) = names w - {n}"
  by (simp add: link_names_def)

text \<open>
  Adding a bridge is all or nothing: with an error the node has the devices it had, also when the hardware address could not be set; without one it has one
  device more, with the name that was asked for and that no device had.
\<close>

theorem bridge_add_whole:
  assumes "link_names names h" "brAdd h cmd w = (r, w1)"
  shows "case r of
           Inl e \<Rightarrow> names w1 = names w
         | Inr _ \<Rightarrow> \<exists>n. string_arg ''name'' cmd = Some n \<and> n \<notin> names w \<and> names w1 = insert n (names w)"
proof (cases "string_arg ''name'' cmd")
  case None
  then show ?thesis using assms(2) by (auto simp: brAdd_def ip_arg_def eff_simps)
next
  case (Some n)
  show ?thesis
  proof (cases "string_arg ''hwaddr'' cmd")
    case None
    then show ?thesis using assms(2) Some by (auto simp: brAdd_def ip_arg_def eff_simps)
  next
    case hw: (Some a)
    obtain x wa where add: "ih_LinkAdd h (NewBridge n) w = (x, wa)" by (rule prod.exhaust)
    note added = link_added [OF assms(1) add]
    show ?thesis
    proof (cases "a = [] \<or> x \<noteq> None \<or> ParseMAC a = None")
      case True
      then show ?thesis using assms(2) Some hw added add
        by (auto simp: brAdd_def ip_arg_def eff_simps andThen_def call_def split: option.splits if_splits)
    next
      case False
      then obtain m where m: "a \<noteq> []" "x = None" "ParseMAC a = Some m" by auto
      obtain y wb where set: "ih_LinkSetHardwareAddr h (ByName n) m wa = (y, wb)" by (rule prod.exhaust)
      have kept: "names wb = insert n (names w)" "n \<notin> names w" using hw_set [OF assms(1) set] added m(2) by simp_all
      have del: "names (snd (ih_LinkDel h (ByName n) wb)) = names w"
        using link_deleted [OF assms(1), of n wb] kept by simp
      show ?thesis
      proof (cases y)
        case None
        then show ?thesis using assms(2) Some hw m add set kept
          by (auto simp: brAdd_def ip_arg_def eff_simps andThen_def call_def attempt_def)
      next
        case (Some e)
        then show ?thesis using assms(2) \<open>string_arg ''name'' cmd = Some n\<close> hw m add set del
          by (auto simp: brAdd_def ip_arg_def eff_simps andThen_def call_def attempt_def split: option.splits prod.splits)
      qed
    qed
  qed
qed

text \<open>A node that only has names of devices; a hardware address can be set when \<open>ok\<close> says so.\<close>

definition ipHost :: "bool \<Rightarrow> string list ip_host" where
  "ipHost ok =
     \<lparr>ih_System = \<lambda>args w. (NotRun (Errorf ''none''), w), ih_ReadDir = \<lambda>p w. Inl (Errorf ''none''), ih_ReadFile = \<lambda>p w. Inl (Errorf ''none''),
      ih_LinkByName = \<lambda>n w. Inl (Errorf ''none''), ih_LinkList = \<lambda>w. Inr [],
      ih_LinkAdd = \<lambda>d w. case d of NewBridge n \<Rightarrow> (if n \<in> set w then (Some (Errorf ''file exists''), w) else (None, n # w)) | _ \<Rightarrow> (None, w),
      ih_LinkDel = \<lambda>r w. case r of ByName n \<Rightarrow> (None, filter (\<lambda>k. k \<noteq> n) w) | _ \<Rightarrow> (None, w),
      ih_LinkSetMaster = \<lambda>r s w. (None, w), ih_LinkSetNoMaster = \<lambda>r w. (None, w),
      ih_LinkSetHardwareAddr = \<lambda>r a w. (if ok then None else Some (Errorf ''not supported''), w),
      ih_LinkSetUp = \<lambda>r w. (None, w), ih_LinkSetDown = \<lambda>r w. (None, w), ih_LinkSetName = \<lambda>r n w. (None, w),
      ih_LinkSetMTU = \<lambda>r n w. (None, w), ih_AddrAdd = \<lambda>r a w. (None, w), ih_AddrDel = \<lambda>r a w. (None, w), ih_AddrList = \<lambda>l w. Inr [],
      ih_RouteAdd = \<lambda>r w. (None, w), ih_RouteDel = \<lambda>r w. (None, w), ih_RouteListFiltered = \<lambda>r d g w. Inr [], ih_RouteList = \<lambda>w. Inr []\<rparr>"

lemma ipHost_names: "link_names set (ipHost ok)"
  by (auto simp: link_names_def names_kept_def ipHost_def)

definition addBridge :: json where
  "addBridge = JObj [(''name'', JStr ''br1''), (''hwaddr'', JStr ''52:54:00:00:00:01'')]"

lemma addBridge_args: "string_arg ''name'' addBridge = Some ''br1''" "string_arg ''hwaddr'' addBridge = Some ''52:54:00:00:00:01''"
  by (simp_all add: addBridge_def string_arg_def field_string_def lower_def)

lemma addBridge_mac: "ParseMAC ''52:54:00:00:00:01'' \<noteq> None"
  by code_simp

lemma addBridge_fails: "\<exists>e w. brAdd (ipHost False) addBridge [''eth0''] = (Inl e, w)"
  using addBridge_mac
  by (auto simp: brAdd_def ip_arg_def addBridge_args eff_simps andThen_def call_def attempt_def ipHost_def)

lemma bridge_add_whole_witness: "\<exists>e w. brAdd (ipHost False) addBridge [''eth0''] = (Inl e, w) \<and> set w = {''eth0''}"
proof -
  obtain e w where r: "brAdd (ipHost False) addBridge [''eth0''] = (Inl e, w)" using addBridge_fails by blast
  from bridge_add_whole [OF ipHost_names r] r show ?thesis by auto
qed

text \<open>A route is deleted only when exactly one route of the kernel matches, and it is that one; else nothing changes.\<close>

theorem route_deleted:
  assumes "routeDel h cmd w = (r, w1)"
  shows "(w1 = w \<and> (\<exists>e. r = Inl e)) \<or>
     (\<exists>args q r1. route_args cmd w = (Inr args, w) \<and> route h args w = (Inr q, w) \<and>
        ih_RouteListFiltered h q (rt_Dst q \<noteq> None) (rt_Gw q \<noteq> None) w = Inr [r1] \<and> call (ih_RouteDel h r1) w = (r, w1))"
proof -
  have a: "snd (route_args cmd v) = v" for v :: 'a
    by (auto simp: route_args_def ip_arg_def andThen_def eff_simps split: option.splits)
  have q: "snd (route h args v) = v" for args v
    by (auto simp: route_def link_by_name_def andThen_def eff_simps split: option.splits sum.splits prod.splits if_splits)
  obtain x where x: "route_args cmd w = (x, w)" using a [of w] by (metis prod.collapse)
  show ?thesis
  proof (cases x)
    case (Inl e)
    then show ?thesis using assms by (auto simp: routeDel_def andThen_def x)
  next
    case (Inr args)
    obtain y where y: "route h args w = (y, w)" using q [of args w] by (metis prod.collapse)
    show ?thesis
    proof (cases y)
      case (Inl e)
      then show ?thesis using assms Inr by (auto simp: routeDel_def andThen_def x y)
    next
      case (Inr q)
      note xy = x y \<open>x = Inr args\<close> Inr
      show ?thesis
      proof (cases "ih_RouteListFiltered h q (rt_Dst q \<noteq> None) (rt_Gw q \<noteq> None) w")
        case (Inl e)
        then show ?thesis using assms by (auto simp: routeDel_def andThen_def xy eff_simps)
      next
        case (Inr routes)
        then show ?thesis using assms
          by (cases routes; cases "tl routes") (auto simp: routeDel_def andThen_def xy eff_simps split: list.splits)
      qed
    qed
  qed
qed

text \<open>The master of a link in the list is the name of the device with that index.\<close>

lemma fold_keep: "\<forall>k \<in> set ks. lk_Master l \<noteq> lk_Index k \<Longrightarrow> fold (\<lambda>k m. if lk_Master l = lk_Index k then lk_Name k else m) ks m = m"
  by (induction ks) simp_all

theorem master_listed:
  assumes "distinct (map lk_Index links)" "lk_Master l \<noteq> 0"
  shows "li_Master (link_info links l) =
     (case find (\<lambda>k. lk_Index k = lk_Master l) links of None \<Rightarrow> [] | Some k \<Rightarrow> lk_Name k)"
proof -
  have "fold (\<lambda>k m. if lk_Master l = lk_Index k then lk_Name k else m) links m =
      (case find (\<lambda>k. lk_Index k = lk_Master l) links of None \<Rightarrow> m | Some k \<Rightarrow> lk_Name k)" for m
    using assms(1)
  proof (induction links arbitrary: m)
    case (Cons k ks)
    show ?case
    proof (cases "lk_Index k = lk_Master l")
      case True
      then have "\<forall>j \<in> set ks. lk_Master l \<noteq> lk_Index j" using Cons.prems by auto
      then show ?thesis using True fold_keep [of ks l] by simp
    next
      case False
      then show ?thesis using Cons by simp
    qed
  qed simp
  then show ?thesis using assms(2) by (simp add: link_info_def master_name_def)
qed

section \<open>The files of bonds\<close>

definition bond_entry_ok :: "string \<times> string \<Rightarrow> bool" where
  "bond_entry_ok kv \<longleftrightarrow> (case kv of (k, v) \<Rightarrow>
     k \<noteq> [] \<and> hd k \<notin> set goSpace \<and> CHR '':'' \<notin> set k \<and> newline \<notin> set k \<and> newline \<notin> set v \<and> v \<noteq> [] \<and> last v \<notin> set goSpace)"

definition bond_line :: "string \<times> string \<Rightarrow> string" where
  "bond_line kv = fst kv @ '':'' @ snd kv"

definition bond_text :: "(string \<times> string) list list \<Rightarrow> string" where
  "bond_text ss = join [newline] (concat (map (\<lambda>s. map bond_line s @ [[]]) ss))"

lemma bond_line_facts:
  assumes "bond_entry_ok kv"
  shows "trimSpace (bond_line kv) = bond_line kv" "bond_line kv \<noteq> []" "splitN2 (CHR '':'') (bond_line kv) = [fst kv, snd kv]"
    "newline \<notin> set (bond_line kv)"
proof -
  obtain k v where kv: "kv = (k, v)" by (rule prod.exhaust)
  show "bond_line kv \<noteq> []" by (simp add: bond_line_def)
  show "trimSpace (bond_line kv) = bond_line kv"
    using assms trimSpace_solid [of "bond_line kv" "[]"] by (auto simp: kv bond_line_def bond_entry_ok_def)
  show "splitN2 (CHR '':'') (bond_line kv) = [fst kv, snd kv]"
    using assms splitN2_sep [of "CHR '':''" k v] by (simp add: kv bond_line_def bond_entry_ok_def)
  show "newline \<notin> set (bond_line kv)"
    using assms by (simp add: kv bond_line_def bond_entry_ok_def) (simp add: newline_def)
qed

lemma bond_lines_section:
  "list_all bond_entry_ok s \<Longrightarrow> distinct (map fst (m @ s)) \<Longrightarrow>
     bond_lines (map bond_line s @ [] # rest) m l = bond_lines rest [] (l @ [m @ s])"
proof (induction s arbitrary: m)
  case Nil
  then show ?case by (simp add: trimSpace_def trim_def trimLeft_def trimRight_def)
next
  case (Cons kv s)
  obtain k v where kv: "kv = (k, v)" by (rule prod.exhaust)
  have new: "k \<notin> fst ` set m" using Cons.prems(2) by (auto simp: kv)
  have "AList.update k v m = m @ [(k, v)]" using new by (induction m) auto
  then show ?case
    using Cons.prems Cons.IH [of "m @ [(k, v)]"] bond_line_facts [of kv] by (simp add: kv Let_def)
qed

lemma bond_lines_sections:
  "list_all (\<lambda>s. list_all bond_entry_ok s \<and> distinct (map fst s)) ss \<Longrightarrow>
     bond_lines (concat (map (\<lambda>s. map bond_line s @ [[]]) ss)) [] l = l @ ss"
proof (induction ss arbitrary: l)
  case (Cons s ss)
  then show ?case using bond_lines_section [of s "[]"] by simp
qed simp

text \<open>The sections of a file of a bond are read back, each with its keys in order and the values as they are, blanks included.\<close>

theorem bond_sections_read:
  assumes "ss \<noteq> []" "list_all (\<lambda>s. list_all bond_entry_ok s \<and> distinct (map fst s)) ss"
  shows "parseBond (bond_text ss) = ss"
proof -
  have "split newline (bond_text ss) = concat (map (\<lambda>s. map bond_line s @ [[]]) ss)"
    unfolding bond_text_def
    by (rule split_join) (use assms bond_line_facts(4) in \<open>auto simp: list_all_iff neq_Nil_conv\<close>)
  then show ?thesis using bond_lines_sections [OF assms(2), of "[]"] by (simp add: parseBond_def)
qed

lemma bond_sections_read_witness:
  "parseBond (bond_text [[(''Bonding Mode'', '' load balancing'')], [(''Slave Interface'', '' eth0''), (''MII Status'', '' up'')]]) =
   [[(''Bonding Mode'', '' load balancing'')], [(''Slave Interface'', '' eth0''), (''MII Status'', '' up'')]]"
  by (rule bond_sections_read) (simp_all add: bond_entry_ok_def goSpace_def newline_def)

end
