(* ===== verification/Dmi.thy ===== *)
theory Dmi
  imports Btrfs "HOL-Library.AList"
begin

text \<open>
  \<^verbatim>\<open>apps/core0/builtin/dmi.go\<close>: the command \<^verbatim>\<open>info.dmi\<close> and the parser of what the program \<^verbatim>\<open>dmidecode\<close> prints.  A position in the
  list of lines is the list of the lines from there on.
\<close>

section \<open>Data\<close>

record property_data =
  pd_Val :: string
  pd_Items :: "string list"

record dmi_subsection =
  ss_Title :: string
  ss_Properties :: "(string \<times> property_data) list"

record dmi_section =
  ds_HandleLine :: string
  ds_TypeStr :: string
  ds_Type :: int
  ds_SubSections :: "dmi_subsection list"

record dmi_tooling =
  dt_Aggregator :: string
  dt_Decoder :: string

record dmi =
  dmi_Tooling :: dmi_tooling
  dmi_Sections :: "dmi_section list"

definition DMIDecoderVersion :: string where "DMIDecoderVersion = ''0-core Go dmi decoder v0.2.0''"

text \<open>The names of the types from 0 on.\<close>

definition dmitypes :: "string list" where
  "dmitypes =
     [''BIOS'', ''System'', ''Baseboard'', ''Chassis'', ''Processor'', ''MemoryController'', ''MemoryModule'', ''Cache'',
      ''PortConnector'', ''SystemSlots'', ''OnBoardDevices'', ''OEMSettings'', ''SystemConfigurationOptions'', ''BIOSLanguage'',
      ''GroupAssociations'', ''SystemEventLog'', ''PhysicalMemoryArray'', ''MemoryDevice'', ''32BitMemoryError'',
      ''MemoryArrayMappedAddress'', ''MemoryDeviceMappedAddress'', ''BuiltinPointingDevice'', ''PortableBattery'', ''SystemReset'',
      ''HardwareSecurity'', ''SystemPowerControls'', ''VoltageProbe'', ''CoolingDevice'', ''TempratureProbe'',
      ''ElectricalCurrentProbe'', ''OutOfBandRemoteAccess'', ''BootIntegrityServices'', ''SystemBoot'', ''64BitMemoryError'',
      ''ManagementDevice'', ''ManagementDeviceComponent'', ''ManagementThresholdData'', ''MemoryChannel'', ''IPMIDevice'',
      ''PowerSupply'', ''AdditionalInformation'', ''OnboardDeviceExtendedInformation'', ''ManagementControllerHostInterface'']"

definition DMITypeToString :: "int \<Rightarrow> string" where
  "DMITypeToString t = (if 0 \<le> t \<and> t < 43 then dmitypes ! nat t else ''Custom Type '' @ itoaInt t)"

definition dmiKeywords :: "string list" where
  "dmiKeywords = [''bios'', ''system'', ''baseboard'', ''chassis'', ''processor'', ''memory'', ''cache'', ''connector'', ''slot'']"

section \<open>The arguments\<close>

text \<open>
  A type is a number or a keyword; what \<^verbatim>\<open>float64\<close> does with a number that is not an integer literal is given by \<open>trunc\<close> and \<open>print\<close>.
\<close>

definition dmi_type_arg :: "(string \<Rightarrow> int) \<Rightarrow> (string \<Rightarrow> string) \<Rightarrow> json \<Rightarrow> go_error + string" where
  "dmi_type_arg trunc print arg =
     (let number = (\<lambda>n s. if n < 0 \<or> n > 42 then Inl (BadRequestError (''type out of range: '' @ itoaInt n)) else Inr s)
      in case arg of
           JNum n \<Rightarrow> number n (sprint_float n)
         | JReal r \<Rightarrow> number (trunc r) (print r)
         | JStr s \<Rightarrow> if s \<notin> set dmiKeywords then Inl (Errorf (''invalid keyword '' @ s)) else Inr s
         | _ \<Rightarrow> Inl (BadRequestError ''invalid type''))"

fun dmi_cmdargs :: "(string \<Rightarrow> int) \<Rightarrow> (string \<Rightarrow> string) \<Rightarrow> json list \<Rightarrow> go_error + string list" where
  "dmi_cmdargs trunc print [] = Inr []"
| "dmi_cmdargs trunc print (a # as) =
     (case dmi_type_arg trunc print a of
        Inl e \<Rightarrow> Inl e
      | Inr s \<Rightarrow> (case dmi_cmdargs trunc print as of Inl e \<Rightarrow> Inl e | Inr r \<Rightarrow> Inr ([''-t'', s] @ r)))"

section \<open>Lines\<close>

text \<open>\<^verbatim>\<open>dmiTypeRegex\<close>: the first place where the words are followed by a digit.\<close>

fun dmi_type_match :: "string \<Rightarrow> string option" where
  "dmi_type_match [] = None"
| "dmi_type_match (c # s) =
     (case Option.bind (strip ''DMI type '' (c # s)) (many1 isDigit) of
        Some (d, _) \<Rightarrow> Some d
      | None \<Rightarrow> dmi_type_match s)"

definition getDMITypeFromHandleLine :: "string \<Rightarrow> go_error + int" where
  "getDMITypeFromHandleLine line =
     (case dmi_type_match line of
        None \<Rightarrow> Inl (Errorf (''couldn't find dmitype in handleline '' @ line))
      | Some d \<Rightarrow> (case parseInt 64 d of (n, None) \<Rightarrow> Inr n | (n, Some e) \<Rightarrow> Inl (Errorf ''Atoi'')))"

text \<open>The place of the first character that is not white space; 0 when there is none.\<close>

definition getLineLevel :: "string \<Rightarrow> nat" where
  "getLineLevel line =
     (if list_all (\<lambda>c. c \<in> set goSpace) line then 0 else length (takeWhile (\<lambda>c. c \<in> set goSpace) line))"

text \<open>\<^verbatim>\<open>kvRegex\<close>: the key ends at the first colon that is not the first character.\<close>

definition kv_match :: "string \<Rightarrow> (string \<times> string) option" where
  "kv_match line =
     (case line of
        [] \<Rightarrow> None
      | c # r \<Rightarrow>
          if CHR '':'' \<in> set r then Some (c # takeWhile (\<lambda>x. x \<noteq> CHR '':'') r, tl (dropWhile (\<lambda>x. x \<noteq> CHR '':'') r)) else None)"

definition propertyFromLine :: "string \<Rightarrow> go_error + string \<times> property_data" where
  "propertyFromLine line =
     (case kv_match line of
        None \<Rightarrow> Inl (Errorf (''couldn't find key value pair on the line '' @ line))
      | Some (k, v) \<Rightarrow> Inr (trimSpace k, \<lparr>pd_Val = trimSpace v, pd_Items = []\<rparr>))"

section \<open>Sections\<close>

text \<open>\<^verbatim>\<open>readList\<close>: the items, which are indented at least as the first one, and the lines after them.\<close>

definition readList :: "string list \<Rightarrow> string list \<times> string list" where
  "readList lines =
     (let inner = (\<lambda>line. getLineLevel (hd lines) \<le> getLineLevel line)
      in (map trimSpace (takeWhile inner lines), dropWhile inner lines))"

lemma readList_rest: "length (snd (readList lines)) \<le> length lines"
  by (simp add: readList_def Let_def length_dropWhile_le)

text \<open>
  The loop of \<^verbatim>\<open>readSection\<close> from a line on, with the subsection it is in.  It ends at a blank line, which it leaves, or with the lines.
\<close>

function section_lines :: "string list \<Rightarrow> dmi_subsection \<Rightarrow> go_error + dmi_subsection list \<times> string list" where
  "section_lines [] sub = Inr ([sub], [])"
| "section_lines (line # lines) sub =
     (if trimSpace line = [] then Inr ([sub], line # lines)
      else if hd line \<notin> set goSpace then
        (case section_lines lines \<lparr>ss_Title = line, ss_Properties = []\<rparr> of
           Inl e \<Rightarrow> Inl e
         | Inr (subs, rest) \<Rightarrow> Inr (sub # subs, rest))
      else case propertyFromLine line of
             Inl e \<Rightarrow> Inl e
           | Inr (key, prop) \<Rightarrow>
               let nested = (lines \<noteq> [] \<and> getLineLevel line < getLineLevel (hd lines));
                   items = (if nested then fst (readList lines) else []);
                   rest = (if nested then snd (readList lines) else lines)
               in section_lines rest
                    (sub\<lparr>ss_Properties := AList.update key (prop\<lparr>pd_Items := items\<rparr>) (ss_Properties sub)\<rparr>))"
  by pat_completeness auto
termination
  by (relation "measure (\<lambda>(lines, sub). length lines)") (auto simp: readList_rest le_imp_less_Suc)

definition readSection :: "string list \<Rightarrow> go_error + dmi_section \<times> string list" where
  "readSection lines =
     (case lines of
        handle # title # rest \<Rightarrow>
          (case getDMITypeFromHandleLine handle of
             Inl e \<Rightarrow> Inl e
           | Inr t \<Rightarrow>
               (case section_lines rest \<lparr>ss_Title = title, ss_Properties = []\<rparr> of
                  Inl e \<Rightarrow> Inl e
                | Inr (subs, after) \<Rightarrow>
                    Inr (\<lparr>ds_HandleLine = handle, ds_TypeStr = DMITypeToString t, ds_Type = t, ds_SubSections = subs\<rparr>, after)))
      | _ \<Rightarrow> Inl (Errorf ''invalid section size''))"

lemma section_lines_rest: "section_lines lines sub = Inr (subs, rest) \<Longrightarrow> length rest \<le> length lines"
proof (induction lines sub arbitrary: subs rest rule: section_lines.induct)
  case (2 line lines sub)
  then show ?case
    using readList_rest [of lines]
    by (fastforce simp: Let_def split: if_splits sum.splits prod.splits)
qed simp

lemma readSection_rest: "readSection (line # lines) = Inr (s, rest) \<Longrightarrow> length rest \<le> length lines"
  by (auto simp: readSection_def split: list.splits sum.splits prod.splits dest!: section_lines_rest)

text \<open>The loop over the lines; the line a section ends at is skipped.\<close>

function dmi_sections :: "string list \<Rightarrow> go_error + dmi_section list" where
  "dmi_sections [] = Inr []"
| "dmi_sections (line # lines) =
     (if hasPrefix line ''Handle'' then
        (case readSection (line # lines) of
           Inl e \<Rightarrow> Inl e
         | Inr (s, rest) \<Rightarrow> (case dmi_sections (tl rest) of Inl e \<Rightarrow> Inl e | Inr ss \<Rightarrow> Inr (s # ss)))
      else dmi_sections lines)"
  by pat_completeness auto
termination
  by (relation "measure length") (auto dest: readSection_rest)

text \<open>The first loop: the line of the tool is the first comment before the first section.\<close>

fun dmi_tool :: "string list \<Rightarrow> string \<times> string list" where
  "dmi_tool [] = ([], [])"
| "dmi_tool (line # lines) =
     (if hasPrefix line ''Handle'' then ([], line # lines)
      else if hasPrefix line ''#'' then (trimSpace (drop 1 line), lines)
      else dmi_tool lines)"

definition ParseDMI :: "string \<Rightarrow> go_error + dmi" where
  "ParseDMI input =
     (case dmi_tool (split newline input) of
        (agg, lines) \<Rightarrow>
          (case dmi_sections lines of
             Inl e \<Rightarrow> Inl e
           | Inr ss \<Rightarrow>
               Inr \<lparr>dmi_Tooling = \<lparr>dt_Aggregator = (if agg = [] then ''unknown'' else agg), dt_Decoder = DMIDecoderVersion\<rparr>,
                    dmi_Sections = ss\<rparr>))"

text \<open>An element of an array of any values is the value.\<close>

definition types_arg :: "json \<Rightarrow> json list option" where
  "types_arg cmd = Option.bind (objectOf cmd) (field_array Some ''types'')"

definition dmidecodeRunAndParse ::
  "(string \<Rightarrow> int) \<Rightarrow> (string \<Rightarrow> string) \<Rightarrow> 'w system_call \<Rightarrow> json \<Rightarrow> 'w \<Rightarrow> (go_error + dmi) \<times> 'w" where
  "dmidecodeRunAndParse trunc print sys cmd w =
     (case types_arg cmd of
        None \<Rightarrow> (Inl (Errorf ''json''), w)
      | Some types \<Rightarrow>
          (case dmi_cmdargs trunc print types of
             Inl e \<Rightarrow> (Inl e, w)
           | Inr cmdargs \<Rightarrow>
               (case sys (''dmidecode'' # cmdargs) w of
                  (Ran job, w1) \<Rightarrow> (ParseDMI (Stdout (jr_Streams job)), w1)
                | (NotRun e, w1) \<Rightarrow> (Inl e, w1)
                | (FailedRun job e, w1) \<Rightarrow> (Inl e, w1))))"

section \<open>Reading what dmidecode prints\<close>

text \<open>
  A section is printed as its handle, then for every subsection a title and its properties, indented by \<open>i\<close> blanks, with the items of a list indented
  further; a blank line ends it.
\<close>

definition tabs :: "nat \<Rightarrow> string" where "tabs n = replicate n (CHR 0x09)"

definition property_lines :: "string \<times> property_data \<Rightarrow> string list" where
  "property_lines kp = (tabs 1 @ fst kp @ '': '' @ pd_Val (snd kp)) # map (\<lambda>i. tabs 2 @ i) (pd_Items (snd kp))"

definition properties_lines :: "(string \<times> property_data) list \<Rightarrow> string list" where
  "properties_lines ps = concat (map property_lines ps)"

definition subsection_lines :: "dmi_subsection \<Rightarrow> string list" where
  "subsection_lines s = ss_Title s # properties_lines (ss_Properties s)"

definition section_text :: "dmi_section \<Rightarrow> string list" where
  "section_text d = ds_HandleLine d # concat (map subsection_lines (ds_SubSections d)) @ [[]]"

definition trimmed :: "string \<Rightarrow> bool" where
  "trimmed s \<longleftrightarrow> s = [] \<or> hd s \<notin> set goSpace \<and> last s \<notin> set goSpace"

definition property_ok :: "string \<times> property_data \<Rightarrow> bool" where
  "property_ok kp \<longleftrightarrow> fst kp \<noteq> [] \<and> trimmed (fst kp) \<and> CHR '':'' \<notin> set (fst kp) \<and> trimmed (pd_Val (snd kp)) \<and>
     (\<forall>i \<in> set (pd_Items (snd kp)). i \<noteq> [] \<and> trimmed i)"

definition title_ok :: "string \<Rightarrow> bool" where
  "title_ok t \<longleftrightarrow> t \<noteq> [] \<and> hd t \<notin> set goSpace"

definition subsection_ok :: "dmi_subsection \<Rightarrow> bool" where
  "subsection_ok s \<longleftrightarrow> title_ok (ss_Title s) \<and> list_all property_ok (ss_Properties s) \<and> distinct (map fst (ss_Properties s))"

definition section_ok :: "dmi_section \<Rightarrow> bool" where
  "section_ok d \<longleftrightarrow> hasPrefix (ds_HandleLine d) ''Handle'' \<and> getDMITypeFromHandleLine (ds_HandleLine d) = Inr (ds_Type d) \<and>
     ds_TypeStr d = DMITypeToString (ds_Type d) \<and> ds_SubSections d \<noteq> [] \<and> list_all subsection_ok (ds_SubSections d)"

lemma trim_trimmed: "trimmed s \<Longrightarrow> \<forall>c \<in> set b. c \<in> set goSpace \<Longrightarrow> trimSpace (b @ s) = s"
proof (cases "s = []")
  case True
  assume "\<forall>c \<in> set b. c \<in> set goSpace"
  then have "dropWhile (\<lambda>c. c \<in> set goSpace) b = []" by simp
  then show "trimSpace (b @ s) = s" using True
    by (simp only: append_Nil2) (simp add: trimSpace_def trim_def trimLeft_def trimRight_def del: dropWhile_eq_Nil_conv)
qed (simp add: trimmed_def trimSpace_solid)

lemma tabs_space: "\<forall>c \<in> set (tabs n). c \<in> set goSpace"
  by (simp add: tabs_def goSpace_def)

lemma level_tabs: "s \<noteq> [] \<Longrightarrow> hd s \<notin> set goSpace \<Longrightarrow> getLineLevel (tabs n @ s) = n"
proof -
  assume s: "s \<noteq> []" "hd s \<notin> set goSpace"
  then have "takeWhile (\<lambda>c. c \<in> set goSpace) s = []" by (cases s) auto
  moreover have "takeWhile (\<lambda>c. c \<in> set goSpace) (tabs n @ s) = tabs n @ takeWhile (\<lambda>c. c \<in> set goSpace) s"
    using tabs_space by (simp add: takeWhile_append)
  moreover have "\<not> list_all (\<lambda>c. c \<in> set goSpace) (tabs n @ s)" using s by (auto simp: list_all_iff neq_Nil_conv)
  ultimately show ?thesis unfolding getLineLevel_def by (simp only: if_False append_Nil2 tabs_def length_replicate)
qed

lemma level_title: "title_ok t \<Longrightarrow> getLineLevel t = 0"
  using level_tabs [of t 0] by (simp add: title_ok_def tabs_def)

lemma property_line:
  assumes "property_ok (k, p)"
  shows "propertyFromLine (tabs 1 @ k @ '': '' @ pd_Val p) = Inr (k, \<lparr>pd_Val = pd_Val p, pd_Items = []\<rparr>)"
    and "getLineLevel (tabs 1 @ k @ '': '' @ pd_Val p) = 1"
    and "trimSpace (tabs 1 @ k @ '': '' @ pd_Val p) \<noteq> []"
proof -
  have k: "k \<noteq> []" "trimmed k" "CHR '':'' \<notin> set k" "trimmed (pd_Val p)" using assms by (auto simp: property_ok_def)
  have "kv_match (tabs 1 @ k @ '': '' @ pd_Val p) = Some (tabs 1 @ k, '' '' @ pd_Val p)"
    using k(3) by (simp add: kv_match_def tabs_def takeWhile_append dropWhile_append)
  moreover have "trimSpace (tabs 1 @ k) = k" by (rule trim_trimmed [OF k(2) tabs_space])
  moreover have "trimSpace ('' '' @ pd_Val p) = pd_Val p" by (rule trim_trimmed [OF k(4)]) (simp add: goSpace_def)
  ultimately show "propertyFromLine (tabs 1 @ k @ '': '' @ pd_Val p) = Inr (k, \<lparr>pd_Val = pd_Val p, pd_Items = []\<rparr>)"
    by (simp add: propertyFromLine_def)
  show "getLineLevel (tabs 1 @ k @ '': '' @ pd_Val p) = 1"
    using k by (intro level_tabs) (auto simp: trimmed_def)
  show "trimSpace (tabs 1 @ k @ '': '' @ pd_Val p) \<noteq> []"
    using k(1,2) by (cases k) (auto simp: trimSpace_def trim_def trimLeft_def trimRight_def tabs_def goSpace_def trimmed_def)
qed

lemma property_head: "property_lines (k, p) = (tabs 1 @ k @ '': '' @ pd_Val p) # map (\<lambda>i. tabs 2 @ i) (pd_Items p)"
  by (simp add: property_lines_def)

lemma item_level: "i \<noteq> [] \<Longrightarrow> trimmed i \<Longrightarrow> getLineLevel (tabs 2 @ i) = 2"
  by (rule level_tabs) (auto simp: trimmed_def)

lemma read_items:
  assumes "items \<noteq> []" "\<forall>i \<in> set items. i \<noteq> [] \<and> trimmed i" "aft = [] \<or> getLineLevel (hd aft) < 2"
  shows "readList (map (\<lambda>i. tabs 2 @ i) items @ aft) = (items, aft)"
proof -
  let ?inner = "\<lambda>line. (2 :: nat) \<le> getLineLevel line"
  have hd: "getLineLevel (hd (map (\<lambda>i. tabs 2 @ i) items @ aft)) = 2"
    using assms(1,2) by (cases items) (simp_all add: item_level)
  have all: "\<forall>l \<in> set (map (\<lambda>i. tabs 2 @ i) items). ?inner l" using assms(2) by (simp add: item_level)
  have "takeWhile ?inner aft = []" "dropWhile ?inner aft = aft" using assms(3) by (cases aft; simp)+
  then have "takeWhile ?inner (map (\<lambda>i. tabs 2 @ i) items @ aft) = map (\<lambda>i. tabs 2 @ i) items"
    "dropWhile ?inner (map (\<lambda>i. tabs 2 @ i) items @ aft) = aft"
    using all by (simp_all add: takeWhile_append dropWhile_append)
  moreover have "map trimSpace (map (\<lambda>i. tabs 2 @ i) items) = items"
    using assms(2) by (simp add: map_idI trim_trimmed [OF _ tabs_space])
  ultimately show ?thesis by (simp add: readList_def hd)
qed

lemma properties_level:
  "list_all property_ok ps \<Longrightarrow> aft = [] \<or> getLineLevel (hd aft) = 0 \<Longrightarrow>
     properties_lines ps @ aft = [] \<or> getLineLevel (hd (properties_lines ps @ aft)) < 2"
proof (cases ps)
  case Nil
  then show "aft = [] \<or> getLineLevel (hd aft) = 0 \<Longrightarrow> ?thesis" by (auto simp: properties_lines_def)
next
  case (Cons kp qs)
  obtain k p where kp: "kp = (k, p)" by (rule prod.exhaust)
  assume "list_all property_ok ps"
  then have ok: "property_ok (k, p)" by (simp add: Cons kp)
  have hd: "hd (properties_lines ps @ aft) = tabs 1 @ k @ '': '' @ pd_Val p"
    by (simp add: properties_lines_def property_head Cons kp)
  show ?thesis unfolding hd property_line(2) [OF ok] by simp
qed

lemma section_lines_properties:
  "list_all property_ok ps \<Longrightarrow> distinct (map fst (before @ ps)) \<Longrightarrow> aft = [] \<or> getLineLevel (hd aft) = 0 \<Longrightarrow>
     section_lines (properties_lines ps @ aft) \<lparr>ss_Title = t, ss_Properties = before\<rparr> =
     section_lines aft \<lparr>ss_Title = t, ss_Properties = before @ ps\<rparr>"
proof (induction ps arbitrary: before)
  case Nil
  then show ?case by (simp add: properties_lines_def)
next
  case (Cons kp ps)
  obtain k p where kp: "kp = (k, p)" by (rule prod.exhaust)
  let ?tail = "properties_lines ps @ aft"
  let ?line = "tabs 1 @ k @ '': '' @ pd_Val p"
  let ?items = "map (\<lambda>i. tabs 2 @ i) (pd_Items p)"
  have ok: "property_ok (k, p)" and oks: "list_all property_ok ps" using Cons.prems(1) by (simp_all add: kp)
  have tail: "?tail = [] \<or> getLineLevel (hd ?tail) < 2" by (rule properties_level [OF oks Cons.prems(3)])
  have lines: "properties_lines (kp # ps) @ aft = ?line # ?items @ ?tail" by (simp add: properties_lines_def property_head kp)
  have new: "k \<notin> fst ` set before" using Cons.prems(2) by (auto simp: kp)
  have upd: "AList.update k p before = before @ [(k, p)]" using new by (induction before) auto
  have same: "\<lparr>pd_Val = pd_Val p, pd_Items = pd_Items p\<rparr> = p" by (cases p) simp
  have hd: "hd ?line \<in> set goSpace" by (simp add: tabs_def goSpace_def)
  let ?nested = "?items @ ?tail \<noteq> [] \<and> getLineLevel ?line < getLineLevel (hd (?items @ ?tail))"
  have items: "(if ?nested then fst (readList (?items @ ?tail)) else []) = pd_Items p"
    "(if ?nested then snd (readList (?items @ ?tail)) else ?items @ ?tail) = ?tail"
  proof -
    have "\<forall>i \<in> set (pd_Items p). i \<noteq> [] \<and> trimmed i" using ok by (simp add: property_ok_def)
    from read_items [OF _ this tail] this tail
    show "(if ?nested then fst (readList (?items @ ?tail)) else []) = pd_Items p"
      "(if ?nested then snd (readList (?items @ ?tail)) else ?items @ ?tail) = ?tail"
      unfolding property_line(2) [OF ok] by (cases "pd_Items p"; auto simp: item_level)+
  qed
  have "section_lines (?line # ?items @ ?tail) \<lparr>ss_Title = t, ss_Properties = before\<rparr> =
      section_lines ?tail \<lparr>ss_Title = t, ss_Properties = AList.update k p before\<rparr>"
    unfolding section_lines.simps Let_def items property_line(1) [OF ok] using property_line(3) [OF ok] hd by (simp add: same)
  also have "\<dots> = section_lines aft \<lparr>ss_Title = t, ss_Properties = before @ kp # ps\<rparr>"
    using Cons.IH [of "before @ [(k, p)]"] Cons.prems oks by (simp add: upd kp)
  finally show ?case unfolding lines .
qed

lemma section_lines_subsections:
  "list_all subsection_ok (s # ss) \<Longrightarrow>
     section_lines (properties_lines (ss_Properties s) @ concat (map subsection_lines ss) @ [] # rest) \<lparr>ss_Title = ss_Title s, ss_Properties = []\<rparr> =
     Inr (s # ss, [] # rest)"
proof (induction ss arbitrary: s)
  case Nil
  then show ?case
    using section_lines_properties [of "ss_Properties s" "[]" "[] # rest" "ss_Title s"]
    by (simp add: subsection_ok_def getLineLevel_def trimSpace_def trim_def trimLeft_def trimRight_def)
next
  case (Cons s2 ss)
  let ?aft = "concat (map subsection_lines (s2 # ss)) @ [] # rest"
  have t: "title_ok (ss_Title s2)" using Cons.prems by (simp add: subsection_ok_def)
  have shape: "?aft = ss_Title s2 # properties_lines (ss_Properties s2) @ concat (map subsection_lines ss) @ [] # rest"
    by (simp add: subsection_lines_def)
  have "trimSpace (ss_Title s2) \<noteq> []"
    using t by (cases "ss_Title s2") (auto simp: title_ok_def trimSpace_def trim_def trimLeft_def trimRight_def)
  then have step: "section_lines ?aft \<lparr>ss_Title = ss_Title s, ss_Properties = ss_Properties s\<rparr> = Inr (s # s2 # ss, [] # rest)"
    using Cons.prems Cons.IH [of s2] t unfolding shape by (simp add: title_ok_def)
  have "section_lines (properties_lines (ss_Properties s) @ ?aft) \<lparr>ss_Title = ss_Title s, ss_Properties = []\<rparr> =
      section_lines ?aft \<lparr>ss_Title = ss_Title s, ss_Properties = [] @ ss_Properties s\<rparr>"
  proof (rule section_lines_properties)
    show "?aft = [] \<or> getLineLevel (hd ?aft) = 0" unfolding shape using level_title [OF t] by simp
  qed (use Cons.prems in \<open>simp_all add: subsection_ok_def\<close>)
  then show ?case using step by simp
qed

lemma readSection_print:
  assumes "section_ok d"
  shows "readSection (section_text d @ rest) = Inr (d, [] # rest)"
proof -
  obtain s ss where ss: "ds_SubSections d = s # ss" using assms by (cases "ds_SubSections d") (auto simp: section_ok_def)
  have "list_all subsection_ok (s # ss)" using assms by (simp add: section_ok_def ss)
  from section_lines_subsections [OF this, of rest] show ?thesis
    using assms by (simp add: readSection_def section_text_def ss subsection_lines_def section_ok_def)
qed

lemma dmi_sections_print: "list_all section_ok ds \<Longrightarrow> dmi_sections (concat (map section_text ds)) = Inr ds"
proof (induction ds)
  case (Cons d ds)
  have "section_text d @ concat (map section_text ds) =
      ds_HandleLine d # concat (map subsection_lines (ds_SubSections d)) @ [] # concat (map section_text ds)"
    by (simp add: section_text_def)
  moreover have "hasPrefix (ds_HandleLine d) ''Handle''" using Cons.prems by (simp add: section_ok_def)
  ultimately show ?case
    using Cons readSection_print [of d "concat (map section_text ds)"] by simp
qed simp

lemma dmi_sections_skip: "list_all (\<lambda>l. \<not> hasPrefix l ''Handle'') post \<Longrightarrow> dmi_sections (post @ lines) = dmi_sections lines"
  by (induction post) simp_all

lemma dmi_tool_skip:
  "list_all (\<lambda>l. \<not> hasPrefix l ''Handle'' \<and> \<not> hasPrefix l ''#'') pre \<Longrightarrow> dmi_tool (pre @ lines) = dmi_tool lines"
  by (induction pre) simp_all

text \<open>
  What \<^verbatim>\<open>dmidecode\<close> prints is read back: the tool from the first comment, and every section with its handle, type and subsections, each with its
  properties, their values and the items of their lists.
\<close>

theorem dmi_read:
  assumes "list_all section_ok ds" "tool \<noteq> []" "trimmed tool"
    and "list_all (\<lambda>l. \<not> hasPrefix l ''Handle'' \<and> \<not> hasPrefix l ''#'') pre" "list_all (\<lambda>l. \<not> hasPrefix l ''Handle'') post"
    and "\<forall>l \<in> set (pre @ (''# '' @ tool) # post @ concat (map section_text ds)). newline \<notin> set l"
  shows "ParseDMI (join [newline] (pre @ (''# '' @ tool) # post @ concat (map section_text ds))) =
     Inr \<lparr>dmi_Tooling = \<lparr>dt_Aggregator = tool, dt_Decoder = DMIDecoderVersion\<rparr>, dmi_Sections = ds\<rparr>"
proof -
  have "split newline (join [newline] (pre @ (''# '' @ tool) # post @ concat (map section_text ds))) =
      pre @ (''# '' @ tool) # post @ concat (map section_text ds)"
    by (rule split_join) (use assms(6) in auto)
  moreover have "trimSpace ('' '' @ tool) = tool" using trim_trimmed [OF assms(3), of "'' ''"] by (simp add: goSpace_def)
  ultimately show ?thesis
    using assms(2) by (simp add: ParseDMI_def dmi_tool_skip [OF assms(4)] dmi_sections_skip [OF assms(5)] dmi_sections_print [OF assms(1)])
qed

definition sampleDmi :: "dmi_section list" where
  "sampleDmi =
     [\<lparr>ds_HandleLine = ''Handle 0x0000, DMI type 0, 24 bytes'', ds_TypeStr = ''BIOS'', ds_Type = 0,
       ds_SubSections = [\<lparr>ss_Title = ''BIOS Information'',
         ss_Properties = [(''Vendor'', \<lparr>pd_Val = ''LENOVO'', pd_Items = []\<rparr>),
                          (''Characteristics'', \<lparr>pd_Val = '''', pd_Items = [''PCI is supported'', ''ACPI is supported'']\<rparr>)]\<rparr>]\<rparr>]"

lemma sampleDmi_ok: "list_all section_ok sampleDmi"
proof -
  have "getDMITypeFromHandleLine ''Handle 0x0000, DMI type 0, 24 bytes'' = Inr 0"
    by (simp add: getDMITypeFromHandleLine_def strip_def many1_def isDigit_def parseInt_def Let_def atoi_def digitVal_def)
  then show ?thesis
    by (simp add: sampleDmi_def section_ok_def subsection_ok_def property_ok_def trimmed_def title_ok_def goSpace_def DMITypeToString_def dmitypes_def)
qed

lemma dmi_read_witness:
  "map_sum (\<lambda>_. ()) dmi_Sections (ParseDMI (join [newline] ([] @ (''# '' @ ''dmidecode 3.1'') # [''Getting SMBIOS data from sysfs.'', ''''] @
     concat (map section_text sampleDmi)))) = Inr sampleDmi"
proof -
  have "ParseDMI (join [newline] ([] @ (''# '' @ ''dmidecode 3.1'') # [''Getting SMBIOS data from sysfs.'', ''''] @ concat (map section_text sampleDmi))) =
     Inr \<lparr>dmi_Tooling = \<lparr>dt_Aggregator = ''dmidecode 3.1'', dt_Decoder = DMIDecoderVersion\<rparr>, dmi_Sections = sampleDmi\<rparr>"
    by (rule dmi_read [OF sampleDmi_ok])
       (simp_all add: trimmed_def goSpace_def newline_def sampleDmi_def section_text_def subsection_lines_def properties_lines_def property_lines_def tabs_def)
  then show ?thesis by simp
qed

text \<open>The program is called with types in range and keywords only.\<close>

theorem dmi_args_checked:
  assumes "dmi_cmdargs trunc print types = Inr args"
  shows "\<exists>ts. args = concat (map (\<lambda>t. [''-t'', t]) ts) \<and> length ts = length types \<and>
     (\<forall>t \<in> set ts. t \<in> set dmiKeywords \<or> (\<exists>n. 0 \<le> n \<and> n \<le> 42 \<and> t = itoaInt n) \<or>
        (\<exists>r. JReal r \<in> set types \<and> 0 \<le> trunc r \<and> trunc r \<le> 42 \<and> t = print r))"
  using assms
proof (induction types arbitrary: args)
  case (Cons a types)
  obtain s rest where s: "dmi_type_arg trunc print a = Inr s" "dmi_cmdargs trunc print types = Inr rest" "args = [''-t'', s] @ rest"
    using Cons.prems by (auto split: sum.splits)
  from Cons.IH [OF s(2)] obtain ts where ts: "rest = concat (map (\<lambda>t. [''-t'', t]) ts)" "length ts = length types"
    "\<forall>t \<in> set ts. t \<in> set dmiKeywords \<or> (\<exists>n. 0 \<le> n \<and> n \<le> 42 \<and> t = itoaInt n) \<or>
        (\<exists>r. JReal r \<in> set types \<and> 0 \<le> trunc r \<and> trunc r \<le> 42 \<and> t = print r)"
    by blast
  have "s \<in> set dmiKeywords \<or> (\<exists>n. 0 \<le> n \<and> n \<le> 42 \<and> s = itoaInt n) \<or> (\<exists>r. a = JReal r \<and> 0 \<le> trunc r \<and> trunc r \<le> 42 \<and> s = print r)"
    using s(1) by (cases a) (auto simp: dmi_type_arg_def Let_def sprint_float_def not_less split: if_splits)
  then show ?case using s(3) ts by (intro exI [of _ "s # ts"]) auto
qed simp

lemma dmi_args_checked_witness:
  "\<exists>ts. [''-t'', ''bios'', ''-t'', ''17''] = concat (map (\<lambda>t. [''-t'', t]) ts) \<and> length ts = 2"
proof -
  have "dmi_cmdargs (\<lambda>_. 0) (\<lambda>s. s) [JStr ''bios'', JNum 17] = Inr [''-t'', ''bios'', ''-t'', ''17'']"
    by (simp add: dmi_type_arg_def dmiKeywords_def sprint_float_def itoaInt_def itoa.simps digitChar_def) code_simp
  from dmi_args_checked [OF this] show ?thesis by auto
qed

text \<open>One property without a colon makes the whole output unreadable.\<close>

theorem dmi_line_without_colon:
  assumes "hd line \<in> set goSpace" "trimSpace line \<noteq> []" "CHR '':'' \<notin> set line"
  shows "\<exists>e. section_lines (line # lines) s = Inl e"
proof -
  have "kv_match line = None" using assms(3) by (cases line) (simp_all add: kv_match_def)
  then show ?thesis using assms by (simp add: propertyFromLine_def)
qed

end
