(* ===== verification/Fs_Files.thy ===== *)
theory Fs_Files
  imports Btrfs Go_Effect "HOL-Library.AList"
begin

text \<open>
  \<^verbatim>\<open>base/builtin/fs.go\<close>: the commands on files.  An open file is kept under an identifier in a cache (\<^verbatim>\<open>go-cache\<close>), which forgets
  what is not used for five minutes and then closes it.  The files and the clock are parameters.
\<close>

section \<open>Modes\<close>

definition O_RDONLY :: i64 where "O_RDONLY = 0"
definition O_WRONLY :: i64 where "O_WRONLY = 1"
definition O_RDWR :: i64 where "O_RDWR = 2"
definition O_CREATE :: i64 where "O_CREATE = 0x40"
definition O_EXCL :: i64 where "O_EXCL = 0x80"
definition O_TRUNC :: i64 where "O_TRUNC = 0x200"
definition O_APPEND :: i64 where "O_APPEND = 0x400"

record open_mode =
  om_mode :: i64
  om_rwax :: nat
  om_readable :: bool
  om_writable :: bool

definition mode_char :: "char \<Rightarrow> open_mode \<Rightarrow> open_mode option" where
  "mode_char c m =
     (if c = CHR ''r'' then Some (m\<lparr>om_rwax := om_rwax m + 1, om_readable := True\<rparr>)
      else if c = CHR ''x'' then
        Some (m\<lparr>om_rwax := om_rwax m + 1, om_writable := True, om_mode := om_mode m OR (O_CREATE OR O_EXCL)\<rparr>)
      else if c = CHR ''w'' then
        Some (m\<lparr>om_rwax := om_rwax m + 1, om_writable := True, om_mode := om_mode m OR (O_CREATE OR O_TRUNC)\<rparr>)
      else if c = CHR ''a'' then
        Some (m\<lparr>om_rwax := om_rwax m + 1, om_writable := True, om_mode := om_mode m OR (O_CREATE OR O_APPEND)\<rparr>)
      else if c = CHR ''+'' then Some (m\<lparr>om_readable := True, om_writable := True\<rparr>)
      else None)"

fun mode_chars :: "string \<Rightarrow> open_mode \<Rightarrow> go_error + open_mode" where
  "mode_chars [] m = Inr m"
| "mode_chars (c # s) m =
     (case mode_char c m of None \<Rightarrow> Inl (Errorf (''unknown mode '' @ [c])) | Some m1 \<Rightarrow> mode_chars s m1)"

definition fs_mode :: "string \<Rightarrow> go_error + i64" where
  "fs_mode s =
     (case mode_chars s \<lparr>om_mode = 0, om_rwax = 0, om_readable = False, om_writable = False\<rparr> of
        Inl e \<Rightarrow> Inl e
      | Inr m \<Rightarrow>
          if om_rwax m \<noteq> 1 then Inl (Errorf ''rwax modes has to be used once and only once'')
          else Inr (om_mode m OR (if om_readable m \<and> om_writable m then O_RDWR else if om_writable m then O_WRONLY else O_RDONLY)))"

section \<open>The cache\<close>

text \<open>Every file with the time after which it has expired, in nanoseconds.\<close>

type_synonym fd = nat
type_synonym fs_cache = "(string \<times> fd \<times> int) list"

definition DefaultExpiration :: int where "DefaultExpiration = 5 * 60 * 10 ^ 9"

definition cache_Set :: "int \<Rightarrow> string \<Rightarrow> fd \<Rightarrow> fs_cache \<Rightarrow> fs_cache" where
  "cache_Set now k f c = AList.update k (f, now + DefaultExpiration) c"

definition item_expired :: "int \<Rightarrow> fd \<times> int \<Rightarrow> bool" where
  "item_expired now x \<longleftrightarrow> snd x > 0 \<and> now > snd x"

definition cache_Get :: "int \<Rightarrow> string \<Rightarrow> fs_cache \<Rightarrow> fd option" where
  "cache_Get now k c = (case map_of c k of None \<Rightarrow> None | Some x \<Rightarrow> if item_expired now x then None else Some (fst x))"

text \<open>What is deleted is given to the function for evicted items after the lock is released.\<close>

definition cache_Delete :: "string \<Rightarrow> fs_cache \<Rightarrow> fs_cache \<times> fd list" where
  "cache_Delete k c = (AList.delete k c, case map_of c k of None \<Rightarrow> [] | Some x \<Rightarrow> [fst x])"

definition cache_DeleteExpired :: "int \<Rightarrow> fs_cache \<Rightarrow> fs_cache \<times> fd list" where
  "cache_DeleteExpired now c =
     (filter (\<lambda>(k, x). \<not> item_expired now x) c, map (\<lambda>(k, x). fst x) (filter (\<lambda>(k, x). item_expired now x) c))"

section \<open>The commands\<close>

record fs_entry =
  fe_Name :: string
  fe_Size :: int
  fe_Mode :: u32
  fe_IsDir :: bool

text \<open>A read answers with bytes, the end of the file, or an error.\<close>

datatype read_result = ReadBytes string | ReadEOF | ReadError go_error

record 'w fs_host =
  fh_now :: "'w \<Rightarrow> int"
  fh_uuid :: "'w \<Rightarrow> string \<times> 'w"
  fh_OpenFile :: "string \<Rightarrow> i64 \<Rightarrow> u32 \<Rightarrow> 'w \<Rightarrow> (go_error + fd) \<times> 'w"
  fh_Close :: "fd \<Rightarrow> 'w \<Rightarrow> 'w"
  fh_Read :: "fd \<Rightarrow> nat \<Rightarrow> 'w \<Rightarrow> read_result \<times> 'w"
  fh_Write :: "fd \<Rightarrow> string \<Rightarrow> 'w \<Rightarrow> go_error option \<times> 'w"
  fh_encode64 :: "string \<Rightarrow> string"
  fh_decode64 :: "string \<Rightarrow> string option"
  fh_MkdirAll :: "string \<Rightarrow> u32 \<Rightarrow> 'w \<Rightarrow> go_error option \<times> 'w"
  fh_RemoveAll :: "string \<Rightarrow> 'w \<Rightarrow> go_error option \<times> 'w"
  fh_Exists :: "string \<Rightarrow> 'w \<Rightarrow> bool"
  fh_ReadDir :: "string \<Rightarrow> 'w \<Rightarrow> go_error + fs_entry list"
  fh_Chmod :: "string \<Rightarrow> u32 \<Rightarrow> 'w \<Rightarrow> go_error option \<times> 'w"
  fh_Chown :: "string \<Rightarrow> int \<Rightarrow> int \<Rightarrow> 'w \<Rightarrow> go_error option \<times> 'w"
  fh_Walk :: "string \<Rightarrow> 'w \<Rightarrow> (string \<times> bool) list"
  fh_Lookup :: "string \<Rightarrow> go_error + string"
  fh_LookupGroup :: "string \<Rightarrow> go_error + string"
  fh_Rename :: "string \<Rightarrow> string \<Rightarrow> 'w \<Rightarrow> go_error option \<times> 'w"

type_synonym ('a, 'w) feff = "(go_error, 'a, fs_cache \<times> 'w) eff"

definition ModePerm :: u32 where "ModePerm = 0x1FF"

definition fs_arg :: "'a option \<Rightarrow> ('e \<Rightarrow> (go_error + 'a) \<times> 'e)" where
  "fs_arg r = (case r of None \<Rightarrow> fail (Errorf ''json'') | Some x \<Rightarrow> ret x)"

definition uint_arg :: "string \<Rightarrow> json \<Rightarrow> u32 option" where
  "uint_arg n cmd = map_option of_nat (Option.bind (objectOf cmd) (field_uint 32 n))"

definition bool_arg :: "string \<Rightarrow> json \<Rightarrow> bool option" where
  "bool_arg n cmd = Option.bind (objectOf cmd) (field_bool n)"

definition onFiles :: "('w \<Rightarrow> (go_error + 'a) \<times> 'w) \<Rightarrow> ('a, 'w) feff" where
  "onFiles m s = (case m (snd s) of (r, w) \<Rightarrow> (r, (fst s, w)))"

definition evicted :: "'w fs_host \<Rightarrow> fd list \<Rightarrow> 'w \<Rightarrow> 'w" where
  "evicted h fs w = fold (fh_Close h) fs w"

definition fs_open :: "'w fs_host \<Rightarrow> json \<Rightarrow> (string, 'w) feff" where
  "fs_open h cmd =
     andThen (fs_arg (string_arg ''file'' cmd)) (\<lambda>path.
     andThen (fs_arg (string_arg ''mode'' cmd)) (\<lambda>m.
     andThen (fs_arg (uint_arg ''perm'' cmd)) (\<lambda>perm.
     case fs_mode m of
       Inl e \<Rightarrow> fail e
     | Inr mode \<Rightarrow>
         andThen (onFiles (fh_OpenFile h path mode (ModePerm AND perm))) (\<lambda>fd.
         (\<lambda>(c, w). case fh_uuid h w of (i, w1) \<Rightarrow> (Inr i, (cache_Set (fh_now h w1) i fd c, w1)))))))"

definition fs_close :: "'w fs_host \<Rightarrow> json \<Rightarrow> (unit, 'w) feff" where
  "fs_close h cmd =
     andThen (fs_arg (string_arg ''fd'' cmd)) (\<lambda>i.
     (\<lambda>(c, w). case cache_Delete i c of (c1, fs) \<Rightarrow> (Inr (), (c1, evicted h fs w))))"

text \<open>The file of an identifier, which is fresh again afterwards.\<close>

definition cached_file :: "'w fs_host \<Rightarrow> string \<Rightarrow> (fd, 'w) feff" where
  "cached_file h i s =
     (case cache_Get (fh_now h (snd s)) i (fst s) of
        None \<Rightarrow> (Inl (Errorf (''unknown file description '' @ i)), s)
      | Some f \<Rightarrow> (Inr f, (cache_Set (fh_now h (snd s)) i f (fst s), snd s)))"

definition fsReadBS :: nat where "fsReadBS = 512 * 1024"

definition fs_read :: "'w fs_host \<Rightarrow> json \<Rightarrow> (string, 'w) feff" where
  "fs_read h cmd =
     andThen (fs_arg (string_arg ''fd'' cmd)) (\<lambda>i.
     andThen (cached_file h i) (\<lambda>fd.
     onFiles (\<lambda>w. case fh_Read h fd fsReadBS w of
                    (ReadBytes b, w1) \<Rightarrow> (Inr (fh_encode64 h b), w1)
                  | (ReadEOF, w1) \<Rightarrow> (Inr (fh_encode64 h []), w1)
                  | (ReadError e, w1) \<Rightarrow> (Inl e, w1))))"

definition fs_write :: "'w fs_host \<Rightarrow> json \<Rightarrow> (unit, 'w) feff" where
  "fs_write h cmd =
     andThen (fs_arg (string_arg ''fd'' cmd)) (\<lambda>i.
     andThen (fs_arg (string_arg ''block'' cmd)) (\<lambda>block.
     andThen (cached_file h i) (\<lambda>fd.
     case fh_decode64 h block of
       None \<Rightarrow> fail (Errorf ''illegal base64 data'')
     | Some b \<Rightarrow> onFiles (call (fh_Write h fd b)))))"

definition fs_mkdir :: "'w fs_host \<Rightarrow> json \<Rightarrow> (unit, 'w) feff" where
  "fs_mkdir h cmd = andThen (fs_arg (string_arg ''path'' cmd)) (\<lambda>p. onFiles (call (fh_MkdirAll h p 0x1ED)))"

definition fs_remove :: "'w fs_host \<Rightarrow> json \<Rightarrow> (unit, 'w) feff" where
  "fs_remove h cmd = andThen (fs_arg (string_arg ''path'' cmd)) (\<lambda>p. onFiles (call (fh_RemoveAll h p)))"

definition fs_exists :: "'w fs_host \<Rightarrow> json \<Rightarrow> (bool, 'w) feff" where
  "fs_exists h cmd = andThen (fs_arg (string_arg ''path'' cmd)) (\<lambda>p. onFiles (ask (\<lambda>w. Inr (fh_Exists h p w))))"

definition fs_list :: "'w fs_host \<Rightarrow> json \<Rightarrow> (fs_entry list, 'w) feff" where
  "fs_list h cmd =
     andThen (fs_arg (string_arg ''path'' cmd)) (\<lambda>p.
     andThen (onFiles (ask (fh_ReadDir h p))) (\<lambda>entries.
     ret (map (\<lambda>e. e\<lparr>fe_Mode := fe_Mode e AND ModePerm\<rparr>) entries)))"

text \<open>
  The walk visits every path with a note whether there was a problem with it; such a path is skipped, and what the act on the others answers is dropped.
\<close>

definition walk_all :: "'w fs_host \<Rightarrow> (string \<Rightarrow> 'w \<Rightarrow> go_error option \<times> 'w) \<Rightarrow> string \<Rightarrow> 'w \<Rightarrow> 'w" where
  "walk_all h act p w = fold (\<lambda>(q, problem) v. if problem then v else snd (act q v)) (fh_Walk h p w) w"

definition fs_chmod :: "'w fs_host \<Rightarrow> json \<Rightarrow> (unit, 'w) feff" where
  "fs_chmod h cmd =
     andThen (fs_arg (string_arg ''path'' cmd)) (\<lambda>p.
     andThen (fs_arg (uint_arg ''mode'' cmd)) (\<lambda>mode.
     andThen (fs_arg (bool_arg ''recursive'' cmd)) (\<lambda>recursive.
     let act = (\<lambda>q. fh_Chmod h q (ModePerm AND mode)) in
     onFiles (if \<not> recursive then call (act p) else (\<lambda>w. (Inr (), walk_all h act p w))))))"

definition fs_chown :: "'w fs_host \<Rightarrow> json \<Rightarrow> (unit, 'w) feff" where
  "fs_chown h cmd =
     andThen (fs_arg (string_arg ''path'' cmd)) (\<lambda>p.
     andThen (fs_arg (string_arg ''user'' cmd)) (\<lambda>usr.
     andThen (fs_arg (string_arg ''group'' cmd)) (\<lambda>grp.
     andThen (fs_arg (bool_arg ''recursive'' cmd)) (\<lambda>recursive.
     andThen (ask (\<lambda>s. fh_Lookup h usr)) (\<lambda>u.
     andThen (ask (\<lambda>s. fh_LookupGroup h grp)) (\<lambda>g.
     let act = (\<lambda>q. fh_Chown h q (fst (parseInt 64 u)) (fst (parseInt 64 g))) in
     onFiles (if \<not> recursive then call (act p) else (\<lambda>w. (Inr (), walk_all h act p w)))))))))"

definition fs_move :: "'w fs_host \<Rightarrow> json \<Rightarrow> (unit, 'w) feff" where
  "fs_move h cmd =
     andThen (fs_arg (string_arg ''path'' cmd)) (\<lambda>p.
     andThen (fs_arg (string_arg ''destination'' cmd)) (\<lambda>d. onFiles (call (fh_Rename h p d))))"

section \<open>Modes as Python has them\<close>

definition mode_base :: "char \<Rightarrow> i64" where
  "mode_base c =
     (if c = CHR ''w'' then O_CREATE OR O_TRUNC else if c = CHR ''a'' then O_CREATE OR O_APPEND
      else if c = CHR ''x'' then O_CREATE OR O_EXCL else 0)"

definition mode_letters :: "char set" where "mode_letters = {CHR ''r'', CHR ''w'', CHR ''a'', CHR ''x''}"

lemma mode_chars_letters:
  "set s \<subseteq> insert (CHR ''+'') mode_letters \<Longrightarrow>
     \<exists>m1. mode_chars s m = Inr m1 \<and> om_rwax m1 = om_rwax m + length (filter (\<lambda>c. c \<in> mode_letters) s) \<and>
       (om_readable m1 \<longleftrightarrow> om_readable m \<or> CHR ''r'' \<in> set s \<or> CHR ''+'' \<in> set s) \<and>
       (om_writable m1 \<longleftrightarrow> om_writable m \<or> (\<exists>c \<in> set s. c \<noteq> CHR ''r'')) \<and>
       om_mode m1 = fold (\<lambda>c x. x OR mode_base c) s (om_mode m)"
proof (induction s arbitrary: m)
  case (Cons c s)
  have c: "c \<in> insert (CHR ''+'') mode_letters" using Cons.prems by simp
  then obtain m1 where mc: "mode_char c m = Some m1" by (auto simp: mode_letters_def mode_char_def)
  with c have m1: "mode_char c m = Some m1" "om_rwax m1 = om_rwax m + (if c \<in> mode_letters then 1 else 0)"
    "om_readable m1 \<longleftrightarrow> om_readable m \<or> c = CHR ''r'' \<or> c = CHR ''+''"
    "om_writable m1 \<longleftrightarrow> om_writable m \<or> c \<noteq> CHR ''r''" "om_mode m1 = om_mode m OR mode_base c"
    by (auto simp: mode_letters_def mode_char_def mode_base_def)
  have "set s \<subseteq> insert (CHR ''+'') mode_letters" using Cons.prems by simp
  from Cons.IH [OF this, of m1] obtain m2 where m2: "mode_chars s m1 = Inr m2"
    "om_rwax m2 = om_rwax m1 + length (filter (\<lambda>c. c \<in> mode_letters) s)"
    "om_readable m2 \<longleftrightarrow> om_readable m1 \<or> CHR ''r'' \<in> set s \<or> CHR ''+'' \<in> set s"
    "om_writable m2 \<longleftrightarrow> om_writable m1 \<or> (\<exists>c \<in> set s. c \<noteq> CHR ''r'')"
    "om_mode m2 = fold (\<lambda>c x. x OR mode_base c) s (om_mode m1)"
    by blast
  show ?case
  proof (intro exI conjI)
    show "mode_chars (c # s) m = Inr m2" by (simp add: m1(1) m2(1))
    show "om_rwax m2 = om_rwax m + length (filter (\<lambda>c. c \<in> mode_letters) (c # s))" by (simp add: m1(2) m2(2))
    show "om_readable m2 \<longleftrightarrow> om_readable m \<or> CHR ''r'' \<in> set (c # s) \<or> CHR ''+'' \<in> set (c # s)"
      unfolding m2(3) m1(3) by (simp only: list.set insert_iff) blast
    show "om_writable m2 \<longleftrightarrow> om_writable m \<or> (\<exists>c \<in> set (c # s). c \<noteq> CHR ''r'')"
      unfolding m2(4) m1(4) by (simp only: list.set ball_simps bex_simps) blast
    show "om_mode m2 = fold (\<lambda>c x. x OR mode_base c) (c # s) (om_mode m)" by (simp add: m1(5) m2(5))
  qed
qed simp

lemma mode_chars_unknown:
  "\<not> set s \<subseteq> insert (CHR ''+'') mode_letters \<Longrightarrow> \<exists>e. mode_chars s m = Inl e"
proof (induction s arbitrary: m)
  case (Cons c s)
  then show ?case
    by (cases "c \<in> insert (CHR ''+'') mode_letters") (auto simp: mode_letters_def mode_char_def split: option.split)
qed simp

lemma fold_plus: "set s \<subseteq> {CHR ''+''} \<Longrightarrow> fold (\<lambda>c x. x OR mode_base c) s m = m"
  by (induction s) (auto simp: mode_base_def)

text \<open>
  The modes that are accepted are those with exactly one of the letters r, w, a and x, and any number of plus signs; the flags are those of Python: the
  letter says how the file is made, and a plus makes it readable and writable.
\<close>

theorem modes_accepted:
  "(case fs_mode s of
      Inl e \<Rightarrow> \<not> (\<exists>c us vs. c \<in> mode_letters \<and> s = us @ [c] @ vs \<and> set (us @ vs) \<subseteq> {CHR ''+''})
    | Inr m \<Rightarrow> \<exists>c us vs. c \<in> mode_letters \<and> s = us @ [c] @ vs \<and> set (us @ vs) \<subseteq> {CHR ''+''} \<and>
        m = mode_base c OR (if us @ vs \<noteq> [] then O_RDWR else if c = CHR ''r'' then O_RDONLY else O_WRONLY))"
proof (cases "set s \<subseteq> insert (CHR ''+'') mode_letters")
  case False
  from mode_chars_unknown [OF False, of "\<lparr>om_mode = 0, om_rwax = 0, om_readable = False, om_writable = False\<rparr>"]
  obtain e where "fs_mode s = Inl e" by (auto simp: fs_mode_def)
  moreover have "\<not> (\<exists>c us vs. c \<in> mode_letters \<and> s = us @ [c] @ vs \<and> set (us @ vs) \<subseteq> {CHR ''+''})"
    using False by auto
  ultimately show ?thesis by simp
next
  case True
  let ?m0 = "\<lparr>om_mode = 0, om_rwax = 0, om_readable = False, om_writable = False\<rparr>"
  obtain m1 where m1: "mode_chars s ?m0 = Inr m1" "om_rwax m1 = length (filter (\<lambda>c. c \<in> mode_letters) s)"
    "om_readable m1 \<longleftrightarrow> CHR ''r'' \<in> set s \<or> CHR ''+'' \<in> set s" "om_writable m1 \<longleftrightarrow> (\<exists>c \<in> set s. c \<noteq> CHR ''r'')"
    "om_mode m1 = fold (\<lambda>c x. x OR mode_base c) s 0"
    using mode_chars_letters [OF True, of ?m0] by auto
  show ?thesis
  proof (cases "length (filter (\<lambda>c. c \<in> mode_letters) s) = 1")
    case False
    have "\<not> (\<exists>c us vs. c \<in> mode_letters \<and> s = us @ [c] @ vs \<and> set (us @ vs) \<subseteq> {CHR ''+''})"
    proof (intro notI, elim exE conjE)
      fix c us vs assume c: "c \<in> mode_letters" "s = us @ [c] @ vs" "set (us @ vs) \<subseteq> {CHR ''+''}"
      have p: "CHR ''+'' \<notin> mode_letters" by (simp add: mode_letters_def)
      have "filter (\<lambda>c. c \<in> mode_letters) us = []" "filter (\<lambda>c. c \<in> mode_letters) vs = []"
        using c(3) p by (auto simp: filter_empty_conv)
      then show False using c(1,2) False by simp
    qed
    then show ?thesis using m1 False by (simp add: fs_mode_def)
  next
    case one: True
    then obtain c where c: "filter (\<lambda>c. c \<in> mode_letters) s = [c]" by (metis One_nat_def length_0_conv length_Suc_conv)
    then obtain us vs where s: "s = us @ c # vs" "c \<in> mode_letters" "\<forall>x \<in> set us. x \<notin> mode_letters" "filter (\<lambda>c. c \<in> mode_letters) vs = []"
      by (auto simp: filter_eq_Cons_iff)
    then have plus: "set (us @ vs) \<subseteq> {CHR ''+''}" using True by (auto simp: filter_empty_conv)
    have b: "om_mode m1 = mode_base c" using plus by (simp add: m1(5) s(1) fold_plus)
    have r: "om_readable m1 \<longleftrightarrow> c = CHR ''r'' \<or> us @ vs \<noteq> []" using plus s(2) m1(3)
      by (cases us; cases vs) (auto simp: s(1) mode_letters_def)
    have w: "om_writable m1 \<longleftrightarrow> c \<noteq> CHR ''r'' \<or> us @ vs \<noteq> []" using plus m1(4)
      by (cases us; cases vs) (auto simp: s(1))
    have "fs_mode s = Inr (mode_base c OR (if us @ vs \<noteq> [] then O_RDWR else if c = CHR ''r'' then O_RDONLY else O_WRONLY))"
      using m1(1,2) one b r w by (auto simp: fs_mode_def)
    moreover have "s = us @ [c] @ vs" using s(1) by simp
    ultimately show ?thesis using s(2) plus
      by (simp only: sum.case) (rule exI [of _ c], rule exI [of _ us], rule exI [of _ vs], intro conjI refl)
  qed
qed

end
