(* ===== verification/Fs_Sessions.thy ===== *)
theory Fs_Sessions
  imports Fs_Files
begin

text \<open>
  Commands on files that run at the same time.  A command that uses a file looks it up, sets it again in the cache and then works on it; the cache locks each of
  these steps, not the three together, and closes what it has deleted after its lock is released.
\<close>

record fs_sys =
  sy_cache :: fs_cache
  sy_open :: "fd set"
  sy_next :: fd
  sy_issued :: "(string \<times> fd) list"
  sy_now :: int
  sy_evicting :: "fd list"
  sy_refresh :: "(string \<times> fd) list"
  sy_using :: "fd list"

definition fs_start :: "int \<Rightarrow> fs_sys" where
  "fs_start now =
     \<lparr>sy_cache = [], sy_open = {}, sy_next = 0, sy_issued = [], sy_now = now, sy_evicting = [], sy_refresh = [], sy_using = []\<rparr>"

inductive fs_step :: "fs_sys \<Rightarrow> fs_sys \<Rightarrow> bool" where
  opened: "i \<notin> fst ` set (sy_issued s) \<Longrightarrow>
     fs_step s (s\<lparr>sy_cache := cache_Set (sy_now s) i (sy_next s) (sy_cache s), sy_open := insert (sy_next s) (sy_open s),
                   sy_next := Suc (sy_next s), sy_issued := (i, sy_next s) # sy_issued s\<rparr>)"
| got: "cache_Get (sy_now s) i (sy_cache s) = Some f \<Longrightarrow> fs_step s (s\<lparr>sy_refresh := (i, f) # sy_refresh s\<rparr>)"
| refreshed: "sy_refresh s = xs @ (i, f) # ys \<Longrightarrow>
     fs_step s (s\<lparr>sy_cache := cache_Set (sy_now s) i f (sy_cache s), sy_refresh := xs @ ys, sy_using := f # sy_using s\<rparr>)"
| used: "sy_using s = xs @ f # ys \<Longrightarrow> fs_step s (s\<lparr>sy_using := xs @ ys\<rparr>)"
| closed: "cache_Delete i (sy_cache s) = (c, fs) \<Longrightarrow> fs_step s (s\<lparr>sy_cache := c, sy_evicting := fs @ sy_evicting s\<rparr>)"
| expired: "cache_DeleteExpired (sy_now s) (sy_cache s) = (c, fs) \<Longrightarrow>
     fs_step s (s\<lparr>sy_cache := c, sy_evicting := fs @ sy_evicting s\<rparr>)"
| evicted: "sy_evicting s = xs @ f # ys \<Longrightarrow> fs_step s (s\<lparr>sy_open := sy_open s - {f}, sy_evicting := xs @ ys\<rparr>)"
| ticked: "sy_now s \<le> t \<Longrightarrow> fs_step s (s\<lparr>sy_now := t\<rparr>)"

section \<open>The cache\<close>

lemma in_update:
  "distinct (map fst c) \<Longrightarrow> (i, x) \<in> set (AList.update k v c) \<longleftrightarrow> (if i = k then x = v else (i, x) \<in> set c)"
  by (induction c) (auto simp: image_iff)

lemma cache_Set_facts:
  assumes "distinct (map fst c)"
  shows "distinct (map fst (cache_Set now k f c))"
    "(i, x) \<in> set (cache_Set now k f c) \<longleftrightarrow> (if i = k then x = (f, now + DefaultExpiration) else (i, x) \<in> set c)"
  using assms by (simp_all add: cache_Set_def distinct_update in_update)

lemma cache_Get_in: "cache_Get now i c = Some f \<Longrightarrow> \<exists>e. (i, f, e) \<in> set c"
proof -
  assume "cache_Get now i c = Some f"
  then obtain e where "map_of c i = Some (f, e)" by (auto simp: cache_Get_def split: option.splits if_splits)
  then show ?thesis using map_of_SomeD by fast
qed

lemma in_delete: "(i, x) \<in> set (AList.delete k c) \<longleftrightarrow> i \<noteq> k \<and> (i, x) \<in> set c"
  by (auto simp: AList.delete_eq)

lemma cache_Delete_facts:
  assumes "cache_Delete k c = (c1, fs)" "distinct (map fst c)"
  shows "distinct (map fst c1)" "set c1 \<subseteq> set c" "(i, f, e) \<in> set c \<Longrightarrow> (i, f, e) \<in> set c1 \<or> f \<in> set fs"
    "f \<in> set fs \<Longrightarrow> \<exists>i e. (i, f, e) \<in> set c"
proof -
  have c1: "c1 = AList.delete k c" and fs: "fs = (case map_of c k of None \<Rightarrow> [] | Some x \<Rightarrow> [fst x])"
    using assms(1) by (simp_all add: cache_Delete_def)
  show "distinct (map fst c1)" "set c1 \<subseteq> set c" using assms(2) by (auto simp: c1 distinct_delete in_delete)
  show "(i, f, e) \<in> set c1 \<or> f \<in> set fs" if "(i, f, e) \<in> set c"
  proof (cases "i = k")
    case True
    then have "map_of c k = Some (f, e)" using that assms(2) by simp
    then show ?thesis by (simp add: fs)
  qed (use that in \<open>simp add: c1 in_delete\<close>)
  show "\<exists>i e. (i, f, e) \<in> set c" if "f \<in> set fs"
  proof -
    from that obtain x where "map_of c k = Some x" "f = fst x" by (cases "map_of c k") (simp_all add: fs)
    then show ?thesis using map_of_SomeD [of c k x] by (cases x) auto
  qed
qed

lemma cache_DeleteExpired_facts:
  assumes "cache_DeleteExpired now c = (c1, fs)" "distinct (map fst c)"
  shows "distinct (map fst c1)" "set c1 \<subseteq> set c" "(i, f, e) \<in> set c \<Longrightarrow> (i, f, e) \<in> set c1 \<or> f \<in> set fs"
    "f \<in> set fs \<Longrightarrow> \<exists>i e. (i, f, e) \<in> set c"
  using assms by (force simp: cache_DeleteExpired_def distinct_map_filter)+

section \<open>No file is lost\<close>

text \<open>Every file that is open is in the cache, or deleted from it and about to be closed.\<close>

definition kept :: "fs_sys \<Rightarrow> fd \<Rightarrow> bool" where
  "kept s f \<longleftrightarrow> (\<exists>i e. (i, f, e) \<in> set (sy_cache s)) \<or> f \<in> set (sy_evicting s)"

definition fs_inv :: "fs_sys \<Rightarrow> bool" where
  "fs_inv s \<longleftrightarrow>
     0 \<le> sy_now s \<and> distinct (map fst (sy_cache s)) \<and> distinct (map fst (sy_issued s)) \<and>
     (\<forall>(i, f, e) \<in> set (sy_cache s). (i, f) \<in> set (sy_issued s) \<and> 0 < e) \<and>
     set (sy_refresh s) \<subseteq> set (sy_issued s) \<and> (\<forall>f \<in> sy_open s. kept s f)"

lemma fs_invD:
  assumes "fs_inv s"
  shows "0 \<le> sy_now s" "distinct (map fst (sy_cache s))" "distinct (map fst (sy_issued s))"
    "(i, f, e) \<in> set (sy_cache s) \<Longrightarrow> (i, f) \<in> set (sy_issued s)" "(i, f, e) \<in> set (sy_cache s) \<Longrightarrow> 0 < e"
    "set (sy_refresh s) \<subseteq> set (sy_issued s)" "f \<in> sy_open s \<Longrightarrow> kept s f"
  using assms by (auto simp: fs_inv_def)

lemma issued_once: "fs_inv s \<Longrightarrow> (i, f) \<in> set (sy_issued s) \<Longrightarrow> (i, g) \<in> set (sy_issued s) \<Longrightarrow> f = g"
  by (metis eq_key_imp_eq_value fs_invD(3))

lemma expiration_pos: "0 < DefaultExpiration"
  by (simp add: DefaultExpiration_def)

lemma fs_inv_step: "fs_step s t \<Longrightarrow> fs_inv s \<Longrightarrow> fs_inv t"
proof (induction rule: fs_step.induct)
  case (opened i s)
  note inv = fs_invD [OF opened.prems]
  show ?case
    using opened inv expiration_pos
    by (auto simp: fs_inv_def kept_def cache_Set_facts [OF inv(2)] image_iff split: if_splits) (metis fst_conv)+
next
  case (refreshed s xs i f ys)
  note inv = fs_invD [OF refreshed.prems]
  have i: "(i, f) \<in> set (sy_issued s)" using inv(6) refreshed.hyps by auto
  have same: "g = f" if "(i, g, e) \<in> set (sy_cache s)" for g e
    using issued_once [OF refreshed.prems i inv(4) [OF that]] by simp
  show ?case
    using refreshed inv expiration_pos i
    by (auto simp: fs_inv_def kept_def cache_Set_facts [OF inv(2)] split: if_splits) (metis same)+
next
  case (closed i s c fs)
  note inv = fs_invD [OF closed.prems]
  note facts = cache_Delete_facts [OF closed.hyps inv(2)]
  show ?case using inv facts by (auto simp: fs_inv_def kept_def) (metis+)
next
  case (expired s c fs)
  note inv = fs_invD [OF expired.prems]
  note facts = cache_DeleteExpired_facts [OF expired.hyps inv(2)]
  show ?case using inv facts by (auto simp: fs_inv_def kept_def) (metis+)
next
  case (got s i f)
  then show ?case using cache_Get_in [OF got.hyps] by (auto simp: fs_inv_def kept_def)
qed (auto simp: fs_inv_def kept_def)

lemma fs_inv_run: "fs_step\<^sup>*\<^sup>* s t \<Longrightarrow> fs_inv s \<Longrightarrow> fs_inv t"
  by (induction rule: rtranclp_induct) (simp_all add: fs_inv_step)

lemma fs_inv_start: "0 \<le> now \<Longrightarrow> fs_inv (fs_start now)"
  by (simp add: fs_inv_def fs_start_def)

text \<open>
  C37. Whatever commands run and however their steps interleave, no open file is lost: it is in the cache, where it expires, or about to be closed.
\<close>

theorem no_file_lost:
  assumes "0 \<le> now" "fs_step\<^sup>*\<^sup>* (fs_start now) s" "f \<in> sy_open s"
  shows "(\<exists>i e. (i, f, e) \<in> set (sy_cache s) \<and> 0 < e) \<or> f \<in> set (sy_evicting s)"
  using fs_invD(5,7) [OF fs_inv_run [OF assms(2) fs_inv_start [OF assms(1)]]] assms(3) unfolding kept_def by blast

definition sample_first :: fs_sys where
  "sample_first =
     \<lparr>sy_cache = [(''a'', 0, DefaultExpiration)], sy_open = {0}, sy_next = 1, sy_issued = [(''a'', 0)], sy_now = 0, sy_evicting = [],
      sy_refresh = [], sy_using = []\<rparr>"

lemma sample_open: "fs_step\<^sup>*\<^sup>* (fs_start 0) sample_first"
  using opened [of "''a''" "fs_start 0"] by (auto simp: fs_start_def cache_Set_def sample_first_def)

lemma no_file_lost_witness:
  "0 \<in> sy_open sample_first \<and> ((\<exists>i e. (i, 0, e) \<in> set (sy_cache sample_first) \<and> 0 < e) \<or> 0 \<in> set (sy_evicting sample_first))"
proof
  show o: "0 \<in> sy_open sample_first" by (simp add: sample_first_def)
  show "(\<exists>i e. (i, 0, e) \<in> set (sy_cache sample_first) \<and> 0 < e) \<or> 0 \<in> set (sy_evicting sample_first)"
    by (rule no_file_lost [OF order_refl sample_open o])
qed

section \<open>Files that are not used are closed\<close>

lemma close_all:
  "sy_evicting s = fs \<Longrightarrow> \<exists>t. fs_step\<^sup>*\<^sup>* s t \<and> t = s\<lparr>sy_open := sy_open s - set fs, sy_evicting := []\<rparr>"
proof (induction fs arbitrary: s)
  case Nil
  then show ?case by (intro exI [of _ s]) (cases s, simp)
next
  case (Cons f fs)
  let ?s = "s\<lparr>sy_open := sy_open s - {f}, sy_evicting := fs\<rparr>"
  have "fs_step s (s\<lparr>sy_open := sy_open s - {f}, sy_evicting := [] @ fs\<rparr>)"
    by (rule evicted) (simp add: Cons.prems)
  then have "fs_step s ?s" by simp
  moreover obtain t where "fs_step\<^sup>*\<^sup>* ?s t" "t = ?s\<lparr>sy_open := sy_open ?s - set fs, sy_evicting := []\<rparr>"
    using Cons.IH [of ?s] by auto
  ultimately have "fs_step\<^sup>*\<^sup>* s t" "t = s\<lparr>sy_open := sy_open s - set (f # fs), sy_evicting := []\<rparr>"
    by (auto intro: converse_rtranclp_into_rtranclp simp: Diff_insert2 [symmetric] insert_commute)
  then show ?case by blast
qed

lemma expired_all: "list_all (\<lambda>(i, f, e). 0 < e \<and> e < now) c \<Longrightarrow> cache_DeleteExpired now c = ([], map (\<lambda>(i, f, e). f) c)"
  by (induction c) (auto simp: cache_DeleteExpired_def item_expired_def)

text \<open>
  When nothing was used for the time of the cache, one round of its janitor empties it, and once what it deleted is closed no file is open, without any
  command being called.
\<close>

theorem idle_files_closed:
  assumes "0 \<le> now" "fs_step\<^sup>*\<^sup>* (fs_start now) s" "\<forall>(i, f, e) \<in> set (sy_cache s). e < sy_now s"
  shows "\<exists>t. fs_step\<^sup>*\<^sup>* s t \<and> sy_open t = {} \<and> sy_cache t = [] \<and> sy_issued t = sy_issued s \<and> sy_now t = sy_now s"
proof -
  have inv: "fs_inv s" by (rule fs_inv_run [OF assms(2) fs_inv_start [OF assms(1)]])
  have ex: "list_all (\<lambda>(i, f, e). 0 < e \<and> e < sy_now s) (sy_cache s)"
    using assms(3) fs_invD(5) [OF inv] by (auto simp: list_all_iff)
  let ?fs = "map (\<lambda>(i, f, e). f) (sy_cache s)"
  let ?s = "s\<lparr>sy_cache := [], sy_evicting := ?fs @ sy_evicting s\<rparr>"
  have step: "fs_step s ?s" by (rule expired [OF expired_all [OF ex]])
  obtain t where t: "fs_step\<^sup>*\<^sup>* ?s t" "t = ?s\<lparr>sy_open := sy_open ?s - set (?fs @ sy_evicting s), sy_evicting := []\<rparr>"
    using close_all [of ?s "?fs @ sy_evicting s"] by auto
  have "sy_open s \<subseteq> set (?fs @ sy_evicting s)"
    using fs_invD(7) [OF inv] by (force simp: kept_def)
  then have "sy_open t = {}" by (simp add: t(2) Diff_eq_empty_iff)
  moreover have "fs_step\<^sup>*\<^sup>* s t" using step t(1) by (rule converse_rtranclp_into_rtranclp)
  ultimately show ?thesis using t(2) by (intro exI [of _ t]) simp
qed

definition sample_idle :: fs_sys where
  "sample_idle =
     \<lparr>sy_cache = [(''a'', 0, DefaultExpiration)], sy_open = {0}, sy_next = 1, sy_issued = [(''a'', 0)], sy_now = DefaultExpiration + 1, sy_evicting = [],
      sy_refresh = [], sy_using = []\<rparr>"

lemma sample_idle_reachable: "fs_step\<^sup>*\<^sup>* (fs_start 0) sample_idle"
proof -
  have "fs_step sample_first sample_idle"
    using ticked [of "sample_idle\<lparr>sy_now := 0\<rparr>" "DefaultExpiration + 1"] by (simp add: sample_idle_def sample_first_def DefaultExpiration_def)
  with sample_open show ?thesis by (rule rtranclp.rtrancl_into_rtrancl)
qed

lemma idle_files_closed_witness: "\<exists>t. fs_step\<^sup>*\<^sup>* sample_idle t \<and> sy_open t = {}"
  using idle_files_closed [OF order_refl sample_idle_reachable] by (auto simp: sample_idle_def)

section \<open>A file that comes back\<close>

text \<open>
  A close that falls between the two looks of another command at the cache is undone: the identifier is known again, with a file that is closed.
\<close>

theorem closed_file_revived:
  "\<exists>s i f. fs_step\<^sup>*\<^sup>* (fs_start 0) s \<and> cache_Get (sy_now s) i (sy_cache s) = Some f \<and> f \<notin> sy_open s \<and> sy_refresh s = [] \<and> sy_evicting s = []"
proof -
  let ?s1 = sample_first
  let ?s2 = "?s1\<lparr>sy_refresh := [(''a'', 0)]\<rparr>"
  let ?s3 = "?s2\<lparr>sy_cache := [], sy_evicting := [0]\<rparr>"
  let ?s4 = "?s3\<lparr>sy_open := {}, sy_evicting := []\<rparr>"
  let ?s5 = "?s4\<lparr>sy_cache := [(''a'', 0, DefaultExpiration)], sy_refresh := [], sy_using := [0]\<rparr>"
  have "fs_step ?s1 ?s2"
    using got [of ?s1 "''a''" 0] by (simp add: sample_first_def cache_Get_def item_expired_def DefaultExpiration_def)
  moreover have "fs_step ?s2 ?s3"
    using closed [of "''a''" ?s2 "[]" "[0]"] by (simp add: sample_first_def cache_Delete_def)
  moreover have "fs_step ?s3 ?s4" using evicted [of ?s3 "[]" 0 "[]"] by (simp add: sample_first_def)
  moreover have "fs_step ?s4 ?s5" using refreshed [of ?s4 "[]" "''a''" 0 "[]"] by (simp add: sample_first_def cache_Set_def)
  ultimately have "fs_step\<^sup>*\<^sup>* (fs_start 0) ?s5" using sample_open by (meson rtranclp.rtrancl_into_rtrancl)
  moreover have "cache_Get (sy_now ?s5) ''a'' (sy_cache ?s5) = Some 0" by (simp add: sample_first_def cache_Get_def item_expired_def DefaultExpiration_def)
  ultimately show ?thesis by (intro exI [of _ ?s5] exI [of _ "''a''"] exI [of _ 0]) simp
qed

section \<open>Commands\<close>

text \<open>A recursive change of modes or owners never reports an error, even for a path that does not exist.\<close>

theorem recursive_silent:
  assumes "bool_arg ''recursive'' cmd = Some True" "string_arg ''path'' cmd = Some p" "uint_arg ''mode'' cmd = Some m"
  shows "fs_chmod h cmd (c, w) = (Inr (), (c, walk_all h (\<lambda>q. fh_Chmod h q (ModePerm AND m)) p w))"
  using assms by (simp add: fs_chmod_def fs_arg_def eff_simps onFiles_def)

end
