(* ===== verification/Flists.thy ===== *)
theory Flists
  imports Container_Paths Pm_Process
begin

text \<open>
  The images of containers and machines: \<^verbatim>\<open>helper/filesystem\<close> (fetching the meta data of an flist, mounting one, layering another on top, restoring a
  backup) and the archives of \<^verbatim>\<open>subsys/containers/flist.go\<close>.  Files, downloads, decompression, hashes and the process manager are parameters.
\<close>

section \<open>Paths\<close>

text \<open>\<^verbatim>\<open>path.Clean\<close> of any path: a relative one keeps the \<^verbatim>\<open>..\<close> it starts with.\<close>

fun rel_elems :: "string list \<Rightarrow> string list \<Rightarrow> string list" where
  "rel_elems out [] = rev out"
| "rel_elems out (e # es) =
     (if e = [] \<or> e = ''.'' then rel_elems out es
      else if e = ''..'' \<and> out \<noteq> [] \<and> hd out \<noteq> ''..'' then rel_elems (tl out) es
      else rel_elems (e # out) es)"

definition path_Clean :: "string \<Rightarrow> string" where
  "path_Clean p =
     (if hasPrefix p ''/'' then path_clean_rooted p
      else let es = rel_elems [] (split (CHR ''/'') p) in if es = [] then ''.'' else join ''/'' es)"

definition path_Dir :: "string \<Rightarrow> string" where
  "path_Dir p = path_Clean (rev (dropWhile (\<lambda>c. c \<noteq> CHR ''/'') (rev p)))"

definition path_Base :: "string \<Rightarrow> string" where
  "path_Base p =
     (if p = [] then ''.''
      else let q = rev (takeWhile (\<lambda>c. c \<noteq> CHR ''/'') (dropWhile (\<lambda>c. c = CHR ''/'') (rev p)))
           in if q = [] then ''/'' else q)"

text \<open>\<^verbatim>\<open>path.Ext\<close>: from the last dot of the last element on.\<close>

definition path_Ext :: "string \<Rightarrow> string" where
  "path_Ext p =
     (let e = rev (takeWhile (\<lambda>c. c \<noteq> CHR ''/'') (rev p))
      in if CHR ''.'' \<in> set e then CHR ''.'' # rev (takeWhile (\<lambda>c. c \<noteq> CHR ''.'') (rev e)) else [])"

section \<open>Data\<close>

datatype entry_type = TarDir | TarReg | TarOther

record tar_entry =
  te_Name :: string
  te_Type :: entry_type
  te_IsDir :: bool
  te_Mode :: int
  te_Content :: string

datatype codec = Gzip | Bzip2 | Plain

text \<open>The parts of a URL that are used, and its text without the query and the fragment.\<close>

record fl_url =
  fu_Scheme :: string
  fu_Path :: string
  fu_Password :: string
  fu_Fragment :: string
  fu_Bare :: string

text \<open>A file that a walk meets: its path, its info, the kind that \<^verbatim>\<open>tar.FileInfoHeader\<close> gives it or its error, and its content or the error of opening it.\<close>

record walked =
  wk_Path :: string
  wk_Name :: string
  wk_IsDir :: bool
  wk_Header :: "go_error + entry_type"
  wk_Mode :: int
  wk_Content :: "go_error + string"

datatype mount_event = RunReturned "go_error option" | MountStarts | MountExited bool streams

record 'w fl_host =
  fl_Parse :: "string \<Rightarrow> go_error + fl_url"
  fl_Exists :: "string \<Rightarrow> 'w \<Rightarrow> bool"
  fl_Stat :: "string \<Rightarrow> 'w \<Rightarrow> go_error option"
  fl_Open :: "string \<Rightarrow> 'w \<Rightarrow> go_error + string"
  fl_Get :: "string \<Rightarrow> 'w \<Rightarrow> go_error + int \<times> string \<times> string"
  fl_tar :: "codec \<Rightarrow> string \<Rightarrow> go_error + tar_entry list \<times> go_error option"
  fl_WriteTar :: "string \<Rightarrow> tar_entry list \<Rightarrow> 'w \<Rightarrow> go_error option \<times> 'w"
  fl_MkdirAll :: "string \<Rightarrow> 'w \<Rightarrow> go_error option \<times> 'w"
  fl_RemoveAll :: "string \<Rightarrow> 'w \<Rightarrow> go_error option \<times> 'w"
  fl_Create :: "int \<Rightarrow> string \<Rightarrow> string \<Rightarrow> 'w \<Rightarrow> go_error option \<times> 'w"
  fl_WriteOver :: "string \<Rightarrow> int \<Rightarrow> string \<Rightarrow> 'w \<Rightarrow> go_error option \<times> 'w"
  fl_IsDir :: "string \<Rightarrow> 'w \<Rightarrow> bool"
  fl_Walk :: "string \<Rightarrow> 'w \<Rightarrow> walked list \<times> go_error option"
  fl_Hash :: "string \<Rightarrow> string"
  fl_cache :: string
  fl_Restic :: "system_args \<Rightarrow> 'w \<Rightarrow> (go_error + job_result) \<times> 'w"
  fl_RunMount :: "string \<Rightarrow> system_args \<Rightarrow> 'w \<Rightarrow> mount_event list \<times> 'w"
  fl_JobOf :: "string \<Rightarrow> 'w \<Rightarrow> bool"
  fl_Signal :: "string \<Rightarrow> int \<Rightarrow> 'w \<Rightarrow> go_error option \<times> 'w"

text \<open>A nil dereference is an error of its own; \<open>FlWaits\<close> is a wait that does not end.\<close>

datatype fl_error = FlErr go_error | FlPanic | FlWaits

type_synonym ('a, 'w) fleff = "(fl_error, 'a, 'w) eff"

definition flCall :: "('w \<Rightarrow> go_error option \<times> 'w) \<Rightarrow> (unit, 'w) fleff" where
  "flCall f = wrapErr FlErr (call f)"

definition flAsk :: "('w \<Rightarrow> go_error + 'a) \<Rightarrow> ('a, 'w) fleff" where
  "flAsk f = wrapErr FlErr (ask f)"

definition flFail :: "string \<Rightarrow> ('a, 'w) fleff" where
  "flFail t = fail (FlErr (Errorf t))"

definition CacheBaseDir :: string where "CacheBaseDir = ''/var/cache''"
definition LocalRouterFile :: string where "LocalRouterFile = CacheBaseDir @ ''/router.yaml''"

section \<open>The meta data of an flist\<close>

text \<open>How the archive is compressed, by the extension of its path.\<close>

definition codec_of :: "string \<Rightarrow> codec option" where
  "codec_of ext =
     (if ext \<in> {''.tgz'', ''.flist'', ''.gz''} then Some Gzip
      else if ext \<in> {''.tbz2'', ''.bz2''} then Some Bzip2
      else if ext = ''.tar'' then Some Plain
      else None)"

text \<open>The entries of the archive, and the error at which reading them stops, if any.\<close>

definition getMetaDBTar :: "'w fl_host \<Rightarrow> string \<Rightarrow> (tar_entry list \<times> go_error option, 'w) fleff" where
  "getMetaDBTar h src =
     andThen (flAsk (\<lambda>w. fl_Parse h src)) (\<lambda>u.
     andThen
       (if fu_Scheme u = ''file'' \<or> fu_Scheme u = [] then
          andThen (flCall (\<lambda>w. (fl_Stat h (fu_Path u) w, w))) (\<lambda>_. flAsk (fl_Open h (fu_Path u)))
        else if fu_Scheme u = ''http'' \<or> fu_Scheme u = ''https'' then
          andThen (flAsk (fl_Get h src)) (\<lambda>(code, status, body).
          if code \<noteq> 200 then flFail (''failed to download flist: '' @ status) else ret body)
        else flFail (''invalid flist url ('' @ src @ '')'')) (\<lambda>bytes.
     case codec_of (path_Ext (path_Base (fu_Path u))) of
       None \<Rightarrow> flFail (''unknown flist format '' @ path_Ext (path_Base (fu_Path u)))
     | Some c \<Rightarrow> flAsk (\<lambda>w. fl_tar h c bytes)))"

text \<open>Where an entry is written: below the directory of the data base, by the name it has in the archive.\<close>

definition entry_dir :: "string \<Rightarrow> tar_entry \<Rightarrow> string" where
  "entry_dir db e = path_join [db, path_Dir (te_Name e)]"

definition entry_path :: "string \<Rightarrow> tar_entry \<Rightarrow> string" where
  "entry_path db e = path_join [db, te_Name e]"

definition meta_entry :: "'w fl_host \<Rightarrow> string \<Rightarrow> tar_entry \<Rightarrow> (unit, 'w) fleff" where
  "meta_entry h db e =
     (if te_IsDir e then ret ()
      else andThen (flCall (fl_MkdirAll h (entry_dir db e))) (\<lambda>_. flCall (fl_Create h 0x1B6 (entry_path db e) (te_Content e))))"

definition archive_end :: "go_error option \<Rightarrow> (unit, 'w) fleff" where
  "archive_end e = (case e of None \<Rightarrow> ret () | Some x \<Rightarrow> fail (FlErr x))"

definition getMetaDB :: "'w fl_host \<Rightarrow> string \<Rightarrow> string \<Rightarrow> (string, 'w) fleff" where
  "getMetaDB h location src =
     andThen (getMetaDBTar h src) (\<lambda>(es, end_err).
     let db = location @ ''.db'' in
     andThen (flCall (fl_MkdirAll h db)) (\<lambda>_.
     andThen (forEach (meta_entry h db) es) (\<lambda>_.
     andThen (archive_end end_err) (\<lambda>_. ret db))))"

section \<open>Backups\<close>

definition plain_system :: "string \<Rightarrow> string list \<Rightarrow> string \<Rightarrow> system_args" where
  "plain_system name args stdin = \<lparr>sa_Name = name, sa_Dir = [], sa_Args = args, sa_Env = [], sa_StdIn = stdin\<rparr>"

definition repo_of :: "fl_url \<Rightarrow> string" where
  "repo_of u = (if fu_Scheme u = ''file'' \<or> fu_Scheme u = [] then fu_Path u else fu_Bare u)"

definition restore_args :: "fl_url \<Rightarrow> string \<Rightarrow> string list \<Rightarrow> string list" where
  "restore_args u target incl =
     [''-r'', repo_of u, ''restore'', ''-t'', target] @ concat (map (\<lambda>i. [''-i'', i]) incl) @ [fu_Fragment u]"

definition RestoreRepo :: "'w fl_host \<Rightarrow> string \<Rightarrow> string \<Rightarrow> string list \<Rightarrow> (unit, 'w) fleff" where
  "RestoreRepo h repo target incl =
     andThen (flAsk (\<lambda>w. fl_Parse h repo)) (\<lambda>u.
     andThen (wrapErr FlErr (fl_Restic h (plain_system ''restic'' (restore_args u target incl) (fu_Password u)))) (\<lambda>result.
     if jr_State result \<noteq> Some StateSuccess then flFail (''failed to restore snapshot: '' @ Stderr (jr_Streams result)) else ret ()))"

section \<open>Mounting\<close>

definition getNSID :: "string \<Rightarrow> string" where "getNSID ns = ''zfs:'' @ ns"

definition backend_of :: "'w fl_host \<Rightarrow> string \<Rightarrow> string \<Rightarrow> string" where
  "backend_of h ns src = path_join [CacheBaseDir, ns, fl_Hash h src]"

text \<open>
  The wait for the mount: the hooks of the process and the return of \<^verbatim>\<open>pm.Run\<close> in the order they happen.  The hook of the exit uses the job, which is
  set when \<^verbatim>\<open>Run\<close> returns; \<^verbatim>\<open>Run\<close> also sets the error.
\<close>

record mount_wait =
  mw_job :: bool
  mw_err :: "go_error option"
  mw_done :: bool
  mw_panic :: bool

definition mount_step :: "string \<Rightarrow> mount_event \<Rightarrow> mount_wait \<Rightarrow> mount_wait" where
  "mount_step target ev m =
     (case ev of
        RunReturned e \<Rightarrow> m\<lparr>mw_job := True, mw_err := e\<rparr>
      | MountStarts \<Rightarrow> m\<lparr>mw_done := True\<rparr>
      | MountExited ok ss \<Rightarrow>
          if mw_done m then m
          else if ok then m\<lparr>mw_done := True\<rparr>
          else if \<not> mw_job m then m\<lparr>mw_panic := True\<rparr>
          else m\<lparr>mw_err := Some (Errorf (''abnormal exit of filesystem mount at '' @ target @ join '' '' ss)), mw_done := True\<rparr>)"

text \<open>\<^verbatim>\<open>Run\<close> that fails ends the wait at once.\<close>

fun mount_events :: "string \<Rightarrow> mount_event list \<Rightarrow> mount_wait \<Rightarrow> fl_error + unit" where
  "mount_events target evs m =
     (if mw_panic m then Inl FlPanic
      else if mw_job m \<and> (mw_done m \<or> mw_err m \<noteq> None) then (case mw_err m of None \<Rightarrow> Inr () | Some e \<Rightarrow> Inl (FlErr e))
      else case evs of
             [] \<Rightarrow> Inl FlWaits
           | ev # evs' \<Rightarrow> mount_events target evs' (mount_step target ev m))"

declare mount_events.simps [simp del]

definition mount_outcome :: "string \<Rightarrow> mount_event list \<Rightarrow> fl_error + unit" where
  "mount_outcome target evs = mount_events target evs \<lparr>mw_job = False, mw_err = None, mw_done = False, mw_panic = False\<rparr>"

definition mount_flags :: "'w fl_host \<Rightarrow> string \<Rightarrow> string list" where
  "mount_flags h backend =
     [''--reset'', ''--backend'', backend, ''--cache'', fl_cache h, ''--log'', path_join [backend, ''fs.log'']]"

definition restic_source :: "string \<Rightarrow> string option" where
  "restic_source src = strip ''restic:'' src"

definition MountFList :: "'w fl_host \<Rightarrow> string \<Rightarrow> string \<Rightarrow> string \<Rightarrow> string \<Rightarrow> (unit, 'w) fleff" where
  "MountFList h ns storage src target =
     andThen (flCall (fl_MkdirAll h target)) (\<lambda>_.
     let backend = backend_of h ns src in
     andThen (ignore (call (fl_RemoveAll h backend))) (\<lambda>_.
     andThen (ignore (call (fl_MkdirAll h backend))) (\<lambda>_.
     andThen
       (case restic_source src of
          Some repo \<Rightarrow> andThen (RestoreRepo h repo (path_join [backend, ''ro'']) []) (\<lambda>_. ret [])
        | None \<Rightarrow> andThen (getMetaDB h backend src) (\<lambda>db. ret [''--meta'', db, ''--storage-url'', storage])) (\<lambda>source_args.
     andThen (ask (\<lambda>w. Inr (if fl_Exists h LocalRouterFile w then [''--local-router'', LocalRouterFile] else []))) (\<lambda>router_args.
     (\<lambda>w. case fl_RunMount h (path_Clean (getNSID ns @ ''/'' @ target))
                 (plain_system ''g8ufs'' (mount_flags h backend @ source_args @ router_args @ [target]) []) w of
            (evs, w1) \<Rightarrow> (mount_outcome target evs, w1)))))))"

definition SIGHUP :: int where "SIGHUP = 1"

definition MergeFList :: "'w fl_host \<Rightarrow> string \<Rightarrow> string \<Rightarrow> string \<Rightarrow> string \<Rightarrow> (unit, 'w) fleff" where
  "MergeFList h ns target base flist w =
     (let i = path_Clean (getNSID ns @ ''/'' @ target) in
      if \<not> fl_JobOf h i w
      then flFail (''no filesystem running for the provided namespace and target ('' @ ns @ ''/'' @ target @ '')'') w
      else
        andThen (ignore (call (fl_MkdirAll h (backend_of h ns flist)))) (\<lambda>_.
        andThen (getMetaDB h (backend_of h ns flist) flist) (\<lambda>db.
        andThen (flCall (fl_Create h 0x1A4 (path_join [backend_of h ns base, ''.layered'']) db)) (\<lambda>_.
        flCall (fl_Signal h i SIGHUP)))) w)"

section \<open>Archives of flists\<close>

text \<open>An existing file is written over from its start and keeps what lies behind.  Directories are made with the mode 0755.\<close>

definition untar_entry :: "'w fl_host \<Rightarrow> string \<Rightarrow> tar_entry \<Rightarrow> (unit, 'w) fleff" where
  "untar_entry h dst e =
     (let target = path_join [dst, te_Name e] in
      case te_Type e of
        TarDir \<Rightarrow> (\<lambda>w. if fl_Stat h target w \<noteq> None then flCall (fl_MkdirAll h target) w else (Inr (), w))
      | TarReg \<Rightarrow> flCall (fl_WriteOver h target (te_Mode e) (te_Content e))
      | TarOther \<Rightarrow> ret ())"

definition Untar :: "'w fl_host \<Rightarrow> string \<Rightarrow> string \<Rightarrow> (unit, 'w) fleff" where
  "Untar h dst bytes =
     andThen (flCall (fl_MkdirAll h dst)) (\<lambda>_.
     andThen (flAsk (\<lambda>w. fl_tar h Gzip bytes)) (\<lambda>(es, end_err).
     andThen (forEach (untar_entry h dst) es) (\<lambda>_. archive_end end_err)))"

definition TrimPrefix :: "string \<Rightarrow> string \<Rightarrow> string" where
  "TrimPrefix s p = (case strip p s of None \<Rightarrow> s | Some t \<Rightarrow> t)"

text \<open>The name of a file in the archive.\<close>

definition tar_name :: "string \<Rightarrow> bool \<Rightarrow> walked \<Rightarrow> string" where
  "tar_name src src_dir f =
     (let n = (if wk_IsDir f \<and> wk_Path f = src then ''.''
               else if src_dir then ''.'' @ TrimPrefix (wk_Path f) src
               else wk_Name f)
      in if wk_IsDir f then n @ ''/'' else n)"

definition tar_header :: "string \<Rightarrow> bool \<Rightarrow> walked \<Rightarrow> entry_type \<Rightarrow> string \<Rightarrow> tar_entry" where
  "tar_header src src_dir f t content =
     \<lparr>te_Name = tar_name src src_dir f, te_Type = t, te_IsDir = wk_IsDir f, te_Mode = wk_Mode f, te_Content = content\<rparr>"

text \<open>What is written of the files of a walk, up to the first error; the header of a file is written before the file is opened.\<close>

fun tar_files :: "string \<Rightarrow> bool \<Rightarrow> walked list \<Rightarrow> go_error option \<Rightarrow> tar_entry list \<times> go_error option" where
  "tar_files src d [] e = ([], e)"
| "tar_files src d (f # fs) e =
     (case wk_Header f of
        Inl x \<Rightarrow> ([], Some x)
      | Inr t \<Rightarrow>
          if wk_IsDir f \<or> t \<noteq> TarReg then apfst (Cons (tar_header src d f t [])) (tar_files src d fs e)
          else (case wk_Content f of
                  Inl x \<Rightarrow> ([tar_header src d f t []], Some (Errorf (wk_Path f @ '': open: '' @ err_Text x)))
                | Inr content \<Rightarrow> apfst (Cons (tar_header src d f t content)) (tar_files src d fs e)))"

text \<open>Into the file \<open>out\<close>, which is open and empty; the errors of closing the archive are dropped.\<close>

definition Tar :: "'w fl_host \<Rightarrow> string \<Rightarrow> string \<Rightarrow> (unit, 'w) fleff" where
  "Tar h src out w =
     (case fl_Stat h src w of
        Some e \<Rightarrow> flFail (''Unable to tar files - '' @ err_Text e) w
      | None \<Rightarrow>
          (case fl_Walk h src w of
             (fs, walk_err) \<Rightarrow>
               (case tar_files src (fl_IsDir h src w) fs walk_err of
                  (es, e) \<Rightarrow> andThen (flCall (fl_WriteTar h out es)) (\<lambda>_. archive_end e) w)))"

definition addRouterFile :: "'w fl_host \<Rightarrow> string \<Rightarrow> string \<Rightarrow> (unit, 'w) fleff" where
  "addRouterFile h flist router =
     (let dir = flist @ ''.d'' in
      andThen (flAsk (fl_Open h flist)) (\<lambda>bytes.
      andThen (Untar h dir bytes) (\<lambda>_.
      attempt
        (andThen (flCall (fl_Create h 0x1B0 (path_join [dir, ''router.yaml'']) router)) (\<lambda>_.
         andThen (flCall (fl_Create h 0x1B0 flist [])) (\<lambda>_.
         Tar h dir flist)))
        (\<lambda>r. andThen (ignore (call (fl_RemoveAll h dir))) (\<lambda>_. case r of Inl e \<Rightarrow> fail e | Inr u \<Rightarrow> ret u)))))"

section \<open>Where the entries of an archive go\<close>

text \<open>A path below a directory, given by its elements.\<close>

lemma join_below:
  assumes "\<forall>e \<in> set ds. clean_elem e" "ds \<noteq> []"
  shows "path_join [''/'' @ join ''/'' ds, q] =
         ''/'' @ join ''/'' (clean_elems (rev ds) (if q = [] then [] else split (CHR ''/'') q))"
proof -
  have s: "split (CHR ''/'') (''/'' @ join ''/'' ds) = [] # ds"
    using assms split_join [of ds "CHR ''/''"] by (auto simp: clean_elem_def)
  have e: "clean_elems [] ([] # ds) = ds" using clean_elems_id [OF assms(1)] by simp
  have "split (CHR ''/'') ((''/'' @ join ''/'' ds) @ ''/'' @ q) = ([] # ds) @ split (CHR ''/'') q"
    using split_append [of "CHR ''/''" "''/'' @ join ''/'' ds" q] s by simp
  moreover have "clean_elems [] (([] # ds) @ split (CHR ''/'') q) = clean_elems (rev ds) (split (CHR ''/'') q)"
    by (simp only: clean_elems_append e)
  ultimately show ?thesis using s e by (simp add: path_join_def path_clean_rooted_def)
qed

lemma clean_elems_no_parent:
  "''..'' \<notin> set es \<Longrightarrow> clean_elems out es = rev out @ filter (\<lambda>e. e \<noteq> [] \<and> e \<noteq> ''.'') es"
proof (induction es arbitrary: out)
  case (Cons e es)
  then show ?case by (cases "e = ''..''") auto
qed simp

lemma clean_elems_parents: "clean_elems out (replicate n ''..'' @ es) = clean_elems (drop n out) es"
  by (induction n arbitrary: out) (simp_all add: drop_Suc)

lemma split_parents: "split (CHR ''/'') (concat (replicate n ''../'') @ s) = replicate n ''..'' @ split (CHR ''/'') s"
  by (induction n) simp_all



lemma mount_events_job:
  "\<forall>ev \<in> set evs. \<forall>e. ev \<noteq> RunReturned e \<Longrightarrow>
   mount_events target evs \<lparr>mw_job = True, mw_err = None, mw_done = False, mw_panic = False\<rparr> =
     (case evs of
        [] \<Rightarrow> Inl FlWaits
      | MountExited False ss # _ \<Rightarrow> Inl (FlErr (Errorf (''abnormal exit of filesystem mount at '' @ target @ join '' '' ss)))
      | _ \<Rightarrow> Inr ())"
  by (auto simp: mount_events.simps [of _ "_ # _"] mount_events.simps [of _ "[]"] mount_events.simps [of _ _ "\<lparr>mw_job = True, mw_err = _, mw_done = True, mw_panic = _\<rparr>"]
      mount_step_def split: list.splits mount_event.splits bool.splits)





end
