(* ===== verification/Container_Commands.thy ===== *)
theory Container_Commands
  imports Flists Container_Safety Socat_Forward
begin

text \<open>
  The commands of the container manager that do not change which containers there are: \<^verbatim>\<open>manager.go\<close> (looking containers up, the set-up of the manager,
  layering an flist), \<^verbatim>\<open>flist.go\<close> (an flist from the files of a container) and \<^verbatim>\<open>backup.go\<close>.  Arguments come decoded, but for those that are looked at
  by their kind.
\<close>

section \<open>What is around the manager\<close>

text \<open>A router table: pools by name, of addresses by range of hashes, and the order they are tried in.\<close>

record router =
  rt_Pools :: "(string \<times> (string \<times> string) list) list"
  rt_Lookup :: "string list"

text \<open>
  The host of containers and of flists, signals to a process group, encodings, directories, the network interfaces and the process manager.
  \<open>tl_Range\<close> is the order in which a Go map is gone through; a real number that is not a \<^verbatim>\<open>uint16\<close> when cut is \<^const>\<open>None\<close>;
  \<open>tl_Stats\<close> is \<^const>\<open>None\<close> when there is no job of the name.
\<close>

record ('w, 'c, 'st) ct_tools =
  tl_Host :: "('w, 'c) chost"
  tl_Files :: "('w \<times> 'c) fl_host"
  tl_KillGroup :: "int \<Rightarrow> int \<Rightarrow> 'w \<times> 'c \<Rightarrow> 'w \<times> 'c"
  tl_Yaml :: "router \<Rightarrow> go_error + string"
  tl_Marshal :: "create_args \<Rightarrow> go_error + string"
  tl_Decode :: "string \<Rightarrow> go_error + json"
  tl_Trunc :: "string \<Rightarrow> u16 option"
  tl_Range :: "port_map \<Rightarrow> (string \<times> int) list"
  tl_ReadDir :: "string \<Rightarrow> 'w \<times> 'c \<Rightarrow> go_error + string list"
  tl_Remove :: "string \<Rightarrow> 'w \<times> 'c \<Rightarrow> 'w \<times> 'c"
  tl_TempDir :: "'w \<times> 'c \<Rightarrow> (go_error + string) \<times> 'w \<times> 'c"
  tl_Nics :: "'w \<times> 'c \<Rightarrow> go_error + (string \<times> (go_error + string list)) list"
  tl_Stats :: "string \<Rightarrow> 'w \<times> 'c \<Rightarrow> 'st option"
  tl_Run :: "string \<Rightarrow> json \<Rightarrow> 'w \<times> 'c \<Rightarrow> (go_error + job_result) \<times> 'w \<times> 'c"
  tl_Wait :: "u16 \<Rightarrow> ('w, 'c) cstate \<Rightarrow> job_result \<times> ('w, 'c) cstate"

datatype cc_error = CtErr ct_error | FlistErr fl_error | LookupErr nft_error

type_synonym ('a, 'w, 'c) cceff = "(cc_error, 'a, 'w \<times> 'c) eff"

definition ccFail :: "string \<Rightarrow> ('a, 'w, 'c) cceff" where
  "ccFail t = fail (CtErr (GoErr (Errorf t)))"

definition ccPlain :: "(go_error, 'a, 'w \<times> 'c) eff \<Rightarrow> ('a, 'w, 'c) cceff" where
  "ccPlain m = wrapErr (\<lambda>e. CtErr (GoErr e)) m"

text \<open>A deferred call runs after the rest, whatever the rest returns.\<close>

definition deferred :: "('s \<Rightarrow> 's) \<Rightarrow> ('e, 'a, 's) eff \<Rightarrow> ('e, 'a, 's) eff" where
  "deferred f m s = (case m s of (r, s1) \<Rightarrow> (r, f s1))"

section \<open>The set-up of the manager\<close>

definition allowed_devices :: "string list" where
  "allowed_devices =
     [''c 1:5 rwm'', ''c 1:3 rwm'', ''c 1:9 rwm'', ''c 1:7 rwm'', ''c 1:8 rwm'', ''c 5:0 rwm'', ''c 5:1 rwm'', ''c 5:2 rwm'', ''c *:* m'',
      ''c 136:* rwm'', ''c 10:200 rwm'']"

text \<open>The group of the devices subsystem is a devices group, so the test of its type succeeds; errors of the writes are dropped.\<close>

definition setUpCGroups :: "'x cg_fs \<Rightarrow> 'x \<Rightarrow> go_error option \<times> 'x" where
  "setUpCGroups fs s =
     (case GetGroup fs (fst DevicesCGroup) (snd DevicesCGroup) s of
        (Inl e, s1) \<Rightarrow> (Some e, s1)
      | (Inr g, s1) \<Rightarrow>
          if cg_subsys g = DevicesSubsystem
          then (None, fold (\<lambda>spec s. snd (Allow fs g spec s)) allowed_devices (snd (Deny fs g ''a'' s1)))
          else (Some (Errorf ''failed to setup devices cgroups''), s1))"

definition DefaultBridgeCIDR :: string where "DefaultBridgeCIDR = DefaultBridgeIP @ ''/16''"

definition default_bridge :: json where
  "default_bridge =
     JObj [(''name'', JStr DefaultBridgeName),
           (''network'', JObj [(''nat'', JBool True), (''mode'', JStr ''static''), (''settings'', JObj [(''cidr'', JStr DefaultBridgeCIDR)])])]"

definition setUpDefaultBridge :: "('w, 'c, 'st) ct_tools \<Rightarrow> (unit, 'w, 'c) cceff" where
  "setUpDefaultBridge t =
     andThen (ccPlain (tl_Run t ''bridge.create'' default_bridge)) (\<lambda>result.
     if jr_State result \<noteq> Some StateSuccess then ccFail (''failed to create default container bridge: '' @ jr_Data result) else ret ())"

text \<open>The set-up of \<^verbatim>\<open>ContainerSubsystem\<close>; the rest of it registers the commands.\<close>

definition ContainerSubsystem :: "('w, 'c, 'st) ct_tools \<Rightarrow> (container_mgr, 'w, 'c) cceff" where
  "ContainerSubsystem t =
     andThen (ccPlain (call (setUpCGroups (ch_cgroups (tl_Host t))))) (\<lambda>_.
     andThen (setUpDefaultBridge t) (\<lambda>_. ret \<lparr>cm_sequence = 0, cm_containers = []\<rparr>))"

section \<open>Looking containers up\<close>

text \<open>Which container a query is for: \<open>Inl\<close> when it is none.\<close>

definition query_of :: "('w, 'c, 'st) ct_tools \<Rightarrow> json \<Rightarrow> container_mgr \<Rightarrow> go_error + u16 \<times> container option" where
  "query_of t q m =
     (case q of
        JStr name \<Rightarrow> Inr (getByName name m)
      | JNum n \<Rightarrow>
          if n < 0 \<or> n > 65535 then Inl (BadRequestError ''query out of range'') else Inr (getByID (of_int n) m)
      | JReal x \<Rightarrow> (case tl_Trunc t x of None \<Rightarrow> Inl (BadRequestError ''query out of range'') | Some i \<Rightarrow> Inr (getByID i m))
      | _ \<Rightarrow> Inl (BadRequestError ''invalid query''))"

definition with_ports :: "(string \<times> int) list \<Rightarrow> container \<Rightarrow> container" where
  "with_ports ps c = c\<lparr>ct_Args := (ct_Args c)\<lparr>cc_Port := ps\<rparr>\<rparr>"

definition of_host :: "('w \<Rightarrow> ('e + 'a) \<times> 'w) \<Rightarrow> ('e, 'a, 'w \<times> 'c) eff" where
  "of_host f s = (case s of (w, c) \<Rightarrow> (case f w of (r, w1) \<Rightarrow> (r, w1, c)))"

text \<open>A container that is not there is an answer, not an error.  The forwards found become those of the container.\<close>

definition get_cmd ::
  "('w, 'c, 'st) ct_tools \<Rightarrow> json \<Rightarrow> ('w, 'c) cstate \<Rightarrow> (cc_error + (u16 \<times> container) option) \<times> ('w, 'c) cstate" where
  "get_cmd t q ms =
     (case ms of (m, s) \<Rightarrow>
        (case query_of t q m of
           Inl e \<Rightarrow> (Inl (CtErr (GoErr e)), ms)
         | Inr (i, None) \<Rightarrow> (Inr None, ms)
         | Inr (i, Some c) \<Rightarrow>
             (case of_host (List_ns (ch_host (tl_Host t)) (forwardId (ct_id c))) s of
                (Inl e, s1) \<Rightarrow> (Inl (LookupErr e), m, s1)
              | (Inr ports, s1) \<Rightarrow>
                  let c1 = with_ports (tl_Range t ports) c in (Inr (Some (i, c1)), updContainer c1 m, s1))))"

definition listed_ports :: "('w, 'c, 'st) ct_tools \<Rightarrow> (ns \<rightharpoonup> port_map) \<Rightarrow> u16 \<Rightarrow> (string \<times> int) list" where
  "listed_ports t rules i = (case rules (forwardId i) of None \<Rightarrow> [] | Some m \<Rightarrow> tl_Range t m)"

text \<open>The containers whose job is there, with the statistics of their process.\<close>

definition with_stats :: "('w, 'c, 'st) ct_tools \<Rightarrow> 'w \<times> 'c \<Rightarrow> container list \<Rightarrow> (u16 \<times> 'st \<times> container) list" where
  "with_stats t s cs =
     List.map_filter (\<lambda>c. map_option (\<lambda>st. (ct_id c, st, c)) (tl_Stats t (core_id (ct_id c)) s)) cs"

definition list_cmd ::
  "('w, 'c, 'st) ct_tools \<Rightarrow> ('w, 'c) cstate \<Rightarrow> (cc_error + (u16 \<times> 'st \<times> container) list) \<times> ('w, 'c) cstate" where
  "list_cmd t ms =
     (case ms of (m, s) \<Rightarrow>
        (case of_host (ListAll (ch_host (tl_Host t)) Container) s of
           (Inl e, s1) \<Rightarrow> (Inl (LookupErr e), m, s1)
         | (Inr rules, s1) \<Rightarrow>
             let m1 = m\<lparr>cm_containers := map (\<lambda>(i, c). (i, with_ports (listed_ports t rules (ct_id c)) c)) (cm_containers m)\<rparr>
             in (Inr (with_stats t s1 (map snd (cm_containers m1))), m1, s1)))"

definition find_cmd :: "('w, 'c, 'st) ct_tools \<Rightarrow> string list \<Rightarrow> ('w, 'c) cstate \<Rightarrow> (u16 \<times> 'st \<times> container) list" where
  "find_cmd t tags ms = with_stats t (snd ms) (GetWithTags tags (fst ms))"

text \<open>\<^verbatim>\<open>createSync\<close> waits for the end of the container; \<^const>\<open>None\<close> is the search for an identifier that never ends.\<close>

definition createSync ::
  "('w, 'c, 'st) ct_tools \<Rightarrow> int \<Rightarrow> json \<Rightarrow> string list \<Rightarrow> ('w, 'c) cstate \<Rightarrow> ((ct_error + job_result) \<times> ('w, 'c) cstate) option" where
  "createSync t maxCount j tags ms =
     (case create_args_of j of
        None \<Rightarrow> Some (Inl (GoErr (Errorf ''json'')), ms)
      | Some args \<Rightarrow>
          map_option (\<lambda>(r, ms1). case r of Inl e \<Rightarrow> (Inl e, ms1) | Inr i \<Rightarrow> apfst Inr (tl_Wait t i ms1))
            (createContainer (tl_Host t) maxCount (args\<lparr>cc_Tags := tags\<rparr>) ms))"

section \<open>Images\<close>

definition mergeFList :: "('w, 'c, 'st) ct_tools \<Rightarrow> container \<Rightarrow> string \<Rightarrow> (unit, 'w, 'c) cceff" where
  "mergeFList t c src =
     wrapErr FlistErr (MergeFList (tl_Files t) (''containers/'' @ ct_name c) (ct_root c) (cc_Root (ct_Args c)) src)"

definition flistLayer :: "('w, 'c, 'st) ct_tools \<Rightarrow> container_mgr \<Rightarrow> u16 \<Rightarrow> string \<Rightarrow> (unit, 'w, 'c) cceff" where
  "flistLayer t m i flist =
     (case Of i m of None \<Rightarrow> fail (CtErr no_container) | Some c \<Rightarrow> mergeFList t c flist)"

record flist_args =
  fa_Container :: u16
  fa_Flist :: string
  fa_Storage :: string
  fa_Src :: string
  fa_Token :: string
  fa_Hub :: string

definition flist_Validate :: "flist_args \<Rightarrow> string option" where
  "flist_Validate a =
     (if fa_Container a = 0 then Some ''invalid container id''
      else if fa_Flist a = [] then Some ''flist destination need to be specified''
      else if fa_Storage a = [] then Some ''flist data storage need to be specified''
      else if fa_Src a = [] then Some ''source directory need to be specified''
      else if fa_Hub a \<noteq> [] \<and> fa_Token a = [] then Some ''if hub url is provided, token can not be empty''
      else None)"

definition containerPath :: "container \<Rightarrow> string \<Rightarrow> string" where
  "containerPath c p = path_join [ct_Root c, p]"

definition zflist_args :: "flist_args \<Rightarrow> string \<Rightarrow> string \<Rightarrow> string \<Rightarrow> string list" where
  "zflist_args a archive src storage =
     [''zflist'', ''--archive'', archive, ''--create'', src, ''--backend'', storage] @
     (if fa_Token a = [] then []
      else if fa_Hub a \<noteq> [] then [''--upload'', fa_Hub a, ''--token'', fa_Token a]
      else [''--upload'', ''--token'', fa_Token a])"

definition router_for :: "string \<Rightarrow> router" where
  "router_for storage = \<lparr>rt_Pools = [(''private'', [(''00:FF'', ''zdb://'' @ storage)])], rt_Lookup = [''private'']\<rparr>"

definition SIGSTOP :: int where "SIGSTOP = 19"
definition SIGCONT :: int where "SIGCONT = 18"

text \<open>The processes of a container are stopped while its files are read.\<close>

definition paused :: "('w, 'c, 'st) ct_tools \<Rightarrow> container \<Rightarrow> ('a, 'w, 'c) cceff \<Rightarrow> ('a, 'w, 'c) cceff" where
  "paused t c m s = deferred (tl_KillGroup t (ct_PID c) SIGCONT) m (tl_KillGroup t (ct_PID c) SIGSTOP s)"

definition resolve_storage :: "('w, 'c, 'st) ct_tools \<Rightarrow> string \<Rightarrow> (string, 'w, 'c) cceff" where
  "resolve_storage t storage s = of_host (\<lambda>w. apfst Inr (Resolve (ch_host (tl_Host t)) (tl_Nics t s) storage w)) s"

text \<open>The path of the archive is returned along with the error of adding the router table.\<close>

definition flistCreate :: "('w, 'c, 'st) ct_tools \<Rightarrow> container_mgr \<Rightarrow> flist_args \<Rightarrow> (string, 'w, 'c) cceff" where
  "flistCreate t m a =
     (case flist_Validate a of
        Some e \<Rightarrow> ccFail e
      | None \<Rightarrow>
          (case Of (fa_Container a) m of
             None \<Rightarrow> ccFail ''container does not exist''
           | Some c \<Rightarrow>
               if ct_PID c = 0 then ccFail ''container is not fully started yet''
               else
                 let archive = containerPath c (fa_Flist a); src = containerPath c (fa_Src a) in
                 paused t c
                   (andThen (resolve_storage t (fa_Storage a)) (\<lambda>storage.
                    andThen (ccPlain (system (tl_Host t) (zflist_args a archive src storage))) (\<lambda>_.
                    andThen (ccPlain (ask (\<lambda>_. tl_Yaml t (router_for (fa_Storage a))))) (\<lambda>bytes.
                    andThen (wrapErr FlistErr (addRouterFile (tl_Files t) archive bytes)) (\<lambda>_. ret archive)))))))"

section \<open>Backups\<close>

definition backupMetaName :: string where "backupMetaName = ''.corex.meta''"

text \<open>The expression \<^verbatim>\<open>snapshot ([^\s]+) saved\<close>.\<close>

fun findSnapshot :: "string \<Rightarrow> string option" where
  "findSnapshot [] = None"
| "findSnapshot (c # s) =
     (case Option.bind (strip ''snapshot '' (c # s)) (many1 (\<lambda>x. \<not> reSpace x)) of
        Some (i, r) \<Rightarrow> if hasPrefix r '' saved'' then Some i else findSnapshot s
      | None \<Rightarrow> findSnapshot s)"

definition tag_args :: "string list \<Rightarrow> string list" where
  "tag_args tags = concat (map (\<lambda>t. [''--tag'', t]) tags)"

definition backup_args :: "fl_url \<Rightarrow> container \<Rightarrow> string list \<Rightarrow> string list \<Rightarrow> string list" where
  "backup_args u c tags files =
     [''-r'', repo_of u, ''backup'', ''--exclude'', ''proc/**'', ''--exclude'', ''dev/**'', ''--exclude'', ''sys/**''] @
     tag_args (cc_Tags (ct_Args c)) @ tag_args tags @ files"

text \<open>The arguments that are kept with a backup: only devices that work are created again.\<close>

definition backup_meta :: "create_args \<Rightarrow> create_args" where
  "backup_meta a = a\<lparr>cc_Nics := filter (\<lambda>n. nic_State n = NicStateConfigured) (cc_Nics a)\<rparr>"

definition run_backup :: "('w, 'c, 'st) ct_tools \<Rightarrow> container \<Rightarrow> system_args \<Rightarrow> (string, 'w, 'c) cceff" where
  "run_backup t c args =
     paused t c
       (andThen (ccPlain (fl_Restic (tl_Files t) args)) (\<lambda>result.
        if jr_State result \<noteq> Some StateSuccess then ccFail (''failed to backup container: '' @ Stderr (jr_Streams result))
        else case findSnapshot (Stdout (jr_Streams result)) of
               None \<Rightarrow> ccFail ''failed to retrieve snapshot ID''
             | Some i \<Rightarrow> ret i))"

definition backup_files :: "string \<Rightarrow> string list \<Rightarrow> string list" where
  "backup_files rt items = map (\<lambda>i. path_join [rt, i]) (filter (\<lambda>i. i \<noteq> coreXBinaryName) items)"

definition backup_cmd :: "('w, 'c, 'st) ct_tools \<Rightarrow> container_mgr \<Rightarrow> u16 \<Rightarrow> string \<Rightarrow> string list \<Rightarrow> (string, 'w, 'c) cceff" where
  "backup_cmd t m i url tags =
     (if i = 0 then ccFail ''invalid container id''
      else case Of i m of
             None \<Rightarrow> ccFail ''container does not exist''
           | Some c \<Rightarrow>
               if ct_PID c = 0 then ccFail ''container is not fully started yet''
               else
                 andThen (ccPlain (ask (\<lambda>_. fl_Parse (tl_Files t) url))) (\<lambda>u.
                 let mf = path_join [ct_root c, backupMetaName] in
                 andThen (ccPlain (ask (\<lambda>_. tl_Marshal t (backup_meta (ct_Args c))))) (\<lambda>meta.
                 andThen (ccPlain (call (fl_Create (tl_Files t) 0x100 mf meta))) (\<lambda>_.
                 deferred (tl_Remove t mf)
                   (andThen (ccPlain (ask (tl_ReadDir t (ct_root c)))) (\<lambda>items.
                    let files = backup_files (ct_root c) items in
                    if files = [] then ccFail ''nothing to backup''
                    else run_backup t c (plain_system ''restic'' (backup_args u c tags files) (fu_Password u))))))))"

text \<open>The arguments a backup is restored with.\<close>

definition read_meta :: "('w, 'c, 'st) ct_tools \<Rightarrow> string \<Rightarrow> string \<Rightarrow> (create_args, 'w, 'c) cceff" where
  "read_meta t url tmp =
     andThen (wrapErr FlistErr (RestoreRepo (tl_Files t) url tmp [backupMetaName])) (\<lambda>_.
     andThen (ccPlain (ask (fl_Open (tl_Files t) (path_join [tmp, backupMetaName])))) (\<lambda>meta.
     andThen (ccPlain (ask (\<lambda>_. tl_Decode t meta))) (\<lambda>j.
     case create_args_of j of None \<Rightarrow> ccFail ''json'' | Some a \<Rightarrow> ret a)))"

definition restored_args :: "string \<Rightarrow> string list \<Rightarrow> create_args \<Rightarrow> create_args" where
  "restored_args url tags a = a\<lparr>cc_Root := ''restic:'' @ url, cc_Tags := tags\<rparr>"

definition restore_cmd ::
  "('w, 'c, 'st) ct_tools \<Rightarrow> int \<Rightarrow> string \<Rightarrow> string list \<Rightarrow> ('w, 'c) cstate \<Rightarrow> ((cc_error + u16) \<times> ('w, 'c) cstate) option" where
  "restore_cmd t maxCount url tags ms =
     (case ms of (m, s) \<Rightarrow>
        (case tl_TempDir t s of
           (Inl e, s1) \<Rightarrow> Some (Inl (CtErr (GoErr e)), m, s1)
         | (Inr tmp, s1) \<Rightarrow>
             let clear = (\<lambda>s. snd (fl_RemoveAll (tl_Files t) tmp s)) in
             (case read_meta t url tmp s1 of
                (Inl e, s2) \<Rightarrow> Some (Inl e, m, clear s2)
              | (Inr a, s2) \<Rightarrow>
                  map_option (\<lambda>(r, m3, s3). (case r of Inl e \<Rightarrow> Inl (CtErr e) | Inr i \<Rightarrow> Inr i, m3, clear s3))
                    (createContainer (tl_Host t) maxCount (restored_args url tags a) (m, s2)))))"

section \<open>Stopped processes\<close>

text \<open>What the process groups that are stopped, \<open>obs\<close>, depend on: nothing but the two signals.\<close>

definition spares :: "('w, 'c, 'st) ct_tools \<Rightarrow> ('w \<times> 'c \<Rightarrow> int set) \<Rightarrow> bool" where
  "spares t obs \<longleftrightarrow>
     (\<forall>p s. obs (tl_KillGroup t p SIGSTOP s) = insert p (obs s)) \<and>
     (\<forall>p s. obs (tl_KillGroup t p SIGCONT s) = obs s - {p}) \<and>
     (\<forall>a s. obs (snd (fl_Restic (tl_Files t) a s)) = obs s) \<and>
     (\<forall>p s. obs (snd (fl_MkdirAll (tl_Files t) p s)) = obs s) \<and>
     (\<forall>p s. obs (snd (fl_RemoveAll (tl_Files t) p s)) = obs s) \<and>
     (\<forall>k p x s. obs (snd (fl_Create (tl_Files t) k p x s)) = obs s) \<and>
     (\<forall>p k x s. obs (snd (fl_WriteOver (tl_Files t) p k x s)) = obs s) \<and>
     (\<forall>p es s. obs (snd (fl_WriteTar (tl_Files t) p es s)) = obs s) \<and>
     (\<forall>p s. obs (tl_Remove t p s) = obs s) \<and>
     (\<forall>args w c. obs (snd (h_System (ch_host (tl_Host t)) args w), c) = obs (w, c))"

definition only_stopped :: "('s \<Rightarrow> int set) \<Rightarrow> int set \<Rightarrow> 's \<Rightarrow> bool" where
  "only_stopped obs A s \<longleftrightarrow> obs s \<subseteq> A"

lemma spares_facts:
  assumes "spares t obs"
  shows "obs (tl_KillGroup t p SIGSTOP s) = insert p (obs s)" "obs (tl_KillGroup t p SIGCONT s) = obs s - {p}"
    "obs (snd (fl_Restic (tl_Files t) a s)) = obs s" "obs (snd (fl_MkdirAll (tl_Files t) q s)) = obs s"
    "obs (snd (fl_RemoveAll (tl_Files t) q s)) = obs s" "obs (snd (fl_Create (tl_Files t) k q x s)) = obs s"
    "obs (snd (fl_WriteOver (tl_Files t) q k x s)) = obs s" "obs (snd (fl_WriteTar (tl_Files t) q es s)) = obs s"
    "obs (tl_Remove t q s) = obs s" "obs (snd (h_System (ch_host (tl_Host t)) args w), c) = obs (w, c)"
  using assms by (simp_all add: spares_def del: split_paired_All)

lemma keeps_paused:
  assumes "spares t obs" "\<And>B. keeps (only_stopped obs B) m"
  shows "keeps (only_stopped obs A) (paused t c m)"
  unfolding keeps_def
proof (intro allI impI)
  fix s assume "only_stopped obs A s"
  then have "only_stopped obs (insert (ct_PID c) A) (tl_KillGroup t (ct_PID c) SIGSTOP s)"
    by (auto simp: only_stopped_def spares_facts [OF assms(1)])
  then have "only_stopped obs (insert (ct_PID c) A) (snd (m (tl_KillGroup t (ct_PID c) SIGSTOP s)))" by (rule keepsD [OF assms(2)])
  then show "only_stopped obs A (snd (paused t c m s))"
    by (auto simp: paused_def deferred_def only_stopped_def case_prod_beta spares_facts [OF assms(1)])
qed

lemma keeps_deferred: "keeps P m \<Longrightarrow> (\<And>s. P s \<Longrightarrow> P (f s)) \<Longrightarrow> keeps P (deferred f m)"
  by (fastforce simp: keeps_def deferred_def split: prod.splits)

lemma keeps_of_host: "(\<And>w c. P (w, c) \<Longrightarrow> P (snd (f w), c)) \<Longrightarrow> keeps P (of_host f)"
  by (fastforce simp: keeps_def of_host_def split: prod.splits)

lemma Find_calls: "snd (Find h f w) = snd (h_System h list_call w)"
  by (simp add: Find_def split: prod.splits option.splits)

lemma Resolve_calls: "snd (Resolve h nics a w) = w \<or> snd (Resolve h nics a w) = snd (h_System h list_call w)"
proof -
  have "snd (case Find h f w of (Inl e, w1) \<Rightarrow> (a, w1) | (Inr [], w1) \<Rightarrow> (a, w1)
         | (Inr (r # rs), w1) \<Rightarrow> (case findDnat (fr_Body r) of None \<Rightarrow> (a, w1) | Some b \<Rightarrow> (b, w1))) = snd (Find h f w)" for f
    by (auto split: prod.splits sum.splits list.splits option.splits)
  then show ?thesis by (simp add: Resolve_def Find_calls split: sum.splits)
qed

lemma keeps_system:
  assumes "spares t obs" shows "keeps (only_stopped obs A) (system (tl_Host t) args)"
  unfolding keeps_def
proof (intro allI impI)
  fix s assume s: "only_stopped obs A s"
  obtain w c where wc: "s = (w, c)" by (cases s)
  obtain job e w1 where h: "h_System (ch_host (tl_Host t)) args w = ((job, e), w1)" by (metis prod.exhaust)
  have "obs (w1, c) = obs (w, c)" using spares_facts(10) [OF assms, of args w c] h by simp
  then show "only_stopped obs A (snd (system (tl_Host t) args s))"
    using s wc h by (simp add: system_def only_stopped_def split: option.split)
qed

lemma keeps_resolve:
  assumes "spares t obs" shows "keeps (only_stopped obs A) (resolve_storage t storage)"
  unfolding keeps_def
proof (intro allI impI)
  fix s assume s: "only_stopped obs A s"
  obtain w c where wc: "s = (w, c)" by (cases s)
  have "obs (snd (Resolve (ch_host (tl_Host t)) (tl_Nics t s) storage w), c) = obs (w, c)"
    by (rule disjE [OF Resolve_calls [of "ch_host (tl_Host t)" "tl_Nics t s" storage w]]) (simp_all only: spares_facts(10) [OF assms])
  then show "only_stopped obs A (snd (resolve_storage t storage s))"
    using s wc by (simp add: resolve_storage_def of_host_def only_stopped_def case_prod_beta)
qed

lemma keeps_fl:
  assumes "spares t obs"
  shows "keeps (only_stopped obs A) (call (fl_MkdirAll (tl_Files t) p))" "keeps (only_stopped obs A) (call (fl_RemoveAll (tl_Files t) p))"
    "keeps (only_stopped obs A) (call (fl_Create (tl_Files t) k p x))" "keeps (only_stopped obs A) (call (fl_WriteOver (tl_Files t) p k x))"
    "keeps (only_stopped obs A) (call (fl_WriteTar (tl_Files t) p es))" "keeps (only_stopped obs A) (fl_Restic (tl_Files t) args)"
  by (rule keeps_call, simp add: only_stopped_def spares_facts [OF assms])+
     (simp add: keeps_def only_stopped_def spares_facts [OF assms] del: split_paired_All)

lemmas keeps_files = keeps_intros keeps_fl

lemma keeps_if_state: "keeps P m \<Longrightarrow> keeps P n \<Longrightarrow> keeps P (\<lambda>s. if b s then m s else n s)"
  by (simp add: keeps_def)

lemma keeps_archive_end: "keeps P (archive_end e)"
  by (auto simp: archive_end_def split: option.split intro: keeps_intros)

lemma keeps_untar_entry: "spares t obs \<Longrightarrow> keeps (only_stopped obs A) (untar_entry (tl_Files t) dst e)"
  by (cases "te_Type e")
     (auto simp: untar_entry_def Let_def flCall_def ret_def [symmetric] eff_simps(1) [symmetric] intro!: keeps_files keeps_if_state)

lemma keeps_untar: "spares t obs \<Longrightarrow> keeps (only_stopped obs A) (Untar (tl_Files t) dst bytes)"
  by (auto simp: Untar_def flCall_def flAsk_def intro!: keeps_files keeps_untar_entry keeps_archive_end split: prod.split)

lemma keeps_tar:
  assumes "spares t obs" shows "keeps (only_stopped obs A) (Tar (tl_Files t) src out)"
proof -
  have k: "keeps (only_stopped obs A) (andThen (flCall (fl_WriteTar (tl_Files t) out es)) (\<lambda>_. archive_end e))" for es e
    by (auto simp: flCall_def intro!: keeps_files assms keeps_archive_end)
  show ?thesis unfolding keeps_def
    by (auto simp: Tar_def flFail_def eff_simps split: option.split prod.split intro!: keepsD [OF k])
qed

lemma keeps_router: "spares t obs \<Longrightarrow> keeps (only_stopped obs A) (addRouterFile (tl_Files t) flist bytes)"
  by (auto simp: addRouterFile_def Let_def flCall_def flAsk_def intro!: keeps_files keeps_untar keeps_tar split: sum.split)

text \<open>
  C16. Making an flist from a container and backing one up stop its processes; whatever fails on the way, they are running again when the command
  returns.  No other process group is stopped.
\<close>

theorem never_left_stopped:
  assumes "spares t obs"
  shows "obs (snd (flistCreate t m a s)) \<subseteq> obs s \<and> obs (snd (backup_cmd t m i url tags s)) \<subseteq> obs s"
proof -
  have f: "keeps (only_stopped obs A) (flistCreate t m a)" for A
    using keeps_router [OF assms] keeps_system [OF assms] keeps_resolve [OF assms]
    by (auto simp: flistCreate_def ccFail_def ccPlain_def Let_def intro!: keeps_intros keeps_paused [OF assms] split: option.split)
  have "keeps (only_stopped obs A) (run_backup t c args)" for A c args
    unfolding run_backup_def
    by (auto simp: ccFail_def ccPlain_def intro!: keeps_paused [OF assms] keeps_fl(6) [OF assms] keeps_intros split: option.split)
  then have b: "keeps (only_stopped obs A) (backup_cmd t m i url tags)" for A
    using keeps_fl(3) [OF assms] spares_facts(9) [OF assms]
    by (auto simp: backup_cmd_def ccFail_def ccPlain_def Let_def only_stopped_def intro!: keeps_intros keeps_deferred split: option.split)
  have "only_stopped obs (obs s) s" by (simp add: only_stopped_def)
  then show ?thesis using keepsD [OF f] keepsD [OF b] by (simp add: only_stopped_def)
qed

text \<open>A machine that keeps no state but the process groups that are stopped, and whose programs all succeed.\<close>

definition group_signal :: "int \<Rightarrow> int \<Rightarrow> int set \<times> unit \<Rightarrow> int set \<times> unit" where
  "group_signal p sig s = ((if sig = SIGSTOP then insert p (fst s) else fst s - {p}), ())"

definition good_run :: job_result where
  "good_run =
     \<lparr>jr_ID = [], jr_Command = [], jr_Data = [], jr_Streams = [''snapshot 4f3a saved'', []], jr_Critical = [], jr_Level = 0, jr_State = Some StateSuccess,
      jr_Code = 0, jr_StartTime = 0, jr_Time = 0, jr_Tags = [], jr_Container = 0\<rparr>"

definition sampleFiles :: "'x fl_host" where
  "sampleFiles =
     \<lparr>fl_Parse = (\<lambda>u. Inr \<lparr>fu_Scheme = [], fu_Path = u, fu_Password = [], fu_Fragment = [], fu_Bare = u\<rparr>), fl_Exists = (\<lambda>_ _. False),
      fl_Stat = (\<lambda>_ _. None), fl_Open = (\<lambda>_ _. Inr []), fl_Get = (\<lambda>_ _. Inr (200, [], [])), fl_tar = (\<lambda>_ _. Inr ([], None)),
      fl_WriteTar = (\<lambda>_ _ s. (None, s)), fl_MkdirAll = (\<lambda>_ s. (None, s)), fl_RemoveAll = (\<lambda>_ s. (None, s)), fl_Create = (\<lambda>_ _ _ s. (None, s)), fl_WriteOver = (\<lambda>_ _ _ s. (None, s)),
      fl_IsDir = (\<lambda>_ _. True), fl_Walk = (\<lambda>_ _. ([], None)), fl_Hash = (\<lambda>s. s), fl_cache = ''/var/cache/zerofs'',
      fl_Restic = (\<lambda>_ s. (Inr good_run, s)), fl_RunMount = (\<lambda>_ _ s. ([RunReturned None, MountStarts], s)), fl_JobOf = (\<lambda>_ _. True),
      fl_Signal = (\<lambda>_ _ s. (None, s))\<rparr>"

definition groupChost :: "(int set, unit) chost" where
  "groupChost =
     \<lparr>ch_host = \<lparr>h_System = (\<lambda>_ w. ((good_run, None), w)), h_TempFile = (\<lambda>w. (Inr ''/tmp/x'', w)),
        h_Write = (\<lambda>_ _ w. (None, w)), h_RemoveAll = (\<lambda>_ w. w), h_unjson = (\<lambda>_. None)\<rparr>,
      ch_cache = \<lparr>c_Get = (\<lambda>_ _. False), c_Set = (\<lambda>_ c. c), c_Delete = (\<lambda>_ c. c)\<rparr>, ch_net = quietNet,
      ch_redis = quietRedis, ch_cgroups = quietCgroups, ch_urlParse = (\<lambda>u. Inr ([], u)), ch_Stat = (\<lambda>_ _. IsDir), ch_uuid = (\<lambda>s. (''u'', s)),
      ch_send = (\<lambda>_ _ s. (True, s)), ch_ReadFile = (\<lambda>_ _. Inr []), ch_WriteFile = (\<lambda>_ _ s. (None, s)), ch_Append = (\<lambda>_ _ s. (None, s)),
      ch_Create = (\<lambda>_ s. (None, s)), ch_MkdirAll = (\<lambda>_ s. (None, s)), ch_RemoveAll = (\<lambda>_ s. (None, s)), ch_Mount = (\<lambda>_ _ s. (None, s)),
      ch_Unmount = (\<lambda>_ s. (None, s)), ch_LookPath = (\<lambda>_ _. Inr ''/sbin/coreX''), ch_Partitions = (\<lambda>_. Inr []),
      ch_MountFList = (\<lambda>_ _ _ _ s. (None, s)), ch_storage = ''zdb://hub.grid.tf:9900'', ch_RunSystem = (\<lambda>_ s. (None, s)),
      ch_RunContainer = (\<lambda>_ _ s. (None, s)), ch_Kill = (\<lambda>_ s. (None, s)), ch_Signal = (\<lambda>_ _ s. s), ch_startZerotier = (\<lambda>_ s. (None, s)),
      ch_sleep = (\<lambda>s. s)\<rparr>"

definition groupTools :: "(int set, unit, unit) ct_tools" where
  "groupTools =
     \<lparr>tl_Host = groupChost, tl_Files = sampleFiles, tl_KillGroup = group_signal, tl_Yaml = (\<lambda>_. Inr []), tl_Marshal = (\<lambda>_. Inr []),
      tl_Decode = (\<lambda>_. Inr (JObj [])), tl_Trunc = (\<lambda>_. None), tl_Range = (\<lambda>_. []), tl_ReadDir = (\<lambda>_ _. Inr [''etc'', ''coreX'']),
      tl_Remove = (\<lambda>_ s. s), tl_TempDir = (\<lambda>s. (Inr ''/tmp/r'', s)), tl_Nics = (\<lambda>_. Inr []), tl_Stats = (\<lambda>_ _. None),
      tl_Run = (\<lambda>_ _ s. (Inr good_run, s)), tl_Wait = (\<lambda>_ ms. (good_run, ms))\<rparr>"

definition backedUp :: container_mgr where
  "backedUp = \<lparr>cm_sequence = 1, cm_containers = [(1, (newContainer 1 plainArgs)\<lparr>ct_PID := 77\<rparr>)]\<rparr>"

lemma group_spares: "spares groupTools fst"
  by (simp add: spares_def groupTools_def groupChost_def sampleFiles_def group_signal_def SIGSTOP_def SIGCONT_def)

text \<open>The backup succeeds, with the identifier of the snapshot, and leaves nothing stopped.\<close>

theorem never_left_stopped_witness:
  "fst (backup_cmd groupTools backedUp 1 ''/backups'' [] ({}, ())) = Inr ''4f3a'' \<and>
   fst (snd (backup_cmd groupTools backedUp 1 ''/backups'' [] ({}, ()))) = {}"
proof
  show "fst (backup_cmd groupTools backedUp 1 ''/backups'' [] ({}, ())) = Inr ''4f3a''"
    by code_simp
  show "fst (snd (backup_cmd groupTools backedUp 1 ''/backups'' [] ({}, ()))) = {}"
    using never_left_stopped [OF group_spares, of backedUp undefined "({}, ())" 1 "''/backups''" "[]"] by simp
qed

section \<open>Devices and snapshots\<close>

text \<open>
  What the devices group of containers allows once it is set up, \<open>obs\<close> being the entries of its list as the kernel keeps them: exactly the devices of the
  code, none of which is a block device.  The errors of the writes are dropped, so a set-up that fails to deny the rest is reported as done.
\<close>

theorem devices_allowed:
  assumes "\<And>g spec s. spec \<noteq> ''a'' \<Longrightarrow> obs (snd (Allow fs g spec s)) = insert spec (obs s)" and "\<And>g s. obs (snd (Deny fs g ''a'' s)) = {}"
    and "setUpCGroups fs s = (None, s')"
  shows "obs s' = set allowed_devices \<and> (\<forall>d \<in> obs s'. hasPrefix d ''c '')"
proof -
  have f: "''a'' \<notin> set specs \<Longrightarrow> obs (fold (\<lambda>spec s. snd (Allow fs g spec s)) specs s) = set specs \<union> obs s" for g specs s
    by (induction specs arbitrary: s) (auto simp: assms(1))
  have "''a'' \<notin> set allowed_devices" by (simp add: allowed_devices_def)
  then have "obs s' = set allowed_devices"
    using assms(3) by (auto simp: setUpCGroups_def f assms(2) split: prod.splits sum.splits if_splits)
  moreover have "\<forall>d \<in> set allowed_devices. hasPrefix d ''c ''" by (simp add: allowed_devices_def hasPrefix_def)
  ultimately show ?thesis by simp
qed

text \<open>A kernel that keeps the list in order of its entries.\<close>

definition listCg :: "string set cg_fs" where
  "listCg =
     \<lparr>fs_Stat = (\<lambda>_ _. Some True), fs_Mkdir = (\<lambda>_ w. (None, w)), fs_Remove = (\<lambda>_ w. (None, w)), fs_ReadDir = (\<lambda>_ _. Inr []),
      fs_ReadFile = (\<lambda>_ _. Inr []), fs_WriteFile = (\<lambda>p x w. (None, if x = ''a'' then {} else insert x w))\<rparr>"

theorem devices_allowed_witness: "snd (setUpCGroups listCg {''b *:* rwm''}) = set allowed_devices"
proof -
  have "setUpCGroups listCg {''b *:* rwm''} = (None, snd (setUpCGroups listCg {''b *:* rwm''}))"
    by (simp add: setUpCGroups_def GetGroup_def listCg_def DevicesCGroup_def DevicesSubsystem_def subsystems_def)
  from devices_allowed [where fs = listCg and obs = "\<lambda>s. s", OF _ _ this] show ?thesis
    by (simp add: Allow_def Deny_def listCg_def)
qed

lemma findSnapshot_skip: "findSnapshot (c # s) = findSnapshot s" if "\<not> hasPrefix (c # s) ''snapshot ''"
  using that by (simp add: strip_def del: hasPrefix_Cons)

lemma findSnapshot_here:
  assumes "i \<noteq> []" "\<forall>c \<in> set i. \<not> reSpace c"
  shows "findSnapshot (''snapshot '' @ i @ '' saved'' @ rest) = Some i"
proof -
  have "takeWhile (\<lambda>x. \<not> reSpace x) (i @ '' saved'' @ rest) = i"
    using assms(2) by (simp add: takeWhile_append2 reSpace_def del: takeWhile_eq_all_conv)
  moreover have "dropWhile (\<lambda>x. \<not> reSpace x) (i @ '' saved'' @ rest) = '' saved'' @ rest"
    using assms(2) by (simp add: dropWhile_append2 reSpace_def del: dropWhile_eq_Nil_conv)
  ultimately have "many1 (\<lambda>x. \<not> reSpace x) (i @ '' saved'' @ rest) = Some (i, '' saved'' @ rest)"
    using assms(1) by (simp only: many1_def Let_def if_False)
  then show ?thesis by (simp add: strip_def hasPrefix_def)
qed

text \<open>The identifier of a snapshot is read back from what \<^verbatim>\<open>restic\<close> prints, behind any output that does not mention a snapshot.\<close>

theorem snapshot_read:
  assumes "i \<noteq> []" "\<forall>c \<in> set i. \<not> reSpace c"
    and "\<forall>n < length pre. \<not> hasPrefix (drop n pre @ ''snapshot '' @ i @ '' saved'' @ rest) ''snapshot ''"
  shows "findSnapshot (pre @ ''snapshot '' @ i @ '' saved'' @ rest) = Some i"
  using assms(3)
proof (induction pre)
  case Nil
  then show ?case using findSnapshot_here [OF assms(1,2)] by simp
next
  case (Cons c pre)
  have "\<not> hasPrefix (c # pre @ ''snapshot '' @ i @ '' saved'' @ rest) ''snapshot ''" using Cons.prems by fastforce
  moreover have "\<forall>n < length pre. \<not> hasPrefix (drop n pre @ ''snapshot '' @ i @ '' saved'' @ rest) ''snapshot ''" using Cons.prems by fastforce
  ultimately show ?case using Cons.IH findSnapshot_skip [of c "pre @ ''snapshot '' @ i @ '' saved'' @ rest"] by simp
qed

theorem snapshot_read_witness: "findSnapshot (''Files: 1 new'' @ ''snapshot '' @ ''4f3a'' @ '' saved'' @ []) = Some ''4f3a''"
  by (rule snapshot_read) (auto simp: reSpace_def hasPrefix_def less_Suc_eq numeral_eq_Suc)

end
