(* ===== verification/Boot_Network.thy ===== *)
theory Boot_Network
  imports Ip_Commands Pm_Process
begin

text \<open>
  \<^verbatim>\<open>apps/core0/bootstrap/network\<close>: the interfaces that are set up at boot, by hand in a file or automatically, and the protocols that set them up.
  The kernel, reached through netlink, and the process manager are parameters.
\<close>

section \<open>Settings\<close>

text \<open>Protocols by interface, addresses with gateways by interface, and taps that are brought up or not; lists are in the order of a \<^verbatim>\<open>range\<close> loop.\<close>

record net_settings =
  ns_Auto :: bool
  ns_Interface :: "(string \<times> string) list"
  ns_Static :: "string \<rightharpoonup> string \<times> string"
  ns_Tap :: "(string \<times> bool) list"

record net_interface =
  ni_Name :: string
  ni_Protocol :: string

record 'w boot_net =
  bn_Ip :: "'w ip_host"
  bn_TapAdd :: "string \<Rightarrow> 'w \<Rightarrow> go_error option \<times> 'w"
  bn_RouteFrom :: "int \<Rightarrow> ip4 \<Rightarrow> ip4 \<Rightarrow> 'w \<Rightarrow> go_error option \<times> 'w"
  bn_Hostname :: "'w \<Rightarrow> string"
  bn_Run :: "string \<Rightarrow> system_args \<Rightarrow> bool \<Rightarrow> 'w \<Rightarrow> go_error option \<times> 'w"

text \<open>A nil dereference ends the program.\<close>

datatype net_error = NetErr go_error | NetPanic

type_synonym ('a, 'w) neff = "(net_error, 'a, 'w) eff"

definition netCall :: "('w \<Rightarrow> go_error option \<times> 'w) \<Rightarrow> (unit, 'w) neff" where
  "netCall f = wrapErr NetErr (call f)"

definition netAsk :: "('w \<Rightarrow> go_error + 'a) \<Rightarrow> ('a, 'w) neff" where
  "netAsk f = wrapErr NetErr (ask f)"

definition netFail :: "string \<Rightarrow> ('a, 'w) neff" where
  "netFail t = fail (NetErr (Errorf t))"

section \<open>Devices\<close>

definition DeviceUp :: "'w boot_net \<Rightarrow> string \<Rightarrow> (unit, 'w) neff" where
  "DeviceUp h n =
     andThen (netAsk (ih_LinkByName (bn_Ip h) n)) (\<lambda>l. netCall (ih_LinkSetUp (bn_Ip h) (lk_ref l)))"

text \<open>The assertion of the type \<^verbatim>\<open>Tuntap\<close> holds of devices of its kind.\<close>

definition PortCreate :: "'w boot_net \<Rightarrow> string \<Rightarrow> (unit, 'w) neff" where
  "PortCreate h n =
     andThen (netAsk (ih_LinkList (bn_Ip h))) (\<lambda>links.
     case find (\<lambda>l. lk_Name l = n) links of
       Some l \<Rightarrow> if lk_Type l = ''tuntap'' then ret () else netFail ''conflicting device name''
     | None \<Rightarrow> netCall (bn_TapAdd h n))"

section \<open>Protocols\<close>

definition ProtocolDHCP :: string where "ProtocolDHCP = ''dhcp''"
definition ProtocolStatic :: string where "ProtocolStatic = ''static''"
definition NoneProtocol :: string where "NoneProtocol = ''none''"

definition isPlugged :: "'w boot_net \<Rightarrow> string \<Rightarrow> (unit, 'w) neff" where
  "isPlugged h dev =
     andThen (netAsk (ih_ReadFile (bn_Ip h) (''/sys/class/net/'' @ dev @ ''/carrier''))) (\<lambda>data.
     if trimSpace data = ''1'' then ret () else netFail (''interface '' @ dev @ '' has no carrier('' @ trimSpace data @ '')''))"

definition udhcpc_args :: "string \<Rightarrow> string \<Rightarrow> system_args" where
  "udhcpc_args dev hostname =
     \<lparr>sa_Name = ''udhcpc'', sa_Dir = [],
      sa_Args = [''-f'', ''-i'', dev, ''-t'', ''10'', ''-A'', ''3'', ''-s'', ''/usr/share/udhcp/simple.script'', ''--now'', ''-x'',
                 ''hostname:zero-os-'' @ hostname],
      sa_Env = [], sa_StdIn = []\<rparr>"

definition dhcp_Configure :: "'w boot_net \<Rightarrow> string \<Rightarrow> (unit, 'w) neff" where
  "dhcp_Configure h dev w = netCall (bn_Run h (''udhcpc/'' @ dev) (udhcpc_args dev (bn_Hostname h w)) False) w"

definition none_Configure :: "'w boot_net \<Rightarrow> string \<Rightarrow> (unit, 'w) neff" where
  "none_Configure h dev = DeviceUp h dev"

text \<open>An address that could not be parsed is nil; comparing it to another address, or adding it, dereferences it.\<close>

definition ConfigureStatic :: "'w boot_net \<Rightarrow> ipnet option \<Rightarrow> string \<Rightarrow> (unit, 'w) neff" where
  "ConfigureStatic h ip dev =
     andThen (netAsk (ih_LinkByName (bn_Ip h) dev)) (\<lambda>l.
     andThen (netAsk (ih_AddrList (bn_Ip h) l)) (\<lambda>addrs.
     case ip of
       None \<Rightarrow> fail NetPanic
     | Some addr \<Rightarrow>
         andThen (if IPNet_String addr \<in> set (map IPNet_String addrs) then ret ()
                  else netCall (ih_AddrAdd (bn_Ip h) (lk_ref l) addr)) (\<lambda>_.
         netCall (ih_LinkSetUp (bn_Ip h) (lk_ref l)))))"

text \<open>The error of parsing the address is not looked at; the one of the gateway shows the nil that parsing it gave.\<close>

definition static_Configure :: "'w boot_net \<Rightarrow> net_settings \<Rightarrow> string \<Rightarrow> (unit, 'w) neff" where
  "static_Configure h s dev =
     andThen (netAsk (ih_LinkByName (bn_Ip h) dev)) (\<lambda>l.
     case ns_Static s dev of
       None \<Rightarrow> netFail (''missing static configuration for interface '' @ dev)
     | Some (ip, gateway) \<Rightarrow>
         andThen (ConfigureStatic h (ParseAddr ip) dev) (\<lambda>_.
         if gateway = [] then ret ()
         else case parseIPv4 gateway of
                None \<Rightarrow> netFail ''invalid ip for gateway <nil>''
              | Some gw \<Rightarrow>
                  (case ParseAddr ip of
                     None \<Rightarrow> fail NetPanic
                   | Some addr \<Rightarrow> netCall (bn_RouteFrom h (lk_Index l) (net_IP addr) gw))))"

section \<open>Interfaces\<close>

definition inf_SetUP :: "'w boot_net \<Rightarrow> net_interface \<Rightarrow> bool \<Rightarrow> (unit, 'w) neff" where
  "inf_SetUP h i up =
     andThen (netAsk (ih_LinkByName (bn_Ip h) (ni_Name i))) (\<lambda>l.
     netCall (if up then ih_LinkSetUp (bn_Ip h) (lk_ref l) else ih_LinkSetDown (bn_Ip h) (lk_ref l)))"

definition inf_Configure :: "'w boot_net \<Rightarrow> net_settings \<Rightarrow> net_interface \<Rightarrow> (unit, 'w) neff" where
  "inf_Configure h s i =
     (if ni_Protocol i = ProtocolDHCP then dhcp_Configure h (ni_Name i)
      else if ni_Protocol i = ProtocolStatic then static_Configure h s (ni_Name i)
      else if ni_Protocol i = NoneProtocol then none_Configure h (ni_Name i)
      else netFail (''unkonwn networking protocol '' @ ni_Protocol i))"

definition inf_Clear :: "'w boot_net \<Rightarrow> net_interface \<Rightarrow> (unit, 'w) neff" where
  "inf_Clear h i =
     andThen (netAsk (ih_LinkByName (bn_Ip h) (ni_Name i))) (\<lambda>l.
     andThen (netAsk (ih_AddrList (bn_Ip h) l)) (\<lambda>addrs.
     forEach (\<lambda>a. ignore (call (ih_AddrDel (bn_Ip h) (lk_ref l) a))) addrs))"

definition inf_IPs :: "'w boot_net \<Rightarrow> net_interface \<Rightarrow> (ipnet list, 'w) neff" where
  "inf_IPs h i =
     andThen (netAsk (ih_LinkByName (bn_Ip h) (ni_Name i))) (\<lambda>l. netAsk (ih_AddrList (bn_Ip h) l))"

definition auto_interfaces :: "net_settings \<Rightarrow> ip_link list \<Rightarrow> net_interface list" where
  "auto_interfaces s links =
     map (\<lambda>l. \<lparr>ni_Name = lk_Name l, ni_Protocol = ProtocolDHCP\<rparr>)
       (filter (\<lambda>l. \<not> (lk_Name l = ''lo'' \<or> lk_Type l \<noteq> ''device'') \<and> lk_Name l \<notin> fst ` set (ns_Interface s)) links)"

definition getAutoInterfaces :: "'w boot_net \<Rightarrow> net_settings \<Rightarrow> (net_interface list, 'w) neff" where
  "getAutoInterfaces h s =
     (if \<not> ns_Auto s then ret []
      else andThen (netAsk (ih_LinkList (bn_Ip h))) (\<lambda>links. ret (auto_interfaces s links)))"

definition mgr_Interfaces :: "'w boot_net \<Rightarrow> net_settings \<Rightarrow> (net_interface list, 'w) neff" where
  "mgr_Interfaces h s =
     andThen (getAutoInterfaces h s) (\<lambda>l.
     ret (l @ map (\<lambda>(k, protocol). \<lparr>ni_Name = k, ni_Protocol = protocol\<rparr>) (ns_Interface s)))"

text \<open>Errors of the taps are logged.\<close>

definition Initialize :: "'w boot_net \<Rightarrow> net_settings \<Rightarrow> (unit, 'w) neff" where
  "Initialize h s =
     forEach (\<lambda>(port, up).
       andThen (ignore (PortCreate h port)) (\<lambda>_. if up then ignore (DeviceUp h port) else ret ())) (ns_Tap s)"

section \<open>Properties\<close>

text \<open>
  Every interface is set up once: those of the file with their protocol, and the other devices of the machine, if asked for, with DHCP.  Two set-ups of
  one interface would run side by side.
\<close>

theorem interfaces_once:
  assumes "ih_LinkList (bn_Ip h) w = Inr links" "distinct (map lk_Name links)" "distinct (map fst (ns_Interface s))"
    and "mgr_Interfaces h s w = (Inr infs, w')"
  shows "w' = w \<and> distinct (map ni_Name infs) \<and>
    (\<forall>n p. \<lparr>ni_Name = n, ni_Protocol = p\<rparr> \<in> set infs \<longleftrightarrow>
       (n, p) \<in> set (ns_Interface s) \<or>
       ns_Auto s \<and> p = ProtocolDHCP \<and> n \<noteq> ''lo'' \<and> n \<notin> fst ` set (ns_Interface s) \<and> (\<exists>l \<in> set links. lk_Name l = n \<and> lk_Type l = ''device''))"
proof -
  let ?auto = "if ns_Auto s then auto_interfaces s links else []"
  have r: "w' = w \<and> infs = ?auto @ map (\<lambda>(k, protocol). \<lparr>ni_Name = k, ni_Protocol = protocol\<rparr>) (ns_Interface s)"
    using assms(1,4) by (auto simp: mgr_Interfaces_def getAutoInterfaces_def netAsk_def wrapErr_def andThen_def eff_simps split: if_splits)
  have m: "map ni_Name (map (\<lambda>(k, protocol). \<lparr>ni_Name = k, ni_Protocol = protocol\<rparr>) xs) = map fst xs" for xs
    by (induction xs) auto
  have "distinct (map ni_Name ?auto)" "set (map ni_Name ?auto) \<inter> fst ` set (ns_Interface s) = {}"
    using assms(2) by (auto simp: auto_interfaces_def comp_def distinct_map_filter) (metis fst_conv image_eqI)
  then have "distinct (map ni_Name infs)"
    using r assms(3) m by (simp only: map_append distinct_append) (simp add: m)
  moreover have "\<lparr>ni_Name = n, ni_Protocol = p\<rparr> \<in> set infs \<longleftrightarrow>
       (n, p) \<in> set (ns_Interface s) \<or>
       ns_Auto s \<and> p = ProtocolDHCP \<and> n \<noteq> ''lo'' \<and> n \<notin> fst ` set (ns_Interface s) \<and> (\<exists>l \<in> set links. lk_Name l = n \<and> lk_Type l = ''device'')" for n p
    using r by (auto simp: auto_interfaces_def image_iff)
  ultimately show ?thesis using r by blast
qed

text \<open>
  An interface with a static address that cannot be parsed ends the program, whatever else is right: the error of the parser is dropped and the nil it
  leaves is dereferenced.  A bad gateway, in contrast, is an error.
\<close>

theorem static_address_checked:
  assumes "ih_LinkByName (bn_Ip h) dev w = Inr l" "ih_AddrList (bn_Ip h) l w = Inr addrs" "ns_Static s dev = Some (ip, gateway)"
  shows "(ParseAddr ip = None \<longrightarrow> static_Configure h s dev w = (Inl NetPanic, w)) \<and>
    (ParseAddr ip \<noteq> None \<longrightarrow> fst (static_Configure h s dev w) \<noteq> Inl NetPanic)"
  using assms
  by (auto simp: static_Configure_def ConfigureStatic_def netAsk_def netCall_def netFail_def wrapErr_def andThen_def eff_simps call_def
      split: option.splits prod.splits sum.splits if_splits)

section \<open>A node with one device\<close>

definition eth0 :: ip_link where
  "eth0 = \<lparr>lk_Name = ''eth0'', lk_Index = 2, lk_Type = ''device'', lk_HW = [2, 0, 0, 0, 0, 1], lk_Master = 0, il_Up = True, il_MTU = 1500\<rparr>"

definition nodeAddress :: ipnet where
  "nodeAddress = \<lparr>net_IP = 0x0A000002, net_Len = 24\<rparr>"

definition sampleNet :: "'w boot_net" where
  "sampleNet =
     \<lparr>bn_Ip =
        \<lparr>ih_System = \<lambda>args w. (NotRun (Errorf ''none''), w), ih_ReadDir = \<lambda>p w. Inl (Errorf ''none''), ih_ReadFile = \<lambda>p w. Inl (Errorf ''none''),
         ih_LinkByName = \<lambda>n w. if n = ''eth0'' then Inr eth0 else Inl (Errorf ''none''), ih_LinkList = \<lambda>w. Inr [eth0], ih_LinkAdd = \<lambda>d w. (None, w),
         ih_LinkDel = \<lambda>r w. (None, w), ih_LinkSetMaster = \<lambda>r s w. (None, w), ih_LinkSetNoMaster = \<lambda>r w. (None, w),
         ih_LinkSetHardwareAddr = \<lambda>r a w. (None, w), ih_LinkSetUp = \<lambda>r w. (None, w), ih_LinkSetDown = \<lambda>r w. (None, w),
         ih_LinkSetName = \<lambda>r n w. (None, w), ih_LinkSetMTU = \<lambda>r n w. (None, w), ih_AddrAdd = \<lambda>r a w. (None, w), ih_AddrDel = \<lambda>r a w. (None, w),
         ih_AddrList = \<lambda>l w. Inr [nodeAddress], ih_RouteAdd = \<lambda>r w. (None, w), ih_RouteDel = \<lambda>r w. (None, w),
         ih_RouteListFiltered = \<lambda>r d g w. Inr [], ih_RouteList = \<lambda>w. Inr []\<rparr>,
      bn_TapAdd = \<lambda>n w. (None, w), bn_RouteFrom = \<lambda>i s g w. (None, w), bn_Hostname = \<lambda>w. ''node'', bn_Run = \<lambda>i a p w. (None, w)\<rparr>"

definition oneSettings :: net_settings where
  "oneSettings = \<lparr>ns_Auto = True, ns_Interface = [(''eth0'', ''static'')], ns_Static = [''eth0'' \<mapsto> (''10.0.0.300/24'', [])], ns_Tap = []\<rparr>"

text \<open>The device of the file is left out of the automatic ones.\<close>

theorem interfaces_once_witness:
  "mgr_Interfaces sampleNet oneSettings () = (Inr [\<lparr>ni_Name = ''eth0'', ni_Protocol = ''static''\<rparr>], ()) \<and>
   \<lparr>ni_Name = ''eth0'', ni_Protocol = ''dhcp''\<rparr> \<notin> set [\<lparr>ni_Name = ''eth0'', ni_Protocol = ''static''\<rparr>]"
proof
  show r: "mgr_Interfaces sampleNet oneSettings () = (Inr [\<lparr>ni_Name = ''eth0'', ni_Protocol = ''static''\<rparr>], ())"
    by (simp add: mgr_Interfaces_def getAutoInterfaces_def oneSettings_def sampleNet_def netAsk_def wrapErr_def andThen_def eff_simps
        auto_interfaces_def eth0_def)
  have "ih_LinkList (bn_Ip sampleNet) () = Inr [eth0]" by (simp add: sampleNet_def)
  from interfaces_once [OF this _ _ r]
  show "\<lparr>ni_Name = ''eth0'', ni_Protocol = ''dhcp''\<rparr> \<notin> set [\<lparr>ni_Name = ''eth0'', ni_Protocol = ''static''\<rparr>]"
    by (simp add: oneSettings_def ProtocolDHCP_def)
qed

theorem static_address_checked_witness: "static_Configure sampleNet oneSettings ''eth0'' () = (Inl NetPanic, ())"
proof -
  have "ParseAddr ''10.0.0.300/24'' = None" by code_simp
  then show ?thesis
    using static_address_checked [of sampleNet "''eth0''" "()" eth0 "[nodeAddress]" oneSettings "''10.0.0.300/24''" "[]"]
    by (simp add: sampleNet_def oneSettings_def)
qed

end
