(* ===== verification/Bootstrap.thy ===== *)
theory Bootstrap
  imports Boot_Network Settings_Startup Nft_Manager
begin

text \<open>
  \<^verbatim>\<open>apps/core0/bootstrap\<close>: the boot of the node, its first rules of the firewall, the network with the test that the internet can be reached, the slices of
  services, the set of the node's own addresses that port forwards match on, and the lines on the console.
\<close>

section \<open>State\<close>

record site =
  si_Address :: string
  si_Port :: int

text \<open>The addresses of names that were resolved, with the time they are forgotten at, and the world.\<close>

type_synonym 'w boot_state = "(string \<times> string \<times> int) list \<times> 'w"

text \<open>
  A lookup of a name gives at least one address.  \<open>bt_Go\<close> starts the set-up of an interface beside the rest (\<open>configure_background\<close> below);
  times are nanoseconds.
\<close>

record 'w boot =
  bt_Net :: "'w boot_net"
  bt_Nft :: "'w host"
  bt_System :: "'w system_call"
  bt_Lookup :: "string \<Rightarrow> 'w \<Rightarrow> go_error + string \<times> string list"
  bt_Dial :: "string \<Rightarrow> 'w \<Rightarrow> bool"
  bt_now :: "'w \<Rightarrow> int"
  bt_sleep :: "int \<Rightarrow> 'w \<Rightarrow> 'w"
  bt_Load :: "string \<Rightarrow> 'w \<Rightarrow> go_error + net_settings"
  bt_Go :: "net_settings \<Rightarrow> net_interface \<Rightarrow> 'w \<Rightarrow> 'w"
  bt_RunSlice :: "startup list \<Rightarrow> 'w \<Rightarrow> 'w"
  bt_Setrlimit :: "int \<Rightarrow> 'w \<Rightarrow> go_error option \<times> 'w"
  bt_Register :: "string \<Rightarrow> extension \<Rightarrow> 'w \<Rightarrow> go_error option \<times> 'w"

definition checkSites :: "site list" where
  "checkSites =
     [\<lparr>si_Address = ''google.com'', si_Port = 80\<rparr>, \<lparr>si_Address = ''1.1.1.1'', si_Port = 80\<rparr>, \<lparr>si_Address = ''facebook.com'', si_Port = 80\<rparr>]"

definition second :: int where "second = 10 ^ 9"
definition minute :: int where "minute = 60 * second"

section \<open>Reaching the internet\<close>

definition cached_address :: "int \<Rightarrow> string \<Rightarrow> (string \<times> string \<times> int) list \<Rightarrow> string option" where
  "cached_address now host rs =
     (case map_of rs host of None \<Rightarrow> None | Some (a, t) \<Rightarrow> if t > 0 \<and> now > t then None else Some a)"

definition resolve :: "'w boot \<Rightarrow> string \<Rightarrow> 'w boot_state \<Rightarrow> (go_error + string) \<times> 'w boot_state" where
  "resolve b host st =
     (case st of (rs, w) \<Rightarrow>
        (case cached_address (bt_now b w) host rs of
           Some a \<Rightarrow> (Inr a, st)
         | None \<Rightarrow>
             (case bt_Lookup b host w of
                Inl e \<Rightarrow> (Inl e, st)
              | Inr (a, as) \<Rightarrow> (Inr a, (AList.update host (a, bt_now b w + 20 * minute) rs, w)))))"

definition testConnectivity :: "'w boot \<Rightarrow> site \<Rightarrow> 'w boot_state \<Rightarrow> bool \<times> 'w boot_state" where
  "testConnectivity b s st =
     (case resolve b (si_Address s) st of
        (Inl e, st1) \<Rightarrow> (False, st1)
      | (Inr a, st1) \<Rightarrow> (bt_Dial b (a @ '':'' @ itoaInt (si_Port s)) (snd st1), st1))"

text \<open>The first site that answers, counted from \<open>i\<close>.\<close>

fun first_reachable :: "'w boot \<Rightarrow> nat \<Rightarrow> site list \<Rightarrow> 'w boot_state \<Rightarrow> nat option \<times> 'w boot_state" where
  "first_reachable b i [] st = (None, st)"
| "first_reachable b i (s # ss) st =
     (case testConnectivity b s st of (ok, st1) \<Rightarrow> if ok then (Some i, st1) else first_reachable b (i + 1) ss st1)"

definition to_front :: "nat \<Rightarrow> 'a list \<Rightarrow> 'a list" where
  "to_front i xs = (if i \<noteq> 0 then xs[0 := xs ! i, i := xs ! 0] else xs)"

definition canReachInternet :: "'w boot \<Rightarrow> site list \<Rightarrow> 'w boot_state \<Rightarrow> (bool \<times> site list) \<times> 'w boot_state" where
  "canReachInternet b sites st =
     (case first_reachable b 0 sites st of
        (None, st1) \<Rightarrow> ((False, sites), st1)
      | (Some i, st1) \<Rightarrow> ((True, to_front i sites), st1))"

section \<open>Networking\<close>

text \<open>The set-up of an interface that runs beside the boot; a panic of it is one of the program.\<close>

definition configure_background :: "'w boot \<Rightarrow> net_settings \<Rightarrow> net_interface \<Rightarrow> (unit, 'w) neff" where
  "configure_background b s i w =
     (case inf_Configure (bt_Net b) s i w of
        (Inl NetPanic, w1) \<Rightarrow> (Inl NetPanic, w1)
      | (Inl (NetErr e), w1) \<Rightarrow> ignore (inf_SetUP (bt_Net b) i False) w1
      | (Inr _, w1) \<Rightarrow> (Inr (), w1))"

definition start_interface :: "'w boot \<Rightarrow> string list \<Rightarrow> net_settings \<Rightarrow> net_interface \<Rightarrow> 'w \<Rightarrow> 'w" where
  "start_interface b skipped s i w =
     (if InString skipped (ni_Name i) then w
      else bt_Go b s i (snd (inf_SetUP (bt_Net b) i True (snd (inf_Clear (bt_Net b) i w)))))"

text \<open>The wait of two minutes; \<^const>\<open>None\<close> when \<open>n\<close> rounds are not enough.\<close>

fun reach_loop :: "'w boot \<Rightarrow> nat \<Rightarrow> int \<Rightarrow> site list \<Rightarrow> 'w boot_state \<Rightarrow> (bool \<times> 'w boot_state) option" where
  "reach_loop b n start sites st =
     (if \<not> bt_now b (snd st) - start < 2 * minute then Some (False, st)
      else case n of
             0 \<Rightarrow> None
           | Suc k \<Rightarrow>
               (case canReachInternet b sites st of
                  ((True, _), st1) \<Rightarrow> Some (True, st1)
                | ((False, sites1), (rs, w)) \<Rightarrow> reach_loop b k start sites1 (rs, bt_sleep b (3 * second) w)))"

declare reach_loop.simps [simp del]

text \<open>No panic is possible before the interfaces are set up, so the errors are plain ones.\<close>

definition setupNetworking ::
  "'w boot \<Rightarrow> nat \<Rightarrow> string \<Rightarrow> kernel_options \<Rightarrow> 'w boot_state \<Rightarrow> (net_error option \<times> 'w boot_state) option" where
  "setupNetworking b n cfg k st =
     (case st of (rs, w) \<Rightarrow>
        if cfg = [] then Some (None, st)
        else (case bt_Load b cfg w of
                Inl e \<Rightarrow> Some (Some (NetErr e), st)
              | Inr s \<Rightarrow>
                  (case Initialize (bt_Net b) s w of
                     (Inl e, w1) \<Rightarrow> Some (Some e, rs, w1)
                   | (Inr _, w1) \<Rightarrow>
                       (case mgr_Interfaces (bt_Net b) s w1 of
                          (Inl e, w2) \<Rightarrow> Some (Some e, rs, w2)
                        | (Inr infs, w2) \<Rightarrow>
                            let skipped = (case KernelOptions_Get k ''noautonic'' of None \<Rightarrow> [] | Some l \<Rightarrow> l);
                                w3 = fold (start_interface b skipped s) infs w2
                            in map_option (\<lambda>(ok, st1). (None, st1)) (reach_loop b n (bt_now b w3) checkSites (rs, w3))))))"

section \<open>The addresses of the node\<close>

definition shown_link :: "string list \<Rightarrow> ip_link \<Rightarrow> bool" where
  "shown_link types l \<longleftrightarrow>
     \<not> (lk_Name l = ''lo'' \<or> \<not> InString types (lk_Type l)) \<and> \<not> (hasPrefix (lk_Name l) ''tun'' \<or> hasPrefix (lk_Name l) ''tap'')"

text \<open>A device whose addresses cannot be listed has none.\<close>

definition link_addrs :: "'w boot_net \<Rightarrow> ip_link \<Rightarrow> 'w \<Rightarrow> ipnet list" where
  "link_addrs h l w = (case ih_AddrList (bn_Ip h) l w of Inl e \<Rightarrow> [] | Inr as \<Rightarrow> as)"

definition getCurrentIPs :: "'w boot_net \<Rightarrow> 'w \<Rightarrow> go_error + string list" where
  "getCurrentIPs h w =
     (case ih_LinkList (bn_Ip h) w of
        Inl e \<Rightarrow> Inl e
      | Inr links \<Rightarrow>
          Inr (concat (map (\<lambda>l. map (\<lambda>a. IP_String (net_IP a)) (link_addrs h l w))
                 (filter (shown_link [''device'', ''tun'', ''tap'', ''openvswitch'', ''bridge'', ''bond'']) links))))"

text \<open>One notification, with the addresses that were current before it; they are taken out in any order.\<close>

definition notify_ips :: "'w boot \<Rightarrow> string list \<times> 'w \<Rightarrow> string list \<times> 'w" where
  "notify_ips b cw =
     (case cw of (current, w) \<Rightarrow>
        (case getCurrentIPs (bt_Net b) w of
           Inl e \<Rightarrow> cw
         | Inr ips \<Rightarrow>
             let stale = filter (\<lambda>ip. ip \<notin> set ips) current;
                 w1 = fold (\<lambda>ip w. snd (IPv4SetDel (bt_Nft b) FamilyIP ''nat'' ''host'' [ip] w)) stale w
             in (remdups ips, snd (IPv4Set (bt_Nft b) FamilyIP ''nat'' ''host'' ips w1))))"

definition plain_args :: "string \<Rightarrow> string list \<Rightarrow> system_args" where
  "plain_args name args = \<lparr>sa_Name = name, sa_Dir = [], sa_Args = args, sa_Env = [], sa_StdIn = []\<rparr>"

text \<open>\<^verbatim>\<open>ip monitor address\<close>: every message of it is a notification.\<close>

definition MonitorIPChangesUpdateSocat :: "'w boot \<Rightarrow> 'w \<Rightarrow> go_error option \<times> 'w" where
  "MonitorIPChangesUpdateSocat b = bn_Run (bt_Net b) ''socat.notify'' (plain_args ''ip'' [''monitor'', ''address'']) True"

section \<open>Firewall\<close>

definition accept_chain :: "string \<Rightarrow> string \<Rightarrow> nft_chain" where
  "accept_chain kind hook = \<lparr>chain_Type = kind, chain_Hook = hook, chain_Priority = 0, chain_Policy = ''accept'', chain_Rules = []\<rparr>"

definition nftInit :: nft where
  "nftInit =
     [(''nat'', \<lparr>table_Family = FamilyIP,
         table_Chains = [(''pre'', accept_chain ''nat'' ''prerouting''), (''post'', accept_chain ''nat'' ''postrouting'')], table_Sets = []\<rparr>),
      (''filter'', \<lparr>table_Family = FamilyINET,
         table_Chains =
           [(''pre'', accept_chain ''filter'' ''prerouting''),
            (''input'', \<lparr>chain_Type = ''filter'', chain_Hook = ''input'', chain_Priority = 0, chain_Policy = ''drop'',
               chain_Rules = [''ct state {established, related} accept'', ''iifname lo accept'', ''iifname vxbackend accept'', ''ip protocol icmp accept'']\<rparr>),
            (''forward'', accept_chain ''filter'' ''forward''), (''output'', accept_chain ''filter'' ''output'')], table_Sets = []\<rparr>)]"

definition setNFT :: "'w boot \<Rightarrow> (unit, 'w) action" where
  "setNFT b = Apply (bt_Nft b) nftInit"

section \<open>The two stages of the boot\<close>

definition startupServices :: "'w boot \<Rightarrow> startup_tree \<Rightarrow> string \<Rightarrow> string \<Rightarrow> 'w \<Rightarrow> 'w" where
  "startupServices b t s e = bt_RunSlice b (tree_Slice t (After_Weight s) (After_Weight e))"

text \<open>Names that are taken are logged and skipped.\<close>

definition registerExtensions :: "'w boot \<Rightarrow> (string \<times> extension) list \<Rightarrow> 'w \<Rightarrow> 'w" where
  "registerExtensions b exts w = fold (\<lambda>(key, x) w. snd (bt_Register b key x w)) exts w"

definition syslogd :: "'w boot \<Rightarrow> 'w \<Rightarrow> 'w" where
  "syslogd b w =
     (let w1 = snd (bn_Run (bt_Net b) ''syslogd'' (plain_args ''syslogd'' [''-n'', ''-O'', ''/var/log/messages'']) True w);
          w2 = snd (bn_Run (bt_Net b) ''klogd'' (plain_args ''klogd'' [''-n'']) True w1)
      in snd (bt_System b [''dmesg'', ''-n'', ''1''] w2))"

definition boot_First :: "'w boot \<Rightarrow> bool \<Rightarrow> (string \<times> extension) list \<Rightarrow> (string \<times> extension) list \<Rightarrow> 'w \<Rightarrow> 'w" where
  "boot_First b agent core included w =
     (let w1 = (if agent then w else snd (setNFT b (snd (bt_Setrlimit b 65536 w))));
          w2 = snd (MonitorIPChangesUpdateSocat b w1)
      in syslogd b (registerExtensions b included (registerExtensions b core w2)))"

text \<open>The network is tried again after two seconds until it is set up; \<^const>\<open>None\<close> when \<open>m\<close> trials, of \<open>n\<close> rounds each, are not enough.\<close>

fun network_loop :: "'w boot \<Rightarrow> nat \<Rightarrow> nat \<Rightarrow> string \<Rightarrow> kernel_options \<Rightarrow> 'w boot_state \<Rightarrow> 'w boot_state option" where
  "network_loop b n 0 cfg k st = None"
| "network_loop b n (Suc m) cfg k st =
     (case setupNetworking b n cfg k st of
        None \<Rightarrow> None
      | Some (None, st1) \<Rightarrow> Some st1
      | Some (Some e, (rs, w)) \<Rightarrow> network_loop b n m cfg k (rs, bt_sleep b (2 * second) w))"

definition boot_Second ::
  "'w boot \<Rightarrow> nat \<Rightarrow> nat \<Rightarrow> bool \<Rightarrow> startup_tree \<Rightarrow> string \<Rightarrow> kernel_options \<Rightarrow> 'w boot_state \<Rightarrow> 'w boot_state option" where
  "boot_Second b n m agent t cfg k st =
     (case st of (rs, w) \<Rightarrow>
        let st1 = (rs, startupServices b t ''init'' ''net'' w) in
        map_option (\<lambda>(rs2, w2). (rs2, startupServices b t ''boot'' ''----'' (startupServices b t ''net'' ''boot'' w2)))
          (if agent then Some st1 else network_loop b n m cfg k st1))"

section \<open>The console\<close>

definition screenStateLine :: "string \<Rightarrow> string \<Rightarrow> string \<Rightarrow> string" where
  "screenStateLine a x y = ''->'' @ replicate (25 - length a) (CHR '' '') @ a @ '': '' @ x @ '' '' @ y"

definition ipsAsString :: "ipnet list \<Rightarrow> string" where
  "ipsAsString ips = join '', '' (map IPNet_String ips)"

definition screen_lines :: "'w boot_net \<Rightarrow> ip_link list \<Rightarrow> 'w \<Rightarrow> string list" where
  "screen_lines h links w =
     map (\<lambda>l. screenStateLine (lk_Name l) (hw_String (lk_HW l)) (ipsAsString (link_addrs h l w)))
       (filter (shown_link [''device'', ''tun'', ''tap'', ''openvswitch'']) links)"

definition refreshNetStateEvery :: int where "refreshNetStateEvery = 10 * 60 div 5"

text \<open>
  One round of the loop: the lines of the devices, and the state of the connection when it is tested.  Once a test fails it is repeated in every round,
  as the counter starts again only when the internet is reached.
\<close>

definition screen_round ::
  "'w boot \<Rightarrow> site list \<Rightarrow> int \<Rightarrow> 'w boot_state \<Rightarrow> (go_error + string list \<times> string option) \<times> site list \<times> int \<times> 'w boot_state" where
  "screen_round b sites n st =
     (case ih_LinkList (bn_Ip (bt_Net b)) (snd st) of
        Inl e \<Rightarrow> (Inl e, sites, n, fst st, bt_sleep b (10 * second) (snd st))
      | Inr links \<Rightarrow>
          let ls = screen_lines (bt_Net b) links (snd st); k = n + 1
          in if k \<ge> refreshNetStateEvery
             then (case canReachInternet b sites st of
                     ((ok, sites1), (rs, w)) \<Rightarrow>
                       (Inr (ls, Some (screenStateLine ''Internet Connectivity'' (if ok then ''OK'' else ''NOT OK'') [])), sites1,
                        if ok then 0 else k, rs, bt_sleep b (5 * second) w))
             else (Inr (ls, None), sites, k, fst st, bt_sleep b (5 * second) (snd st)))"

text \<open>
  One round of the watcher: the lines of zerotier and of the uptime, those that are renewed.  \<^const>\<open>None\<close> is the nil dereference when the second
  program does not run, as its result is used before its error is looked at.
\<close>

definition watch_round :: "'w boot \<Rightarrow> 'w \<Rightarrow> (string option \<times> string option \<times> 'w) option" where
  "watch_round b w =
     (case bt_System b [''zerotier-cli'', ''-D/tmp/zt'', ''info''] w of
        (Ran r, w1) \<Rightarrow>
          let zt = screenStateLine ''Zerotier'' (trimSpace (Stdout (jr_Streams r))) [] in
          (case bt_System b [''uptime''] w1 of
             (NotRun e, w2) \<Rightarrow> None
           | (FailedRun r2 e, w2) \<Rightarrow> Some (Some zt, None, bt_sleep b (30 * second) w2)
           | (Ran r2, w2) \<Rightarrow> Some (Some zt, Some (screenStateLine ''Uptime'' (Stdout (jr_Streams r2)) []), bt_sleep b (30 * second) w2))
      | (_, w1) \<Rightarrow> Some (None, None, bt_sleep b (30 * second) w1))"

section \<open>The set of the node's addresses\<close>

text \<open>The calls of \<^verbatim>\<open>nft\<close> that a notification makes.\<close>

definition add_set_call :: "string list" where
  "add_set_call = [''nft'', ''add'', ''set'', FamilyIP, ''nat'', ''host'', ''{'', ''type'', ''ipv4_addr;'', ''}'']"

definition element_call :: "string \<Rightarrow> string list \<Rightarrow> string list" where
  "element_call verb ips = [''nft'', verb, ''element'', FamilyIP, ''nat'', ''host'', ''{'', join '', '' ips, ''}'']"

text \<open>What \<^verbatim>\<open>nft\<close> promises of them, \<open>obs\<close> being the elements of the set: each does what it says, or fails and changes nothing.\<close>

definition host_set_tool :: "'w host \<Rightarrow> ('w \<Rightarrow> string set) \<Rightarrow> bool" where
  "host_set_tool h obs \<longleftrightarrow>
     (\<forall>w. obs (snd (h_System h add_set_call w)) = obs w) \<and>
     (\<forall>ips w. ips \<noteq> [] \<and> set ips \<subseteq> range IP_String \<longrightarrow> obs (snd (h_System h (element_call ''add'' ips) w)) =
        (if snd (fst (h_System h (element_call ''add'' ips) w)) = None then obs w \<union> set ips else obs w)) \<and>
     (\<forall>ip w. obs (snd (h_System h (element_call ''delete'' [ip]) w)) =
        (if snd (fst (h_System h (element_call ''delete'' [ip]) w)) = None then obs w - {ip} else obs w))"

lemma host_set_facts:
  assumes "host_set_tool h obs"
  shows "obs (snd (h_System h add_set_call w)) = obs w"
    "ips \<noteq> [] \<Longrightarrow> set ips \<subseteq> range IP_String \<Longrightarrow> obs (snd (h_System h (element_call ''add'' ips) w)) =
        (if snd (fst (h_System h (element_call ''add'' ips) w)) = None then obs w \<union> set ips else obs w)"
    "obs (snd (h_System h (element_call ''delete'' [ip]) w)) =
        (if snd (fst (h_System h (element_call ''delete'' [ip]) w)) = None then obs w - {ip} else obs w)"
  using assms unfolding host_set_tool_def by blast+

lemma current_addresses: "getCurrentIPs h w = Inr ips \<Longrightarrow> set ips \<subseteq> range IP_String"
  by (auto simp: getCurrentIPs_def split: sum.splits)

lemma system_err_snd: "snd (system_err h args w) = snd (h_System h args w)"
  by (simp add: system_err_def split: prod.split option.split)

lemma system_err_ok: "isl (fst (system_err h args w)) \<longleftrightarrow> snd (fst (h_System h args w)) \<noteq> None"
  by (simp add: system_err_def split: prod.split option.split)

definition del_ip :: "'w host \<Rightarrow> string \<Rightarrow> 'w \<Rightarrow> 'w" where
  "del_ip h ip w = snd (IPv4SetDel h FamilyIP ''nat'' ''host'' [ip] w)"

lemma del_ip_call: "del_ip h ip w = snd (h_System h (element_call ''delete'' [ip]) w)"
  by (simp add: del_ip_def IPv4SetDel_def system_err_snd element_call_def)

definition set_ips :: "'w host \<Rightarrow> string list \<Rightarrow> 'w \<Rightarrow> 'w" where
  "set_ips h ips w = snd (IPv4Set h FamilyIP ''nat'' ''host'' ips w)"

lemma notify_ips_eq:
  "getCurrentIPs (bt_Net b) w = Inr ips \<Longrightarrow>
   notify_ips b (cur, w) = (remdups ips, set_ips (bt_Nft b) ips (fold (del_ip (bt_Nft b)) (filter (\<lambda>ip. ip \<notin> set ips) cur) w))"
  by (simp add: notify_ips_def set_ips_def del_ip_def [abs_def])

lemma set_ips_calls:
  "set_ips h ips w =
     (let w1 = snd (h_System h add_set_call w)
      in if snd (fst (h_System h add_set_call w)) \<noteq> None \<or> ips = [] then w1 else snd (h_System h (element_call ''add'' ips) w1))"
  by (auto simp: set_ips_def IPv4Set_def system_err_def add_set_call_def element_call_def Let_def split: prod.split option.split)

lemma set_ips_obs:
  assumes "host_set_tool h obs" "set ips \<subseteq> range IP_String"
  shows "obs w \<subseteq> obs (set_ips h ips w)" "obs (set_ips h ips w) \<subseteq> obs w \<union> set ips"
    "(\<And>args w. snd (fst (h_System h args w)) = None) \<Longrightarrow> obs (set_ips h ips w) = obs w \<union> set ips"
  using assms(2) by (auto simp: set_ips_calls Let_def host_set_facts [OF assms(1)] split: if_splits)

text \<open>
  C20. While \<^verbatim>\<open>nft\<close> works, the set that port forwards match on is exactly the addresses of the node after every notification, provided that it held no other
  addresses than the remembered ones; adding addresses may have failed before.
\<close>

theorem host_set_exact:
  assumes tool: "host_set_tool (bt_Nft b) obs" and ok: "\<And>args w. snd (fst (h_System (bt_Nft b) args w)) = None"
    and ips: "getCurrentIPs (bt_Net b) w = Inr ips" and known: "obs w \<subseteq> set cur"
    and r: "notify_ips b (cur, w) = (cur', w')"
  shows "obs w' = set ips \<and> set cur' = set ips"
proof -
  have d: "obs (fold (del_ip (bt_Nft b)) xs v) = obs v - set xs" for xs v
    by (induction xs arbitrary: v) (auto simp: del_ip_call host_set_facts [OF tool] ok)
  have "obs w' = (obs w - set (filter (\<lambda>ip. ip \<notin> set ips) cur)) \<union> set ips"
  proof -
    have w': "w' = set_ips (bt_Nft b) ips (fold (del_ip (bt_Nft b)) (filter (\<lambda>ip. ip \<notin> set ips) cur) w)"
      using r by (simp add: notify_ips_eq [OF ips])
    show ?thesis unfolding w' set_ips_obs(3) [OF tool current_addresses [OF ips] ok] d ..
  qed
  then show ?thesis using r known by (auto simp: notify_ips_eq [OF ips])
qed

text \<open>
  An address whose removal fails once stays in the set for good: it is not remembered any more, and no later notification that does not list it removes an
  address it does not remember, however well \<^verbatim>\<open>nft\<close> works then.
\<close>

theorem host_address_leaks:
  assumes tool: "host_set_tool (bt_Nft b) obs" and ips: "getCurrentIPs (bt_Net b) w = Inr ips"
    and ip: "ip \<in> obs w" "ip \<notin> set ips" and r: "notify_ips b (cur, w) = (cur', w')"
    and once: "ip \<notin> set cur \<or> (\<forall>v. snd (fst (h_System (bt_Nft b) (element_call ''delete'' [ip]) v)) \<noteq> None)"
  shows "ip \<in> obs w' \<and> ip \<notin> set cur'"
proof -
  have d: "ip \<in> obs v \<Longrightarrow> ip \<notin> set xs \<or> (\<forall>v. snd (fst (h_System (bt_Nft b) (element_call ''delete'' [ip]) v)) \<noteq> None) \<Longrightarrow>
      ip \<in> obs (fold (del_ip (bt_Nft b)) xs v)" for xs v
  proof (induction xs arbitrary: v)
    case (Cons x xs)
    then have "ip \<in> obs (del_ip (bt_Nft b) x v)" by (cases "x = ip") (auto simp: del_ip_call host_set_facts [OF tool] simp del: not_None_eq)
    then show ?case using Cons by auto
  qed simp
  have "ip \<in> obs (fold (del_ip (bt_Nft b)) (filter (\<lambda>ip. ip \<notin> set ips) cur) w)" using d [OF ip(1)] once by auto
  then have "ip \<in> obs w'" using r set_ips_obs(1) [OF tool current_addresses [OF ips]] by (auto simp: notify_ips_eq [OF ips])
  then show ?thesis using r ip(2) by (auto simp: notify_ips_eq [OF ips])
qed

section \<open>Reaching the internet, and when the wait ends\<close>

lemma resolve_world: "snd (snd (resolve b host st)) = snd st"
  by (auto simp: resolve_def split: prod.splits option.splits sum.splits)

lemma test_world: "snd (snd (testConnectivity b s st)) = snd st"
  using resolve_world [of b "si_Address s" st] by (auto simp: testConnectivity_def split: prod.splits sum.splits)

lemma first_reachable_world: "snd (snd (first_reachable b i ss st)) = snd st"
proof (induction ss arbitrary: i st)
  case (Cons s ss)
  obtain ok st1 where t: "testConnectivity b s st = (ok, st1)" by (rule prod.exhaust)
  then have "snd st1 = snd st" using test_world [of b s st] by simp
  then show ?case using Cons t by simp
qed simp

lemma first_reachable_found:
  "first_reachable b i ss st = (Some j, st') \<Longrightarrow>
   i \<le> j \<and> j < i + length ss \<and> (\<exists>st1. testConnectivity b (ss ! (j - i)) st1 = (True, st'))"
proof (induction ss arbitrary: i st)
  case (Cons s ss)
  obtain ok st1 where t: "testConnectivity b s st = (ok, st1)" by (rule prod.exhaust)
  show ?case
  proof (cases ok)
    case True
    then have "j = i" "testConnectivity b s st = (True, st')" using Cons.prems t by auto
    then show ?thesis by (auto simp del: split_paired_Ex)
  next
    case False
    then have "first_reachable b (i + 1) ss st1 = (Some j, st')" using Cons.prems t by simp
    from Cons.IH [OF this] show ?thesis by (auto simp: nth_Cons' simp del: split_paired_Ex)
  qed
qed simp

text \<open>A name that was just resolved is resolved to the same address again, without asking.\<close>

lemma cached_just_now: "cached_address now host (AList.update host (a, now + 20 * minute) rs) = Some a"
  by (simp add: cached_address_def AList.update_conv' minute_def second_def)

lemma resolve_again:
  assumes "resolve b host st = (Inr a, st1)" shows "resolve b host st1 = (Inr a, st1)"
proof -
  obtain rs w where st: "st = (rs, w)" by (cases st)
  show ?thesis
  proof (cases "cached_address (bt_now b w) host rs")
    case None
    then have "st1 = (AList.update host (a, bt_now b w + 20 * minute) rs, w)"
      using assms st by (auto simp: resolve_def split: sum.splits)
    then show ?thesis by (simp add: resolve_def cached_just_now)
  next
    case (Some x)
    then have "resolve b host (rs, w) = (Inr x, rs, w)" by (simp add: resolve_def)
    then show ?thesis using assms st by auto
  qed
qed

lemma test_again:
  assumes "testConnectivity b s st = (True, st')"
  shows "testConnectivity b s st' = (True, st')"
proof -
  obtain x st1 where x: "resolve b (si_Address s) st = (x, st1)" by (rule prod.exhaust)
  show ?thesis
  proof (cases x)
    case (Inl e)
    then show ?thesis using assms x by (simp add: testConnectivity_def)
  next
    case (Inr a)
    then have "testConnectivity b s st = (bt_Dial b (a @ '':'' @ itoaInt (si_Port s)) (snd st1), st1)" using x by (simp add: testConnectivity_def)
    moreover have "testConnectivity b s st1 = (bt_Dial b (a @ '':'' @ itoaInt (si_Port s)) (snd st1), st1)"
      using resolve_again [of b "si_Address s" st a st1] Inr x by (simp add: testConnectivity_def)
    ultimately show ?thesis using assms by simp
  qed
qed

lemma mset_to_front: "i < length xs \<Longrightarrow> mset (to_front i xs) = mset xs"
  using mset_swap [of i xs 0] by (cases "xs = []") (simp_all add: to_front_def)

lemma hd_to_front: "i < length xs \<Longrightarrow> hd (to_front i xs) = xs ! i"
  by (cases xs) (auto simp: to_front_def nth_Cons' split: nat.split)

text \<open>
  The test of the connection loses no site, and puts the one that answered first, which is then the only one asked for as long as it answers.
\<close>

theorem reachable_first:
  assumes "canReachInternet b sites st = ((ok, sites'), st')"
  shows "mset sites' = mset sites \<and>
    (ok \<longrightarrow> sites' \<noteq> [] \<and> testConnectivity b (hd sites') st' = (True, st') \<and> canReachInternet b sites' st' = ((True, sites'), st'))"
proof (cases "fst (first_reachable b 0 sites st)")
  case None
  then show ?thesis using assms by (auto simp: canReachInternet_def split: prod.splits option.splits)
next
  case (Some i)
  then have f: "first_reachable b 0 sites st = (Some i, st')" and s': "ok" "sites' = to_front i sites"
    using assms by (auto simp: canReachInternet_def split: prod.splits option.splits)
  then have i: "i < length sites" and t: "\<exists>st1. testConnectivity b (sites ! i) st1 = (True, st')"
    using first_reachable_found [OF f] by auto
  have ne: "sites' \<noteq> []" using i s' mset_to_front [OF i] by auto
  have h: "testConnectivity b (hd sites') st' = (True, st')" using t test_again hd_to_front [OF i] s' by metis
  then have "canReachInternet b sites' st' = ((True, sites'), st')"
    using ne by (cases sites') (simp_all add: canReachInternet_def to_front_def)
  then show ?thesis using mset_to_front [OF i] s' ne h by simp
qed

lemma canReach_world: "snd (snd (canReachInternet b sites st)) = snd st"
  using first_reachable_world [of b 0 sites st] by (auto simp: canReachInternet_def split: prod.splits option.splits)

lemma reach_loop_ends:
  assumes clock: "\<And>d w. bt_now b (bt_sleep b d w) \<ge> bt_now b w + d"
    and "bt_now b (snd st) - start \<ge> 2 * minute - int n * (3 * second)"
  shows "reach_loop b n start sites st \<noteq> None"
  using assms(2)
proof (induction n arbitrary: sites st)
  case 0
  then show ?case by (simp add: reach_loop.simps)
next
  case (Suc n)
  obtain ok sites1 rs w where c: "canReachInternet b sites st = ((ok, sites1), rs, w)" by (metis prod.exhaust)
  have w: "w = snd st" using canReach_world [of b sites st] c by simp
  have "reach_loop b n start sites1 (rs, bt_sleep b (3 * second) w) \<noteq> None"
    using Suc.prems clock [of w "3 * second"] w by (intro Suc.IH) (simp add: second_def minute_def algebra_simps)
  then show ?case using c by (cases ok) (simp_all add: reach_loop.simps [of b "Suc n"] del: not_None_eq)
qed

text \<open>C6. The wait for the internet ends within 40 rounds if time passes while the boot sleeps: a node without a connection is booted all the same.\<close>

theorem network_wait_ends:
  assumes "\<And>d w. bt_now b (bt_sleep b d w) \<ge> bt_now b w + d"
  shows "setupNetworking b 40 cfg k st \<noteq> None"
proof -
  have "reach_loop b 40 (bt_now b w) sites (rs, w) \<noteq> None" for w sites rs
    by (rule reach_loop_ends [OF assms]) (simp_all add: second_def minute_def)
  then show ?thesis
    by (auto simp: setupNetworking_def Let_def simp del: not_None_eq split_paired_Ex split: prod.split sum.split)
qed

section \<open>The order of the boot\<close>

lemma slices_in_order:
  assumes "sorted (map snd t)"
  shows "tree_Slice t 1 1000 @ tree_Slice t 1000 1000000 @ tree_Slice t 1000000 (-1) = map fst (filter (\<lambda>(p, w). 1 \<le> w) t)"
  using assms
proof (induction t)
  case (Cons x t)
  obtain p w where x: "x = (p, w)" by (cases x)
  have le: "\<forall>(q, v) \<in> set t. w \<le> v" using Cons.prems x by auto
  have e: "w \<ge> n \<Longrightarrow> tree_Slice t s n = []" if "n \<noteq> -1" for s n
    using le that by (auto simp: tree_Slice_def filter_empty_conv)
  have c: "tree_Slice ((p, w) # t) s n = (if \<not> w < s \<and> \<not> (w \<ge> n \<and> n \<noteq> -1) then p # tree_Slice t s n else tree_Slice t s n)" for s n
    by (simp add: tree_Slice_def)
  have ih: "tree_Slice t 1 1000 @ tree_Slice t 1000 1000000 @ tree_Slice t 1000000 (-1) = map fst (filter (\<lambda>(p, w). 1 \<le> w) t)"
    using Cons by simp
  consider "w < 1" | "1 \<le> w" "w < 1000" | "1000 \<le> w" "w < 1000000" | "1000000 \<le> w" by linarith
  then show ?case using ih by cases (simp_all add: c x e [of 1000] e [of 1000000])
qed (simp add: tree_Slice_def)

lemma startup_weights: "After_Weight ''init'' = 1" "After_Weight ''net'' = 1000" "After_Weight ''boot'' = 1000000" "After_Weight ''----'' = -1"
  by (simp_all add: After_Weight_def Priority_def)

text \<open>The services that are started, \<open>obs\<close>, in their order: those of each slice; nothing of the network starts any.\<close>

definition starts_only :: "'w boot \<Rightarrow> ('w \<Rightarrow> startup list) \<Rightarrow> bool" where
  "starts_only b obs \<longleftrightarrow>
     (\<forall>ss w. obs (bt_RunSlice b ss w) = obs w @ ss) \<and>
     (\<forall>n w. obs (snd (bn_TapAdd (bt_Net b) n w)) = obs w) \<and>
     (\<forall>r w. obs (snd (ih_LinkSetUp (bn_Ip (bt_Net b)) r w)) = obs w) \<and>
     (\<forall>r a w. obs (snd (ih_AddrDel (bn_Ip (bt_Net b)) r a w)) = obs w) \<and>
     (\<forall>s i w. obs (bt_Go b s i w) = obs w) \<and>
     (\<forall>d w. obs (bt_sleep b d w) = obs w)"

lemma starts_facts:
  assumes "starts_only b obs"
  shows "obs (bt_RunSlice b ss w) = obs w @ ss" "obs (snd (bn_TapAdd (bt_Net b) n w)) = obs w"
    "obs (snd (ih_LinkSetUp (bn_Ip (bt_Net b)) r w)) = obs w" "obs (snd (ih_AddrDel (bn_Ip (bt_Net b)) r a w)) = obs w"
    "obs (bt_Go b s i w) = obs w" "obs (bt_sleep b d w) = obs w"
  using assms unfolding starts_only_def by blast+

lemma call_snd: "snd (call f w) = snd (f w)"
  by (simp add: call_def split: prod.split option.split)

lemma keeps_obs_call: "(\<And>w. obs (snd (f w)) = obs w) \<Longrightarrow> keeps (\<lambda>w. obs w = A) (call f)"
  by (simp add: keeps_def call_snd)

lemma keeps_network:
  assumes "starts_only b obs"
  shows "keeps (\<lambda>w. obs w = A) (Initialize (bt_Net b) s)" "keeps (\<lambda>w. obs w = A) (mgr_Interfaces (bt_Net b) s)"
    "keeps (\<lambda>w. obs w = A) (inf_Clear (bt_Net b) i)" "keeps (\<lambda>w. obs w = A) (inf_SetUP (bt_Net b) i True)"
  by (auto simp: Initialize_def PortCreate_def DeviceUp_def mgr_Interfaces_def getAutoInterfaces_def inf_Clear_def inf_SetUP_def
      netCall_def netAsk_def netFail_def starts_facts [OF assms] split: option.split intro!: keeps_intros keeps_obs_call)

lemma start_interface_obs:
  assumes "starts_only b obs" shows "obs (fold (start_interface b skipped s) infs w) = obs w"
proof -
  have "obs (start_interface b skipped s i w) = obs w" for i w
    using keepsD [OF keeps_network(3) [OF assms, of "obs w" i], of w]
      keepsD [OF keeps_network(4) [OF assms, of "obs w" i], of "snd (inf_Clear (bt_Net b) i w)"]
    by (simp add: start_interface_def starts_facts [OF assms])
  then show ?thesis by (induction infs arbitrary: w) simp_all
qed

lemma reach_loop_obs:
  assumes "starts_only b obs" shows "reach_loop b n start sites st = Some (ok, st') \<Longrightarrow> obs (snd st') = obs (snd st)"
proof (induction n arbitrary: sites st)
  case 0
  then show ?case by (simp add: reach_loop.simps split: if_splits)
next
  case (Suc n)
  obtain c sites1 rs w where c: "canReachInternet b sites st = ((c, sites1), rs, w)" by (metis prod.exhaust)
  have w: "w = snd st" using canReach_world [of b sites st] c by simp
  show ?case
  proof (cases "\<not> bt_now b (snd st) - start < 2 * minute \<or> c")
    case True
    then show ?thesis using Suc.prems c w by (auto simp: reach_loop.simps [of b "Suc n"] split: if_splits)
  next
    case False
    then have "reach_loop b n start sites1 (rs, bt_sleep b (3 * second) w) = Some (ok, st')"
      using Suc.prems c by (simp add: reach_loop.simps [of b "Suc n"] split: if_splits)
    from Suc.IH [OF this] show ?thesis using w starts_facts(6) [OF assms] by simp
  qed
qed

lemma setupNetworking_obs:
  assumes "starts_only b obs" "setupNetworking b n cfg k (rs, w) = Some (e, st')"
  shows "obs (snd st') = obs w"
proof (cases "cfg = []")
  case False
  show ?thesis
  proof (cases "bt_Load b cfg w")
    case (Inr s)
    obtain r1 w1 where i: "Initialize (bt_Net b) s w = (r1, w1)" by (rule prod.exhaust)
    then have o1: "obs w1 = obs w" using keepsD [OF keeps_network(1) [OF assms(1), of "obs w" s], of w] by simp
    obtain r2 w2 where m: "mgr_Interfaces (bt_Net b) s w1 = (r2, w2)" by (rule prod.exhaust)
    then have o2: "obs w2 = obs w" using keepsD [OF keeps_network(2) [OF assms(1), of "obs w" s], of w1] o1 by simp
    show ?thesis
    proof (cases r1)
      case (Inl x)
      then show ?thesis using assms(2) False Inr i o1 by (auto simp: setupNetworking_def)
    next
      case r1: (Inr u)
      show ?thesis
      proof (cases r2)
        case (Inl x)
        then show ?thesis using assms(2) False Inr i r1 m o2 by (auto simp: setupNetworking_def)
      next
        case r2: (Inr infs)
        let ?w3 = "fold (start_interface b (case KernelOptions_Get k ''noautonic'' of None \<Rightarrow> [] | Some l \<Rightarrow> l) s) infs w2"
        obtain ok where l: "reach_loop b n (bt_now b ?w3) checkSites (rs, ?w3) = Some (ok, st')"
          using assms(2) False Inr i r1 m r2 by (auto simp: setupNetworking_def Let_def)
        show ?thesis using reach_loop_obs [OF assms(1) l] start_interface_obs [OF assms(1)] o2 by simp
      qed
    qed
  qed (use assms(2) False in \<open>auto simp: setupNetworking_def\<close>)
qed (use assms(2) in \<open>auto simp: setupNetworking_def\<close>)

lemma network_loop_obs:
  assumes "starts_only b obs" shows "network_loop b n m cfg k (rs, w) = Some st' \<Longrightarrow> obs (snd st') = obs w"
proof (induction m arbitrary: rs w)
  case (Suc m)
  obtain e rs1 w1 where s: "setupNetworking b n cfg k (rs, w) = Some (e, rs1, w1)"
    using Suc.prems by (auto split: option.splits)
  have o1: "obs w1 = obs w" using setupNetworking_obs [OF assms s] by simp
  show ?case
  proof (cases e)
    case None
    then show ?thesis using Suc.prems s o1 by auto
  next
    case (Some x)
    then have "network_loop b n m cfg k (rs1, bt_sleep b (2 * second) w1) = Some st'" using Suc.prems s by simp
    from Suc.IH [OF this] show ?thesis using o1 starts_facts(6) [OF assms] by simp
  qed
qed simp


section \<open>A node to boot\<close>

text \<open>Its state: the elements of the set, the services that were started, and the time.  It has one device with one address.\<close>

type_synonym sample_node = "string set \<times> startup list \<times> int"

text \<open>Elements as \<^verbatim>\<open>nft\<close> reads them: between commas and blanks.\<close>

definition elements_of :: "string \<Rightarrow> string list" where
  "elements_of text = split (CHR '' '') (filter (\<lambda>c. c \<noteq> CHR '','') text)"

definition sampleNft :: "bool \<Rightarrow> sample_node host" where
  "sampleNft works =
     \<lparr>h_System = (\<lambda>args (s, l, t).
        if args ! 1 = ''add'' \<and> args ! 2 = ''element'' then ((NewJobResult (sampleJob [] []), None), s \<union> set (elements_of (args ! 7)), l, t)
        else if args ! 1 = ''delete'' then (if works then ((NewJobResult (sampleJob [] []), None), s - {args ! 7}, l, t)
             else ((NewJobResult (sampleJob [] []), Some (Errorf ''busy'')), s, l, t))
        else ((NewJobResult (sampleJob [] []), None), s, l, t)),
      h_TempFile = (\<lambda>w. (Inr ''/tmp/x'', w)), h_Write = (\<lambda>_ _ w. (None, w)), h_RemoveAll = (\<lambda>_ w. w), h_unjson = (\<lambda>_. None)\<rparr>"

definition sampleBoot :: "bool \<Rightarrow> sample_node boot" where
  "sampleBoot works =
     \<lparr>bt_Net = sampleNet, bt_Nft = sampleNft works, bt_System = \<lambda>args w. (NotRun (Errorf ''none''), w),
      bt_Lookup = \<lambda>n w. Inr (n, []), bt_Dial = \<lambda>a w. hasPrefix a ''1.1.1.1'', bt_now = \<lambda>(s, l, t). t, bt_sleep = \<lambda>d (s, l, t). (s, l, t + d),
      bt_Load = \<lambda>f w. Inr \<lparr>ns_Auto = True, ns_Interface = [], ns_Static = Map.empty, ns_Tap = []\<rparr>, bt_Go = \<lambda>s i w. w,
      bt_RunSlice = \<lambda>ss (s, l, t). (s, l @ ss, t), bt_Setrlimit = \<lambda>n w. (None, w), bt_Register = \<lambda>k x w. (None, w)\<rparr>"

lemma filter_join: "\<forall>p \<in> set ps. CHR '','' \<notin> set p \<Longrightarrow> filter (\<lambda>c. c \<noteq> CHR '','') (join '', '' ps) = join '' '' ps"
proof (induction ps)
  case (Cons p ps)
  have "filter (\<lambda>c. c \<noteq> CHR '','') p = p" using Cons.prems by (intro filter_True) auto
  then show ?case using Cons by (cases "ps = []") (simp_all add: join_Cons)
qed simp

lemma elements_join:
  assumes "set ips \<subseteq> range IP_String" "ips \<noteq> []" shows "elements_of (join '', '' ips) = ips"
proof -
  have c: "c \<notin> set p" if "p \<in> set ips" "\<not> isDigit c" "c \<noteq> CHR ''.''" for c p
    using that assms(1) IP_String_not_in by blast
  have "filter (\<lambda>c. c \<noteq> CHR '','') (join '', '' ips) = join '' '' ips"
    using c [of _ "CHR '',''"] by (intro filter_join) (simp add: isDigit_def)
  moreover have "split (CHR '' '') (join '' '' ips) = ips"
    using assms(2) c [of _ "CHR '' ''"] by (intro split_join) (simp_all add: isDigit_def)
  ultimately show ?thesis by (simp add: elements_of_def)
qed

lemma sampleNft_tool: "host_set_tool (sampleNft works) fst"
  unfolding host_set_tool_def
proof (intro conjI allI impI)
  fix ips :: "string list" and w :: sample_node
  assume "ips \<noteq> [] \<and> set ips \<subseteq> range IP_String"
  then have "elements_of (join '', '' ips) = ips" using elements_join by blast
  then show "fst (snd (h_System (sampleNft works) (element_call ''add'' ips) w)) =
      (if snd (fst (h_System (sampleNft works) (element_call ''add'' ips) w)) = None then fst w \<union> set ips else fst w)"
    by (cases w) (simp add: sampleNft_def element_call_def)
qed (simp_all add: sampleNft_def element_call_def add_set_call_def split: prod.split)

lemma sample_addresses: "getCurrentIPs (bt_Net (sampleBoot works)) w = Inr [''10.0.0.2'']"
proof -
  have "itoa 10 = ''10'' \<and> itoa 0 = ''0'' \<and> itoa 2 = ''2''" by code_simp
  then have "IP_String (net_IP nodeAddress) = ''10.0.0.2''" by (simp add: nodeAddress_def IP_String_def octet_def)
  then show ?thesis
    by (simp add: getCurrentIPs_def sampleBoot_def sampleNet_def link_addrs_def shown_link_def eth0_def)
qed

lemma sampleBoot_nft: "bt_Nft (sampleBoot works) = sampleNft works"
  by (simp add: sampleBoot_def)

text \<open>An address that went away is taken out of the set and the new one put in.\<close>

theorem host_set_exact_witness:
  "fst (snd (notify_ips (sampleBoot True) ([''10.0.0.9''], {''10.0.0.9''}, [], 0))) = {''10.0.0.2''}"
proof -
  obtain cur' w' where n: "notify_ips (sampleBoot True) ([''10.0.0.9''], {''10.0.0.9''}, [], 0) = (cur', w')" by (metis prod.exhaust)
  have ok: "snd (fst (h_System (bt_Nft (sampleBoot True)) args w)) = None" for args w
    by (cases w) (simp add: sampleBoot_nft sampleNft_def)
  show ?thesis
    using host_set_exact [OF sampleNft_tool [of True, folded sampleBoot_nft] ok sample_addresses _ n] n by simp
qed

theorem host_address_leaks_witness:
  "''10.0.0.9'' \<in> fst (snd (notify_ips (sampleBoot True) (notify_ips (sampleBoot False) ([''10.0.0.9''], {''10.0.0.9''}, [], 0))))"
proof -
  obtain c1 w1 where n1: "notify_ips (sampleBoot False) ([''10.0.0.9''], {''10.0.0.9''}, [], 0) = (c1, w1)" by (metis prod.exhaust)
  obtain c2 w2 where n2: "notify_ips (sampleBoot True) (c1, w1) = (c2, w2)" by (metis prod.exhaust)
  have fails: "snd (fst (h_System (bt_Nft (sampleBoot False)) (element_call ''delete'' [''10.0.0.9'']) v)) \<noteq> None" for v
    by (cases v) (simp add: sampleBoot_nft sampleNft_def element_call_def)
  have one: "''10.0.0.9'' \<in> fst w1 \<and> ''10.0.0.9'' \<notin> set c1"
    using host_address_leaks [OF sampleNft_tool [of False, folded sampleBoot_nft] sample_addresses _ _ n1, of "''10.0.0.9''"] fails by simp
  then show ?thesis
    using host_address_leaks [OF sampleNft_tool [of True, folded sampleBoot_nft] sample_addresses _ _ n2, of "''10.0.0.9''"] n1 n2 by simp
qed

text \<open>The second site answers; it is asked for first from then on.\<close>

lemma sample_reaches:
  "fst (canReachInternet (sampleBoot True) checkSites ([], {}, [], 0)) =
     (True, [\<lparr>si_Address = ''1.1.1.1'', si_Port = 80\<rparr>, \<lparr>si_Address = ''google.com'', si_Port = 80\<rparr>, \<lparr>si_Address = ''facebook.com'', si_Port = 80\<rparr>])"
  by (simp add: canReachInternet_def checkSites_def testConnectivity_def resolve_def cached_address_def sampleBoot_def to_front_def)

theorem reachable_first_witness:
  "fst (testConnectivity (sampleBoot True) \<lparr>si_Address = ''1.1.1.1'', si_Port = 80\<rparr> (snd (canReachInternet (sampleBoot True) checkSites ([], {}, [], 0))))"
proof -
  obtain ok ss st where c: "canReachInternet (sampleBoot True) checkSites ([], {}, [], 0) = ((ok, ss), st)" by (metis prod.exhaust)
  then show ?thesis using reachable_first [OF c] sample_reaches by auto
qed

theorem network_wait_ends_witness: "\<exists>r. setupNetworking (sampleBoot True) 40 ''/etc/net.toml'' Map.empty ([], {}, [], 0) = Some r"
proof -
  have "bt_now (sampleBoot True) (bt_sleep (sampleBoot True) d w) \<ge> bt_now (sampleBoot True) w + d" for d w
    by (cases w) (simp add: sampleBoot_def)
  from network_wait_ends [OF this] show ?thesis by blast
qed

lemma sampleBoot_starts: "starts_only (sampleBoot True) (\<lambda>(s, l, t). l)"
  by (simp add: starts_only_def sampleBoot_def sampleNet_def split: prod.split)

definition sampleTree :: startup_tree where
  "sampleTree = [(sampleService [], 1), (sampleService [''net''], 1000), (sampleService [''boot''], 1000000)]"


end
