(* ===== verification/Node_Jobs.thy ===== *)
theory Node_Jobs
  imports Pm_Manager Go_Json
begin

text \<open>
  Commands on jobs: \<^verbatim>\<open>base/builtin/job.go\<close>, \<^verbatim>\<open>subscribe.go\<close> and \<^verbatim>\<open>get_aggregated_stats.go\<close>, and the ones of core0 that start and end jobs, \<^verbatim>\<open>rtinfo.go\<close> and
  \<^verbatim>\<open>power.go\<close>.
\<close>

section \<open>Jobs\<close>

text \<open>What a process can say of itself: statistics and a pid, where it has them, by job; \<open>start\<close> is the time the job started.\<close>

record 'f job_view =
  jv_stats :: "string \<Rightarrow> 'f process_stats option"
  jv_pid :: "string \<Rightarrow> int option"
  jv_start :: "string \<Rightarrow> int"
  jv_zero :: 'f
  jv_add :: "'f \<Rightarrow> 'f \<Rightarrow> 'f"

record 'f process_data =
  pd_Stats :: "'f process_stats"
  pd_StartTime :: int
  pd_Cmd :: command
  pd_PID :: int

definition no_stats :: "'f job_view \<Rightarrow> 'f process_stats" where
  "no_stats v = \<lparr>CPU = jv_zero v, RSS = 0, VMS = 0, Swap = 0\<rparr>"

definition process_data_of :: "'f job_view \<Rightarrow> mjob \<Rightarrow> 'f process_data" where
  "process_data_of v j =
     (let i = cmd_ID (mj_cmd j) in
      \<lparr>pd_Stats = (case jv_stats v i of None \<Rightarrow> no_stats v | Some s \<Rightarrow> s), pd_StartTime = jv_start v i, pd_Cmd = mj_cmd j,
       pd_PID = (case jv_pid v i of None \<Rightarrow> 0 | Some p \<Rightarrow> p)\<rparr>)"

definition quoted :: "string \<Rightarrow> string" where
  "quoted s = [CHR 0x27] @ s @ [CHR 0x27]"

text \<open>The jobs of the manager in the order \<open>ids\<close> of a \<^verbatim>\<open>range\<close> loop over the map.\<close>

definition jobs_in :: "string list \<Rightarrow> manager \<Rightarrow> mjob list" where
  "jobs_in ids m = List.map_filter (m_jobs m) ids"

definition jobList :: "'f job_view \<Rightarrow> string list \<Rightarrow> manager \<Rightarrow> string \<Rightarrow> go_error + 'f process_data list" where
  "jobList v ids m i =
     (if i \<noteq> [] then
        (case JobOf m i of
           None \<Rightarrow> Inl (Errorf (''Process with id '' @ quoted i @ '' doesn't exist''))
         | Some j \<Rightarrow> Inr [process_data_of v j])
      else Inr (map (process_data_of v) (jobs_in ids m)))"

text \<open>The answer is false when there is no such job; \<^const>\<open>None\<close> is the panic of a signal to a job that ends at this moment.\<close>

definition jobKill :: "manager \<Rightarrow> string \<Rightarrow> int \<Rightarrow> ((go_error + bool) \<times> manager) option" where
  "jobKill m i sig =
     (let s = (if sig = 0 then SIGTERM else sig) in
      case JobOf m i of
        None \<Rightarrow> Some (Inr False, m)
      | Some j \<Rightarrow>
          (case job_Signal s (mj_ctl j) of
             None \<Rightarrow> None
           | Some (Inl e) \<Rightarrow> Some (Inl e, m)
           | Some (Inr c) \<Rightarrow> Some (Inr True, m\<lparr>m_jobs := (m_jobs m)(i \<mapsto> j\<lparr>mj_ctl := c\<rparr>)\<rparr>)))"

definition jobUnschedule :: "manager \<Rightarrow> string \<Rightarrow> bool \<times> manager" where
  "jobUnschedule m i =
     (case JobOf m i of
        None \<Rightarrow> (False, m)
      | Some j \<Rightarrow> (True, m\<lparr>m_jobs := (m_jobs m)(i \<mapsto> j\<lparr>mj_ctl := job_Unschedule (mj_ctl j)\<rparr>)\<rparr>))"

definition jobKillAll :: "manager \<Rightarrow> bool \<times> manager" where
  "jobKillAll m = (True, Killall m)"

text \<open>\<^verbatim>\<open>core.subscribe\<close>: the messages of the job become messages of this command, until the job has a result.\<close>

definition subscribe_error :: "manager \<Rightarrow> string \<Rightarrow> go_error option" where
  "subscribe_error m i = (case JobOf m i of None \<Rightarrow> Some (Errorf (''job '' @ quoted i @ '' does not exist'')) | Some j \<Rightarrow> None)"

text \<open>The sum of the statistics of the jobs and of core0, as far as it can be measured: its CPU, and its memory.\<close>

definition add_stats :: "'f job_view \<Rightarrow> 'f process_stats \<Rightarrow> 'f process_stats \<Rightarrow> 'f process_stats" where
  "add_stats v a b = \<lparr>CPU = jv_add v (CPU a) (CPU b), RSS = RSS a + RSS b, VMS = VMS a + VMS b, Swap = Swap a + Swap b\<rparr>"

definition getAggregatedStats :: "'f job_view \<Rightarrow> string list \<Rightarrow> manager \<Rightarrow> 'f option \<Rightarrow> (u64 \<times> u64 \<times> u64) option \<Rightarrow> 'f process_stats" where
  "getAggregatedStats v ids m cpu mem =
     (let s = fold (\<lambda>j s. case jv_stats v (cmd_ID (mj_cmd j)) of None \<Rightarrow> s | Some p \<Rightarrow> add_stats v s p) (jobs_in ids m) (no_stats v);
          s1 = (case cpu of None \<Rightarrow> s | Some c \<Rightarrow> s\<lparr>CPU := jv_add v (CPU s) c\<rparr>)
      in case mem of
           None \<Rightarrow> s1
         | Some (rss, vms, swap) \<Rightarrow> s1\<lparr>RSS := RSS s1 + rss, Swap := Swap s1 + swap, VMS := VMS s1 + vms\<rparr>)"

section \<open>Power\<close>

definition RedisJobID :: string where "RedisJobID = ''redis''"
definition RedisProxyJobID :: string where "RedisProxyJobID = ''redis-proxy''"
definition ZeroFSID :: string where "ZeroFSID = ''zfs:*''"

definition LINUX_REBOOT_CMD_RESTART :: u32 where "LINUX_REBOOT_CMD_RESTART = 0x1234567"
definition LINUX_REBOOT_CMD_POWER_OFF :: u32 where "LINUX_REBOOT_CMD_POWER_OFF = 0x4321fedc"

text \<open>The two stages of the shutdown, with what happens while the jobs of each end.\<close>

definition stop_jobs :: "(manager \<Rightarrow> manager) \<Rightarrow> (manager \<Rightarrow> manager) \<Rightarrow> manager \<Rightarrow> manager" where
  "stop_jobs settle1 settle2 m =
     Shutdown settle2 [RedisJobID, RedisProxyJobID] (Shutdown settle1 [RedisJobID, RedisProxyJobID, ZeroFSID] m)"

text \<open>The manager at the end, the message that is sent before it, and the call of the kernel.\<close>

definition power_message :: "string \<Rightarrow> string \<times> meta" where
  "power_message t = (t @ [CHR 0x0A], NewMeta 1 [ExitSuccessFlag])"

definition power_restart :: "(manager \<Rightarrow> manager) \<Rightarrow> (manager \<Rightarrow> manager) \<Rightarrow> manager \<Rightarrow> manager \<times> (string \<times> meta) \<times> u32" where
  "power_restart settle1 settle2 m = (stop_jobs settle1 settle2 m, power_message ''rebooting...'', LINUX_REBOOT_CMD_RESTART)"

definition poweroff :: "(manager \<Rightarrow> manager) \<Rightarrow> (manager \<Rightarrow> manager) \<Rightarrow> manager \<Rightarrow> manager \<times> (string \<times> meta) \<times> u32" where
  "poweroff settle1 settle2 m = (stop_jobs settle1 settle2 m, power_message ''powering off...'', LINUX_REBOOT_CMD_POWER_OFF)"

section \<open>Rtinfo\<close>

record rtinfo_params =
  rp_Host :: string
  rp_Port :: nat
  rp_Disks :: "string list"
  rp_job :: string

text \<open>
  The running clients by daemon, and whether the lock is held by a command that waits for itself: \<^verbatim>\<open>start\<close> takes the lock again when the process manager
  refuses the job, which never succeeds as it holds it until it returns.
\<close>

record rtinfo =
  ri_info :: "string \<rightharpoonup> rtinfo_params"
  ri_stuck :: bool

definition rt_key :: "string \<Rightarrow> nat \<Rightarrow> string" where
  "rt_key host port = host @ '':'' @ itoa port"

definition rt_args :: "rtinfo_params \<Rightarrow> string list" where
  "rt_args a = [''--host'', rp_Host a, ''--port'', itoa (rp_Port a)] @ concat (map (\<lambda>d. [''--disk'', d]) (rp_Disks a))"

text \<open>\<open>run\<close> is the answer of the process manager to the job; \<^const>\<open>None\<close> is a command that does not return.\<close>

definition rtinfo_start ::
  "(string \<Rightarrow> string list \<Rightarrow> go_error option) \<Rightarrow> string \<Rightarrow> rtinfo_params \<Rightarrow> rtinfo \<Rightarrow> (go_error option) option \<times> rtinfo" where
  "rtinfo_start run uuid a r =
     (if ri_stuck r then (None, r)
      else
        let key = rt_key (rp_Host a) (rp_Port a) in
        if ri_info r key \<noteq> None then (Some (Some (NotAcceptableError ''an rtinfo agent running already for this daemon'')), r)
        else
          let r1 = r\<lparr>ri_info := (ri_info r)(key \<mapsto> a\<lparr>rp_job := uuid\<rparr>)\<rparr> in
          case run uuid (rt_args a) of
            None \<Rightarrow> (Some None, r1)
          | Some e \<Rightarrow> (None, r1\<lparr>ri_stuck := True\<rparr>))"

text \<open>The hook of the end of a client; it waits for ever like the commands.\<close>

definition rtinfo_exit :: "string \<Rightarrow> rtinfo \<Rightarrow> unit option \<times> rtinfo" where
  "rtinfo_exit key r = (if ri_stuck r then (None, r) else (Some (), r\<lparr>ri_info := (ri_info r)(key := None)\<rparr>))"

definition rtinfo_list :: "rtinfo \<Rightarrow> string \<rightharpoonup> rtinfo_params" where
  "rtinfo_list r = ri_info r"

text \<open>The job that is killed, if the daemon has one.\<close>

definition rtinfo_stop :: "string \<Rightarrow> nat \<Rightarrow> rtinfo \<Rightarrow> (string option) option \<times> rtinfo" where
  "rtinfo_stop host port r = (if ri_stuck r then (None, r) else (Some (map_option rp_job (ri_info r (rt_key host port))), r))"

text \<open>What can happen to the clients: commands, the answers of the process manager, and ends of jobs.\<close>

datatype rt_op = RtStart string rtinfo_params "go_error option" | RtExit string | RtStop string nat

fun rt_step :: "rt_op \<Rightarrow> rtinfo \<Rightarrow> rtinfo" where
  "rt_step (RtStart uuid a answer) r = snd (rtinfo_start (\<lambda>_ _. answer) uuid a r)"
| "rt_step (RtExit key) r = snd (rtinfo_exit key r)"
| "rt_step (RtStop host port) r = snd (rtinfo_stop host port r)"

text \<open>Whether the command would return at this point.\<close>

fun rt_returns :: "rt_op \<Rightarrow> rtinfo \<Rightarrow> bool" where
  "rt_returns (RtStart uuid a answer) r \<longleftrightarrow> fst (rtinfo_start (\<lambda>_ _. answer) uuid a r) \<noteq> None"
| "rt_returns (RtExit key) r \<longleftrightarrow> fst (rtinfo_exit key r) \<noteq> None"
| "rt_returns (RtStop host port) r \<longleftrightarrow> fst (rtinfo_stop host port r) \<noteq> None"

definition rt_fails :: "rt_op \<Rightarrow> bool" where
  "rt_fails op = (case op of RtStart uuid a (Some e) \<Rightarrow> True | _ \<Rightarrow> False)"

definition rt_run :: "rt_op list \<Rightarrow> rtinfo \<Rightarrow> rtinfo" where
  "rt_run ops r = fold rt_step ops r"

section \<open>Properties\<close>

lemma rt_stuck_step: "ri_stuck r \<Longrightarrow> rt_step op r = r \<and> \<not> rt_returns op r"
  by (cases op) (simp_all add: rtinfo_start_def rtinfo_exit_def rtinfo_stop_def)

lemma rt_free_step: "\<not> ri_stuck r \<Longrightarrow> \<not> rt_fails op \<Longrightarrow> \<not> ri_stuck (rt_step op r) \<and> rt_returns op r"
  by (cases op) (auto simp: rtinfo_start_def rtinfo_exit_def rtinfo_stop_def rt_fails_def Let_def split: option.splits)


text \<open>
  The file systems of the node outlive the rest: the first stage of a reboot or power off touches no job that mounts one, no redis and no proxy, and
  terminates every other process; the second one terminates the mounts.
\<close>

theorem shutdown_stages:
  "terminates [RedisJobID, RedisProxyJobID, ZeroFSID] v =
     (mj_pider v \<and> cmd_ID (mj_cmd v) \<notin> {RedisJobID, RedisProxyJobID} \<and> \<not> hasPrefix (cmd_ID (mj_cmd v)) ''zfs:'') \<and>
   terminates [RedisJobID, RedisProxyJobID] v = (mj_pider v \<and> cmd_ID (mj_cmd v) \<notin> {RedisJobID, RedisProxyJobID})"
  by (simp add: terminates_def matchID_def RedisJobID_def RedisProxyJobID_def ZeroFSID_def hasSuffix_def trimRight_def)

section \<open>A sample client\<close>

definition sampleClient :: rtinfo_params where
  "sampleClient = \<lparr>rp_Host = ''10.0.0.1'', rp_Port = 9930, rp_Disks = [''sda''], rp_job = []\<rparr>"

definition noClients :: rtinfo where
  "noClients = \<lparr>ri_info = (\<lambda>_. None), ri_stuck = False\<rparr>"


end
