(* ===== verification/Node_Info.thy ===== *)
theory Node_Info
  imports Flists Disk_Safety
begin

text \<open>
  \<^verbatim>\<open>base/builtin/info.go\<close> and \<^verbatim>\<open>base/builtin/process.go\<close>: what a node tells of its version, interfaces, open ports and processes.  The files of the
  kernel, the descriptors of processes and the measurements of \<^verbatim>\<open>gopsutil\<close> are parameters; the parsers are modelled.
\<close>

section \<open>Version and interfaces\<close>

record version =
  ve_Branch :: string
  ve_Revision :: string
  ve_Dirty :: bool

definition getVersionInfo :: "string \<Rightarrow> string \<Rightarrow> string \<Rightarrow> version" where
  "getVersionInfo branch revision dirty = \<lparr>ve_Branch = branch, ve_Revision = revision, ve_Dirty = (dirty \<noteq> [])\<rparr>"

record interface_stat =
  is_MTU :: int
  is_Name :: string
  is_HardwareAddr :: string
  is_Flags :: "string list"
  is_Addrs :: "string list"

record nic_info = interface_stat +
  ni_Speed :: int
  ni_Carrier :: bool
  ni_OperState :: bool

text \<open>\<^verbatim>\<open>strconv.ParseBool\<close> with its error dropped.\<close>

definition parseBool :: "string \<Rightarrow> bool" where
  "parseBool s \<longleftrightarrow> s \<in> {''1'', ''t'', ''T'', ''TRUE'', ''true'', ''True''}"

definition operstate_of :: "string \<Rightarrow> bool" where
  "operstate_of op \<longleftrightarrow> op = ''up'' \<or> op = ''1''"

text \<open>A file that cannot be read is empty.\<close>

definition sys_file :: "(string \<Rightarrow> string option) \<Rightarrow> string \<Rightarrow> string \<Rightarrow> string" where
  "sys_file readFile name attr =
     (let dat = case_option [] (\<lambda>d. d) (readFile (''/sys/class/net/'' @ name @ ''/'' @ attr)) in trim dat [newline])"

definition node_nic :: "(string \<Rightarrow> string option) \<Rightarrow> interface_stat \<Rightarrow> nic_info" where
  "node_nic readFile ifc =
     \<lparr>is_MTU = is_MTU ifc, is_Name = is_Name ifc, is_HardwareAddr = is_HardwareAddr ifc, is_Flags = is_Flags ifc, is_Addrs = is_Addrs ifc,
      ni_Speed = fst (parseInt 64 (sys_file readFile (is_Name ifc) ''speed'')),
      ni_Carrier = parseBool (sys_file readFile (is_Name ifc) ''carrier''),
      ni_OperState = operstate_of (sys_file readFile (is_Name ifc) ''operstate'')\<rparr>"

definition getNicInfo :: "(string \<Rightarrow> string option) \<Rightarrow> go_error + interface_stat list \<Rightarrow> go_error + nic_info list" where
  "getNicInfo readFile interfaces = map_sum (\<lambda>e. e) (map (node_nic readFile)) interfaces"

section \<open>Ports\<close>

record net_port =
  po_Network :: string
  po_Port :: u16
  po_Unix :: string
  po_IP :: "u8 list"
  po_PID :: nat
  po_inode :: nat

datatype port_error = PortPanic | PortNumber num_error | NoFile

text \<open>A hexadecimal digit, as \<^verbatim>\<open>fmt\<close> and \<^verbatim>\<open>strconv\<close> take it.\<close>

definition hexDigitVal :: "char \<Rightarrow> nat option" where
  "hexDigitVal c =
     (let n = of_char c :: nat in
      if 48 \<le> n \<and> n \<le> 57 then Some (n - 48) else if 97 \<le> n \<and> n \<le> 102 then Some (n - 87) else if 65 \<le> n \<and> n \<le> 70 then Some (n - 55) else None)"

text \<open>\<^verbatim>\<open>Sscanf(s, "%x", &ip)\<close> into bytes, for a text without blanks; an odd number of digits is an error, what follows the digits is not looked at.\<close>

fun hexBytes :: "string \<Rightarrow> u8 list option" where
  "hexBytes [] = Some []"
| "hexBytes [c] = (if hexDigitVal c = None then Some [] else None)"
| "hexBytes (c # d # s) =
     (case hexDigitVal c of
        None \<Rightarrow> Some []
      | Some a \<Rightarrow> (case hexDigitVal d of None \<Rightarrow> None | Some b \<Rightarrow> map_option (\<lambda>bs. word_of_nat (16 * a + b) # bs) (hexBytes s)))"

text \<open>The swap of every four bytes; the index runs out of the slice when bytes are left over.\<close>

fun swap4 :: "'a list \<Rightarrow> 'a list option" where
  "swap4 [] = Some []"
| "swap4 (a # b # c # d # r) = map_option (\<lambda>r'. d # c # b # a # r') (swap4 r)"
| "swap4 _ = None"

definition parseIP :: "string \<Rightarrow> u8 list option" where
  "parseIP s = (case hexBytes s of None \<Rightarrow> Some [] | Some ip \<Rightarrow> swap4 ip)"

text \<open>\<^verbatim>\<open>strconv.ParseUint(s, 16, 16)\<close>: the first digit that is none or exceeds the width decides.\<close>

fun parse_hex16 :: "nat \<Rightarrow> string \<Rightarrow> num_error + nat" where
  "parse_hex16 n [] = Inr n"
| "parse_hex16 n (c # s) =
     (case hexDigitVal c of
        None \<Rightarrow> Inl ErrSyntax
      | Some d \<Rightarrow> if 16 * n + d \<ge> 2 ^ 16 then Inl ErrRange else parse_hex16 (16 * n + d) s)"

definition parseHexPort :: "string \<Rightarrow> num_error + nat" where
  "parseHexPort s = (if s = [] then Inl ErrSyntax else parse_hex16 0 s)"

text \<open>One line: \<^const>\<open>None\<close> is a line that is skipped.\<close>

definition tcp_line :: "string \<Rightarrow> string \<Rightarrow> port_error + net_port option" where
  "tcp_line network line =
     (let fields = Fields line in
      if length fields < 4 \<or> fields ! 1 = ''local_address'' then Inr None
      else
        let mode = fields ! 3 in
        if \<not> (mode = ''0A'' \<or> mode = ''07'') then Inr None
        else
          let localParts = split (CHR '':'') (fields ! 1) in
          if length localParts < 2 then Inl PortPanic
          else
            (case parseHexPort (localParts ! 1) of
               Inl e \<Rightarrow> Inl (PortNumber e)
             | Inr p \<Rightarrow>
                 if length fields < 10 then Inl PortPanic
                 else
                   (case parseIP (localParts ! 0) of
                      None \<Rightarrow> Inl PortPanic
                    | Some ip \<Rightarrow>
                        Inr (Some \<lparr>po_Network = network, po_Port = word_of_nat p, po_Unix = [], po_IP = ip, po_PID = 0,
                                   po_inode = fst (parseUint 64 (fields ! 9))\<rparr>))))"

text \<open>The lines of a file up to its last newline.\<close>

definition file_lines :: "string \<Rightarrow> string list" where
  "file_lines content = butlast (split newline content)"

fun tcp_lines :: "string \<Rightarrow> string list \<Rightarrow> port_error + net_port list" where
  "tcp_lines network [] = Inr []"
| "tcp_lines network (l # ls) =
     (case tcp_line network l of
        Inl e \<Rightarrow> Inl e
      | Inr p \<Rightarrow> map_sum (\<lambda>e. e) (\<lambda>ps. case_option [] (\<lambda>p. [p]) p @ ps) (tcp_lines network ls))"

fun tcp_networks :: "(string \<Rightarrow> string option) \<Rightarrow> string list \<Rightarrow> port_error + net_port list" where
  "tcp_networks readFile [] = Inr []"
| "tcp_networks readFile (n # ns) =
     (case readFile (''/proc/net/'' @ n) of
        None \<Rightarrow> tcp_networks readFile ns
      | Some content \<Rightarrow>
          (case tcp_lines n (file_lines content) of
             Inl e \<Rightarrow> Inl e
           | Inr ps \<Rightarrow> map_sum (\<lambda>e. e) (\<lambda>qs. ps @ qs) (tcp_networks readFile ns)))"

definition getTCPUDPInfo :: "(string \<Rightarrow> string option) \<Rightarrow> port_error + net_port list" where
  "getTCPUDPInfo readFile = tcp_networks readFile [''tcp'', ''tcp6'', ''udp'', ''udp6'']"

definition unix_line :: "string \<Rightarrow> net_port option" where
  "unix_line line =
     (let fields = Fields line in
      if length fields < 8 \<or> fields ! 0 = ''Num'' then None
      else if fields ! 5 \<noteq> ''01'' then None
      else Some \<lparr>po_Network = ''unix'', po_Port = 0, po_Unix = path_Clean (fields ! 7), po_IP = [], po_PID = 0, po_inode = fst (parseUint 64 (fields ! 6))\<rparr>)"

definition getUnixSocketInfo :: "(string \<Rightarrow> string option) \<Rightarrow> port_error + net_port list" where
  "getUnixSocketInfo readFile =
     (case readFile ''/proc/net/unix'' of
        None \<Rightarrow> Inl NoFile
      | Some content \<Rightarrow> Inr (List.map_filter unix_line (file_lines content)))"

text \<open>\<^verbatim>\<open>Sscanf(target, "socket:[%d]", &inode)\<close>.\<close>

definition socket_inode :: "string \<Rightarrow> nat option" where
  "socket_inode target =
     (if \<not> hasPrefix target ''socket:['' then None
      else
        case skipSpace (drop 8 target) of
          None \<Rightarrow> None
        | Some t \<Rightarrow>
            let ds = takeWhile isDigit t; r = dropWhile isDigit t in
            if ds = [] \<or> atoi ds \<ge> 2 ^ 64 \<or> r = [] \<or> hd r \<noteq> CHR '']'' then None else Some (atoi ds))"

text \<open>
  The descriptors of a process, in the order of the directory: the targets of its links, \<^const>\<open>None\<close> for one that cannot be read; a directory that cannot
  be read has no links.
\<close>

definition getProcessSocketsInodes :: "(nat \<Rightarrow> string option list) \<Rightarrow> nat \<Rightarrow> (nat \<rightharpoonup> nat) \<Rightarrow> (nat \<rightharpoonup> nat)" where
  "getProcessSocketsInodes fds pid m =
     fold (\<lambda>target m. case Option.bind target socket_inode of None \<Rightarrow> m | Some i \<Rightarrow> m(i \<mapsto> pid)) (fds pid) m"

text \<open>
  \<^verbatim>\<open>filepath.Walk\<close> over \<^verbatim>\<open>/proc\<close>, whose entries are given with whether they are directories, in the order of their names.  It goes down into none of
  them.
\<close>

definition proc_pid :: "string \<times> bool \<Rightarrow> nat option" where
  "proc_pid entry =
     (if \<not> snd entry then None else case parseUint 64 (fst entry) of (pid, None) \<Rightarrow> Some pid | _ \<Rightarrow> None)"

definition getSocketsInodes :: "(nat \<Rightarrow> string option list) \<Rightarrow> (string \<times> bool) list \<Rightarrow> (nat \<rightharpoonup> nat)" where
  "getSocketsInodes fds proc = fold (getProcessSocketsInodes fds) (List.map_filter proc_pid proc) Map.empty"

definition with_pid :: "(nat \<rightharpoonup> nat) \<Rightarrow> net_port \<Rightarrow> net_port" where
  "with_pid inodes p = (case inodes (po_inode p) of None \<Rightarrow> p | Some pid \<Rightarrow> p\<lparr>po_PID := pid\<rparr>)"

definition getPortInfo ::
  "(string \<Rightarrow> string option) \<Rightarrow> (nat \<Rightarrow> string option list) \<Rightarrow> (string \<times> bool) list \<Rightarrow> port_error + net_port list" where
  "getPortInfo readFile fds proc =
     (case getTCPUDPInfo readFile of
        Inl e \<Rightarrow> Inl e
      | Inr ports \<Rightarrow>
          let unix = case_sum (\<lambda>_. []) (\<lambda>ps. ps) (getUnixSocketInfo readFile)
          in Inr (map (with_pid (getSocketsInodes fds proc)) (ports @ unix)))"

section \<open>Processes\<close>

record 'f cpu_stats =
  cs_GuestNice :: 'f
  cs_Idle :: 'f
  cs_IoWait :: 'f
  cs_Irq :: 'f
  cs_Nice :: 'f
  cs_SoftIrq :: 'f
  cs_Steal :: 'f
  cs_Stolen :: 'f
  cs_System :: 'f
  cs_User :: 'f

record ('f, 'l) process_info =
  pr_PID :: int
  pr_PPID :: int
  pr_Cmdline :: string
  pr_Name :: string
  pr_CreateTime :: int
  pr_Cpu :: "'f cpu_stats"
  pr_RSS :: u64
  pr_VMS :: u64
  pr_Swap :: u64
  pr_RLimit :: "'l list"
  pr_OFD :: int

text \<open>What can be measured of a process, \<^const>\<open>None\<close> where it fails, and the text of its \<^verbatim>\<open>stat\<close> file.\<close>

record ('f, 'l) ps_source =
  pp_Pid :: int
  pp_stat :: "string option"
  pp_Cmdline :: "string option"
  pp_Name :: "string option"
  pp_CreateTime :: "int option"
  pp_MemoryInfo :: "(u64 \<times> u64 \<times> u64) option"
  pp_Times :: "'f cpu_stats option"
  pp_NumFDs :: "int option"
  pp_Rlimit :: "'l list option"

text \<open>\<^verbatim>\<open>Sscanf(s, "%d", &ppid)\<close> into 32 bits.\<close>

definition sscanf_int32 :: "string \<Rightarrow> int option" where
  "sscanf_int32 s = (case sscanf_int s of None \<Rightarrow> None | Some n \<Rightarrow> if n < - (2 ^ 31) \<or> n \<ge> 2 ^ 31 then None else Some n)"

definition stat_PPID :: "string option \<Rightarrow> int" where
  "stat_PPID data =
     (case data of
        None \<Rightarrow> 0
      | Some d \<Rightarrow>
          let fields = Fields d in
          if length fields \<ge> 4 then case_option 0 (\<lambda>n. n) (sscanf_int32 (fields ! 3)) else 0)"

definition getProcessInfo :: "'f \<Rightarrow> ('f, 'l) ps_source \<Rightarrow> ('f, 'l) process_info" where
  "getProcessInfo zero ps =
     (let (rss, vms, swap) = case_option (0, 0, 0) (\<lambda>m. m) (pp_MemoryInfo ps) in
      \<lparr>pr_PID = pp_Pid ps, pr_PPID = stat_PPID (pp_stat ps), pr_Cmdline = case_option [] (\<lambda>x. x) (pp_Cmdline ps),
       pr_Name = case_option [] (\<lambda>x. x) (pp_Name ps), pr_CreateTime = case_option 0 (\<lambda>x. x) (pp_CreateTime ps),
       pr_Cpu = (case pp_Times ps of
                   None \<Rightarrow> \<lparr>cs_GuestNice = zero, cs_Idle = zero, cs_IoWait = zero, cs_Irq = zero, cs_Nice = zero, cs_SoftIrq = zero,
                            cs_Steal = zero, cs_Stolen = zero, cs_System = zero, cs_User = zero\<rparr>
                 | Some c \<Rightarrow> c),
       pr_RSS = rss, pr_VMS = vms, pr_Swap = swap, pr_RLimit = case_option [] (\<lambda>x. x) (pp_Rlimit ps),
       pr_OFD = case_option 0 (\<lambda>x. x) (pp_NumFDs ps)\<rparr>)"

text \<open>Processes that are gone by the time they are looked at are left out.\<close>

definition processList ::
  "'f \<Rightarrow> go_error + int list \<Rightarrow> (int \<Rightarrow> ('f, 'l) ps_source option) \<Rightarrow> int \<Rightarrow> go_error + ('f, 'l) process_info list" where
  "processList zero pids newProcess pid =
     (case (if pid > 0 then Inr [pid] else pids) of
        Inl e \<Rightarrow> Inl e
      | Inr ps \<Rightarrow> Inr (List.map_filter (\<lambda>p. map_option (getProcessInfo zero) (newProcess p)) ps))"

definition processKill :: "(int \<Rightarrow> int \<Rightarrow> 's \<Rightarrow> go_error option \<times> 's) \<Rightarrow> int \<Rightarrow> int \<Rightarrow> 's \<Rightarrow> go_error option \<times> 's" where
  "processKill kill pid signal s = (if pid \<le> 1 then (Some (Errorf ''invalid PID''), s) else kill pid signal s)"

section \<open>Sockets as the kernel prints them\<close>

text \<open>A socket: its address in the order of the network, its port, the state as two digits, and its inode.\<close>

record socket =
  so_IP :: "u8 list"
  so_Port :: nat
  so_State :: string
  so_inode :: nat

definition hexChar :: "nat \<Rightarrow> char" where
  "hexChar n = char_of (if n < 10 then 48 + n else 55 + n)"

definition hexByte :: "u8 \<Rightarrow> string" where
  "hexByte b = [hexChar (unat b div 16), hexChar (unat b mod 16)]"

definition hexPort :: "nat \<Rightarrow> string" where
  "hexPort p = [hexChar (p div 4096), hexChar (p div 256 mod 16), hexChar (p div 16 mod 16), hexChar (p mod 16)]"

text \<open>The kernel prints an address word by word in the order of the processor.\<close>

definition printed_address :: "socket \<Rightarrow> string" where
  "printed_address s = concat (map hexByte (the (swap4 (so_IP s)))) @ '':'' @ hexPort (so_Port s)"

definition socket_ok :: "socket \<Rightarrow> bool" where
  "socket_ok s \<longleftrightarrow> length (so_IP s) \<in> {4, 16} \<and> so_Port s < 2 ^ 16 \<and> so_inode s < 2 ^ 64"

text \<open>A line of the file, whatever its other columns and blanks are.\<close>

definition socket_line :: "string \<Rightarrow> socket \<Rightarrow> bool" where
  "socket_line l s \<longleftrightarrow>
     newline \<notin> set l \<and> 10 \<le> length (Fields l) \<and> Fields l ! 1 = printed_address s \<and> Fields l ! 3 = so_State s \<and> Fields l ! 9 = itoa (so_inode s)"

definition listening :: "socket \<Rightarrow> bool" where
  "listening s \<longleftrightarrow> so_State s = ''0A'' \<or> so_State s = ''07''"

definition port_of :: "string \<Rightarrow> socket \<Rightarrow> net_port" where
  "port_of network s =
     \<lparr>po_Network = network, po_Port = word_of_nat (so_Port s), po_Unix = [], po_IP = so_IP s, po_PID = 0, po_inode = so_inode s\<rparr>"

lemma hexVal_hexChar: "n < 16 \<Longrightarrow> hexDigitVal (hexChar n) = Some n"
  by (simp add: hexDigitVal_def hexChar_def Let_def)

lemma hexChar_colon: "n < 16 \<Longrightarrow> hexChar n \<noteq> CHR '':''"
proof
  assume "n < 16" "hexChar n = CHR '':''"
  then have "hexDigitVal (CHR '':'') = Some n" using hexVal_hexChar by metis
  then show False by (simp add: hexDigitVal_def)
qed

lemma nibbles: "unat (b :: u8) div 16 < 16" "unat (b :: u8) mod 16 < 16"
  using unsigned_less [of b, where 'a = nat] by auto

lemma hexBytes_read: "hexBytes (concat (map hexByte bs)) = Some bs"
proof (induction bs)
  case (Cons b bs)
  have "word_of_nat (16 * (unat b div 16) + unat b mod 16) = b" by (simp only: mult_div_mod_eq) simp
  then show ?case using Cons by (simp add: hexByte_def hexVal_hexChar nibbles)
qed simp

lemma swap4_twice: "swap4 xs = Some ys \<Longrightarrow> swap4 ys = Some xs"
  by (induction xs arbitrary: ys rule: swap4.induct) auto

lemma swap4_whole: "length xs \<in> {4, 16} \<Longrightarrow> \<exists>ys. swap4 xs = Some ys"
proof -
  have "length xs mod 4 = 0 \<Longrightarrow> \<exists>ys. swap4 xs = Some ys" by (induction xs rule: swap4.induct) auto
  then show "length xs \<in> {4, 16} \<Longrightarrow> ?thesis" by auto
qed

lemma parseHexPort_read: "p < 2 ^ 16 \<Longrightarrow> parseHexPort (hexPort p) = Inr p"
proof -
  assume p: "p < 2 ^ 16"
  have d: "p div 4096 < 16" "p div 256 mod 16 < 16" "p div 16 mod 16 < 16" "p mod 16 < 16" using p by simp_all
  have s: "16 * (p div 4096) + p div 256 mod 16 = p div 256" using mult_div_mod_eq [of 16 "p div 256"] by (simp flip: div_mult2_eq)
  have t: "16 * (p div 256) + p div 16 mod 16 = p div 16" using mult_div_mod_eq [of 16 "p div 16"] by (simp flip: div_mult2_eq)
  have "p div 4096 < 65536" "p div 256 < 65536" "p div 16 < 65536" using p by simp_all
  then show ?thesis
    unfolding parseHexPort_def hexPort_def parse_hex16.simps hexVal_hexChar [OF d(1)] hexVal_hexChar [OF d(2)] hexVal_hexChar [OF d(3)]
      hexVal_hexChar [OF d(4)] option.case mult_0_right add_0 s t mult_div_mod_eq
    using p by simp
qed

lemma address_parts:
  assumes "socket_ok s"
  shows "split (CHR '':'') (printed_address s) = [concat (map hexByte (the (swap4 (so_IP s)))), hexPort (so_Port s)]"
proof -
  have "CHR '':'' \<notin> set (concat (map hexByte bs))" for bs
    using hexChar_colon [OF nibbles(1)] hexChar_colon [OF nibbles(2)] by (induction bs) (auto simp: hexByte_def eq_commute [of "CHR '':''"])
  moreover have "CHR '':'' \<notin> set (hexPort (so_Port s))"
    using assms hexChar_colon by (auto simp: hexPort_def socket_ok_def eq_commute [of "CHR '':''"])
  ultimately show ?thesis
    unfolding printed_address_def by (simp add: split_append_sep split_no_sep)
qed

lemma tcp_line_read:
  assumes "socket_ok s" "socket_line l s"
  shows "tcp_line n l = Inr (if listening s then Some (port_of n s) else None)"
proof -
  note parts = address_parts [OF assms(1)]
  have "split (CHR '':'') ''local_address'' = [''local_address'']" by code_simp
  then have other: "printed_address s \<noteq> ''local_address''" using parts by auto
  obtain ys where ys: "swap4 (so_IP s) = Some ys" using swap4_whole assms(1) unfolding socket_ok_def by blast
  have ip: "parseIP (concat (map hexByte (the (swap4 (so_IP s))))) = Some (so_IP s)"
    using swap4_twice [OF ys] by (simp add: parseIP_def hexBytes_read ys)
  have port: "parseHexPort (hexPort (so_Port s)) = Inr (so_Port s)" using parseHexPort_read assms(1) by (simp add: socket_ok_def)
  have inode: "fst (parseUint 64 (itoa (so_inode s))) = so_inode s" using assms(1) by (simp add: socket_ok_def parseUint_itoa)
  show ?thesis
    using assms(2) unfolding tcp_line_def Let_def socket_line_def
    by (simp add: parts other ip port inode listening_def port_of_def)
qed

lemma tcp_lines_read:
  "list_all2 (\<lambda>l s. socket_ok s \<and> socket_line l s) ls ss \<Longrightarrow> tcp_lines n ls = Inr (map (port_of n) (filter listening ss))"
proof (induction rule: list_all2_induct)
  case (Cons l ls s ss)
  then show ?case using tcp_line_read [of s l n] by simp
qed simp

definition net_file :: "string \<Rightarrow> string list \<Rightarrow> string" where
  "net_file h ls = concat (map (\<lambda>l. l @ [newline]) (h # ls))"

definition net_header :: "string \<Rightarrow> bool" where
  "net_header h \<longleftrightarrow> newline \<notin> set h \<and> Fields h ! 1 = ''local_address''"

lemma net_file_read:
  assumes "net_header h" "list_all2 (\<lambda>l s. socket_ok s \<and> socket_line l s) ls ss"
  shows "tcp_lines n (file_lines (net_file h ls)) = Inr (map (port_of n) (filter listening ss))"
proof -
  have "\<forall>l \<in> set ls. newline \<notin> set l"
    using assms(2) by (auto simp: list_all2_conv_all_nth in_set_conv_nth socket_line_def)
  then have "file_lines (net_file h ls) = h # ls"
    using split_lines [of "h # ls"] assms(1) by (simp add: file_lines_def net_file_def net_header_def)
  moreover have "tcp_line n h = Inr None" using assms(1) by (simp add: tcp_line_def net_header_def Let_def)
  ultimately show ?thesis using tcp_lines_read [OF assms(2)] by simp
qed

text \<open>The processes that hold a socket, in the order they are looked at.\<close>

definition holders :: "(nat \<Rightarrow> string option list) \<Rightarrow> (string \<times> bool) list \<Rightarrow> nat \<Rightarrow> nat list" where
  "holders fds proc i = filter (\<lambda>pid. \<exists>t \<in> set (fds pid). Option.bind t socket_inode = Some i) (List.map_filter proc_pid proc)"

lemma process_inodes:
  "getProcessSocketsInodes fds pid m i = (if \<exists>t \<in> set (fds pid). Option.bind t socket_inode = Some i then Some pid else m i)"
proof -
  have "fold (\<lambda>target m. case Option.bind target socket_inode of None \<Rightarrow> m | Some i \<Rightarrow> m(i \<mapsto> pid)) ts m i =
      (if \<exists>t \<in> set ts. Option.bind t socket_inode = Some i then Some pid else m i)" for ts
    by (induction ts arbitrary: m) (auto split: option.split)
  then show ?thesis by (simp add: getProcessSocketsInodes_def)
qed

lemma inode_owner:
  "getSocketsInodes fds proc i = (if holders fds proc i = [] then None else Some (last (holders fds proc i)))"
proof -
  have "fold (getProcessSocketsInodes fds) ps m i =
      (let hs = filter (\<lambda>pid. \<exists>t \<in> set (fds pid). Option.bind t socket_inode = Some i) ps in if hs = [] then m i else Some (last hs))" for ps m
    by (induction ps arbitrary: m) (simp_all add: process_inodes Let_def)
  then show ?thesis by (simp add: getSocketsInodes_def holders_def Let_def)
qed


section \<open>Parents of processes\<close>

definition unspaced :: "string \<Rightarrow> bool" where
  "unspaced w \<longleftrightarrow> w \<noteq> [] \<and> list_all (\<lambda>c. c \<notin> set goSpace) w"

lemma fields_of_word: "list_all (\<lambda>c. c \<notin> set goSpace) w \<Longrightarrow> fields_of cur (w @ s) = fields_of (cur @ w) s"
  by (induction w arbitrary: cur) simp_all

lemma Fields_word: "unspaced w \<Longrightarrow> Fields (w @ CHR '' '' # s) = w # Fields s"
  by (auto simp: unspaced_def Fields_def fields_of_word goSpace_def)

lemma word_itoa: "unspaced (itoa n)"
proof -
  have "isDigit c \<Longrightarrow> c \<notin> set goSpace" for c by (auto simp: isDigit_def goSpace_def)
  then show ?thesis using itoa_digits [of n] itoa_nonempty [of n] by (auto simp: unspaced_def list_all_iff)
qed

lemma sscanf_int32_itoa: "n < 2 ^ 31 \<Longrightarrow> sscanf_int32 (itoa n) = Some (int n)"
  using sscanf_itoaInt [of "int n"] by (simp add: sscanf_int32_def itoaInt_def)

text \<open>
  The parent of a process is read from its \<^verbatim>\<open>stat\<close> file as long as its name has no blank in it.  A name of two words moves the columns, and the
  parent is reported as 0.
\<close>

theorem parent_read:
  assumes "unspaced comm" "unspaced a" "unspaced b" "unspaced st" "ppid < 2 ^ 31" "\<not> isDigit (hd st)" "hd st \<noteq> CHR ''-''" "hd st \<noteq> CHR ''+''"
  shows "stat_PPID (Some (itoa pid @ '' '' @ comm @ '' '' @ st @ '' '' @ itoa ppid @ '' '' @ rest)) = int ppid \<and>
         stat_PPID (Some (itoa pid @ '' '' @ (a @ '' '' @ b) @ '' '' @ st @ '' '' @ itoa ppid @ '' '' @ rest)) = 0"
proof -
  obtain c cs where st: "st = c # cs" "c \<notin> set goSpace" "\<not> isDigit c" "c \<noteq> CHR ''-''" "c \<noteq> CHR ''+''" "c \<noteq> CHR 0x0A"
    using assms(4,6,7,8) by (cases st) (auto simp: unspaced_def goSpace_def)
  have "sscanf_int32 st = None"
    using st by (simp add: sscanf_int32_def sscanf_int_def)
  then show ?thesis
    using assms by (simp add: stat_PPID_def Fields_word word_itoa sscanf_int32_itoa)
qed

section \<open>A sample node\<close>

definition sampleSocket :: socket where
  "sampleSocket = \<lparr>so_IP = [127, 0, 0, 1], so_Port = 8080, so_State = ''0A'', so_inode = 77\<rparr>"

definition sampleLine :: string where
  "sampleLine = '' 0: 0100007F:1F90 00000000:0000 0A 0:0 0:0 0 0 0 77 1''"

definition sampleNetHeader :: string where "sampleNetHeader = '' sl  local_address rem_address st''"

definition sampleLines :: "string \<Rightarrow> string list" where "sampleLines n = (if n = ''tcp'' then [sampleLine] else [])"
definition sampleSockets :: "string \<Rightarrow> socket list" where "sampleSockets n = (if n = ''tcp'' then [sampleSocket] else [])"

definition sampleProcFile :: "string \<Rightarrow> string option" where
  "sampleProcFile p = (if p = ''/proc/net/unix'' then None else Some (net_file sampleNetHeader (sampleLines (drop 10 p))))"

lemma sample_line: "socket_line sampleLine sampleSocket"
proof -
  have "Fields sampleLine = [''0:'', ''0100007F:1F90'', ''00000000:0000'', ''0A'', ''0:0'', ''0:0'', ''0'', ''0'', ''0'', ''77'', ''1'']"
    unfolding sampleLine_def by code_simp
  moreover have "printed_address sampleSocket = ''0100007F:1F90''"
    by (simp add: printed_address_def sampleSocket_def hexByte_def hexPort_def hexChar_def) code_simp
  moreover have "itoa 77 = ''77''" by code_simp
  ultimately show ?thesis by (simp add: socket_line_def sampleSocket_def sampleLine_def newline_def)
qed

lemma sample_header: "net_header sampleNetHeader"
  unfolding net_header_def sampleNetHeader_def newline_def by code_simp


theorem parent_read_witness:
  "stat_PPID (Some (itoa 50 @ '' '' @ (''(tmux:'' @ '' '' @ ''server)'') @ '' '' @ ''S'' @ '' '' @ itoa 7 @ '' '' @ ''0'')) = 0"
  using parent_read [of "''(sh)''" "''(tmux:''" "''server)''" "''S''" 7 50 "''0''"] by (simp add: unspaced_def goSpace_def isDigit_def)

end
