(* ===== verification/Monitor.thy ===== *)
theory Monitor
  imports Flists Stats "HOL-Library.Multiset"
begin

text \<open>
  \<^verbatim>\<open>apps/core0/builtin/monitor.go\<close>: the measurements of a node, sent to the statistics handlers.  What \<^verbatim>\<open>gopsutil\<close>, netlink and the kernel answer are
  parameters; the operations on \<^verbatim>\<open>float64\<close> are the record \<^typ>\<open>'f float_ops\<close>.
\<close>

section \<open>What is measured\<close>

record disk_counter =
  dc_ReadCount :: u64
  dc_WriteCount :: u64
  dc_ReadBytes :: u64
  dc_WriteBytes :: u64

record disk_usage =
  du_Total :: u64
  du_Free :: u64
  du_Fstype :: string

record nic_counter =
  nc_Name :: string
  nc_BytesSent :: u64
  nc_BytesRecv :: u64
  nc_PacketsSent :: u64
  nc_PacketsRecv :: u64

text \<open>
  Maps are lists in the order that \<^verbatim>\<open>range\<close> gives; \<open>mn_order\<close> is the order over the devices of partitions.  \<open>mn_Times\<close> has the time in the system and the
  time in programs of each processor, \<open>mn_Threads\<close> what each process that is still there answers, and \<open>mn_Float\<close> is \<^verbatim>\<open>strconv.ParseFloat\<close> with its error
  dropped.
\<close>

record 'f measures =
  mn_Counters :: "go_error + (string \<times> disk_counter) list"
  mn_Partitions :: "go_error + (string \<times> string) list"
  mn_order :: "string list \<Rightarrow> string list"
  mn_Usage :: "string \<Rightarrow> go_error + disk_usage"
  mn_Times :: "go_error + ('f \<times> 'f) list"
  mn_Percent :: "go_error + 'f list"
  mn_StatFile :: "go_error + string"
  mn_Float :: "string \<Rightarrow> 'f"
  mn_Threads :: "32 word option list"
  mn_VirtualMemory :: "go_error + u64"
  mn_SwapMemory :: "go_error + u64 \<times> u64"
  mn_NicCounters :: "go_error + nic_counter list"
  mn_LinkType :: "string \<Rightarrow> string option"

text \<open>The values that are sent, and the error the command ends with: what was sent before an error stays sent.\<close>

type_synonym 'f sent = "'f stats_call list \<times> go_error option"

definition AggreagteAverage :: string where "AggreagteAverage = ''A''"
definition AggreagteDifference :: string where "AggreagteDifference = ''D''"

definition phys :: tag where "phys = (''type'', ''phys'')"

definition stat_of :: "string \<Rightarrow> string \<Rightarrow> 'f \<Rightarrow> string \<Rightarrow> tag list \<Rightarrow> 'f stats_call" where
  "stat_of op key v i tags = \<lparr>st_op = op, st_key = key, st_value = v, st_id = i, st_tags = tags\<rparr>"

definition fl_u64 :: "'f float_ops \<Rightarrow> u64 \<Rightarrow> 'f" where "fl_u64 F x = fl_ofint F (uint x)"

definition mebi :: "'f float_ops \<Rightarrow> u64 \<Rightarrow> 'f" where "mebi F x = fl_div F (fl_u64 F x) (fl_ofint F (1024 * 1024))"

text \<open>A step that runs only when the one before did not fail.\<close>

definition sends :: "go_error + 'a \<Rightarrow> ('a \<Rightarrow> 'f sent) \<Rightarrow> 'f sent" where
  "sends r f = (case r of Inl e \<Rightarrow> ([], Some e) | Inr x \<Rightarrow> f x)"

definition before :: "'f stats_call list \<Rightarrow> 'f sent \<Rightarrow> 'f sent" where
  "before cs r = (cs @ fst r, snd r)"

section \<open>Disks\<close>

definition counter_stats :: "'f float_ops \<Rightarrow> string \<times> disk_counter \<Rightarrow> 'f stats_call list" where
  "counter_stats F nc =
     (case nc of (name, c) \<Rightarrow>
        [stat_of AggreagteDifference ''disk.iops.read'' (fl_u64 F (dc_ReadCount c)) name [phys],
         stat_of AggreagteDifference ''disk.iops.write'' (fl_u64 F (dc_WriteCount c)) name [phys],
         stat_of AggreagteDifference ''disk.throughput.read'' (fl_u64 F (dc_ReadBytes c div 1024)) name [phys],
         stat_of AggreagteDifference ''disk.throughput.write'' (fl_u64 F (dc_WriteBytes c div 1024)) name [phys]])"

text \<open>A device that is mounted more than once is looked at once, at the last of its mount points.\<close>

definition mounts_of :: "(string \<times> string) list \<Rightarrow> (string \<rightharpoonup> string)" where
  "mounts_of parts = map_of (rev parts)"

definition usage_stats :: "'f float_ops \<Rightarrow> 'f measures \<Rightarrow> (string \<rightharpoonup> string) \<Rightarrow> string \<Rightarrow> 'f stats_call list" where
  "usage_stats F m mounts device =
     (case mounts device of
        None \<Rightarrow> []
      | Some mnt \<Rightarrow>
          (case mn_Usage m mnt of
             Inl e \<Rightarrow> []
           | Inr u \<Rightarrow>
               [stat_of AggreagteAverage ''disk.size.total'' (fl_u64 F (du_Total u)) (path_Base device) [phys, (''fs'', du_Fstype u)],
                stat_of AggreagteAverage ''disk.size.free'' (fl_u64 F (du_Free u)) (path_Base device) [phys, (''fs'', du_Fstype u)]]))"

definition monitor_disk :: "'f float_ops \<Rightarrow> 'f measures \<Rightarrow> 'f sent" where
  "monitor_disk F m =
     sends (mn_Counters m) (\<lambda>counters.
     before (concat (map (counter_stats F) counters))
       (sends (mn_Partitions m) (\<lambda>parts.
        (concat (map (usage_stats F m (mounts_of parts)) (mn_order m (remdups (map fst parts)))), None))))"

section \<open>Processors and memory\<close>

text \<open>\<^verbatim>\<open>Sscanf(line, "%s %v", &key, &value)\<close>: the first two words of a line that has two; the last line of a key counts.\<close>

definition statmap :: "string \<Rightarrow> (string \<rightharpoonup> string)" where
  "statmap text =
     map_of (rev (List.map_filter (\<lambda>l. let fs = Fields l in if length fs < 2 then None else Some (fs ! 0, fs ! 1)) (split (CHR 0x0A) text)))"

definition counted :: "'f measures \<Rightarrow> string \<Rightarrow> string \<Rightarrow> string \<Rightarrow> 'f stats_call list" where
  "counted m text key metric =
     (case statmap text key of None \<Rightarrow> [] | Some v \<Rightarrow> [stat_of AggreagteDifference metric (mn_Float m v) [] [phys]])"

definition threads_of :: "32 word option list \<Rightarrow> 32 word" where
  "threads_of ts = fold (\<lambda>t n. case t of None \<Rightarrow> n | Some k \<Rightarrow> n + k) ts 0"

definition per_cpu :: "string \<Rightarrow> string \<Rightarrow> 'f list \<Rightarrow> 'f stats_call list" where
  "per_cpu op key vs = map (\<lambda>(nr, v). stat_of op key v (itoa nr) [phys]) (enumerate 0 vs)"

definition monitor_cpu :: "'f float_ops \<Rightarrow> 'f measures \<Rightarrow> 'f sent" where
  "monitor_cpu F m =
     sends (mn_Times m) (\<lambda>times.
     before (per_cpu AggreagteDifference ''machine.CPU.utilisation'' (map (\<lambda>(sys, user). fl_add F sys user) times))
       (sends (mn_Percent m) (\<lambda>percent.
        before (per_cpu AggreagteAverage ''machine.CPU.percent'' percent)
          (sends (mn_StatFile m) (\<lambda>text.
           (counted m text ''ctxt'' ''machine.CPU.contextswitch'' @ counted m text ''intr'' ''machine.CPU.interrupts'' @
            [stat_of AggreagteAverage ''machine.process.threads'' (fl_ofint F (sint (threads_of (mn_Threads m)))) [] [phys]], None))))))"

definition monitor_memory :: "'f float_ops \<Rightarrow> 'f measures \<Rightarrow> 'f sent" where
  "monitor_memory F m =
     sends (mn_VirtualMemory m) (\<lambda>available.
     before [stat_of AggreagteAverage ''machine.memory.ram.available'' (mebi F available) [] [phys]]
       (sends (mn_SwapMemory m) (\<lambda>(free, used).
        ([stat_of AggreagteAverage ''machine.memory.swap.left'' (mebi F free) [] [phys],
          stat_of AggreagteAverage ''machine.memory.swap.used'' (mebi F used) [] [phys]], None))))"

section \<open>Networks\<close>

definition networkMonitorTypes :: "string list" where
  "networkMonitorTypes = [''device'', ''bridge'', ''openvswitch'', ''veth'']"

definition networkMonitorIgnoreNames :: "string list" where
  "networkMonitorIgnoreNames = [''lo'', ''ovs-system'']"

definition nic_skipped :: "string \<Rightarrow> string \<Rightarrow> bool" where
  "nic_skipped name typ \<longleftrightarrow>
     InString networkMonitorIgnoreNames name \<or>
     \<not> InString networkMonitorTypes typ \<or> typ = ''veth'' \<and> \<not> hasPrefix name ''contm''"

definition nic_stats :: "'f float_ops \<Rightarrow> 'f measures \<Rightarrow> nic_counter \<Rightarrow> 'f stats_call list" where
  "nic_stats F m c =
     (case mn_LinkType m (nc_Name c) of
        None \<Rightarrow> []
      | Some typ \<Rightarrow>
          if nic_skipped (nc_Name c) typ then []
          else
            map (\<lambda>(key, v). stat_of AggreagteDifference key v (nc_Name c) [phys, (''kind'', typ)])
              [(''network.throughput.outgoing'', mebi F (nc_BytesSent c)), (''network.throughput.incoming'', mebi F (nc_BytesRecv c)),
               (''network.packets.tx'', fl_u64 F (nc_PacketsSent c)), (''network.packets.rx'', fl_u64 F (nc_PacketsRecv c))])"

definition monitor_network :: "'f float_ops \<Rightarrow> 'f measures \<Rightarrow> 'f sent" where
  "monitor_network F m = sends (mn_NicCounters m) (\<lambda>counters. (concat (map (nic_stats F m) counters), None))"

section \<open>The command\<close>

definition monitor :: "'f float_ops \<Rightarrow> 'f measures \<Rightarrow> string \<Rightarrow> 'f sent" where
  "monitor F m domain =
     (let d = map lower domain in
      if d = ''disk'' then monitor_disk F m
      else if d = ''cpu'' then monitor_cpu F m
      else if d = ''memory'' then monitor_memory F m
      else if d = ''network'' then monitor_network F m
      else ([], Some (Errorf (''invalid monitoring domain: '' @ domain))))"

section \<open>Properties\<close>

lemma filter_concat_id:
  assumes "distinct (map key xs)" "x \<in> set xs" "\<And>y. \<forall>c \<in> set (f y). P c = (key y = key x)"
  shows "filter P (concat (map f xs)) = f x"
  using assms(1,2)
proof (induction xs)
  case (Cons a xs)
  show ?case
  proof (cases "a = x")
    case True
    have "filter P (concat (map f xs)) = []"
      using Cons.prems(1) True assms(3) by (auto simp: filter_empty_conv image_iff)
    then show ?thesis using True assms(3) [of x] by (simp add: filter_id_conv)
  next
    case False
    have x: "x \<in> set xs" using False Cons.prems(2) by simp
    have "key a \<noteq> key x" using Cons.prems(1) x by (auto simp: image_iff)
    then show ?thesis using Cons.IH x Cons.prems(1) assms(3) [of a] by (auto simp: filter_empty_conv)
  qed
qed simp

lemma nic_stats_id: "\<forall>s \<in> set (nic_stats F m c). (st_id s = nc_Name x) = (nc_Name c = nc_Name x)"
  by (auto simp: nic_stats_def stat_of_def split: option.splits)

text \<open>
  What the network domain sends of an interface: its four values, when it is a device, a bridge or a switch, or a virtual device whose name marks it as a
  container's, and is neither the loopback nor the switch of openvswitch; else nothing.
\<close>

theorem nics_measured:
  assumes "mn_NicCounters m = Inr counters" "distinct (map nc_Name counters)" "c \<in> set counters"
  shows "filter (\<lambda>s. st_id s = nc_Name c) (fst (monitor F m ''Network'')) =
     (case mn_LinkType m (nc_Name c) of
        None \<Rightarrow> []
      | Some typ \<Rightarrow>
          if nc_Name c \<notin> {''lo'', ''ovs-system''} \<and> (typ \<in> {''device'', ''bridge'', ''openvswitch''} \<or> typ = ''veth'' \<and> hasPrefix (nc_Name c) ''contm'')
          then map (\<lambda>(key, v). stat_of AggreagteDifference key v (nc_Name c) [phys, (''kind'', typ)])
              [(''network.throughput.outgoing'', mebi F (nc_BytesSent c)), (''network.throughput.incoming'', mebi F (nc_BytesRecv c)),
               (''network.packets.tx'', fl_u64 F (nc_PacketsSent c)), (''network.packets.rx'', fl_u64 F (nc_PacketsRecv c))]
          else [])"
proof -
  have net: "map lower ''Network'' = ''network''" by code_simp
  have sent: "fst (monitor F m ''Network'') = concat (map (nic_stats F m) counters)"
    unfolding monitor_def Let_def net monitor_network_def sends_def assms(1) by simp
  have "filter (\<lambda>s. st_id s = nc_Name c) (fst (monitor F m ''Network'')) = nic_stats F m c"
    unfolding sent using assms(2,3) nic_stats_id by (rule filter_concat_id)
  then show ?thesis
    by (auto simp: nic_stats_def nic_skipped_def networkMonitorTypes_def networkMonitorIgnoreNames_def split: option.split)
qed

lemma usage_stats_id:
  "\<forall>s \<in> set (usage_stats F m mounts d). (st_id s = path_Base x \<and> st_key s \<in> {''disk.size.total'', ''disk.size.free''}) = (path_Base d = path_Base x)"
  by (auto simp: usage_stats_def stat_of_def split: option.splits sum.splits)

text \<open>
  The size of a mounted device is sent once, however often it is mounted: as it is at the last of its mount points.  A device that cannot be looked at
  is left out, the others are not.
\<close>

theorem devices_once:
  assumes "mn_Counters m = Inr counters" "mn_Partitions m = Inr parts" "\<And>xs. mset (mn_order m xs) = mset xs"
    and "inj_on path_Base (fst ` set parts)" "parts = p1 @ (device, mnt) # p2" "device \<notin> fst ` set p2"
  shows "snd (monitor_disk F m) = None \<and>
    filter (\<lambda>s. st_id s = path_Base device \<and> st_key s \<in> {''disk.size.total'', ''disk.size.free''}) (fst (monitor_disk F m)) =
      (case mn_Usage m mnt of
         Inl e \<Rightarrow> []
       | Inr u \<Rightarrow>
           [stat_of AggreagteAverage ''disk.size.total'' (fl_u64 F (du_Total u)) (path_Base device) [phys, (''fs'', du_Fstype u)],
            stat_of AggreagteAverage ''disk.size.free'' (fl_u64 F (du_Free u)) (path_Base device) [phys, (''fs'', du_Fstype u)]])"
proof (intro conjI)
  let ?P = "\<lambda>s. st_id s = path_Base device \<and> st_key s \<in> {''disk.size.total'', ''disk.size.free''}"
  let ?ds = "mn_order m (remdups (map fst parts))"
  have ds: "set ?ds = fst ` set parts" "distinct ?ds"
    using assms(3) [of "remdups (map fst parts)"] by (metis image_set mset_eq_setD set_remdups, metis distinct_remdups mset_eq_imp_distinct_iff)
  have io: "filter ?P (concat (map (counter_stats F) counters)) = []"
    by (auto simp: filter_empty_conv counter_stats_def stat_of_def)
  have "filter ?P (concat (map (usage_stats F m (mounts_of parts)) ?ds)) = usage_stats F m (mounts_of parts) device"
  proof (rule filter_concat_id [where key = path_Base])
    show "distinct (map path_Base ?ds)" using ds assms(4) by (simp add: distinct_map)
    show "device \<in> set ?ds" using ds(1) assms(5) by simp
  qed (rule usage_stats_id)
  moreover have "mounts_of parts device = Some mnt"
    using assms(6) by (simp add: mounts_of_def assms(5) map_add_Some_iff map_of_eq_None_iff image_iff)
  ultimately show "filter ?P (fst (monitor_disk F m)) =
      (case mn_Usage m mnt of
         Inl e \<Rightarrow> []
       | Inr u \<Rightarrow>
           [stat_of AggreagteAverage ''disk.size.total'' (fl_u64 F (du_Total u)) (path_Base device) [phys, (''fs'', du_Fstype u)],
            stat_of AggreagteAverage ''disk.size.free'' (fl_u64 F (du_Free u)) (path_Base device) [phys, (''fs'', du_Fstype u)]])"
    by (simp only: monitor_disk_def sends_def before_def assms(1,2) sum.case fst_conv filter_append io append_Nil) (simp add: usage_stats_def)
  show "snd (monitor_disk F m) = None" by (simp add: monitor_disk_def sends_def before_def assms(1,2))
qed

section \<open>A sample node\<close>

definition sampleMeasures :: "int measures" where
  "sampleMeasures =
     \<lparr>mn_Counters = Inr [], mn_Partitions = Inr [(''/dev/sda1'', ''/mnt/a''), (''/dev/sda1'', ''/mnt/b'')], mn_order = (\<lambda>xs. xs),
      mn_Usage = (\<lambda>_. Inr \<lparr>du_Total = 100, du_Free = 40, du_Fstype = ''btrfs''\<rparr>), mn_Times = Inr [], mn_Percent = Inr [],
      mn_StatFile = Inr [], mn_Float = (\<lambda>_. 0), mn_Threads = [], mn_VirtualMemory = Inr 0, mn_SwapMemory = Inr (0, 0),
      mn_NicCounters = Inr [\<lparr>nc_Name = ''veth0'', nc_BytesSent = 0, nc_BytesRecv = 0, nc_PacketsSent = 3, nc_PacketsRecv = 4\<rparr>],
      mn_LinkType = (\<lambda>_. Some ''veth'')\<rparr>"

theorem nics_measured_witness: "filter (\<lambda>s. st_id s = ''veth0'') (fst (monitor ratOps sampleMeasures ''Network'')) = []"
  using nics_measured [of sampleMeasures "[\<lparr>nc_Name = ''veth0'', nc_BytesSent = 0, nc_BytesRecv = 0, nc_PacketsSent = 3, nc_PacketsRecv = 4\<rparr>]"
      "\<lparr>nc_Name = ''veth0'', nc_BytesSent = 0, nc_BytesRecv = 0, nc_PacketsSent = 3, nc_PacketsRecv = 4\<rparr>" ratOps]
  by (simp add: sampleMeasures_def hasPrefix_def)

lemma sample_facts:
  "mn_Counters sampleMeasures = Inr []" "mn_Partitions sampleMeasures = Inr [(''/dev/sda1'', ''/mnt/a''), (''/dev/sda1'', ''/mnt/b'')]"
  "mset (mn_order sampleMeasures xs) = mset xs" "mn_Usage sampleMeasures d = Inr \<lparr>du_Total = 100, du_Free = 40, du_Fstype = ''btrfs''\<rparr>"
  by (simp_all add: sampleMeasures_def)

theorem devices_once_witness:
  "length (filter (\<lambda>s. st_id s = path_Base ''/dev/sda1'' \<and> st_key s \<in> {''disk.size.total'', ''disk.size.free''}) (fst (monitor_disk ratOps sampleMeasures))) = 2"
proof -
  have inj: "inj_on path_Base (fst ` set [(''/dev/sda1'', ''/mnt/a''), (''/dev/sda1'', ''/mnt/b'')])" by simp
  have last: "[(''/dev/sda1'', ''/mnt/a''), (''/dev/sda1'', ''/mnt/b'')] = [(''/dev/sda1'', ''/mnt/a'')] @ (''/dev/sda1'', ''/mnt/b'') # []"
    "''/dev/sda1'' \<notin> fst ` set []" by simp_all
  show ?thesis
    unfolding conjunct2 [OF devices_once [OF sample_facts(1,2,3) inj last, where F = ratOps]] sample_facts(4) by simp
qed

end
