(* ===== verification/Core_X.thy ===== *)
theory Core_X
  imports Pm_Process Cgroups Go_Effect Settings_Startup
begin

text \<open>
  \<^verbatim>\<open>apps/coreX/bootstrap\<close>: what the init of a container sets up before it serves commands, \<^verbatim>\<open>bootstrap.go\<close>, the capabilities it keeps, \<^verbatim>\<open>capabilities.go\<close>, and
  the plugins of the container, \<^verbatim>\<open>plugin.go\<close>.  The calls of the system, the library of capabilities and the process manager are parameters.
\<close>

section \<open>The system\<close>

datatype capability =
  CAP_SETPCAP | CAP_MKNOD | CAP_AUDIT_WRITE | CAP_CHOWN | CAP_NET_RAW | CAP_DAC_OVERRIDE | CAP_FOWNER | CAP_FSETID | CAP_KILL | CAP_SETGID
| CAP_SETUID | CAP_NET_BIND_SERVICE | CAP_SYS_CHROOT | CAP_SETFCAP | OtherCap nat

datatype cap_flag = CAP_PERMITTED | CAP_EFFECTIVE | CAP_INHERITABLE

record plugin =
  pl_Path :: string
  pl_Queue :: bool
  pl_Exports :: "string list"

text \<open>
  A call answers with an error or nothing; where the code drops the error only the state is given.  \<open>cx_order\<close> is the order of a \<^verbatim>\<open>range\<close> loop over a map,
  \<open>cx_CapClear\<close> and \<open>cx_CapSet\<close> say whether the library does what it is asked, and \<open>cx_Register\<close> registers a command that a plugin exports.
\<close>

record 's init_sys =
  cx_Mknod :: "string \<Rightarrow> u32 \<Rightarrow> nat \<Rightarrow> 's \<Rightarrow> go_error option \<times> 's"
  cx_Symlink :: "string \<Rightarrow> string \<Rightarrow> 's \<Rightarrow> go_error option \<times> 's"
  cx_MkdirAll :: "string \<Rightarrow> 's \<Rightarrow> 's"
  cx_Mount :: "string \<Rightarrow> string \<Rightarrow> string \<Rightarrow> u64 \<Rightarrow> string \<Rightarrow> 's \<Rightarrow> go_error option \<times> 's"
  cx_Unmount :: "string \<Rightarrow> 's \<Rightarrow> 's"
  cx_Umask :: "nat \<Rightarrow> 's \<Rightarrow> nat \<times> 's"
  cx_Truncate :: "string \<Rightarrow> 's \<Rightarrow> go_error option \<times> 's"
  cx_Print :: "string \<Rightarrow> string \<Rightarrow> 's \<Rightarrow> 's"
  cx_Sethostname :: "string \<Rightarrow> 's \<Rightarrow> go_error option \<times> 's"
  cx_RemoveAll :: "string \<Rightarrow> 's \<Rightarrow> 's"
  cx_order :: "(string \<times> string) list \<Rightarrow> (string \<times> string) list"
  cx_CapClear :: "'s \<Rightarrow> bool"
  cx_CapSet :: "cap_flag \<Rightarrow> 's \<Rightarrow> bool"
  cx_CapSetProc :: "(cap_flag \<Rightarrow> capability list) \<Rightarrow> 's \<Rightarrow> bool \<times> 's"
  cx_SetUnprivileged :: "'s \<Rightarrow> 's"
  cx_Startup :: "'s \<Rightarrow> go_error + included_startup"
  cx_Plugins :: "'s \<Rightarrow> go_error + (string \<times> plugin) list"
  cx_AddHandle :: "string \<Rightarrow> 's \<Rightarrow> 's"
  cx_Register :: "string \<Rightarrow> plugin \<Rightarrow> string \<Rightarrow> 's \<Rightarrow> 's"
  cx_RunSlice :: "startup list \<Rightarrow> 's \<Rightarrow> 's"
  cx_Shutdown :: "string list \<Rightarrow> 's \<Rightarrow> 's"

type_synonym 's ceff = "(go_error, unit, 's) eff"

definition silently :: "('s \<Rightarrow> 's) \<Rightarrow> 's ceff" where "silently f s = (Inr (), f s)"

definition wrapped :: "string \<Rightarrow> 's ceff \<Rightarrow> 's ceff" where
  "wrapped text m = wrapErr (\<lambda>e. Errorf (text @ err_Text e)) m"

section \<open>Devices and mounts\<close>

definition MS_RDONLY :: u64 where "MS_RDONLY = 1"
definition MS_NOSUID :: u64 where "MS_NOSUID = 2"
definition MS_NODEV :: u64 where "MS_NODEV = 4"
definition MS_NOEXEC :: u64 where "MS_NOEXEC = 8"
definition MS_RELATIME :: u64 where "MS_RELATIME = 0x200000"

unbundle bit_operations_syntax

definition CharDevice :: u32 where "CharDevice = 0x2000"
definition BlockDevice :: u32 where "BlockDevice = 0x6000"

record cx_device =
  dv_Name :: string
  dv_Type :: u32
  dv_Mode :: u32
  dv_Major :: nat
  dv_Minor :: nat

definition device_mk :: "'s init_sys \<Rightarrow> string \<Rightarrow> cx_device \<Rightarrow> 's ceff" where
  "device_mk x dir d =
     call (cx_Mknod x (path_join [dir, dv_Name d]) (dv_Type d OR dv_Mode d) (or (push_bit 8 (dv_Major d)) (dv_Minor d)))"

definition char_device :: "string \<Rightarrow> u32 \<Rightarrow> nat \<Rightarrow> nat \<Rightarrow> cx_device" where
  "char_device name mode major minor = \<lparr>dv_Name = name, dv_Type = CharDevice, dv_Mode = mode, dv_Major = major, dv_Minor = minor\<rparr>"

definition minimum_devices :: "cx_device list" where
  "minimum_devices =
     [char_device ''console'' 0x180 136 2, char_device ''full'' 0x1b6 1 7, char_device ''null'' 0x1b6 1 3, char_device ''random'' 0x1b6 1 8,
      char_device ''tty'' 0x1b6 5 0, char_device ''urandom'' 0x1b6 1 9, char_device ''zero'' 0x1b6 1 5]"

definition dev_links :: "(string \<times> string) list" where
  "dev_links =
     [(''/proc/self/fd/0'', ''/dev/stdin''), (''/proc/self/fd/1'', ''/dev/stdout''), (''/proc/self/fd/2'', ''/dev/stderr''),
      (''/proc/self/fd'', ''/dev/fd''), (''/dev/pts/ptmx'', ''/dev/ptmx''), (''/proc/kcore'', ''/dev/core'')]"

text \<open>The mask of the process is only put back when everything went well.  In the texts of errors a device is shown by its name.\<close>

definition populateMinimumDev :: "'s init_sys \<Rightarrow> 's ceff" where
  "populateMinimumDev x s =
     (case cx_Umask x 0 s of (previous, s0) \<Rightarrow>
        andThen (forEach (\<lambda>d. wrapped (''failed to create device '' @ dv_Name d @ '': '') (device_mk x ''/dev'' d)) minimum_devices) (\<lambda>_.
        andThen (forEach (\<lambda>(old, new). wrapped (''failed to create symlink '' @ new @ ''->'' @ old @ '': '') (call (cx_Symlink x old new)))
                  (cx_order x dev_links)) (\<lambda>_.
        andThen (silently (cx_MkdirAll x ''/dev/mqueue'')) (\<lambda>_.
        andThen (wrapped ''failed to mount mqueue: '' (call (cx_Mount x ''mqueue'' ''/dev/mqueue'' ''mqueue'' 0 []))) (\<lambda>_.
        andThen (silently (cx_MkdirAll x ''/dev/shm'')) (\<lambda>_.
        andThen (wrapped ''failed to mount shm: ''
                  (call (cx_Mount x ''shm'' ''/dev/shm'' ''tmpfs'' (MS_NOSUID OR MS_NODEV OR MS_NOEXEC OR MS_RELATIME) ''size=65536k''))) (\<lambda>_.
        silently (\<lambda>s. snd (cx_Umask x previous s)))))))) s0)"

definition proc_flags :: "bool \<Rightarrow> u64" where
  "proc_flags unprivileged =
     (let procflags = MS_NOSUID OR MS_RELATIME OR MS_NODEV OR MS_NOEXEC in if unprivileged then procflags OR MS_RDONLY else procflags)"

definition setup_dev :: "'s init_sys \<Rightarrow> bool \<Rightarrow> 's ceff" where
  "setup_dev x unprivileged =
     (if unprivileged
      then andThen (wrapped ''failed to mount dev in unprivileged: '' (call (cx_Mount x ''none'' ''/dev'' ''tmpfs'' MS_NOSUID ''mode=755''))) (\<lambda>_.
           populateMinimumDev x)
      else call (cx_Mount x ''none'' ''/dev'' ''devtmpfs'' (MS_NOSUID OR MS_RELATIME) ''mode=755''))"

definition setupFS :: "'s init_sys \<Rightarrow> bool \<Rightarrow> 's ceff" where
  "setupFS x unprivileged =
     andThen (silently (cx_MkdirAll x ''/etc'')) (\<lambda>_.
     andThen (silently (cx_MkdirAll x ''/var/run'')) (\<lambda>_.
     andThen (silently (cx_MkdirAll x ''/sys'')) (\<lambda>_.
     andThen (call (cx_Mount x ''none'' ''/sys'' ''sysfs'' (MS_NOSUID OR MS_RELATIME OR MS_NODEV OR MS_NOEXEC OR MS_RDONLY) [])) (\<lambda>_.
     andThen (silently (cx_MkdirAll x ''/proc'')) (\<lambda>_.
     andThen (call (cx_Mount x ''none'' ''/proc'' ''proc'' (proc_flags unprivileged) [])) (\<lambda>_.
     andThen (silently (cx_MkdirAll x ''/dev'')) (\<lambda>_.
     andThen (setup_dev x unprivileged) (\<lambda>_.
     andThen (silently (cx_MkdirAll x ''/dev/pts'')) (\<lambda>_.
     call (cx_Mount x ''none'' ''/dev/pts'' ''devpts'' 0 []))))))))))"

section \<open>Names and capabilities\<close>

definition updateHostname :: "'s init_sys \<Rightarrow> string \<Rightarrow> 's ceff" where
  "updateHostname x hostname =
     andThen (call (cx_Truncate x ''/etc/hostname'')) (\<lambda>_.
     andThen (silently (cx_Print x ''/etc/hostname'' hostname)) (\<lambda>_.
     andThen (call (cx_Truncate x ''/etc/hosts'')) (\<lambda>_.
     andThen (silently (cx_Print x ''/etc/hosts'' (''127.0.0.1    '' @ hostname @ ''.local '' @ hostname @ [CHR 0x0A]))) (\<lambda>_.
     andThen (silently (cx_Print x ''/etc/hosts'' (''127.0.0.1    localhost.localdomain localhost'' @ [CHR 0x0A]))) (\<lambda>_.
     call (cx_Sethostname x hostname))))))"

definition linkMtab :: "'s init_sys \<Rightarrow> 's ceff" where
  "linkMtab x = andThen (silently (cx_RemoveAll x ''/etc/mtab'')) (\<lambda>_. call (cx_Symlink x ''../proc/self/mounts'' ''/etc/mtab''))"

definition kept_capabilities :: "capability list" where
  "kept_capabilities =
     [CAP_SETPCAP, CAP_MKNOD, CAP_AUDIT_WRITE, CAP_CHOWN, CAP_NET_RAW, CAP_DAC_OVERRIDE, CAP_FOWNER, CAP_FSETID, CAP_KILL, CAP_SETGID,
      CAP_SETUID, CAP_NET_BIND_SERVICE, CAP_SYS_CHROOT, CAP_SETFCAP]"

text \<open>The set that is built starts empty and gets the same capabilities under each flag.\<close>

definition revokePrivileges :: "'s init_sys \<Rightarrow> 's ceff" where
  "revokePrivileges x s =
     (if \<not> cx_CapClear x s then (Inl (Errorf ''failed to clear up capabilities''), s)
      else if \<not> cx_CapSet x CAP_PERMITTED s then (Inl (Errorf ''failed to set capabiliteis flags (perm)''), s)
      else if \<not> cx_CapSet x CAP_EFFECTIVE s then (Inl (Errorf ''failed to set capabiliteis flags (effective)''), s)
      else if \<not> cx_CapSet x CAP_INHERITABLE s then (Inl (Errorf ''failed to set capabiliteis flags (inheritable)''), s)
      else
        (case cx_CapSetProc x (\<lambda>_. kept_capabilities) s of
           (True, s1) \<Rightarrow> (Inr (), s1)
         | (False, s1) \<Rightarrow> (Inl (Errorf ''failed to set capabilities''), s1)))"

section \<open>Plugins\<close>

text \<open>A plugin that asks for a queue gets every command of its domain into it.\<close>

definition plugin_Pre :: "string \<Rightarrow> command \<Rightarrow> command" where
  "plugin_Pre domain cmd = (if hasPrefix (cmd_Command cmd) (domain @ ''.'') then cmd\<lparr>cmd_Queue := domain\<rparr> else cmd)"

text \<open>The command that runs an export: a process of its own, whose flags and stream setting are not taken over.\<close>

definition pluginFactory :: "(system_args \<Rightarrow> string) \<Rightarrow> plugin \<Rightarrow> string \<Rightarrow> command \<Rightarrow> command" where
  "pluginFactory encode p fn src =
     \<lparr>cmd_ID = cmd_ID src, cmd_Command = [],
      cmd_Arguments = encode \<lparr>sa_Name = pl_Path p, sa_Dir = [], sa_Args = [fn, cmd_Arguments src], sa_Env = [], sa_StdIn = []\<rparr>,
      cmd_Queue = cmd_Queue src, cmd_StatsInterval = cmd_StatsInterval src, cmd_MaxTime = cmd_MaxTime src, cmd_MaxRestart = cmd_MaxRestart src,
      cmd_RecurringPeriod = cmd_RecurringPeriod src, cmd_Stream = False, cmd_LogLevels = cmd_LogLevels src, cmd_Tags = cmd_Tags src,
      cmd_Flags = \<lparr>Protected = False, NoOutput = False, NoSetPGID = False\<rparr>\<rparr>"

definition add_plugin :: "'s init_sys \<Rightarrow> string \<times> plugin \<Rightarrow> 's \<Rightarrow> 's" where
  "add_plugin x dp s =
     (case dp of (domain, p) \<Rightarrow>
        let s1 = (if pl_Queue p then cx_AddHandle x domain s else s)
        in fold (\<lambda>export. cx_Register x (domain @ ''.'' @ export) p export) (pl_Exports p) s1)"

definition cx_plugins :: "'s init_sys \<Rightarrow> 's ceff" where
  "cx_plugins x = andThen (ask (cx_Plugins x)) (\<lambda>ps. silently (fold (add_plugin x) ps))"

section \<open>The start\<close>

definition cx_startup :: "'s init_sys \<Rightarrow> 's ceff" where
  "cx_startup x =
     andThen (ask (cx_Startup x)) (\<lambda>included.
     case GetStartupTree included of (tree, errs) \<Rightarrow>
       if errs \<noteq> [] then fail (Errorf ''failed to build startup tree'')
       else silently (cx_RunSlice x (tree_Slice tree (After_Weight ''init'') (After_Weight ''----''))))"

definition cx_Bootstrap :: "'s init_sys \<Rightarrow> bool \<Rightarrow> string \<Rightarrow> 's ceff" where
  "cx_Bootstrap x unprivileged hostname =
     andThen (setupFS x unprivileged) (\<lambda>_.
     andThen (updateHostname x hostname) (\<lambda>_.
     andThen (linkMtab x) (\<lambda>_.
     andThen (if unprivileged then andThen (silently (cx_SetUnprivileged x)) (\<lambda>_. revokePrivileges x) else ret ()) (\<lambda>_.
     andThen (ignore (cx_plugins x)) (\<lambda>_.
     ignore (cx_startup x))))))"

text \<open>The last of the paths is a relative one.\<close>

definition UnBootstrap :: "'s init_sys \<Rightarrow> 's \<Rightarrow> 's" where
  "UnBootstrap x s = fold (cx_Unmount x) [''/dev/pts'', ''/dev'', ''proc''] (cx_Shutdown x [] s)"

section \<open>Properties\<close>

text \<open>What an observer of the system sees of the calls, in their order.\<close>

datatype cx_event =
  Mknod string u32 nat
| Mounted string string string u64
| Capabilities "cap_flag \<Rightarrow> capability list"
| Started "startup list"
| Exported string

definition observes :: "'s init_sys \<Rightarrow> ('s \<Rightarrow> cx_event list) \<Rightarrow> bool" where
  "observes x tr \<longleftrightarrow>
     (\<forall>s. (\<forall>p m d. tr (snd (cx_Mknod x p m d s)) = tr s @ [Mknod p m d]) \<and> (\<forall>a b. tr (snd (cx_Symlink x a b s)) = tr s) \<and>
       (\<forall>p. tr (cx_MkdirAll x p s) = tr s) \<and> (\<forall>src tgt fs fl d. tr (snd (cx_Mount x src tgt fs fl d s)) = tr s @ [Mounted src tgt fs fl]) \<and>
       (\<forall>m. tr (snd (cx_Umask x m s)) = tr s) \<and> (\<forall>p. tr (snd (cx_Truncate x p s)) = tr s) \<and> (\<forall>p t. tr (cx_Print x p t s) = tr s) \<and>
       (\<forall>n. tr (snd (cx_Sethostname x n s)) = tr s) \<and> (\<forall>p. tr (cx_RemoveAll x p s) = tr s) \<and> tr (cx_SetUnprivileged x s) = tr s \<and>
       (\<forall>d. tr (cx_AddHandle x d s) = tr s) \<and> (\<forall>c p e. tr (cx_Register x c p e s) = tr s @ [Exported c]) \<and>
       (\<forall>ss. tr (cx_RunSlice x ss s) = tr s @ [Started ss]) \<and>
       (\<forall>c. tr (snd (cx_CapSetProc x c s)) = tr s @ (if fst (cx_CapSetProc x c s) then [Capabilities c] else []))) \<and>
     (\<forall>ls. set (cx_order x ls) = set ls)"

text \<open>The events a part adds all satisfy a predicate.\<close>

definition adds :: "('s \<Rightarrow> cx_event list) \<Rightarrow> cx_event list \<Rightarrow> (cx_event \<Rightarrow> bool) \<Rightarrow> 's \<Rightarrow> bool" where
  "adds tr before Q s \<longleftrightarrow> (\<exists>evs. tr s = before @ evs \<and> list_all Q evs)"

lemma adds_start: "adds tr (tr s) Q s"
  by (simp add: adds_def)

lemma keeps_adds: "keeps (adds tr (tr s) Q) m \<Longrightarrow> adds tr (tr s) Q (snd (m s))"
  by (simp add: keeps_def adds_start)

lemma adds_more: "adds tr b Q s \<Longrightarrow> tr s' = tr s @ evs \<Longrightarrow> list_all Q evs \<Longrightarrow> adds tr b Q s'"
  by (auto simp: adds_def)

lemma adds_none: "adds tr b Q s \<Longrightarrow> tr s' = tr s \<Longrightarrow> adds tr b Q s'"
  by (simp add: adds_def)

lemma keeps_silently: "(\<And>s. P s \<Longrightarrow> P (f s)) \<Longrightarrow> keeps P (silently f)"
  by (simp add: keeps_def silently_def)

lemma keeps_wrapped: "keeps P m \<Longrightarrow> keeps P (wrapped t m)"
  unfolding wrapped_def by (rule keeps_wrapErr)

text \<open>What a confined container may do before its capabilities are set.\<close>

definition confined :: "cx_event \<Rightarrow> bool" where
  "confined ev =
     (case ev of
        Mknod p m d \<Rightarrow> m AND 0xf000 = CharDevice \<and> p \<in> (\<lambda>d. ''/dev/'' @ dv_Name d) ` set minimum_devices
      | Mounted src tgt fs fl \<Rightarrow> fs \<noteq> ''devtmpfs'' \<and> (fs \<in> {''proc'', ''sysfs''} \<longrightarrow> fl AND MS_RDONLY = MS_RDONLY)
      | _ \<Rightarrow> False)"

lemma flags_read_only: "proc_flags True AND MS_RDONLY = MS_RDONLY" 
    "(MS_NOSUID OR MS_RELATIME OR MS_NODEV OR MS_NOEXEC OR MS_RDONLY) AND MS_RDONLY = MS_RDONLY"
  by (simp_all add: proc_flags_def MS_NOSUID_def MS_RELATIME_def MS_NODEV_def MS_NOEXEC_def MS_RDONLY_def)

lemma devices_ok:
  "d \<in> set minimum_devices \<Longrightarrow> (dv_Type d OR dv_Mode d) AND 0xf000 = CharDevice \<and> path_join [''/dev'', dv_Name d] = ''/dev/'' @ dv_Name d"
  by (auto simp: minimum_devices_def char_device_def CharDevice_def) code_simp+

lemma observed:
  assumes "observes x tr" "adds tr b Q s"
  shows "Q (Mknod p m d) \<Longrightarrow> adds tr b Q (snd (cx_Mknod x p m d s))" "adds tr b Q (snd (cx_Symlink x old new s))"
    "adds tr b Q (cx_MkdirAll x p s)" "Q (Mounted src tgt fs fl) \<Longrightarrow> adds tr b Q (snd (cx_Mount x src tgt fs fl dt s))"
    "adds tr b Q (snd (cx_Umask x n s))" "adds tr b Q (snd (cx_Truncate x p s))" "adds tr b Q (cx_Print x p t s)"
    "adds tr b Q (snd (cx_Sethostname x h s))" "adds tr b Q (cx_RemoveAll x p s)" "adds tr b Q (cx_SetUnprivileged x s)"
    "adds tr b Q (cx_AddHandle x domn s)" "Q (Exported c) \<Longrightarrow> adds tr b Q (cx_Register x c pl e s)"
    "Q (Started ss) \<Longrightarrow> adds tr b Q (cx_RunSlice x ss s)"
  using assms unfolding observes_def by (auto intro: adds_more adds_none)

definition starts :: "cx_event \<Rightarrow> bool" where
  "starts ev \<longleftrightarrow> (\<exists>ss. ev = Started ss) \<or> (\<exists>c. ev = Exported c)"

lemma keeps_mk:
  assumes "observes x tr" "d \<in> set minimum_devices"
  shows "keeps (adds tr b confined) (device_mk x ''/dev'' d)"
proof -
  have "confined (Mknod (path_join [''/dev'', dv_Name d]) (dv_Type d OR dv_Mode d) n)" for n
    using devices_ok [OF assms(2)] assms(2) by (auto simp: confined_def)
  then show ?thesis unfolding device_mk_def by (intro keeps_call observed(1) [OF assms(1)])
qed

lemma setup_confined:
  assumes "observes x tr"
  shows "keeps (adds tr b confined) (setupFS x True)"
proof -
  note obs = observed [OF assms]
  have m: "confined (Mounted ''mqueue'' ''/dev/mqueue'' ''mqueue'' 0)"
      "confined (Mounted ''shm'' ''/dev/shm'' ''tmpfs'' (MS_NOSUID OR MS_NODEV OR MS_NOEXEC OR MS_RELATIME))"
      "confined (Mounted ''none'' ''/dev'' ''tmpfs'' MS_NOSUID)" "confined (Mounted ''none'' ''/proc'' ''proc'' (proc_flags True))"
      "confined (Mounted ''none'' ''/sys'' ''sysfs'' (MS_NOSUID OR MS_RELATIME OR MS_NODEV OR MS_NOEXEC OR MS_RDONLY))"
      "confined (Mounted ''none'' ''/dev/pts'' ''devpts'' 0)"
    using flags_read_only by (simp_all add: confined_def)
  have link: "keeps (adds tr b confined) (case p of (old, new) \<Rightarrow> wrapped (''failed to create symlink '' @ new @ ''->'' @ old @ '': '') (call (cx_Symlink x old new)))" for p
    by (cases p) (auto intro!: keeps_wrapped keeps_call obs(2))
  let ?rest = "\<lambda>previous. andThen (forEach (\<lambda>d. wrapped (''failed to create device '' @ dv_Name d @ '': '') (device_mk x ''/dev'' d)) minimum_devices) (\<lambda>_.
        andThen (forEach (\<lambda>(old, new). wrapped (''failed to create symlink '' @ new @ ''->'' @ old @ '': '') (call (cx_Symlink x old new)))
                  (cx_order x dev_links)) (\<lambda>_.
        andThen (silently (cx_MkdirAll x ''/dev/mqueue'')) (\<lambda>_.
        andThen (wrapped ''failed to mount mqueue: '' (call (cx_Mount x ''mqueue'' ''/dev/mqueue'' ''mqueue'' 0 []))) (\<lambda>_.
        andThen (silently (cx_MkdirAll x ''/dev/shm'')) (\<lambda>_.
        andThen (wrapped ''failed to mount shm: ''
                  (call (cx_Mount x ''shm'' ''/dev/shm'' ''tmpfs'' (MS_NOSUID OR MS_NODEV OR MS_NOEXEC OR MS_RELATIME) ''size=65536k''))) (\<lambda>_.
        silently (\<lambda>s. snd (cx_Umask x previous s))))))))"
  have rest: "keeps (adds tr b confined) (?rest previous)" for previous
    by (intro keeps_andThen keeps_forEach keeps_wrapped keeps_silently keeps_call keeps_mk [OF assms] link obs m)
  have populate: "keeps (adds tr b confined) (populateMinimumDev x)"
    unfolding keeps_def
  proof (intro allI impI)
    fix s
    assume "adds tr b confined s"
    then have a: "adds tr b confined (snd (cx_Umask x 0 s))" by (rule obs(5))
    obtain previous s0 where u: "cx_Umask x 0 s = (previous, s0)" by (rule prod.exhaust)
    show "adds tr b confined (snd (populateMinimumDev x s))"
      using a unfolding populateMinimumDev_def u prod.case snd_conv by (rule keepsD [OF rest])
  qed
  have dev: "keeps (adds tr b confined) (setup_dev x True)"
    unfolding setup_dev_def if_True by (intro keeps_andThen keeps_wrapped keeps_call obs(4) m populate)
  show ?thesis
    unfolding setupFS_def by (intro keeps_andThen keeps_silently keeps_call obs(3,4) m dev)
qed

lemma keeps_names:
  assumes "observes x tr"
  shows "keeps (adds tr b Q) (updateHostname x h)" "keeps (adds tr b Q) (linkMtab x)" "keeps (adds tr b Q) (silently (cx_SetUnprivileged x))"
proof -
  note obs = observed(2,6-10) [OF assms]
  show "keeps (adds tr b Q) (updateHostname x h)"
    unfolding updateHostname_def by (intro keeps_andThen keeps_silently keeps_call obs)
  show "keeps (adds tr b Q) (linkMtab x)"
    unfolding linkMtab_def by (intro keeps_andThen keeps_silently keeps_call obs)
  show "keeps (adds tr b Q) (silently (cx_SetUnprivileged x))"
    by (intro keeps_silently obs)
qed

lemma keeps_started:
  assumes "observes x tr"
  shows "keeps (adds tr b starts) (andThen (ignore (cx_plugins x)) (\<lambda>_. ignore (cx_startup x)))"
proof -
  note obs = observed [OF assms]
  have reg: "adds tr b starts s \<Longrightarrow> adds tr b starts (fold (\<lambda>export. cx_Register x (dom' @ ''.'' @ export) p export) es s)" for dom' p es s
    by (induction es arbitrary: s) (simp_all add: obs(12) starts_def)
  have one: "adds tr b starts s \<Longrightarrow> adds tr b starts (add_plugin x dp s)" for dp s
    by (cases dp) (simp add: add_plugin_def reg [simplified] obs(11))
  have all: "adds tr b starts s \<Longrightarrow> adds tr b starts (fold (add_plugin x) ps s)" for ps s
    by (induction ps arbitrary: s) (simp_all add: one)
  have plugins: "keeps (adds tr b starts) (cx_plugins x)"
    unfolding cx_plugins_def by (intro keeps_andThen keeps_simps keeps_silently all)
  have startup: "keeps (adds tr b starts) (cx_startup x)"
    unfolding cx_startup_def by (auto intro!: keeps_andThen keeps_simps keeps_silently obs(13) simp: starts_def split: prod.split)
  show ?thesis by (intro keeps_andThen keeps_ignore plugins startup)
qed

text \<open>
  C17. An unprivileged container starts and exports nothing before its process has exactly the capabilities that are kept, whatever fails; until then it makes
  only the seven character devices, mounts no device file system, and mounts the files of the kernel for reading only.  When the start does not
  fail the capabilities are set.
\<close>

theorem unprivileged_confined:
  fixes x :: "'s init_sys"
  assumes "observes x tr" "cx_Bootstrap x True hostname s = (r, s')"
  shows "\<exists>prep rest. tr s' = tr s @ prep @ rest \<and> list_all confined prep \<and> (r = Inr () \<longrightarrow> rest \<noteq> []) \<and>
    (rest = [] \<or> (\<exists>started. rest = Capabilities (\<lambda>_. kept_capabilities) # started \<and> list_all starts started))"
proof -
  let ?before = "andThen (setupFS x True) (\<lambda>_. andThen (updateHostname x hostname) (\<lambda>_. andThen (linkMtab x) (\<lambda>_. silently (cx_SetUnprivileged x))))"
  let ?last = "andThen (ignore (cx_plugins x)) (\<lambda>_. ignore (cx_startup x)) :: 's ceff"
  have boot: "cx_Bootstrap x True hostname = andThen ?before (\<lambda>_. andThen (revokePrivileges x) (\<lambda>_. ?last))"
    by (simp add: cx_Bootstrap_def andThen_assoc)
  obtain r1 s1 where s1: "?before s = (r1, s1)" by (rule prod.exhaust)
  have "keeps (adds tr (tr s) confined) ?before"
    by (intro keeps_andThen setup_confined [OF assms(1)] keeps_names [OF assms(1)])
  then have "adds tr (tr s) confined s1" using keeps_adds s1 by (metis snd_conv)
  then obtain prep where prep: "tr s1 = tr s @ prep" "list_all confined prep" unfolding adds_def by blast
  show ?thesis
  proof (cases r1)
    case (Inl e)
    then show ?thesis using assms(2) s1 prep unfolding boot by (auto simp: andThen_Inl)
  next
    case (Inr u)
    show ?thesis
    proof (cases "fst (revokePrivileges x s1)")
      case (Inl e)
      have "tr (snd (revokePrivileges x s1)) = tr s1"
        using Inl assms(1) by (auto simp: revokePrivileges_def observes_def split: prod.splits bool.splits if_splits) (metis fst_conv snd_conv append_Nil2)
      moreover have "s' = snd (revokePrivileges x s1)" "r \<noteq> Inr ()"
        using assms(2) s1 \<open>r1 = Inr u\<close> Inl unfolding boot by (auto simp: andThen_def split: prod.splits)
      ultimately have "tr s' = tr s @ prep @ []" "r \<noteq> Inr ()" using prep(1) by simp_all
      then show ?thesis using prep(2) by blast
    next
      case (Inr v)
      let ?s2 = "snd (revokePrivileges x s1)"
      have caps: "tr ?s2 = tr s1 @ [Capabilities (\<lambda>_. kept_capabilities)]"
        using Inr assms(1) by (auto simp: revokePrivileges_def observes_def split: prod.splits bool.splits if_splits) (metis fst_conv snd_conv)
      have e1: "?before s = (Inr u, s1)" using s1 \<open>r1 = Inr u\<close> by simp
      have e2: "revokePrivileges x s1 = (Inr v, ?s2)" using Inr by (metis prod.collapse)
      have "?last ?s2 = (r, s')" using assms(2) unfolding boot
        by (simp only: andThen_Inr [where m = ?before, OF e1] andThen_Inr [where m = "revokePrivileges x", OF e2])
      then have "s' = snd (?last ?s2)" by simp
      then have "adds tr (tr ?s2) starts s'" using keeps_adds [OF keeps_started [OF assms(1)]] by simp
      then obtain started where "tr s' = tr ?s2 @ started" "list_all starts started" unfolding adds_def by blast
      then show ?thesis using prep caps by (intro exI [of _ prep] exI [of _ "Capabilities (\<lambda>_. kept_capabilities) # started"]) auto
    qed
  qed
qed

text \<open>A command of an export keeps what the caller asked for except for its flags: its process leaves the group that all processes of the container share.\<close>

theorem plugin_flags_lost:
  "cmd_Flags (pluginFactory encode p fn cmd) = \<lparr>Protected = False, NoOutput = False, NoSetPGID = False\<rparr> \<and>
   cmd_Queue (pluginFactory encode p fn (plugin_Pre domain (cmd\<lparr>cmd_Command := domain @ ''.'' @ fn\<rparr>))) = domain"
  by (simp add: pluginFactory_def plugin_Pre_def hasPrefix_def)

section \<open>A sample container\<close>

definition sampleInit :: "cx_event list init_sys" where
  "sampleInit =
     \<lparr>cx_Mknod = (\<lambda>p m d s. (None, s @ [Mknod p m d])), cx_Symlink = (\<lambda>_ _ s. (None, s)), cx_MkdirAll = (\<lambda>_ s. s),
      cx_Mount = (\<lambda>src tgt fs fl d s. (None, s @ [Mounted src tgt fs fl])), cx_Unmount = (\<lambda>_ s. s), cx_Umask = (\<lambda>_ s. (18, s)),
      cx_Truncate = (\<lambda>_ s. (None, s)), cx_Print = (\<lambda>_ _ s. s), cx_Sethostname = (\<lambda>_ s. (None, s)), cx_RemoveAll = (\<lambda>_ s. s),
      cx_order = (\<lambda>ls. ls), cx_CapClear = (\<lambda>_. True), cx_CapSet = (\<lambda>_ _. True),
      cx_CapSetProc = (\<lambda>c s. (True, s @ [Capabilities c])), cx_SetUnprivileged = (\<lambda>s. s), cx_Startup = (\<lambda>_. Inl (Errorf ''no file'')),
      cx_Plugins = (\<lambda>_. Inr [(''web'', \<lparr>pl_Path = ''/bin/web'', pl_Queue = False, pl_Exports = [''get'']\<rparr>)]), cx_AddHandle = (\<lambda>_ s. s),
      cx_Register = (\<lambda>c _ _ s. s @ [Exported c]), cx_RunSlice = (\<lambda>ss s. s @ [Started ss]), cx_Shutdown = (\<lambda>_ s. s)\<rparr>"

lemma sampleInit_observes: "observes sampleInit (\<lambda>s. s)"
  by (simp add: observes_def sampleInit_def)

theorem unprivileged_confined_witness:
  "\<exists>s' prep rest. cx_Bootstrap sampleInit True ''box'' [] = (Inr (), s') \<and> s' = prep @ rest \<and> list_all confined prep \<and> rest \<noteq> []"
proof -
  obtain r s' where s': "cx_Bootstrap sampleInit True ''box'' [] = (r, s')" by (rule prod.exhaust)
  have "fst (cx_Bootstrap sampleInit True ''box'' []) = Inr ()"
    by (simp add: cx_Bootstrap_def setupFS_def setup_dev_def populateMinimumDev_def minimum_devices_def dev_links_def device_mk_def wrapped_def
        updateHostname_def linkMtab_def revokePrivileges_def sampleInit_def andThen_def wrapErr_def call_def silently_def eff_simps)
  then have r: "r = Inr ()" by (simp add: s')
  then show ?thesis using unprivileged_confined [OF sampleInit_observes s'] s' by auto
qed

end
