(* ===== verification/Container_Link.thy ===== *)
theory Container_Link
  imports Container_Network Logger Transport
begin

text \<open>
  The link between core0 and the init of a container: what the init sends, \<^verbatim>\<open>apps/coreX/backend.go\<close>, its loop over commands, \<^verbatim>\<open>apps/coreX/main.go\<close>, what
  core0 does with it, \<^verbatim>\<open>apps/core0/subsys/containers/comm.go\<close>, and the questions about zerotier, \<^verbatim>\<open>zerotier.go\<close>.  The pipe carries JSON, whose encoder and
  decoder are parameters.
\<close>

section \<open>Messages\<close>

text \<open>A payload is what the encoder makes of a value.\<close>

record 'p link_message =
  lm_Type :: string
  lm_Command :: string
  lm_Payload :: 'p

definition ResultMessage :: string where "ResultMessage = ''result''"
definition LogMessage :: string where "LogMessage = ''log''"
definition StatsMessage :: string where "StatsMessage = ''stats''"

text \<open>The statistics as they are on the pipe; they have no field for the id.\<close>

record 'f link_stats =
  ls_Operation :: string
  ls_Key :: string
  ls_Value :: 'f
  ls_Tags :: "tag list"

text \<open>A decoder gives what it has decoded along with its error, and the caller goes on with it.\<close>

record ('f, 'p) link_codec =
  lc_result :: "job_result \<Rightarrow> 'p"
  lc_unresult :: "'p \<Rightarrow> job_result \<times> go_error option"
  lc_log :: "message \<Rightarrow> 'p"
  lc_unlog :: "'p \<Rightarrow> message \<times> go_error option"
  lc_stats :: "'f link_stats \<Rightarrow> 'p"
  lc_unstats :: "'p \<Rightarrow> 'f link_stats \<times> go_error option"

section \<open>The container\<close>

definition dispatcher_Pre :: "command \<Rightarrow> command" where
  "dispatcher_Pre cmd = cmd\<lparr>cmd_Flags := (cmd_Flags cmd)\<lparr>NoSetPGID := True\<rparr>\<rparr>"

definition dispatcher_Result :: "('f, 'p) link_codec \<Rightarrow> command \<Rightarrow> job_result \<Rightarrow> 'p link_message" where
  "dispatcher_Result lc cmd result = \<lparr>lm_Type = ResultMessage, lm_Command = cmd_ID cmd, lm_Payload = lc_result lc result\<rparr>"

definition dispatcher_Message :: "('f, 'p) link_codec \<Rightarrow> command \<Rightarrow> message \<Rightarrow> 'p link_message" where
  "dispatcher_Message lc cmd msg = \<lparr>lm_Type = LogMessage, lm_Command = cmd_ID cmd, lm_Payload = lc_log lc msg\<rparr>"

definition dispatcher_Stats :: "('f, 'p) link_codec \<Rightarrow> 'f stats_call \<Rightarrow> 'p link_message" where
  "dispatcher_Stats lc c =
     \<lparr>lm_Type = StatsMessage, lm_Command = [],
      lm_Payload = lc_stats lc \<lparr>ls_Operation = st_op c, ls_Key = st_key c, ls_Value = st_value c, ls_Tags = st_tags c\<rparr>\<rparr>"

definition UnlockMagic :: int where "UnlockMagic = 0x280682"

text \<open>The init waits for the number before it sets anything up.\<close>

definition unlock :: "go_error + int \<Rightarrow> go_error option" where
  "unlock magic =
     (case magic of
        Inl e \<Rightarrow> Some (Errorf ''failed to load unlock magic'')
      | Inr n \<Rightarrow> if n \<noteq> UnlockMagic then Some (Errorf ''invalid magic number'') else None)"

text \<open>One round of the loop: a command that could not be decoded is run all the same, as far as it was.\<close>

definition corex_step ::
  "('f, 'p) link_codec \<Rightarrow> (command \<Rightarrow> 'm \<Rightarrow> run_error option \<times> 'm) \<Rightarrow> command \<times> go_error option \<Rightarrow> 'm \<Rightarrow> 'p link_message list \<times> 'm" where
  "corex_step lc run decoded p =
     (let cmd = fst decoded in
      case run cmd p of
        (Some UnknownCommandErr, p1) \<Rightarrow> ([dispatcher_Result lc cmd ((NewJobResult cmd)\<lparr>jr_State := Some StateUnknownCmd\<rparr>)], p1)
      | (_, p1) \<Rightarrow> ([], p1))"

section \<open>core0\<close>

text \<open>What is written to the pipe: the number, then every command that can be encoded.\<close>

definition link_forward :: "(command \<Rightarrow> string option) \<Rightarrow> command list \<Rightarrow> string list" where
  "link_forward encode cmds = itoaInt UnlockMagic # List.map_filter encode cmds"

datatype 'f link_action = ForwardResult job_result | LogRecord log_record | AggregateStats "'f stats_call" | UnknownMessage string

definition core_stats_key :: "u16 \<Rightarrow> string \<Rightarrow> string" where
  "core_stats_key i key = ''core-'' @ itoa (unat i) @ ''.'' @ key"

definition rewind_message :: "('f, 'p) link_codec \<Rightarrow> u16 \<Rightarrow> 'p link_message \<Rightarrow> 'f link_action" where
  "rewind_message lc i m =
     (if lm_Type m = ''result'' then ForwardResult ((fst (lc_unresult lc (lm_Payload m)))\<lparr>jr_Container := ucast i\<rparr>)
      else if lm_Type m = ''log'' then
        LogRecord \<lparr>lr_Core = i, lr_Command = lm_Command m, lr_Message = fst (lc_unlog lc (lm_Payload m))\<rparr>
      else if lm_Type m = ''stats'' then
        (let stat = fst (lc_unstats lc (lm_Payload m)) in
         AggregateStats \<lparr>st_op = ls_Operation stat, st_key = core_stats_key i (ls_Key stat), st_value = ls_Value stat, st_id = [], st_tags = ls_Tags stat\<rparr>)
      else UnknownMessage (lm_Type m))"

text \<open>The loop ends at the first message that does not decode, which the end of the pipe is too.\<close>

fun rewind :: "('f, 'p) link_codec \<Rightarrow> u16 \<Rightarrow> (go_error + 'p link_message) list \<Rightarrow> 'f link_action list" where
  "rewind lc i [] = []"
| "rewind lc i (Inl e # ms) = []"
| "rewind lc i (Inr m # ms) = rewind_message lc i m # rewind lc i ms"

section \<open>Zerotier\<close>

definition zerotier_query :: "('w, 'c) chost \<Rightarrow> container \<Rightarrow> string \<Rightarrow> 'w \<times> 'c \<Rightarrow> (go_error + string) \<times> 'w \<times> 'c" where
  "zerotier_query ch c verb s =
     (case system ch [''ip'', ''netns'', ''exec'', ct_name c, ''zerotier-cli'', ''-j'', ''-D'' @ zerotierHome c, verb] s of
        (Inl e, s1) \<Rightarrow> (Inl e, s1)
      | (Inr job, s1) \<Rightarrow> (Inr (Stdout (jr_Streams job)), s1))"

datatype zt_answer = ZtError go_error | ZtInfo "(string \<times> json) list" | ZtList json | ZtPanic

text \<open>The private identity is added to what zerotier answers; a null leaves no map to add it to.\<close>

definition ztInfo ::
  "('w, 'c) chost \<Rightarrow> (string \<Rightarrow> go_error + json) \<Rightarrow> container_mgr \<Rightarrow> u16 \<Rightarrow> 'w \<times> 'c \<Rightarrow> zt_answer \<times> 'w \<times> 'c" where
  "ztInfo ch parse_json m i s =
     (case Of i m of
        None \<Rightarrow> (ZtError (Errorf ''container does not exist''), s)
      | Some c \<Rightarrow>
          (case zerotier_query ch c ''info'' s of
             (Inl e, s1) \<Rightarrow> (ZtError e, s1)
           | (Inr out, s1) \<Rightarrow>
               (case parse_json out of
                  Inl e \<Rightarrow> (ZtError e, s1)
                | Inr (JObj es) \<Rightarrow>
                    let secret = case_sum (\<lambda>_. []) (\<lambda>t. t) (ch_ReadFile ch (path_join [zerotierHome c, ''identity.secret'']) s1)
                    in (ZtInfo (put_entry (''secretIdentity'', JStr (trimSpace secret)) (fold put_entry es [])), s1)
                | Inr JNull \<Rightarrow> (ZtPanic, s1)
                | Inr _ \<Rightarrow> (ZtError (Errorf ''json: cannot unmarshal into Go value of type map[string]interface {}''), s1))))"

definition ztList ::
  "('w, 'c) chost \<Rightarrow> (string \<Rightarrow> go_error + json) \<Rightarrow> container_mgr \<Rightarrow> u16 \<Rightarrow> 'w \<times> 'c \<Rightarrow> zt_answer \<times> 'w \<times> 'c" where
  "ztList ch parse_json m i s =
     (case Of i m of
        None \<Rightarrow> (ZtError (Errorf ''container does not exist''), s)
      | Some c \<Rightarrow>
          (case zerotier_query ch c ''listnetworks'' s of
             (Inl e, s1) \<Rightarrow> (ZtError e, s1)
           | (Inr out, s1) \<Rightarrow> (case parse_json out of Inl e \<Rightarrow> (ZtError e, s1) | Inr j \<Rightarrow> (ZtList j, s1))))"

section \<open>Properties\<close>

text \<open>What the process manager of a container reports, and what becomes of it on the way to core0.\<close>

datatype 'f report = Finished command job_result | Said command message | Measured "'f stats_call"

fun link_sent :: "('f, 'p) link_codec \<Rightarrow> 'f report \<Rightarrow> 'p link_message" where
  "link_sent lc (Finished cmd r) = dispatcher_Result lc cmd r"
| "link_sent lc (Said cmd msg) = dispatcher_Message lc cmd msg"
| "link_sent lc (Measured c) = dispatcher_Stats lc c"

fun link_received :: "u16 \<Rightarrow> 'f report \<Rightarrow> 'f link_action" where
  "link_received i (Finished cmd r) = ForwardResult (r\<lparr>jr_Container := ucast i\<rparr>)"
| "link_received i (Said cmd msg) = LogRecord \<lparr>lr_Core = i, lr_Command = cmd_ID cmd, lr_Message = msg\<rparr>"
| "link_received i (Measured c) = AggregateStats (c\<lparr>st_key := core_stats_key i (st_key c), st_id := []\<rparr>)"

definition codec_ok :: "('f, 'p) link_codec \<Rightarrow> bool" where
  "codec_ok lc \<longleftrightarrow>
     (\<forall>r. lc_unresult lc (lc_result lc r) = (r, None)) \<and> (\<forall>m. lc_unlog lc (lc_log lc m) = (m, None)) \<and>
     (\<forall>s. lc_unstats lc (lc_stats lc s) = (s, None))"


text \<open>An answer of zerotier that is null ends core0, while the list is passed on whatever it is.\<close>

theorem null_info_panics:
  assumes "Of i m = Some c" "zerotier_query ch c ''info'' s = (Inr out, s1)" "parse_json out = Inr JNull"
  shows "ztInfo ch parse_json m i s = (ZtPanic, s1)"
  using assms by (simp add: ztInfo_def)

section \<open>A sample link\<close>

definition plainCodec :: "(nat, job_result + message + nat link_stats) link_codec" where
  "plainCodec =
     \<lparr>lc_result = Inl, lc_unresult = (\<lambda>p. (projl p, None)), lc_log = (\<lambda>m. Inr (Inl m)), lc_unlog = (\<lambda>p. (projl (projr p), None)),
      lc_stats = (\<lambda>s. Inr (Inr s)), lc_unstats = (\<lambda>p. (projr (projr p), None))\<rparr>"


end
