(* ===== verification/Redis_Proxy.thy ===== *)
theory Redis_Proxy
  imports Containers
begin

text \<open>
  \<^verbatim>\<open>apps/redis-proxy\<close>: the proxy before the redis of a node, \<^verbatim>\<open>proxy.go\<close>, and its check of tokens, \<^verbatim>\<open>auth.go\<close>.  The library of tokens, redis and the
  connection of the client are parameters; a connection is whether its context is set, and what is written to it.
\<close>

section \<open>Tokens\<close>

text \<open>The signing method of a token: the algorithm of the method when it is of the ECDSA kind, and the one that the header names.\<close>

record jwt_method =
  jm_ECDSA :: "string option"
  jm_alg :: json

record jwt_token =
  jt_Method :: jwt_method
  jt_Valid :: bool
  jt_Claims :: "string \<rightharpoonup> json"

text \<open>\<^verbatim>\<open>jwt.Parse\<close> asks for the key by the method of the token.\<close>

record 'k jwt_lib =
  jl_ParsePEM :: "string \<Rightarrow> go_error + 'k"
  jl_Parse :: "string \<Rightarrow> (jwt_method \<Rightarrow> go_error + 'k) \<Rightarrow> go_error + jwt_token"
  jl_ClaimsValid :: "(string \<rightharpoonup> json) \<Rightarrow> go_error option"

definition fold_in :: "string \<Rightarrow> string list \<Rightarrow> bool" where
  "fold_in s l \<longleftrightarrow> list_ex (equalFold s) l"

definition key_for :: "'k \<Rightarrow> jwt_method \<Rightarrow> go_error + 'k" where
  "key_for pub m =
     (case jm_ECDSA m of
        None \<Rightarrow> Inl (Errorf ''Unexpected signing method'')
      | Some alg \<Rightarrow> if jm_alg m \<noteq> JStr alg then Inl (Errorf ''Unexpected signing algorithm'') else Inr pub)"

definition scope_admits :: "string list \<Rightarrow> json option \<Rightarrow> bool" where
  "scope_admits scopes v =
     (case v of
        Some (JArr ss) \<Rightarrow> list_ex (\<lambda>s. case s of JStr t \<Rightarrow> fold_in t scopes | _ \<Rightarrow> False) ss
      | _ \<Rightarrow> False)"

definition member_scopes :: "string list \<Rightarrow> string list" where
  "member_scopes organizations = map (\<lambda>organization. ''user:memberof:'' @ organization) organizations"

definition check_token :: "'k jwt_lib \<Rightarrow> string list \<Rightarrow> 'k \<Rightarrow> string \<Rightarrow> bool" where
  "check_token j organizations pub token =
     (case jl_Parse j token (key_for pub) of
        Inl e \<Rightarrow> False
      | Inr t \<Rightarrow>
          if \<not> jt_Valid t then False
          else if jl_ClaimsValid j (jt_Claims t) \<noteq> None then False
          else if (case jt_Claims t ''azp'' of Some (JStr azp) \<Rightarrow> fold_in azp organizations | _ \<Rightarrow> False) then True
          else scope_admits (member_scopes organizations) (jt_Claims t ''scope''))"

definition AuthMethod :: "'k jwt_lib \<Rightarrow> string list \<Rightarrow> string \<Rightarrow> go_error + (string \<Rightarrow> bool)" where
  "AuthMethod j organizations key = map_sum (\<lambda>e. e) (check_token j organizations) (jl_ParsePEM j key)"

section \<open>The proxy\<close>

record redis_proxy =
  px_auth :: "string \<Rightarrow> bool"
  px_doAuth :: bool

text \<open>Without organizations every connection is served.\<close>

definition Proxy :: "'k jwt_lib \<Rightarrow> string list \<Rightarrow> string \<Rightarrow> go_error + redis_proxy" where
  "Proxy j organizations key =
     (if length organizations > 0 then map_sum (\<lambda>e. e) (\<lambda>f. \<lparr>px_auth = f, px_doAuth = True\<rparr>) (AuthMethod j organizations key)
      else Inr \<lparr>px_auth = (\<lambda>_. True), px_doAuth = False\<rparr>)"

text \<open>An answer of redis as the library gives it, and what is written to a client.\<close>

datatype redis_value = RErr string | RInt int | RStr string | RBulk string | RArr "redis_value list" | RNil

datatype written = WError string | WInt int | WString string | WBulk string | WNull | WArray nat

text \<open>\<open>show\<close> is the text of a value that is none of the kinds; it includes the nil, and the array, within an array.\<close>

definition write_value :: "(redis_value \<Rightarrow> string) \<Rightarrow> redis_value \<Rightarrow> written" where
  "write_value print v =
     (case v of
        RErr e \<Rightarrow> WError e
      | RInt n \<Rightarrow> WInt n
      | RStr s \<Rightarrow> WString s
      | RBulk b \<Rightarrow> WBulk b
      | _ \<Rightarrow> WError (''unhandled return type: '' @ print v))"

definition write_result :: "(redis_value \<Rightarrow> string) \<Rightarrow> string + redis_value \<Rightarrow> written list" where
  "write_result print r =
     (case r of
        Inl e \<Rightarrow> [WError e]
      | Inr RNil \<Rightarrow> [WNull]
      | Inr (RArr vs) \<Rightarrow> WArray (length vs) # map (write_value print) vs
      | Inr v \<Rightarrow> [write_value print v])"

text \<open>Redis, as the proxy reaches it: a command with its arguments.\<close>

type_synonym 'r redis_do = "string \<Rightarrow> string list \<Rightarrow> 'r \<Rightarrow> (string + redis_value) \<times> 'r"

definition auth_cmd :: "redis_proxy \<Rightarrow> string list \<Rightarrow> bool \<Rightarrow> written list \<times> bool" where
  "auth_cmd p args ctx =
     (case args of
        [password] \<Rightarrow> if px_auth p password then ([WString ''OK''], True) else ([WError ''invalid jwt''], ctx)
      | _ \<Rightarrow> ([WError ''invalid number of arguments''], ctx))"

definition proxy_cmd ::
  "redis_proxy \<Rightarrow> 'r redis_do \<Rightarrow> (redis_value \<Rightarrow> string) \<Rightarrow> bool \<Rightarrow> string \<Rightarrow> string list \<Rightarrow> 'r \<Rightarrow> written list \<times> 'r" where
  "proxy_cmd p redis print ctx name args r =
     (if px_doAuth p \<and> \<not> ctx then ([WError ''permission denied, please call AUTH first with a valid JWT''], r)
      else (case redis name args r of (result, r1) \<Rightarrow> (write_result print result, r1)))"

definition translated :: "string \<Rightarrow> string" where
  "translated name =
     (let command = map lower name
      in if command = ''lkeyexists'' then ''exists'' else if command = ''lttl'' then ''ttl'' else name)"

text \<open>A command is its name and its arguments; the server calls the handler with at least a name.\<close>

definition px_handler ::
  "redis_proxy \<Rightarrow> 'r redis_do \<Rightarrow> (redis_value \<Rightarrow> string) \<Rightarrow> string \<times> string list \<Rightarrow> bool \<times> 'r \<Rightarrow> written list \<times> bool \<times> 'r" where
  "px_handler p redis print cmd cr =
     (case cmd of (name, args) \<Rightarrow> case cr of (ctx, r) \<Rightarrow>
        if map lower name = ''auth'' then (case auth_cmd p args ctx of (ws, ctx1) \<Rightarrow> (ws, ctx1, r))
        else (case proxy_cmd p redis print ctx (translated name) args r of (ws, r1) \<Rightarrow> (ws, ctx, r1)))"

text \<open>The commands of one connection, which starts without a context, with what is written for each.\<close>

fun serve ::
  "redis_proxy \<Rightarrow> 'r redis_do \<Rightarrow> (redis_value \<Rightarrow> string) \<Rightarrow> (string \<times> string list) list \<Rightarrow> bool \<times> 'r \<Rightarrow> written list list \<times> bool \<times> 'r" where
  "serve p redis print [] cr = ([], cr)"
| "serve p redis print (cmd # cmds) cr =
     (case px_handler p redis print cmd cr of (ws, cr1) \<Rightarrow>
        case serve p redis print cmds cr1 of (wss, cr2) \<Rightarrow> (ws # wss, cr2))"

section \<open>Properties\<close>

text \<open>What the library of tokens promises: a token that it finds valid is signed with the key it was given for its method.\<close>

definition jwt_checks :: "'k jwt_lib \<Rightarrow> ('k \<Rightarrow> string \<Rightarrow> bool) \<Rightarrow> bool" where
  "jwt_checks j sealed \<longleftrightarrow>
     (\<forall>token f t. jl_Parse j token f = Inr t \<and> jt_Valid t \<longrightarrow> (\<exists>k. f (jt_Method t) = Inr k \<and> sealed k token))"

text \<open>The claims name one of the organizations, as the party the token was given to or in a scope.\<close>

definition claims_member :: "string list \<Rightarrow> (string \<rightharpoonup> json) \<Rightarrow> bool" where
  "claims_member organizations claims \<longleftrightarrow>
     (\<exists>organization \<in> set organizations.
        (\<exists>azp. claims ''azp'' = Some (JStr azp) \<and> equalFold azp organization) \<or>
        (\<exists>ss s. claims ''scope'' = Some (JArr ss) \<and> JStr s \<in> set ss \<and> equalFold s (''user:memberof:'' @ organization)))"

text \<open>A token that opens the proxy.\<close>

definition admitted :: "'k jwt_lib \<Rightarrow> ('k \<Rightarrow> string \<Rightarrow> bool) \<Rightarrow> string list \<Rightarrow> 'k \<Rightarrow> string \<Rightarrow> bool" where
  "admitted j sealed organizations pub token \<longleftrightarrow>
     sealed pub token \<and>
     (\<exists>t f. jl_Parse j token f = Inr t \<and> jm_ECDSA (jt_Method t) \<noteq> None \<and> jl_ClaimsValid j (jt_Claims t) = None \<and>
        claims_member organizations (jt_Claims t))"

lemma is_string: "(case v of JStr t \<Rightarrow> P t | _ \<Rightarrow> False) \<longleftrightarrow> (\<exists>t. v = JStr t \<and> P t)"
  by (cases v) simp_all

lemma claim_string: "(case v of Some (JStr t) \<Rightarrow> P t | _ \<Rightarrow> False) \<longleftrightarrow> (\<exists>t. v = Some (JStr t) \<and> P t)"
  by (auto simp: is_string split: option.split)

lemma scope_admits_iff: "scope_admits scopes v \<longleftrightarrow> (\<exists>ss s. v = Some (JArr ss) \<and> JStr s \<in> set ss \<and> fold_in s scopes)"
  by (auto simp: scope_admits_def is_string list_ex_iff split: option.split json.split)

lemma fold_in_member: "fold_in s (member_scopes organizations) \<longleftrightarrow> (\<exists>organization \<in> set organizations. equalFold s (''user:memberof:'' @ organization))"
  unfolding fold_in_def member_scopes_def list_ex_iff by (simp only: set_map bex_simps(7))

lemma check_token_member:
  assumes "jwt_checks j sealed" "check_token j organizations pub token"
  shows "admitted j sealed organizations pub token"
proof -
  obtain t where t: "jl_Parse j token (key_for pub) = Inr t" "jt_Valid t" "jl_ClaimsValid j (jt_Claims t) = None"
      "(case jt_Claims t ''azp'' of Some (JStr azp) \<Rightarrow> fold_in azp organizations | _ \<Rightarrow> False) \<or>
       scope_admits (member_scopes organizations) (jt_Claims t ''scope'')"
    using assms(2) by (auto simp: check_token_def split: sum.splits if_splits)
  obtain k where k: "key_for pub (jt_Method t) = Inr k" "sealed k token" using assms(1) t(1,2) unfolding jwt_checks_def by blast
  have "k = pub" "jm_ECDSA (jt_Method t) \<noteq> None" using k(1) by (auto simp: key_for_def split: option.splits if_splits)
  moreover have "claims_member organizations (jt_Claims t)"
    using t(4) unfolding claims_member_def claim_string scope_admits_iff fold_in_member unfolding fold_in_def list_ex_iff by blast
  ultimately show ?thesis using k(2) t(1,3) unfolding admitted_def by blast
qed

lemma px_handler_closed:
  assumes "px_doAuth p" "px_handler p redis print (name, args) (False, r) = (ws, ctx, r1)"
  shows "r1 = r \<and> (ctx \<longrightarrow> map lower name = ''auth'' \<and> (\<exists>password. args = [password] \<and> px_auth p password)) \<and> (\<not> ctx \<longrightarrow> (\<exists>e. ws = [WError e]))"
  using assms by (auto simp: px_handler_def auth_cmd_def proxy_cmd_def split: if_splits list.splits)

text \<open>
  C30. With organizations given, nothing that a connection sends reaches redis, and all of it is answered with errors, before the connection has shown a token
  that is signed with the key by an ECDSA method and names one of the organizations.
\<close>

theorem proxy_guards:
  assumes "jwt_checks j sealed" "organizations \<noteq> []" "Proxy j organizations key = Inr p"
    and "serve p redis print cmds (False, r) = (wss, ctx, r1)"
    and "ctx \<or> r1 \<noteq> r \<or> \<not> list_all (\<lambda>ws. \<exists>e. ws = [WError e]) wss"
  shows "\<exists>name token pub. (name, [token]) \<in> set cmds \<and> map lower name = ''auth'' \<and> jl_ParsePEM j key = Inr pub \<and>
    admitted j sealed organizations pub token"
proof -
  obtain pub where pub: "jl_ParsePEM j key = Inr pub" "p = \<lparr>px_auth = check_token j organizations pub, px_doAuth = True\<rparr>"
    using assms(2,3) by (cases "jl_ParsePEM j key") (auto simp: Proxy_def AuthMethod_def)
  have closed: "r1 = r \<and> \<not> ctx \<and> list_all (\<lambda>ws. \<exists>e. ws = [WError e]) wss"
    if "\<forall>(name, args) \<in> set cmds. \<not> (map lower name = ''auth'' \<and> (\<exists>password. args = [password] \<and> px_auth p password))"
      "serve p redis print cmds (False, r) = (wss, ctx, r1)" for cmds wss ctx r r1
    using that
  proof (induction cmds arbitrary: wss)
    case (Cons cmd cmds)
    obtain name args where cmd: "cmd = (name, args)" by (cases cmd)
    obtain ws c r2 where h: "px_handler p redis print (name, args) (False, r) = (ws, c, r2)" by (rule prod_cases3)
    have c: "\<not> c" "r2 = r" "\<exists>e. ws = [WError e]" using px_handler_closed [OF _ h] pub(2) Cons.prems(1) cmd by auto
    obtain wss' where "wss = ws # wss'" "serve p redis print cmds (False, r) = (wss', ctx, r1)"
      using Cons.prems(2) cmd h c by (auto split: prod.splits)
    then show ?case using Cons.IH Cons.prems(1) c(3) by simp
  qed simp
  obtain name token where a: "(name, [token]) \<in> set cmds" "map lower name = ''auth''" "px_auth p token"
    using closed [OF _ assms(4)] assms(5) by fastforce
  have "admitted j sealed organizations pub token" using check_token_member [OF assms(1)] a(3) pub(2) by simp
  then show ?thesis using a(1,2) pub(1) by (intro exI conjI)
qed

text \<open>
  What is lost on the way: an element of an array that is missing, or is an array, is answered as an error, while the array itself is announced whole.
\<close>

theorem nested_lost:
  "write_result print (Inr (RArr [RBulk v, RNil])) = [WArray 2, WBulk v, WError (''unhandled return type: '' @ print RNil)] \<and>
   write_result print (Inr (RArr [RArr vs])) = [WArray 1, WError (''unhandled return type: '' @ print (RArr vs))]"
  by (simp add: write_result_def write_value_def)

section \<open>A sample\<close>

definition sampleToken :: jwt_token where
  "sampleToken =
     \<lparr>jt_Method = \<lparr>jm_ECDSA = Some ''ES384'', jm_alg = JStr ''ES384''\<rparr>, jt_Valid = True,
      jt_Claims = [''azp'' \<mapsto> JStr ''other'', ''scope'' \<mapsto> JArr [JNum 1, JStr ''user:memberof:threefold'']]\<rparr>"

definition sampleJwt :: "unit jwt_lib" where
  "sampleJwt =
     \<lparr>jl_ParsePEM = (\<lambda>_. Inr ()),
      jl_Parse = (\<lambda>token f. if token = ''good'' then map_sum (\<lambda>e. e) (\<lambda>_. sampleToken) (f (jt_Method sampleToken)) else Inl (Errorf ''bad'')),
      jl_ClaimsValid = (\<lambda>_. None)\<rparr>"

lemma sampleJwt_checks: "jwt_checks sampleJwt (\<lambda>k token. token = ''good'')"
  by (auto simp: jwt_checks_def sampleJwt_def map_sum_def split: if_splits sum.splits)

theorem proxy_guards_witness:
  "\<exists>p. Proxy sampleJwt [''threefold''] [] = Inr p \<and>
     serve p (\<lambda>name args r. (Inr (RInt 1), r + 1)) (\<lambda>_. []) [(''GET'', [''x'']), (''Auth'', [''good'']), (''GET'', [''x''])] (False, 0 :: nat) =
       ([[WError ''permission denied, please call AUTH first with a valid JWT''], [WString ''OK''], [WInt 1]], True, 1) \<and>
     admitted sampleJwt (\<lambda>k token. token = ''good'') [''threefold''] () ''good''"
proof -
  let ?p = "\<lparr>px_auth = check_token sampleJwt [''threefold''] (), px_doAuth = True\<rparr>"
  have p: "Proxy sampleJwt [''threefold''] [] = Inr ?p" by (simp add: Proxy_def AuthMethod_def sampleJwt_def)
  have s: "serve ?p (\<lambda>name args r. (Inr (RInt 1), r + 1)) (\<lambda>_. []) [(''GET'', [''x'']), (''Auth'', [''good'']), (''GET'', [''x''])] (False, 0 :: nat) =
       ([[WError ''permission denied, please call AUTH first with a valid JWT''], [WString ''OK''], [WInt 1]], True, 1)"
    by code_simp
  have "\<exists>name token pub. (name, [token]) \<in> set [(''GET'', [''x'']), (''Auth'', [''good'']), (''GET'', [''x''])] \<and> map lower name = ''auth'' \<and>
      jl_ParsePEM sampleJwt [] = Inr pub \<and> admitted sampleJwt (\<lambda>k token. token = ''good'') [''threefold''] pub token"
    by (rule proxy_guards [OF sampleJwt_checks _ p s]) simp_all
  moreover have "map lower ''GET'' \<noteq> ''auth''" by code_simp
  ultimately show ?thesis using p s by auto
qed

end
