(* ===== verification/Spec2Isabelle.thy ===== *)
theory Spec2Isabelle
  imports Stream_Message Stream_Buffer Stream_Consumer Pm_Command Pm_Queue Pm_Backoff Pm_Waitmachine Pm_Hooks
    Pm_Handlers Pm_Process Pm_Job Pm_Manager Pm_Slice Settings_Condition Settings_Startup Utils
    Go_Json Go_Net Nft_Rules Nft_Manager Socat Socat_Forward Transport Logger Stats Cgroups Container_Life
    Container_Safety Container_Paths Bridge_Safety Btrfs Kvm_Safety Kvm_Sync
    Disk_Safety Ip_Commands Dmi Fs_Files Fs_Sessions Flists Container_Commands Boot_Network Bootstrap Node_Jobs
    Node_Info Monitor Core_X Container_Link Redis_Proxy
begin

text \<open>
  A verification library of 0-core, the init process of Zero-OS.  0-core takes commands from a redis queue, runs each as a \<^emph>\<open>job\<close> under a process
  manager, and manages through such commands the containers, virtual machines, bridges, port forwards, control groups and disks of a node.

  \<^bold>\<open>How the parts fit together.\<close>  The sink (\<^verbatim>\<open>apps/core0/transport\<close>) pops commands and hands them to the process manager (\<^verbatim>\<open>base/pm\<close>), which
  queues them by name, runs each in a job that restarts its process with a back-off, and cuts the output of the process into messages; messages go to the
  loggers, statistics lines to the aggregation, and the result back to the sink.  At boot the settings (\<^verbatim>\<open>base/settings\<close>) give a tree of services that the
  process manager starts slice by slice, ordered by latches.  The commands of the node call each other: containers and virtual machines use bridges, the
  forwards of \<^verbatim>\<open>helper/socat\<close>, which are rules of \<^verbatim>\<open>base/nft\<close>, and control groups.

  \<^bold>\<open>Shared layers.\<close>  \<^verbatim>\<open>Prelude\<close>: machine integers, Go's strings, numbers and runes, generic lemmas.  \<^verbatim>\<open>Go_Json\<close>, \<^verbatim>\<open>Go_Net\<close>, \<^verbatim>\<open>Go_Scan\<close>: what
  is used of \<^verbatim>\<open>encoding/json\<close>, of \<^verbatim>\<open>net\<close> for IPv4, and of \<^verbatim>\<open>regexp\<close> and \<^verbatim>\<open>fmt.Sscanf\<close>.  \<^verbatim>\<open>Go_Effect\<close>: calls that may fail, in
  explicit state passing, with the rules that a step keeps a predicate of the state.  \<^verbatim>\<open>Netlink\<close>: the network devices as the node sees them.

  \<^bold>\<open>The process manager\<close> (\<^verbatim>\<open>base/pm\<close>).
  \<^item> \<^verbatim>\<open>Stream_Message\<close>, \<^verbatim>\<open>Stream_Buffer\<close>, \<^verbatim>\<open>Stream_Consumer\<close> (\<^verbatim>\<open>stream/\<close>): the meta word at 64 bits, the bounded backlog, which refines \<open>keep the last n\<close>
    (locale \<open>keeps_last\<close>), and the read loop that cuts output into messages: the messages of a text are found however it arrives in chunks.
  \<^item> \<^verbatim>\<open>Pm_Command\<close>, \<^verbatim>\<open>Pm_Process\<close>, \<^verbatim>\<open>Pm_Handlers\<close>, \<^verbatim>\<open>Pm_Hooks\<close>: commands, results and errors; the factories of processes and the code each kind
    of process ends with; message and statistics handlers; the hooks of one process (locale \<open>one_shot\<close>).
  \<^item> \<^verbatim>\<open>Pm_Queue\<close> (\<^verbatim>\<open>queue.go\<close>, locale \<open>job_queue\<close>): named queues as a step relation; one job of a name at a time, in order.
  \<^item> \<^verbatim>\<open>Pm_Backoff\<close>, \<^verbatim>\<open>Pm_Job\<close> (\<^verbatim>\<open>backoff.go\<close>, \<^verbatim>\<open>job.go\<close>): the delays and the run loop, a fold over the events of a run; the result of a run, the number
    of runs, and what interleaved signals can do.
  \<^item> \<^verbatim>\<open>Pm_Manager\<close> (\<^verbatim>\<open>pm.go\<close>): the manager as a transition system over registering, running, cleaning up and waiting for processes; the limit of jobs,
    its deadlock, shutdown and the delivery of exit states.
  \<^item> \<^verbatim>\<open>Pm_Waitmachine\<close>, \<^verbatim>\<open>Pm_Slice\<close> (\<^verbatim>\<open>waitmachine.go\<close>, \<^verbatim>\<open>RunSlice\<close>): the latches (locale \<open>latches\<close>) and the start of a slice, all services interleaved;
    order and progress.

  \<^bold>\<open>Settings and utilities.\<close>  \<^verbatim>\<open>Settings_Condition\<close> (\<^verbatim>\<open>condition.go\<close>): parser with fuel and evaluation; \<^verbatim>\<open>Settings_Startup\<close> (\<^verbatim>\<open>startup.go\<close>, \<^verbatim>\<open>tree.go\<close>,
  \<^verbatim>\<open>include.go\<close>): weights, the tree of services and its slices; \<^verbatim>\<open>Utils\<close> (\<^verbatim>\<open>base/utils\<close>): levels, templates, paths, the kernel command line.

  \<^bold>\<open>The boot\<close> (\<^verbatim>\<open>apps/core0/bootstrap\<close>).  \<^verbatim>\<open>Boot_Network\<close> (\<^verbatim>\<open>network/\<close>): which interfaces are set up and by which protocol; \<^verbatim>\<open>Bootstrap\<close>: the stages of the
  boot, the order of the services over all slices, the wait for the internet, and the set of the node's addresses that port forwards match on.

  \<^bold>\<open>Network of the node.\<close>  \<^verbatim>\<open>Nft_Rules\<close>, \<^verbatim>\<open>Nft_Manager\<close> (\<^verbatim>\<open>base/nft\<close>): the configuration text, the filters, the rendering of listed rules and the commands
  around the program \<^verbatim>\<open>nft\<close>; its promise is the hypothesis \<open>nft_tool\<close>.  \<^verbatim>\<open>Socat\<close>, \<^verbatim>\<open>Socat_Forward\<close> (\<^verbatim>\<open>helper/socat\<close>): forwards, written as rules and read
  back from the listing, reservation of ports.  \<^verbatim>\<open>Bridges\<close>, \<^verbatim>\<open>Bridge_Safety\<close> (\<^verbatim>\<open>builtin/bridge.go\<close>): every command of bridges; networks of bridges
  never overlap.

  \<^bold>\<open>Services of the node.\<close>  \<^verbatim>\<open>Transport\<close>, \<^verbatim>\<open>Logger\<close>, \<^verbatim>\<open>Stats\<close>, \<^verbatim>\<open>Cgroups\<close>, \<^verbatim>\<open>Btrfs\<close>: the packages of these names below \<^verbatim>\<open>apps/core0\<close>: commands run once,
  queues of subscribers, samples and periods, limits written in an order the kernel takes, listings read back as printed.  \<^verbatim>\<open>Redis_Proxy\<close>
  (\<^verbatim>\<open>apps/redis-proxy\<close>): the check of tokens and the connections that reach redis.

  \<^bold>\<open>Commands of the node.\<close>  \<^verbatim>\<open>Disks\<close>, \<^verbatim>\<open>Disk_Safety\<close> (\<^verbatim>\<open>builtin/disk.go\<close>): the commands of disks and partitions, which device they touch and what is
  read from the output of the programs; \<^verbatim>\<open>Ip_Commands\<close> (\<^verbatim>\<open>base/builtin/ip.go\<close>): links, bridges, bonds and routes; \<^verbatim>\<open>Dmi\<close> (\<^verbatim>\<open>builtin/dmi.go\<close>): the listing of
  \<^verbatim>\<open>dmidecode\<close>; \<^verbatim>\<open>Fs_Files\<close>, \<^verbatim>\<open>Fs_Sessions\<close> (\<^verbatim>\<open>base/builtin/fs.go\<close>): commands on files, and the cache of open files under interleaved commands; \<^verbatim>\<open>Node_Jobs\<close>: the commands on
  jobs (\<^verbatim>\<open>base/builtin/job.go\<close>, \<^verbatim>\<open>subscribe.go\<close>, \<^verbatim>\<open>get_aggregated_stats.go\<close>), the two stages of a shutdown (\<^verbatim>\<open>power.go\<close>) and the clients of \<^verbatim>\<open>rtinfo.go\<close>;
  \<^verbatim>\<open>Node_Info\<close> (\<^verbatim>\<open>info.go\<close>, \<^verbatim>\<open>process.go\<close>): interfaces, open ports and processes, read from the files of the kernel; \<^verbatim>\<open>Monitor\<close> (\<^verbatim>\<open>monitor.go\<close>): what is
  measured of a node.

  \<^bold>\<open>Containers\<close> (\<^verbatim>\<open>subsys/containers\<close>).  \<^verbatim>\<open>Containers\<close>: arguments, validation, the table, dispatch; \<^verbatim>\<open>Container_Network\<close>: the devices of a container;
  \<^verbatim>\<open>Container_Life\<close>: its root, start, hooks, end and the commands that change the table.  \<^verbatim>\<open>Container_Safety\<close>: an invariant of the table over every
  history and what a creation leaves; \<^verbatim>\<open>Container_Paths\<close>: which paths stay in the root.  \<^verbatim>\<open>Flists\<close> (\<^verbatim>\<open>helper/filesystem\<close>, the archives of \<^verbatim>\<open>flist.go\<close>): where the
  entries of an archive go and what a mount answers; \<^verbatim>\<open>Container_Commands\<close>: the set-up of the manager, listings, images and backups, which never leave a
  container stopped.  \<^verbatim>\<open>Core_X\<close> (\<^verbatim>\<open>coreX/bootstrap\<close>): what the init of a container sets up before it starts anything, and its plugins; \<^verbatim>\<open>Container_Link\<close>
  (\<^verbatim>\<open>coreX/main.go\<close>, \<^verbatim>\<open>backend.go\<close>, \<^verbatim>\<open>comm.go\<close>, \<^verbatim>\<open>zerotier.go\<close>): what goes over the pipe between core0 and that init.

  \<^bold>\<open>Virtual machines\<close> (\<^verbatim>\<open>subsys/kvm\<close>).  \<^verbatim>\<open>Kvm\<close>: parameters, validation, numbers and addresses, disks and the description handed to libvirt;
  \<^verbatim>\<open>Kvm_Manager\<close>: connection, networks, roots from flists, creation, end and events; \<^verbatim>\<open>Kvm_Devices\<close>: attaching and detaching, migration, listing,
  statistics; \<^verbatim>\<open>Kvm_Sync\<close> (\<^verbatim>\<open>sync.go\<close>): the wait for the removal of a device, interleaved.  \<^verbatim>\<open>Kvm_Addresses\<close> and \<^verbatim>\<open>Kvm_Safety\<close> hold the properties: a creation adds one
  machine or none, numbers and addresses, names of disks, the text sent along with a migration.

  \<^bold>\<open>Conventions.\<close>  A struct is a record, a w bit integer a word, an error a value of a sum or option; a panic is a value of its own where the code can
  reach one.  A Go map is a partial function, or a list of pairs where the order of a \<^verbatim>\<open>range\<close> loop can be seen.  Code outside the repository is a
  parameter: records of functions over a state (\<open>host\<close>, \<open>netlink\<close>, \<open>redis\<close>, \<open>cg_fs\<close>, \<open>bhost\<close>, \<open>chost\<close>, \<open>libvirt\<close>, \<open>float_ops\<close>), among them the programs
  \<^verbatim>\<open>nft\<close>, \<^verbatim>\<open>btrfs\<close> and \<^verbatim>\<open>qemu-img\<close>, redis, the kernel's files, parsing of URLs and YAML, and the arithmetic of \<^verbatim>\<open>float64\<close>, of which no law is assumed.
  What a property needs of them is a hypothesis, and its witness instantiates it.  Concurrency is a step relation, or a function per critical section with
  the sections interleaved in any order; where a command holds its lock throughout it is one step.  Strings are ASCII and addresses IPv4.

  \<^bold>\<open>Fuel and bounds.\<close>  The parser of conditions has fuel; running out is the value \<^const>\<open>None\<close> and the properties say when it does not.  The search for the next
  identifier of a container and for a port looks at 65536 numbers, which are all there are.  The wait for the internet at boot has fuel: 40 rounds of three
  seconds are enough for its two minutes; the retries around it can go on for ever, as in the code.  The loops of \<^verbatim>\<open>regexp\<close> matching are bounded by the length of their
  input.  The reserved numbers of machines are skipped within three rounds.

  \<^bold>\<open>Not modelled.\<close>  Goroutines that copy the bytes of pipes, the bytes of archives, the TOML and XML libraries, certificates and
  sockets, drawing on the console, the clients (\<^verbatim>\<open>corectl\<close>, \<^verbatim>\<open>client/\<close>), profiling and downloads, generated assets, and the entry points that only
  register commands.  The JSON form of the arguments is modelled where a command rests on defaults and nulls, else commands take them decoded.
\<close>

end
